(* ===== verification/Prelude.thy ===== *)
theory Prelude
  imports Main
begin

text \<open>
  Shared vocabulary of the development: the parts of JavaScript that the modelled code
  relies on (trimming and emptiness of strings, safe integers), results of code that may
  throw, and the generic lemmas the component theories use.

  A JavaScript string is a \<^typ>\<open>string\<close>, one character per code unit; code units above 255 do
  not occur in a \<^typ>\<open>string\<close>, so text is modelled up to Latin-1.
  A number that the code treats as an integer is an \<^typ>\<open>int\<close>; the code's own range checks
  (\<open>Number.isSafeInteger\<close>) are written out.
  A function that may throw returns \<^typ>\<open>'e + 'a\<close>: \<^term>\<open>Inl e\<close> is the thrown error.
\<close>

named_theorems row_defs \<open>definitions of the validation of a coordinator row\<close>
named_theorems op_defs \<open>definitions of the coordinator's operations\<close>

subsection \<open>Strings\<close>

definition is_js_whitespace :: "char \<Rightarrow> bool" where
  "is_js_whitespace c \<longleftrightarrow> of_char c \<in> set [9, 10, 11, 12, 13, 32, 160 :: nat]"

definition trim_start :: "string \<Rightarrow> string" where
  "trim_start s = dropWhile is_js_whitespace s"

definition trim :: "string \<Rightarrow> string" where
  "trim s = rev (trim_start (rev (trim_start s)))"

text \<open>\<open>!value.trim()\<close> and \<open>value.trim().length > 0\<close>.\<close>

definition is_blank :: "string \<Rightarrow> bool" where
  "is_blank s \<longleftrightarrow> trim s = []"

lemma trim_start_Nil_iff: "trim_start s = [] \<longleftrightarrow> (\<forall>c \<in> set s. is_js_whitespace c)"
  by (simp add: trim_start_def dropWhile_eq_Nil_conv)

lemma is_blank_iff: "is_blank s \<longleftrightarrow> (\<forall>c \<in> set s. is_js_whitespace c)"
proof -
  have "is_blank s \<longleftrightarrow> (\<forall>c \<in> set (trim_start s). is_js_whitespace c)"
    by (simp add: is_blank_def trim_def trim_start_Nil_iff)
  also have "\<dots> \<longleftrightarrow> trim_start s = []"
  proof
    assume all: "\<forall>c \<in> set (trim_start s). is_js_whitespace c"
    show "trim_start s = []"
    proof (rule ccontr)
      assume ne: "trim_start s \<noteq> []"
      then have "\<not> is_js_whitespace (hd (trim_start s))"
        unfolding trim_start_def by (rule hd_dropWhile)
      with all ne show False by (simp add: hd_in_set)
    qed
  qed simp
  finally show ?thesis by (simp add: trim_start_Nil_iff)
qed

lemma is_blank_Nil [simp]: "is_blank []"
  by (simp add: is_blank_iff)

definition starts_with :: "string \<Rightarrow> string \<Rightarrow> bool" where
  "starts_with pre s \<longleftrightarrow> take (length pre) s = pre"

text \<open>\<open>s.includes(part)\<close>.\<close>

fun str_includes :: "string \<Rightarrow> string \<Rightarrow> bool" where
  "str_includes [] part \<longleftrightarrow> part = []"
| "str_includes (c # s) part \<longleftrightarrow> starts_with part (c # s) \<or> str_includes s part"

text \<open>\<open>parts.join(sep)\<close>.\<close>

fun join :: "string \<Rightarrow> string list \<Rightarrow> string" where
  "join sep [] = []"
| "join sep [s] = s"
| "join sep (s # t # ss) = s @ sep @ join sep (t # ss)"

text \<open>\<open>String(n)\<close> for a natural number and for an integer.\<close>

fun show_nat :: "nat \<Rightarrow> string" where
  "show_nat n = (if n < 10 then [char_of (48 + n)] else show_nat (n div 10) @ [char_of (48 + n mod 10)])"

declare show_nat.simps [simp del]

definition show_int :: "int \<Rightarrow> string" where
  "show_int i = (if i < 0 then CHR ''-'' # show_nat (nat (- i)) else show_nat (nat i))"

text \<open>\<open>s.split(sep)\<close> for a separator of one character: never empty.\<close>

fun split_on :: "char \<Rightarrow> string \<Rightarrow> string list" where
  "split_on sep [] = [[]]"
| "split_on sep (c # s) =
     (if c = sep then [] # split_on sep s
      else case split_on sep s of [] \<Rightarrow> [[c]] | w # ws \<Rightarrow> (c # w) # ws)"

lemma split_on_not_Nil [simp]: "split_on sep s \<noteq> []"
  by (cases s) (simp_all split: list.splits)

text \<open>\<open>s.slice(s.lastIndexOf(c) + 1)\<close>: what follows the last \<open>c\<close>, all of \<open>s\<close> if there is none.\<close>

definition after_last :: "char \<Rightarrow> string \<Rightarrow> string" where
  "after_last c s = rev (takeWhile (\<lambda>x. x \<noteq> c) (rev s))"

text \<open>\<open>xs[i]\<close>, which is \<open>undefined\<close> out of range.\<close>

definition nth_opt :: "'a list \<Rightarrow> nat \<Rightarrow> 'a option" where
  "nth_opt xs i = (if i < length xs then Some (xs ! i) else None)"

definition is_digit :: "char \<Rightarrow> bool" where
  "is_digit c \<longleftrightarrow> 48 \<le> (of_char c :: nat) \<and> (of_char c :: nat) \<le> 57"

fun digits_value :: "int \<Rightarrow> string \<Rightarrow> int" where
  "digits_value acc [] = acc"
| "digits_value acc (c # cs) = digits_value (10 * acc + of_char c - 48) cs"

text \<open>\<open>Number.parseInt(s, 10)\<close>; \<^const>\<open>None\<close> is \<open>NaN\<close>.\<close>

definition parse_int :: "string \<Rightarrow> int option" where
  "parse_int s =
     (let t = trim_start s;
          negative = (t \<noteq> [] \<and> hd t = CHR ''-'');
          signed = (t \<noteq> [] \<and> (hd t = CHR ''-'' \<or> hd t = CHR ''+''));
          ds = takeWhile is_digit (if signed then tl t else t)
      in if ds = [] then None
         else Some (if negative then - digits_value 0 ds else digits_value 0 ds))"

subsection \<open>Sorting\<close>

text \<open>A stable sort, as \<open>Array.prototype.sort\<close> is, by a comparison \<open>a <= b\<close>.\<close>

fun insert_by :: "('a \<Rightarrow> 'a \<Rightarrow> bool) \<Rightarrow> 'a \<Rightarrow> 'a list \<Rightarrow> 'a list" where
  "insert_by before x [] = [x]"
| "insert_by before x (y # ys) = (if before x y then x # y # ys else y # insert_by before x ys)"

definition sort_by :: "('a \<Rightarrow> 'a \<Rightarrow> bool) \<Rightarrow> 'a list \<Rightarrow> 'a list" where
  "sort_by before xs = foldr (insert_by before) xs []"

lemma set_insert_by [simp]: "set (insert_by le x xs) = insert x (set xs)"
  by (induction xs) auto

lemma set_sort_by [simp]: "set (sort_by le xs) = set xs"
  unfolding sort_by_def by (induction xs) auto

text \<open>\<open><=\<close> on strings compares code units.\<close>

fun string_le :: "string \<Rightarrow> string \<Rightarrow> bool" where
  "string_le [] t = True"
| "string_le (c # s) [] = False"
| "string_le (c # s) (d # t) =
     ((of_char c :: nat) < of_char d \<or> c = d \<and> string_le s t)"

subsection \<open>Numbers\<close>

definition max_safe_integer :: int where
  "max_safe_integer = 9007199254740991"

definition is_safe_integer :: "int \<Rightarrow> bool" where
  "is_safe_integer n \<longleftrightarrow> - max_safe_integer \<le> n \<and> n \<le> max_safe_integer"

lemma is_safe_integer_between:
  "is_safe_integer a \<Longrightarrow> is_safe_integer b \<Longrightarrow> a \<le> n \<Longrightarrow> n \<le> b \<Longrightarrow> is_safe_integer n"
  by (simp add: is_safe_integer_def)

subsection \<open>Results and options\<close>

definition is_ok :: "'e + 'a \<Rightarrow> bool" where
  "is_ok r \<longleftrightarrow> (case r of Inl _ \<Rightarrow> False | Inr _ \<Rightarrow> True)"

lemma is_ok_simps [simp]: "is_ok (Inr v)" "\<not> is_ok (Inl e)"
  by (simp_all add: is_ok_def)

lemma is_ok_iff: "is_ok r \<longleftrightarrow> (\<exists>v. r = Inr v)"
  by (cases r) simp_all

definition present :: "'a option \<Rightarrow> bool" where
  "present v \<longleftrightarrow> v \<noteq> None"

lemma present_simps [simp]: "present (Some v)" "\<not> present None"
  by (simp_all add: present_def)

text \<open>\<open>value ?? fallback\<close>.\<close>

definition nullish :: "'a option \<Rightarrow> 'a \<Rightarrow> 'a" where
  "nullish v d = (case v of None \<Rightarrow> d | Some x \<Rightarrow> x)"

lemma nullish_simps [simp]: "nullish None d = d" "nullish (Some x) d = x"
  by (simp_all add: nullish_def)

subsection \<open>Decimal digits\<close>

lemma octets: "n < 256 \<Longrightarrow> (of_char (char_of n :: char) :: nat) = n"
  by (simp add: take_bit_eq_mod)

lemma octet_inj: "a < 256 \<Longrightarrow> b < 256 \<Longrightarrow> (char_of a :: char) = char_of b \<Longrightarrow> a = (b :: nat)"
  using octets[of a] octets[of b] by metis

lemma digit_char: "(d :: nat) < 10 \<Longrightarrow> is_digit (char_of (48 + d))"
  by (simp add: is_digit_def octets)

lemma show_nat_digits: "list_all is_digit (show_nat n)"
  by (induction n rule: show_nat.induct) (subst show_nat.simps, simp add: digit_char)

lemma digit_inj: "a < 10 \<Longrightarrow> b < 10 \<Longrightarrow> (char_of (48 + a) :: char) = char_of (48 + b) \<Longrightarrow> a = (b :: nat)"
  using octet_inj[of "48 + a" "48 + b"] by simp

lemma show_nat_not_Nil [simp]: "show_nat n \<noteq> []" "[] \<noteq> show_nat n"
  by (subst show_nat.simps, simp)+

lemma show_nat_inj: "show_nat m = show_nat n \<Longrightarrow> m = n"
proof (induction m arbitrary: n rule: show_nat.induct)
  case (1 m)
  have ends: "last (show_nat k) = char_of (48 + k mod 10)" "butlast (show_nat k) = (if k < 10 then [] else show_nat (k div 10))" for k
    by (subst show_nat.simps, simp)+
  have last: "m mod 10 = n mod 10" using 1(2) ends(1)[of m] ends(1)[of n] by (intro digit_inj) simp_all
  have front: "(if m < 10 then [] else show_nat (m div 10)) = (if n < 10 then [] else show_nat (n div 10))"
    using 1(2) ends(2)[of m] ends(2)[of n] by simp
  show ?case
  proof (cases "m < 10")
    case True
    then show ?thesis using front last by (simp split: if_splits)
  next
    case False
    then have "m div 10 = n div 10" "\<not> n < 10" using 1(1)[of "n div 10"] front by (auto split: if_splits)
    then show ?thesis using last by (metis div_mult_mod_eq)
  qed
qed

lemma digits_value_snoc: "digits_value acc (ds @ [c]) = 10 * digits_value acc ds + of_char c - 48"
  by (induction ds arbitrary: acc) simp_all

lemma digit_as_int:
  assumes "n < 10"
  shows "(of_char (char_of (48 + n) :: char) :: int) = 48 + int n"
proof -
  have small: "48 + n < 256" using assms by simp
  have "int (of_char (char_of (48 + n) :: char)) = int (48 + n)" by (simp only: octets[OF small])
  then show ?thesis by (simp only: of_nat_of_char)
qed

lemma digits_value_show_nat: "digits_value 0 (show_nat n) = int n"
proof (induction n rule: show_nat.induct)
  case (1 n)
  show ?case
  proof (cases "n < 10")
    case True
    then show ?thesis by (subst show_nat.simps) (simp add: digit_as_int)
  next
    case False
    have "digits_value 0 (show_nat n) = 10 * int (n div 10) + int (n mod 10)"
      using 1[OF False] False by (subst show_nat.simps) (simp add: digits_value_snoc digit_as_int)
    moreover have "int (10 * (n div 10) + n mod 10) = int n" by (simp only: mult_div_mod_eq)
    ultimately show ?thesis by linarith
  qed
qed

end
