(* ===== verification/Coordinator_State.thy ===== *)
theory Coordinator_State
  imports Prelude
begin

text \<open>
  The durable coordinator record: \<open>src/src/modules/reconciliation/reconciler-state.ts\<close>.
  The table is the list of its rows, \<open>SELECT * FROM reconciler_state\<close>; a row has the columns of
  \<open>CREATE_STATE_TABLE_SQL\<close> (\<open>reconciler-db.ts\<close>), nullable columns as options.
  \<open>read_reconciler_state\<close> is the fail-closed validation every operation starts with.
\<close>

definition POSIX_EXECUTION_BOUNDARY_KIND :: string where
  "POSIX_EXECUTION_BOUNDARY_KIND = ''posix-session-process-group-v1''"

datatype active_execution_state = REGISTERED | START_AUTHORIZED

record active_execution =
  ae_token :: string
  ae_generation :: int
  ae_pid :: int
  ae_processIdentity :: string
  ae_groupId :: int
  ae_boundaryKind :: string
  ae_ownerToken :: string
  ae_state :: active_execution_state

record reconciler_state =
  singletonId :: int
  requestedGeneration :: int
  completedGeneration :: int
  runningGeneration :: "int option"
  ownerToken :: "string option"
  ownerPid :: "int option"
  ownerBootEpochMs :: "int option"
  ownerProcessIdentity :: "string option"
  ownerCallerName :: "string option"
  ownerOriginAgent :: "string option"
  ownerSessionId :: "string option"
  heartbeatAtEpochMs :: "int option"
  activeExecution :: "active_execution option"

record raw_state_row =
  singleton_id :: int
  requested_generation :: int
  completed_generation :: int
  running_generation :: "int option"
  owner_token :: "string option"
  owner_pid :: "int option"
  owner_boot_epoch_ms :: "int option"
  owner_process_identity :: "string option"
  owner_caller_name :: "string option"
  owner_origin_agent :: "string option"
  owner_session_id :: "string option"
  heartbeat_at_epoch_ms :: "int option"
  execution_token :: "string option"
  execution_generation :: "int option"
  execution_pid :: "int option"
  execution_process_identity :: "string option"
  execution_group_id :: "int option"
  execution_boundary_kind :: "string option"
  execution_owner_token :: "string option"
  execution_state :: "string option"

type_synonym db = "raw_state_row list"

text \<open>One constructor per \<open>throw new ReconcilerInvariantError\<close>, in source order, with the values the
  message interpolates.\<close>

datatype invariant_error =
    RowCountInvalid nat
  | SingletonIdInvalid int
  | RequestedInvalid int
  | CompletedInvalid int
  | RequestedBelowCompleted int int
  | OwnerFieldsPartial
  | SessionWithoutOwner
  | RunningOutOfRange "int option" int int
  | OwnerMetadataInvalid
  | HeartbeatWithoutOwner
  | ExecutionFieldsPartial
  | ExecutionWithoutOwner
  | ExecutionGenerationOutOfRange "int option" int int
  | ExecutionPidInvalid
  | ExecutionIdentityEmpty
  | ExecutionBoundaryUnsupported "string option"
  | ExecutionStateInvalid "string option"
  | ExecutionOwnershipInvalid

subsection \<open>Field predicates\<close>

definition is_safe_non_negative_integer :: "int option \<Rightarrow> bool" where
  "is_safe_non_negative_integer v =
     (case v of None \<Rightarrow> False | Some n \<Rightarrow> is_safe_integer n \<and> 0 \<le> n)"

definition is_positive_integer :: "int option \<Rightarrow> bool" where
  "is_positive_integer v \<longleftrightarrow> is_safe_non_negative_integer v \<and> v \<noteq> Some 0"

definition is_non_empty :: "string option \<Rightarrow> bool" where
  "is_non_empty v = (case v of None \<Rightarrow> False | Some s \<Rightarrow> \<not> is_blank s)"

lemma field_predicate_simps [simp]:
  "is_safe_non_negative_integer (Some n) \<longleftrightarrow> is_safe_integer n \<and> 0 \<le> n"
  "\<not> is_safe_non_negative_integer None"
  "is_positive_integer (Some n) \<longleftrightarrow> is_safe_integer n \<and> 0 < n"
  "\<not> is_positive_integer None"
  "is_non_empty (Some s) \<longleftrightarrow> \<not> is_blank s"
  "\<not> is_non_empty None"
  by (auto simp: is_safe_non_negative_integer_def is_positive_integer_def is_non_empty_def)

lemma field_predicate_present:
  "is_safe_non_negative_integer v \<Longrightarrow> present v"
  "is_positive_integer v \<Longrightarrow> present v"
  "is_non_empty t \<Longrightarrow> present t"
  by (cases v; cases t; simp)+

subsection \<open>The active execution of a row\<close>

definition execution_presence :: "raw_state_row \<Rightarrow> bool list" where
  "execution_presence row =
     [present (execution_token row), present (execution_generation row),
      present (execution_pid row), present (execution_process_identity row),
      present (execution_group_id row), present (execution_boundary_kind row),
      present (execution_owner_token row), present (execution_state row)]"

text \<open>Where the source has narrowed a nullable column to a non-null one, the model reads it with
  \<^const>\<open>the\<close>; every such read is behind the check that the column is present.\<close>

definition read_active_execution ::
  "raw_state_row \<Rightarrow> string option \<Rightarrow> int option \<Rightarrow> int \<Rightarrow>
     invariant_error + active_execution option" where
  "read_active_execution row owner running completed =
     (let values = execution_presence row;
          presentCount = length (filter id values)
      in if presentCount = 0 then Inr None
      else if presentCount \<noteq> length values then Inl ExecutionFieldsPartial
      else if owner = None \<or> running = None then Inl ExecutionWithoutOwner
      else if \<not> is_safe_non_negative_integer (execution_generation row)
           \<or> the (execution_generation row) \<le> completed
           \<or> the (execution_generation row) > the running
        then Inl (ExecutionGenerationOutOfRange (execution_generation row) completed (the running))
      else if \<not> is_positive_integer (execution_pid row)
           \<or> \<not> is_positive_integer (execution_group_id row)
           \<or> execution_pid row \<noteq> execution_group_id row
        then Inl ExecutionPidInvalid
      else if \<not> is_non_empty (execution_token row)
           \<or> \<not> is_non_empty (execution_process_identity row)
           \<or> \<not> is_non_empty (execution_owner_token row)
        then Inl ExecutionIdentityEmpty
      else if execution_boundary_kind row \<noteq> Some POSIX_EXECUTION_BOUNDARY_KIND
        then Inl (ExecutionBoundaryUnsupported (execution_boundary_kind row))
      else if execution_state row \<noteq> Some ''REGISTERED''
           \<and> execution_state row \<noteq> Some ''START_AUTHORIZED''
        then Inl (ExecutionStateInvalid (execution_state row))
      else if (execution_owner_token row = owner) \<noteq> (execution_generation row = running)
        then Inl ExecutionOwnershipInvalid
      else Inr (Some \<lparr>
        ae_token = the (execution_token row),
        ae_generation = the (execution_generation row),
        ae_pid = the (execution_pid row),
        ae_processIdentity = the (execution_process_identity row),
        ae_groupId = the (execution_group_id row),
        ae_boundaryKind = POSIX_EXECUTION_BOUNDARY_KIND,
        ae_ownerToken = the (execution_owner_token row),
        ae_state = (if execution_state row = Some ''REGISTERED''
                    then REGISTERED else START_AUTHORIZED)\<rparr>))"

subsection \<open>The whole row\<close>

definition owner_presence :: "raw_state_row \<Rightarrow> bool list" where
  "owner_presence row =
     [present (owner_token row), present (owner_pid row), present (owner_boot_epoch_ms row),
      present (owner_process_identity row), present (owner_caller_name row),
      present (owner_origin_agent row)]"

definition owner_metadata_valid :: "raw_state_row \<Rightarrow> bool" where
  "owner_metadata_valid row \<longleftrightarrow>
     is_safe_non_negative_integer (owner_boot_epoch_ms row)
     \<and> is_positive_integer (owner_pid row)
     \<and> is_safe_non_negative_integer (heartbeat_at_epoch_ms row)
     \<and> is_non_empty (owner_token row)
     \<and> is_non_empty (owner_process_identity row)
     \<and> is_non_empty (owner_caller_name row)
     \<and> is_non_empty (owner_origin_agent row)
     \<and> (owner_session_id row = None \<or> is_non_empty (owner_session_id row))"

definition read_row :: "raw_state_row \<Rightarrow> invariant_error + reconciler_state" where
  "read_row row =
     (let hasRunning = present (running_generation row)
      in if singleton_id row \<noteq> 1 then Inl (SingletonIdInvalid (singleton_id row))
      else if \<not> is_safe_non_negative_integer (Some (requested_generation row))
        then Inl (RequestedInvalid (requested_generation row))
      else if \<not> is_safe_non_negative_integer (Some (completed_generation row))
        then Inl (CompletedInvalid (completed_generation row))
      else if requested_generation row < completed_generation row
        then Inl (RequestedBelowCompleted (requested_generation row) (completed_generation row))
      else if \<exists>v \<in> set (owner_presence row). v \<noteq> hasRunning then Inl OwnerFieldsPartial
      else if \<not> hasRunning \<and> present (owner_session_id row) then Inl SessionWithoutOwner
      else if hasRunning \<and> (\<not> is_safe_non_negative_integer (running_generation row)
             \<or> the (running_generation row) \<le> completed_generation row
             \<or> the (running_generation row) > requested_generation row)
        then Inl (RunningOutOfRange (running_generation row)
                    (completed_generation row) (requested_generation row))
      else if hasRunning \<and> \<not> owner_metadata_valid row then Inl OwnerMetadataInvalid
      else if \<not> hasRunning \<and> present (heartbeat_at_epoch_ms row) then Inl HeartbeatWithoutOwner
      else case read_active_execution row (owner_token row) (running_generation row)
                  (completed_generation row) of
             Inl e \<Rightarrow> Inl e
           | Inr execution \<Rightarrow> Inr \<lparr>
               singletonId = singleton_id row,
               requestedGeneration = requested_generation row,
               completedGeneration = completed_generation row,
               runningGeneration = running_generation row,
               ownerToken = owner_token row,
               ownerPid = owner_pid row,
               ownerBootEpochMs = owner_boot_epoch_ms row,
               ownerProcessIdentity = owner_process_identity row,
               ownerCallerName = owner_caller_name row,
               ownerOriginAgent = owner_origin_agent row,
               ownerSessionId = owner_session_id row,
               heartbeatAtEpochMs = heartbeat_at_epoch_ms row,
               activeExecution = execution\<rparr>)"

definition read_reconciler_state :: "db \<Rightarrow> invariant_error + reconciler_state" where
  "read_reconciler_state rows =
     (case rows of
        [row] \<Rightarrow> read_row row
      | _ \<Rightarrow> Inl (RowCountInvalid (length rows)))"

text \<open>The row written when the database is created (\<open>openReconcilerDb\<close>): the two generations
  are 0, every other column is null.\<close>

definition initial_row :: raw_state_row where
  "initial_row = \<lparr>
     singleton_id = 1, requested_generation = 0, completed_generation = 0,
     running_generation = None, owner_token = None, owner_pid = None,
     owner_boot_epoch_ms = None, owner_process_identity = None, owner_caller_name = None,
     owner_origin_agent = None, owner_session_id = None, heartbeat_at_epoch_ms = None,
     execution_token = None, execution_generation = None, execution_pid = None,
     execution_process_identity = None, execution_group_id = None,
     execution_boundary_kind = None, execution_owner_token = None, execution_state = None\<rparr>"

definition initial_db :: db where
  "initial_db = [initial_row]"

subsection \<open>What a valid record is\<close>

text \<open>
  The declarative contract of the record (\<open>specs/reconciliation.md\<close>, "Durable singleton state"),
  stated on the decoded state: generations are ordered, the owner is a whole or absent, and an
  execution is a whole that only exists beside an owner and whose generation is the running one
  exactly when the running owner registered it.
\<close>

definition valid_execution :: "reconciler_state \<Rightarrow> string \<Rightarrow> int \<Rightarrow> active_execution \<Rightarrow> bool" where
  "valid_execution s token running e \<longleftrightarrow>
     completedGeneration s < ae_generation e \<and> ae_generation e \<le> running
     \<and> 0 < ae_pid e \<and> is_safe_integer (ae_pid e) \<and> ae_groupId e = ae_pid e
     \<and> \<not> is_blank (ae_token e) \<and> \<not> is_blank (ae_processIdentity e)
     \<and> \<not> is_blank (ae_ownerToken e)
     \<and> ae_boundaryKind e = POSIX_EXECUTION_BOUNDARY_KIND
     \<and> (ae_ownerToken e = token \<longleftrightarrow> ae_generation e = running)"

definition valid_owner :: "reconciler_state \<Rightarrow> int \<Rightarrow> bool" where
  "valid_owner s running \<longleftrightarrow>
     completedGeneration s < running \<and> running \<le> requestedGeneration s
     \<and> is_non_empty (ownerToken s) \<and> is_positive_integer (ownerPid s)
     \<and> is_safe_non_negative_integer (ownerBootEpochMs s)
     \<and> is_non_empty (ownerProcessIdentity s) \<and> is_non_empty (ownerCallerName s)
     \<and> is_non_empty (ownerOriginAgent s)
     \<and> (ownerSessionId s = None \<or> is_non_empty (ownerSessionId s))
     \<and> is_safe_non_negative_integer (heartbeatAtEpochMs s)
     \<and> (case activeExecution s of None \<Rightarrow> True
        | Some e \<Rightarrow> valid_execution s (the (ownerToken s)) running e)"

definition no_owner :: "reconciler_state \<Rightarrow> bool" where
  "no_owner s \<longleftrightarrow>
     ownerToken s = None \<and> ownerPid s = None \<and> ownerBootEpochMs s = None
     \<and> ownerProcessIdentity s = None \<and> ownerCallerName s = None \<and> ownerOriginAgent s = None
     \<and> ownerSessionId s = None \<and> heartbeatAtEpochMs s = None \<and> activeExecution s = None"

definition valid_state :: "reconciler_state \<Rightarrow> bool" where
  "valid_state s \<longleftrightarrow>
     singletonId s = 1 \<and> is_safe_integer (requestedGeneration s)
     \<and> 0 \<le> completedGeneration s \<and> completedGeneration s \<le> requestedGeneration s
     \<and> (case runningGeneration s of None \<Rightarrow> no_owner s | Some g \<Rightarrow> valid_owner s g)"

fun execution_state_text :: "active_execution_state \<Rightarrow> string" where
  "execution_state_text REGISTERED = ''REGISTERED''"
| "execution_state_text START_AUTHORIZED = ''START_AUTHORIZED''"

definition encode_state :: "reconciler_state \<Rightarrow> raw_state_row" where
  "encode_state s = (let e = activeExecution s in \<lparr>
     singleton_id = singletonId s, requested_generation = requestedGeneration s,
     completed_generation = completedGeneration s, running_generation = runningGeneration s,
     owner_token = ownerToken s, owner_pid = ownerPid s,
     owner_boot_epoch_ms = ownerBootEpochMs s, owner_process_identity = ownerProcessIdentity s,
     owner_caller_name = ownerCallerName s, owner_origin_agent = ownerOriginAgent s,
     owner_session_id = ownerSessionId s, heartbeat_at_epoch_ms = heartbeatAtEpochMs s,
     execution_token = map_option ae_token e, execution_generation = map_option ae_generation e,
     execution_pid = map_option ae_pid e,
     execution_process_identity = map_option ae_processIdentity e,
     execution_group_id = map_option ae_groupId e,
     execution_boundary_kind = map_option ae_boundaryKind e,
     execution_owner_token = map_option ae_ownerToken e,
     execution_state = map_option (execution_state_text \<circ> ae_state) e\<rparr>)"

lemma encode_state_fields [simp]:
  "singleton_id (encode_state s) = singletonId s"
  "requested_generation (encode_state s) = requestedGeneration s"
  "completed_generation (encode_state s) = completedGeneration s"
  "running_generation (encode_state s) = runningGeneration s"
  "owner_token (encode_state s) = ownerToken s"
  "owner_pid (encode_state s) = ownerPid s"
  "owner_boot_epoch_ms (encode_state s) = ownerBootEpochMs s"
  "owner_process_identity (encode_state s) = ownerProcessIdentity s"
  "owner_caller_name (encode_state s) = ownerCallerName s"
  "owner_origin_agent (encode_state s) = ownerOriginAgent s"
  "owner_session_id (encode_state s) = ownerSessionId s"
  "heartbeat_at_epoch_ms (encode_state s) = heartbeatAtEpochMs s"
  "execution_token (encode_state s) = map_option ae_token (activeExecution s)"
  "execution_generation (encode_state s) = map_option ae_generation (activeExecution s)"
  "execution_pid (encode_state s) = map_option ae_pid (activeExecution s)"
  "execution_process_identity (encode_state s) = map_option ae_processIdentity (activeExecution s)"
  "execution_group_id (encode_state s) = map_option ae_groupId (activeExecution s)"
  "execution_boundary_kind (encode_state s) = map_option ae_boundaryKind (activeExecution s)"
  "execution_owner_token (encode_state s) = map_option ae_ownerToken (activeExecution s)"
  "execution_state (encode_state s) = map_option (execution_state_text \<circ> ae_state) (activeExecution s)"
  by (simp_all add: encode_state_def Let_def)

lemmas validity_defs = valid_state_def valid_owner_def valid_execution_def no_owner_def

lemma execution_state_text_inject [simp]:
  "execution_state_text a = execution_state_text b \<longleftrightarrow> a = b"
  by (cases a; cases b) simp_all

lemma execution_state_text_known:
  "execution_state_text a = ''REGISTERED'' \<longleftrightarrow> a = REGISTERED"
  "execution_state_text a = ''START_AUTHORIZED'' \<longleftrightarrow> a = START_AUTHORIZED"
  by (cases a; simp)+

lemma is_safe_integer_le:
  "is_safe_integer b \<Longrightarrow> 0 \<le> a \<Longrightarrow> a \<le> b \<Longrightarrow> is_safe_integer a"
  by (simp add: is_safe_integer_def max_safe_integer_def)

text \<open>The eight execution columns decode to the descriptor they encode.\<close>

lemma read_active_execution_encode:
  assumes "runningGeneration s = Some g" "ownerToken s = Some t" "activeExecution s = Some e"
    and "valid_execution s t g e" "is_safe_integer g" "0 \<le> completedGeneration s"
  shows "read_active_execution (encode_state s) (Some t) (Some g) (completedGeneration s) = Inr (Some e)"
proof -
  have "is_safe_integer (ae_generation e)"
    using assms by (auto intro: is_safe_integer_le [of g] simp: valid_execution_def)
  then show ?thesis
    using assms
    by (cases "ae_state e")
      (auto simp: read_active_execution_def execution_presence_def
          valid_execution_def Let_def)
qed

lemma read_active_execution_absent:
  "activeExecution s = None \<Longrightarrow>
     read_active_execution (encode_state s) t g c = Inr None"
  by (simp add: read_active_execution_def execution_presence_def Let_def)

lemma read_row_encode: "valid_state s \<Longrightarrow> read_row (encode_state s) = Inr s"
proof -
  assume v: "valid_state s"
  have c: "is_safe_integer (completedGeneration s)"
    using v by (auto intro: is_safe_integer_le [of "requestedGeneration s"] simp: valid_state_def)
  show ?thesis
  proof (cases "runningGeneration s")
    case None
    then have n: "no_owner s" using v by (simp add: valid_state_def)
    then have x: "activeExecution s = None" by (simp add: no_owner_def)
    show ?thesis
      using v c None n read_active_execution_absent [OF x]
      by (simp add: read_row_def valid_state_def no_owner_def owner_presence_def
          Let_def)
  next
    case (Some g)
    then have o: "valid_owner s g" using v by (simp add: valid_state_def)
    have g: "is_safe_integer g"
      using v o by (auto intro: is_safe_integer_le [of "requestedGeneration s"] simp: valid_state_def valid_owner_def)
    obtain t where t: "ownerToken s = Some t"
      using o by (cases "ownerToken s") (auto simp: valid_owner_def)
    have r: "read_active_execution (encode_state s) (Some t) (Some g) (completedGeneration s)
        = Inr (activeExecution s)"
    proof (cases "activeExecution s")
      case None
      then show ?thesis by (simp add: read_active_execution_absent)
    next
      case e: (Some e)
      then have "valid_execution s t g e" using o t by (simp add: valid_owner_def)
      then show ?thesis
        using read_active_execution_encode [OF Some t e _ g] v e by (simp add: valid_state_def)
    qed
    have p: "False \<notin> set (owner_presence (encode_state s))"
      using o by (simp add: owner_presence_def valid_owner_def Let_def
          field_predicate_present)
    have m: "owner_metadata_valid (encode_state s)"
      using o by (simp add: owner_metadata_valid_def valid_owner_def Let_def)
    show ?thesis
      using v c Some o g t r p m
      by (simp add: read_row_def valid_state_def valid_owner_def Let_def)
  qed
qed

lemma read_active_execution_SomeD:
  assumes "read_active_execution row t g c = Inr x"
  shows "execution_token row = map_option ae_token x"
    "execution_generation row = map_option ae_generation x"
    "execution_pid row = map_option ae_pid x"
    "execution_process_identity row = map_option ae_processIdentity x"
    "execution_group_id row = map_option ae_groupId x"
    "execution_boundary_kind row = map_option ae_boundaryKind x"
    "execution_owner_token row = map_option ae_ownerToken x"
    "execution_state row = map_option (execution_state_text \<circ> ae_state) x"
  using assms
  by (auto simp: read_active_execution_def execution_presence_def Let_def present_def
      split: if_splits option.splits)

lemma read_active_execution_valid:
  assumes "read_active_execution row (ownerToken s) (runningGeneration s) (completedGeneration s)
             = Inr (Some e)"
  shows "\<exists>t g. ownerToken s = Some t \<and> runningGeneration s = Some g \<and> valid_execution s t g e"
  using assms
  by (auto simp: read_active_execution_def execution_presence_def Let_def valid_execution_def
      present_def split: if_splits)


lemma read_row_valid: "read_row row = Inr s \<Longrightarrow> valid_state s \<and> row = encode_state s"
proof -
  assume r: "read_row row = Inr s"
  then obtain x where x: "read_active_execution row (owner_token row) (running_generation row)
      (completed_generation row) = Inr x"
    by (auto simp: read_row_def Let_def split: if_splits sum.splits)
  have s: "s = \<lparr>singletonId = singleton_id row, requestedGeneration = requested_generation row,
      completedGeneration = completed_generation row, runningGeneration = running_generation row,
      ownerToken = owner_token row, ownerPid = owner_pid row,
      ownerBootEpochMs = owner_boot_epoch_ms row,
      ownerProcessIdentity = owner_process_identity row,
      ownerCallerName = owner_caller_name row, ownerOriginAgent = owner_origin_agent row,
      ownerSessionId = owner_session_id row, heartbeatAtEpochMs = heartbeat_at_epoch_ms row,
      activeExecution = x\<rparr>"
    using r x by (auto simp: read_row_def Let_def split: if_splits sum.splits)
  have enc: "row = encode_state s"
    using read_active_execution_SomeD [OF x] by (simp add: s encode_state_def)
  have ex: "\<exists>t g. ownerToken s = Some t \<and> runningGeneration s = Some g \<and> valid_execution s t g e"
    if "activeExecution s = Some e" for e
    using x that by (intro read_active_execution_valid [of row]) (simp add: s)
  have "valid_state s"
  proof (cases "running_generation row")
    case None
    then have "x = None" using ex by (cases x) (auto simp: s)
    then show ?thesis
      using r x None
      by (auto simp: read_row_def valid_state_def no_owner_def owner_presence_def s Let_def
          present_def split: if_splits)
  next
    case (Some g)
    then show ?thesis
      using r x ex
      by (auto simp: read_row_def valid_state_def valid_owner_def owner_presence_def s Let_def
          owner_metadata_valid_def present_def split: if_splits option.splits)
  qed
  with enc show ?thesis by simp
qed

text \<open>The fail-closed reader accepts exactly the encodings of valid states.\<close>

theorem read_row_iff: "read_row row = Inr s \<longleftrightarrow> valid_state s \<and> row = encode_state s"
  using read_row_valid read_row_encode by blast

lemma read_reconciler_state_iff:
  "read_reconciler_state rows = Inr s \<longleftrightarrow> valid_state s \<and> rows = [encode_state s]"
  by (auto simp: read_reconciler_state_def read_row_iff split: list.splits)

lemma read_encoded [simp]: "valid_state s \<Longrightarrow> read_reconciler_state [encode_state s] = Inr s"
  by (simp add: read_reconciler_state_iff)

definition initial_state :: reconciler_state where
  "initial_state = \<lparr>
     singletonId = 1, requestedGeneration = 0, completedGeneration = 0,
     runningGeneration = None, ownerToken = None, ownerPid = None, ownerBootEpochMs = None,
     ownerProcessIdentity = None, ownerCallerName = None, ownerOriginAgent = None,
     ownerSessionId = None, heartbeatAtEpochMs = None, activeExecution = None\<rparr>"

lemma initial_state_valid: "valid_state initial_state"
  by (simp add: initial_state_def validity_defs is_safe_integer_def max_safe_integer_def)

lemma initial_db_encodes: "initial_db = [encode_state initial_state]"
  by (simp add: initial_db_def initial_row_def initial_state_def encode_state_def)

text \<open>C25. The fail-closed reader accepts exactly the valid durable states. It returns a state precisely when
  the table is the single row that encodes that state and the state satisfies the declarative
  contract of the specification; every other table, however it was corrupted, is an invariant error.\<close>

theorem reader_accepts_exactly_valid_states:
  "read_reconciler_state rows = Inr s \<longleftrightarrow> valid_state s \<and> rows = [encode_state s]"
  by (rule read_reconciler_state_iff)

end
