(* ===== verification/Process_Identity.thy ===== *)
theory Process_Identity
  imports Coordinator_State
begin

text \<open>
  What the code can observe of processes: \<open>process-identity.ts\<close> and the read-only part of
  \<open>execution-boundary-process.ts\<close>. The operating system is a parameter: an \<open>os_view\<close> answers
  the system calls the code makes at one moment, \<open>kill(pid, 0)\<close> (negative for a group), the files
  under \<open>/proc\<close> and the output of \<open>/bin/ps\<close>; \<^const>\<open>None\<close> for a file or a command is a thrown error.
\<close>

datatype errno = ESRCH | EPERM | OtherErrno

datatype platform = Linux | Darwin | OtherPlatform

record os_view =
  os_platform :: platform
  kill_probe :: "int \<Rightarrow> errno option"
  boot_id_file :: "string option"
  proc_stat_file :: "int \<Rightarrow> string option"
  ps_lstart_command :: "int \<Rightarrow> string option"
  ps_pgid :: "int \<Rightarrow> string option"

definition is_process_alive :: "os_view \<Rightarrow> int \<Rightarrow> bool" where
  "is_process_alive os pid =
     (case kill_probe os pid of None \<Rightarrow> True | Some code \<Rightarrow> code = EPERM)"

text \<open>\<open>stat.slice(stat.lastIndexOf(")") + 2).split(" ")\<close>: when there is no parenthesis the code
  slices from index 1, which dropping one character from \<^const>\<open>after_last\<close> also does.\<close>

definition fields_after_command :: "string \<Rightarrow> string list" where
  "fields_after_command stat = split_on CHR '' '' (drop 1 (after_last CHR '')'' stat))"

definition read_process_start_identity :: "os_view \<Rightarrow> int \<Rightarrow> string option" where
  "read_process_start_identity os pid =
     (if \<not> is_safe_integer pid \<or> pid \<le> 0 then None
      else if os_platform os = Linux then
        (case boot_id_file os of None \<Rightarrow> None
         | Some boot \<Rightarrow>
             (case proc_stat_file os pid of None \<Rightarrow> None
              | Some stat \<Rightarrow>
                  let bootId = trim boot;
                      startTicks = nth_opt (fields_after_command (trim stat)) 19
                  in if bootId \<noteq> [] \<and> nullish startTicks [] \<noteq> []
                     then Some (''linux-proc:'' @ bootId @ '':'' @ nullish startTicks [])
                     else None))
      else
        (case ps_lstart_command os pid of None \<Rightarrow> None
         | Some output \<Rightarrow>
             let processRecord = trim output
             in if processRecord \<noteq> [] then Some (''ps-process:'' @ processRecord) else None))"

text \<open>\<open>Date.now() - Math.floor(os.uptime() * 1000)\<close>, both in milliseconds.\<close>

definition current_boot_epoch_ms :: "int \<Rightarrow> int \<Rightarrow> int" where
  "current_boot_epoch_ms nowEpochMs uptimeMs = nowEpochMs - uptimeMs"

text \<open>The title of the process carries a marker before its identity is read; the second component is the new title, which
  what the system then answers about the process may depend on.\<close>

definition establish_current_process_identity ::
  "(string \<Rightarrow> os_view) \<Rightarrow> int \<Rightarrow> string \<Rightarrow> string option \<times> string option" where
  "establish_current_process_identity titled pid nonce =
     (if is_blank nonce then (None, None)
      else let title = ''git-commits-push-'' @ nonce
      in (read_process_start_identity (titled title) pid, Some title))"

definition positive_group :: "int option \<Rightarrow> int option" where
  "positive_group v =
     (case v of None \<Rightarrow> None
      | Some g \<Rightarrow> if is_safe_integer g \<and> g > 0 then Some g else None)"

definition read_process_group_id :: "os_view \<Rightarrow> int \<Rightarrow> int option" where
  "read_process_group_id os pid =
     (if \<not> is_safe_integer pid \<or> pid \<le> 0 then None
      else if os_platform os = Linux then
        (case proc_stat_file os pid of None \<Rightarrow> None
         | Some stat \<Rightarrow>
             positive_group (parse_int (nullish (nth_opt (fields_after_command (trim stat)) 2) [])))
      else
        (case ps_pgid os pid of None \<Rightarrow> None
         | Some output \<Rightarrow> positive_group (parse_int (trim output))))"

definition platform_supports_execution_boundary :: "os_view \<Rightarrow> bool" where
  "platform_supports_execution_boundary os \<longleftrightarrow> os_platform os = Darwin \<or> os_platform os = Linux"

datatype probe_error = InvalidGroupId | ProbeFailed errno

definition process_group_exists :: "os_view \<Rightarrow> int \<Rightarrow> probe_error + bool" where
  "process_group_exists os groupId =
     (if \<not> is_safe_integer groupId \<or> groupId \<le> 0 then Inl InvalidGroupId
      else case kill_probe os (- groupId) of
             None \<Rightarrow> Inr True
           | Some ESRCH \<Rightarrow> Inr False
           | Some EPERM \<Rightarrow> Inr True
           | Some code \<Rightarrow> Inl (ProbeFailed code))"

datatype execution_boundary_liveness = AliveExact | Dead | Ambiguous

definition classify_execution_boundary ::
  "os_view \<Rightarrow> active_execution \<Rightarrow> probe_error + execution_boundary_liveness" where
  "classify_execution_boundary os execution =
     (if \<not> platform_supports_execution_boundary os then Inr Ambiguous
      else case process_group_exists os (ae_groupId execution) of
        Inl e \<Rightarrow> Inl e
      | Inr groupExists \<Rightarrow>
          if \<not> is_process_alive os (ae_pid execution)
            then Inr (if groupExists then Ambiguous else Dead)
          else case read_process_start_identity os (ae_pid execution) of
            None \<Rightarrow> Inr Ambiguous
          | Some ident \<Rightarrow>
              if ident \<noteq> ae_processIdentity execution
                then Inr (if groupExists then Ambiguous else Dead)
              else case read_process_group_id os (ae_pid execution) of
                None \<Rightarrow> Inr Ambiguous
              | Some g \<Rightarrow>
                  if g \<noteq> ae_groupId execution then Inr Ambiguous
                  else Inr (if groupExists then AliveExact else Ambiguous))"

subsection \<open>What a classification proves\<close>

text \<open>Every classification other than \<^const>\<open>Ambiguous\<close> rests on evidence read in the same view.\<close>

lemma classify_dead:
  assumes "classify_execution_boundary os e = Inr Dead"
  shows "process_group_exists os (ae_groupId e) = Inr False"
    and "\<not> is_process_alive os (ae_pid e)
         \<or> read_process_start_identity os (ae_pid e) \<noteq> Some (ae_processIdentity e)"
  using assms
  by (auto simp: classify_execution_boundary_def split: if_splits sum.splits option.splits)

lemma classify_alive_exact:
  assumes "classify_execution_boundary os e = Inr AliveExact"
  shows "process_group_exists os (ae_groupId e) = Inr True"
    and "is_process_alive os (ae_pid e)"
    and "read_process_start_identity os (ae_pid e) = Some (ae_processIdentity e)"
    and "read_process_group_id os (ae_pid e) = Some (ae_groupId e)"
    and "platform_supports_execution_boundary os"
  using assms
  by (auto simp: classify_execution_boundary_def split: if_splits sum.splits option.splits)

lemma read_identity_invalid_pid:
  "pid \<le> 0 \<Longrightarrow> read_process_start_identity os pid = None"
  by (simp add: read_process_start_identity_def)

lemma read_group_positive: "read_process_group_id os pid = Some g \<Longrightarrow> 0 < g \<and> is_safe_integer g"
  by (auto simp: read_process_group_id_def positive_group_def
      split: if_splits option.splits)

end
