(* ===== verification/Coordinator_Ops.thy ===== *)
theory Coordinator_Ops
  imports Process_Identity
begin

text \<open>
  The transitions of the coordinator record: \<open>reconciler.ts\<close>, \<open>active-execution-state.ts\<close> and
  \<open>reconciler-transaction.ts\<close>. Each operation takes the table and returns its result and the table;
  a thrown error is \<^const>\<open>Inl\<close>. SQLite itself is outside the source: \<open>tx_fault\<close> says whether its
  \<open>BEGIN IMMEDIATE\<close> or its \<open>COMMIT\<close> throws, and the writes other connections commit between two
  of this connection's accesses are functions on the table.
\<close>

subsection \<open>Errors\<close>

datatype type_error =
    EmptyOwnerToken | BadOwnerPid | BadBootEpoch | EmptyProcessIdentity
  | EmptyCallerOrOrigin | EmptySessionId | BadRegistrationTime
  | EmptyField string | NotPositiveInteger string
  | PidIsNotGroupLeader | UnsupportedBoundaryKind

datatype fenced_error =
    AdmissionContended
  | FinishNotOwner | FinishExecutionActive | FinishGenerationMismatch "int option" int
  | ExecutionNotOwner | ExecutionGenerationMismatch "int option" int
  | ExecutionAlreadyActive | RegistrationNotPersisted

datatype op_error =
    InvariantError invariant_error
  | TypeError type_error
  | FencedError fenced_error
  | ReconciliationOwnerChanged
  | SqliteError

subsection \<open>Transactions and statements\<close>

datatype tx_fault = TxOk | BeginFails | CommitFails

definition run_reconciler_transaction ::
  "tx_fault \<Rightarrow> (db \<Rightarrow> (op_error + 'a) \<times> db) \<Rightarrow> db \<Rightarrow> (op_error + 'a) \<times> db" where
  "run_reconciler_transaction fault operation db =
     (if fault = BeginFails then (Inl SqliteError, db)
      else case operation db of
             (Inl e, _) \<Rightarrow> (Inl e, db)
           | (Inr v, db') \<Rightarrow>
               if fault = CommitFails then (Inl SqliteError, db) else (Inr v, db'))"

text \<open>\<open>UPDATE reconciler_state SET ... WHERE singleton_id = 1 AND ...\<close> and its \<open>changes\<close>.\<close>

definition update_where ::
  "(raw_state_row \<Rightarrow> bool) \<Rightarrow> (raw_state_row \<Rightarrow> raw_state_row) \<Rightarrow> db \<Rightarrow> db" where
  "update_where P f rows = map (\<lambda>r. if singleton_id r = 1 \<and> P r then f r else r) rows"

definition changes :: "(raw_state_row \<Rightarrow> bool) \<Rightarrow> db \<Rightarrow> nat" where
  "changes P rows = length (filter (\<lambda>r. singleton_id r = 1 \<and> P r) rows)"

definition read_state :: "db \<Rightarrow> op_error + reconciler_state" where
  "read_state db =
     (case read_reconciler_state db of Inl e \<Rightarrow> Inl (InvariantError e) | Inr s \<Rightarrow> Inr s)"

subsection \<open>Registration\<close>

record register_options =
  ro_token :: string
  ro_pid :: int
  ro_bootEpochMs :: int
  ro_processIdentity :: string
  ro_callerName :: string
  ro_originAgent :: string
  ro_originSessionId :: "string option"
  ro_nowEpochMs :: int

datatype register_result =
    Owner (gen: int) (completedGen: int) (recovered: bool) (previousOwnerPid: "int option")
      (requiresExecutionRecovery: bool)
  | Coalesced (gen: int) (coalescedOwnerPid: "int option") (coalescedCaller: "string option")

definition owner_is_alive :: "os_view \<Rightarrow> reconciler_state \<Rightarrow> bool" where
  "owner_is_alive os state =
     (if ownerToken state = None \<or> ownerPid state = None
       \<or> ownerProcessIdentity state = None \<or> runningGeneration state = None then False
      else if \<not> is_process_alive os (the (ownerPid state)) then False
      else (case read_process_start_identity os (the (ownerPid state)) of
              None \<Rightarrow> True
            | Some currentIdentity \<Rightarrow> Some currentIdentity = ownerProcessIdentity state))"

definition assert_registration_options :: "register_options \<Rightarrow> op_error option" where
  "assert_registration_options o1 =
     (if is_blank (ro_token o1) then Some (TypeError EmptyOwnerToken)
      else if \<not> is_safe_integer (ro_pid o1) \<or> ro_pid o1 \<le> 0 then Some (TypeError BadOwnerPid)
      else if \<not> is_safe_integer (ro_bootEpochMs o1) \<or> ro_bootEpochMs o1 < 0
        then Some (TypeError BadBootEpoch)
      else if is_blank (ro_processIdentity o1) then Some (TypeError EmptyProcessIdentity)
      else if is_blank (ro_callerName o1) \<or> is_blank (ro_originAgent o1)
        then Some (TypeError EmptyCallerOrOrigin)
      else if ro_originSessionId o1 \<noteq> None \<and> is_blank (the (ro_originSessionId o1))
        then Some (TypeError EmptySessionId)
      else if \<not> is_safe_integer (ro_nowEpochMs o1) \<or> ro_nowEpochMs o1 < 0
        then Some (TypeError BadRegistrationTime)
      else None)"

text \<open>The comparison of descriptors is field by field in the source; the descriptor has no other
  field, so it is equality.\<close>

definition execution_matches_observation ::
  "active_execution option \<Rightarrow> active_execution option \<Rightarrow> bool" where
  "execution_matches_observation current observed =
     (case (current, observed) of
        (Some c, Some o1) \<Rightarrow>
          ae_token c = ae_token o1 \<and> ae_generation c = ae_generation o1
          \<and> ae_pid c = ae_pid o1 \<and> ae_processIdentity c = ae_processIdentity o1
          \<and> ae_groupId c = ae_groupId o1 \<and> ae_boundaryKind c = ae_boundaryKind o1
          \<and> ae_ownerToken c = ae_ownerToken o1 \<and> ae_state c = ae_state o1
      | (None, None) \<Rightarrow> True
      | _ \<Rightarrow> False)"

definition owner_matches_observation :: "reconciler_state \<Rightarrow> reconciler_state \<Rightarrow> bool" where
  "owner_matches_observation current observed \<longleftrightarrow>
     ownerToken current = ownerToken observed
     \<and> ownerPid current = ownerPid observed
     \<and> ownerProcessIdentity current = ownerProcessIdentity observed
     \<and> runningGeneration current = runningGeneration observed
     \<and> execution_matches_observation (activeExecution current) (activeExecution observed)"

text \<open>The body of the admission transaction.\<close>

definition register_transaction ::
  "register_options \<Rightarrow> reconciler_state \<Rightarrow> bool \<Rightarrow> db \<Rightarrow> (op_error + register_result) \<times> db" where
  "register_transaction o1 observedState observedOwnerIsAlive db =
     (case read_state db of
        Inl e \<Rightarrow> (Inl e, db)
      | Inr state \<Rightarrow>
          if \<not> owner_matches_observation state observedState
            then (Inl ReconciliationOwnerChanged, db)
          else let nextRequested = requestedGeneration state + 1
          in if observedOwnerIsAlive then
            (Inr (Coalesced nextRequested (ownerPid state) (ownerCallerName state)),
             update_where (\<lambda>_. True) (\<lambda>r. r\<lparr>requested_generation := nextRequested\<rparr>) db)
          else
            (Inr (Owner nextRequested (completedGeneration state) (ownerToken state \<noteq> None)
                    (ownerPid state) (activeExecution state \<noteq> None)),
             update_where (\<lambda>_. True) (\<lambda>r. r\<lparr>
               requested_generation := nextRequested, running_generation := Some nextRequested,
               owner_token := Some (ro_token o1), owner_pid := Some (ro_pid o1),
               owner_boot_epoch_ms := Some (ro_bootEpochMs o1),
               owner_process_identity := Some (ro_processIdentity o1),
               owner_caller_name := Some (ro_callerName o1),
               owner_origin_agent := Some (ro_originAgent o1),
               owner_session_id := ro_originSessionId o1,
               heartbeat_at_epoch_ms := Some (ro_nowEpochMs o1)\<rparr>) db))"

text \<open>What surrounds attempt \<open>k\<close> of the admission loop: the writes other connections commit before
  its observation and between observation and transaction, the processes it observes, and whether
  SQLite fails.\<close>

record admission_env =
  before_observation :: "nat \<Rightarrow> db \<Rightarrow> db"
  before_transaction :: "nat \<Rightarrow> db \<Rightarrow> db"
  view_at :: "nat \<Rightarrow> os_view"
  fault_at :: "nat \<Rightarrow> tx_fault"

fun register_attempts ::
  "admission_env \<Rightarrow> register_options \<Rightarrow> nat \<Rightarrow> nat \<Rightarrow> db \<Rightarrow> (op_error + register_result) \<times> db" where
  "register_attempts env o1 0 attempt db = (Inl (FencedError AdmissionContended), db)"
| "register_attempts env o1 (Suc left) attempt db =
     (let db1 = before_observation env attempt db
      in case read_state db1 of
           Inl e \<Rightarrow> (Inl e, db1)
         | Inr observedState \<Rightarrow>
             (case run_reconciler_transaction (fault_at env attempt)
                     (register_transaction o1 observedState
                        (owner_is_alive (view_at env attempt) observedState))
                     (before_transaction env attempt db1) of
                (Inl ReconciliationOwnerChanged, db2) \<Rightarrow>
                  register_attempts env o1 left (Suc attempt) db2
              | result \<Rightarrow> result))"

definition register_reconciliation_request ::
  "admission_env \<Rightarrow> register_options \<Rightarrow> db \<Rightarrow> (op_error + register_result) \<times> db" where
  "register_reconciliation_request env o1 db =
     (case assert_registration_options o1 of
        Some e \<Rightarrow> (Inl e, db)
      | None \<Rightarrow> register_attempts env o1 8 0 db)"

subsection \<open>Finish, heartbeat, release\<close>

record finish_options =
  fo_token :: string
  fo_pid :: int
  fo_generation :: int
  fo_success :: bool
  fo_nowEpochMs :: int

datatype finish_result =
    Continue int int bool
  | StopSuccess int
  | StopFailed int

definition clear_owner_columns :: "raw_state_row \<Rightarrow> raw_state_row" where
  "clear_owner_columns r = r\<lparr>
     running_generation := None, owner_token := None, owner_pid := None,
     owner_boot_epoch_ms := None, owner_process_identity := None, owner_caller_name := None,
     owner_origin_agent := None, owner_session_id := None, heartbeat_at_epoch_ms := None\<rparr>"

definition finish_transaction :: "finish_options \<Rightarrow> db \<Rightarrow> (op_error + finish_result) \<times> db" where
  "finish_transaction o1 db =
     (case read_state db of
        Inl e \<Rightarrow> (Inl e, db)
      | Inr state \<Rightarrow>
          if ownerToken state \<noteq> Some (fo_token o1) \<or> ownerPid state \<noteq> Some (fo_pid o1)
            then (Inl (FencedError FinishNotOwner), db)
          else if activeExecution state \<noteq> None
            then (Inl (FencedError FinishExecutionActive), db)
          else if runningGeneration state \<noteq> Some (fo_generation o1)
            then (Inl (FencedError
                    (FinishGenerationMismatch (runningGeneration state) (fo_generation o1))), db)
          else let completed = (if fo_success o1 then fo_generation o1
                                else completedGeneration state)
          in if requestedGeneration state > fo_generation o1 then
            (let nextRunning = requestedGeneration state
             in (Inr (Continue nextRunning completed (fo_success o1)),
                 update_where (\<lambda>_. True) (\<lambda>r. r\<lparr>
                   completed_generation := completed, running_generation := Some nextRunning,
                   heartbeat_at_epoch_ms := Some (fo_nowEpochMs o1)\<rparr>) db))
          else
            (Inr (if fo_success o1 then StopSuccess completed else StopFailed completed),
             update_where (\<lambda>_. True)
               (\<lambda>r. clear_owner_columns (r\<lparr>completed_generation := completed\<rparr>)) db))"

definition finish_reconciliation_pass ::
  "tx_fault \<Rightarrow> finish_options \<Rightarrow> db \<Rightarrow> (op_error + finish_result) \<times> db" where
  "finish_reconciliation_pass fault o1 = run_reconciler_transaction fault (finish_transaction o1)"

text \<open>The heartbeat reads and updates in two statements; \<open>between\<close> is what other connections commit
  in between.\<close>

definition heartbeat_reconciler ::
  "tx_fault \<Rightarrow> (db \<Rightarrow> db) \<Rightarrow> string \<Rightarrow> int \<Rightarrow> int \<Rightarrow> db \<Rightarrow> (op_error + bool) \<times> db" where
  "heartbeat_reconciler fault between token pid nowEpochMs db =
     (case read_state db of
        Inl e \<Rightarrow> (Inl e, db)
      | Inr state \<Rightarrow>
          if ownerToken state \<noteq> Some token \<or> ownerPid state \<noteq> Some pid then (Inr False, db)
          else let db1 = between db;
                   P = (\<lambda>r. owner_token r = Some token \<and> owner_pid r = Some pid)
          in if fault \<noteq> TxOk then (Inl SqliteError, db1)
             else (Inr (changes P db1 = 1),
                   update_where P (\<lambda>r. r\<lparr>heartbeat_at_epoch_ms := Some nowEpochMs\<rparr>) db1))"

definition release_transaction :: "string \<Rightarrow> int \<Rightarrow> db \<Rightarrow> (op_error + bool) \<times> db" where
  "release_transaction token pid db =
     (case read_state db of
        Inl e \<Rightarrow> (Inl e, db)
      | Inr state \<Rightarrow>
          if ownerToken state \<noteq> Some token \<or> ownerPid state \<noteq> Some pid then (Inr False, db)
          else if activeExecution state \<noteq> None then (Inr False, db)
          else let P = (\<lambda>r. owner_token r = Some token \<and> owner_pid r = Some pid)
          in (Inr (changes P db = 1), update_where P clear_owner_columns db))"

definition release_reconciliation_ownership ::
  "tx_fault \<Rightarrow> string \<Rightarrow> int \<Rightarrow> db \<Rightarrow> (op_error + bool) \<times> db" where
  "release_reconciliation_ownership fault token pid =
     run_reconciler_transaction fault (release_transaction token pid)"

subsection \<open>The active execution\<close>

record register_execution_options =
  xo_ownerToken :: string
  xo_ownerPid :: int
  xo_generation :: int
  xo_executionToken :: string
  xo_executionPid :: int
  xo_executionProcessIdentity :: string
  xo_executionGroupId :: int
  xo_executionBoundaryKind :: string

definition require_positive :: "string \<Rightarrow> int \<Rightarrow> op_error option" where
  "require_positive name v =
     (if \<not> is_safe_integer v \<or> v \<le> 0 then Some (TypeError (NotPositiveInteger name)) else None)"

definition require_non_empty :: "string \<Rightarrow> string \<Rightarrow> op_error option" where
  "require_non_empty name v = (if is_blank v then Some (TypeError (EmptyField name)) else None)"

fun first_error :: "op_error option list \<Rightarrow> op_error option" where
  "first_error [] = None"
| "first_error (Some e # _) = Some e"
| "first_error (None # rest) = first_error rest"

definition assert_execution_options :: "register_execution_options \<Rightarrow> op_error option" where
  "assert_execution_options o1 = first_error
     [require_non_empty ''owner token'' (xo_ownerToken o1),
      require_non_empty ''execution token'' (xo_executionToken o1),
      require_non_empty ''execution process identity'' (xo_executionProcessIdentity o1),
      require_positive ''owner pid'' (xo_ownerPid o1),
      require_positive ''execution generation'' (xo_generation o1),
      require_positive ''execution pid'' (xo_executionPid o1),
      require_positive ''execution group id'' (xo_executionGroupId o1),
      (if xo_executionPid o1 \<noteq> xo_executionGroupId o1
       then Some (TypeError PidIsNotGroupLeader) else None),
      (if xo_executionBoundaryKind o1 \<noteq> POSIX_EXECUTION_BOUNDARY_KIND
       then Some (TypeError UnsupportedBoundaryKind) else None)]"

definition register_execution_transaction ::
  "register_execution_options \<Rightarrow> db \<Rightarrow> (op_error + active_execution) \<times> db" where
  "register_execution_transaction o1 db =
     (case read_state db of
        Inl e \<Rightarrow> (Inl e, db)
      | Inr state \<Rightarrow>
          if ownerToken state \<noteq> Some (xo_ownerToken o1) \<or> ownerPid state \<noteq> Some (xo_ownerPid o1)
            then (Inl (FencedError ExecutionNotOwner), db)
          else if runningGeneration state \<noteq> Some (xo_generation o1)
            then (Inl (FencedError
                    (ExecutionGenerationMismatch (runningGeneration state) (xo_generation o1))), db)
          else if activeExecution state \<noteq> None
            then (Inl (FencedError ExecutionAlreadyActive), db)
          else let db1 = update_where (\<lambda>_. True) (\<lambda>r. r\<lparr>
                  execution_token := Some (xo_executionToken o1),
                  execution_generation := Some (xo_generation o1),
                  execution_pid := Some (xo_executionPid o1),
                  execution_process_identity := Some (xo_executionProcessIdentity o1),
                  execution_group_id := Some (xo_executionGroupId o1),
                  execution_boundary_kind := Some (xo_executionBoundaryKind o1),
                  execution_owner_token := Some (xo_ownerToken o1),
                  execution_state := Some ''REGISTERED''\<rparr>) db
          in (case read_state db1 of
                Inl e \<Rightarrow> (Inl e, db1)
              | Inr s1 \<Rightarrow>
                  (case activeExecution s1 of
                     None \<Rightarrow> (Inl (FencedError RegistrationNotPersisted), db1)
                   | Some registered \<Rightarrow> (Inr registered, db1))))"

definition register_active_execution ::
  "tx_fault \<Rightarrow> register_execution_options \<Rightarrow> db \<Rightarrow> (op_error + active_execution) \<times> db" where
  "register_active_execution fault o1 db =
     (case assert_execution_options o1 of
        Some e \<Rightarrow> (Inl e, db)
      | None \<Rightarrow> run_reconciler_transaction fault (register_execution_transaction o1) db)"

record fence_options =
  fe_ownerToken :: string
  fe_ownerPid :: int
  fe_executionToken :: string

definition authorize_transaction :: "fence_options \<Rightarrow> db \<Rightarrow> (op_error + bool) \<times> db" where
  "authorize_transaction o1 db =
     (case read_state db of
        Inl e \<Rightarrow> (Inl e, db)
      | Inr state \<Rightarrow>
          if ownerToken state \<noteq> Some (fe_ownerToken o1) \<or> ownerPid state \<noteq> Some (fe_ownerPid o1)
            then (Inl (FencedError ExecutionNotOwner), db)
          else (case activeExecution state of
                  None \<Rightarrow> (Inr False, db)
                | Some e \<Rightarrow>
                    if ae_token e \<noteq> fe_executionToken o1 \<or> ae_ownerToken e \<noteq> fe_ownerToken o1
                      then (Inr False, db)
                    else if ae_state e \<noteq> REGISTERED then (Inr False, db)
                    else let P = (\<lambda>r. execution_token r = Some (fe_executionToken o1))
                    in (Inr (changes P db = 1),
                        update_where P
                          (\<lambda>r. r\<lparr>execution_state := Some ''START_AUTHORIZED''\<rparr>) db)))"

definition authorize_active_execution_start ::
  "tx_fault \<Rightarrow> fence_options \<Rightarrow> db \<Rightarrow> (op_error + bool) \<times> db" where
  "authorize_active_execution_start fault o1 =
     run_reconciler_transaction fault (authorize_transaction o1)"

definition clear_execution_columns :: "raw_state_row \<Rightarrow> raw_state_row" where
  "clear_execution_columns r = r\<lparr>
     execution_token := None, execution_generation := None, execution_pid := None,
     execution_process_identity := None, execution_group_id := None,
     execution_boundary_kind := None, execution_owner_token := None, execution_state := None\<rparr>"

definition clear_transaction :: "fence_options \<Rightarrow> db \<Rightarrow> (op_error + bool) \<times> db" where
  "clear_transaction o1 db =
     (case read_state db of
        Inl e \<Rightarrow> (Inl e, db)
      | Inr state \<Rightarrow>
          if ownerToken state \<noteq> Some (fe_ownerToken o1) \<or> ownerPid state \<noteq> Some (fe_ownerPid o1)
            then (Inl (FencedError ExecutionNotOwner), db)
          else (case activeExecution state of
                  None \<Rightarrow> (Inr False, db)
                | Some e \<Rightarrow>
                    if ae_token e \<noteq> fe_executionToken o1 then (Inr False, db)
                    else let P = (\<lambda>r. execution_token r = Some (fe_executionToken o1))
                    in (Inr (changes P db = 1), update_where P clear_execution_columns db)))"

definition clear_active_execution ::
  "tx_fault \<Rightarrow> fence_options \<Rightarrow> db \<Rightarrow> (op_error + bool) \<times> db" where
  "clear_active_execution fault o1 = run_reconciler_transaction fault (clear_transaction o1)"

end
