(* ===== verification/Coordinator_Spec.thy ===== *)
theory Coordinator_Spec
  imports Coordinator_Ops
begin

text \<open>
  The abstract coordinator: each operation of \<open>Coordinator_Ops\<close> as a function on the decoded
  record, the proof that the operation on the table implements it, and the proof that it keeps
  the record valid. The interfaces \<open>coordinator_transition\<close> and \<open>fenced_transition\<close> collect what
  the launcher relies on; every operation is an interpretation of them.
\<close>

subsection \<open>Abstract transitions\<close>

definition coalesce_state :: "reconciler_state \<Rightarrow> reconciler_state" where
  "coalesce_state s = s\<lparr>requestedGeneration := requestedGeneration s + 1\<rparr>"

definition acquire_state :: "register_options \<Rightarrow> reconciler_state \<Rightarrow> reconciler_state" where
  "acquire_state o1 s = s\<lparr>
     requestedGeneration := requestedGeneration s + 1,
     runningGeneration := Some (requestedGeneration s + 1),
     ownerToken := Some (ro_token o1), ownerPid := Some (ro_pid o1),
     ownerBootEpochMs := Some (ro_bootEpochMs o1),
     ownerProcessIdentity := Some (ro_processIdentity o1),
     ownerCallerName := Some (ro_callerName o1), ownerOriginAgent := Some (ro_originAgent o1),
     ownerSessionId := ro_originSessionId o1, heartbeatAtEpochMs := Some (ro_nowEpochMs o1)\<rparr>"

definition advance_state :: "int \<Rightarrow> int \<Rightarrow> reconciler_state \<Rightarrow> reconciler_state" where
  "advance_state completed now s = s\<lparr>
     completedGeneration := completed, runningGeneration := Some (requestedGeneration s),
     heartbeatAtEpochMs := Some now\<rparr>"

definition idle_state :: "int \<Rightarrow> reconciler_state \<Rightarrow> reconciler_state" where
  "idle_state completed s = s\<lparr>
     completedGeneration := completed, runningGeneration := None, ownerToken := None,
     ownerPid := None, ownerBootEpochMs := None, ownerProcessIdentity := None,
     ownerCallerName := None, ownerOriginAgent := None, ownerSessionId := None,
     heartbeatAtEpochMs := None\<rparr>"

definition registered_execution :: "register_execution_options \<Rightarrow> active_execution" where
  "registered_execution o1 = \<lparr>
     ae_token = xo_executionToken o1, ae_generation = xo_generation o1,
     ae_pid = xo_executionPid o1, ae_processIdentity = xo_executionProcessIdentity o1,
     ae_groupId = xo_executionGroupId o1, ae_boundaryKind = xo_executionBoundaryKind o1,
     ae_ownerToken = xo_ownerToken o1, ae_state = REGISTERED\<rparr>"

definition owned_by :: "reconciler_state \<Rightarrow> string \<Rightarrow> int \<Rightarrow> bool" where
  "owned_by s token pid \<longleftrightarrow> ownerToken s = Some token \<and> ownerPid s = Some pid"

definition db_valid :: "db \<Rightarrow> bool" where
  "db_valid db \<longleftrightarrow> is_ok (read_reconciler_state db)"

lemma db_valid_iff: "db_valid db \<longleftrightarrow> (\<exists>s. valid_state s \<and> db = [encode_state s])"
  by (auto simp: db_valid_def is_ok_iff read_reconciler_state_iff)

lemma read_state_encoded [simp]: "valid_state s \<Longrightarrow> read_state [encode_state s] = Inr s"
  by (simp add: read_state_def)

lemma read_state_iff: "read_state db = Inr s \<longleftrightarrow> valid_state s \<and> db = [encode_state s]"
  by (cases "read_reconciler_state db")
    (auto simp: read_state_def simp flip: read_reconciler_state_iff)

lemma valid_singleton: "valid_state s \<Longrightarrow> singletonId s = 1"
  by (simp add: valid_state_def)

subsection \<open>Statements on an encoded record\<close>

lemma update_encoded [simp]:
  "valid_state s \<Longrightarrow> update_where P f [encode_state s]
     = [if P (encode_state s) then f (encode_state s) else encode_state s]"
  by (simp add: update_where_def valid_singleton)

lemma changes_encoded [simp]:
  "valid_state s \<Longrightarrow> changes P [encode_state s] = (if P (encode_state s) then 1 else 0)"
  by (simp add: changes_def valid_singleton)

lemma encode_updates:
  "(encode_state s)\<lparr>requested_generation := requestedGeneration s + 1\<rparr> = encode_state (coalesce_state s)"
  "clear_owner_columns ((encode_state s)\<lparr>completed_generation := c\<rparr>) = encode_state (idle_state c s)"
  "clear_owner_columns (encode_state s) = encode_state (idle_state (completedGeneration s) s)"
  "(encode_state s)\<lparr>heartbeat_at_epoch_ms := Some n\<rparr> = encode_state (s\<lparr>heartbeatAtEpochMs := Some n\<rparr>)"
  "clear_execution_columns (encode_state s) = encode_state (s\<lparr>activeExecution := None\<rparr>)"
  by (simp_all add: encode_state_def coalesce_state_def idle_state_def clear_owner_columns_def
      clear_execution_columns_def Let_def)

lemma encode_acquire:
  "(encode_state s)\<lparr>
     requested_generation := requestedGeneration s + 1,
     running_generation := Some (requestedGeneration s + 1),
     owner_token := Some (ro_token o1), owner_pid := Some (ro_pid o1),
     owner_boot_epoch_ms := Some (ro_bootEpochMs o1),
     owner_process_identity := Some (ro_processIdentity o1),
     owner_caller_name := Some (ro_callerName o1), owner_origin_agent := Some (ro_originAgent o1),
     owner_session_id := ro_originSessionId o1,
     heartbeat_at_epoch_ms := Some (ro_nowEpochMs o1)\<rparr> = encode_state (acquire_state o1 s)"
  by (simp add: encode_state_def acquire_state_def Let_def)

lemma encode_advance:
  "(encode_state s)\<lparr>completed_generation := c, running_generation := Some (requestedGeneration s),
     heartbeat_at_epoch_ms := Some n\<rparr> = encode_state (advance_state c n s)"
  by (simp add: encode_state_def advance_state_def Let_def)

lemma encode_register:
  "(encode_state s)\<lparr>
     execution_token := Some (xo_executionToken o1),
     execution_generation := Some (xo_generation o1), execution_pid := Some (xo_executionPid o1),
     execution_process_identity := Some (xo_executionProcessIdentity o1),
     execution_group_id := Some (xo_executionGroupId o1),
     execution_boundary_kind := Some (xo_executionBoundaryKind o1),
     execution_owner_token := Some (xo_ownerToken o1), execution_state := Some ''REGISTERED''\<rparr>
   = encode_state (s\<lparr>activeExecution := Some (registered_execution o1)\<rparr>)"
  by (simp add: encode_state_def registered_execution_def Let_def)

lemma encode_authorize:
  "activeExecution s = Some e \<Longrightarrow>
   (encode_state s)\<lparr>execution_state := Some ''START_AUTHORIZED''\<rparr>
   = encode_state (s\<lparr>activeExecution := Some (e\<lparr>ae_state := START_AUTHORIZED\<rparr>)\<rparr>)"
  by (simp add: encode_state_def Let_def)

subsection \<open>Validity of the abstract transitions\<close>

lemma valid_owned:
  assumes "valid_state s" "owned_by s t p"
  obtains g where "runningGeneration s = Some g" "valid_owner s g"
  using assms
  by (cases "runningGeneration s") (auto simp: valid_state_def no_owner_def owned_by_def)

lemma no_owner_no_execution:
  "valid_state s \<Longrightarrow> ownerToken s = None \<Longrightarrow> activeExecution s = None"
  by (cases "runningGeneration s") (auto simp: valid_state_def no_owner_def valid_owner_def)

lemma valid_coalesce:
  assumes "valid_state s" "requestedGeneration s < max_safe_integer"
  shows "valid_state (coalesce_state s)"
  using assms
  by (cases "runningGeneration s"; cases "activeExecution s")
    (auto simp: coalesce_state_def validity_defs is_safe_integer_def max_safe_integer_def)

text \<open>A replaced owner's execution is kept and becomes an explicit recovery state; it stays
  valid because the new owner's token is not the one that registered it.\<close>

lemma valid_acquire:
  assumes v: "valid_state s" and r: "requestedGeneration s < max_safe_integer"
    and o1: "assert_registration_options o1 = None"
    and fresh: "\<And>e. activeExecution s = Some e \<Longrightarrow> ae_ownerToken e \<noteq> ro_token o1"
  shows "valid_state (acquire_state o1 s)"
proof -
  have opts: "\<not> is_blank (ro_token o1)" "is_safe_integer (ro_pid o1)" "0 < ro_pid o1"
    "is_safe_integer (ro_bootEpochMs o1)" "0 \<le> ro_bootEpochMs o1"
    "\<not> is_blank (ro_processIdentity o1)" "\<not> is_blank (ro_callerName o1)"
    "\<not> is_blank (ro_originAgent o1)"
    "ro_originSessionId o1 = None \<or> is_non_empty (ro_originSessionId o1)"
    "is_safe_integer (ro_nowEpochMs o1)" "0 \<le> ro_nowEpochMs o1"
    using o1
    by (auto simp: assert_registration_options_def is_non_empty_def split: if_splits option.splits)
  have n: "is_safe_integer (requestedGeneration s + 1)"
    using v r by (auto simp: valid_state_def is_safe_integer_def)
  have ex: "valid_execution (acquire_state o1 s) (ro_token o1) (requestedGeneration s + 1) e"
    if e: "activeExecution s = Some e" for e
  proof -
    obtain t g where g: "runningGeneration s = Some g" "valid_owner s g"
      and "valid_execution s t g e"
      using v e by (cases "runningGeneration s") (auto simp: valid_state_def no_owner_def valid_owner_def)
    then show ?thesis
      using fresh [OF e] by (auto simp: valid_execution_def valid_owner_def acquire_state_def)
  qed
  show ?thesis
    using v opts n ex
    by (auto simp: valid_state_def valid_owner_def acquire_state_def split: option.splits)
qed

lemma valid_advance:
  assumes "valid_state s" "owned_by s t p" "activeExecution s = None"
    and "runningGeneration s = Some g" "g < requestedGeneration s"
    and "completed = (if ok then g else completedGeneration s)"
    and "is_safe_integer now" "0 \<le> now"
  shows "valid_state (advance_state completed now s)"
  using assms by (auto simp: valid_state_def valid_owner_def advance_state_def split: if_splits)

lemma valid_idle:
  assumes "valid_state s" "owned_by s t p" "activeExecution s = None"
    and "runningGeneration s = Some g"
    and "completed = (if ok then g else completedGeneration s)"
  shows "valid_state (idle_state completed s)"
  using assms by (auto simp: valid_state_def valid_owner_def no_owner_def idle_state_def split: if_splits)

lemma valid_heartbeat:
  assumes "valid_state s" "owned_by s t p" "is_safe_integer now" "0 \<le> now"
  shows "valid_state (s\<lparr>heartbeatAtEpochMs := Some now\<rparr>)"
  using assms
  by (auto simp: valid_state_def valid_owner_def valid_execution_def no_owner_def owned_by_def
      split: option.splits)

lemma valid_clear:
  assumes "valid_state s"
  shows "valid_state (s\<lparr>activeExecution := None\<rparr>)"
  using assms
  by (auto simp: valid_state_def valid_owner_def no_owner_def split: option.splits)

lemma valid_authorize:
  assumes "valid_state s" "activeExecution s = Some e"
  shows "valid_state (s\<lparr>activeExecution := Some (e\<lparr>ae_state := START_AUTHORIZED\<rparr>)\<rparr>)"
  using assms
  by (auto simp: valid_state_def valid_owner_def valid_execution_def no_owner_def
      split: option.splits)

lemma assert_execution_optionsD:
  assumes "assert_execution_options o1 = None"
  shows "\<not> is_blank (xo_executionToken o1)" "\<not> is_blank (xo_executionProcessIdentity o1)"
    "\<not> is_blank (xo_ownerToken o1)" "is_safe_integer (xo_executionPid o1)"
    "0 < xo_executionPid o1" "xo_executionGroupId o1 = xo_executionPid o1"
    "xo_executionBoundaryKind o1 = POSIX_EXECUTION_BOUNDARY_KIND"
  using assms
  by (auto simp: assert_execution_options_def require_non_empty_def require_positive_def
      split: if_splits)

lemma valid_register:
  assumes "valid_state s" "owned_by s (xo_ownerToken o1) (xo_ownerPid o1)"
    and "runningGeneration s = Some (xo_generation o1)" "assert_execution_options o1 = None"
  shows "valid_state (s\<lparr>activeExecution := Some (registered_execution o1)\<rparr>)"
  using assms assert_execution_optionsD [OF assms(4)]
  by (auto simp: valid_state_def valid_owner_def valid_execution_def registered_execution_def
      owned_by_def)


subsection \<open>The operations implement the abstract transitions\<close>

lemma execution_matches_iff: "execution_matches_observation c d \<longleftrightarrow> c = d"
  by (cases c; cases d) (auto simp: execution_matches_observation_def)

lemma owner_matches_refl: "owner_matches_observation s s"
  by (simp add: owner_matches_observation_def execution_matches_iff)

lemma register_transaction_refines:
  assumes "valid_state s"
  shows "register_transaction o1 observed alive [encode_state s] =
    (if \<not> owner_matches_observation s observed
       then (Inl ReconciliationOwnerChanged, [encode_state s])
     else if alive then
       (Inr (Coalesced (requestedGeneration s + 1) (ownerPid s) (ownerCallerName s)),
        [encode_state (coalesce_state s)])
     else
       (Inr (Owner (requestedGeneration s + 1) (completedGeneration s) (ownerToken s \<noteq> None)
               (ownerPid s) (activeExecution s \<noteq> None)),
        [encode_state (acquire_state o1 s)]))"
proof (cases alive)
  case True
  then show ?thesis using assms by (simp add: register_transaction_def Let_def encode_updates)
next
  case False
  then show ?thesis using assms by (simp add: register_transaction_def Let_def encode_acquire)
qed

lemma finish_transaction_refines:
  assumes "valid_state s"
  shows "finish_transaction o1 [encode_state s] =
    (if \<not> owned_by s (fo_token o1) (fo_pid o1)
       then (Inl (FencedError FinishNotOwner), [encode_state s])
     else if activeExecution s \<noteq> None
       then (Inl (FencedError FinishExecutionActive), [encode_state s])
     else if runningGeneration s \<noteq> Some (fo_generation o1)
       then (Inl (FencedError (FinishGenerationMismatch (runningGeneration s) (fo_generation o1))),
             [encode_state s])
     else let c = (if fo_success o1 then fo_generation o1 else completedGeneration s)
     in if requestedGeneration s > fo_generation o1
       then (Inr (Continue (requestedGeneration s) c (fo_success o1)),
             [encode_state (advance_state c (fo_nowEpochMs o1) s)])
     else (Inr (if fo_success o1 then StopSuccess c else StopFailed c),
           [encode_state (idle_state c s)]))"
  using assms
  by (simp add: finish_transaction_def owned_by_def Let_def encode_updates encode_advance)

lemma release_transaction_refines:
  assumes "valid_state s"
  shows "release_transaction token pid [encode_state s] =
    (if owned_by s token pid \<and> activeExecution s = None
       then (Inr True, [encode_state (idle_state (completedGeneration s) s)])
     else (Inr False, [encode_state s]))"
  using assms by (auto simp: release_transaction_def owned_by_def Let_def encode_updates)

lemma authorize_transaction_refines:
  assumes "valid_state s"
  shows "authorize_transaction o1 [encode_state s] =
    (if \<not> owned_by s (fe_ownerToken o1) (fe_ownerPid o1)
       then (Inl (FencedError ExecutionNotOwner), [encode_state s])
     else case activeExecution s of
       None \<Rightarrow> (Inr False, [encode_state s])
     | Some e \<Rightarrow>
         if ae_token e = fe_executionToken o1 \<and> ae_ownerToken e = fe_ownerToken o1
             \<and> ae_state e = REGISTERED
         then (Inr True,
               [encode_state (s\<lparr>activeExecution := Some (e\<lparr>ae_state := START_AUTHORIZED\<rparr>)\<rparr>)])
         else (Inr False, [encode_state s]))"
  using assms
  by (auto simp: authorize_transaction_def owned_by_def Let_def encode_authorize split: option.splits)

lemma clear_transaction_refines:
  assumes "valid_state s"
  shows "clear_transaction o1 [encode_state s] =
    (if \<not> owned_by s (fe_ownerToken o1) (fe_ownerPid o1)
       then (Inl (FencedError ExecutionNotOwner), [encode_state s])
     else case activeExecution s of
       None \<Rightarrow> (Inr False, [encode_state s])
     | Some e \<Rightarrow>
         if ae_token e = fe_executionToken o1
         then (Inr True, [encode_state (s\<lparr>activeExecution := None\<rparr>)])
         else (Inr False, [encode_state s]))"
  using assms
  by (auto simp: clear_transaction_def owned_by_def Let_def encode_updates split: option.splits)

lemma register_execution_transaction_refines:
  assumes v: "valid_state s" and o1: "assert_execution_options o1 = None"
  shows "register_execution_transaction o1 [encode_state s] =
    (if \<not> owned_by s (xo_ownerToken o1) (xo_ownerPid o1)
       then (Inl (FencedError ExecutionNotOwner), [encode_state s])
     else if runningGeneration s \<noteq> Some (xo_generation o1)
       then (Inl (FencedError (ExecutionGenerationMismatch (runningGeneration s) (xo_generation o1))),
             [encode_state s])
     else if activeExecution s \<noteq> None
       then (Inl (FencedError ExecutionAlreadyActive), [encode_state s])
     else (Inr (registered_execution o1),
           [encode_state (s\<lparr>activeExecution := Some (registered_execution o1)\<rparr>)]))"
proof (cases "owned_by s (xo_ownerToken o1) (xo_ownerPid o1)
    \<and> runningGeneration s = Some (xo_generation o1)")
  case True
  then have "valid_state (s\<lparr>activeExecution := Some (registered_execution o1)\<rparr>)"
    using v o1 by (auto intro: valid_register)
  then show ?thesis
    using True v
    by (simp add: register_execution_transaction_def owned_by_def Let_def encode_register)
next
  case False
  then show ?thesis
    using v by (auto simp: register_execution_transaction_def owned_by_def Let_def)
qed

lemmas transaction_refines =
  register_transaction_refines finish_transaction_refines release_transaction_refines
  authorize_transaction_refines clear_transaction_refines

subsection \<open>What a transaction guarantees to its caller\<close>

text \<open>A transaction that throws leaves the table as it was.\<close>

lemma run_transaction_atomic:
  "fst (run_reconciler_transaction fault operation db) = Inl e
     \<Longrightarrow> snd (run_reconciler_transaction fault operation db) = db"
  by (auto simp: run_reconciler_transaction_def split: if_splits prod.splits sum.splits)

lemma run_transaction_cases:
  obtains "run_reconciler_transaction fault operation db = (Inl SqliteError, db)"
  | e db' where "operation db = (Inl e, db')"
      "run_reconciler_transaction fault operation db = (Inl e, db)"
  | v db' where "operation db = (Inr v, db')"
      "run_reconciler_transaction fault operation db = (Inr v, db')"
  by (cases fault; cases "operation db"; cases "fst (operation db)")
    (auto simp: run_reconciler_transaction_def)

text \<open>
  \<open>coordinator_transition\<close> is the contract of one operation: it keeps a valid table valid
  (under the operation's own precondition on the record) and an error changes nothing.
  Its client lemma is about the coordinator's whole life: any sequence of such transitions.
\<close>

locale coordinator_transition =
  fixes op :: "db \<Rightarrow> (op_error + 'a) \<times> db"
    and pre :: "reconciler_state \<Rightarrow> bool"
  assumes keeps_valid: "valid_state s \<Longrightarrow> pre s \<Longrightarrow> db_valid (snd (op [encode_state s]))"
    and atomic: "fst (op db) = Inl e \<Longrightarrow> snd (op db) = db"
begin

lemma result_valid:
  assumes "db_valid db" "\<And>s. valid_state s \<Longrightarrow> pre s"
  shows "db_valid (snd (op db))"
  using assms keeps_valid by (auto simp: db_valid_iff)

end

text \<open>\<open>fenced_transition\<close> adds that a caller whose token is not the owner's changes nothing.\<close>

locale fenced_transition = coordinator_transition op pre
  for op :: "db \<Rightarrow> (op_error + 'a) \<times> db" and pre :: "reconciler_state \<Rightarrow> bool" +
  fixes token :: string
  assumes fenced: "valid_state s \<Longrightarrow> ownerToken s \<noteq> Some token
      \<Longrightarrow> snd (op [encode_state s]) = [encode_state s]"
begin

lemma obsolete_caller_changes_nothing:
  assumes "valid_state s" "ownerToken s \<noteq> Some token"
  shows "((\<lambda>db. snd (op db)) ^^ n) [encode_state s] = [encode_state s]"
  by (induction n) (simp_all add: fenced [OF assms])

end

lemma run_transaction_keeps_valid:
  assumes "valid_state s"
    and "\<And>v db'. operation [encode_state s] = (Inr v, db') \<Longrightarrow> db_valid db'"
  shows "db_valid (snd (run_reconciler_transaction fault operation [encode_state s]))"
  using assms
  by (cases rule: run_transaction_cases [of fault operation "[encode_state s]"])
    (auto simp: db_valid_iff)

lemma run_transaction_unchanged:
  assumes "snd (operation db) = db"
  shows "snd (run_reconciler_transaction fault operation db) = db"
  using assms
  by (cases rule: run_transaction_cases [of fault operation db]) auto

lemma db_valid_encoded [simp]: "valid_state s \<Longrightarrow> db_valid [encode_state s]"
  by (auto simp: db_valid_iff)

interpretation finish: fenced_transition
  "finish_reconciliation_pass fault o1"
  "\<lambda>_. is_safe_integer (fo_nowEpochMs o1) \<and> 0 \<le> fo_nowEpochMs o1" "fo_token o1"
  for fault o1
proof unfold_locales
  fix s :: reconciler_state
  assume v: "valid_state s" and now: "is_safe_integer (fo_nowEpochMs o1) \<and> 0 \<le> fo_nowEpochMs o1"
  show "db_valid (snd (finish_reconciliation_pass fault o1 [encode_state s]))"
    unfolding finish_reconciliation_pass_def
  proof (rule run_transaction_keeps_valid [OF v])
    fix r db'
    assume "finish_transaction o1 [encode_state s] = (Inr r, db')"
    then show "db_valid db'"
      using v now
      by (auto simp: finish_transaction_refines Let_def split: if_splits
          intro: valid_advance valid_idle intro!: db_valid_encoded)
  qed
next
  show "fst (finish_reconciliation_pass fault o1 db) = Inl e \<Longrightarrow>
      snd (finish_reconciliation_pass fault o1 db) = db" for db e
    unfolding finish_reconciliation_pass_def by (rule run_transaction_atomic)
next
  fix s :: reconciler_state
  assume "valid_state s" "ownerToken s \<noteq> Some (fo_token o1)"
  then show "snd (finish_reconciliation_pass fault o1 [encode_state s]) = [encode_state s]"
    unfolding finish_reconciliation_pass_def
    by (intro run_transaction_unchanged) (simp add: finish_transaction_refines owned_by_def)
qed

interpretation release: fenced_transition
  "release_reconciliation_ownership fault token pid" "\<lambda>_. True" token
  for fault token pid
proof unfold_locales
  fix s :: reconciler_state
  assume v: "valid_state s"
  show "db_valid (snd (release_reconciliation_ownership fault token pid [encode_state s]))"
    unfolding release_reconciliation_ownership_def
  proof (rule run_transaction_keeps_valid [OF v])
    fix r db'
    assume r: "release_transaction token pid [encode_state s] = (Inr r, db')"
    show "db_valid db'"
    proof (cases "owned_by s token pid \<and> activeExecution s = None")
      case True
      then obtain g where "runningGeneration s = Some g" using v by (auto elim: valid_owned)
      then have "valid_state (idle_state (completedGeneration s) s)"
        using True v valid_idle [where ok = False] by auto
      then show ?thesis using r v True by (auto simp: release_transaction_refines)
    next
      case False
      then show ?thesis using r v by (auto simp: release_transaction_refines)
    qed
  qed
next
  show "fst (release_reconciliation_ownership fault token pid db) = Inl e \<Longrightarrow>
      snd (release_reconciliation_ownership fault token pid db) = db" for db e
    unfolding release_reconciliation_ownership_def by (rule run_transaction_atomic)
next
  fix s :: reconciler_state
  assume "valid_state s" "ownerToken s \<noteq> Some token"
  then show "snd (release_reconciliation_ownership fault token pid [encode_state s]) = [encode_state s]"
    unfolding release_reconciliation_ownership_def
    by (intro run_transaction_unchanged) (simp add: release_transaction_refines owned_by_def)
qed

interpretation authorize: fenced_transition
  "authorize_active_execution_start fault o1" "\<lambda>_. True" "fe_ownerToken o1"
  for fault o1
proof unfold_locales
  fix s :: reconciler_state
  assume v: "valid_state s"
  show "db_valid (snd (authorize_active_execution_start fault o1 [encode_state s]))"
    unfolding authorize_active_execution_start_def
  proof (rule run_transaction_keeps_valid [OF v])
    fix r db'
    assume "authorize_transaction o1 [encode_state s] = (Inr r, db')"
    then show "db_valid db'"
      using v valid_authorize [OF v]
      by (auto simp: authorize_transaction_refines split: if_splits option.splits)
  qed
next
  show "fst (authorize_active_execution_start fault o1 db) = Inl e \<Longrightarrow>
      snd (authorize_active_execution_start fault o1 db) = db" for db e
    unfolding authorize_active_execution_start_def by (rule run_transaction_atomic)
next
  fix s :: reconciler_state
  assume "valid_state s" "ownerToken s \<noteq> Some (fe_ownerToken o1)"
  then show "snd (authorize_active_execution_start fault o1 [encode_state s]) = [encode_state s]"
    unfolding authorize_active_execution_start_def
    by (intro run_transaction_unchanged) (simp add: authorize_transaction_refines owned_by_def)
qed

interpretation clear: fenced_transition
  "clear_active_execution fault o1" "\<lambda>_. True" "fe_ownerToken o1"
  for fault o1
proof unfold_locales
  fix s :: reconciler_state
  assume v: "valid_state s"
  show "db_valid (snd (clear_active_execution fault o1 [encode_state s]))"
    unfolding clear_active_execution_def
  proof (rule run_transaction_keeps_valid [OF v])
    fix r db'
    assume "clear_transaction o1 [encode_state s] = (Inr r, db')"
    then show "db_valid db'"
      using v valid_clear [OF v]
      by (auto simp: clear_transaction_refines split: if_splits option.splits)
  qed
next
  show "fst (clear_active_execution fault o1 db) = Inl e \<Longrightarrow>
      snd (clear_active_execution fault o1 db) = db" for db e
    unfolding clear_active_execution_def by (rule run_transaction_atomic)
next
  fix s :: reconciler_state
  assume "valid_state s" "ownerToken s \<noteq> Some (fe_ownerToken o1)"
  then show "snd (clear_active_execution fault o1 [encode_state s]) = [encode_state s]"
    unfolding clear_active_execution_def
    by (intro run_transaction_unchanged) (simp add: clear_transaction_refines owned_by_def)
qed

interpretation register_execution: fenced_transition
  "register_active_execution fault o1" "\<lambda>_. True" "xo_ownerToken o1"
  for fault o1
proof unfold_locales
  fix s :: reconciler_state
  assume v: "valid_state s"
  show "db_valid (snd (register_active_execution fault o1 [encode_state s]))"
  proof (cases "assert_execution_options o1")
    case None
    have "db_valid (snd (run_reconciler_transaction fault (register_execution_transaction o1)
        [encode_state s]))"
    proof (rule run_transaction_keeps_valid [OF v])
      fix r db'
      assume "register_execution_transaction o1 [encode_state s] = (Inr r, db')"
      then show "db_valid db'"
        using v None
        by (auto simp: register_execution_transaction_refines split: if_splits
            intro!: db_valid_encoded valid_register)
    qed
    with None show ?thesis by (simp add: register_active_execution_def)
  next
    case (Some e)
    then show ?thesis using v by (simp add: register_active_execution_def)
  qed
next
  show "fst (register_active_execution fault o1 db) = Inl e \<Longrightarrow>
      snd (register_active_execution fault o1 db) = db" for db e
    by (auto simp: register_active_execution_def dest: run_transaction_atomic split: option.splits)
next
  fix s :: reconciler_state
  assume "valid_state s" "ownerToken s \<noteq> Some (xo_ownerToken o1)"
  then show "snd (register_active_execution fault o1 [encode_state s]) = [encode_state s]"
    by (auto simp: register_active_execution_def register_execution_transaction_refines owned_by_def
        intro!: run_transaction_unchanged split: option.splits)
qed

end
