(* ===== verification/Coordinator_Admission.thy ===== *)
theory Coordinator_Admission
  imports Coordinator_Spec
begin

text \<open>
  Admission and fencing: what one public invocation does to the coordinator when other launchers
  run concurrently (the interference functions of \<open>admission_env\<close>), and what a launcher that has
  lost ownership can still do (nothing).
\<close>

subsection \<open>Admission takes effect atomically\<close>

lemma owner_is_alive_cong:
  "owner_matches_observation s t \<Longrightarrow> owner_is_alive os t = owner_is_alive os s"
  by (auto simp: owner_matches_observation_def owner_is_alive_def split: option.splits)

definition admission_effect ::
  "register_options \<Rightarrow> os_view \<Rightarrow> reconciler_state \<Rightarrow> register_result \<times> reconciler_state" where
  "admission_effect o1 os s =
     (if owner_is_alive os s then
        (Coalesced (requestedGeneration s + 1) (ownerPid s) (ownerCallerName s), coalesce_state s)
      else
        (Owner (requestedGeneration s + 1) (completedGeneration s) (ownerToken s \<noteq> None)
           (ownerPid s) (activeExecution s \<noteq> None), acquire_state o1 s))"

lemma register_transaction_effect:
  assumes "valid_state s" "register_transaction o1 observed (owner_is_alive os observed)
             [encode_state s] = (Inr r, db')"
  shows "\<exists>t. admission_effect o1 os s = (r, t) \<and> db' = [encode_state t]"
  using assms owner_is_alive_cong [of s observed os]
  by (auto simp: register_transaction_refines admission_effect_def split: if_splits)

text \<open>The table the transaction of attempt \<open>k\<close> runs on: the other launchers' commits of all windows so
  far, applied to the initial table. An attempt that is superseded writes nothing.\<close>

primrec table_before :: "admission_env \<Rightarrow> db \<Rightarrow> nat \<Rightarrow> db" where
  "table_before env db 0 = db"
| "table_before env db (Suc k) = before_transaction env k (before_observation env k (table_before env db k))"

lemma table_before_keeps:
  assumes "\<And>k db. G db \<Longrightarrow> G (before_observation env k db)"
    and "\<And>k db. G db \<Longrightarrow> G (before_transaction env k db)" and "G db"
  shows "G (table_before env db k)"
  by (induction k) (simp_all add: assms)

text \<open>The other launchers' writes keep some property \<open>G\<close> of the table; the admission then takes
  effect on a single table of \<open>G\<close>, that of the attempt that committed, and with the answer of the
  operating system to the liveness probe of that very attempt.\<close>

lemma register_attempts_effect:
  assumes G: "\<And>db. G db \<Longrightarrow> db_valid db"
    and env: "\<And>k db. G db \<Longrightarrow> G (before_observation env k db)"
      "\<And>k db. G db \<Longrightarrow> G (before_transaction env k db)"
    and start: "G db"
    and run: "register_attempts env o1 n k (table_before env db k) = (Inr r, db')"
  shows "\<exists>s t j. j < k + n \<and> table_before env db (Suc j) = [encode_state s] \<and> valid_state s
            \<and> admission_effect o1 (view_at env j) s = (r, t) \<and> db' = [encode_state t]"
  using run
proof (induction n arbitrary: k)
  case 0
  then show ?case by simp
next
  case (Suc n)
  let ?db1 = "before_observation env k (table_before env db k)"
  let ?db2 = "table_before env db (Suc k)"
  have g: "G ?db2" using table_before_keeps [where G = G, OF env start] .
  then obtain s where s: "valid_state s" "?db2 = [encode_state s]"
    using G db_valid_iff by blast
  obtain observed where obs: "read_state ?db1 = Inr observed"
    using Suc.prems by (cases "read_state ?db1") auto
  let ?op = "register_transaction o1 observed (owner_is_alive (view_at env k) observed)"
  show ?case
  proof (cases rule: run_transaction_cases [of "fault_at env k" ?op ?db2])
    case 1
    then show ?thesis using Suc.prems obs by (simp add: Let_def)
  next
    case (2 e d)
    show ?thesis
    proof (cases "e = ReconciliationOwnerChanged")
      case True
      then have "register_attempts env o1 n (Suc k) ?db2 = (Inr r, db')"
        using Suc.prems obs 2 by (simp add: Let_def)
      from Suc.IH [OF this] show ?thesis by simp
    next
      case False
      then show ?thesis using Suc.prems obs 2 by (cases e) (auto simp: Let_def)
    qed
  next
    case (3 v d)
    then have "v = r" "d = db'" using Suc.prems obs by (simp_all add: Let_def)
    then have "?op [encode_state s] = (Inr r, db')" using 3 s by simp
    then obtain t where "admission_effect o1 (view_at env k) s = (r, t)" "db' = [encode_state t]"
      using register_transaction_effect [OF s(1)] by blast
    with s show ?thesis by (intro exI [of _ s] exI [of _ t] exI [of _ k]) simp
  qed
qed

lemma register_attempts_error:
  assumes "register_attempts env o1 n k (table_before env db k) = (Inl e, db')"
  shows "\<exists>j \<le> k + n. db' = table_before env db j \<or> db' = before_observation env j (table_before env db j)"
  using assms
proof (induction n arbitrary: k)
  case 0
  then show ?case by auto
next
  case (Suc n)
  let ?db1 = "before_observation env k (table_before env db k)"
  let ?db2 = "table_before env db (Suc k)"
  show ?case
  proof (cases "read_state ?db1")
    case (Inl err)
    then show ?thesis using Suc.prems by (intro exI [of _ k]) (simp add: Let_def)
  next
    case (Inr observed)
    let ?op = "register_transaction o1 observed (owner_is_alive (view_at env k) observed)"
    have "db' = ?db2 \<or> register_attempts env o1 n (Suc k) ?db2 = (Inl e, db')"
      using Suc.prems Inr
      by (cases rule: run_transaction_cases [of "fault_at env k" ?op ?db2])
        (auto simp: Let_def split: op_error.splits)
    then show ?thesis
      using Suc.IH [of "Suc k"] by (elim disjE) (auto intro: exI [of _ "Suc k"])
  qed
qed

lemma admission_atomic:
  assumes "\<And>db. G db \<Longrightarrow> db_valid db"
    and "\<And>k db. G db \<Longrightarrow> G (before_observation env k db)"
    and "\<And>k db. G db \<Longrightarrow> G (before_transaction env k db)"
    and "G db" and "register_reconciliation_request env o1 db = (Inr r, db')"
  shows "\<exists>s t k. k < 8 \<and> table_before env db (Suc k) = [encode_state s] \<and> valid_state s
           \<and> admission_effect o1 (view_at env k) s = (r, t) \<and> db' = [encode_state t]"
  using assms(5) register_attempts_effect [where G = G and k = 0 and n = 8, OF assms(1-4)]
  by (auto simp: register_reconciliation_request_def split: option.splits)

text \<open>
  C21. Every admission that returns is linearizable: whatever valid writes other launchers commit
  around its (at most eight) attempts, its result and its write are the effect of one atomic step
  of one attempt, on exactly the table the other launchers had left at that moment. In it the
  recorded owner is or is not alive by the answer of the operating system to that attempt's probe:
  if it is, the request is coalesced, and otherwise the caller becomes the owner. An admission that
  throws writes nothing of its own.
\<close>

theorem admission_linearizable:
  assumes "\<And>db. G db \<Longrightarrow> db_valid db"
    and "\<And>k db. G db \<Longrightarrow> G (before_observation env k db)"
    and "\<And>k db. G db \<Longrightarrow> G (before_transaction env k db)"
    and "G db"
  shows "case register_reconciliation_request env o1 db of
           (Inr r, db') \<Rightarrow> (\<exists>s t k. k < 8 \<and> table_before env db (Suc k) = [encode_state s]
              \<and> valid_state s \<and> db' = [encode_state t]
              \<and> (if owner_is_alive (view_at env k) s
                 then t = coalesce_state s \<and>
                   r = Coalesced (requestedGeneration s + 1) (ownerPid s) (ownerCallerName s)
                 else t = acquire_state o1 s \<and>
                   r = Owner (requestedGeneration s + 1) (completedGeneration s) (ownerToken s \<noteq> None)
                     (ownerPid s) (activeExecution s \<noteq> None)))
         | (Inl e, db') \<Rightarrow> (\<exists>k \<le> 8. db' = table_before env db k
              \<or> db' = before_observation env k (table_before env db k))"
proof (cases "fst (register_reconciliation_request env o1 db)")
  case (Inl e)
  then show ?thesis
    using register_attempts_error [of env o1 8 0 db]
    by (cases "register_attempts env o1 8 0 db")
      (auto simp: register_reconciliation_request_def split: option.splits intro: exI [of _ 0])
next
  case (Inr r)
  then obtain db' where run: "register_reconciliation_request env o1 db = (Inr r, db')"
    by (metis prod.collapse)
  from admission_atomic [where G = G, OF assms run] obtain s t k where a: "k < 8"
    "table_before env db (Suc k) = [encode_state s]" "valid_state s" "db' = [encode_state t]"
    "admission_effect o1 (view_at env k) s = (r, t)" by blast
  then show ?thesis unfolding run
    by (simp del: table_before.simps)
      (intro exI [of _ s] exI [of _ t] exI [of _ k], auto simp: admission_effect_def split: if_splits)
qed

definition quiet_env :: "os_view \<Rightarrow> admission_env" where
  "quiet_env os = \<lparr>before_observation = (\<lambda>_ d. d), before_transaction = (\<lambda>_ d. d),
     view_at = (\<lambda>_. os), fault_at = (\<lambda>_. TxOk)\<rparr>"

definition empty_os :: os_view where
  "empty_os = \<lparr>os_platform = Linux, kill_probe = (\<lambda>_. Some ESRCH), boot_id_file = None,
     proc_stat_file = (\<lambda>_. None), ps_lstart_command = (\<lambda>_. None), ps_pgid = (\<lambda>_. None)\<rparr>"

definition sample_options :: register_options where
  "sample_options = \<lparr>ro_token = ''t1'', ro_pid = 10, ro_bootEpochMs = 0,
     ro_processIdentity = ''id'', ro_callerName = ''cli'', ro_originAgent = ''agent'',
     ro_originSessionId = None, ro_nowEpochMs = 5\<rparr>"

theorem admission_linearizable_witness:
  "\<exists>s t. valid_state s \<and> [encode_state s] = initial_db \<and> t = acquire_state sample_options s \<and>
     snd (register_reconciliation_request (quiet_env empty_os) sample_options initial_db) = [encode_state t]"
proof -
  let ?env = "quiet_env empty_os"
  have "fst (register_reconciliation_request ?env sample_options initial_db) = Inr (Owner 1 0 False None False)"
    by code_simp
  then obtain db' where run: "register_reconciliation_request ?env sample_options initial_db
      = (Inr (Owner 1 0 False None False), db')" by (metis prod.collapse)
  have same: "table_before ?env initial_db k = initial_db" for k
    by (induction k) (simp_all add: quiet_env_def)
  have valid: "db_valid initial_db" by (simp add: initial_db_encodes initial_state_valid)
  have keep: "db_valid (before_observation ?env k db)" "db_valid (before_transaction ?env k db)"
    if "db_valid db" for k db using that by (simp_all add: quiet_env_def)
  from admission_linearizable [where G = db_valid, OF _ keep valid, of sample_options, unfolded run] same
  show ?thesis unfolding run by (auto simp del: table_before.simps split: if_splits)
qed

subsection \<open>Admission keeps the record valid\<close>

text \<open>A table the admission of \<open>o1\<close> may act on: there is room for another generation and the new
  owner's token is not the one that registered a surviving execution.\<close>

definition admissible :: "register_options \<Rightarrow> db \<Rightarrow> bool" where
  "admissible o1 db \<longleftrightarrow>
     (\<exists>s. valid_state s \<and> db = [encode_state s] \<and> requestedGeneration s < max_safe_integer
        \<and> (\<forall>e. activeExecution s = Some e \<longrightarrow> ae_ownerToken e \<noteq> ro_token o1))"

lemma encode_state_inject:
  "valid_state s \<Longrightarrow> valid_state t \<Longrightarrow> encode_state s = encode_state t \<Longrightarrow> s = t"
  by (metis read_row_encode sum.inject(2))

lemma admission_effect_fields:
  assumes "admission_effect o1 os s = (r, t)"
  shows "requestedGeneration t = requestedGeneration s + 1" "gen r = requestedGeneration t"
    "completedGeneration t = completedGeneration s" "activeExecution t = activeExecution s"
  using assms
  by (auto simp: admission_effect_def coalesce_state_def acquire_state_def split: if_splits)

lemma admission_effect_valid:
  assumes "valid_state s" "admissible o1 [encode_state s]" "assert_registration_options o1 = None"
    and "admission_effect o1 os s = (r, t)"
  shows "valid_state t"
proof -
  obtain s' where "valid_state s'" "encode_state s = encode_state s'"
    "requestedGeneration s' < max_safe_integer"
    "\<forall>e. activeExecution s' = Some e \<longrightarrow> ae_ownerToken e \<noteq> ro_token o1"
    using assms(2) by (auto simp: admissible_def)
  moreover have "s' = s" using encode_state_inject calculation assms(1) by metis
  ultimately show ?thesis
    using assms by (auto simp: admission_effect_def split: if_splits intro: valid_coalesce valid_acquire)
qed

text \<open>
  Admission preserves the record's invariant and the recorded execution: if the other launchers
  keep the table admissible for this caller, then after an admission that returns, the table is
  valid, exactly one generation was added to the request counter, the completed generation is
  unchanged, and the active execution is the one that was recorded before; in particular taking
  over from a dead owner never clears or reinterprets the execution it left behind.
\<close>

theorem admission_preserves_execution:
  assumes "\<And>k db. admissible o1 db \<Longrightarrow> admissible o1 (before_observation env k db)"
    and "\<And>k db. admissible o1 db \<Longrightarrow> admissible o1 (before_transaction env k db)"
    and "admissible o1 db"
    and run: "register_reconciliation_request env o1 db = (Inr r, db')"
  shows "\<exists>s t. admissible o1 [encode_state s] \<and> valid_state t \<and> db' = [encode_state t]
           \<and> requestedGeneration t = requestedGeneration s + 1 \<and> gen r = requestedGeneration t
           \<and> completedGeneration t = completedGeneration s
           \<and> activeExecution t = activeExecution s"
proof -
  have adm: "admissible o1 d \<Longrightarrow> db_valid d" for d by (auto simp: admissible_def)
  have opts: "assert_registration_options o1 = None"
    using run by (auto simp: register_reconciliation_request_def split: option.splits)
  obtain s t k where "table_before env db (Suc k) = [encode_state s]" and s: "valid_state s"
    "admission_effect o1 (view_at env k) s = (r, t)" "db' = [encode_state t]"
    using admission_atomic [where G = "admissible o1", OF adm assms(1-3) run] by blast
  moreover have "admissible o1 (table_before env db (Suc k))"
    by (rule table_before_keeps [where G = "admissible o1", OF assms(1-3)])
  ultimately have s: "admissible o1 [encode_state s]" "valid_state s"
    "admission_effect o1 (view_at env k) s = (r, t)" "db' = [encode_state t]" by simp_all
  then have "valid_state t" using opts admission_effect_valid by blast
  then show ?thesis
    using s admission_effect_fields [OF s(3)] by blast
qed

theorem admission_preserves_execution_witness:
  "register_reconciliation_request (quiet_env empty_os) sample_options initial_db
     = (Inr (Owner 1 0 False None False), [encode_state (acquire_state sample_options initial_state)])
   \<and> (\<exists>(s::reconciler_state) t. valid_state t
        \<and> [encode_state (acquire_state sample_options initial_state)] = [encode_state t]
        \<and> requestedGeneration t = requestedGeneration s + 1 \<and> requestedGeneration t = 1
        \<and> activeExecution t = activeExecution s)"
proof -
  have run: "register_reconciliation_request (quiet_env empty_os) sample_options initial_db
     = (Inr (Owner 1 0 False None False), [encode_state (acquire_state sample_options initial_state)])"
    by code_simp
  have a: "admissible sample_options initial_db"
    by (auto simp: admissible_def initial_db_encodes initial_state_valid intro!: exI [of _ initial_state])
      (simp_all add: initial_state_def max_safe_integer_def)
  have "\<exists>s t. admissible sample_options [encode_state s] \<and> valid_state t
      \<and> [encode_state (acquire_state sample_options initial_state)] = [encode_state t]
      \<and> requestedGeneration t = requestedGeneration s + 1
      \<and> gen (Owner 1 0 False None False) = requestedGeneration t
      \<and> completedGeneration t = completedGeneration s \<and> activeExecution t = activeExecution s"
    by (rule admission_preserves_execution [OF _ _ a run]) (simp_all add: quiet_env_def)
  then obtain s t where t: "admissible sample_options [encode_state s]" "valid_state t"
    "[encode_state (acquire_state sample_options initial_state)] = [encode_state t]"
    "requestedGeneration t = requestedGeneration s + 1" "1 = requestedGeneration t"
    "activeExecution t = activeExecution s"
    unfolding register_result.sel by metis
  show ?thesis
    using run t(5) by (intro conjI exI [of _ s] exI [of _ t] t(2-4,6)) simp_all
qed

subsection \<open>Fencing\<close>

text \<open>What a launcher can do to the coordinator after admission, under its own token.\<close>

datatype owner_operation =
    DoFinish tx_fault finish_options
  | DoHeartbeat tx_fault int int
  | DoRelease tx_fault int
  | DoRegister tx_fault register_execution_options
  | DoAuthorize tx_fault fence_options
  | DoClear tx_fault fence_options

fun carries_token :: "string \<Rightarrow> owner_operation \<Rightarrow> bool" where
  "carries_token token (DoFinish _ o1) \<longleftrightarrow> fo_token o1 = token"
| "carries_token token (DoHeartbeat _ _ _) \<longleftrightarrow> True"
| "carries_token token (DoRelease _ _) \<longleftrightarrow> True"
| "carries_token token (DoRegister _ o1) \<longleftrightarrow> xo_ownerToken o1 = token"
| "carries_token token (DoAuthorize _ o1) \<longleftrightarrow> fe_ownerToken o1 = token"
| "carries_token token (DoClear _ o1) \<longleftrightarrow> fe_ownerToken o1 = token"

fun perform :: "string \<Rightarrow> owner_operation \<Rightarrow> db \<Rightarrow> db" where
  "perform token (DoFinish fault o1) db = snd (finish_reconciliation_pass fault o1 db)"
| "perform token (DoHeartbeat fault pid now) db =
     snd (heartbeat_reconciler fault (\<lambda>d. d) token pid now db)"
| "perform token (DoRelease fault pid) db =
     snd (release_reconciliation_ownership fault token pid db)"
| "perform token (DoRegister fault o1) db = snd (register_active_execution fault o1 db)"
| "perform token (DoAuthorize fault o1) db = snd (authorize_active_execution_start fault o1 db)"
| "perform token (DoClear fault o1) db = snd (clear_active_execution fault o1 db)"

lemma heartbeat_fenced:
  "valid_state s \<Longrightarrow> ownerToken s \<noteq> Some token \<Longrightarrow>
     heartbeat_reconciler fault between token pid now [encode_state s] = (Inr False, [encode_state s])"
  by (simp add: heartbeat_reconciler_def)

lemma perform_fenced:
  assumes "valid_state s" "ownerToken s \<noteq> Some token" "carries_token token op"
  shows "perform token op [encode_state s] = [encode_state s]"
  using assms
  by (cases op) (auto simp: heartbeat_fenced finish.fenced release.fenced register_execution.fenced
      authorize.fenced clear.fenced)

text \<open>
  C22. Fencing: a launcher whose token is no longer the recorded owner's cannot change the
  coordinator by any sequence of finishes, heartbeats, releases, registrations, authorizations and
  clears under that token, with any arguments and any SQLite failures.
\<close>

theorem obsolete_owner_is_fenced:
  assumes "valid_state s" "ownerToken s \<noteq> Some token"
    and "\<forall>op \<in> set ops. carries_token token op"
  shows "fold (perform token) ops [encode_state s] = [encode_state s]"
  using assms(3)
  by (induction ops) (simp_all add: perform_fenced [OF assms(1,2)])

theorem obsolete_owner_is_fenced_witness:
  "fold (perform ''t0'')
     [DoHeartbeat TxOk 10 7, DoClear TxOk \<lparr>fe_ownerToken = ''t0'', fe_ownerPid = 10,
        fe_executionToken = ''x''\<rparr>, DoRelease TxOk 10]
     [encode_state (acquire_state sample_options initial_state)]
   = [encode_state (acquire_state sample_options initial_state)]"
proof (rule obsolete_owner_is_fenced)
  show "valid_state (acquire_state sample_options initial_state)"
    by (rule valid_acquire [OF initial_state_valid])
      (simp_all add: initial_state_def max_safe_integer_def sample_options_def
        assert_registration_options_def is_safe_integer_def is_blank_iff is_js_whitespace_def)
qed (simp_all add: acquire_state_def sample_options_def)

subsection \<open>Finishing a pass\<close>

text \<open>
  Finishing a pass is exact: with the owner's token and no SQLite failure it throws unless no
  execution is recorded and the pass's generation is the running one; otherwise a success completes
  exactly that generation and a failure completes nothing, and the owner continues with the newest
  requested generation if there is one, else ownership is cleared.
\<close>

theorem finish_exact:
  assumes "valid_state s" "owned_by s (fo_token o1) (fo_pid o1)"
  shows "finish_reconciliation_pass TxOk o1 [encode_state s] =
    (let c = (if fo_success o1 then fo_generation o1 else completedGeneration s)
     in if activeExecution s \<noteq> None
          then (Inl (FencedError FinishExecutionActive), [encode_state s])
        else if runningGeneration s \<noteq> Some (fo_generation o1)
          then (Inl (FencedError (FinishGenerationMismatch (runningGeneration s) (fo_generation o1))),
                [encode_state s])
        else if fo_generation o1 < requestedGeneration s
          then (Inr (Continue (requestedGeneration s) c (fo_success o1)),
                [encode_state (s\<lparr>completedGeneration := c,
                   runningGeneration := Some (requestedGeneration s),
                   heartbeatAtEpochMs := Some (fo_nowEpochMs o1)\<rparr>)])
        else (Inr (if fo_success o1 then StopSuccess c else StopFailed c),
              [encode_state (initial_state\<lparr>requestedGeneration := requestedGeneration s,
                 completedGeneration := c\<rparr>)]))"
proof -
  have idle: "idle_state c s = initial_state\<lparr>requestedGeneration := requestedGeneration s,
      completedGeneration := c\<rparr>" if "activeExecution s = None" for c
    using that valid_singleton [OF assms(1)]
    by (simp add: idle_state_def initial_state_def)
  show ?thesis
    using assms idle
    by (auto simp: finish_reconciliation_pass_def run_reconciler_transaction_def
        finish_transaction_refines advance_state_def Let_def)
qed

theorem finish_exact_witness:
  "finish_reconciliation_pass TxOk
     \<lparr>fo_token = ''t1'', fo_pid = 10, fo_generation = 1, fo_success = True, fo_nowEpochMs = 9\<rparr>
     [encode_state (acquire_state sample_options initial_state)]
   = (Inr (StopSuccess 1), [encode_state (initial_state\<lparr>requestedGeneration := 1,
        completedGeneration := 1\<rparr>)])"
proof -
  have v: "valid_state (acquire_state sample_options initial_state)"
    by (rule valid_acquire [OF initial_state_valid])
      (simp_all add: initial_state_def max_safe_integer_def sample_options_def
        assert_registration_options_def is_safe_integer_def is_blank_iff is_js_whitespace_def)
  show ?thesis
    by (subst finish_exact [OF v])
      (simp_all add: owned_by_def acquire_state_def sample_options_def initial_state_def)
qed

end
