(* ===== verification/Coordinator_System.thy ===== *)
theory Coordinator_System
  imports Coordinator_Admission
begin

text \<open>
  All launchers together: the protocol of \<open>specs/reconciliation.md\<close> as a step relation. A state is
  the coordinator's table, the launchers that became owners (by owner token, at the point of
  \<open>public-launcher.ts\<close> / \<open>owned-reconciliation-loop.ts\<close> they have reached) and the execution
  boundaries (by execution token). Every step that touches the table is the operation of
  \<open>Coordinator_Ops\<close> with any SQLite failure; between two steps of one launcher any other launcher
  may move, launchers may crash at any point, and admission may replace an owner whether or not it
  is really dead, so nothing here depends on heartbeats or on the accuracy of process probes.
  The operating system contributes the boundaries' life cycle: an inert controller becomes
  Git-capable only by START, any boundary may die, and a dead one never comes back.
\<close>

datatype boundary = Inert | Capable | BoundaryDead

datatype launcher_pc =
    Recovering int
  | PassReady int
  | PassPrepared int string
  | PassRegistered int string
  | PassAuthorized int string
  | PassStarted int string
  | PassCleared int
  | Exited

record launcher =
  l_pid :: int
  l_pc :: launcher_pc

record coordinator_system =
  table :: db
  launchers :: "string \<Rightarrow> launcher option"
  boundaries :: "string \<Rightarrow> boundary option"

definition initial_system :: coordinator_system where
  "initial_system = \<lparr>table = initial_db, launchers = (\<lambda>_. None), boundaries = (\<lambda>_. None)\<rparr>"

definition goto :: "string \<Rightarrow> launcher \<Rightarrow> launcher_pc \<Rightarrow> coordinator_system \<Rightarrow> coordinator_system" where
  "goto t l pc c = c\<lparr>launchers := (launchers c)(t \<mapsto> l\<lparr>l_pc := pc\<rparr>)\<rparr>"

fun may_finish :: "launcher_pc \<Rightarrow> int option" where
  "may_finish (PassReady g) = Some g"
| "may_finish (PassCleared g) = Some g"
| "may_finish _ = None"

fun pass_of :: "launcher_pc \<Rightarrow> (int \<times> string) option" where
  "pass_of (PassRegistered g x) = Some (g, x)"
| "pass_of (PassAuthorized g x) = Some (g, x)"
| "pass_of (PassStarted g x) = Some (g, x)"
| "pass_of _ = None"

inductive system_step :: "coordinator_system \<Rightarrow> coordinator_system \<Rightarrow> bool" where
  admit_owner:
    "\<lbrakk>launchers c (ro_token o1) = None;
      assert_registration_options o1 = None;
      \<forall>s. read_state (table c) = Inr s \<longrightarrow> requestedGeneration s < max_safe_integer;
      \<forall>s e. read_state (table c) = Inr s \<longrightarrow> activeExecution s = Some e
         \<longrightarrow> ae_ownerToken e \<noteq> ro_token o1;
      run_reconciler_transaction fault (register_transaction o1 observed alive) (table c)
        = (Inr (Owner g cg rec pp rr), db')\<rbrakk>
     \<Longrightarrow> system_step c (c\<lparr>table := db',
            launchers := (launchers c)(ro_token o1 \<mapsto> \<lparr>l_pid = ro_pid o1, l_pc = Recovering g\<rparr>)\<rparr>)"
| admit_coalesced:
    "\<lbrakk>\<forall>s. read_state (table c) = Inr s \<longrightarrow> requestedGeneration s < max_safe_integer;
      run_reconciler_transaction fault (register_transaction o1 observed alive) (table c)
        = (Inr (Coalesced g pp pn), db')\<rbrakk>
     \<Longrightarrow> system_step c (c\<lparr>table := db'\<rparr>)"
| recover_none:
    "\<lbrakk>launchers c t = Some l; l_pc l = Recovering g;
      read_state (table c) = Inr s; activeExecution s = None\<rbrakk>
     \<Longrightarrow> system_step c (goto t l (PassReady g) c)"
| recover_clear:
    "\<lbrakk>launchers c t = Some l; l_pc l = Recovering g; boundaries c x = Some BoundaryDead;
      clear_active_execution fault \<lparr>fe_ownerToken = t, fe_ownerPid = l_pid l, fe_executionToken = x\<rparr>
        (table c) = (Inr True, db')\<rbrakk>
     \<Longrightarrow> system_step c (goto t l (PassReady g) (c\<lparr>table := db'\<rparr>))"
| prepare:
    "\<lbrakk>launchers c t = Some l; l_pc l = PassReady g; boundaries c x = None\<rbrakk>
     \<Longrightarrow> system_step c (goto t l (PassPrepared g x)
            (c\<lparr>boundaries := (boundaries c)(x \<mapsto> Inert)\<rparr>))"
| register_execution_step:
    "\<lbrakk>launchers c t = Some l; l_pc l = PassPrepared g x;
      register_active_execution fault \<lparr>xo_ownerToken = t, xo_ownerPid = l_pid l, xo_generation = g,
          xo_executionToken = x, xo_executionPid = p, xo_executionProcessIdentity = i,
          xo_executionGroupId = p, xo_executionBoundaryKind = POSIX_EXECUTION_BOUNDARY_KIND\<rparr>
        (table c) = (Inr e, db')\<rbrakk>
     \<Longrightarrow> system_step c (goto t l (PassRegistered g x) (c\<lparr>table := db'\<rparr>))"
| authorize_step:
    "\<lbrakk>launchers c t = Some l; l_pc l = PassRegistered g x;
      authorize_active_execution_start fault
          \<lparr>fe_ownerToken = t, fe_ownerPid = l_pid l, fe_executionToken = x\<rparr> (table c)
        = (Inr True, db')\<rbrakk>
     \<Longrightarrow> system_step c (goto t l (PassAuthorized g x) (c\<lparr>table := db'\<rparr>))"
| start_delivered:
    "\<lbrakk>launchers c t = Some l; l_pc l = PassAuthorized g x; boundaries c x = Some Inert\<rbrakk>
     \<Longrightarrow> system_step c (goto t l (PassStarted g x)
            (c\<lparr>boundaries := (boundaries c)(x \<mapsto> Capable)\<rparr>))"
| start_lost:
    "\<lbrakk>launchers c t = Some l; l_pc l = PassAuthorized g x\<rbrakk>
     \<Longrightarrow> system_step c (goto t l (PassStarted g x) c)"
| boundary_dies:
    "boundaries c x = Some b
     \<Longrightarrow> system_step c (c\<lparr>boundaries := (boundaries c)(x \<mapsto> BoundaryDead)\<rparr>)"
| pass_clear:
    "\<lbrakk>launchers c t = Some l; pass_of (l_pc l) = Some (g, x); boundaries c x = Some BoundaryDead;
      clear_active_execution fault \<lparr>fe_ownerToken = t, fe_ownerPid = l_pid l, fe_executionToken = x\<rparr>
        (table c) = (Inr True, db')\<rbrakk>
     \<Longrightarrow> system_step c (goto t l (PassCleared g) (c\<lparr>table := db'\<rparr>))"
| finish_continue:
    "\<lbrakk>launchers c t = Some l; may_finish (l_pc l) = Some g; is_safe_integer now; 0 \<le> now;
      finish_reconciliation_pass fault \<lparr>fo_token = t, fo_pid = l_pid l, fo_generation = g,
          fo_success = ok, fo_nowEpochMs = now\<rparr> (table c) = (Inr (Continue g' cg ok'), db')\<rbrakk>
     \<Longrightarrow> system_step c (goto t l (PassReady g') (c\<lparr>table := db'\<rparr>))"
| finish_stop:
    "\<lbrakk>launchers c t = Some l; may_finish (l_pc l) = Some g; is_safe_integer now; 0 \<le> now;
      finish_reconciliation_pass fault \<lparr>fo_token = t, fo_pid = l_pid l, fo_generation = g,
          fo_success = ok, fo_nowEpochMs = now\<rparr> (table c) = (Inr r, db');
      \<forall>g' cg ok'. r \<noteq> Continue g' cg ok'\<rbrakk>
     \<Longrightarrow> system_step c (goto t l Exited (c\<lparr>table := db'\<rparr>))"
| heartbeat_step:
    "\<lbrakk>launchers c t = Some l; is_safe_integer now; 0 \<le> now;
      heartbeat_reconciler fault (\<lambda>d. d) t (l_pid l) now (table c) = (r, db')\<rbrakk>
     \<Longrightarrow> system_step c (c\<lparr>table := db'\<rparr>)"
| release_step:
    "\<lbrakk>launchers c t = Some l;
      release_reconciliation_ownership fault t (l_pid l) (table c) = (r, db')\<rbrakk>
     \<Longrightarrow> system_step c (goto t l Exited (c\<lparr>table := db'\<rparr>))"
| crash:
    "launchers c t = Some l \<Longrightarrow> system_step c (goto t l Exited c)"

inductive reachable :: "coordinator_system \<Rightarrow> bool" where
  start: "reachable initial_system"
| step: "reachable c \<Longrightarrow> system_step c d \<Longrightarrow> reachable d"

subsection \<open>The invariant\<close>

definition records_start :: "reconciler_state \<Rightarrow> string \<Rightarrow> bool" where
  "records_start s x \<longleftrightarrow> (\<exists>e. activeExecution s = Some e \<and> ae_token e = x \<and> ae_state e = START_AUTHORIZED)"

fun execution_of :: "launcher_pc \<Rightarrow> string option" where
  "execution_of (PassPrepared g x) = Some x"
| "execution_of (PassRegistered g x) = Some x"
| "execution_of (PassAuthorized g x) = Some x"
| "execution_of (PassStarted g x) = Some x"
| "execution_of _ = None"

text \<open>A Git-capable boundary is the recorded, authorized execution; so is the boundary of a launcher
  that is about to send START, unless that boundary is already dead; and the boundary of every
  pass in progress exists.\<close>

definition inv_for :: "reconciler_state \<Rightarrow> coordinator_system \<Rightarrow> bool" where
  "inv_for s c \<longleftrightarrow>
     (\<forall>x. boundaries c x = Some Capable \<longrightarrow> records_start s x)
     \<and> (\<forall>t l g x. launchers c t = Some l \<longrightarrow> l_pc l = PassAuthorized g x
          \<longrightarrow> boundaries c x \<noteq> Some BoundaryDead \<longrightarrow> records_start s x)
     \<and> (\<forall>t l x. launchers c t = Some l \<longrightarrow> execution_of (l_pc l) = Some x \<longrightarrow> boundaries c x \<noteq> None)"

definition system_inv :: "coordinator_system \<Rightarrow> bool" where
  "system_inv c \<longleftrightarrow> (\<exists>s. valid_state s \<and> table c = [encode_state s] \<and> inv_for s c)"

lemma system_invI: "valid_state s \<Longrightarrow> table c = [encode_state s] \<Longrightarrow> inv_for s c \<Longrightarrow> system_inv c"
  by (auto simp: system_inv_def)

lemma inv_for_mono:
  assumes "inv_for s c"
    and "\<And>x. boundaries c x \<noteq> Some BoundaryDead \<Longrightarrow> records_start s x \<Longrightarrow> records_start s' x"
  shows "inv_for s' c"
  using assms unfolding inv_for_def by (metis boundary.distinct(5) option.inject)

lemma inv_for_table [simp]: "inv_for s (c\<lparr>table := db\<rparr>) \<longleftrightarrow> inv_for s c"
  by (simp add: inv_for_def)

text \<open>Moving one launcher to a program point that names no boundary, or one it already named.\<close>

lemma inv_for_goto:
  assumes "inv_for s c"
    and "\<And>x. execution_of pc = Some x \<Longrightarrow> boundaries c x \<noteq> None"
    and "\<And>g x. pc = PassAuthorized g x \<Longrightarrow> boundaries c x \<noteq> Some BoundaryDead \<Longrightarrow> records_start s x"
  shows "inv_for s (goto t l pc c)"
  using assms by (auto simp: inv_for_def goto_def split: if_splits)

lemma inv_for_admit:
  "inv_for s c \<Longrightarrow> inv_for s (c\<lparr>launchers := (launchers c)(t \<mapsto> \<lparr>l_pid = p, l_pc = Recovering g\<rparr>)\<rparr>)"
  by (auto simp: inv_for_def)

subsection \<open>What the operations do to the recorded execution\<close>

lemma run_transaction_InrD:
  "run_reconciler_transaction fault operation db = (Inr v, db') \<Longrightarrow> operation db = (Inr v, db')"
  by (cases rule: run_transaction_cases [of fault operation db]) auto

lemma register_step_state:
  assumes "valid_state s"
    and "run_reconciler_transaction fault (register_transaction o1 observed alive) [encode_state s]
           = (Inr r, db')"
  shows "(\<exists>g p n. r = Coalesced g p n \<and> db' = [encode_state (coalesce_state s)])
       \<or> (\<exists>g cg rec p rr. r = Owner g cg rec p rr \<and> db' = [encode_state (acquire_state o1 s)])"
  using run_transaction_InrD [OF assms(2)] assms(1)
  by (auto simp: register_transaction_refines split: if_splits)

lemma clear_step_state:
  assumes "valid_state s" "clear_active_execution fault o1 [encode_state s] = (Inr True, db')"
  shows "\<exists>e. activeExecution s = Some e \<and> ae_token e = fe_executionToken o1
           \<and> db' = [encode_state (s\<lparr>activeExecution := None\<rparr>)]"
  using run_transaction_InrD [OF assms(2) [unfolded clear_active_execution_def]] assms(1)
  by (auto simp: clear_transaction_refines split: if_splits option.splits)

lemma authorize_step_state:
  assumes "valid_state s"
    and "authorize_active_execution_start fault o1 [encode_state s] = (Inr True, db')"
  shows "\<exists>e. activeExecution s = Some e \<and> ae_token e = fe_executionToken o1
           \<and> db' = [encode_state (s\<lparr>activeExecution := Some (e\<lparr>ae_state := START_AUTHORIZED\<rparr>)\<rparr>)]"
  using run_transaction_InrD [OF assms(2) [unfolded authorize_active_execution_start_def]] assms(1)
  by (auto simp: authorize_transaction_refines split: if_splits option.splits)

lemma register_execution_step_state:
  assumes "valid_state s" "register_active_execution fault o1 [encode_state s] = (Inr e, db')"
  shows "activeExecution s = None
           \<and> db' = [encode_state (s\<lparr>activeExecution := Some (registered_execution o1)\<rparr>)]
           \<and> valid_state (s\<lparr>activeExecution := Some (registered_execution o1)\<rparr>)"
proof -
  have o1: "assert_execution_options o1 = None"
    using assms(2) by (auto simp: register_active_execution_def split: option.splits)
  then have "register_execution_transaction o1 [encode_state s] = (Inr e, db')"
    using assms(2) run_transaction_InrD by (simp add: register_active_execution_def)
  then show ?thesis
    using assms(1) o1
    by (auto simp: register_execution_transaction_refines split: if_splits intro: valid_register)
qed

lemma encode_no_execution:
  "encode_state s = encode_state t \<Longrightarrow> activeExecution s = None \<longleftrightarrow> activeExecution t = None"
  by (metis encode_state_fields(13) map_option_is_None)

lemma finish_transaction_state:
  assumes "valid_state s" "finish_transaction o1 [encode_state s] = (Inr r, db')"
  shows "activeExecution s = None \<and> (\<exists>t. db' = [encode_state t] \<and> activeExecution t = None)"
proof -
  define c where "c = (if fo_success o1 then fo_generation o1 else completedGeneration s)"
  have "activeExecution s = None \<and> (db' = [encode_state (advance_state c (fo_nowEpochMs o1) s)]
      \<or> db' = [encode_state (idle_state c s)])"
    using assms unfolding c_def
    by (simp add: finish_transaction_refines Let_def del: not_None_eq split: if_split_asm)
  moreover have "activeExecution s = None \<Longrightarrow> activeExecution (advance_state c n s) = None"
    "activeExecution s = None \<Longrightarrow> activeExecution (idle_state c s) = None" for n
    by (simp_all add: advance_state_def idle_state_def)
  ultimately show ?thesis by blast
qed

lemma finish_step_state:
  assumes "valid_state s" "is_safe_integer (fo_nowEpochMs o1)" "0 \<le> fo_nowEpochMs o1"
    and "finish_reconciliation_pass fault o1 [encode_state s] = (Inr r, db')"
  shows "activeExecution s = None
    \<and> (\<exists>s'. valid_state s' \<and> db' = [encode_state s'] \<and> activeExecution s' = None)"
proof -
  obtain s' where s': "valid_state s'" "db' = [encode_state s']"
    using finish.keeps_valid [of s o1 fault] assms by (auto simp: db_valid_iff)
  have "finish_transaction o1 [encode_state s] = (Inr r, db')"
    using assms(4) by (auto simp: finish_reconciliation_pass_def dest: run_transaction_InrD)
  then show ?thesis
    using finish_transaction_state [OF assms(1)] s' encode_no_execution by blast
qed

lemma release_step_state:
  assumes "valid_state s" "release_reconciliation_ownership fault t p [encode_state s] = (r, db')"
  shows "\<exists>s'. valid_state s' \<and> db' = [encode_state s']
           \<and> (activeExecution s = None \<or> db' = [encode_state s])"
proof -
  obtain s' where s': "valid_state s'" "db' = [encode_state s']"
    using release.keeps_valid [of s fault t p] assms by (auto simp: db_valid_iff)
  have "db' = [encode_state s] \<or> activeExecution s = None"
    using assms
    by (cases rule: run_transaction_cases [of fault "release_transaction t p" "[encode_state s]"])
      (auto simp: release_reconciliation_ownership_def release_transaction_refines split: if_splits)
  with s' show ?thesis by blast
qed

lemma heartbeat_step_state:
  assumes "valid_state s" "is_safe_integer now" "0 \<le> now"
    and "heartbeat_reconciler fault (\<lambda>d. d) t p now [encode_state s] = (r, db')"
  shows "\<exists>s'. valid_state s' \<and> db' = [encode_state s'] \<and> activeExecution s' = activeExecution s"
proof (cases "owned_by s t p \<and> fault = TxOk")
  case True
  then have "db' = [encode_state (s\<lparr>heartbeatAtEpochMs := Some now\<rparr>)]"
    using assms by (auto simp: heartbeat_reconciler_def owned_by_def Let_def encode_updates)
  moreover have "valid_state (s\<lparr>heartbeatAtEpochMs := Some now\<rparr>)"
    using valid_heartbeat [OF assms(1) _ assms(2,3)] True by blast
  ultimately show ?thesis by (intro exI [of _ "s\<lparr>heartbeatAtEpochMs := Some now\<rparr>"]) simp
next
  case False
  then have "db' = [encode_state s]"
    using assms by (auto simp: heartbeat_reconciler_def owned_by_def Let_def split: if_splits)
  then show ?thesis using assms(1) by blast
qed


subsection \<open>Every step keeps the invariant\<close>

lemma records_start_none: "activeExecution s = None \<Longrightarrow> \<not> records_start s x"
  by (simp add: records_start_def)

lemma execution_kept [simp]:
  "activeExecution (coalesce_state s) = activeExecution s"
  "activeExecution (acquire_state o1 s) = activeExecution s"
  by (simp_all add: coalesce_state_def acquire_state_def)

text \<open>A clear removes the record of a dead boundary only.\<close>

lemma inv_for_clear:
  assumes "inv_for s c" "activeExecution s = Some e" "boundaries c (ae_token e) = Some BoundaryDead"
  shows "inv_for (s\<lparr>activeExecution := None\<rparr>) c"
  by (rule inv_for_mono [OF assms(1)]) (use assms(2,3) in \<open>auto simp: records_start_def\<close>)

lemma inv_for_same_execution:
  "inv_for s c \<Longrightarrow> activeExecution s' = activeExecution s \<Longrightarrow> inv_for s' c"
  by (rule inv_for_mono [of s c s']) (simp_all add: records_start_def)

lemma inv_for_no_execution:
  "inv_for s c \<Longrightarrow> activeExecution s = None \<Longrightarrow> inv_for s' c"
  by (rule inv_for_mono [of s c s']) (simp_all add: records_start_none)

lemma goto_table [simp]: "table (goto t l pc c) = table c"
  by (simp add: goto_def)

lemma system_step_inv:
  assumes "system_step c d" "system_inv c"
  shows "system_inv d"
proof -
  obtain s where v: "valid_state s" and tab: "table c = [encode_state s]" and i: "inv_for s c"
    using assms(2) by (auto simp: system_inv_def)
  have read: "read_state (table c) = Inr s" by (simp add: tab v)
  show ?thesis
    using assms(1)
  proof cases
    case (admit_owner o1 fault observed alive g cg rec pp rr db')
    then have "db' = [encode_state (acquire_state o1 s)]"
      using register_step_state [OF v] by (fastforce simp: tab)
    moreover have "valid_state (acquire_state o1 s)"
      using admit_owner v read by (intro valid_acquire) auto
    moreover have "inv_for (acquire_state o1 s) c"
      by (rule inv_for_same_execution [OF i]) simp
    ultimately show ?thesis
      using admit_owner inv_for_admit [of "acquire_state o1 s" "c\<lparr>table := db'\<rparr>"]
      by (intro system_invI [of "acquire_state o1 s"]) simp_all
  next
    case (admit_coalesced fault o1 observed alive g pp pn db')
    then have "db' = [encode_state (coalesce_state s)]"
      using register_step_state [OF v] by (fastforce simp: tab)
    moreover have "valid_state (coalesce_state s)"
      using admit_coalesced v read by (intro valid_coalesce) auto
    moreover have "inv_for (coalesce_state s) c"
      by (rule inv_for_same_execution [OF i]) simp
    ultimately show ?thesis
      using admit_coalesced by (intro system_invI [of "coalesce_state s"]) simp_all
  next
    case (recover_none t l g s')
    then show ?thesis
      using v tab i by (intro system_invI [of s]) (auto intro: inv_for_goto)
  next
    case (recover_clear t l g x fault db')
    obtain e where e: "activeExecution s = Some e" "ae_token e = x"
      "db' = [encode_state (s\<lparr>activeExecution := None\<rparr>)]"
      using clear_step_state [OF v recover_clear(5) [unfolded tab]] by auto
    then show ?thesis
      using recover_clear valid_clear [OF v] inv_for_clear [OF i e(1)]
      by (intro system_invI [of "s\<lparr>activeExecution := None\<rparr>"]) (auto intro: inv_for_goto)
  next
    case (prepare t l g x)
    then show ?thesis
      using v tab i by (intro system_invI [of s]) (auto simp: inv_for_def goto_def)
  next
    case (register_execution_step t l g x fault p i' e db')
    let ?x = "registered_execution \<lparr>xo_ownerToken = t, xo_ownerPid = l_pid l, xo_generation = g,
        xo_executionToken = x, xo_executionPid = p, xo_executionProcessIdentity = i',
        xo_executionGroupId = p, xo_executionBoundaryKind = POSIX_EXECUTION_BOUNDARY_KIND\<rparr>"
    let ?s = "s\<lparr>activeExecution := Some ?x\<rparr>"
    have st: "activeExecution s = None" "db' = [encode_state ?s]" "valid_state ?s"
      using register_execution_step_state [OF v register_execution_step(4) [unfolded tab]] by auto
    have "inv_for ?s c" by (rule inv_for_no_execution [OF i st(1)])
    moreover have "boundaries c x \<noteq> None"
      using i register_execution_step(2,3) by (fastforce simp: inv_for_def)
    ultimately show ?thesis
      using register_execution_step st
      by (intro system_invI [of ?s]) (auto intro: inv_for_goto)
  next
    case (authorize_step t l g x fault db')
    obtain e where e: "activeExecution s = Some e" "ae_token e = x"
      "db' = [encode_state (s\<lparr>activeExecution := Some (e\<lparr>ae_state := START_AUTHORIZED\<rparr>)\<rparr>)]"
      using authorize_step_state [OF v authorize_step(4) [unfolded tab]] by auto
    let ?s = "s\<lparr>activeExecution := Some (e\<lparr>ae_state := START_AUTHORIZED\<rparr>)\<rparr>"
    have "records_start ?s x" using e by (simp add: records_start_def)
    moreover have "inv_for ?s c"
      by (rule inv_for_mono [OF i]) (use e in \<open>auto simp: records_start_def\<close>)
    moreover have "boundaries c x \<noteq> None"
      using i authorize_step(2,3) by (fastforce simp: inv_for_def)
    ultimately show ?thesis
      using authorize_step e valid_authorize [OF v e(1)]
      by (intro system_invI [of ?s]) (auto intro: inv_for_goto)
  next
    case (start_delivered t l g x)
    then have "records_start s x" using i by (fastforce simp: inv_for_def)
    then have "inv_for s (c\<lparr>boundaries := (boundaries c)(x \<mapsto> Capable)\<rparr>)"
      using i by (auto simp: inv_for_def)
    then show ?thesis
      using start_delivered v tab by (intro system_invI [of s]) (auto intro: inv_for_goto)
  next
    case (start_lost t l g x)
    then have "boundaries c x \<noteq> None" using i by (fastforce simp: inv_for_def)
    then show ?thesis
      using start_lost v tab i by (intro system_invI [of s]) (auto intro: inv_for_goto)
  next
    case (boundary_dies x b)
    then have "inv_for s d" using i by (auto simp: inv_for_def)
    then show ?thesis using boundary_dies v tab by (intro system_invI [of s]) auto
  next
    case (pass_clear t l g x fault db')
    obtain e where e: "activeExecution s = Some e" "ae_token e = x"
      "db' = [encode_state (s\<lparr>activeExecution := None\<rparr>)]"
      using clear_step_state [OF v pass_clear(5) [unfolded tab]] by auto
    then show ?thesis
      using pass_clear valid_clear [OF v] inv_for_clear [OF i e(1)]
      by (intro system_invI [of "s\<lparr>activeExecution := None\<rparr>"]) (auto intro: inv_for_goto)
  next
    case (finish_continue t l g now fault ok g' cg ok' db')
    obtain s' where "activeExecution s = None" "valid_state s'" "db' = [encode_state s']"
      using finish_step_state [OF v _ _ finish_continue(6) [unfolded tab]] finish_continue(4,5) by auto
    then show ?thesis
      using finish_continue inv_for_no_execution [OF i]
      by (intro system_invI [of s']) (auto intro: inv_for_goto)
  next
    case (finish_stop t l g now fault ok r db')
    obtain s' where "activeExecution s = None" "valid_state s'" "db' = [encode_state s']"
      using finish_step_state [OF v _ _ finish_stop(6) [unfolded tab]] finish_stop(4,5) by auto
    then show ?thesis
      using finish_stop inv_for_no_execution [OF i]
      by (intro system_invI [of s']) (auto intro: inv_for_goto)
  next
    case (heartbeat_step t l now fault r db')
    then obtain s' where "valid_state s'" "db' = [encode_state s']"
      "activeExecution s' = activeExecution s"
      using heartbeat_step_state [OF v] tab by metis
    then show ?thesis
      using heartbeat_step inv_for_same_execution [OF i] by (intro system_invI [of s']) auto
  next
    case (release_step t l fault r db')
    then obtain s' where "valid_state s'" "db' = [encode_state s']"
      "activeExecution s = None \<or> db' = [encode_state s]"
      using release_step_state [OF v] tab by metis
    then have "inv_for s' c"
      using inv_for_no_execution [OF i] encode_state_inject [OF v] i by (metis list.inject)
    then show ?thesis
      using release_step \<open>valid_state s'\<close> \<open>db' = [encode_state s']\<close>
      by (intro system_invI [of s']) (auto intro: inv_for_goto)
  next
    case (crash t l)
    then show ?thesis
      using v tab i by (intro system_invI [of s]) (auto intro: inv_for_goto)
  qed
qed

lemma initial_system_inv: "system_inv initial_system"
  by (rule system_invI [of initial_state])
    (simp_all add: initial_system_def initial_db_encodes initial_state_valid inv_for_def)

lemma reachable_inv: "reachable c \<Longrightarrow> system_inv c"
  by (induction rule: reachable.induct) (auto intro: initial_system_inv system_step_inv)


subsection \<open>Single live Git execution\<close>

text \<open>
  C1. SINGLE_LIVE_GIT_EXECUTION (EXEC-INV-1, 4, 8, 10 of the specification): in every reachable state
  of any number of concurrent launchers, with crashes, SQLite failures, lost START messages and
  owner replacement at any moment, at most one execution boundary is Git-capable.
\<close>

theorem single_live_git_execution:
  assumes "reachable c" "boundaries c x = Some Capable" "boundaries c y = Some Capable"
  shows "x = y"
proof -
  obtain s where "records_start s x" "records_start s y"
    using reachable_inv [OF assms(1)] assms(2,3) by (auto simp: system_inv_def inv_for_def)
  then show ?thesis by (auto simp: records_start_def)
qed

text \<open>
  C2. No execution becomes Git-capable before its durable registration and authorization (EXEC-INV-2):
  in every reachable state the table is valid, and a Git-capable boundary is the recorded
  active execution, in state START_AUTHORIZED.
\<close>

theorem capable_is_durably_authorized:
  assumes "reachable c"
  shows "\<exists>s. read_reconciler_state (table c) = Inr s
    \<and> (\<forall>x. boundaries c x = Some Capable \<longrightarrow>
         (\<exists>e. activeExecution s = Some e \<and> ae_token e = x \<and> ae_state e = START_AUTHORIZED))"
  using reachable_inv [OF assms]
  by (auto simp: system_inv_def inv_for_def records_start_def)

subsection \<open>A run that reaches a Git-capable boundary\<close>

definition demo_execution :: register_execution_options where
  "demo_execution = \<lparr>xo_ownerToken = ''t1'', xo_ownerPid = 10, xo_generation = 1,
     xo_executionToken = ''x1'', xo_executionPid = 20, xo_executionProcessIdentity = ''ctl'',
     xo_executionGroupId = 20, xo_executionBoundaryKind = POSIX_EXECUTION_BOUNDARY_KIND\<rparr>"

definition demo_owned :: db where
  "demo_owned = [encode_state (acquire_state sample_options initial_state)]"

definition demo_registered :: db where
  "demo_registered = snd (register_active_execution TxOk demo_execution demo_owned)"

definition demo_authorized :: db where
  "demo_authorized = snd (authorize_active_execution_start TxOk
     \<lparr>fe_ownerToken = ''t1'', fe_ownerPid = 10, fe_executionToken = ''x1''\<rparr> demo_registered)"

definition demo_finished :: db where
  "demo_finished = snd (finish_reconciliation_pass TxOk
     \<lparr>fo_token = ''t1'', fo_pid = 10, fo_generation = 1, fo_success = True, fo_nowEpochMs = 5\<rparr>
     demo_owned)"

definition demo_launcher :: "launcher_pc \<Rightarrow> launcher" where
  "demo_launcher pc = \<lparr>l_pid = 10, l_pc = pc\<rparr>"

definition demo_system :: "db \<Rightarrow> launcher_pc \<Rightarrow> boundary option \<Rightarrow> coordinator_system" where
  "demo_system db pc b = \<lparr>table = db, launchers = (\<lambda>_. None)(''t1'' \<mapsto> demo_launcher pc),
     boundaries = (\<lambda>_. None)(''x1'' := b)\<rparr>"

lemma demo_read: "read_state (table initial_system) = Inr initial_state"
  by (simp add: initial_system_def initial_db_encodes initial_state_valid)

lemma demo_step: "reachable c \<Longrightarrow> system_step c d \<Longrightarrow> d = d' \<Longrightarrow> reachable d'"
  by (auto intro: reachable.step)

lemma demo_admit: "system_step initial_system (demo_system demo_owned (Recovering 1) None)"
proof -
  have tx: "run_reconciler_transaction TxOk (register_transaction sample_options initial_state False)
      (table initial_system) = (Inr (Owner 1 0 False None False), demo_owned)"
    unfolding initial_system_def demo_owned_def by code_simp
  have "system_step initial_system (initial_system\<lparr>table := demo_owned,
      launchers := (launchers initial_system)(ro_token sample_options \<mapsto>
        \<lparr>l_pid = ro_pid sample_options, l_pc = Recovering 1\<rparr>)\<rparr>)"
  proof (rule admit_owner [OF _ _ _ _ tx])
    show "assert_registration_options sample_options = None" by code_simp
  qed (simp_all add: demo_read, simp_all add: initial_system_def initial_state_def max_safe_integer_def)
  then show ?thesis
    by (simp add: demo_system_def demo_launcher_def initial_system_def sample_options_def fun_upd_idem)
qed

lemma demo_goto [simp]:
  "goto ''t1'' (demo_launcher pc) pc' (demo_system db pc b) = demo_system db pc' b"
  "launchers (demo_system db pc b) ''t1'' = Some (demo_launcher pc)"
  "l_pc (demo_launcher pc) = pc" "l_pid (demo_launcher pc) = 10"
  "table (demo_system db pc b) = db" "boundaries (demo_system db pc b) ''x1'' = b"
  "(demo_system db pc b)\<lparr>table := db'\<rparr> = demo_system db' pc b"
  "(demo_system db pc b)\<lparr>boundaries := (boundaries (demo_system db pc b))(''x1'' \<mapsto> k)\<rparr>
     = demo_system db pc (Some k)"
  by (simp_all add: demo_system_def goto_def demo_launcher_def)

lemma demo_owned_read: "read_state demo_owned = Inr (acquire_state sample_options initial_state)"
  unfolding demo_owned_def by code_simp

lemma demo_ready: "reachable (demo_system demo_owned (PassReady 1) None)"
  by (rule demo_step [OF reachable.step [OF reachable.start demo_admit]
        recover_none [where t = "''t1''" and l = "demo_launcher (Recovering 1)"
        and s = "acquire_state sample_options initial_state" and g = 1]])
    (simp_all add: demo_owned_read, simp add: initial_state_def)

lemma demo_reachable: "reachable (demo_system demo_authorized (PassStarted 1 ''x1'') (Some Capable))"
proof -
  have 3: "reachable (demo_system demo_owned (PassPrepared 1 ''x1'') (Some Inert))"
    by (rule demo_step [OF demo_ready prepare [where t = "''t1''" and l = "demo_launcher (PassReady 1)"
          and x = "''x1''" and g = 1]]) simp_all
  have reg: "register_active_execution TxOk demo_execution demo_owned
      = (Inr (registered_execution demo_execution), demo_registered)"
    unfolding demo_registered_def demo_owned_def by code_simp
  have 4: "reachable (demo_system demo_registered (PassRegistered 1 ''x1'') (Some Inert))"
    by (rule demo_step [OF 3 register_execution_step [where t = "''t1''" and g = 1 and x = "''x1''"
          and l = "demo_launcher (PassPrepared 1 ''x1'')" and p = 20 and i = "''ctl''" and fault = TxOk
          and e = "registered_execution demo_execution" and db' = demo_registered]])
      (simp_all add: reg [unfolded demo_execution_def] demo_execution_def)
  have auth: "authorize_active_execution_start TxOk
      \<lparr>fe_ownerToken = ''t1'', fe_ownerPid = 10, fe_executionToken = ''x1''\<rparr> demo_registered
      = (Inr True, demo_authorized)"
    unfolding demo_authorized_def demo_registered_def demo_owned_def by code_simp
  have 5: "reachable (demo_system demo_authorized (PassAuthorized 1 ''x1'') (Some Inert))"
    by (rule demo_step [OF 4 authorize_step [where t = "''t1''" and g = 1 and x = "''x1''"
          and l = "demo_launcher (PassRegistered 1 ''x1'')" and fault = TxOk and db' = demo_authorized]])
      (simp_all add: auth)
  show ?thesis
    by (rule demo_step [OF 5 start_delivered [where t = "''t1''" and g = 1 and x = "''x1''"
          and l = "demo_launcher (PassAuthorized 1 ''x1'')"]]) simp_all
qed

theorem single_live_git_execution_witness:
  "{y. boundaries (demo_system demo_authorized (PassStarted 1 ''x1'') (Some Capable)) y = Some Capable} = {''x1''}"
proof -
  let ?cs = "demo_system demo_authorized (PassStarted 1 ''x1'') (Some Capable)"
  have "boundaries ?cs ''x1'' = Some Capable" by simp
  with single_live_git_execution [OF demo_reachable] show ?thesis by blast
qed

theorem capable_is_durably_authorized_witness:
  "\<exists>s e. read_reconciler_state demo_authorized = Inr s \<and> activeExecution s = Some e
     \<and> ae_token e = ''x1'' \<and> ae_state e = START_AUTHORIZED"
  using capable_is_durably_authorized [OF demo_reachable] by auto


subsection \<open>Generations\<close>

text \<open>Reading the generations straight from the row.\<close>

definition requested_of :: "db \<Rightarrow> int" where
  "requested_of db = requested_generation (hd db)"

definition completed_of :: "db \<Rightarrow> int" where
  "completed_of db = completed_generation (hd db)"

lemma generations_encoded [simp]:
  "requested_of [encode_state s] = requestedGeneration s"
  "completed_of [encode_state s] = completedGeneration s"
  by (simp_all add: requested_of_def completed_of_def)

lemma finish_generations:
  assumes "valid_state s" "finish_reconciliation_pass fault o1 [encode_state s] = (Inr r, db')"
  shows "requested_of db' = requestedGeneration s \<and> completedGeneration s \<le> completed_of db'"
proof -
  have "finish_transaction o1 [encode_state s] = (Inr r, db')"
    using assms(2) by (auto simp: finish_reconciliation_pass_def dest: run_transaction_InrD)
  then show ?thesis
    using assms(1)
    by (auto simp: finish_transaction_refines Let_def advance_state_def idle_state_def
        valid_state_def valid_owner_def split: if_splits)
qed

lemma release_generations:
  assumes "valid_state s" "release_reconciliation_ownership fault t p [encode_state s] = (r, db')"
  shows "requested_of db' = requestedGeneration s \<and> completed_of db' = completedGeneration s"
  using assms
  by (cases rule: run_transaction_cases [of fault "release_transaction t p" "[encode_state s]"])
    (auto simp: release_reconciliation_ownership_def release_transaction_refines idle_state_def
      split: if_splits)

lemma heartbeat_generations:
  assumes "valid_state s" "heartbeat_reconciler fault (\<lambda>d. d) t p now [encode_state s] = (r, db')"
  shows "requested_of db' = requestedGeneration s \<and> completed_of db' = completedGeneration s"
  using assms by (auto simp: heartbeat_reconciler_def Let_def encode_updates split: if_splits)

lemma system_step_generations:
  assumes "system_step c d" "valid_state s" "table c = [encode_state s]"
  shows "requestedGeneration s \<le> requested_of (table d)
     \<and> completedGeneration s \<le> completed_of (table d)
     \<and> (completed_of (table d) \<noteq> completedGeneration s \<longrightarrow> activeExecution s = None
          \<and> (\<exists>s'. valid_state s' \<and> table d = [encode_state s'] \<and> activeExecution s' = None))"
  using assms(1)
proof cases
  case (admit_owner o1 fault observed alive g cg rec pp rr db')
  then have "db' = [encode_state (acquire_state o1 s)]"
    using register_step_state [OF assms(2)] by (fastforce simp: assms(3))
  then show ?thesis using admit_owner by (simp add: acquire_state_def)
next
  case (admit_coalesced fault o1 observed alive g pp pn db')
  then have "db' = [encode_state (coalesce_state s)]"
    using register_step_state [OF assms(2)] by (fastforce simp: assms(3))
  then show ?thesis using admit_coalesced by (simp add: coalesce_state_def)
next
  case (recover_clear t l g x fault db')
  then show ?thesis
    using clear_step_state [OF assms(2) recover_clear(5) [unfolded assms(3)]] by auto
next
  case (pass_clear t l g x fault db')
  then show ?thesis
    using clear_step_state [OF assms(2) pass_clear(5) [unfolded assms(3)]] by auto
next
  case (register_execution_step t l g x fault p i e db')
  then show ?thesis
    using register_execution_step_state [OF assms(2) register_execution_step(4) [unfolded assms(3)]]
    by auto
next
  case (authorize_step t l g x fault db')
  then show ?thesis
    using authorize_step_state [OF assms(2) authorize_step(4) [unfolded assms(3)]] by auto
next
  case (finish_continue t l g now fault ok g' cg ok' db')
  then show ?thesis
    using finish_step_state [OF assms(2) _ _ finish_continue(6) [unfolded assms(3)]]
      finish_generations [OF assms(2) finish_continue(6) [unfolded assms(3)]] by auto
next
  case (finish_stop t l g now fault ok r db')
  then show ?thesis
    using finish_step_state [OF assms(2) _ _ finish_stop(6) [unfolded assms(3)]]
      finish_generations [OF assms(2) finish_stop(6) [unfolded assms(3)]] by auto
next
  case (heartbeat_step t l now fault r db')
  then show ?thesis using heartbeat_generations [OF assms(2)] assms(3) by auto
next
  case (release_step t l fault r db')
  then show ?thesis using release_generations [OF assms(2)] assms(3) by auto
qed (simp_all add: assms(3))

text \<open>
  C3. Completion follows full boundary termination (EXEC-INV-6, 7, 11) and generations only grow:
  in any step of any launcher from a reachable state, the requested and the completed generation
  do not decrease, and if the completed generation changes then the table records no execution,
  neither before the step nor after it, and no boundary is Git-capable, neither before nor after.
\<close>

theorem completion_follows_termination:
  assumes "reachable c" "system_step c d"
  shows "requested_of (table c) \<le> requested_of (table d)
     \<and> completed_of (table c) \<le> completed_of (table d)
     \<and> (completed_of (table d) \<noteq> completed_of (table c) \<longrightarrow>
          (\<exists>s. read_reconciler_state (table c) = Inr s \<and> activeExecution s = None)
          \<and> (\<exists>s'. read_reconciler_state (table d) = Inr s' \<and> activeExecution s' = None)
          \<and> (\<forall>x. boundaries c x \<noteq> Some Capable \<and> boundaries d x \<noteq> Some Capable))"
proof -
  obtain s where s: "valid_state s" "table c = [encode_state s]" "inv_for s c"
    using reachable_inv [OF assms(1)] by (auto simp: system_inv_def)
  obtain s' where s': "valid_state s'" "table d = [encode_state s']" "inv_for s' d"
    using reachable_inv [OF reachable.step [OF assms]] by (auto simp: system_inv_def)
  have "activeExecution s = None \<Longrightarrow> boundaries c x \<noteq> Some Capable"
    "activeExecution s' = None \<Longrightarrow> boundaries d x \<noteq> Some Capable" for x
    using s(3) s'(3) by (auto simp: inv_for_def records_start_def)
  moreover have "activeExecution s = None \<and> activeExecution s' = None"
    if "completed_of (table d) \<noteq> completedGeneration s"
    using that system_step_generations [OF assms(2) s(1,2)] s'(2) encode_no_execution
    by (metis list.inject)
  moreover have "read_reconciler_state (table c) = Inr s" "read_reconciler_state (table d) = Inr s'"
    using s(1,2) s'(1,2) by simp_all
  moreover have "completed_of (table c) = completedGeneration s" "requested_of (table c) = requestedGeneration s"
    using s(2) by simp_all
  ultimately show ?thesis
    using system_step_generations [OF assms(2) s(1,2)] by metis
qed

text \<open>
  A run in which the completed generation does change: a launcher is admitted for generation 1,
  finds no predecessor's execution, and finishes the pass without a pending trigger.
\<close>

lemma demo_finish: "system_step (demo_system demo_owned (PassReady 1) None)
  (demo_system demo_finished Exited None)"
proof -
  have fin: "finish_reconciliation_pass TxOk \<lparr>fo_token = ''t1'', fo_pid = 10, fo_generation = 1,
      fo_success = True, fo_nowEpochMs = 5\<rparr> demo_owned = (Inr (StopSuccess 1), demo_finished)"
    unfolding demo_finished_def demo_owned_def by code_simp
  have "system_step (demo_system demo_owned (PassReady 1) None)
      (goto ''t1'' (demo_launcher (PassReady 1)) Exited
        ((demo_system demo_owned (PassReady 1) None)\<lparr>table := demo_finished\<rparr>))"
    by (rule finish_stop [where g = 1 and now = 5 and fault = TxOk and ok = True and r = "StopSuccess 1"])
      (simp_all add: fin is_safe_integer_def max_safe_integer_def)
  then show ?thesis by simp
qed

theorem completion_follows_termination_witness:
  "completed_of (table (demo_system demo_owned (PassReady 1) None)) = 0
   \<and> completed_of (table (demo_system demo_finished Exited None)) = 1
   \<and> (\<exists>s. read_reconciler_state (table (demo_system demo_owned (PassReady 1) None)) = Inr s
        \<and> activeExecution s = None)"
proof -
  have 0: "completed_of demo_owned = 0" unfolding demo_owned_def by code_simp
  have 1: "completed_of demo_finished = 1" unfolding demo_finished_def demo_owned_def by code_simp
  from completion_follows_termination [OF demo_ready demo_finish] 0 1 show ?thesis by auto
qed

end
