(* ===== verification/Coordinator_Liveness.thy ===== *)
theory Coordinator_Liveness
  imports Coordinator_System
begin

text \<open>
  The coordinator is never stuck. Whatever launchers did and wherever they crashed, a new launcher whose predecessor is
  taken for dead can recover the recorded execution, run a pass of its own and complete every requested generation.
  The steps are those of \<^const>\<open>system_step\<close>; the run that the theorem exhibits uses no failure of SQLite.
\<close>

subsection \<open>A recorded execution is known\<close>

text \<open>The boundary of the recorded execution exists and its owner was a launcher.\<close>

definition execution_known :: "coordinator_system \<Rightarrow> bool" where
  "execution_known c \<longleftrightarrow>
     (\<forall>s e. read_state (table c) = Inr s \<longrightarrow> activeExecution s = Some e \<longrightarrow>
        boundaries c (ae_token e) \<noteq> None \<and> launchers c (ae_ownerToken e) \<noteq> None)"

lemma step_keeps_known:
  assumes "system_step c d"
  shows "boundaries c x \<noteq> None \<Longrightarrow> boundaries d x \<noteq> None" "launchers c t \<noteq> None \<Longrightarrow> launchers d t \<noteq> None"
  using assms by (cases; auto simp: goto_def)+

text \<open>A step records the execution that was recorded before, or one that a launcher prepared.\<close>

definition recorded_by_step :: "coordinator_system \<Rightarrow> reconciler_state \<Rightarrow> active_execution \<Rightarrow> bool" where
  "recorded_by_step c s e \<longleftrightarrow>
     (\<exists>e0. activeExecution s = Some e0 \<and> ae_token e = ae_token e0 \<and> ae_ownerToken e = ae_ownerToken e0) \<or>
     (\<exists>l g. launchers c (ae_ownerToken e) = Some l \<and> l_pc l = PassPrepared g (ae_token e))"

lemma encoded_execution:
  assumes "encode_state s = encode_state s1"
  shows "activeExecution s = activeExecution s1"
proof (cases "activeExecution s")
  case None
  then show ?thesis using arg_cong[OF assms, of execution_token] by simp
next
  case (Some e)
  then obtain e1 where e1: "activeExecution s1 = Some e1"
    using arg_cong[OF assms, of execution_token] by (cases "activeExecution s1") simp_all
  have "ae_token e = ae_token e1" "ae_generation e = ae_generation e1" "ae_pid e = ae_pid e1"
    "ae_processIdentity e = ae_processIdentity e1" "ae_groupId e = ae_groupId e1" "ae_boundaryKind e = ae_boundaryKind e1"
    "ae_ownerToken e = ae_ownerToken e1" "execution_state_text (ae_state e) = execution_state_text (ae_state e1)"
    using Some e1 arg_cong[OF assms, of execution_token] arg_cong[OF assms, of execution_generation]
      arg_cong[OF assms, of execution_pid] arg_cong[OF assms, of execution_process_identity]
      arg_cong[OF assms, of execution_group_id] arg_cong[OF assms, of execution_boundary_kind]
      arg_cong[OF assms, of execution_owner_token] arg_cong[OF assms, of execution_state]
    by simp_all
  then have "e = e1" by (intro active_execution.equality) simp_all
  then show ?thesis using Some e1 by simp
qed

lemma recorded_encoded: "[encode_state s'] = [encode_state s1] \<Longrightarrow> activeExecution s' = Some e \<Longrightarrow> activeExecution s1 = Some e"
  using encoded_execution[of s' s1] by simp

lemma system_step_recorded:
  assumes "system_step c d" and "valid_state s" and "table c = [encode_state s]"
    and "table d = [encode_state s']" and "activeExecution s' = Some e"
  shows "recorded_by_step c s e"
proof -
  note decoded = recorded_encoded[OF _ assms(5)]
  have same: "recorded_by_step c s e" if "table d = [encode_state s1]" "activeExecution s1 = activeExecution s" for s1
    using decoded[of s1] that assms(4) by (auto simp: recorded_by_step_def)
  have cleared: "recorded_by_step c s e" if "table d = [encode_state s1]" "activeExecution s1 = None" for s1
    using decoded[of s1] that assms(4) by auto
  show ?thesis
    using assms(1)
  proof cases
    case (admit_owner o1 fault observed alive g cg rec pp rr db')
    then show ?thesis
      using register_step_state[OF assms(2)] same[of "acquire_state o1 s"] by (fastforce simp: assms(3))
  next
    case (admit_coalesced fault o1 observed alive g pp pn db')
    then show ?thesis
      using register_step_state[OF assms(2)] same[of "coalesce_state s"] by (fastforce simp: assms(3))
  next
    case (recover_clear t l g x fault db')
    then show ?thesis
      using clear_step_state[OF assms(2) recover_clear(5)[unfolded assms(3)]] cleared[of "s\<lparr>activeExecution := None\<rparr>"] by auto
  next
    case (pass_clear t l g x fault db')
    then show ?thesis
      using clear_step_state[OF assms(2) pass_clear(5)[unfolded assms(3)]] cleared[of "s\<lparr>activeExecution := None\<rparr>"] by auto
  next
    case (register_execution_step t l g x fault p i e' db')
    note registered = register_execution_step_state[OF assms(2) register_execution_step(4)[unfolded assms(3)]]
    let ?e = "registered_execution \<lparr>xo_ownerToken = t, xo_ownerPid = l_pid l, xo_generation = g,
        xo_executionToken = x, xo_executionPid = p, xo_executionProcessIdentity = i, xo_executionGroupId = p,
        xo_executionBoundaryKind = POSIX_EXECUTION_BOUNDARY_KIND\<rparr>"
    have "[encode_state s'] = [encode_state (s\<lparr>activeExecution := Some ?e\<rparr>)]"
      using registered register_execution_step(1) assms(4) by (simp add: goto_def)
    from decoded[OF this] have "e = ?e" by simp
    then show ?thesis using register_execution_step(2,3) by (simp add: recorded_by_step_def registered_execution_def)
  next
    case (authorize_step t l g x fault db')
    obtain e0 where e0: "activeExecution s = Some e0"
      "db' = [encode_state (s\<lparr>activeExecution := Some (e0\<lparr>ae_state := START_AUTHORIZED\<rparr>)\<rparr>)]"
      using authorize_step_state[OF assms(2) authorize_step(4)[unfolded assms(3)]] by auto
    then have "e = e0\<lparr>ae_state := START_AUTHORIZED\<rparr>"
      using decoded[of "s\<lparr>activeExecution := Some (e0\<lparr>ae_state := START_AUTHORIZED\<rparr>)\<rparr>"] authorize_step(1) assms(4) by simp
    then show ?thesis using e0(1) by (simp add: recorded_by_step_def)
  next
    case (finish_continue t l g now fault ok g' cg ok' db')
    then show ?thesis
      using finish_step_state[OF assms(2) _ _ finish_continue(6)[unfolded assms(3)]] cleared by auto
  next
    case (finish_stop t l g now fault ok r db')
    then show ?thesis
      using finish_step_state[OF assms(2) _ _ finish_stop(6)[unfolded assms(3)]] cleared by auto
  next
    case (heartbeat_step t l now fault r db')
    then obtain s1 where "table d = [encode_state s1]" "activeExecution s1 = activeExecution s"
      using heartbeat_step_state[OF assms(2) _ _ heartbeat_step(5)[unfolded assms(3)]] by auto
    then show ?thesis by (rule same)
  next
    case (release_step t l fault r db')
    then have "table d = [encode_state s] \<or> table d = [encode_state (idle_state (completedGeneration s) s)]"
      using assms(2,3)
      by (cases rule: run_transaction_cases[of fault "release_transaction t (l_pid l)" "[encode_state s]"])
         (auto simp: release_reconciliation_ownership_def release_transaction_refines split: if_splits)
    then show ?thesis using same[of s] same[of "idle_state (completedGeneration s) s"] by (auto simp: idle_state_def)
  qed (use same[of s] assms(3) in \<open>simp_all\<close>)
qed

lemma step_keeps_execution_known:
  assumes "system_step c d" and "reachable c" and "execution_known c"
  shows "execution_known d"
  unfolding execution_known_def
proof (intro allI impI)
  fix s' e
  assume s': "read_state (table d) = Inr s'" "activeExecution s' = Some e"
  then have d: "table d = [encode_state s']" by (simp add: read_state_iff)
  obtain s where s: "valid_state s" "table c = [encode_state s]" "inv_for s c"
    using reachable_inv[OF assms(2)] by (auto simp: system_inv_def)
  have "boundaries c (ae_token e) \<noteq> None \<and> launchers c (ae_ownerToken e) \<noteq> None"
    using system_step_recorded[OF assms(1) s(1,2) d s'(2)] unfolding recorded_by_step_def
  proof
    assume "\<exists>e0. activeExecution s = Some e0 \<and> ae_token e = ae_token e0 \<and> ae_ownerToken e = ae_ownerToken e0"
    then show ?thesis using assms(3) s(1,2) by (auto simp: execution_known_def)
  next
    assume "\<exists>l g. launchers c (ae_ownerToken e) = Some l \<and> l_pc l = PassPrepared g (ae_token e)"
    then obtain l g where l: "launchers c (ae_ownerToken e) = Some l" "l_pc l = PassPrepared g (ae_token e)" by blast
    then have "execution_of (l_pc l) = Some (ae_token e)" by simp
    with l(1) s(3) show ?thesis unfolding inv_for_def by blast
  qed
  then show "boundaries d (ae_token e) \<noteq> None \<and> launchers d (ae_ownerToken e) \<noteq> None"
    using step_keeps_known[OF assms(1)] by blast
qed

lemma reachable_execution_known: "reachable c \<Longrightarrow> execution_known c"
proof (induction rule: reachable.induct)
  case start
  show ?case
    by (simp add: execution_known_def demo_read) (simp add: initial_state_def)
next
  case (step c d)
  then show ?case by (blast intro: step_keeps_execution_known)
qed

subsection \<open>The stages of a run\<close>

lemma committed: "operation db = (Inr v, db') \<Longrightarrow> run_reconciler_transaction TxOk operation db = (Inr v, db')"
  by (simp add: run_reconciler_transaction_def)

lemma can_admit:
  assumes "valid_state s" "table c = [encode_state s]" "launchers c (ro_token o1) = None"
    and "assert_registration_options o1 = None" "requestedGeneration s < max_safe_integer"
    and "\<And>e. activeExecution s = Some e \<Longrightarrow> ae_ownerToken e \<noteq> ro_token o1"
  shows "system_step c (c\<lparr>table := [encode_state (acquire_state o1 s)],
    launchers := (launchers c)(ro_token o1 \<mapsto> \<lparr>l_pid = ro_pid o1, l_pc = Recovering (requestedGeneration s + 1)\<rparr>)\<rparr>)"
proof -
  have "run_reconciler_transaction TxOk (register_transaction o1 s False) (table c) =
    (Inr (Owner (requestedGeneration s + 1) (completedGeneration s) (ownerToken s \<noteq> None) (ownerPid s)
       (activeExecution s \<noteq> None)), [encode_state (acquire_state o1 s)])"
    using assms(1,2) by (intro committed) (simp add: register_transaction_refines owner_matches_refl)
  then show ?thesis by (rule admit_owner[rotated 4]) (use assms in auto)
qed

lemma can_recover:
  assumes "valid_state s" "table c = [encode_state s]" "launchers c t = Some l" "l_pc l = Recovering g"
    and "owned_by s t (l_pid l)"
    and "\<And>e. activeExecution s = Some e \<Longrightarrow> boundaries c (ae_token e) = Some BoundaryDead"
  shows "system_step c (goto t l (PassReady g) (c\<lparr>table := [encode_state (s\<lparr>activeExecution := None\<rparr>)]\<rparr>))"
proof (cases "activeExecution s")
  case None
  then have same: "c\<lparr>table := [encode_state (s\<lparr>activeExecution := None\<rparr>)]\<rparr> = c" using assms(2) by simp
  have "system_step c (goto t l (PassReady g) c)" using recover_none[of c t l g s] assms(1-4) None by simp
  then show ?thesis by (simp only: same)
next
  case (Some e)
  have "clear_active_execution TxOk \<lparr>fe_ownerToken = t, fe_ownerPid = l_pid l, fe_executionToken = ae_token e\<rparr> (table c)
    = (Inr True, [encode_state (s\<lparr>activeExecution := None\<rparr>)])"
    unfolding clear_active_execution_def
    using assms(1,2,5) Some by (intro committed) (simp add: clear_transaction_refines)
  then show ?thesis using recover_clear[OF assms(3,4) assms(6)[OF Some]] by simp
qed

text \<open>The execution of the pass, as its launcher registers it.\<close>

definition pass_options :: "string \<Rightarrow> int \<Rightarrow> int \<Rightarrow> string \<Rightarrow> register_execution_options" where
  "pass_options t p g x = \<lparr>xo_ownerToken = t, xo_ownerPid = p, xo_generation = g, xo_executionToken = x,
     xo_executionPid = 1, xo_executionProcessIdentity = ''i'', xo_executionGroupId = 1,
     xo_executionBoundaryKind = POSIX_EXECUTION_BOUNDARY_KIND\<rparr>"

lemma pass_options_valid:
  assumes "valid_state s" "owned_by s t p" "runningGeneration s = Some g" "\<not> is_blank x"
  shows "assert_execution_options (pass_options t p g x) = None"
proof -
  have "valid_owner s g" using assms(1,3) by (simp add: valid_state_def)
  moreover have "0 \<le> completedGeneration s" "is_safe_integer (requestedGeneration s)"
    using assms(1) by (simp_all add: valid_state_def)
  ultimately have "\<not> is_blank t" "is_safe_integer p" "0 < p" "0 < g" "is_safe_integer g"
    using assms(2)
    by (auto simp: valid_owner_def owned_by_def is_non_empty_def is_positive_integer_def is_safe_integer_def)
  moreover have "\<not> is_blank ''i''" "is_safe_integer 1" by code_simp+
  ultimately show ?thesis
    using assms(4) by (simp add: assert_execution_options_def pass_options_def require_non_empty_def require_positive_def)
qed

text \<open>A launcher that is ready runs the pass up to a Git-capable boundary.\<close>

lemma can_start_pass:
  assumes "valid_state s" "table c = [encode_state s]" "launchers c t = Some l" "l_pc l = PassReady g"
    and "owned_by s t (l_pid l)" "runningGeneration s = Some g" "activeExecution s = None"
    and "boundaries c x = None" "\<not> is_blank x"
  obtains c' e where "system_step\<^sup>*\<^sup>* c c'" "boundaries c' x = Some Capable" "ae_token e = x"
    "table c' = [encode_state (s\<lparr>activeExecution := Some e\<rparr>)]" "valid_state (s\<lparr>activeExecution := Some e\<rparr>)"
    "launchers c' t = Some (l\<lparr>l_pc := PassStarted g x\<rparr>)"
proof -
  let ?o = "pass_options t (l_pid l) g x"
  let ?s1 = "s\<lparr>activeExecution := Some (registered_execution ?o)\<rparr>"
  let ?e = "(registered_execution ?o)\<lparr>ae_state := START_AUTHORIZED\<rparr>"
  let ?s2 = "s\<lparr>activeExecution := Some ?e\<rparr>"
  have fields: "xo_ownerToken ?o = t" "xo_ownerPid ?o = l_pid l" "xo_generation ?o = g" "xo_executionToken ?o = x"
    by (simp_all add: pass_options_def)
  have reg: "ae_token (registered_execution ?o) = x" "ae_ownerToken (registered_execution ?o) = t"
    "ae_state (registered_execution ?o) = REGISTERED" by (simp_all add: registered_execution_def fields)
  have ok: "assert_execution_options ?o = None" by (rule pass_options_valid[OF assms(1,5,6,9)])
  have v1: "valid_state ?s1" using assms(1,5,6) ok by (intro valid_register) (simp_all add: fields)
  have v2: "valid_state ?s2" using valid_authorize[OF v1] by simp
  define c1 where "c1 = goto t l (PassPrepared g x) (c\<lparr>boundaries := (boundaries c)(x \<mapsto> Inert)\<rparr>)"
  define l1 where "l1 = l\<lparr>l_pc := PassPrepared g x\<rparr>"
  have s1: "system_step c c1" unfolding c1_def by (rule prepare[OF assms(3,4,8)])
  have c1: "launchers c1 t = Some l1" "l_pc l1 = PassPrepared g x" "l_pid l1 = l_pid l" "table c1 = [encode_state s]"
    "boundaries c1 x = Some Inert" using assms(2) by (simp_all add: c1_def l1_def goto_def)
  have "register_active_execution TxOk ?o (table c1) = (Inr (registered_execution ?o), [encode_state ?s1])"
    using assms(5,6,7) ok c1(4)
    by (simp add: register_active_execution_def) (intro committed, simp add: register_execution_transaction_refines[OF assms(1)] fields)
  note registered = this[unfolded pass_options_def, folded c1(3)]
  define c2 where "c2 = goto t l1 (PassRegistered g x) (c1\<lparr>table := [encode_state ?s1]\<rparr>)"
  define l2 where "l2 = l1\<lparr>l_pc := PassRegistered g x\<rparr>"
  have s2: "system_step c1 c2"
    using register_execution_step[OF c1(1,2) registered] by (simp add: c2_def c1(3) pass_options_def)
  have c2: "launchers c2 t = Some l2" "l_pc l2 = PassRegistered g x" "l_pid l2 = l_pid l" "table c2 = [encode_state ?s1]"
    "boundaries c2 x = Some Inert" using c1 by (simp_all add: c2_def l2_def goto_def)
  have authorized: "authorize_active_execution_start TxOk
      \<lparr>fe_ownerToken = t, fe_ownerPid = l_pid l2, fe_executionToken = x\<rparr> (table c2) = (Inr True, [encode_state ?s2])"
    using assms(5) c2(3,4) unfolding authorize_active_execution_start_def
    by (intro committed) (simp add: authorize_transaction_refines[OF v1] owned_by_def reg)
  define c3 where "c3 = goto t l2 (PassAuthorized g x) (c2\<lparr>table := [encode_state ?s2]\<rparr>)"
  define l3 where "l3 = l2\<lparr>l_pc := PassAuthorized g x\<rparr>"
  have s3: "system_step c2 c3" unfolding c3_def by (rule authorize_step[OF c2(1,2) authorized])
  have c3: "launchers c3 t = Some l3" "l_pc l3 = PassAuthorized g x" "table c3 = [encode_state ?s2]"
    "boundaries c3 x = Some Inert" using c2 by (simp_all add: c3_def l3_def goto_def)
  define c4 where "c4 = goto t l3 (PassStarted g x) (c3\<lparr>boundaries := (boundaries c3)(x \<mapsto> Capable)\<rparr>)"
  have s4: "system_step c3 c4" unfolding c4_def by (rule start_delivered[OF c3(1,2,4)])
  have "system_step\<^sup>*\<^sup>* c c4"
    using s1 s2 s3 s4 by (meson converse_rtranclp_into_rtranclp rtranclp.rtrancl_refl)
  moreover have "boundaries c4 x = Some Capable" "table c4 = [encode_state ?s2]"
    "launchers c4 t = Some (l\<lparr>l_pc := PassStarted g x\<rparr>)"
    using c3 by (simp_all add: c4_def goto_def l1_def l2_def l3_def)
  moreover have "ae_token ?e = x" by (simp add: reg)
  ultimately show ?thesis using that v2 by blast
qed

text \<open>A pass whose boundary died is cleared and completes its generation.\<close>

lemma can_complete:
  assumes "valid_state (s\<lparr>activeExecution := Some e\<rparr>)" "table c = [encode_state (s\<lparr>activeExecution := Some e\<rparr>)]"
    and "launchers c t = Some l" "l_pc l = PassStarted g x" "ae_token e = x" "boundaries c x = Some b"
    and "owned_by s t (l_pid l)" "runningGeneration s = Some g" "requestedGeneration s = g" "activeExecution s = None"
  obtains d where "system_step\<^sup>*\<^sup>* c d" "table d = [encode_state (idle_state g s)]"
proof -
  let ?s1 = "s\<lparr>activeExecution := Some e\<rparr>"
  have bare: "?s1\<lparr>activeExecution := None\<rparr> = s" using assms(10) by simp
  have v: "valid_state s" using valid_clear[OF assms(1)] by (simp only: bare)
  define c1 where "c1 = c\<lparr>boundaries := (boundaries c)(x \<mapsto> BoundaryDead)\<rparr>"
  have s1: "system_step c c1" unfolding c1_def by (rule boundary_dies[OF assms(6)])
  have c1: "launchers c1 t = Some l" "table c1 = [encode_state ?s1]" "boundaries c1 x = Some BoundaryDead"
    using assms(2,3) by (simp_all add: c1_def)
  have "clear_transaction \<lparr>fe_ownerToken = t, fe_ownerPid = l_pid l, fe_executionToken = x\<rparr> (table c1) =
      (Inr True, [encode_state (?s1\<lparr>activeExecution := None\<rparr>)])"
    using assms(5,7) c1(2) by (simp add: clear_transaction_refines[OF assms(1)] owned_by_def)
  then have cleared: "clear_active_execution TxOk \<lparr>fe_ownerToken = t, fe_ownerPid = l_pid l, fe_executionToken = x\<rparr>
      (table c1) = (Inr True, [encode_state s])"
    unfolding clear_active_execution_def bare by (rule committed)
  define c2 where "c2 = goto t l (PassCleared g) (c1\<lparr>table := [encode_state s]\<rparr>)"
  define l2 where "l2 = l\<lparr>l_pc := PassCleared g\<rparr>"
  have s2: "system_step c1 c2"
    unfolding c2_def by (rule pass_clear[OF c1(1) _ c1(3) cleared]) (simp add: assms(4))
  have c2: "launchers c2 t = Some l2" "may_finish (l_pc l2) = Some g" "l_pid l2 = l_pid l" "table c2 = [encode_state s]"
    by (simp_all add: c2_def l2_def goto_def)
  have "finish_transaction \<lparr>fo_token = t, fo_pid = l_pid l2, fo_generation = g, fo_success = True, fo_nowEpochMs = 0\<rparr>
      (table c2) = (Inr (StopSuccess g), [encode_state (idle_state g s)])"
    using assms(7-10) c2(3,4) by (simp add: finish_transaction_refines[OF v])
  then have finished: "finish_reconciliation_pass TxOk
      \<lparr>fo_token = t, fo_pid = l_pid l2, fo_generation = g, fo_success = True, fo_nowEpochMs = 0\<rparr> (table c2) =
      (Inr (StopSuccess g), [encode_state (idle_state g s)])"
    unfolding finish_reconciliation_pass_def by (rule committed)
  define d where "d = goto t l2 Exited (c2\<lparr>table := [encode_state (idle_state g s)]\<rparr>)"
  have "is_safe_integer 0" by code_simp
  then have s3: "system_step c2 d" unfolding d_def by (intro finish_stop[OF c2(1,2) _ _ finished]) simp_all
  have "system_step\<^sup>*\<^sup>* c d" using s1 s2 s3 by (meson converse_rtranclp_into_rtranclp rtranclp.rtrancl_refl)
  then show ?thesis using that by (simp add: d_def)
qed

lemma acquired_fields:
  "runningGeneration (acquire_state o1 s) = Some (requestedGeneration s + 1)"
  "requestedGeneration (acquire_state o1 s) = requestedGeneration s + 1"
  "owned_by (acquire_state o1 s) (ro_token o1) (ro_pid o1)"
  by (simp_all add: acquire_state_def owned_by_def)

text \<open>C23. The coordinator is never stuck. From every reachable state, whatever executions are recorded and whichever
  launchers crashed, a new launcher with a fresh token can be admitted once its predecessor is taken for dead, recover
  the recorded execution, run a Git-capable pass of its own and complete: then every requested generation, its own
  included, is completed, nobody owns the table and no execution is recorded.\<close>

theorem coordinator_never_stuck:
  assumes "reachable c" "requested_of (table c) < max_safe_integer"
    and "launchers c (ro_token o1) = None" "assert_registration_options o1 = None"
    and "boundaries c x = None" "\<not> is_blank x"
  shows "\<exists>c' d. system_step\<^sup>*\<^sup>* c c' \<and> boundaries c' x = Some Capable \<and> system_step\<^sup>*\<^sup>* c' d \<and>
    requested_of (table d) = requested_of (table c) + 1 \<and> completed_of (table d) = requested_of (table d) \<and>
    owner_token (hd (table d)) = None \<and> execution_token (hd (table d)) = None"
proof -
  obtain s where s: "valid_state s" "table c = [encode_state s]"
    using reachable_inv[OF assms(1)] by (auto simp: system_inv_def)
  have known: "boundaries c (ae_token e) \<noteq> None" "launchers c (ae_ownerToken e) \<noteq> None" if "activeExecution s = Some e" for e
    using reachable_execution_known[OF assms(1)] that s by (auto simp: execution_known_def)
  define c0 where "c0 = (case activeExecution s of None \<Rightarrow> c
    | Some e \<Rightarrow> c\<lparr>boundaries := (boundaries c)(ae_token e \<mapsto> BoundaryDead)\<rparr>)"
  have s0: "system_step\<^sup>*\<^sup>* c c0"
    using known boundary_dies by (cases "activeExecution s") (auto simp: c0_def)
  have c0: "table c0 = [encode_state s]" "launchers c0 = launchers c" "boundaries c0 x = None"
    "\<And>e. activeExecution s = Some e \<Longrightarrow> boundaries c0 (ae_token e) = Some BoundaryDead"
    using s(2) assms(5) known by (auto simp: c0_def split: option.splits)
  let ?t = "ro_token o1" and ?g = "requestedGeneration s + 1"
  let ?s1 = "acquire_state o1 s"
  let ?s2 = "?s1\<lparr>activeExecution := None\<rparr>"
  let ?l = "\<lparr>l_pid = ro_pid o1, l_pc = Recovering ?g\<rparr>"
  have fresh: "ae_ownerToken e \<noteq> ?t" if "activeExecution s = Some e" for e using known[OF that] assms(3) by auto
  have room: "requestedGeneration s < max_safe_integer" using assms(2) s(2) by simp
  define c1 where "c1 = c0\<lparr>table := [encode_state ?s1], launchers := (launchers c0)(?t \<mapsto> ?l)\<rparr>"
  have s1: "system_step c0 c1"
    unfolding c1_def by (rule can_admit[OF s(1) c0(1) _ assms(4) room]) (use assms(3) c0(2) fresh in simp_all)
  have v1: "valid_state ?s1" by (rule valid_acquire[OF s(1) room assms(4) fresh])
  have c1: "launchers c1 ?t = Some ?l" "table c1 = [encode_state ?s1]" "boundaries c1 = boundaries c0"
    by (simp_all add: c1_def)
  define c2 where "c2 = goto ?t ?l (PassReady ?g) (c1\<lparr>table := [encode_state ?s2]\<rparr>)"
  have s2: "system_step c1 c2"
    unfolding c2_def by (rule can_recover[OF v1 c1(2,1)]) (use acquired_fields c0(4) c1(3) in simp_all)
  define l2 where "l2 = ?l\<lparr>l_pc := PassReady ?g\<rparr>"
  have c2: "launchers c2 ?t = Some l2" "l_pc l2 = PassReady ?g" "l_pid l2 = ro_pid o1" "table c2 = [encode_state ?s2]"
    "boundaries c2 x = None" using c0(3) c1 by (simp_all add: c2_def l2_def goto_def)
  have s2_fields: "owned_by ?s2 ?t (ro_pid o1)" "runningGeneration ?s2 = Some ?g" "requestedGeneration ?s2 = ?g"
    using acquired_fields[of o1 s] by (simp_all add: owned_by_def)
  obtain c3 e where c3: "system_step\<^sup>*\<^sup>* c2 c3" "boundaries c3 x = Some Capable" "ae_token e = x"
    "table c3 = [encode_state (?s2\<lparr>activeExecution := Some e\<rparr>)]" "valid_state (?s2\<lparr>activeExecution := Some e\<rparr>)"
    "launchers c3 ?t = Some (l2\<lparr>l_pc := PassStarted ?g x\<rparr>)"
    using can_start_pass[OF valid_clear[OF v1] c2(4,1,2) _ s2_fields(2) _ c2(5) assms(6)] s2_fields(1) c2(3) by auto
  obtain d where d: "system_step\<^sup>*\<^sup>* c3 d" "table d = [encode_state (idle_state ?g ?s2)]"
    using can_complete[OF c3(5,4,6) _ c3(3,2) _ s2_fields(2,3)] s2_fields(1) c2(3) by auto
  have "system_step\<^sup>*\<^sup>* c c3"
    using s0 s1 s2 c3(1) by (meson converse_rtranclp_into_rtranclp rtranclp_trans)
  moreover have "requested_of (table d) = requested_of (table c) + 1" "completed_of (table d) = requested_of (table d)"
    "owner_token (hd (table d)) = None" "execution_token (hd (table d)) = None"
    using d(2) s(2) acquired_fields[of o1 s] by (simp_all add: idle_state_def)
  ultimately show ?thesis using c3(2) d(1) by blast
qed

theorem coordinator_never_stuck_witness:
  "\<exists>d :: coordinator_system. requested_of (table d) = 2 \<and> completed_of (table d) = 2 \<and> owner_token (hd (table d)) = None"
proof -
  let ?c = "demo_system demo_authorized (PassStarted 1 ''x1'') (Some Capable)"
  let ?o = "sample_options\<lparr>ro_token := ''t2'', ro_pid := 11\<rparr>"
  have "requested_of (table ?c) = 1" unfolding demo_authorized_def demo_registered_def demo_owned_def demo_goto(5) by code_simp
  moreover have "assert_registration_options ?o = None" "\<not> is_blank ''x2''" by code_simp+
  ultimately show ?thesis
    using coordinator_never_stuck[OF demo_reachable, of ?o "''x2''"]
    by (auto simp: demo_system_def sample_options_def max_safe_integer_def)
qed

end
