(* ===== verification/Control_Protocol.thy ===== *)
theory Control_Protocol
  imports Prelude
begin

text \<open>
  The messages between launcher and execution controller: \<open>execution-control-protocol.ts\<close>.
  What arrives over IPC is any JSON value; the two parsers accept exactly the well-formed
  messages and rebuild them.
\<close>

datatype js_value =
    JUndefined
  | JNull
  | JBool bool
  | JInt int
  | JNonInteger \<comment> \<open>a number that is not an integer: a fraction, \<open>NaN\<close> or an infinity\<close>
  | JString string
  | JArray "js_value list"
  | JObject "(string \<times> js_value) list"

text \<open>\<open>value[key]\<close> of a record; an array has none of the properties the protocol reads.\<close>

definition get_prop :: "js_value \<Rightarrow> string \<Rightarrow> js_value" where
  "get_prop v key =
     (case v of
        JObject fields \<Rightarrow> (case map_of fields key of None \<Rightarrow> JUndefined | Some x \<Rightarrow> x)
      | _ \<Rightarrow> JUndefined)"

definition is_record :: "js_value \<Rightarrow> bool" where
  "is_record v = (case v of JArray _ \<Rightarrow> True | JObject _ \<Rightarrow> True | _ \<Rightarrow> False)"

definition EXECUTION_CONTROL_PROTOCOL_VERSION :: int where
  "EXECUTION_CONTROL_PROTOCOL_VERSION = 1"

datatype launcher_message = Prepare string | Start string

datatype controller_message =
    Ready string int string int
  | Started string int
  | Result string "int option" "string option" "string option"

fun launcher_token :: "launcher_message \<Rightarrow> string" where
  "launcher_token (Prepare t) = t"
| "launcher_token (Start t) = t"

fun controller_token :: "controller_message \<Rightarrow> string" where
  "controller_token (Ready t _ _ _) = t"
| "controller_token (Started t _) = t"
| "controller_token (Result t _ _ _) = t"

text \<open>The objects the two sides send.\<close>

definition message_object :: "string \<Rightarrow> string \<Rightarrow> (string \<times> js_value) list \<Rightarrow> js_value" where
  "message_object type token rest = JObject
     ([(''type'', JString type), (''version'', JInt EXECUTION_CONTROL_PROTOCOL_VERSION),
       (''token'', JString token)] @ rest)"

fun encode_launcher :: "launcher_message \<Rightarrow> js_value" where
  "encode_launcher (Prepare t) = message_object ''PREPARE'' t []"
| "encode_launcher (Start t) = message_object ''START'' t []"

definition nullable :: "('a \<Rightarrow> js_value) \<Rightarrow> 'a option \<Rightarrow> js_value" where
  "nullable f v = (case v of None \<Rightarrow> JNull | Some x \<Rightarrow> f x)"

fun encode_controller :: "controller_message \<Rightarrow> js_value" where
  "encode_controller (Ready t pid ident g) = message_object ''READY'' t
     [(''pid'', JInt pid), (''processIdentity'', JString ident), (''groupId'', JInt g)]"
| "encode_controller (Started t pid) = message_object ''STARTED'' t [(''supervisorPid'', JInt pid)]"
| "encode_controller (Result t code sig err) = message_object ''RESULT'' t
     [(''exitCode'', nullable JInt code), (''signal'', nullable JString sig),
      (''spawnErrorMessage'', nullable JString err)]"

text \<open>The shared prefix of both parsers: a record of this version with a non-empty string token.\<close>

definition envelope :: "js_value \<Rightarrow> string option" where
  "envelope value =
     (if \<not> is_record value
         \<or> get_prop value ''version'' \<noteq> JInt EXECUTION_CONTROL_PROTOCOL_VERSION then None
      else case get_prop value ''token'' of
             JString token \<Rightarrow> if token = [] then None else Some token
           | _ \<Rightarrow> None)"

definition parse_launcher_execution_message :: "js_value \<Rightarrow> launcher_message option" where
  "parse_launcher_execution_message value =
     (case envelope value of
        None \<Rightarrow> None
      | Some token \<Rightarrow>
          if get_prop value ''type'' = JString ''PREPARE'' then Some (Prepare token)
          else if get_prop value ''type'' = JString ''START'' then Some (Start token)
          else None)"

definition positive_safe :: "js_value \<Rightarrow> int option" where
  "positive_safe v =
     (case v of JInt n \<Rightarrow> if is_safe_integer n \<and> n > 0 then Some n else None | _ \<Rightarrow> None)"

definition non_empty_string :: "js_value \<Rightarrow> string option" where
  "non_empty_string v = (case v of JString s \<Rightarrow> if s = [] then None else Some s | _ \<Rightarrow> None)"

text \<open>A nullable field: \<^term>\<open>Some None\<close> is \<open>null\<close>, \<^const>\<open>None\<close> is a value of the wrong type.\<close>

definition nullable_safe_integer :: "js_value \<Rightarrow> int option option" where
  "nullable_safe_integer v =
     (case v of JNull \<Rightarrow> Some None
      | JInt n \<Rightarrow> if is_safe_integer n then Some (Some n) else None
      | _ \<Rightarrow> None)"

definition nullable_string :: "js_value \<Rightarrow> string option option" where
  "nullable_string v =
     (case v of JNull \<Rightarrow> Some None | JString s \<Rightarrow> Some (Some s) | _ \<Rightarrow> None)"

definition parse_ready :: "js_value \<Rightarrow> string \<Rightarrow> controller_message option" where
  "parse_ready value token =
     (if get_prop value ''type'' \<noteq> JString ''READY'' then None
      else case (positive_safe (get_prop value ''pid''), non_empty_string (get_prop value ''processIdentity''),
                 positive_safe (get_prop value ''groupId'')) of
             (Some pid, Some ident, Some g) \<Rightarrow> Some (Ready token pid ident g)
           | _ \<Rightarrow> None)"

definition parse_started :: "js_value \<Rightarrow> string \<Rightarrow> controller_message option" where
  "parse_started value token =
     (if get_prop value ''type'' \<noteq> JString ''STARTED'' then None
      else map_option (Started token) (positive_safe (get_prop value ''supervisorPid'')))"

definition parse_result :: "js_value \<Rightarrow> string \<Rightarrow> controller_message option" where
  "parse_result value token =
     (if get_prop value ''type'' \<noteq> JString ''RESULT'' then None
      else case (nullable_safe_integer (get_prop value ''exitCode''), nullable_string (get_prop value ''signal''),
                 nullable_string (get_prop value ''spawnErrorMessage'')) of
             (Some code, Some sig, Some err) \<Rightarrow> Some (Result token code sig err)
           | _ \<Rightarrow> None)"

definition parse_controller_execution_message :: "js_value \<Rightarrow> controller_message option" where
  "parse_controller_execution_message value =
     (case envelope value of
        None \<Rightarrow> None
      | Some token \<Rightarrow>
          (case parse_ready value token of
             Some m \<Rightarrow> Some m
           | None \<Rightarrow>
               (case parse_started value token of
                  Some m \<Rightarrow> Some m
                | None \<Rightarrow> parse_result value token)))"

subsection \<open>Round trips\<close>

fun well_formed_message :: "controller_message \<Rightarrow> bool" where
  "well_formed_message (Ready t pid ident g) \<longleftrightarrow>
     t \<noteq> [] \<and> ident \<noteq> [] \<and> is_safe_integer pid \<and> 0 < pid \<and> is_safe_integer g \<and> 0 < g"
| "well_formed_message (Started t pid) \<longleftrightarrow> t \<noteq> [] \<and> is_safe_integer pid \<and> 0 < pid"
| "well_formed_message (Result t code sig err) \<longleftrightarrow>
     t \<noteq> [] \<and> (case code of None \<Rightarrow> True | Some n \<Rightarrow> is_safe_integer n)"

lemma prop_message [simp]:
  "get_prop (message_object type token rest) ''type'' = JString type"
  "get_prop (message_object type token rest) ''version'' = JInt EXECUTION_CONTROL_PROTOCOL_VERSION"
  "get_prop (message_object type token rest) ''token'' = JString token"
  "is_record (message_object type token rest)"
  by (simp_all add: get_prop_def message_object_def is_record_def)

lemma prop_message_rest:
  "k \<notin> {''type'', ''version'', ''token''} \<Longrightarrow>
     get_prop (message_object type token rest) k = get_prop (JObject rest) k"
  by (auto simp: get_prop_def message_object_def)

lemma envelope_message [simp]:
  "envelope (message_object type token rest) = (if token = [] then None else Some token)"
  by (simp add: envelope_def)

lemma envelope_token: "envelope v = Some t \<Longrightarrow> t \<noteq> []"
  by (auto simp: envelope_def split: if_splits js_value.splits)

lemma field_parser_simps [simp]:
  "positive_safe (JInt n) = (if is_safe_integer n \<and> n > 0 then Some n else None)"
  "non_empty_string (JString s) = (if s = [] then None else Some s)"
  "nullable_safe_integer (nullable JInt c) =
     (case c of None \<Rightarrow> Some None | Some n \<Rightarrow> if is_safe_integer n then Some (Some n) else None)"
  "nullable_string (nullable JString e) = Some e"
  by (simp_all add: positive_safe_def non_empty_string_def nullable_safe_integer_def
      nullable_string_def nullable_def split: option.split)

lemma field_parser_results:
  "positive_safe v = Some n \<Longrightarrow> is_safe_integer n \<and> 0 < n"
  "non_empty_string v = Some s \<Longrightarrow> s \<noteq> []"
  "nullable_safe_integer v = Some (Some n) \<Longrightarrow> is_safe_integer n"
  by (auto simp: positive_safe_def non_empty_string_def nullable_safe_integer_def
      split: js_value.splits if_splits)

lemma parse_parts_well_formed:
  "parse_ready v t = Some m \<Longrightarrow> t \<noteq> [] \<Longrightarrow> well_formed_message m"
  "parse_started v t = Some m \<Longrightarrow> t \<noteq> [] \<Longrightarrow> well_formed_message m"
  "parse_result v t = Some m \<Longrightarrow> t \<noteq> [] \<Longrightarrow> well_formed_message m"
proof -
  show "parse_ready v t = Some m \<Longrightarrow> t \<noteq> [] \<Longrightarrow> well_formed_message m"
    by (auto simp: parse_ready_def dest: field_parser_results split: if_splits option.splits)
  show "parse_started v t = Some m \<Longrightarrow> t \<noteq> [] \<Longrightarrow> well_formed_message m"
    by (auto simp: parse_started_def dest: field_parser_results split: if_splits)
  show "parse_result v t = Some m \<Longrightarrow> t \<noteq> [] \<Longrightarrow> well_formed_message m"
    by (auto simp: parse_result_def dest: field_parser_results split: if_splits option.splits)
qed

lemma parse_well_formed:
  assumes "parse_controller_execution_message v = Some m"
  shows "well_formed_message m"
proof -
  obtain t where t: "envelope v = Some t" "t \<noteq> []"
    using assms envelope_token by (cases "envelope v") (auto simp: parse_controller_execution_message_def)
  then have "parse_ready v t = Some m \<or> parse_started v t = Some m \<or> parse_result v t = Some m"
    using assms by (simp add: parse_controller_execution_message_def split: option.split_asm)
  then show ?thesis using parse_parts_well_formed t(2) by blast
qed

lemma fields_of_encoded [simp]:
  "get_prop (message_object a t [(''pid'', p), (''processIdentity'', i), (''groupId'', g)]) ''pid'' = p"
  "get_prop (message_object a t [(''pid'', p), (''processIdentity'', i), (''groupId'', g)]) ''processIdentity'' = i"
  "get_prop (message_object a t [(''pid'', p), (''processIdentity'', i), (''groupId'', g)]) ''groupId'' = g"
  "get_prop (message_object a t [(''supervisorPid'', p)]) ''supervisorPid'' = p"
  "get_prop (message_object a t [(''exitCode'', c), (''signal'', x), (''spawnErrorMessage'', e)]) ''exitCode'' = c"
  "get_prop (message_object a t [(''exitCode'', c), (''signal'', x), (''spawnErrorMessage'', e)]) ''signal'' = x"
  "get_prop (message_object a t [(''exitCode'', c), (''signal'', x), (''spawnErrorMessage'', e)]) ''spawnErrorMessage'' = e"
  by (simp_all add: get_prop_def message_object_def)

lemma parse_encoded:
  assumes "well_formed_message m"
  shows "parse_controller_execution_message (encode_controller m) = Some m"
  using assms
  by (cases m) (auto simp: parse_controller_execution_message_def parse_ready_def parse_started_def
      parse_result_def split: option.split)

text \<open>
  The controller's messages survive the IPC channel: parsing what the controller sends gives the
  message back exactly when it is well formed (non-empty token and identity, safe positive
  PIDs), and nothing the parser accepts, from any JSON value, is ill formed.
\<close>

theorem controller_message_roundtrip:
  "(parse_controller_execution_message (encode_controller m) = Some m \<longleftrightarrow> well_formed_message m)
   \<and> (\<forall>v n. parse_controller_execution_message v = Some n \<longrightarrow> well_formed_message n)"
  using parse_well_formed parse_encoded by blast

theorem controller_message_roundtrip_witness:
  "parse_controller_execution_message (encode_controller (Result ''t'' (Some 0) None None))
     = Some (Result ''t'' (Some 0) None None)
   \<and> well_formed_message (Result ''t'' (Some 0) None None)
   \<and> parse_controller_execution_message (encode_controller (Ready ''t'' 0 ''id'' 5)) = None"
proof -
  have p: "parse_controller_execution_message (encode_controller (Result ''t'' (Some 0) None None))
      = Some (Result ''t'' (Some 0) None None)"
    by code_simp
  then have "well_formed_message (Result ''t'' (Some 0) None None)"
    using controller_message_roundtrip [of "Result ''t'' (Some 0) None None"] by blast
  moreover have "parse_controller_execution_message (encode_controller (Ready ''t'' 0 ''id'' 5)) = None"
    by code_simp
  ultimately show ?thesis using p by blast
qed

lemma launcher_message_roundtrip:
  "parse_launcher_execution_message (encode_launcher m) = Some m \<longleftrightarrow> launcher_token m \<noteq> []"
  by (cases m) (auto simp: parse_launcher_execution_message_def)

lemma launcher_message_token:
  "parse_launcher_execution_message v = Some m \<Longrightarrow> launcher_token m \<noteq> []"
  by (auto simp: parse_launcher_execution_message_def dest: envelope_token
      split: option.splits if_splits)

end
