(* ===== verification/Execution_Boundary.thy ===== *)
theory Execution_Boundary
  imports Process_Identity
begin

text \<open>
  Terminating one execution boundary: the effectful part of \<open>execution-boundary-process.ts\<close>.
  The operating system is an abstract state \<open>'w\<close> with the four things the code does to it, as
  the fields of \<open>os_ops\<close>: observe it, read the clock, signal a group, and let time pass in
  \<open>delay\<close>. The polling loop is bounded by the clock, not by a counter, so it takes fuel;
  \<open>terminate_returns\<close> shows that one unit per millisecond of the longer bound is enough whenever
  every delay lets the clock advance.
\<close>

datatype signal_name = SIGTERM | SIGKILL | SIGINT

record 'w os_ops =
  observe :: "'w \<Rightarrow> os_view"
  date_now :: "'w \<Rightarrow> int"
  kill_group :: "'w \<Rightarrow> int \<Rightarrow> signal_name \<Rightarrow> errno option \<times> 'w"
  after_delay :: "'w \<Rightarrow> 'w"

datatype boundary_error =
    ProbeError probe_error
  | KillError errno
  | LostLeaderIdentity string signal_name
  | AmbiguousIdentity string
  | SurvivedHardTermination int

definition EXECUTION_TERMINATION_GRACE_MS :: int where
  "EXECUTION_TERMINATION_GRACE_MS = 5000"

definition EXECUTION_TERMINATION_CONFIRMATION_MS :: int where
  "EXECUTION_TERMINATION_CONFIRMATION_MS = 5000"

text \<open>The \<open>while\<close> loop of \<open>waitForGroupAbsence\<close>, with its deadline computed once.\<close>

fun poll_group_absence ::
  "'w os_ops \<Rightarrow> nat \<Rightarrow> int \<Rightarrow> int \<Rightarrow> 'w \<Rightarrow> ((boundary_error + bool) \<times> 'w) option" where
  "poll_group_absence ops 0 groupId deadline w = None"
| "poll_group_absence ops (Suc fuel) groupId deadline w =
     (case process_group_exists (observe ops w) groupId of
        Inl e \<Rightarrow> Some (Inl (ProbeError e), w)
      | Inr False \<Rightarrow> Some (Inr True, w)
      | Inr True \<Rightarrow>
          if date_now ops w \<ge> deadline then Some (Inr False, w)
          else poll_group_absence ops fuel groupId deadline (after_delay ops w))"

definition wait_for_group_absence ::
  "'w os_ops \<Rightarrow> nat \<Rightarrow> int \<Rightarrow> int \<Rightarrow> 'w \<Rightarrow> ((boundary_error + bool) \<times> 'w) option" where
  "wait_for_group_absence ops fuel groupId timeoutMs w =
     poll_group_absence ops fuel groupId (date_now ops w + timeoutMs) w"

datatype signal_outcome = Signalled | AlreadyDead

definition signal_verified_group ::
  "'w os_ops \<Rightarrow> active_execution \<Rightarrow> signal_name \<Rightarrow> 'w \<Rightarrow> (boundary_error + signal_outcome) \<times> 'w" where
  "signal_verified_group ops execution sig w =
     (case classify_execution_boundary (observe ops w) execution of
        Inl e \<Rightarrow> (Inl (ProbeError e), w)
      | Inr Dead \<Rightarrow> (Inr AlreadyDead, w)
      | Inr Ambiguous \<Rightarrow> (Inl (LostLeaderIdentity (ae_token execution) sig), w)
      | Inr AliveExact \<Rightarrow>
          (case kill_group ops w (ae_groupId execution) sig of
             (None, w') \<Rightarrow> (Inr Signalled, w')
           | (Some ESRCH, w') \<Rightarrow> (Inr AlreadyDead, w')
           | (Some code, w') \<Rightarrow> (Inl (KillError code), w')))"

text \<open>After the second signal: wait for the confirmation period, then give up.\<close>

definition confirm_hard_termination ::
  "'w os_ops \<Rightarrow> nat \<Rightarrow> active_execution \<Rightarrow> int \<Rightarrow> 'w \<Rightarrow> ((boundary_error + unit) \<times> 'w) option" where
  "confirm_hard_termination ops fuel execution confirmationMs w =
     (case signal_verified_group ops execution SIGKILL w of
        (Inl e, w1) \<Rightarrow> Some (Inl e, w1)
      | (Inr AlreadyDead, w1) \<Rightarrow> Some (Inr (), w1)
      | (Inr Signalled, w1) \<Rightarrow>
          (case wait_for_group_absence ops fuel (ae_groupId execution) confirmationMs w1 of
             None \<Rightarrow> None
           | Some (Inl e, w2) \<Rightarrow> Some (Inl e, w2)
           | Some (Inr True, w2) \<Rightarrow> Some (Inr (), w2)
           | Some (Inr False, w2) \<Rightarrow>
               Some (Inl (SurvivedHardTermination (ae_groupId execution)), w2)))"

definition terminate_execution_boundary ::
  "'w os_ops \<Rightarrow> nat \<Rightarrow> active_execution \<Rightarrow> int \<Rightarrow> int \<Rightarrow> 'w \<Rightarrow> ((boundary_error + unit) \<times> 'w) option"
where
  "terminate_execution_boundary ops fuel execution graceMs confirmationMs w =
     (case classify_execution_boundary (observe ops w) execution of
        Inl e \<Rightarrow> Some (Inl (ProbeError e), w)
      | Inr Dead \<Rightarrow> Some (Inr (), w)
      | Inr Ambiguous \<Rightarrow> Some (Inl (AmbiguousIdentity (ae_token execution)), w)
      | Inr AliveExact \<Rightarrow>
          (case signal_verified_group ops execution SIGTERM w of
             (Inl e, w1) \<Rightarrow> Some (Inl e, w1)
           | (Inr AlreadyDead, w1) \<Rightarrow> Some (Inr (), w1)
           | (Inr Signalled, w1) \<Rightarrow>
               (case wait_for_group_absence ops fuel (ae_groupId execution) graceMs w1 of
                  None \<Rightarrow> None
                | Some (Inl e, w2) \<Rightarrow> Some (Inl e, w2)
                | Some (Inr True, w2) \<Rightarrow> Some (Inr (), w2)
                | Some (Inr False, w2) \<Rightarrow>
                    confirm_hard_termination ops fuel execution confirmationMs w2)))"

subsection \<open>Termination\<close>

definition clock_advances :: "'w os_ops \<Rightarrow> bool" where
  "clock_advances ops \<longleftrightarrow> (\<forall>w. date_now ops w < date_now ops (after_delay ops w))"

lemma poll_returns:
  assumes "clock_advances ops" and "0 < fuel" "deadline - date_now ops w < int fuel"
  shows "\<exists>r. poll_group_absence ops fuel g deadline w = Some r"
  using assms(2,3)
proof (induction fuel arbitrary: w)
  case 0
  then show ?case by simp
next
  case (Suc fuel)
  show ?case
  proof (cases "process_group_exists (observe ops w) g = Inr True \<and> date_now ops w < deadline")
    case True
    have "date_now ops w < date_now ops (after_delay ops w)"
      using assms(1) by (simp add: clock_advances_def)
    then have "\<exists>r. poll_group_absence ops fuel g deadline (after_delay ops w) = Some r"
      using True Suc.prems by (intro Suc.IH) linarith+
    then show ?thesis using True by simp
  next
    case False
    then show ?thesis by (auto split: sum.splits bool.splits)
  qed
qed

lemma wait_returns:
  "clock_advances ops \<Longrightarrow> 0 < fuel \<Longrightarrow> timeoutMs < int fuel
     \<Longrightarrow> \<exists>r. wait_for_group_absence ops fuel g timeoutMs w = Some r"
  unfolding wait_for_group_absence_def by (rule poll_returns) simp_all

text \<open>
  C27. Terminating a boundary always returns (with success or an error): if every delay lets the clock
  advance, fuel above both timeouts is enough, whatever the operating system answers.
\<close>

theorem terminate_returns:
  assumes "clock_advances ops" "0 < fuel" "graceMs < int fuel" "confirmationMs < int fuel"
  shows "\<exists>r. terminate_execution_boundary ops fuel execution graceMs confirmationMs w = Some r"
proof -
  note wait = wait_returns [OF assms(1,2,3)] wait_returns [OF assms(1,2,4)]
  have hard: "\<exists>r. confirm_hard_termination ops fuel execution confirmationMs v = Some r" for v
  proof -
    obtain out v1 where sv: "signal_verified_group ops execution SIGKILL v = (out, v1)" by fastforce
    obtain r v2 where "wait_for_group_absence ops fuel (ae_groupId execution) confirmationMs v1
        = Some (r, v2)"
      using wait(2) by fast
    with sv show ?thesis
      by (cases out; cases r) (simp_all add: confirm_hard_termination_def split: signal_outcome.split bool.split)
  qed
  obtain out w1 where sv: "signal_verified_group ops execution SIGTERM w = (out, w1)" by fastforce
  obtain r w2 where "wait_for_group_absence ops fuel (ae_groupId execution) graceMs w1 = Some (r, w2)"
    using wait(1) by fast
  moreover obtain r3 where "confirm_hard_termination ops fuel execution confirmationMs w2 = Some r3"
    using hard by blast
  ultimately show ?thesis
    using sv
    by (cases out; cases r) (simp_all add: terminate_execution_boundary_def
        split: signal_outcome.split bool.split sum.split execution_boundary_liveness.split)
qed

subsection \<open>What a normal return proves\<close>

definition group_absent :: "'w os_ops \<Rightarrow> active_execution \<Rightarrow> 'w \<Rightarrow> bool" where
  "group_absent ops execution w \<longleftrightarrow>
     process_group_exists (observe ops w) (ae_groupId execution) = Inr False"

text \<open>\<open>kill\<close> reports \<open>ESRCH\<close> only for a group without processes (documented behaviour of \<open>kill(2)\<close>).\<close>

definition esrch_means_absent :: "'w os_ops \<Rightarrow> bool" where
  "esrch_means_absent ops \<longleftrightarrow>
     (\<forall>w g sig w'. kill_group ops w g sig = (Some ESRCH, w') \<longrightarrow>
        kill_probe (observe ops w') (- g) = Some ESRCH)"

lemma poll_absent:
  "poll_group_absence ops fuel g deadline w = Some (Inr True, w')
     \<Longrightarrow> process_group_exists (observe ops w') g = Inr False"
  by (induction ops fuel g deadline w rule: poll_group_absence.induct)
    (auto split: sum.splits bool.splits if_splits)

lemma signal_already_dead:
  assumes "esrch_means_absent ops" "signal_verified_group ops execution sig w = (Inr AlreadyDead, w')"
  shows "group_absent ops execution w'"
proof (cases "classify_execution_boundary (observe ops w) execution = Inr Dead")
  case True
  then show ?thesis
    using assms classify_dead(1) by (auto simp: signal_verified_group_def group_absent_def)
next
  case False
  then have exact: "classify_execution_boundary (observe ops w) execution = Inr AliveExact"
    and kill: "kill_group ops w (ae_groupId execution) sig = (Some ESRCH, w')"
    using assms(2)
    by (auto simp: signal_verified_group_def
        split: sum.splits execution_boundary_liveness.splits option.splits errno.splits prod.splits)
  have "0 < ae_groupId execution \<and> is_safe_integer (ae_groupId execution)"
    using read_group_positive classify_alive_exact(4) [OF exact] by blast
  then show ?thesis
    using assms(1) kill by (auto simp: group_absent_def process_group_exists_def esrch_means_absent_def)
qed

lemma confirm_cases:
  "confirm_hard_termination ops fuel execution ms w = Some (Inr (), w') \<Longrightarrow>
     signal_verified_group ops execution SIGKILL w = (Inr AlreadyDead, w')
   \<or> (\<exists>w1. wait_for_group_absence ops fuel (ae_groupId execution) ms w1 = Some (Inr True, w'))"
  unfolding confirm_hard_termination_def
  by (auto split: prod.split_asm sum.split_asm signal_outcome.split_asm option.split_asm bool.split_asm)

lemma terminate_cases:
  "terminate_execution_boundary ops fuel execution graceMs confirmationMs w = Some (Inr (), w') \<Longrightarrow>
     classify_execution_boundary (observe ops w) execution = Inr Dead \<and> w' = w
   \<or> signal_verified_group ops execution SIGTERM w = (Inr AlreadyDead, w')
   \<or> (\<exists>w1. wait_for_group_absence ops fuel (ae_groupId execution) graceMs w1 = Some (Inr True, w'))
   \<or> (\<exists>w2. confirm_hard_termination ops fuel execution confirmationMs w2 = Some (Inr (), w'))"
  unfolding terminate_execution_boundary_def
  by (auto split: prod.split_asm sum.split_asm signal_outcome.split_asm option.split_asm
      bool.split_asm execution_boundary_liveness.split_asm)

lemma wait_absent:
  "wait_for_group_absence ops fuel (ae_groupId execution) ms w = Some (Inr True, w')
     \<Longrightarrow> group_absent ops execution w'"
  by (auto simp: group_absent_def wait_for_group_absence_def dest: poll_absent)

lemma classified_dead_absent:
  "classify_execution_boundary (observe ops w) execution = Inr Dead \<Longrightarrow> group_absent ops execution w"
  by (auto simp: group_absent_def dest: classify_dead(1))

lemma confirm_absent:
  assumes "esrch_means_absent ops"
    and "confirm_hard_termination ops fuel execution ms w = Some (Inr (), w')"
  shows "group_absent ops execution w'"
  using confirm_cases [OF assms(2)] signal_already_dead [OF assms(1)] by (auto dest: wait_absent)

text \<open>
  C26. A normal return of the termination is a proof of death: in the operating-system state it
  returns in, the recorded process group has no process.
\<close>

theorem terminate_proves_absence:
  assumes "esrch_means_absent ops"
    and "terminate_execution_boundary ops fuel execution graceMs confirmationMs w = Some (Inr (), w')"
  shows "group_absent ops execution w'"
  using terminate_cases [OF assms(2)] confirm_absent [OF assms(1)] signal_already_dead [OF assms(1)]
  by (auto dest: wait_absent classified_dead_absent)

subsection \<open>Which signals are sent\<close>

text \<open>
  Two operating systems that agree on what can be observed, and on \<open>kill\<close> only for the recorded group
  and only in states where the boundary is classified alive with its exact identity: nothing else is
  assumed about the signals they deliver.
\<close>

definition agree_on_exact_signals :: "active_execution \<Rightarrow> 'w os_ops \<Rightarrow> 'w os_ops \<Rightarrow> bool" where
  "agree_on_exact_signals execution ops ops' \<longleftrightarrow>
     observe ops = observe ops' \<and> date_now ops = date_now ops' \<and> after_delay ops = after_delay ops'
     \<and> (\<forall>w sig. classify_execution_boundary (observe ops w) execution = Inr AliveExact \<longrightarrow>
          kill_group ops w (ae_groupId execution) sig = kill_group ops' w (ae_groupId execution) sig)"

lemma poll_agrees:
  assumes "agree_on_exact_signals execution ops ops'"
  shows "poll_group_absence ops fuel g deadline w = poll_group_absence ops' fuel g deadline w"
  using assms
  by (induction ops fuel g deadline w rule: poll_group_absence.induct)
    (simp_all add: agree_on_exact_signals_def split: sum.split bool.split)

lemma signal_agrees:
  "agree_on_exact_signals execution ops ops' \<Longrightarrow>
     signal_verified_group ops execution sig w = signal_verified_group ops' execution sig w"
  by (auto simp: signal_verified_group_def agree_on_exact_signals_def
      split: sum.split execution_boundary_liveness.split)

text \<open>
  PID reuse cannot authorize unrelated signaling (EXEC-INV-9): the outcome of a termination is the
  same for any two operating systems that agree on signals to the recorded group at moments where
  its leader has the recorded identity; so no signal is ever sent to another group, nor to the
  recorded group number while its leader's identity is gone, reused or unreadable.
\<close>

theorem terminate_signals_exact_group_only:
  assumes "agree_on_exact_signals execution ops ops'"
  shows "terminate_execution_boundary ops fuel execution graceMs confirmationMs w
       = terminate_execution_boundary ops' fuel execution graceMs confirmationMs w"
proof -
  have wait: "wait_for_group_absence ops fuel g ms v = wait_for_group_absence ops' fuel g ms v" for g ms v
    using poll_agrees [OF assms] assms
    by (simp add: wait_for_group_absence_def agree_on_exact_signals_def)
  have hard: "confirm_hard_termination ops fuel execution ms v
      = confirm_hard_termination ops' fuel execution ms v" for ms v
    unfolding confirm_hard_termination_def signal_agrees [OF assms] wait ..
  have "observe ops = observe ops'" using assms by (simp add: agree_on_exact_signals_def)
  then show ?thesis
    unfolding terminate_execution_boundary_def signal_agrees [OF assms] wait hard by simp
qed

subsection \<open>A concrete operating system\<close>

text \<open>One process group (20) that dies on \<open>SIGTERM\<close>; the state is whether it lives, and the time.\<close>

definition demo_view :: "bool \<Rightarrow> os_view" where
  "demo_view alive = \<lparr>os_platform = Darwin,
     kill_probe = (\<lambda>p. if alive \<and> (p = 20 \<or> p = -20) then None else Some ESRCH),
     boot_id_file = None, proc_stat_file = (\<lambda>_. None),
     ps_lstart_command = (\<lambda>p. if alive \<and> p = 20 then Some ''ctl'' else None),
     ps_pgid = (\<lambda>p. if alive \<and> p = 20 then Some ''20'' else None)\<rparr>"

definition demo_os :: "(bool \<times> int) os_ops" where
  "demo_os = \<lparr>observe = (\<lambda>w. demo_view (fst w)), date_now = snd,
     kill_group = (\<lambda>w g sig. if fst w \<and> g = 20 then (None, (False, snd w))
                             else if g = 20 then (Some ESRCH, w) else (Some EPERM, w)),
     after_delay = (\<lambda>w. (fst w, snd w + 20))\<rparr>"

definition demo_boundary :: active_execution where
  "demo_boundary = \<lparr>ae_token = ''x1'', ae_generation = 1, ae_pid = 20,
     ae_processIdentity = ''ps-process:ctl'', ae_groupId = 20,
     ae_boundaryKind = POSIX_EXECUTION_BOUNDARY_KIND, ae_ownerToken = ''t1'', ae_state = REGISTERED\<rparr>"

lemma demo_clock: "clock_advances demo_os"
  by (simp add: clock_advances_def demo_os_def)

lemma demo_esrch: "esrch_means_absent demo_os"
  by (auto simp: esrch_means_absent_def demo_os_def demo_view_def)

lemma demo_run:
  "terminate_execution_boundary demo_os 1 demo_boundary 0 0 (True, 0) = Some (Inr (), (False, 0))"
  by code_simp

theorem terminate_returns_witness:
  "\<exists>r. terminate_execution_boundary demo_os 5001 demo_boundary
         EXECUTION_TERMINATION_GRACE_MS EXECUTION_TERMINATION_CONFIRMATION_MS (True, 0) = Some r"
  by (rule terminate_returns [OF demo_clock])
    (simp_all add: EXECUTION_TERMINATION_GRACE_MS_def EXECUTION_TERMINATION_CONFIRMATION_MS_def)

theorem terminate_proves_absence_witness:
  "terminate_execution_boundary demo_os 1 demo_boundary 0 0 (True, 0) = Some (Inr (), (False, 0))
   \<and> group_absent demo_os demo_boundary (False, 0)"
  using demo_run terminate_proves_absence [OF demo_esrch demo_run] by blast

text \<open>An operating system whose \<open>kill\<close> is different for every other group and every dead leader.\<close>

definition demo_os_other :: "(bool \<times> int) os_ops" where
  "demo_os_other = demo_os\<lparr>kill_group := (\<lambda>w g sig.
     if fst w \<and> g = 20 then (None, (False, snd w)) else (None, (False, 0)))\<rparr>"

theorem terminate_signals_exact_group_only_witness:
  "terminate_execution_boundary demo_os 1 demo_boundary 0 0 (True, 0)
     = terminate_execution_boundary demo_os_other 1 demo_boundary 0 0 (True, 0)
   \<and> kill_group demo_os (True, 7) 30 SIGTERM \<noteq> kill_group demo_os_other (True, 7) 30 SIGTERM"
proof
  have "agree_on_exact_signals demo_boundary demo_os demo_os_other"
    by (auto simp: agree_on_exact_signals_def demo_os_other_def demo_os_def demo_view_def
        demo_boundary_def classify_execution_boundary_def platform_supports_execution_boundary_def
        process_group_exists_def is_safe_integer_def max_safe_integer_def is_process_alive_def)
  then show "terminate_execution_boundary demo_os 1 demo_boundary 0 0 (True, 0)
     = terminate_execution_boundary demo_os_other 1 demo_boundary 0 0 (True, 0)"
    by (rule terminate_signals_exact_group_only)
  show "kill_group demo_os (True, 7) 30 SIGTERM \<noteq> kill_group demo_os_other (True, 7) 30 SIGTERM"
    by (simp add: demo_os_def demo_os_other_def)
qed

end
