(* ===== verification/Supervisor_Pass.thy ===== *)
theory Supervisor_Pass
  imports Control_Protocol Execution_Boundary
begin

text \<open>
  The launcher's side of one execution, \<open>src/src/modules/reconciliation/supervisor-pass.ts\<close>: spawn the
  inert controller, check the identity it declares, send START, observe the RESULT. What the code
  waits for is given by a script: the messages of the controller, the answers of the operating
  system at each inspection, the outcome of \<open>terminateExecutionBoundary\<close> (whose own model is
  \<open>Execution_Boundary\<close>) at each call. The effects the launcher performs are listed in order.
\<close>

record prepared_execution =
  pp_executionToken :: string
  pp_pid :: int
  pp_processIdentity :: string
  pp_groupId :: int

record supervisor_pass_result =
  pr_exitCode :: "int option"
  pr_signal :: "string option"
  pr_spawnError :: "string option"
  pr_supervisorPid :: "int option"

datatype pass_error =
    TokenRequired | PlatformUnsupported | SpawnError | IpcClosed
  | ReadyTimedOut | ReadyTokenMismatch | ExitedBeforeReady
  | ReadyPidInvalid | ReadyIdentityInvalid
  | BoundaryFailure boundary_error
  | GroupProbeFailed probe_error
  | ExitedBeforeGroupDead
  | StartIsSingleUse

datatype pass_effect =
    SpawnController
  | SendPrepare string
  | SendStart string
  | TerminateBoundary active_execution "boundary_error option"
  | KillController
  | GroupSeenDead string int

datatype handshake_event = ControllerMessage js_value | ControllerClosed | HandshakeTimeout

text \<open>\<open>waitForReady\<close>: other messages are ignored; the timeout of 30 s ends a silent handshake.\<close>

fun wait_for_ready ::
  "string \<Rightarrow> handshake_event list \<Rightarrow> pass_error + (int \<times> string \<times> int)" where
  "wait_for_ready token [] = Inl ReadyTimedOut"
| "wait_for_ready token (ControllerMessage raw # evs) =
     (case parse_controller_execution_message raw of
        Some (Ready t pid ident g) \<Rightarrow>
          if t \<noteq> token then Inl ReadyTokenMismatch else Inr (pid, ident, g)
      | _ \<Rightarrow> wait_for_ready token evs)"
| "wait_for_ready token (ControllerClosed # evs) = Inl ExitedBeforeReady"
| "wait_for_ready token (HandshakeTimeout # evs) = Inl ReadyTimedOut"

definition as_boundary_record :: "prepared_execution \<Rightarrow> active_execution" where
  "as_boundary_record p =
     \<lparr>ae_token = pp_executionToken p, ae_generation = 1, ae_pid = pp_pid p,
      ae_processIdentity = pp_processIdentity p, ae_groupId = pp_groupId p,
      ae_boundaryKind = POSIX_EXECUTION_BOUNDARY_KIND, ae_ownerToken = ''local-launcher'',
      ae_state = REGISTERED\<rparr>"

definition validate_ready ::
  "os_view \<Rightarrow> int option \<Rightarrow> int \<times> string \<times> int \<Rightarrow> pass_error option" where
  "validate_ready os childPid ready =
     (case (childPid, ready) of (None, _) \<Rightarrow> Some ReadyPidInvalid
      | (Some child, (pid, ident, g)) \<Rightarrow>
          if pid \<noteq> child \<or> g \<noteq> child then Some ReadyPidInvalid
          else (case read_process_start_identity os child of
                  None \<Rightarrow> Some ReadyIdentityInvalid
                | Some i \<Rightarrow>
                    if i \<noteq> ident \<or> read_process_group_id os child \<noteq> Some child
                    then Some ReadyIdentityInvalid else None))"

text \<open>\<open>observeControllerResult\<close>: the last RESULT and the last STARTED that carry this token.\<close>

record controller_observation =
  co_result :: "(int option \<times> string option \<times> string option) option"
  co_supervisorPid :: "int option"

definition observe_message ::
  "string \<Rightarrow> js_value \<Rightarrow> controller_observation \<Rightarrow> controller_observation" where
  "observe_message token raw ob =
     (case parse_controller_execution_message raw of
        Some (Started t pid) \<Rightarrow> if t = token then ob\<lparr>co_supervisorPid := Some pid\<rparr> else ob
      | Some (Result t x s m) \<Rightarrow> if t = token then ob\<lparr>co_result := Some (x, s, m)\<rparr> else ob
      | _ \<Rightarrow> ob)"

definition observe_controller_result :: "string \<Rightarrow> js_value list \<Rightarrow> controller_observation" where
  "observe_controller_result token raws =
     fold (observe_message token) raws \<lparr>co_result = None, co_supervisorPid = None\<rparr>"

subsection \<open>Preparation\<close>

record prepare_script =
  ps_os :: os_view
  ps_childPid :: "int option"
  ps_spawnFails :: bool
  ps_sendFails :: bool
  ps_handshake :: "handshake_event list"
  ps_osAtReady :: os_view
  ps_osAtCleanup :: os_view
  ps_childExited :: bool
  ps_terminate :: "boundary_error option"

text \<open>The \<open>catch\<close> of \<open>prepareSupervisorPass\<close>: terminate the group only when the child is provably its
  leader, otherwise kill the child alone.\<close>

definition abandon_controller ::
  "string \<Rightarrow> prepare_script \<Rightarrow> pass_error \<Rightarrow> pass_error \<times> pass_effect list" where
  "abandon_controller token s err =
     (case ps_childPid s of None \<Rightarrow> (err, [])
      | Some child \<Rightarrow>
          (case read_process_start_identity (ps_osAtCleanup s) child of
             Some ident \<Rightarrow>
               if read_process_group_id (ps_osAtCleanup s) child = Some child then
                 (let record1 = \<lparr>ae_token = token, ae_generation = 1, ae_pid = child,
                        ae_processIdentity = ident, ae_groupId = child,
                        ae_boundaryKind = POSIX_EXECUTION_BOUNDARY_KIND,
                        ae_ownerToken = ''local-launcher'', ae_state = REGISTERED\<rparr>
                  in (case ps_terminate s of
                        None \<Rightarrow> (err, [TerminateBoundary record1 None])
                      | Some e \<Rightarrow> (BoundaryFailure e, [TerminateBoundary record1 (Some e)])))
               else (err, if ps_childExited s then [] else [KillController])
           | None \<Rightarrow> (err, if ps_childExited s then [] else [KillController])))"

definition handshake ::
  "string \<Rightarrow> prepare_script \<Rightarrow> (pass_error + prepared_execution) \<times> pass_effect list" where
  "handshake token s =
     (if ps_spawnFails s then (Inl SpawnError, [])
      else if ps_sendFails s then (Inl IpcClosed, [])
      else case wait_for_ready token (ps_handshake s) of
             Inl e \<Rightarrow> (Inl e, [SendPrepare token])
           | Inr ready \<Rightarrow>
               (case validate_ready (ps_osAtReady s) (ps_childPid s) ready of
                  Some e \<Rightarrow> (Inl e, [SendPrepare token])
                | None \<Rightarrow>
                    (case ready of (pid, ident, g) \<Rightarrow>
                      (Inr \<lparr>pp_executionToken = token, pp_pid = pid, pp_processIdentity = ident,
                            pp_groupId = g\<rparr>, [SendPrepare token]))))"

definition prepare_supervisor_pass ::
  "string \<Rightarrow> prepare_script \<Rightarrow> (pass_error + prepared_execution) \<times> pass_effect list" where
  "prepare_supervisor_pass token s =
     (if is_blank token then (Inl TokenRequired, [])
      else if \<not> platform_supports_execution_boundary (ps_os s) then (Inl PlatformUnsupported, [])
      else (case handshake token s of
              (Inr p, es) \<Rightarrow> (Inr p, SpawnController # es)
            | (Inl e, es) \<Rightarrow>
                (let (e', es') = abandon_controller token s e
                 in (Inl e', SpawnController # es @ es'))))"

subsection \<open>START, and the end of the pass\<close>

text \<open>The race between the close of the controller and the abort of the launcher. \<open>ss_messages\<close> are
  the messages received until the result is read.\<close>

record start_script =
  ss_sendFails :: bool
  ss_aborted :: bool
  ss_terminate :: "boundary_error option"
  ss_close :: "int option \<times> string option"
  ss_messages :: "js_value list"
  ss_osAtClose :: os_view

definition or_else :: "'a option \<Rightarrow> 'a option \<Rightarrow> 'a option" where
  "or_else a b = (case a of None \<Rightarrow> b | Some x \<Rightarrow> Some x)"

definition merge_result ::
  "controller_observation \<Rightarrow> int option \<times> string option \<Rightarrow> supervisor_pass_result" where
  "merge_result ob closed =
     (case co_result ob of
        None \<Rightarrow> \<lparr>pr_exitCode = fst closed, pr_signal = snd closed, pr_spawnError = None,
                 pr_supervisorPid = co_supervisorPid ob\<rparr>
      | Some (x, s, m) \<Rightarrow>
          \<lparr>pr_exitCode = or_else x (fst closed), pr_signal = or_else s (snd closed),
           pr_spawnError = m, pr_supervisorPid = co_supervisorPid ob\<rparr>)"

definition close_of_pass ::
  "prepared_execution \<Rightarrow> start_script \<Rightarrow> (pass_error + supervisor_pass_result) \<times> pass_effect list" where
  "close_of_pass p s =
     (case process_group_exists (ss_osAtClose s) (pp_groupId p) of
        Inl e \<Rightarrow> (Inl (GroupProbeFailed e), [])
      | Inr True \<Rightarrow> (Inl ExitedBeforeGroupDead, [])
      | Inr False \<Rightarrow>
          (Inr (merge_result (observe_controller_result (pp_executionToken p) (ss_messages s))
                 (ss_close s)),
           [GroupSeenDead (pp_executionToken p) (pp_groupId p)]))"

text \<open>\<open>started\<close> is the flag that makes START single-use.\<close>

definition start_pass ::
  "bool \<Rightarrow> prepared_execution \<Rightarrow> start_script \<Rightarrow> (pass_error + supervisor_pass_result) \<times> pass_effect list" where
  "start_pass started p s =
     (if started then (Inl StartIsSingleUse, [])
      else if ss_sendFails s then (Inl IpcClosed, [])
      else if ss_aborted s then
        (case ss_terminate s of
           Some e \<Rightarrow> (Inl (BoundaryFailure e),
             [SendStart (pp_executionToken p), TerminateBoundary (as_boundary_record p) (Some e)])
         | None \<Rightarrow>
             (let (r, es) = close_of_pass p s
              in (r, [SendStart (pp_executionToken p), TerminateBoundary (as_boundary_record p) None] @ es)))
      else (let (r, es) = close_of_pass p s in (r, SendStart (pp_executionToken p) # es)))"

text \<open>\<open>terminate()\<close> of a prepared pass.\<close>

definition terminate_prepared ::
  "prepared_execution \<Rightarrow> boundary_error option \<Rightarrow> (pass_error + unit) \<times> pass_effect list" where
  "terminate_prepared p outcome =
     (case outcome of
        None \<Rightarrow> (Inr (), [TerminateBoundary (as_boundary_record p) None])
      | Some e \<Rightarrow> (Inl (BoundaryFailure e), [TerminateBoundary (as_boundary_record p) (Some e)]))"

definition pass_succeeded :: "supervisor_pass_result \<Rightarrow> bool" where
  "pass_succeeded p \<longleftrightarrow> pr_spawnError p = None \<and> pr_signal p = None \<and> pr_exitCode p = Some 0"


subsection \<open>What preparation guarantees\<close>

lemma wait_for_ready_sound:
  "wait_for_ready token evs = Inr (pid, ident, g) \<Longrightarrow>
     \<exists>raw. ControllerMessage raw \<in> set evs \<and>
       parse_controller_execution_message raw = Some (Ready token pid ident g)"
  by (induction token evs rule: wait_for_ready.induct)
    (auto split: option.splits controller_message.splits if_splits)

lemma validate_ready_sound:
  "validate_ready os child (pid, ident, g) = None \<Longrightarrow>
     child = Some pid \<and> g = pid \<and> read_process_start_identity os pid = Some ident \<and>
     read_process_group_id os pid = Some pid"
  by (auto simp: validate_ready_def split: option.splits if_splits)

lemma abandon_no_start:
  "abandon_controller token s e = (e', es) \<Longrightarrow> SendStart t \<notin> set es"
  by (auto simp: abandon_controller_def Let_def split: option.splits if_splits)

lemma handshake_no_start:
  "handshake token s = (r, es) \<Longrightarrow> SendStart t \<notin> set es"
  by (auto simp: handshake_def split: sum.splits option.splits if_splits prod.splits)

lemma prepare_no_start:
  "prepare_supervisor_pass token s = (r, es) \<Longrightarrow> SendStart t \<notin> set es"
  by (auto simp: prepare_supervisor_pass_def dest: handshake_no_start abandon_no_start
      split: sum.splits if_splits prod.splits)

lemma prepare_fields:
  assumes "prepare_supervisor_pass token s = (Inr p, es)"
  shows "pp_executionToken p = token" "pp_groupId p = pp_pid p" "\<not> is_blank token"
  using assms
  by (auto simp: prepare_supervisor_pass_def handshake_def dest: validate_ready_sound
      split: sum.splits if_splits prod.splits option.splits)

text \<open>A prepared execution is the spawned child itself, inert: preparation succeeds only when the
  child answered READY with the launcher's token and the operating system confirms that the spawned
  PID is alive with the declared start identity and leads its own process group; and no START
  is sent by preparation, whatever its outcome.\<close>

theorem preparation_verifies_boundary:
  assumes "prepare_supervisor_pass token s = (r, es)"
  shows "(\<forall>t. SendStart t \<notin> set es) \<and>
    (\<forall>p. r = Inr p \<longrightarrow>
       pp_executionToken p = token \<and> ps_childPid s = Some (pp_pid p) \<and> pp_groupId p = pp_pid p \<and>
       read_process_start_identity (ps_osAtReady s) (pp_pid p) = Some (pp_processIdentity p) \<and>
       read_process_group_id (ps_osAtReady s) (pp_pid p) = Some (pp_groupId p) \<and>
       (\<exists>raw. ControllerMessage raw \<in> set (ps_handshake s) \<and>
          parse_controller_execution_message raw =
            Some (Ready token (pp_pid p) (pp_processIdentity p) (pp_groupId p))) \<and>
       es = [SpawnController, SendPrepare token])"
proof -
  have "SendStart t \<notin> set es" for t using prepare_no_start[OF assms] .
  moreover {
    fix p assume r: "r = Inr p"
    then obtain es' where h: "handshake token s = (Inr p, es')" "es = SpawnController # es'"
      using assms by (auto simp: prepare_supervisor_pass_def split: sum.splits if_splits prod.splits)
    then obtain pid ident g where
      w: "wait_for_ready token (ps_handshake s) = Inr (pid, ident, g)"
      "validate_ready (ps_osAtReady s) (ps_childPid s) (pid, ident, g) = None"
      "p = \<lparr>pp_executionToken = token, pp_pid = pid, pp_processIdentity = ident, pp_groupId = g\<rparr>"
      "es' = [SendPrepare token]"
      by (auto simp: handshake_def split: sum.splits option.splits if_splits)
    have "ps_childPid s = Some pid \<and> g = pid \<and>
        read_process_start_identity (ps_osAtReady s) pid = Some ident \<and>
        read_process_group_id (ps_osAtReady s) pid = Some pid"
      using validate_ready_sound[OF w(2)] .
    with wait_for_ready_sound[OF w(1)] w h have "pp_executionToken p = token \<and> ps_childPid s = Some (pp_pid p) \<and> pp_groupId p = pp_pid p \<and>
       read_process_start_identity (ps_osAtReady s) (pp_pid p) = Some (pp_processIdentity p) \<and>
       read_process_group_id (ps_osAtReady s) (pp_pid p) = Some (pp_groupId p) \<and>
       (\<exists>raw. ControllerMessage raw \<in> set (ps_handshake s) \<and>
          parse_controller_execution_message raw =
            Some (Ready token (pp_pid p) (pp_processIdentity p) (pp_groupId p))) \<and>
       es = [SpawnController, SendPrepare token]" by simp
  }
  ultimately show ?thesis by blast
qed

definition darwin_os :: os_view where
  "darwin_os = \<lparr>os_platform = Darwin, kill_probe = (\<lambda>_. None), boot_id_file = None,
     proc_stat_file = (\<lambda>_. None), ps_lstart_command = (\<lambda>_. Some ''Mon''),
     ps_pgid = (\<lambda>_. Some ''20'')\<rparr>"

definition dead_os :: os_view where
  "dead_os = darwin_os\<lparr>kill_probe := (\<lambda>_. Some ESRCH), ps_lstart_command := (\<lambda>_. None),
     ps_pgid := (\<lambda>_. None)\<rparr>"

definition sample_prepare_script :: prepare_script where
  "sample_prepare_script = \<lparr>ps_os = darwin_os, ps_childPid = Some 20, ps_spawnFails = False,
     ps_sendFails = False,
     ps_handshake = [ControllerMessage (encode_controller (Ready ''e1'' 20 ''ps-process:Mon'' 20))],
     ps_osAtReady = darwin_os, ps_osAtCleanup = darwin_os, ps_childExited = False,
     ps_terminate = None\<rparr>"

definition sample_prepared :: prepared_execution where
  "sample_prepared = \<lparr>pp_executionToken = ''e1'', pp_pid = 20,
     pp_processIdentity = ''ps-process:Mon'', pp_groupId = 20\<rparr>"

lemma sample_preparation:
  "prepare_supervisor_pass ''e1'' sample_prepare_script =
     (Inr sample_prepared, [SpawnController, SendPrepare ''e1''])"
  by code_simp

theorem preparation_verifies_boundary_witness:
  "read_process_start_identity (ps_osAtReady sample_prepare_script) (pp_pid sample_prepared) =
     Some (pp_processIdentity sample_prepared) \<and>
   ps_childPid sample_prepare_script = Some (pp_pid sample_prepared) \<and>
   pp_executionToken sample_prepared = ''e1''"
  using preparation_verifies_boundary[OF sample_preparation] by blast

text \<open>The end of a pass is a normal return only after the whole group was seen dead.\<close>

lemma start_returns_dead:
  assumes "start_pass started p s = (Inr r, es)"
  shows "process_group_exists (ss_osAtClose s) (pp_groupId p) = Inr False"
    "GroupSeenDead (pp_executionToken p) (pp_groupId p) \<in> set es" "\<not> started" "SendStart (pp_executionToken p) \<in> set es"
    "ss_aborted s \<Longrightarrow> ss_terminate s = None"
  using assms
  by (auto simp: start_pass_def close_of_pass_def split: if_splits option.splits sum.splits bool.splits prod.splits)

lemma start_sends_own_token:
  "start_pass started p s = (r, es) \<Longrightarrow> SendStart t \<in> set es \<Longrightarrow> t = pp_executionToken p \<and> hd es = SendStart t"
  by (auto simp: start_pass_def close_of_pass_def
      split: if_splits option.splits sum.splits bool.splits prod.splits)

lemma close_sends_no_start: "close_of_pass p s = (r, es) \<Longrightarrow> SendStart t \<notin> set es"
  by (auto simp: close_of_pass_def
      split: if_splits option.splits sum.splits bool.splits prod.splits)

lemma start_pass_shape:
  assumes "start_pass started p s = (r, es)"
  shows "es = [] \<or> hd es = SendStart (pp_executionToken p)" "SendStart t \<notin> set (tl es)"
  using assms
  by (auto simp: start_pass_def dest: close_sends_no_start
      split: if_splits option.splits prod.splits)

end
