(* ===== verification/Owned_Loop.thy ===== *)
theory Owned_Loop
  imports Coordinator_Admission Supervisor_Pass
begin

text \<open>
  The owner's loop, \<open>src/src/modules/reconciliation/owned-reconciliation-loop.ts\<close>: recover a prior
  execution, then run fenced passes until no newer request is waiting. The state is the coordinator
  table and the trace of what the launcher did; every effect of a pass is recorded with the table as
  it was when the call was made. What happens while the launcher awaits is given by a script per
  pass: the commits of other processes (functions on the table), the abort of the launcher, the
  failures of SQLite and the outcomes of termination.
\<close>

datatype loop_error =
    PassFailure pass_error
  | OperationFailure op_error
  | PriorNotCleared | CancelledNotCleared | StartFenced | TerminatedNotCleared | CleanupFenced
  | BoundaryNotProvenSafe loop_error loop_error

datatype loop_effect =
    Pass pass_effect db
  | RecordRegistered string
  | RecordAuthorized string db
  | RecordCleared string
  | IpcDisconnected
  | PassFinished int bool finish_result
  | PreparationFinished int finish_result

record loop_state =
  lp_db :: db
  lp_trace :: "loop_effect list"

definition note_effect :: "loop_effect \<Rightarrow> loop_state \<Rightarrow> loop_state" where
  "note_effect e st = st\<lparr>lp_trace := lp_trace st @ [e]\<rparr>"

definition act :: "pass_effect list \<Rightarrow> loop_state \<Rightarrow> loop_state" where
  "act es st = st\<lparr>lp_trace := lp_trace st @ map (\<lambda>e. Pass e (lp_db st)) es\<rparr>"

definition others :: "(db \<Rightarrow> db) \<Rightarrow> loop_state \<Rightarrow> loop_state" where
  "others f st = st\<lparr>lp_db := f (lp_db st)\<rparr>"

definition db_call ::
  "(db \<Rightarrow> (op_error + 'a) \<times> db) \<Rightarrow> loop_state \<Rightarrow> (loop_error + 'a) \<times> loop_state" where
  "db_call f st =
     (case f (lp_db st) of
        (Inl e, db') \<Rightarrow> (Inl (OperationFailure e), st\<lparr>lp_db := db'\<rparr>)
      | (Inr v, db') \<Rightarrow> (Inr v, st\<lparr>lp_db := db'\<rparr>))"

record owned_options =
  oo_ownerToken :: string
  oo_ownerPid :: int

definition owner_fence :: "owned_options \<Rightarrow> string \<Rightarrow> fence_options" where
  "owner_fence o1 token =
     \<lparr>fe_ownerToken = oo_ownerToken o1, fe_ownerPid = oo_ownerPid o1, fe_executionToken = token\<rparr>"

text \<open>\<open>if (!clearActiveExecution(...)) throw new Error(...)\<close>.\<close>

definition clear_or_throw ::
  "owned_options \<Rightarrow> string \<Rightarrow> tx_fault \<Rightarrow> loop_error \<Rightarrow> loop_state \<Rightarrow> (loop_error + unit) \<times> loop_state"
where
  "clear_or_throw o1 token fault err st =
     (case db_call (clear_active_execution fault (owner_fence o1 token)) st of
        (Inl e, st1) \<Rightarrow> (Inl e, st1)
      | (Inr False, st1) \<Rightarrow> (Inl err, st1)
      | (Inr True, st1) \<Rightarrow> (Inr (), note_effect (RecordCleared token) st1))"

subsection \<open>Recovery\<close>

record recovery_script =
  rs_terminate :: "boundary_error option"
  rs_dbWhileTerminating :: "db \<Rightarrow> db"
  rs_clearFault :: tx_fault

definition recover_prior_execution ::
  "owned_options \<Rightarrow> recovery_script \<Rightarrow> loop_state \<Rightarrow> (loop_error + unit) \<times> loop_state" where
  "recover_prior_execution o1 s st =
     (case read_state (lp_db st) of
        Inl e \<Rightarrow> (Inl (OperationFailure e), st)
      | Inr state \<Rightarrow>
          (case activeExecution state of
             None \<Rightarrow> (Inr (), st)
           | Some execution \<Rightarrow>
               (let st1 = act [TerminateBoundary execution (rs_terminate s)] st
                in case rs_terminate s of
                     Some e \<Rightarrow> (Inl (PassFailure (BoundaryFailure e)), st1)
                   | None \<Rightarrow>
                       clear_or_throw o1 (ae_token execution) (rs_clearFault s) PriorNotCleared
                         (others (rs_dbWhileTerminating s) st1))))"

subsection \<open>One pass\<close>

record pass_script =
  sc_token :: string
  sc_prepare :: prepare_script
  sc_dbWhilePreparing :: "db \<Rightarrow> db"
  sc_abortedAtPrepared :: bool
  sc_terminateCancelled :: "boundary_error option"
  sc_dbWhileCancelling :: "db \<Rightarrow> db"
  sc_registerFault :: tx_fault
  sc_dbAtBarrier :: "db \<Rightarrow> db"
  sc_abortedAtRegistered :: bool
  sc_authorizeFault :: tx_fault
  sc_dbBeforeStart :: "db \<Rightarrow> db"
  sc_start :: start_script
  sc_dbWhileRunning :: "db \<Rightarrow> db"
  sc_clearFault :: tx_fault
  sc_terminateCleanup :: "boundary_error option"
  sc_dbWhileCleaning :: "db \<Rightarrow> db"
  sc_cleanupFault :: tx_fault
  sc_abortedAfter :: bool
  sc_dbBeforeFinish :: "db \<Rightarrow> db"
  sc_finishFault :: tx_fault
  sc_finishNow :: int

definition cancelled_pass :: supervisor_pass_result where
  "cancelled_pass = \<lparr>pr_exitCode = None, pr_signal = Some ''SIGTERM'', pr_spawnError = None,
     pr_supervisorPid = None\<rparr>"

definition terminate_call ::
  "prepared_execution \<Rightarrow> boundary_error option \<Rightarrow> (db \<Rightarrow> db) \<Rightarrow> loop_state
     \<Rightarrow> (loop_error + unit) \<times> loop_state" where
  "terminate_call p outcome f st =
     (case terminate_prepared p outcome of
        (Inl e, es) \<Rightarrow> (Inl (PassFailure e), others f (act es st))
      | (Inr _, es) \<Rightarrow> (Inr (), others f (act es st)))"

definition execution_options ::
  "owned_options \<Rightarrow> int \<Rightarrow> prepared_execution \<Rightarrow> string \<Rightarrow> register_execution_options" where
  "execution_options o1 generation p token =
     \<lparr>xo_ownerToken = oo_ownerToken o1, xo_ownerPid = oo_ownerPid o1, xo_generation = generation,
      xo_executionToken = token, xo_executionPid = pp_pid p,
      xo_executionProcessIdentity = pp_processIdentity p, xo_executionGroupId = pp_groupId p,
      xo_executionBoundaryKind = POSIX_EXECUTION_BOUNDARY_KIND\<rparr>"

text \<open>The body of the \<open>try\<close>, in three parts; each returns the result, the flag \<open>registered\<close> and the
  state. First: from the authorization to the durable clear. The authorization is a committed
  transaction of its own; other processes may commit between it and the START command
  (\<open>sc_dbBeforeStart\<close>), and again while the pass runs.\<close>

definition authorized_part ::
  "owned_options \<Rightarrow> pass_script \<Rightarrow> prepared_execution \<Rightarrow> loop_state
     \<Rightarrow> (loop_error + supervisor_pass_result) \<times> bool \<times> loop_state" where
  "authorized_part o1 s p st =
     (case db_call (authorize_active_execution_start (sc_authorizeFault s)
             (owner_fence o1 (sc_token s))) st of
        (Inl e, st1) \<Rightarrow> (Inl e, True, st1)
      | (Inr False, st1) \<Rightarrow> (Inl StartFenced, True, st1)
      | (Inr True, st1) \<Rightarrow>
          (let st2 = others (sc_dbBeforeStart s)
                 (note_effect (RecordAuthorized (sc_token s) (lp_db st1)) st1);
               (r, es) = start_pass False p (sc_start s);
               st3 = others (sc_dbWhileRunning s) (act es st2)
           in case r of
                Inl e \<Rightarrow> (Inl (PassFailure e), True, st3)
              | Inr pass \<Rightarrow>
                  (case clear_or_throw o1 (sc_token s) (sc_clearFault s) TerminatedNotCleared st3 of
                     (Inl e, st4) \<Rightarrow> (Inl e, True, st4)
                   | (Inr _, st4) \<Rightarrow> (Inr pass, False, st4))))"

text \<open>Second: the cancellation seen after the registration.\<close>

definition registered_part ::
  "owned_options \<Rightarrow> pass_script \<Rightarrow> prepared_execution \<Rightarrow> loop_state
     \<Rightarrow> (loop_error + supervisor_pass_result) \<times> bool \<times> loop_state" where
  "registered_part o1 s p st =
     (if sc_abortedAtRegistered s then
        (case terminate_call p (sc_terminateCancelled s) (sc_dbWhileCancelling s) st of
           (Inl e, st1) \<Rightarrow> (Inl e, True, st1)
         | (Inr _, st1) \<Rightarrow>
             (case clear_or_throw o1 (sc_token s) (sc_clearFault s) CancelledNotCleared st1 of
                (Inl e, st2) \<Rightarrow> (Inl e, True, st2)
              | (Inr _, st2) \<Rightarrow> (Inr cancelled_pass, True, st2)))
      else authorized_part o1 s p st)"

text \<open>Third: the cancellation seen before the registration, and the registration.\<close>

definition prepared_part ::
  "owned_options \<Rightarrow> pass_script \<Rightarrow> int \<Rightarrow> prepared_execution \<Rightarrow> loop_state
     \<Rightarrow> (loop_error + supervisor_pass_result) \<times> bool \<times> loop_state" where
  "prepared_part o1 s generation p st =
     (if sc_abortedAtPrepared s then
        (case terminate_call p (sc_terminateCancelled s) (sc_dbWhileCancelling s) st of
           (Inl e, st1) \<Rightarrow> (Inl e, False, st1)
         | (Inr _, st1) \<Rightarrow> (Inr cancelled_pass, False, st1))
      else
        (case db_call (register_active_execution (sc_registerFault s)
                (execution_options o1 generation p (sc_token s))) st of
           (Inl e, st1) \<Rightarrow> (Inl e, False, st1)
         | (Inr _, st1) \<Rightarrow>
             registered_part o1 s p
               (others (sc_dbAtBarrier s) (note_effect (RecordRegistered (sc_token s)) st1))))"

text \<open>The \<open>catch\<close>: terminate, clear the record if it was registered, and rethrow; when that fails the
  IPC channel is dropped and both errors are reported.\<close>

definition cleanup_part ::
  "owned_options \<Rightarrow> pass_script \<Rightarrow> prepared_execution \<Rightarrow> loop_error \<Rightarrow> bool \<Rightarrow> loop_state
     \<Rightarrow> loop_error \<times> loop_state" where
  "cleanup_part o1 s p err registered st =
     (case terminate_call p (sc_terminateCleanup s) (sc_dbWhileCleaning s) st of
        (Inl e, st1) \<Rightarrow> (BoundaryNotProvenSafe err e, note_effect IpcDisconnected st1)
      | (Inr _, st1) \<Rightarrow>
          if registered then
            (case clear_or_throw o1 (sc_token s) (sc_cleanupFault s) CleanupFenced st1 of
               (Inl e, st2) \<Rightarrow> (BoundaryNotProvenSafe err e, note_effect IpcDisconnected st2)
             | (Inr _, st2) \<Rightarrow> (err, st2))
          else (err, st1))"

definition run_one_pass ::
  "owned_options \<Rightarrow> pass_script \<Rightarrow> int \<Rightarrow> loop_state
     \<Rightarrow> (loop_error + supervisor_pass_result) \<times> loop_state" where
  "run_one_pass o1 s generation st =
     (let (r, es) = prepare_supervisor_pass (sc_token s) (sc_prepare s);
          st1 = others (sc_dbWhilePreparing s) (act es st)
      in case r of
           Inl e \<Rightarrow> (Inl (PassFailure e), st1)
         | Inr p \<Rightarrow>
             (case prepared_part o1 s generation p st1 of
                (Inr pass, _, st2) \<Rightarrow> (Inr pass, st2)
              | (Inl e, registered, st2) \<Rightarrow>
                  (let (e', st3) = cleanup_part o1 s p e registered st2 in (Inl e', st3))))"

text \<open>\<open>cancellation.signal.aborted\<close> after the pass: an abort seen earlier stays.\<close>

definition aborted_after_pass :: "pass_script \<Rightarrow> bool" where
  "aborted_after_pass s \<longleftrightarrow> sc_abortedAtPrepared s \<or> sc_abortedAtRegistered s
     \<or> ss_aborted (sc_start s) \<or> sc_abortedAfter s"

definition finish_options_of ::
  "owned_options \<Rightarrow> int \<Rightarrow> int \<Rightarrow> bool \<Rightarrow> finish_options" where
  "finish_options_of o1 generation now success =
     \<lparr>fo_token = oo_ownerToken o1, fo_pid = oo_ownerPid o1, fo_generation = generation,
      fo_success = success, fo_nowEpochMs = now\<rparr>"

subsection \<open>The loops\<close>

record owned_result =
  or_exitCode :: int
  or_cancelled :: bool

definition cancelled_result :: owned_result where
  "cancelled_result = \<lparr>or_exitCode = 2, or_cancelled = True\<rparr>"

text \<open>The loop runs as long as newer requests keep arriving, so it may never end: it consumes one
  script per pass, and \<^const>\<open>None\<close> says that the scripts ran out before it returned.\<close>

fun run_passes ::
  "owned_options \<Rightarrow> pass_script list \<Rightarrow> int \<Rightarrow> loop_state
     \<Rightarrow> (loop_error + owned_result) option \<times> loop_state" where
  "run_passes o1 [] generation st = (None, st)"
| "run_passes o1 (s # scripts) generation st =
     (case run_one_pass o1 s generation st of
        (Inl e, st1) \<Rightarrow> (Some (Inl e), st1)
      | (Inr pass, st1) \<Rightarrow>
          if aborted_after_pass s then (Some (Inr cancelled_result), st1)
          else
            (let success = pass_succeeded pass in
             case db_call (finish_reconciliation_pass (sc_finishFault s)
                    (finish_options_of o1 generation (sc_finishNow s) success))
                  (others (sc_dbBeforeFinish s) st1) of
               (Inl e, st2) \<Rightarrow> (Some (Inl e), st2)
             | (Inr finish, st2) \<Rightarrow>
                 (let st3 = note_effect (PassFinished generation success finish) st2 in
                  case finish of
                    Continue next1 _ _ \<Rightarrow> run_passes o1 scripts next1 st3
                  | _ \<Rightarrow>
                      (Some (Inr \<lparr>or_exitCode = (if success then 0 else nullish (pr_exitCode pass) 1),
                                  or_cancelled = False\<rparr>), st3))))"

record preparation_script =
  pn_exitCode :: "int option"
  pn_aborted :: bool
  pn_db :: "db \<Rightarrow> db"
  pn_finishFault :: tx_fault
  pn_finishNow :: int

text \<open>The loop around the optional runtime preparation; \<open>Inl\<close> is a return or an error of the whole
  function, \<open>Inr generation\<close> goes on to the passes.\<close>

fun run_preparations ::
  "owned_options \<Rightarrow> preparation_script list \<Rightarrow> int \<Rightarrow> loop_state
     \<Rightarrow> ((loop_error + owned_result) + int) option \<times> loop_state" where
  "run_preparations o1 [] generation st = (None, st)"
| "run_preparations o1 (s # scripts) generation st =
     (let st1 = others (pn_db s) st in
      if pn_aborted s then (Some (Inl (Inr cancelled_result)), st1)
      else if pn_exitCode s = Some 0 then (Some (Inr generation), st1)
      else
        (case db_call (finish_reconciliation_pass (pn_finishFault s)
                (finish_options_of o1 generation (pn_finishNow s) False)) st1 of
           (Inl e, st2) \<Rightarrow> (Some (Inl (Inl e)), st2)
         | (Inr finish, st2) \<Rightarrow>
             (let st3 = note_effect (PreparationFinished generation finish) st2 in
              case finish of
                Continue next1 _ _ \<Rightarrow> run_preparations o1 scripts next1 st3
              | _ \<Rightarrow>
                  (Some (Inl (Inr \<lparr>or_exitCode = nullish (pn_exitCode s) 1, or_cancelled = False\<rparr>)),
                   st3))))"

record owned_script =
  os_recovery :: recovery_script
  os_abortedAfterRecovery :: bool
  os_preparations :: "preparation_script list option"
  os_passes :: "pass_script list"

definition run_owned_reconciliation ::
  "owned_options \<Rightarrow> owned_script \<Rightarrow> int \<Rightarrow> loop_state
     \<Rightarrow> (loop_error + owned_result) option \<times> loop_state" where
  "run_owned_reconciliation o1 s initialGeneration st =
     (case recover_prior_execution o1 (os_recovery s) st of
        (Inl e, st1) \<Rightarrow> (Some (Inl e), st1)
      | (Inr _, st1) \<Rightarrow>
          if os_abortedAfterRecovery s then (Some (Inr cancelled_result), st1)
          else
            (case os_preparations s of
               None \<Rightarrow> run_passes o1 (os_passes s) initialGeneration st1
             | Some preparations \<Rightarrow>
                 (case run_preparations o1 preparations initialGeneration st1 of
                    (None, st2) \<Rightarrow> (None, st2)
                  | (Some (Inl result), st2) \<Rightarrow> (Some result, st2)
                  | (Some (Inr generation), st2) \<Rightarrow>
                      run_passes o1 (os_passes s) generation st2)))"


subsection \<open>What the trace of a loop shows\<close>

text \<open>The table durably records that the launcher is the owner and that the execution is its active
  one, with an authorized START.\<close>

definition records_authorization :: "owned_options \<Rightarrow> string \<Rightarrow> db \<Rightarrow> bool" where
  "records_authorization o1 t db \<longleftrightarrow>
     (\<exists>s e. read_state db = Inr s \<and> owned_by s (oo_ownerToken o1) (oo_ownerPid o1) \<and>
        activeExecution s = Some e \<and> ae_token e = t \<and> ae_state e = START_AUTHORIZED)"

text \<open>A START is the act that immediately follows the committed authorization of that very execution;
  the table it is sent under is what the commits of other processes, one of the functions of \<open>F\<close>,
  made of the committed one.\<close>

definition starts_authorized :: "owned_options \<Rightarrow> (db \<Rightarrow> db) set \<Rightarrow> loop_effect list \<Rightarrow> bool" where
  "starts_authorized o1 F tr \<longleftrightarrow>
     (\<forall>i < length tr. \<forall>t d. tr ! i = Pass (SendStart t) d \<longrightarrow>
        (\<exists>d0. 0 < i \<and> tr ! (i - 1) = RecordAuthorized t d0 \<and> records_authorization o1 t d0 \<and>
           (\<exists>f \<in> F. d = f d0)))"

fun sends_start :: "loop_effect \<Rightarrow> bool" where
  "sends_start (Pass (SendStart t) d) = True"
| "sends_start _ = False"

lemma starts_append:
  assumes "starts_authorized o1 F tr" "\<forall>e \<in> set tr'. \<not> sends_start e"
  shows "starts_authorized o1 F (tr @ tr')"
  unfolding starts_authorized_def
proof (intro allI impI)
  fix i t d assume i: "i < length (tr @ tr')" "(tr @ tr') ! i = Pass (SendStart t) d"
  have "i < length tr"
  proof (rule ccontr)
    assume "\<not> i < length tr"
    with i have "i - length tr < length tr'" "tr' ! (i - length tr) = Pass (SendStart t) d"
      by (simp_all add: nth_append)
    then have "Pass (SendStart t) d \<in> set tr'" by (metis nth_mem)
    with assms(2) show False by fastforce
  qed
  with i assms(1) show "\<exists>d0. 0 < i \<and> (tr @ tr') ! (i - 1) = RecordAuthorized t d0 \<and>
      records_authorization o1 t d0 \<and> (\<exists>f \<in> F. d = f d0)"
    unfolding starts_authorized_def by (auto simp: nth_append)
qed

lemma starts_sent:
  assumes "starts_authorized o1 F tr" "records_authorization o1 t d0" "f \<in> F"
  shows "starts_authorized o1 F (tr @ [RecordAuthorized t d0, Pass (SendStart t) (f d0)])"
  using assms unfolding starts_authorized_def
  by (auto simp: nth_append less_Suc_eq)

text \<open>The group of the execution is known to be dead: a termination of it returned normally, or the
  group was seen absent when the pass ended.\<close>

definition death_proved :: "string \<Rightarrow> loop_effect list \<Rightarrow> bool" where
  "death_proved t tr \<longleftrightarrow>
     (\<exists>e db. Pass (TerminateBoundary e None) db \<in> set tr \<and> ae_token e = t) \<or>
     (\<exists>g db. Pass (GroupSeenDead t g) db \<in> set tr)"

definition cleared_after_death :: "loop_effect list \<Rightarrow> bool" where
  "cleared_after_death tr \<longleftrightarrow>
     (\<forall>i < length tr. \<forall>t. tr ! i = RecordCleared t \<longrightarrow> death_proved t (take i tr))"

text \<open>The invariant of every function of the loop; \<open>base\<close> is the trace it started from.\<close>

definition sound ::
  "owned_options \<Rightarrow> (db \<Rightarrow> db) set \<Rightarrow> loop_effect list \<Rightarrow> loop_state \<Rightarrow> bool" where
  "sound o1 F base st \<longleftrightarrow> (\<exists>tr. lp_trace st = base @ tr) \<and>
     starts_authorized o1 F (lp_trace st) \<and> cleared_after_death (lp_trace st)"

lemma death_proved_append: "death_proved t tr \<Longrightarrow> death_proved t (tr @ tr')"
  unfolding death_proved_def by auto

lemma death_terminated:
  "Pass (TerminateBoundary e None) db \<in> set tr \<Longrightarrow> death_proved (ae_token e) tr"
  by (auto simp: death_proved_def)

lemma death_seen: "Pass (GroupSeenDead t g) db \<in> set tr \<Longrightarrow> death_proved t tr"
  by (auto simp: death_proved_def)

lemma as_boundary_token [simp]: "ae_token (as_boundary_record p) = pp_executionToken p"
  by (simp add: as_boundary_record_def)

lemma cleared_append:
  assumes "cleared_after_death tr" "\<And>t. RecordCleared t \<notin> set tr'"
  shows "cleared_after_death (tr @ tr')"
  unfolding cleared_after_death_def
proof (intro allI impI)
  fix i t assume i: "i < length (tr @ tr')" "(tr @ tr') ! i = RecordCleared t"
  have "i < length tr"
    using i assms(2)[of t] by (cases "i < length tr") (auto simp: nth_append in_set_conv_nth)
  with i assms(1) show "death_proved t (take i (tr @ tr'))"
    by (simp add: cleared_after_death_def nth_append)
qed

lemma cleared_snoc:
  assumes "cleared_after_death tr" "death_proved t tr"
  shows "cleared_after_death (tr @ [RecordCleared t])"
  using assms unfolding cleared_after_death_def by (auto simp: nth_append less_Suc_eq)

lemma lp_simps [simp]:
  "lp_trace (note_effect e st) = lp_trace st @ [e]" "lp_db (note_effect e st) = lp_db st"
  "lp_trace (act es st) = lp_trace st @ map (\<lambda>e. Pass e (lp_db st)) es" "lp_db (act es st) = lp_db st"
  "lp_trace (others f st) = lp_trace st" "lp_db (others f st) = f (lp_db st)"
  by (simp_all add: note_effect_def act_def others_def)

lemma sound_others [simp]: "sound o1 F base (others f st) = sound o1 F base st"
  by (simp add: sound_def)

lemma sound_note:
  "sound o1 F base st \<Longrightarrow> \<not> sends_start e \<Longrightarrow> (\<forall>t. e \<noteq> RecordCleared t) \<Longrightarrow> sound o1 F base (note_effect e st)"
  by (auto simp: sound_def intro!: cleared_append starts_append)

lemma sound_act:
  "sound o1 F base st \<Longrightarrow> (\<And>t. SendStart t \<notin> set es) \<Longrightarrow> sound o1 F base (act es st)"
  unfolding sound_def
  by (auto intro!: cleared_append starts_append elim!: sends_start.elims)

text \<open>The authorization, the interference after it, and the acts of the started pass.\<close>

lemma sound_start_pass:
  assumes S: "sound o1 F base st" and auth: "records_authorization o1 t (lp_db st)" and F: "f \<in> F"
    and es: "es = [] \<or> hd es = SendStart t" "\<And>u. SendStart u \<notin> set (tl es)"
  shows "sound o1 F base (act es (others f (note_effect (RecordAuthorized t (lp_db st)) st)))"
proof -
  let ?st = "others f (note_effect (RecordAuthorized t (lp_db st)) st)"
  have noted: "sound o1 F base ?st" using S by (simp add: sound_note)
  show ?thesis
  proof (cases es)
    case Nil
    with noted show ?thesis by (auto intro: sound_act)
  next
    case (Cons e es')
    with es have e: "e = SendStart t" "\<And>u. SendStart u \<notin> set es'" by auto
    let ?tr = "lp_trace st @ [RecordAuthorized t (lp_db st), Pass (SendStart t) (f (lp_db st))]"
    have "starts_authorized o1 F ?tr" "cleared_after_death ?tr"
      using S auth F by (auto simp: sound_def intro!: starts_sent cleared_append)
    then have "sound o1 F base (act [SendStart t] ?st)" using S by (auto simp: sound_def)
    then have "sound o1 F base (act es' (act [SendStart t] ?st))" using e(2) by (rule sound_act)
    moreover have "act es' (act [SendStart t] ?st) = act es ?st" by (simp add: act_def Cons e(1))
    ultimately show ?thesis by simp
  qed
qed

lemma db_call_trace: "db_call f st = (r, st') \<Longrightarrow> lp_trace st' = lp_trace st"
  by (auto simp: db_call_def split: prod.splits sum.splits)

lemma db_call_sound: "db_call f st = (r, st') \<Longrightarrow> sound o1 F base st \<Longrightarrow> sound o1 F base st'"
  by (simp add: sound_def db_call_trace)

lemma clear_or_throw_sound:
  assumes "clear_or_throw o1 token fault err st = (r, st')" "sound o1 F base st" "death_proved token (lp_trace st)"
  shows "sound o1 F base st'"
proof -
  obtain r1 st1 where d: "db_call (clear_active_execution fault (owner_fence o1 token)) st = (r1, st1)"
    by fastforce
  have s1: "sound o1 F base st1" "lp_trace st1 = lp_trace st"
    using db_call_sound[OF d assms(2)] db_call_trace[OF d] .
  have "sound o1 F base (note_effect (RecordCleared token) st1)"
    using s1 assms(3) starts_append[of o1 F "lp_trace st" "[RecordCleared token]"]
    by (auto simp: sound_def intro!: cleared_snoc)
  then show ?thesis
    using assms(1) d s1 by (auto simp: clear_or_throw_def split: sum.splits bool.splits)
qed

lemma recover_sound:
  assumes "recover_prior_execution o1 s st = (r, st')" "sound o1 F base st"
  shows "sound o1 F base st'"
proof -
  have dead: "death_proved (ae_token e) (lp_trace (others f (act [TerminateBoundary e None] st)))" for e f
    by (rule death_terminated[where db = "lp_db st"]) simp
  have act1: "sound o1 F base (act [TerminateBoundary e r] st)" for e r
    using assms(2) by (rule sound_act) simp
  show ?thesis
    using assms(1) act1 assms(2) dead
    by (auto simp: recover_prior_execution_def Let_def
        dest!: clear_or_throw_sound split: sum.splits option.splits)
qed

lemma terminate_call_sound:
  assumes "terminate_call p outcome f st = (r, st')" "sound o1 F base st"
  shows "sound o1 F base st'" "r = Inr () \<Longrightarrow> death_proved (pp_executionToken p) (lp_trace st')"
proof -
  have act1: "sound o1 F base (act [TerminateBoundary e r] st)" for e r
    using assms(2) by (rule sound_act) simp
  show "sound o1 F base st'"
    using assms(1) act1
    by (auto simp: terminate_call_def terminate_prepared_def split: option.splits sum.splits)
  show "r = Inr () \<Longrightarrow> death_proved (pp_executionToken p) (lp_trace st')"
    using assms(1) death_terminated[of "as_boundary_record p" "lp_db st" "lp_trace st'"]
    by (auto simp: terminate_call_def terminate_prepared_def split: option.splits sum.splits)
qed


lemma authorize_records:
  assumes "db_call (authorize_active_execution_start fault o2) st = (Inr True, st')"
  shows "\<exists>s e. read_state (lp_db st') = Inr s \<and> owned_by s (fe_ownerToken o2) (fe_ownerPid o2) \<and>
     activeExecution s = Some e \<and> ae_token e = fe_executionToken o2 \<and> ae_state e = START_AUTHORIZED"
proof -
  obtain db' where a: "authorize_active_execution_start fault o2 (lp_db st) = (Inr True, db')"
    and db': "lp_db st' = db'"
    using assms by (auto simp: db_call_def split: prod.splits sum.splits)
  then have t: "authorize_transaction o2 (lp_db st) = (Inr True, db')"
    by (auto simp: authorize_active_execution_start_def run_reconciler_transaction_def
        split: if_splits prod.splits sum.splits)
  then obtain s where "read_state (lp_db st) = Inr s"
    by (auto simp: authorize_transaction_def split: sum.splits)
  then have v: "valid_state s" "lp_db st = [encode_state s]" by (simp_all add: read_state_iff)
  then obtain e where e: "owned_by s (fe_ownerToken o2) (fe_ownerPid o2)" "activeExecution s = Some e"
    "ae_token e = fe_executionToken o2"
    "db' = [encode_state (s\<lparr>activeExecution := Some (e\<lparr>ae_state := START_AUTHORIZED\<rparr>)\<rparr>)]"
    using t authorize_transaction_refines[OF v(1), of o2]
    by (auto split: if_splits option.splits)
  have "valid_state (s\<lparr>activeExecution := Some (e\<lparr>ae_state := START_AUTHORIZED\<rparr>)\<rparr>)"
    using v(1) e(2) by (rule valid_authorize)
  with e db' show ?thesis
    by (intro exI[of _ "s\<lparr>activeExecution := Some (e\<lparr>ae_state := START_AUTHORIZED\<rparr>)\<rparr>"]
        exI[of _ "e\<lparr>ae_state := START_AUTHORIZED\<rparr>"]) (simp add: owned_by_def)
qed

lemma authorized_part_sound:
  assumes run: "authorized_part o1 s p st = (r, reg, st')" and S: "sound o1 F base st"
    and tok: "pp_executionToken p = sc_token s" and F: "sc_dbBeforeStart s \<in> F"
  shows "sound o1 F base st'"
proof -
  obtain r1 st1 where d: "db_call (authorize_active_execution_start (sc_authorizeFault s)
      (owner_fence o1 (sc_token s))) st = (r1, st1)" by fastforce
  have S1: "sound o1 F base st1" using db_call_sound[OF d S] .
  show ?thesis
  proof (cases "r1 = Inr True")
    case False
    with run d S1 show ?thesis by (auto simp: authorized_part_def split: sum.splits bool.splits)
  next
    case True
    let ?st2 = "others (sc_dbBeforeStart s) (note_effect (RecordAuthorized (sc_token s) (lp_db st1)) st1)"
    obtain r2 es where sp: "start_pass False p (sc_start s) = (r2, es)" by fastforce
    let ?st3 = "others (sc_dbWhileRunning s) (act es ?st2)"
    have S3: "sound o1 F base ?st3"
      using S1 authorize_records[of "sc_authorizeFault s" "owner_fence o1 (sc_token s)" st st1] d True
        start_pass_shape[OF sp] tok F
      by (auto intro!: sound_start_pass simp: owner_fence_def records_authorization_def)
    show ?thesis
    proof (cases r2)
      case (Inl e)
      with run d True sp S3 show ?thesis by (auto simp: authorized_part_def Let_def)
    next
      case (Inr pass)
      have "GroupSeenDead (sc_token s) (pp_groupId p) \<in> set es"
        using start_returns_dead(2)[of False p "sc_start s" pass es] sp Inr tok by simp
      then have "death_proved (sc_token s) (lp_trace ?st3)"
        by (intro death_seen[of _ "pp_groupId p" "lp_db ?st2"]) simp
      with run d True sp Inr S3 show ?thesis
        by (auto simp: authorized_part_def Let_def dest: clear_or_throw_sound split: sum.splits prod.splits)
    qed
  qed
qed

lemma registered_part_sound:
  assumes run: "registered_part o1 s p st = (r, reg, st')" and S: "sound o1 F base st"
    and tok: "pp_executionToken p = sc_token s" and F: "sc_dbBeforeStart s \<in> F"
  shows "sound o1 F base st'"
proof (cases "sc_abortedAtRegistered s")
  case False
  with run S tok F show ?thesis by (auto simp: registered_part_def dest: authorized_part_sound)
next
  case True
  obtain r1 st1 where t: "terminate_call p (sc_terminateCancelled s) (sc_dbWhileCancelling s) st = (r1, st1)"
    by fastforce
  note T = terminate_call_sound[OF t S]
  show ?thesis
    using run True t T tok
    by (auto simp: registered_part_def dest: clear_or_throw_sound split: sum.splits prod.splits)
qed

lemma prepared_part_sound:
  assumes run: "prepared_part o1 s g p st = (r, reg, st')" and S: "sound o1 F base st"
    and tok: "pp_executionToken p = sc_token s" and F: "sc_dbBeforeStart s \<in> F"
  shows "sound o1 F base st'"
proof (cases "sc_abortedAtPrepared s")
  case True
  with run S show ?thesis
    by (auto simp: prepared_part_def dest: terminate_call_sound(1) split: sum.splits prod.splits)
next
  case False
  obtain r1 st1 where d: "db_call (register_active_execution (sc_registerFault s)
                (execution_options o1 g p (sc_token s))) st = (r1, st1)" by fastforce
  have "sound o1 F base st1" using db_call_sound[OF d S] .
  then have "sound o1 F base (others (sc_dbAtBarrier s) (note_effect (RecordRegistered (sc_token s)) st1))"
    by (simp add: sound_note)
  with run False d \<open>sound o1 F base st1\<close> tok F show ?thesis
    by (auto simp: prepared_part_def dest: registered_part_sound split: sum.splits)
qed

lemma cleanup_part_sound:
  assumes run: "cleanup_part o1 s p err reg st = (e, st')" and S: "sound o1 F base st"
    and tok: "pp_executionToken p = sc_token s"
  shows "sound o1 F base st'"
proof -
  obtain r1 st1 where t: "terminate_call p (sc_terminateCleanup s) (sc_dbWhileCleaning s) st = (r1, st1)"
    by fastforce
  note T = terminate_call_sound[OF t S]
  obtain r2 st2 where c: "clear_or_throw o1 (sc_token s) (sc_cleanupFault s) CleanupFenced st1 = (r2, st2)"
    by fastforce
  have "r1 = Inr () \<Longrightarrow> sound o1 F base st2" using clear_or_throw_sound[OF c] T tok by simp
  then show ?thesis
    using run t T c
    by (auto simp: cleanup_part_def intro!: sound_note split: sum.splits if_splits)
qed

lemma run_one_pass_sound:
  assumes run: "run_one_pass o1 s g st = (r, st')" and S: "sound o1 F base st"
    and F: "sc_dbBeforeStart s \<in> F"
  shows "sound o1 F base st'"
proof -
  obtain r1 es where p: "prepare_supervisor_pass (sc_token s) (sc_prepare s) = (r1, es)" by fastforce
  let ?st1 = "others (sc_dbWhilePreparing s) (act es st)"
  have S1: "sound o1 F base ?st1"
    using S prepare_no_start[OF p] by (auto intro!: sound_act)
  show ?thesis
  proof (cases r1)
    case (Inl e)
    with run p S1 show ?thesis by (auto simp: run_one_pass_def Let_def)
  next
    case (Inr p1)
    have tok: "pp_executionToken p1 = sc_token s" using prepare_fields(1) p Inr by blast
    obtain r2 reg st2 where q: "prepared_part o1 s g p1 ?st1 = (r2, reg, st2)" by (metis prod_cases3)
    have S2: "sound o1 F base st2" using prepared_part_sound[OF q S1 tok F] .
    have "sound o1 F base (snd (cleanup_part o1 s p1 e reg st2))" for e
      by (rule cleanup_part_sound[OF prod.collapse[symmetric] S2 tok])
    with run p Inr q S2 show ?thesis
      by (auto simp: run_one_pass_def Let_def case_prod_beta split: sum.splits)
  qed
qed

lemma run_passes_sound:
  "run_passes o1 scripts g st = (r, st') \<Longrightarrow> sound o1 F base st \<Longrightarrow>
     sc_dbBeforeStart ` set scripts \<subseteq> F \<Longrightarrow> sound o1 F base st'"
proof (induction scripts arbitrary: g st r st')
  case Nil
  then show ?case by simp
next
  case (Cons s scripts)
  obtain r1 st1 where p: "run_one_pass o1 s g st = (r1, st1)" by fastforce
  have S1: "sound o1 F base st1" using run_one_pass_sound[OF p Cons.prems(2)] Cons.prems(3) by simp
  show ?case
  proof (cases "\<exists>pass. r1 = Inr pass \<and> \<not> aborted_after_pass s")
    case False
    with Cons.prems(1) p S1 show ?thesis by (auto split: sum.splits)
  next
    case True
    then obtain pass where pass: "r1 = Inr pass" "\<not> aborted_after_pass s" by blast
    obtain r2 st2 where f: "db_call (finish_reconciliation_pass (sc_finishFault s)
        (finish_options_of o1 g (sc_finishNow s) (pass_succeeded pass)))
        (others (sc_dbBeforeFinish s) st1) = (r2, st2)" by fastforce
    have S2: "sound o1 F base st2" using db_call_sound[OF f] S1 by simp
    then have S3: "sound o1 F base (note_effect (PassFinished g ok finish) st2)" for ok finish
      by (simp add: sound_note)
    show ?thesis
      using Cons.prems(1,3) p pass f S2 S3 Cons.IH[OF _ S3]
      by (auto simp: Let_def split: sum.splits finish_result.splits)
  qed
qed

lemma run_preparations_sound:
  "run_preparations o1 scripts g st = (r, st') \<Longrightarrow> sound o1 F base st \<Longrightarrow> sound o1 F base st'"
proof (induction scripts arbitrary: g st r st')
  case Nil
  then show ?case by simp
next
  case (Cons s scripts)
  have S1: "sound o1 F base (others (pn_db s) st)" using Cons.prems(2) by simp
  obtain r2 st2 where f: "db_call (finish_reconciliation_pass (pn_finishFault s)
        (finish_options_of o1 g (pn_finishNow s) False)) (others (pn_db s) st) = (r2, st2)" by fastforce
  have S2: "sound o1 F base st2" using db_call_sound[OF f S1] .
  then have S3: "sound o1 F base (note_effect (PreparationFinished g finish) st2)" for finish
    by (simp add: sound_note)
  show ?case
    using Cons.prems(1) f S1 S2 S3 Cons.IH[OF _ S3]
    by (auto simp: Let_def split: sum.splits finish_result.splits if_splits)
qed

lemma run_owned_sound:
  assumes "run_owned_reconciliation o1 s g st = (r, st')" "sound o1 F base st"
    and "sc_dbBeforeStart ` set (os_passes s) \<subseteq> F"
  shows "sound o1 F base st'"
proof -
  obtain r1 st1 where rec: "recover_prior_execution o1 (os_recovery s) st = (r1, st1)" by fastforce
  note S1 = recover_sound[OF rec assms(2)]
  show ?thesis
    using assms(1,3) rec S1
    by (auto simp: run_owned_reconciliation_def dest: run_passes_sound run_preparations_sound
        split: sum.splits option.splits prod.splits if_splits)
qed


lemma sound_start: "sound o1 F [] \<lparr>lp_db = db, lp_trace = []\<rparr>"
  by (simp add: sound_def starts_authorized_def cleared_after_death_def)

text \<open>C4. The owner's loop never starts Git work that is not durably authorized, and never forgets an
  execution that may be alive. Whatever other processes commit to the table at any await and between
  any two transactions, whatever fails and however long the loop runs: each START it sends is the
  very next act after a committed authorization, under which the table recorded exactly that
  execution, of this owner, as START_AUTHORIZED; the table at the moment of START is what the commits
  of other processes in that window made of it, so if their commits keep a recorded authorization
  (they are fenced by the owner), it is still recorded when START is sent; and each durable record
  the loop clears is cleared only after the process group of that execution was proved dead.\<close>

theorem owned_loop_fences_git_work:
  assumes "run_owned_reconciliation o1 s g \<lparr>lp_db = db, lp_trace = []\<rparr> = (r, st')"
  shows "(\<forall>i t d. i < length (lp_trace st') \<and> lp_trace st' ! i = Pass (SendStart t) d \<longrightarrow>
      (\<exists>d0 p. 0 < i \<and> lp_trace st' ! (i - 1) = RecordAuthorized t d0 \<and> records_authorization o1 t d0 \<and>
         p \<in> set (os_passes s) \<and> d = sc_dbBeforeStart p d0) \<and>
      ((\<forall>p \<in> set (os_passes s). \<forall>u d1. records_authorization o1 u d1 \<longrightarrow>
           records_authorization o1 u (sc_dbBeforeStart p d1)) \<longrightarrow> records_authorization o1 t d)) \<and>
    cleared_after_death (lp_trace st')"
proof -
  have S: "sound o1 (sc_dbBeforeStart ` set (os_passes s)) [] st'"
    using run_owned_sound[OF assms sound_start subset_refl] .
  then have C: "cleared_after_death (lp_trace st')" by (simp add: sound_def)
  have "\<exists>d0 p. 0 < i \<and> lp_trace st' ! (i - 1) = RecordAuthorized t d0 \<and> records_authorization o1 t d0 \<and>
      p \<in> set (os_passes s) \<and> d = sc_dbBeforeStart p d0"
    if "i < length (lp_trace st')" "lp_trace st' ! i = Pass (SendStart t) d" for i t d
    using S that unfolding sound_def starts_authorized_def by blast
  with C show ?thesis by blast
qed

text \<open>The prior execution comes first.\<close>

lemma clear_or_throw_returns:
  "clear_or_throw o1 token fault err st = (Inr (), st') \<Longrightarrow>
     lp_trace st' = lp_trace st @ [RecordCleared token]"
  by (auto simp: clear_or_throw_def dest: db_call_trace split: sum.splits prod.splits bool.splits)

lemma clear_or_throw_fails:
  "clear_or_throw o1 token fault err st = (Inl e, st') \<Longrightarrow> lp_trace st' = lp_trace st"
  by (auto simp: clear_or_throw_def dest: db_call_trace split: sum.splits prod.splits bool.splits)

lemma recover_returns:
  assumes "recover_prior_execution o1 s st = (Inr u, st')"
    "read_state (lp_db st) = Inr state" "activeExecution state = Some e"
  shows "lp_trace st' = lp_trace st @ [Pass (TerminateBoundary e None) (lp_db st), RecordCleared (ae_token e)]"
  using assms
  by (auto simp: recover_prior_execution_def Let_def dest!: clear_or_throw_returns split: option.splits)

lemma recover_fails:
  assumes "recover_prior_execution o1 s st = (Inl err, st')"
  shows "\<exists>tr. lp_trace st' = lp_trace st @ tr \<and> length tr \<le> 1 \<and> (\<forall>d. Pass SpawnController d \<notin> set tr)"
  using assms
  by (auto simp: recover_prior_execution_def Let_def dest!: clear_or_throw_fails
      split: option.splits sum.splits)

text \<open>C24. Recovery gates new work. When the table still records an execution of a previous owner, the
  loop spawns no controller before it has terminated exactly that boundary and cleared its record:
  if the termination or the fenced clear fails, the loop ends with the error and has spawned nothing.\<close>

theorem recovery_gates_new_work:
  assumes run: "run_owned_reconciliation o1 s g \<lparr>lp_db = db, lp_trace = []\<rparr> = (r, st')"
    and prior: "read_state db = Inr state" "activeExecution state = Some e"
  shows "(\<exists>tr. lp_trace st' = Pass (TerminateBoundary e None) db # RecordCleared (ae_token e) # tr) \<or>
    ((\<exists>err. r = Some (Inl err)) \<and> (\<forall>d. Pass SpawnController d \<notin> set (lp_trace st')))"
proof -
  let ?st = "\<lparr>lp_db = db, lp_trace = []\<rparr>"
  obtain r1 st1 where rec: "recover_prior_execution o1 (os_recovery s) ?st = (r1, st1)" by fastforce
  show ?thesis
  proof (cases r1)
    case (Inl err)
    with recover_fails[of o1 "os_recovery s" ?st err st1] rec run show ?thesis
      by (auto simp: run_owned_reconciliation_def)
  next
    case (Inr u)
    have t1: "lp_trace st1 = [Pass (TerminateBoundary e None) db, RecordCleared (ae_token e)]"
      using recover_returns[OF rec[unfolded Inr]] prior by simp
    have S1: "sound o1 UNIV (lp_trace st1) st1"
      using recover_sound[OF rec sound_start, of UNIV] by (simp add: sound_def)
    have "sound o1 UNIV (lp_trace st1) st'"
      using run rec Inr S1
      by (auto simp: run_owned_reconciliation_def
          dest: run_passes_sound[OF _ _ subset_UNIV] run_preparations_sound
          split: sum.splits option.splits prod.splits if_splits)
    then show ?thesis using t1 by (auto simp: sound_def)
  qed
qed

subsection \<open>An undisturbed pass\<close>

text \<open>No cancellation, no failure and no commit of another process during the pass.\<close>

definition undisturbed :: "pass_script \<Rightarrow> bool" where
  "undisturbed s \<longleftrightarrow> sc_dbWhilePreparing s = id \<and> sc_dbAtBarrier s = id \<and> sc_dbBeforeStart s = id \<and>
     sc_dbWhileRunning s = id \<and> sc_dbBeforeFinish s = id \<and> \<not> aborted_after_pass s \<and> sc_registerFault s = TxOk \<and> sc_authorizeFault s = TxOk \<and>
     sc_clearFault s = TxOk \<and> sc_finishFault s = TxOk \<and>
     is_safe_integer (sc_finishNow s) \<and> 0 \<le> sc_finishNow s"

lemma start_identity_sound:
  "read_process_start_identity os pid = Some i \<Longrightarrow> is_safe_integer pid \<and> 0 < pid \<and> \<not> is_blank i"
  by (auto simp: read_process_start_identity_def Let_def is_blank_iff is_js_whitespace_def
      split: if_splits option.splits)

lemma prepared_options_ok:
  assumes p: "prepare_supervisor_pass (sc_token s) (sc_prepare s) = (Inr p, es)"
    and v: "valid_state st" "owned_by st (oo_ownerToken o1) (oo_ownerPid o1)"
      "runningGeneration st = Some g"
  shows "assert_execution_options (execution_options o1 g p (sc_token s)) = None"
proof -
  have id: "read_process_start_identity (ps_osAtReady (sc_prepare s)) (pp_pid p) = Some (pp_processIdentity p)"
    "pp_groupId p = pp_pid p"
    using preparation_verifies_boundary[OF p] by auto
  have "0 \<le> completedGeneration st" "valid_owner st g" using v by (auto simp: valid_state_def)
  then show ?thesis
    using start_identity_sound[OF id(1)] id(2) prepare_fields(3)[OF p] v
    by (auto simp: assert_execution_options_def execution_options_def require_non_empty_def
        require_positive_def valid_owner_def owned_by_def is_non_empty_def is_positive_integer_def
        valid_state_def is_safe_integer_def)
qed


lemma run_tx_ok: "run_reconciler_transaction TxOk operation db =
    (case operation db of (Inl e, _) \<Rightarrow> (Inl e, db) | (Inr v, db') \<Rightarrow> (Inr v, db'))"
  by (auto simp: run_reconciler_transaction_def split: prod.splits sum.splits)

text \<open>The executions an undisturbed pass leaves in the table, step by step.\<close>

definition pass_registered :: "owned_options \<Rightarrow> int \<Rightarrow> prepared_execution \<Rightarrow> string \<Rightarrow> active_execution" where
  "pass_registered o1 g p token = registered_execution (execution_options o1 g p token)"

lemma undisturbed_body:
  assumes v: "valid_state st" "owned_by st (oo_ownerToken o1) (oo_ownerPid o1)"
      "runningGeneration st = Some g" "activeExecution st = None"
    and p: "prepare_supervisor_pass (sc_token s) (sc_prepare s) = (Inr p, es0)"
    and q: "start_pass False p (sc_start s) = (Inr pass, es)"
    and u: "undisturbed s"
  shows "\<exists>tr'. prepared_part o1 s g p \<lparr>lp_db = [encode_state st], lp_trace = tr\<rparr> =
    (Inr pass, False, \<lparr>lp_db = [encode_state st], lp_trace = tr'\<rparr>)"
proof -
  let ?o = "execution_options o1 g p (sc_token s)"
  let ?e = "registered_execution ?o"
  let ?st1 = "st\<lparr>activeExecution := Some ?e\<rparr>"
  let ?st2 = "st\<lparr>activeExecution := Some (?e\<lparr>ae_state := START_AUTHORIZED\<rparr>)\<rparr>"
  have ok: "assert_execution_options ?o = None" using prepared_options_ok[OF p v(1-3)] .
  have v1: "valid_state ?st1" using v ok by (intro valid_register) (simp_all add: execution_options_def)
  then have v2: "valid_state ?st2" using valid_authorize[OF v1, of ?e] by simp
  have o1: "owned_by ?st1 (oo_ownerToken o1) (oo_ownerPid o1)" "owned_by ?st2 (oo_ownerToken o1) (oo_ownerPid o1)"
    using v(2) by (simp_all add: owned_by_def)
  have same: "st\<lparr>activeExecution := None\<rparr> = st" using v(4) by simp
  have reg: "register_active_execution TxOk ?o [encode_state st] = (Inr ?e, [encode_state ?st1])"
    using ok v register_execution_transaction_refines[OF v(1) ok]
    by (simp add: register_active_execution_def run_tx_ok execution_options_def)
  have auth: "authorize_active_execution_start TxOk (owner_fence o1 (sc_token s)) [encode_state ?st1]
      = (Inr True, [encode_state ?st2])"
    using authorize_transaction_refines[OF v1, of "owner_fence o1 (sc_token s)"] o1
    by (simp add: authorize_active_execution_start_def run_tx_ok owner_fence_def registered_execution_def
        execution_options_def)
  have clear: "clear_active_execution TxOk (owner_fence o1 (sc_token s)) [encode_state ?st2]
      = (Inr True, [encode_state st])"
    using clear_transaction_refines[OF v2, of "owner_fence o1 (sc_token s)"] o1 same
    by (simp add: clear_active_execution_def run_tx_ok owner_fence_def registered_execution_def
        execution_options_def)
  have u': "sc_dbAtBarrier s = id" "sc_dbBeforeStart s = id" "sc_dbWhileRunning s = id" "\<not> sc_abortedAtPrepared s"
    "\<not> sc_abortedAtRegistered s" "sc_registerFault s = TxOk" "sc_authorizeFault s = TxOk" "sc_clearFault s = TxOk"
    using u by (auto simp: undisturbed_def aborted_after_pass_def)
  show ?thesis
    by (simp add: prepared_part_def registered_part_def authorized_part_def clear_or_throw_def db_call_def
        u' reg auth clear q note_effect_def act_def others_def)
qed

text \<open>An undisturbed pass refines the abstract step of the coordinator. When no other process writes
  and nothing fails, the pass leaves the record valid and without an active execution, credits
  generation \<open>g\<close> exactly when the supervisor succeeded, and either goes on with the newest
  requested generation or leaves the coordinator idle and returns the exit code of the pass.\<close>

theorem undisturbed_pass_step:
  assumes v: "valid_state st" "owned_by st (oo_ownerToken o1) (oo_ownerPid o1)"
      "runningGeneration st = Some g" "activeExecution st = None"
    and p: "prepare_supervisor_pass (sc_token s) (sc_prepare s) = (Inr p, es0)"
    and q: "start_pass False p (sc_start s) = (Inr pass, es)"
    and u: "undisturbed s"
    and c: "completed = (if pass_succeeded pass then g else completedGeneration st)"
  shows "\<exists>tr'. run_passes o1 (s # rest) g \<lparr>lp_db = [encode_state st], lp_trace = tr\<rparr> =
    (if g < requestedGeneration st
     then run_passes o1 rest (requestedGeneration st)
            \<lparr>lp_db = [encode_state (advance_state completed (sc_finishNow s) st)], lp_trace = tr'\<rparr>
     else (Some (Inr \<lparr>or_exitCode = (if pass_succeeded pass then 0 else nullish (pr_exitCode pass) 1),
                      or_cancelled = False\<rparr>),
           \<lparr>lp_db = [encode_state (idle_state completed st)], lp_trace = tr'\<rparr>))"
proof -
  have u': "sc_dbWhilePreparing s = id" "sc_dbBeforeFinish s = id" "sc_finishFault s = TxOk" "\<not> aborted_after_pass s"
    using u by (auto simp: undisturbed_def)
  obtain tr1 where body: "prepared_part o1 s g p
      \<lparr>lp_db = [encode_state st], lp_trace = tr @ map (\<lambda>e. Pass e [encode_state st]) es0\<rparr> =
    (Inr pass, False, \<lparr>lp_db = [encode_state st], lp_trace = tr1\<rparr>)"
    using undisturbed_body[OF v p q u] by blast
  then have one: "run_one_pass o1 s g \<lparr>lp_db = [encode_state st], lp_trace = tr\<rparr> =
    (Inr pass, \<lparr>lp_db = [encode_state st], lp_trace = tr1\<rparr>)"
    using p u' by (simp add: run_one_pass_def act_def others_def)
  let ?success = "pass_succeeded pass"
  let ?finish = "if g < requestedGeneration st
    then Continue (requestedGeneration st) completed ?success
    else if ?success then StopSuccess completed else StopFailed completed"
  let ?st = "if g < requestedGeneration st then advance_state completed (sc_finishNow s) st
    else idle_state completed st"
  have "finish_reconciliation_pass TxOk (finish_options_of o1 g (sc_finishNow s) ?success) [encode_state st]
      = (Inr ?finish, [encode_state ?st])"
    using v(2-4) c by (simp add: finish_reconciliation_pass_def run_tx_ok Let_def finish_options_of_def
        finish_transaction_refines[OF v(1)])
  then have "db_call (finish_reconciliation_pass TxOk (finish_options_of o1 g (sc_finishNow s) ?success))
      \<lparr>lp_db = [encode_state st], lp_trace = tr1\<rparr> =
      (Inr ?finish, \<lparr>lp_db = [encode_state ?st], lp_trace = tr1\<rparr>)"
    by (simp add: db_call_def)
  with one u' show ?thesis
    by (intro exI[of _ "tr1 @ [PassFinished g ?success ?finish]"])
      (simp add: Let_def note_effect_def others_def)
qed


subsection \<open>When safety cannot be proved\<close>

lemma prepared_part_error_keeps:
  assumes "prepared_part o1 s g p st = (Inl e, reg, st')" "RecordCleared t \<in> set (lp_trace st')"
  shows "RecordCleared t \<in> set (lp_trace st)"
  using assms
  by (auto simp: prepared_part_def registered_part_def authorized_part_def terminate_call_def Let_def
      dest!: db_call_trace clear_or_throw_fails split: if_splits sum.splits prod.splits bool.splits)

lemma cleanup_error_keeps:
  assumes "cleanup_part o1 s p err reg st = (BoundaryNotProvenSafe a b, st')" "err \<noteq> BoundaryNotProvenSafe a b"
  shows "last (lp_trace st') = IpcDisconnected"
    "RecordCleared t \<in> set (lp_trace st') \<Longrightarrow> RecordCleared t \<in> set (lp_trace st)"
  using assms
  by (auto simp: cleanup_part_def terminate_call_def dest!: clear_or_throw_fails
      split: sum.splits prod.splits if_splits)

lemma prepared_part_error_kind:
  "prepared_part o1 s g p st = (Inl e, reg, st') \<Longrightarrow> e \<noteq> BoundaryNotProvenSafe a b"
  by (auto simp: prepared_part_def registered_part_def authorized_part_def terminate_call_def Let_def
      clear_or_throw_def db_call_def split: if_splits sum.splits prod.splits bool.splits)

text \<open>When a pass fails and its boundary cannot be proved dead and cleared, its durable record is
  preserved: the pass ends with the error that says so, drops the IPC channel as its last act, and has
  cleared no record, so the next owner finds the execution.\<close>

theorem unproven_boundary_keeps_record:
  assumes run: "run_one_pass o1 s g st = (Inl (BoundaryNotProvenSafe a b), st')"
  shows "last (lp_trace st') = IpcDisconnected \<and>
    (\<forall>t. RecordCleared t \<in> set (lp_trace st') \<longrightarrow> RecordCleared t \<in> set (lp_trace st))"
proof -
  obtain r es where p: "prepare_supervisor_pass (sc_token s) (sc_prepare s) = (r, es)" by fastforce
  let ?st1 = "others (sc_dbWhilePreparing s) (act es st)"
  obtain p1 where r: "r = Inr p1" using run p by (cases r) (auto simp: run_one_pass_def Let_def)
  obtain r2 reg st2 where q: "prepared_part o1 s g p1 ?st1 = (r2, reg, st2)" by (metis prod_cases3)
  with run p r obtain e where e: "r2 = Inl e"
    "cleanup_part o1 s p1 e reg st2 = (BoundaryNotProvenSafe a b, st')"
    by (auto simp: run_one_pass_def Let_def split: sum.splits prod.splits)
  have ne: "e \<noteq> BoundaryNotProvenSafe a b" using prepared_part_error_kind q e(1) by blast
  have "RecordCleared t \<in> set (lp_trace st)" if "RecordCleared t \<in> set (lp_trace st')" for t
    using prepared_part_error_keeps[OF q[unfolded e(1)] cleanup_error_keeps(2)[OF e(2) ne that]] by auto
  then show ?thesis using cleanup_error_keeps(1)[OF e(2) ne] by blast
qed

subsection \<open>Concrete passes\<close>

definition sample_owner :: owned_options where
  "sample_owner = \<lparr>oo_ownerToken = ''t1'', oo_ownerPid = 10\<rparr>"

definition sample_start_script :: "int option \<Rightarrow> string option \<Rightarrow> start_script" where
  "sample_start_script code sig = \<lparr>ss_sendFails = False, ss_aborted = False, ss_terminate = None,
     ss_close = (code, sig), ss_messages = [encode_controller (Result ''e1'' (Some 0) None None)],
     ss_osAtClose = dead_os\<rparr>"

definition sample_pass_script :: pass_script where
  "sample_pass_script = \<lparr>sc_token = ''e1'', sc_prepare = sample_prepare_script,
     sc_dbWhilePreparing = id, sc_abortedAtPrepared = False, sc_terminateCancelled = None,
     sc_dbWhileCancelling = id, sc_registerFault = TxOk, sc_dbAtBarrier = id,
     sc_abortedAtRegistered = False, sc_authorizeFault = TxOk,
     sc_dbBeforeStart = id,
     sc_start = sample_start_script (Some 0) None, sc_dbWhileRunning = id, sc_clearFault = TxOk,
     sc_terminateCleanup = None, sc_dbWhileCleaning = id, sc_cleanupFault = TxOk,
     sc_abortedAfter = False, sc_dbBeforeFinish = id, sc_finishFault = TxOk, sc_finishNow = 5\<rparr>"

definition sample_owned_state :: reconciler_state where
  "sample_owned_state = acquire_state sample_options initial_state"

definition sample_owned_script :: owned_script where
  "sample_owned_script = \<lparr>os_recovery = \<lparr>rs_terminate = None, rs_dbWhileTerminating = id,
     rs_clearFault = TxOk\<rparr>, os_abortedAfterRecovery = False, os_preparations = None,
     os_passes = [sample_pass_script]\<rparr>"

lemma sample_owned_valid: "valid_state sample_owned_state"
  by code_simp

lemma sample_run:
  "case run_owned_reconciliation sample_owner sample_owned_script 1
        \<lparr>lp_db = [encode_state sample_owned_state], lp_trace = []\<rparr> of (r, st') \<Rightarrow>
     r = Some (Inr \<lparr>or_exitCode = 0, or_cancelled = False\<rparr>) \<and>
     lp_db st' = [encode_state (idle_state 1 sample_owned_state)] \<and> length (lp_trace st') = 8"
  by code_simp


text \<open>A pass during which another launcher's request is coalesced exactly between the committed
  authorization and the START command.\<close>

definition coalesced_meanwhile :: "db \<Rightarrow> db" where
  "coalesced_meanwhile db = map (\<lambda>r. r\<lparr>requested_generation := requested_generation r + 1\<rparr>) db"

definition contended_script :: owned_script where
  "contended_script = sample_owned_script\<lparr>os_passes :=
     [sample_pass_script\<lparr>sc_dbBeforeStart := coalesced_meanwhile\<rparr>]\<rparr>"

definition contended_trace :: "loop_effect list" where
  "contended_trace = lp_trace (snd (run_owned_reconciliation sample_owner contended_script 1
     \<lparr>lp_db = [encode_state sample_owned_state], lp_trace = []\<rparr>))"

fun starts_token :: "string \<Rightarrow> loop_effect \<Rightarrow> bool" where
  "starts_token t (Pass (SendStart u) d) = (u = t)"
| "starts_token t _ = False"

lemma contended_starts: "list_ex (starts_token ''e1'') contended_trace"
  by code_simp

theorem owned_loop_fences_git_work_witness:
  "\<exists>i d0. contended_trace ! Suc i = Pass (SendStart ''e1'') (coalesced_meanwhile d0) \<and>
     contended_trace ! i = RecordAuthorized ''e1'' d0 \<and> records_authorization sample_owner ''e1'' d0 \<and>
     coalesced_meanwhile d0 \<noteq> d0 \<and> cleared_after_death contended_trace"
proof -
  obtain i d where i: "i < length contended_trace" "contended_trace ! i = Pass (SendStart ''e1'') d"
    using contended_starts by (auto simp: list_ex_iff in_set_conv_nth elim!: starts_token.elims)
  note fenced = owned_loop_fences_git_work[OF prod.collapse[symmetric], of sample_owner
      contended_script 1 "[encode_state sample_owned_state]", folded contended_trace_def]
  have f: "sc_dbBeforeStart p = coalesced_meanwhile" if "p \<in> set (os_passes contended_script)" for p
    using that by (simp add: contended_script_def)
  from fenced i f obtain d0 where d0: "0 < i" "contended_trace ! (i - 1) = RecordAuthorized ''e1'' d0"
    "records_authorization sample_owner ''e1'' d0" "d = coalesced_meanwhile d0" by metis
  from d0(3) obtain st where "d0 = [encode_state st]"
    by (auto simp: records_authorization_def read_state_iff)
  then have "coalesced_meanwhile d0 \<noteq> d0"
    by (auto simp: coalesced_meanwhile_def dest: arg_cong[where f = requested_generation])
  with d0 i fenced show ?thesis by (intro exI[of _ "i - 1"] exI[of _ d0]) simp
qed

definition sample_prior_execution :: active_execution where
  "sample_prior_execution = \<lparr>ae_token = ''e0'', ae_generation = 1, ae_pid = 20,
     ae_processIdentity = ''ps-process:Mon'', ae_groupId = 20,
     ae_boundaryKind = POSIX_EXECUTION_BOUNDARY_KIND, ae_ownerToken = ''t0'',
     ae_state = START_AUTHORIZED\<rparr>"

definition sample_orphan_state :: reconciler_state where
  "sample_orphan_state = sample_owned_state\<lparr>requestedGeneration := 2, runningGeneration := Some 2,
     activeExecution := Some sample_prior_execution\<rparr>"

lemma sample_orphan_read: "read_state [encode_state sample_orphan_state] = Inr sample_orphan_state"
proof (rule read_state_encoded)
  show "valid_state sample_orphan_state" by code_simp
qed

lemma sample_orphan_run:
  "fst (run_owned_reconciliation sample_owner sample_owned_script 2
     \<lparr>lp_db = [encode_state sample_orphan_state], lp_trace = []\<rparr>) =
     Some (Inr \<lparr>or_exitCode = 0, or_cancelled = False\<rparr>)"
  by code_simp

theorem recovery_gates_new_work_witness:
  "\<exists>st' tr. run_owned_reconciliation sample_owner sample_owned_script 2
     \<lparr>lp_db = [encode_state sample_orphan_state], lp_trace = []\<rparr> =
       (Some (Inr \<lparr>or_exitCode = 0, or_cancelled = False\<rparr>), st') \<and>
     lp_trace st' = Pass (TerminateBoundary sample_prior_execution None) [encode_state sample_orphan_state]
       # RecordCleared ''e0'' # tr"
proof -
  obtain st' where run: "run_owned_reconciliation sample_owner sample_owned_script 2
     \<lparr>lp_db = [encode_state sample_orphan_state], lp_trace = []\<rparr> =
       (Some (Inr \<lparr>or_exitCode = 0, or_cancelled = False\<rparr>), st')"
    using sample_orphan_run by (metis prod.collapse)
  have "activeExecution sample_orphan_state = Some sample_prior_execution"
    by (simp add: sample_orphan_state_def)
  from recovery_gates_new_work[OF run sample_orphan_read this] run show ?thesis
    by (auto simp: sample_prior_execution_def)
qed

lemma sample_start:
  "start_pass False sample_prepared (sc_start sample_pass_script) =
     (Inr \<lparr>pr_exitCode = Some 0, pr_signal = None, pr_spawnError = None, pr_supervisorPid = None\<rparr>,
      [SendStart ''e1'', GroupSeenDead ''e1'' 20])"
  by code_simp

theorem undisturbed_pass_step_witness:
  "\<exists>tr'. run_passes sample_owner [sample_pass_script] 1
     \<lparr>lp_db = [encode_state sample_owned_state], lp_trace = []\<rparr> =
     (Some (Inr \<lparr>or_exitCode = 0, or_cancelled = False\<rparr>),
      \<lparr>lp_db = [encode_state (idle_state 1 sample_owned_state)], lp_trace = tr'\<rparr>)"
proof -
  have h: "owned_by sample_owned_state (oo_ownerToken sample_owner) (oo_ownerPid sample_owner)"
    "runningGeneration sample_owned_state = Some 1" "activeExecution sample_owned_state = None"
    "requestedGeneration sample_owned_state = 1"
    by code_simp+
  have p: "prepare_supervisor_pass (sc_token sample_pass_script) (sc_prepare sample_pass_script)
      = (Inr sample_prepared, [SpawnController, SendPrepare ''e1''])"
    using sample_preparation by (simp add: sample_pass_script_def)
  have u: "undisturbed sample_pass_script"
    by (simp add: undisturbed_def aborted_after_pass_def sample_pass_script_def sample_start_script_def
        is_safe_integer_def max_safe_integer_def)
  show ?thesis
    using undisturbed_pass_step[OF sample_owned_valid h(1-3) p sample_start u refl, of "[]" "[]"] h(4)
    by (simp add: pass_succeeded_def)
qed

definition sample_lost_script :: pass_script where
  "sample_lost_script = sample_pass_script\<lparr>
     sc_start := (sample_start_script (Some 0) None)\<lparr>ss_aborted := True,
       ss_terminate := Some (AmbiguousIdentity ''e1'')\<rparr>,
     sc_terminateCleanup := Some (AmbiguousIdentity ''e1'')\<rparr>"

lemma sample_lost_run:
  "fst (run_one_pass sample_owner sample_lost_script 1
     \<lparr>lp_db = [encode_state sample_owned_state], lp_trace = []\<rparr>) =
     Inl (BoundaryNotProvenSafe (PassFailure (BoundaryFailure (AmbiguousIdentity ''e1'')))
       (PassFailure (BoundaryFailure (AmbiguousIdentity ''e1''))))"
  by code_simp

theorem unproven_boundary_keeps_record_witness:
  "\<exists>st'. run_one_pass sample_owner sample_lost_script 1
     \<lparr>lp_db = [encode_state sample_owned_state], lp_trace = []\<rparr> =
     (Inl (BoundaryNotProvenSafe (PassFailure (BoundaryFailure (AmbiguousIdentity ''e1'')))
       (PassFailure (BoundaryFailure (AmbiguousIdentity ''e1'')))), st') \<and>
     last (lp_trace st') = IpcDisconnected \<and> (\<forall>t. RecordCleared t \<notin> set (lp_trace st'))"
proof -
  obtain st' where run: "run_one_pass sample_owner sample_lost_script 1
     \<lparr>lp_db = [encode_state sample_owned_state], lp_trace = []\<rparr> =
     (Inl (BoundaryNotProvenSafe (PassFailure (BoundaryFailure (AmbiguousIdentity ''e1'')))
       (PassFailure (BoundaryFailure (AmbiguousIdentity ''e1'')))), st')"
    using sample_lost_run by (metis prod.collapse)
  with unproven_boundary_keeps_record[OF run] show ?thesis by auto
qed

text \<open>A pass whose supervisor reported exit code 0 but whose controller was then killed by a signal
  (its own SIGKILL timer signals the whole group, itself included) is not a success: the generation
  is not credited and the decision is \<^const>\<open>StopFailed\<close>. The loop nevertheless returns exit code 0.\<close>

lemma failed_pass_can_exit_zero:
  "case run_passes sample_owner
       [sample_pass_script\<lparr>sc_start := sample_start_script None (Some ''SIGKILL'')\<rparr>] 1
       \<lparr>lp_db = [encode_state sample_owned_state], lp_trace = []\<rparr> of (r, st') \<Rightarrow>
     r = Some (Inr \<lparr>or_exitCode = 0, or_cancelled = False\<rparr>) \<and>
     last (lp_trace st') = PassFinished 1 False (StopFailed 0)"
  by code_simp

end
