(* ===== verification/Execution_Controller.thy ===== *)
theory Execution_Controller
  imports Control_Protocol Execution_Boundary
begin

text \<open>
  The execution controller, \<open>src/src/entrypoints/execution-controller.ts\<close>: one process, inert until
  START, that owns the process group of one pass. Its local variables are the record
  \<open>controller\<close>; each callback is a function on it that returns the effects it performs. A callback
  that awaits is cut at the \<open>await\<close>: the part before leaves a continuation in \<open>pending\<close>, and the
  event \<open>Resume\<close> runs one of them (in production the awaited test barriers are already
  resolved, but other callbacks may still run in between). \<open>process.exit\<close> ends the process, so
  a completed controller reacts to nothing.
  What the callbacks read from the system is part of the event: the identity and the group of this
  process, the members of its group, the PID of a spawned supervisor.
\<close>

datatype continuation =
    AfterReadyBarrier string string int
  | AfterStartBarrier string
  | AfterStartedBarrier string int
  | AfterDisconnectBarrier

record observation =
  obs_exitCode :: "int option"
  obs_signal :: "string option"
  obs_spawnErrorMessage :: "string option"

record controller =
  executionToken :: "string option"
  supervisorSpawned :: bool
  supervisorObservation :: "observation option"
  spawnErrorMessage :: "string option"
  closeListener :: bool
  terminationStarted :: bool
  completed :: bool
  resultSending :: bool
  connected :: bool
  pending :: "continuation list"

datatype effect =
    Exit int
  | Send controller_message
  | SpawnSupervisor
  | SignalOwnGroup signal_name
  | ArmTimers

text \<open>\<open>listOwnGroupMembers\<close> is \<^const>\<open>None\<close> when the inspection failed.\<close>

type_synonym members = "int list option"

datatype event =
    Message js_value "string option" "int option" members
  | Resume nat "int option" members
  | Disconnected
  | ControllerSignal members
  | SupervisorError string
  | SupervisorClose "int option" "string option" members
  | Poll members
  | ForceTimer
  | ReadySendFailed
  | StartedSendFailed members
  | ResultSendDone

text \<open>\<open>listOwnGroupMembers\<close> on the text that \<open>ps -axo pid=,pgid=\<close> printed: the members of
  this group without \<open>ps\<close> itself, whose PID is \<open>inspectionPid\<close>.\<close>

function js_words :: "string \<Rightarrow> string \<Rightarrow> string list" where
  "js_words acc [] = [rev acc]"
| "js_words acc (c # cs) =
     (if is_js_whitespace c
      then rev acc # js_words [] (dropWhile is_js_whitespace cs)
      else js_words (c # acc) cs)"
  by pat_completeness auto

termination
  by (relation "measure (\<lambda>(acc, s). length s)") (auto simp: le_imp_less_Suc length_dropWhile_le)

definition member_of_line :: "int \<Rightarrow> int \<Rightarrow> string \<Rightarrow> int list" where
  "member_of_line self inspectionPid line =
     (let parts = js_words [] (trim line);
          pid = parse_int (nullish (nth_opt parts 0) []);
          groupId = parse_int (nullish (nth_opt parts 1) [])
      in case pid of
           Some p \<Rightarrow> if groupId = Some self \<and> is_safe_integer p \<and> p > 0 \<and> p \<noteq> inspectionPid
             then [p] else []
         | None \<Rightarrow> [])"

definition list_own_group_members :: "int \<Rightarrow> int \<Rightarrow> string \<Rightarrow> int list" where
  "list_own_group_members self inspectionPid stdout =
     concat (map (member_of_line self inspectionPid) (split_on (CHR 0x0A) stdout))"

definition initial_controller :: controller where
  "initial_controller = \<lparr>executionToken = None, supervisorSpawned = False,
     supervisorObservation = None, spawnErrorMessage = None, closeListener = False,
     terminationStarted = False, completed = False, resultSending = False, connected = True,
     pending = []\<rparr>"

definition exit_controller :: "int \<Rightarrow> controller \<Rightarrow> controller \<times> effect list" where
  "exit_controller code c =
     (if completed c then (c, []) else (c\<lparr>completed := True\<rparr>, [Exit code]))"

definition group_quiescent :: "int \<Rightarrow> members \<Rightarrow> bool" where
  "group_quiescent self ms = (case ms of None \<Rightarrow> False | Some pids \<Rightarrow> \<forall>p \<in> set pids. p = self)"

definition exit_code_of :: "controller \<Rightarrow> int" where
  "exit_code_of c =
     (case supervisorObservation c of None \<Rightarrow> 1 | Some o1 \<Rightarrow> nullish (obs_exitCode o1) 1)"

definition finish_when_quiescent :: "int \<Rightarrow> members \<Rightarrow> controller \<Rightarrow> controller \<times> effect list" where
  "finish_when_quiescent self ms c =
     (if \<not> terminationStarted c \<or> completed c \<or> resultSending c then (c, [])
      else if \<not> group_quiescent self ms then (c, [])
      else case (supervisorObservation c, executionToken c) of
             (Some o1, Some token) \<Rightarrow>
               if connected c then
                 (c\<lparr>resultSending := True\<rparr>,
                  [Send (Result token (obs_exitCode o1) (obs_signal o1) (obs_spawnErrorMessage o1))])
               else exit_controller (exit_code_of c) c
           | _ \<Rightarrow> exit_controller (exit_code_of c) c)"

definition begin_termination :: "int \<Rightarrow> members \<Rightarrow> controller \<Rightarrow> controller \<times> effect list" where
  "begin_termination self ms c =
     (if terminationStarted c \<or> completed c then (c, [])
      else let (c', es) = finish_when_quiescent self ms (c\<lparr>terminationStarted := True\<rparr>)
           in (c', [SignalOwnGroup SIGTERM, ArmTimers] @ es))"

definition on_disconnect :: "controller \<Rightarrow> controller \<times> effect list" where
  "on_disconnect c =
     (let c1 = c\<lparr>connected := False\<rparr>
      in if \<not> supervisorSpawned c1 then exit_controller 0 c1
         else (c1\<lparr>pending := pending c1 @ [AfterDisconnectBarrier]\<rparr>, []))"

definition on_prepare ::
  "int \<Rightarrow> string \<Rightarrow> string option \<Rightarrow> int option \<Rightarrow> controller \<Rightarrow> controller \<times> effect list" where
  "on_prepare self token ident groupId c =
     (if executionToken c \<noteq> None \<or> supervisorSpawned c then exit_controller 2 c
      else let c1 = c\<lparr>executionToken := Some token\<rparr>
      in case ident of
           None \<Rightarrow> exit_controller 2 c1
         | Some i \<Rightarrow>
             if groupId \<noteq> Some self then exit_controller 2 c1
             else (c1\<lparr>pending := pending c1 @ [AfterReadyBarrier token i self]\<rparr>, []))"

definition on_start :: "string \<Rightarrow> controller \<Rightarrow> controller \<times> effect list" where
  "on_start token c =
     (if executionToken c = None \<or> Some token \<noteq> executionToken c
       \<or> supervisorSpawned c \<or> terminationStarted c then exit_controller 2 c
      else (c\<lparr>pending := pending c @ [AfterStartBarrier token]\<rparr>, []))"

text \<open>An unparsable message: \<open>exitController(2)\<close> before START, termination of the group after it.
  The members are read only in the second case.\<close>

definition on_message ::
  "int \<Rightarrow> js_value \<Rightarrow> string option \<Rightarrow> int option \<Rightarrow> members \<Rightarrow> controller
     \<Rightarrow> controller \<times> effect list" where
  "on_message self raw ident groupId ms c =
     (case parse_launcher_execution_message raw of
        None \<Rightarrow> if \<not> supervisorSpawned c then exit_controller 2 c else begin_termination self ms c
      | Some (Prepare token) \<Rightarrow> on_prepare self token ident groupId c
      | Some (Start token) \<Rightarrow> on_start token c)"

text \<open>\<open>sendMessage\<close> with the IPC channel closed completes at once with an error.\<close>

definition send_started ::
  "int \<Rightarrow> members \<Rightarrow> string \<Rightarrow> int \<Rightarrow> controller \<Rightarrow> controller \<times> effect list" where
  "send_started self ms token pid c =
     (if connected c then (c, [Send (Started token pid)]) else begin_termination self ms c)"

definition run_continuation ::
  "int \<Rightarrow> continuation \<Rightarrow> int option \<Rightarrow> members \<Rightarrow> controller \<Rightarrow> controller \<times> effect list" where
  "run_continuation self k spawnedPid ms c =
     (case k of
        AfterReadyBarrier token ident g \<Rightarrow>
          if \<not> connected c \<or> completed c then (c, [])
          else (c, [Send (Ready token self ident g)])
      | AfterStartBarrier token \<Rightarrow>
          if \<not> connected c \<or> completed c \<or> terminationStarted c then (c, [])
          else let c1 = c\<lparr>supervisorSpawned := True, spawnErrorMessage := None\<rparr>
          in (case spawnedPid of
                None \<Rightarrow> (c1\<lparr>closeListener := True\<rparr>, [SpawnSupervisor])
              | Some pid \<Rightarrow>
                  (c1\<lparr>pending := pending c1 @ [AfterStartedBarrier token pid]\<rparr>, [SpawnSupervisor]))
      | AfterStartedBarrier token pid \<Rightarrow>
          (let (c1, es) = send_started self ms token pid c
           in (c1\<lparr>closeListener := True\<rparr>, es))
      | AfterDisconnectBarrier \<Rightarrow> begin_termination self ms c)"

definition drop_nth :: "nat \<Rightarrow> 'a list \<Rightarrow> 'a list" where
  "drop_nth n xs = take n xs @ drop (Suc n) xs"

definition on_supervisor_close ::
  "int \<Rightarrow> int option \<Rightarrow> string option \<Rightarrow> members \<Rightarrow> controller \<Rightarrow> controller \<times> effect list" where
  "on_supervisor_close self code sig ms c =
     (if \<not> closeListener c then (c, [])
      else begin_termination self ms (c\<lparr>closeListener := False,
        supervisorObservation := Some \<lparr>obs_exitCode = code, obs_signal = sig,
          obs_spawnErrorMessage = spawnErrorMessage c\<rparr>\<rparr>))"

definition controller_step :: "int \<Rightarrow> event \<Rightarrow> controller \<Rightarrow> controller \<times> effect list" where
  "controller_step self ev c =
     (if completed c then (c, [])
      else case ev of
        Message raw ident g ms \<Rightarrow> on_message self raw ident g ms c
      | Resume n spawnedPid ms \<Rightarrow>
          if n < length (pending c)
            then run_continuation self (pending c ! n) spawnedPid ms
                   (c\<lparr>pending := drop_nth n (pending c)\<rparr>)
          else (c, [])
      | Disconnected \<Rightarrow> on_disconnect c
      | ControllerSignal ms \<Rightarrow> begin_termination self ms c
      | SupervisorError msg \<Rightarrow> (c\<lparr>spawnErrorMessage := Some msg\<rparr>, [])
      | SupervisorClose code sig ms \<Rightarrow> on_supervisor_close self code sig ms c
      | Poll ms \<Rightarrow> finish_when_quiescent self ms c
      | ForceTimer \<Rightarrow> (c, if terminationStarted c then [SignalOwnGroup SIGKILL] else [])
      | ReadySendFailed \<Rightarrow> exit_controller 2 c
      | StartedSendFailed ms \<Rightarrow> begin_termination self ms c
      | ResultSendDone \<Rightarrow>
          if resultSending c then exit_controller (exit_code_of c) c else (c, []))"

fun controller_run :: "int \<Rightarrow> event list \<Rightarrow> controller \<Rightarrow> controller \<times> effect list" where
  "controller_run self [] c = (c, [])"
| "controller_run self (ev # evs) c =
     (let (c1, es) = controller_step self ev c; (c2, es') = controller_run self evs c1
      in (c2, es @ es'))"


lemmas handler_defs =
  exit_controller_def finish_when_quiescent_def begin_termination_def on_disconnect_def
  on_prepare_def on_start_def on_message_def send_started_def run_continuation_def
  on_supervisor_close_def

subsection \<open>Inert until START\<close>

definition parsed :: "event \<Rightarrow> launcher_message option" where
  "parsed ev = (case ev of Message raw _ _ _ \<Rightarrow> parse_launcher_execution_message raw | _ \<Rightarrow> None)"

definition starts :: "string \<Rightarrow> event list \<Rightarrow> nat" where
  "starts t evs = length (filter (\<lambda>ev. parsed ev = Some (Start t)) evs)"

definition spawns :: "effect list \<Rightarrow> nat" where
  "spawns es = count_list es SpawnSupervisor"

fun is_pending_start :: "continuation \<Rightarrow> bool" where
  "is_pending_start (AfterStartBarrier _) = True"
| "is_pending_start _ = False"

definition pending_starts :: "controller \<Rightarrow> nat" where
  "pending_starts c = length (filter is_pending_start (pending c))"

lemma spawns_simps [simp]:
  "spawns [] = 0" "spawns (e # es) = (if e = SpawnSupervisor then Suc (spawns es) else spawns es)"
  "spawns (es @ es') = spawns es + spawns es'"
  by (simp_all add: spawns_def)

lemma exit_frame:
  assumes "exit_controller code c = (c', es)"
  shows "spawns es = 0" "pending c' = pending c" "executionToken c' = executionToken c"
    "terminationStarted c' = terminationStarted c" "supervisorSpawned c' = supervisorSpawned c"
  using assms by (auto simp: exit_controller_def split: if_splits)

lemma finish_frame:
  assumes "finish_when_quiescent self ms c = (c', es)"
  shows "spawns es = 0" "pending c' = pending c" "executionToken c' = executionToken c"
    "terminationStarted c' = terminationStarted c" "supervisorSpawned c' = supervisorSpawned c"
  using assms
  by (auto simp: finish_when_quiescent_def dest: exit_frame split: if_splits option.splits)

lemma begin_frame:
  assumes "begin_termination self ms c = (c', es)"
  shows "spawns es = 0" "pending c' = pending c" "executionToken c' = executionToken c"
    "supervisorSpawned c' = supervisorSpawned c"
  using assms
  by (auto simp: begin_termination_def dest: finish_frame split: if_splits prod.splits)


text \<open>One START can release one supervisor: the number of spawned supervisors and of STARTs still
  waiting behind the barrier never exceeds the number of valid START messages received.\<close>

definition start_after_prepare :: "string \<Rightarrow> event list \<Rightarrow> bool" where
  "start_after_prepare t evs = (\<exists>pre ev post. evs = pre @ ev # post \<and> parsed ev = Some (Start t) \<and>
     (\<exists>ev' \<in> set pre. parsed ev' = Some (Prepare t)))"

lemma start_after_prepare_append [simp]:
  "start_after_prepare t evs \<Longrightarrow> start_after_prepare t (evs @ evs')"
  unfolding start_after_prepare_def by fastforce

lemma start_after_prepare_snoc:
  assumes "parsed ev = Some (Start t)" "\<exists>ev' \<in> set evs. parsed ev' = Some (Prepare t)"
  shows "start_after_prepare t (evs @ [ev])"
  unfolding start_after_prepare_def using assms by (metis append_Nil2)

definition all_starts :: "event list \<Rightarrow> nat" where
  "all_starts evs = length (filter (\<lambda>ev. \<exists>t. parsed ev = Some (Start t)) evs)"

definition inert :: "event list \<Rightarrow> effect list \<Rightarrow> controller \<Rightarrow> bool" where
  "inert evs es c \<longleftrightarrow>
     (\<forall>t. executionToken c = Some t \<longrightarrow> (\<exists>ev \<in> set evs. parsed ev = Some (Prepare t))) \<and>
     (\<forall>t. AfterStartBarrier t \<in> set (pending c) \<longrightarrow>
        executionToken c = Some t \<and> start_after_prepare t evs) \<and>
     spawns es + pending_starts c \<le> all_starts evs \<and>
     (spawns es > 0 \<longrightarrow> (\<exists>t. executionToken c = Some t \<and> start_after_prepare t evs))"

lemma pending_starts_snoc [simp]:
  "pending_starts (c\<lparr>pending := pending c @ [k]\<rparr>) =
     pending_starts c + (if is_pending_start k then 1 else 0)"
  by (cases k) (simp_all add: pending_starts_def)

lemma set_drop_nth: "x \<in> set (drop_nth n xs) \<Longrightarrow> x \<in> set xs"
  by (auto simp: drop_nth_def dest: in_set_takeD in_set_dropD)

lemma drop_nth_count:
  assumes "n < length xs"
  shows "length (filter P (drop_nth n xs)) + (if P (xs ! n) then 1 else 0) = length (filter P xs)"
proof -
  have "xs = take n xs @ xs ! n # drop (Suc n) xs" using assms by (rule id_take_nth_drop)
  then have "length (filter P xs) = length (filter P (take n xs @ xs ! n # drop (Suc n) xs))" by simp
  then show ?thesis by (simp add: drop_nth_def)
qed

lemma all_starts_snoc [simp]:
  "all_starts (evs @ [ev]) = all_starts evs + (if \<exists>t. parsed ev = Some (Start t) then 1 else 0)"
  by (simp add: all_starts_def)

text \<open>A step that touches neither the token nor the pending continuations and spawns nothing.\<close>

lemma inert_frame:
  assumes "inert evs es c" "spawns es' = 0" "pending c' = pending c"
    "executionToken c' = executionToken c"
  shows "inert (evs @ [ev]) (es @ es') c'"
  using assms unfolding inert_def pending_starts_def by auto

lemma inert_idle: "inert evs es c \<Longrightarrow> inert (evs @ [ev]) es c"
  using inert_frame[of evs es c "[]" c] by simp

lemma inert_message:
  assumes I: "inert evs es c" and st: "on_message self raw ident g ms c = (c', es')"
  shows "inert (evs @ [Message raw ident g ms]) (es @ es') c'"
proof (cases "parse_launcher_execution_message raw")
  case None
  with st show ?thesis
    by (auto simp: on_message_def intro!: inert_frame[OF I] dest: exit_frame begin_frame
        split: if_splits)
next
  case (Some m)
  have p: "parsed (Message raw ident g ms) = Some m" using Some by (simp add: parsed_def)
  show ?thesis
  proof (cases m)
    case (Prepare t)
    show ?thesis
    proof (cases "executionToken c \<noteq> None \<or> supervisorSpawned c")
      case True
      with st Some Prepare have "exit_controller 2 c = (c', es')"
        by (auto simp: on_message_def on_prepare_def)
      then show ?thesis by (auto intro!: inert_frame[OF I] dest: exit_frame)
    next
      case False
      with I have I2: "\<forall>t. AfterStartBarrier t \<notin> set (pending c)" "spawns es = 0"
        by (auto simp: inert_def)
      from st Some Prepare False have
        "spawns es' = 0" "executionToken c' = Some t"
        "pending c' = pending c \<or> (\<exists>k i. pending c' = pending c @ [AfterReadyBarrier k i self])"
        by (auto simp: on_message_def on_prepare_def exit_controller_def Let_def
            split: option.splits if_splits)
      with I I2 p Prepare show ?thesis
        by (auto simp: inert_def pending_starts_def)
    qed
  next
    case (Start t)
    show ?thesis
    proof (cases "executionToken c = None \<or> Some t \<noteq> executionToken c
       \<or> supervisorSpawned c \<or> terminationStarted c")
      case True
      with st Some Start have "exit_controller 2 c = (c', es')"
        by (auto simp: on_message_def on_start_def)
      then show ?thesis by (auto intro!: inert_frame[OF I] dest: exit_frame)
    next
      case False
      with st Some Start have c': "c' = c\<lparr>pending := pending c @ [AfterStartBarrier t]\<rparr>" "es' = []"
        by (auto simp: on_message_def on_start_def)
      have "start_after_prepare t (evs @ [Message raw ident g ms])"
        using I False p Start by (intro start_after_prepare_snoc) (auto simp: inert_def)
      with I p Start c' False show ?thesis by (auto simp: inert_def)
    qed
  qed
qed

lemma inert_resume:
  assumes I: "inert evs es c" and n: "n < length (pending c)"
    and st: "run_continuation self (pending c ! n) pid ms
               (c\<lparr>pending := drop_nth n (pending c)\<rparr>) = (c', es')"
  shows "inert (evs @ [Resume n pid ms]) (es @ es') c'"
proof -
  let ?c = "c\<lparr>pending := drop_nth n (pending c)\<rparr>"
  have mem: "pending c ! n \<in> set (pending c)" using n by simp
  have cnt: "pending_starts ?c + (if is_pending_start (pending c ! n) then 1 else 0)
      = pending_starts c"
    using drop_nth_count[OF n, of is_pending_start] by (simp add: pending_starts_def)
  have I1: "inert evs es ?c"
    using I cnt by (auto simp: inert_def dest: set_drop_nth)
  show ?thesis
  proof (cases "pending c ! n")
    case (AfterReadyBarrier t i g)
    with st show ?thesis
      by (auto simp: run_continuation_def intro!: inert_frame[OF I1] inert_idle[OF I1]
          split: if_splits)
  next
    case (AfterStartBarrier t)
    show ?thesis
    proof (cases "\<not> connected c \<or> completed c \<or> terminationStarted c")
      case True
      with st AfterStartBarrier show ?thesis
        by (auto simp: run_continuation_def intro!: inert_idle[OF I1])
    next
      case False
      have "executionToken c = Some t" "start_after_prepare t evs"
        using I mem AfterStartBarrier by (auto simp: inert_def)
      moreover have "es' = [SpawnSupervisor]" "executionToken c' = executionToken c"
        "pending_starts c' = pending_starts ?c"
        "\<forall>u. AfterStartBarrier u \<in> set (pending c') \<longrightarrow> AfterStartBarrier u \<in> set (pending ?c)"
        using st AfterStartBarrier False
        by (auto simp: run_continuation_def pending_starts_def Let_def split: option.splits)
      moreover have "pending_starts ?c + 1 = pending_starts c" using cnt AfterStartBarrier by simp
      moreover have "spawns es + pending_starts c \<le> all_starts evs" using I by (simp add: inert_def)
      ultimately show ?thesis using I1
        by (auto simp: inert_def)
    qed
  next
    case (AfterStartedBarrier t p)
    with st show ?thesis
      by (auto simp: run_continuation_def send_started_def intro!: inert_frame[OF I1]
          dest: begin_frame split: if_splits prod.splits)
  next
    case AfterDisconnectBarrier
    with st show ?thesis
      by (auto simp: run_continuation_def intro!: inert_frame[OF I1] dest: begin_frame)
  qed
qed

lemma inert_step:
  assumes I: "inert evs es c" and st: "controller_step self ev c = (c', es')"
  shows "inert (evs @ [ev]) (es @ es') c'"
proof (cases "completed c")
  case True
  with st show ?thesis using inert_frame[OF I, of "[]" c] by (auto simp: controller_step_def)
next
  case False
  show ?thesis
  proof (cases ev)
    case (Message raw i g ms)
    with st False I show ?thesis by (auto simp: controller_step_def intro: inert_message)
  next
    case (Resume n pid ms)
    with st False I show ?thesis
      by (auto simp: controller_step_def intro: inert_resume inert_idle split: if_splits)
  next
    case Disconnected
    with st False have "spawns es' = 0" "executionToken c' = executionToken c"
      "pending c' = pending c \<or> pending c' = pending c @ [AfterDisconnectBarrier]"
      by (auto simp: controller_step_def on_disconnect_def Let_def exit_controller_def split: if_splits)
    with I show ?thesis by (auto simp: inert_def pending_starts_def)
  next
    case (SupervisorClose code sig ms)
    show ?thesis
    proof (cases "closeListener c")
      case True
      with st False SupervisorClose show ?thesis
        by (auto simp: controller_step_def on_supervisor_close_def intro!: inert_frame[OF I]
            dest: begin_frame)
    qed (use st False SupervisorClose inert_idle[OF I] in
        \<open>auto simp: controller_step_def on_supervisor_close_def\<close>)
  next
    case (SupervisorError m)
    with st False show ?thesis using inert_frame[OF I, of "[]" c'] by (auto simp: controller_step_def)
  next
    case ForceTimer
    with st False show ?thesis using inert_frame[OF I, of es' c'] by (auto simp: controller_step_def split: if_splits)
  next
    case ResultSendDone
    with st False show ?thesis using inert_frame[OF I, of es' c']
      by (auto simp: controller_step_def dest: exit_frame split: if_splits)
  qed (use st False in \<open>auto simp: controller_step_def intro!: inert_frame[OF I]
      dest: begin_frame exit_frame finish_frame split: if_splits\<close>)
qed

lemma controller_run_append:
  "controller_run self (evs @ evs') c =
     (let (c1, es) = controller_run self evs c; (c2, es') = controller_run self evs' c1
      in (c2, es @ es'))"
  by (induction evs arbitrary: c) (auto simp: Let_def split: prod.splits)

lemma inert_run:
  "controller_run self evs initial_controller = (c, es) \<Longrightarrow> inert evs es c"
proof (induction evs arbitrary: c es rule: rev_induct)
  case Nil
  then show ?case by (auto simp: initial_controller_def inert_def pending_starts_def)
next
  case (snoc ev evs)
  obtain c1 es1 where r: "controller_run self evs initial_controller = (c1, es1)"
    by (cases "controller_run self evs initial_controller")
  obtain es2 where "controller_step self ev c1 = (c, es2)" "es = es1 @ es2"
    using snoc.prems r by (auto simp: controller_run_append split: prod.splits)
  then show ?case using inert_step[OF snoc.IH[OF r]] by blast
qed


text \<open>C28. The controller is inert until START. Whatever events the process receives, a supervisor
  is spawned only when a valid PREPARE carrying a token was received and, after it, a START carrying
  the same token; and there are never more spawned supervisors than START messages.\<close>

theorem controller_inert_until_start:
  assumes "controller_run self evs initial_controller = (c, es)"
  shows "spawns es \<le> all_starts evs \<and>
    (SpawnSupervisor \<in> set es \<longrightarrow>
      (\<exists>t. executionToken c = Some t \<and> start_after_prepare t evs))"
proof -
  have "inert evs es c" using inert_run[OF assms] .
  then show ?thesis by (auto simp: inert_def spawns_def count_list_0_iff)
qed

subsection \<open>One RESULT, from a quiescent group\<close>

definition results :: "effect list \<Rightarrow> nat" where
  "results es = length (filter (\<lambda>e. \<exists>t x s m. e = Send (Result t x s m)) es)"

definition exits :: "effect list \<Rightarrow> nat" where
  "exits es = length (filter (\<lambda>e. \<exists>k. e = Exit k) es)"

lemma results_simps [simp]:
  "results [] = 0" "results (es @ es') = results es + results es'"
  "results (e # es) = (if \<exists>t x s m. e = Send (Result t x s m) then 1 else 0) + results es"
  by (simp_all add: results_def)

lemma exits_simps [simp]:
  "exits [] = 0" "exits (es @ es') = exits es + exits es'"
  "exits (e # es) = (if \<exists>k. e = Exit k then 1 else 0) + exits es"
  by (simp_all add: exits_def)

text \<open>What one callback may add: the invariant \<open>settled\<close> counts the RESULT and the exit by the flags
  \<open>resultSending\<close> and \<open>completed\<close>.\<close>

definition settled :: "effect list \<Rightarrow> controller \<Rightarrow> bool" where
  "settled es c \<longleftrightarrow> results es = (if resultSending c then 1 else 0) \<and>
     exits es = (if completed c then 1 else 0)"

lemma settled_exit:
  "settled es c \<Longrightarrow> exit_controller k c = (c', es') \<Longrightarrow> settled (es @ es') c'"
  by (auto simp: settled_def exit_controller_def split: if_splits)

lemma settled_finish:
  "settled es c \<Longrightarrow> finish_when_quiescent self ms c = (c', es') \<Longrightarrow> settled (es @ es') c'"
  by (auto simp: settled_def finish_when_quiescent_def exit_controller_def
      split: if_splits option.splits)

lemma settled_begin:
  assumes "settled es c" "begin_termination self ms c = (c', es')"
  shows "settled (es @ es') c'"
proof (cases "terminationStarted c \<or> completed c")
  case True
  with assms show ?thesis by (auto simp: begin_termination_def)
next
  case False
  then obtain es2 where
    "finish_when_quiescent self ms (c\<lparr>terminationStarted := True\<rparr>) = (c', es2)"
    "es' = [SignalOwnGroup SIGTERM, ArmTimers] @ es2"
    using assms(2) by (auto simp: begin_termination_def split: prod.splits)
  then show ?thesis
    using settled_finish[of "es @ [SignalOwnGroup SIGTERM, ArmTimers]" "c\<lparr>terminationStarted := True\<rparr>"]
      assms(1) by (auto simp: settled_def)
qed

lemma settled_silent:
  "settled es c \<Longrightarrow> resultSending c' = resultSending c \<Longrightarrow> completed c' = completed c \<Longrightarrow> settled es c'"
  by (simp add: settled_def)

lemma settled_message:
  assumes S: "settled es c" and st: "on_message self raw i g ms c = (c', es')"
  shows "settled (es @ es') c'"
proof (cases "parse_launcher_execution_message raw")
  case None
  with st show ?thesis
    by (auto simp: on_message_def intro: settled_exit[OF S] settled_begin[OF S] split: if_splits)
next
  case (Some m)
  then show ?thesis
    using S st by (cases m) (auto simp: on_message_def on_prepare_def on_start_def Let_def settled_def
        exit_controller_def split: option.splits if_splits)
qed

lemma settled_continuation:
  assumes S: "settled es c" and st: "run_continuation self k pid ms c = (c', es')"
  shows "settled (es @ es') c'"
proof (cases k)
  case (AfterStartedBarrier t p)
  then obtain c1 where "send_started self ms t p c = (c1, es')" "c' = c1\<lparr>closeListener := True\<rparr>"
    using st by (auto simp: run_continuation_def split: prod.splits)
  then show ?thesis
    using S settled_begin[OF S, of self ms c1 es']
    by (auto simp: send_started_def settled_def split: if_splits)
next
  case AfterDisconnectBarrier
  then show ?thesis using S st by (auto simp: run_continuation_def intro: settled_begin)
qed (use S st in \<open>auto simp: run_continuation_def Let_def settled_def split: if_splits option.splits\<close>)

lemma settled_step:
  assumes S: "settled es c" and st: "controller_step self ev c = (c', es')"
  shows "settled (es @ es') c'"
proof (cases "completed c")
  case True
  with S st show ?thesis by (auto simp: controller_step_def)
next
  case False
  have S': "settled es (c\<lparr>closeListener := False, supervisorObservation := ob\<rparr>)"
    "settled es (c\<lparr>pending := k\<rparr>)" for ob k
    using S by (auto simp: settled_def)
  show ?thesis
  proof (cases ev)
    case (Message raw i g ms)
    with st False S show ?thesis by (auto simp: controller_step_def intro: settled_message)
  next
    case (Resume n pid ms)
    with st False S show ?thesis
      by (auto simp: controller_step_def intro: settled_continuation[OF S'(2)] split: if_splits)
  next
    case Disconnected
    with st False S show ?thesis
      by (auto simp: controller_step_def on_disconnect_def Let_def settled_def exit_controller_def
          split: if_splits)
  next
    case (SupervisorClose code sig ms)
    with st False S show ?thesis
      by (auto simp: controller_step_def on_supervisor_close_def intro: settled_begin[OF S'(1)]
          split: if_splits)
  next
    case (SupervisorError m)
    with st False S show ?thesis by (auto simp: controller_step_def settled_def)
  next
    case ForceTimer
    with st False S show ?thesis by (auto simp: controller_step_def settled_def split: if_splits)
  qed (use st False S in \<open>auto simp: controller_step_def
      intro: settled_begin settled_exit settled_finish split: if_splits\<close>)
qed

lemma settled_run:
  "controller_run self evs initial_controller = (c, es) \<Longrightarrow> settled es c"
proof (induction evs arbitrary: c es rule: rev_induct)
  case Nil
  then show ?case by (auto simp: initial_controller_def settled_def)
next
  case (snoc ev evs)
  obtain c1 es1 where r: "controller_run self evs initial_controller = (c1, es1)"
    by (cases "controller_run self evs initial_controller")
  obtain es2 where "controller_step self ev c1 = (c, es2)" "es = es1 @ es2"
    using snoc.prems r by (auto simp: controller_run_append split: prod.splits)
  then show ?case using settled_step[OF snoc.IH[OF r]] by blast
qed

text \<open>Which callbacks can send the RESULT, and what they saw.\<close>

definition reports :: "int \<Rightarrow> members \<Rightarrow> controller \<Rightarrow> effect list \<Rightarrow> bool" where
  "reports self ms c' es \<longleftrightarrow> (\<forall>t x s m. Send (Result t x s m) \<in> set es \<longrightarrow>
     group_quiescent self ms \<and> terminationStarted c' \<and> executionToken c' = Some t \<and>
     supervisorObservation c' =
       Some \<lparr>obs_exitCode = x, obs_signal = s, obs_spawnErrorMessage = m\<rparr>)"

lemma reports_finish: "finish_when_quiescent self ms c = (c', es) \<Longrightarrow> reports self ms c' es"
  by (auto simp: finish_when_quiescent_def reports_def exit_controller_def
      split: if_splits option.splits)

lemma reports_begin: "begin_termination self ms c = (c', es) \<Longrightarrow> reports self ms c' es"
  using reports_finish
  by (fastforce simp: begin_termination_def reports_def split: if_splits prod.splits)

text \<open>The members of the group an event lets the controller read.\<close>

fun seen_members :: "event \<Rightarrow> members" where
  "seen_members (Message _ _ _ ms) = ms"
| "seen_members (Resume _ _ ms) = ms"
| "seen_members (ControllerSignal ms) = ms"
| "seen_members (SupervisorClose _ _ ms) = ms"
| "seen_members (Poll ms) = ms"
| "seen_members (StartedSendFailed ms) = ms"
| "seen_members _ = None"

lemma reports_none: "(\<And>t x s m. Send (Result t x s m) \<notin> set es) \<Longrightarrow> reports self ms c' es"
  by (simp add: reports_def)

lemma reports_step:
  assumes st: "controller_step self ev c = (c', es)"
  shows "reports self (seen_members ev) c' es"
proof (cases "completed c")
  case True
  with st show ?thesis by (auto simp: controller_step_def reports_def)
next
  case False
  show ?thesis
  proof (cases ev)
    case (Message raw i g ms)
    with st False show ?thesis
      by (cases "parse_launcher_execution_message raw")
        (auto simp: controller_step_def on_message_def on_prepare_def on_start_def Let_def
          exit_controller_def intro: reports_begin reports_none
          split: if_splits option.splits launcher_message.splits)
  next
    case (Resume n pid ms)
    show ?thesis
    proof (cases "n < length (pending c)")
      case True
      with st False Resume
      have k: "run_continuation self (pending c ! n) pid ms (c\<lparr>pending := drop_nth n (pending c)\<rparr>) = (c', es)"
        by (simp add: controller_step_def)
      show ?thesis
      proof (cases "pending c ! n")
        case (AfterStartedBarrier t p)
        then obtain c1 where "send_started self ms t p (c\<lparr>pending := drop_nth n (pending c)\<rparr>) = (c1, es)"
          "c' = c1\<lparr>closeListener := True\<rparr>"
          using k by (auto simp: run_continuation_def split: prod.splits)
        then show ?thesis using Resume reports_begin[of self ms _ c1 es]
          by (auto simp: send_started_def reports_def split: if_splits)
      qed (use k Resume in \<open>auto simp: run_continuation_def Let_def intro: reports_begin
          reports_none split: if_splits option.splits\<close>)
    qed (use st False Resume in \<open>auto simp: controller_step_def reports_def\<close>)
  next
    case Disconnected
    with st False show ?thesis
      by (auto simp: controller_step_def on_disconnect_def Let_def exit_controller_def
          intro!: reports_none split: if_splits)
  next
    case (SupervisorClose code sig ms)
    with st False show ?thesis
      by (auto simp: controller_step_def on_supervisor_close_def intro: reports_begin
          reports_none split: if_splits)
  qed (use st False in \<open>auto simp: controller_step_def exit_controller_def
      intro: reports_begin reports_finish reports_none split: if_splits\<close>)
qed


text \<open>The observation comes from the supervisor's own close event.\<close>

definition observed :: "event list \<Rightarrow> controller \<Rightarrow> bool" where
  "observed evs c \<longleftrightarrow> (\<forall>ob. supervisorObservation c = Some ob \<longrightarrow>
     (\<exists>ms. SupervisorClose (obs_exitCode ob) (obs_signal ob) ms \<in> set evs))"

lemma exit_observation:
  "exit_controller k c = (c', es) \<Longrightarrow> supervisorObservation c' = supervisorObservation c"
  by (auto simp: exit_controller_def split: if_splits)

lemma finish_observation:
  "finish_when_quiescent self ms c = (c', es) \<Longrightarrow> supervisorObservation c' = supervisorObservation c"
  by (auto simp: finish_when_quiescent_def dest: exit_observation split: if_splits option.splits)

lemma begin_observation:
  "begin_termination self ms c = (c', es) \<Longrightarrow> supervisorObservation c' = supervisorObservation c"
  by (auto simp: begin_termination_def dest: finish_observation split: if_splits prod.splits)

lemmas observation_frames = exit_observation finish_observation begin_observation

lemma message_observation:
  "on_message self raw i g ms c = (c', es) \<Longrightarrow> supervisorObservation c' = supervisorObservation c"
  by (auto simp: on_message_def on_prepare_def on_start_def Let_def dest: observation_frames
      split: if_splits option.splits launcher_message.splits)

lemma continuation_observation:
  "run_continuation self k pid ms c = (c', es) \<Longrightarrow> supervisorObservation c' = supervisorObservation c"
  by (cases k) (auto simp: run_continuation_def send_started_def Let_def dest: observation_frames
      split: if_splits option.splits prod.splits)

lemma step_observation:
  assumes st: "controller_step self ev c = (c', es)"
  shows "supervisorObservation c' = supervisorObservation c \<or>
    (\<exists>code sig ms ob. ev = SupervisorClose code sig ms \<and> supervisorObservation c' = Some ob \<and>
       obs_exitCode ob = code \<and> obs_signal ob = sig)"
proof (cases "completed c")
  case True
  with st show ?thesis by (simp add: controller_step_def)
next
  case False
  show ?thesis
  proof (cases ev)
    case (SupervisorClose code sig ms)
    with st False show ?thesis
      by (auto simp: controller_step_def on_supervisor_close_def dest!: begin_observation
          split: if_splits)
  qed (use st False in \<open>auto simp: controller_step_def on_disconnect_def Let_def
      dest: observation_frames message_observation continuation_observation split: if_splits\<close>)
qed

lemma observed_step:
  assumes "observed evs c" "controller_step self ev c = (c', es)"
  shows "observed (evs @ [ev]) c'"
  using assms(1) step_observation[OF assms(2)] unfolding observed_def by fastforce

lemma observed_run: "controller_run self evs initial_controller = (c, es) \<Longrightarrow> observed evs c"
proof (induction evs arbitrary: c es rule: rev_induct)
  case Nil
  then show ?case by (auto simp: initial_controller_def observed_def)
next
  case (snoc ev evs)
  obtain c1 es1 where r: "controller_run self evs initial_controller = (c1, es1)"
    by (cases "controller_run self evs initial_controller")
  obtain es2 where "controller_step self ev c1 = (c, es2)"
    using snoc.prems r by (auto simp: controller_run_append split: prod.splits)
  then show ?case using observed_step[OF snoc.IH[OF r]] by blast
qed

text \<open>The RESULT found in a run, with the event whose callback sent it.\<close>

lemma result_source:
  assumes "controller_run self evs initial_controller = (c, es)" "Send (Result t x s m) \<in> set es"
  shows "\<exists>pre ev post. evs = pre @ ev # post \<and> group_quiescent self (seen_members ev) \<and>
     (\<exists>ms. SupervisorClose x s ms \<in> set (pre @ [ev]))"
  using assms
proof (induction evs arbitrary: c es rule: rev_induct)
  case Nil
  then show ?case by auto
next
  case (snoc ev evs)
  obtain c1 es1 where r: "controller_run self evs initial_controller = (c1, es1)"
    by (cases "controller_run self evs initial_controller")
  obtain es2 where st: "controller_step self ev c1 = (c, es2)" and es: "es = es1 @ es2"
    using snoc.prems r by (auto simp: controller_run_append split: prod.splits)
  show ?case
  proof (cases "Send (Result t x s m) \<in> set es1")
    case True
    then obtain pre e post where *: "evs = pre @ e # post" "group_quiescent self (seen_members e)"
      "\<exists>ms. SupervisorClose x s ms \<in> set (pre @ [e])" using snoc.IH[OF r] by blast
    show ?thesis
      by (rule exI[of _ pre], rule exI[of _ e], rule exI[of _ "post @ [ev]"]) (use * in simp)
  next
    case False
    then have "Send (Result t x s m) \<in> set es2" using snoc.prems(2) es by simp
    then have "group_quiescent self (seen_members ev)"
      "supervisorObservation c = Some \<lparr>obs_exitCode = x, obs_signal = s, obs_spawnErrorMessage = m\<rparr>"
      using reports_step[OF st] by (auto simp: reports_def)
    moreover have "observed (evs @ [ev]) c" using observed_run[OF snoc.prems(1)] .
    ultimately show ?thesis unfolding observed_def
      by (intro exI[of _ evs] exI[of _ ev] exI[of _ "[]"]) auto
  qed
qed

text \<open>C29. The controller reports at most once and exits at most once, and the report is evidence:
  a RESULT is sent only by a callback that has just read its own process group and found no other
  member, and it carries the exit code and the signal of a close event of the supervisor received
  before.\<close>

theorem controller_reports_quiescence:
  assumes "controller_run self evs initial_controller = (c, es)"
  shows "results es \<le> 1 \<and> exits es \<le> 1 \<and> (\<forall>t x s m. Send (Result t x s m) \<in> set es \<longrightarrow>
     (\<exists>pre ev post. evs = pre @ ev # post \<and> group_quiescent self (seen_members ev) \<and>
        (\<exists>ms. SupervisorClose x s ms \<in> set (pre @ [ev]))))"
  using settled_run[OF assms] result_source[OF assms] by (simp add: settled_def)

lemma member_of_line_sample:
  "list_own_group_members 7 8 (''  7    7'' @ [CHR 0x0A] @ ''8 7'' @ [CHR 0x0A] @ ''12  3'' @ [CHR 0x0A] @ ''9 7'')
     = [7, 9]"
  by code_simp

text \<open>The inspection never lists a process of another group, nor itself.\<close>

lemma member_of_line_sound:
  "p \<in> set (member_of_line self inspectionPid line) \<Longrightarrow>
     p > 0 \<and> p \<noteq> inspectionPid \<and> p \<le> max_safe_integer"
  by (auto simp: member_of_line_def Let_def is_safe_integer_def split: option.splits if_splits)

subsection \<open>A complete pass\<close>

text \<open>PREPARE, the READY barrier, START, the START barrier, the STARTED barrier, the close of the
  supervisor, the poll that finds the group empty, the end of the send.\<close>

definition sample_prepare :: js_value where
  "sample_prepare = JObject [(''type'', JString ''PREPARE''), (''version'', JInt 1),
     (''token'', JString ''tok'')]"

definition sample_start :: js_value where
  "sample_start = JObject [(''type'', JString ''START''), (''version'', JInt 1),
     (''token'', JString ''tok'')]"

definition sample_pass :: "event list" where
  "sample_pass =
     [Message sample_prepare (Some ''linux:1'') (Some 7) None, Resume 0 None None,
      Message sample_start None None None, Resume 0 (Some 9) None, Resume 0 None None,
      SupervisorClose (Some 0) None (Some [7, 9]), Poll (Some [7]), ResultSendDone]"

definition sample_pass_effects :: "effect list" where
  "sample_pass_effects =
     [Send (Ready ''tok'' 7 ''linux:1'' 7), SpawnSupervisor, Send (Started ''tok'' 9),
      SignalOwnGroup SIGTERM, ArmTimers, Send (Result ''tok'' (Some 0) None None), Exit 0]"


lemma sample_pass_run:
  "controller_run 7 sample_pass initial_controller =
     (initial_controller\<lparr>executionToken := Some ''tok'', supervisorSpawned := True,
        supervisorObservation := Some \<lparr>obs_exitCode = Some 0, obs_signal = None,
          obs_spawnErrorMessage = None\<rparr>,
        terminationStarted := True, completed := True, resultSending := True\<rparr>,
      sample_pass_effects)"
  by code_simp

theorem controller_inert_until_start_witness:
  "\<exists>c. controller_run 7 sample_pass initial_controller = (c, sample_pass_effects) \<and>
     SpawnSupervisor \<in> set sample_pass_effects \<and>
     (\<exists>t. executionToken c = Some t \<and> start_after_prepare t sample_pass)"
  using controller_inert_until_start[OF sample_pass_run] sample_pass_run
  by (auto simp: sample_pass_effects_def)

theorem controller_reports_quiescence_witness:
  "Send (Result ''tok'' (Some 0) None None) \<in> set sample_pass_effects \<and>
   results sample_pass_effects = 1 \<and> exits sample_pass_effects \<le> 1 \<and>
   (\<exists>pre ev post. sample_pass = pre @ ev # post \<and> group_quiescent 7 (seen_members ev) \<and>
        (\<exists>ms. SupervisorClose (Some 0) None ms \<in> set (pre @ [ev])))"
  using controller_reports_quiescence[OF sample_pass_run]
  by (simp add: sample_pass_effects_def)

end
