(* ===== verification/Commit_Types.thy ===== *)
theory Commit_Types
  imports Prelude
begin

text \<open>
  The data of the commit pipeline, \<open>src/src/types.ts\<close> and \<open>src/src/modules/core/errors.ts\<close>, with the small
  pure modules that only read it: \<open>commit-formatter.ts\<close>, \<open>error-classifier.ts\<close> and
  \<open>fallback-model.ts\<close>. An optional property is an \<open>option\<close>; \<open>null\<close> and \<open>undefined\<close> are not
  distinguished where the code does not (\<open>?? null\<close>).
\<close>

subsection \<open>Data\<close>

record settings =
  st_provider :: string
  st_model :: string
  st_temperature :: int
  st_autoPush :: bool
  st_fallbackProvider :: "string option"
  st_fallbackModel :: "string option"
  st_thinking :: "bool option"
  st_agent :: "string option"
  st_searchPaths :: "string list"
  st_skipTests :: bool
  st_maxDiffChars :: "nat option"

record commit_message =
  cm_type :: string
  cm_scope :: "string option"
  cm_description :: string
  cm_body :: "string option"
  cm_isBreaking :: bool

record commit_plan =
  cp_commit :: commit_message
  cp_files :: "string list"

datatype error_kind = Validation | Structural | Race | Git | Network

text \<open>The five kinds are enumerable, so that a counter per kind is a finite function with a decidable
  equality.\<close>

instantiation error_kind :: enum
begin

definition enum_error_kind :: "error_kind list" where
  "enum_error_kind = [Validation, Structural, Race, Git, Network]"

definition enum_all_error_kind :: "(error_kind \<Rightarrow> bool) \<Rightarrow> bool" where
  "enum_all_error_kind P \<longleftrightarrow> P Validation \<and> P Structural \<and> P Race \<and> P Git \<and> P Network"

definition enum_ex_error_kind :: "(error_kind \<Rightarrow> bool) \<Rightarrow> bool" where
  "enum_ex_error_kind P \<longleftrightarrow> P Validation \<or> P Structural \<or> P Race \<or> P Git \<or> P Network"

lemma UNIV_error_kind: "(UNIV :: error_kind set) = {Validation, Structural, Race, Git, Network}"
  using error_kind.exhaust by blast

instance
  by standard (simp_all add: enum_error_kind_def enum_all_error_kind_def enum_ex_error_kind_def
      UNIV_error_kind)

end

datatype validation_rule = CommitMessageRule | SubjectMaxLength

record feedback_error =
  fb_kind :: error_kind
  fb_message :: string
  fb_resolution_hint :: "string option"
  fb_files :: "string list option"
  fb_planIndex :: "nat option"
  fb_rule :: "validation_rule option"
  fb_rejectedSubject :: "string option"
  fb_actualLength :: "nat option"
  fb_maximumLength :: "nat option"

definition plain_error :: "error_kind \<Rightarrow> string \<Rightarrow> string option \<Rightarrow> string list option \<Rightarrow> feedback_error" where
  "plain_error kind message hint files =
     \<lparr>fb_kind = kind, fb_message = message, fb_resolution_hint = hint, fb_files = files,
      fb_planIndex = None, fb_rule = None, fb_rejectedSubject = None, fb_actualLength = None,
      fb_maximumLength = None\<rparr>"

record committed_sha =
  cs_sha :: string
  cs_files :: "string list"

text \<open>\<open>AttemptsByKind\<close> is a partial record; a counter never becomes undefined again.\<close>

type_synonym attempts_by_kind = "error_kind \<rightharpoonup> nat"

datatype repo_status = PENDING | RUNNING | SUCCESS | FAILED

datatype repository_operation = CommitAndPush | PushOnly

record tracked_push_snapshot =
  ts_sourceBranch :: string
  ts_validatedHeadSha :: string
  ts_upstreamRef :: string
  ts_remote :: string
  ts_destinationRef :: string
  ts_destinationBaselineSha :: string
  ts_outgoingShas :: "string list"
  ts_pushUrlFingerprint :: string

record repo_state =
  rs_repository :: string
  rs_status :: repo_status
  rs_operation :: "repository_operation option"
  rs_pushSnapshot :: "tracked_push_snapshot option"
  rs_pushedShas :: "string list option"
  rs_diffHash :: "string option"
  rs_commits :: "commit_plan list option"
  rs_error :: "string option"
  rs_attempts :: "attempts_by_kind option"
  rs_committedShas :: "committed_sha list option"
  rs_originalHead :: "string option"
  rs_feedbackHistory :: "string list option"
  rs_lastPlanHash :: "string option"
  rs_loopDetected :: "(error_kind \<times> string) option"
  rs_fallbackAttempted :: "bool option"

text \<open>\<open>repoState.attempts?.[kind] ?? 0\<close> and \<open>{...(attempts ?? {}), [kind]: n}\<close>.\<close>

definition attempt_count :: "repo_state \<Rightarrow> error_kind \<Rightarrow> nat" where
  "attempt_count rs kind =
     (case rs_attempts rs of None \<Rightarrow> 0 | Some m \<Rightarrow> nullish (m kind) 0)"

definition set_attempt :: "error_kind \<Rightarrow> nat \<Rightarrow> repo_state \<Rightarrow> repo_state" where
  "set_attempt kind n rs =
     rs\<lparr>rs_attempts := Some ((nullish (rs_attempts rs) Map.empty)(kind \<mapsto> n))\<rparr>"

definition error_kinds :: "error_kind list" where
  "error_kinds = [Validation, Structural, Race, Git, Network]"

definition total_retries :: "repo_state \<Rightarrow> nat" where
  "total_retries rs = sum_list (map (attempt_count rs) error_kinds)"

definition truthy :: "string option \<Rightarrow> bool" where
  "truthy v = (case v of None \<Rightarrow> False | Some s \<Rightarrow> s \<noteq> [])"

definition committed_count :: "repo_state \<Rightarrow> nat" where
  "committed_count rs = length (nullish (rs_committedShas rs) [])"

lemma attempt_set [simp]:
  "attempt_count (set_attempt k n rs) k' = (if k' = k then n else attempt_count rs k')"
  by (auto simp: attempt_count_def set_attempt_def nullish_def split: option.splits)

lemma set_attempt_frame [simp]:
  "rs_fallbackAttempted (set_attempt k n rs) = rs_fallbackAttempted rs"
  "rs_status (set_attempt k n rs) = rs_status rs"
  "rs_diffHash (set_attempt k n rs) = rs_diffHash rs"
  "rs_lastPlanHash (set_attempt k n rs) = rs_lastPlanHash rs"
  "rs_feedbackHistory (set_attempt k n rs) = rs_feedbackHistory rs"
  "rs_committedShas (set_attempt k n rs) = rs_committedShas rs"
  "rs_repository (set_attempt k n rs) = rs_repository rs"
  by (simp_all add: set_attempt_def)

subsection \<open>Errors\<close>

datatype plan_error_kind = DuplicateFile | EmptyPlans | MissingFile | NonexistentFile

record plan_error_context =
  pc_committedShas :: "committed_sha list option"
  pc_pendingFiles :: "string list option"

record partial_context =
  pt_committedShas :: "committed_sha list"
  pt_originalHead :: string
  pt_failedIndex :: nat
  pt_totalCount :: nat
  pt_pendingFiles :: "string list"

record post_commit_context =
  po_committedShas :: "committed_sha list"
  po_originalHead :: string
  po_pushRetryCount :: nat

datatype commit_error =
    CommitPlanError string plan_error_kind "string list option" "plan_error_context option"
  | DiffHashMismatchError
  | GitExecError string string int
  | PartialCommitError string partial_context
  | PushError string bool nat
  | PostCommitPushError string bool nat post_commit_context
  | OtherError string

fun error_message :: "commit_error \<Rightarrow> string" where
  "error_message (CommitPlanError m _ _ _) = m"
| "error_message DiffHashMismatchError =
     ''DiffHash mismatch: The staged diff changed during LLM inference.''"
| "error_message (GitExecError m _ _) = m"
| "error_message (PartialCommitError m _) = m"
| "error_message (PushError m _ _) = m"
| "error_message (PostCommitPushError m _ _ _) = m"
| "error_message (OtherError m) = m"

subsection \<open>Classification\<close>

fun get_resolution_hint :: "plan_error_kind \<Rightarrow> string" where
  "get_resolution_hint DuplicateFile =
     ''Either split the duplicated file beforehand, or merge all changes touching it into a single Fat Commit plan (use the most impactful type: feat > fix > refactor > chore).''"
| "get_resolution_hint MissingFile =
     ''The file has no changes to commit (already committed or empty). Remove it from the plan.''"
| "get_resolution_hint NonexistentFile =
     ''The file path does not exist on disk in the working directory. Use only paths that appear in the staged diff (the `diff` parameter). Remove the path from the plan or fix the path spelling.''"
| "get_resolution_hint EmptyPlans =
     ''If pending_files is empty AND committed_shas covers everything, return an empty array []. Otherwise, generate plans that cover the pending_files exactly (plus any files you regroup via Fat Commit).''"

datatype classification = Retry feedback_error | Fail feedback_error | TreatAsSuccess

fun classify_error :: "commit_error \<Rightarrow> bool \<Rightarrow> classification" where
  "classify_error (CommitPlanError m kind files _) committedShasExist =
     (if kind = EmptyPlans \<and> committedShasExist then TreatAsSuccess
      else Retry (plain_error Structural m (Some (get_resolution_hint kind)) files))"
| "classify_error DiffHashMismatchError _ =
     Retry (plain_error Race (error_message DiffHashMismatchError)
       (Some ''The diff changed during inference. Regenerate based on the current diff.'') None)"
| "classify_error (PartialCommitError m _) _ =
     Retry (plain_error Git m
       (Some ''Re-decide the plan based on the pending files (provided below).'') None)"
| "classify_error (GitExecError m _ _) _ = Fail (plain_error Git m None None)"
| "classify_error (PostCommitPushError m _ _ _) _ = Fail (plain_error Network m None None)"
| "classify_error (PushError m transient _) _ =
     (if transient then Retry (plain_error Network m None None)
      else Fail (plain_error Network m None None))"
| "classify_error (OtherError m) _ = Fail (plain_error Git m None None)"

definition LLM_BRIDGE_ERROR_PREFIX :: string where
  "LLM_BRIDGE_ERROR_PREFIX = ''LLM Fatal Error:''"

definition LLM_FATAL_SIGNATURES :: "string list" where
  "LLM_FATAL_SIGNATURES = [LLM_BRIDGE_ERROR_PREFIX]"

definition classify_llm_failure :: "string \<Rightarrow> error_kind option" where
  "classify_llm_failure err =
     (if str_includes err ''validation rejected'' then Some Validation
      else if list_ex (\<lambda>sig. str_includes err sig) LLM_FATAL_SIGNATURES then None
      else None)"

subsection \<open>Formatting\<close>

definition format_conventional_commit :: "commit_message \<Rightarrow> string" where
  "format_conventional_commit c =
     cm_type c
     @ (if truthy (cm_scope c) then ''('' @ nullish (cm_scope c) [] @ '')'' else [])
     @ (if cm_isBreaking c then ''!'' else [])
     @ '': '' @ cm_description c
     @ (if truthy (cm_body c) then [CHR 0x0A, CHR 0x0A] @ nullish (cm_body c) [] else [])"

subsection \<open>The fallback model\<close>

definition should_use_fallback :: "settings \<Rightarrow> error_kind \<Rightarrow> nat \<Rightarrow> bool \<Rightarrow> bool" where
  "should_use_fallback settings kind attemptCount fallbackAttempted =
     (if \<not> truthy (st_fallbackProvider settings) \<or> \<not> truthy (st_fallbackModel settings) then False
      else if kind \<noteq> Validation then False
      else if fallbackAttempted then False
      else if attemptCount < 2 then False
      else True)"

definition build_fallback_settings :: "settings \<Rightarrow> string + settings" where
  "build_fallback_settings settings =
     (if \<not> truthy (st_fallbackProvider settings) \<or> \<not> truthy (st_fallbackModel settings)
      then Inl ''Cannot build fallback settings without fallbackProvider and fallbackModel''
      else Inr (settings\<lparr>st_provider := nullish (st_fallbackProvider settings) [],
                         st_model := nullish (st_fallbackModel settings) []\<rparr>))"

text \<open>The guard of the caller makes the exception impossible.\<close>

lemma fallback_settings_available:
  "should_use_fallback settings kind n attempted \<Longrightarrow>
     \<exists>s. build_fallback_settings settings = Inr s \<and>
       Some (st_provider s) = st_fallbackProvider settings \<and>
       Some (st_model s) = st_fallbackModel settings"
  by (auto simp: should_use_fallback_def build_fallback_settings_def truthy_def nullish_def
      split: if_splits option.splits)

end
