(* ===== verification/JS_Regex.thy ===== *)
theory JS_Regex
  imports Prelude
begin

text \<open>
  The regular expressions of the code. A pattern is a value of the datatype \<open>rx\<close>, one constructor per
  construct the source uses; \<open>rx_matches\<close> is the relation the language defines (\<open>p\<close> and \<open>s\<close> are
  the character before the position and the text after it), and \<open>rx_ends\<close> computes every
  position a match can end at, without an order: the code only asks whether there is a match.
  Patterns that extract text are written as functions where they are used.
\<close>

subsection \<open>Characters\<close>

definition is_upper :: "char \<Rightarrow> bool" where
  "is_upper c \<longleftrightarrow> 65 \<le> (of_char c :: nat) \<and> (of_char c :: nat) \<le> 90"

definition is_letter :: "char \<Rightarrow> bool" where
  "is_letter c \<longleftrightarrow> is_upper c \<or> (97 \<le> (of_char c :: nat) \<and> (of_char c :: nat) \<le> 122)"

definition is_word_char :: "char \<Rightarrow> bool" where
  "is_word_char c \<longleftrightarrow> is_letter c \<or> is_digit c \<or> c = CHR ''_''"

definition to_lower :: "char \<Rightarrow> char" where
  "to_lower c = (if is_upper c then char_of ((of_char c :: nat) + 32) else c)"

definition is_line_terminator :: "char \<Rightarrow> bool" where
  "is_line_terminator c \<longleftrightarrow> c = CHR 0x0A \<or> c = CHR 0x0D"

definition is_quote :: "char \<Rightarrow> bool" where
  "is_quote c \<longleftrightarrow> c = CHR 0x22 \<or> c = CHR 0x27"

subsection \<open>Patterns\<close>

datatype rx =
    Eps
  | Cls "char \<Rightarrow> bool"
  | Seq rx rx
  | Alt rx rx
  | Star rx
  | WordBoundary
  | NotAhead rx
  | AtStart
  | AtEnd

definition word_before :: "char option \<Rightarrow> bool" where
  "word_before p = (case p of None \<Rightarrow> False | Some c \<Rightarrow> is_word_char c)"

definition word_after :: "string \<Rightarrow> bool" where
  "word_after s = (case s of [] \<Rightarrow> False | c # _ \<Rightarrow> is_word_char c)"

function rx_ends :: "rx \<Rightarrow> char option \<Rightarrow> string \<Rightarrow> (char option \<times> string) list" where
  "rx_ends Eps p s = [(p, s)]"
| "rx_ends (Cls f) p s = (case s of [] \<Rightarrow> [] | c # cs \<Rightarrow> if f c then [(Some c, cs)] else [])"
| "rx_ends (Seq a b) p s = concat (map (\<lambda>(q, t). rx_ends b q t) (rx_ends a p s))"
| "rx_ends (Alt a b) p s = rx_ends a p s @ rx_ends b p s"
| "rx_ends (Star a) p s = (p, s) # concat (map
     (\<lambda>(q, t). if length t < length s then rx_ends (Star a) q t else []) (rx_ends a p s))"
| "rx_ends WordBoundary p s = (if word_before p \<noteq> word_after s then [(p, s)] else [])"
| "rx_ends (NotAhead a) p s = (if rx_ends a p s = [] then [(p, s)] else [])"
| "rx_ends AtStart p s = (if p = None then [(p, s)] else [])"
| "rx_ends AtEnd p s = (if s = [] then [(p, s)] else [])"
  by pat_completeness auto

termination
  by (relation "measures [\<lambda>(r, p, s). size r, \<lambda>(r, p, s). length s]") auto

text \<open>\<open>pattern.test(s)\<close>: a match at some position.\<close>

fun rx_search :: "rx \<Rightarrow> char option \<Rightarrow> string \<Rightarrow> bool" where
  "rx_search r p [] = (rx_ends r p [] \<noteq> [])"
| "rx_search r p (c # s) = (rx_ends r p (c # s) \<noteq> [] \<or> rx_search r (Some c) s)"

definition rx_test :: "rx \<Rightarrow> string \<Rightarrow> bool" where
  "rx_test r s = rx_search r None s"

subsection \<open>Building patterns\<close>

fun rx_seq :: "rx list \<Rightarrow> rx" where
  "rx_seq [] = Eps"
| "rx_seq [r] = r"
| "rx_seq (r # s # rs) = Seq r (rx_seq (s # rs))"

fun rx_any :: "rx list \<Rightarrow> rx" where
  "rx_any [] = Cls (\<lambda>_. False)"
| "rx_any [r] = r"
| "rx_any (r # s # rs) = Alt r (rx_any (s # rs))"

definition rx_chr :: "char \<Rightarrow> rx" where "rx_chr c = Cls (\<lambda>x. x = c)"

definition rx_lit :: "string \<Rightarrow> rx" where "rx_lit w = rx_seq (map rx_chr w)"

text \<open>A literal under the flag \<open>i\<close>, given in lower case.\<close>

definition rx_ilit :: "string \<Rightarrow> rx" where "rx_ilit w = rx_seq (map (\<lambda>c. Cls (\<lambda>x. to_lower x = c)) w)"

definition rx_one_of :: "string \<Rightarrow> rx" where "rx_one_of cs = Cls (\<lambda>x. x \<in> set cs)"

definition rx_opt :: "rx \<Rightarrow> rx" where "rx_opt r = Alt r Eps"

definition rx_plus :: "rx \<Rightarrow> rx" where "rx_plus r = Seq r (Star r)"

text \<open>\<open>r{n}\<close> and \<open>r{n,}\<close>.\<close>

fun rx_times :: "nat \<Rightarrow> rx \<Rightarrow> rx" where
  "rx_times 0 r = Eps"
| "rx_times (Suc n) r = Seq r (rx_times n r)"

definition rx_at_least :: "nat \<Rightarrow> rx \<Rightarrow> rx" where
  "rx_at_least n r = Seq (rx_times n r) (Star r)"

abbreviation rx_space :: rx where "rx_space \<equiv> Cls is_js_whitespace"
abbreviation rx_nonspace :: rx where "rx_nonspace \<equiv> Cls (\<lambda>c. \<not> is_js_whitespace c)"
abbreviation rx_spaces :: rx where "rx_spaces \<equiv> Star rx_space"
abbreviation rx_digit :: rx where "rx_digit \<equiv> Cls is_digit"
abbreviation rx_word :: rx where "rx_word \<equiv> Cls is_word_char"
abbreviation rx_dot :: rx where "rx_dot \<equiv> Cls (\<lambda>c. \<not> is_line_terminator c)"

lemmas rx_builders = rx_chr_def rx_lit_def rx_ilit_def rx_one_of_def rx_opt_def rx_plus_def rx_at_least_def

subsection \<open>The matcher computes the relation\<close>

inductive rx_matches :: "rx \<Rightarrow> char option \<Rightarrow> string \<Rightarrow> char option \<Rightarrow> string \<Rightarrow> bool" where
  Eps: "rx_matches Eps p s p s"
| Cls: "f c \<Longrightarrow> rx_matches (Cls f) p (c # s) (Some c) s"
| Seq: "rx_matches a p s q t \<Longrightarrow> rx_matches b q t r u \<Longrightarrow> rx_matches (Seq a b) p s r u"
| AltL: "rx_matches a p s q t \<Longrightarrow> rx_matches (Alt a b) p s q t"
| AltR: "rx_matches b p s q t \<Longrightarrow> rx_matches (Alt a b) p s q t"
| Stop: "rx_matches (Star a) p s p s"
| Iterate: "rx_matches a p s q t \<Longrightarrow> length t < length s \<Longrightarrow> rx_matches (Star a) q t r u
    \<Longrightarrow> rx_matches (Star a) p s r u"
| WordBoundary: "word_before p \<noteq> word_after s \<Longrightarrow> rx_matches WordBoundary p s p s"
| NotAhead: "rx_ends a p s = [] \<Longrightarrow> rx_matches (NotAhead a) p s p s"
| AtStart: "rx_matches AtStart None s None s"
| AtEnd: "rx_matches AtEnd p [] p []"

inductive_cases rx_matches_cases [elim]:
  "rx_matches Eps p s q t" "rx_matches (Cls f) p s q t" "rx_matches (Seq a b) p s q t"
  "rx_matches (Alt a b) p s q t" "rx_matches WordBoundary p s q t" "rx_matches (NotAhead a) p s q t"
  "rx_matches AtStart p s q t" "rx_matches AtEnd p s q t"

declare rx_ends.simps(5) [simp del]

lemma rx_star_ends:
  "(r, u) \<in> set (rx_ends (Star a) p s) \<longleftrightarrow> (r, u) = (p, s) \<or>
     (\<exists>q t. (q, t) \<in> set (rx_ends a p s) \<and> length t < length s \<and> (r, u) \<in> set (rx_ends (Star a) q t))"
proof -
  have "(r, u) \<in> set (rx_ends (Star a) p s) \<longleftrightarrow> (r, u) = (p, s) \<or>
      (\<exists>x \<in> set (rx_ends a p s). length (snd x) < length s \<and> (r, u) \<in> set (rx_ends (Star a) (fst x) (snd x)))"
    unfolding rx_ends.simps(5)[of a p s] by (simp add: case_prod_beta del: split_paired_Ex) blast
  then show ?thesis by (metis fst_conv prod.collapse snd_conv)
qed

lemma rx_ends_sound: "(q, t) \<in> set (rx_ends r p s) \<Longrightarrow> rx_matches r p s q t"
proof (induction r p s arbitrary: q t rule: rx_ends.induct)
  case (5 a p s)
  from 5(3) consider "(q, t) = (p, s)"
    | r u where "(r, u) \<in> set (rx_ends a p s)" "length u < length s" "(q, t) \<in> set (rx_ends (Star a) r u)"
    using rx_star_ends by blast
  then show ?case
  proof cases
    case 1
    then show ?thesis by (simp add: rx_matches.Stop)
  next
    case 2
    then show ?thesis using 5(1)[of r u] 5(2)[of "(r, u)" r u q t] by (auto intro: rx_matches.Iterate)
  qed
next
  case (3 a b p s)
  then obtain x y where "(x, y) \<in> set (rx_ends a p s)" "(q, t) \<in> set (rx_ends b x y)" by auto
  with 3(1)[of x y] 3(2)[of "(x, y)" x y q t] show ?case by (auto intro: rx_matches.Seq)
qed (auto split: list.splits if_splits intro: rx_matches.intros)

lemma rx_ends_complete: "rx_matches r p s q t \<Longrightarrow> (q, t) \<in> set (rx_ends r p s)"
proof (induction rule: rx_matches.induct)
  case (Stop a p s)
  show ?case using rx_star_ends by blast
next
  case (Iterate a p s q t r u)
  then show ?case using rx_star_ends by blast
qed (auto split: list.splits)

theorem rx_ends_iff: "(q, t) \<in> set (rx_ends r p s) \<longleftrightarrow> rx_matches r p s q t"
  using rx_ends_sound rx_ends_complete by blast

lemma rx_search_mono: "rx_ends r p s \<noteq> [] \<Longrightarrow> rx_search r p s"
  by (cases s) simp_all

lemma rx_search_append: "rx_search r (if pre = [] then p else Some (last pre)) s \<Longrightarrow> rx_search r p (pre @ s)"
  by (induction pre arbitrary: p) (auto split: if_splits)

text \<open>A match anywhere in the text is found.\<close>

lemma rx_test_at:
  assumes "rx_matches r (if pre = [] then None else Some (last pre)) s q t"
  shows "rx_test r (pre @ s)"
  using rx_search_append[OF rx_search_mono] rx_ends_complete[OF assms] unfolding rx_test_def
  by (metis empty_iff empty_set)

lemma rx_times_matches:
  "length w = n \<Longrightarrow> list_all f w \<Longrightarrow> \<exists>q. rx_matches (rx_times n (Cls f)) p (w @ s) q s"
  by (induction n arbitrary: w p) (auto simp: length_Suc_conv intro: rx_matches.intros, blast intro: rx_matches.intros)

lemma rx_lit_matches: "\<exists>q. rx_matches (rx_lit w) p (w @ s) q s"
  unfolding rx_lit_def rx_chr_def
proof (induction w arbitrary: p)
  case Nil
  then show ?case by (auto intro: rx_matches.intros)
next
  case (Cons c w)
  have first: "rx_matches (Cls (\<lambda>x. x = c)) p (c # w @ s) (Some c) (w @ s)" by (rule rx_matches.Cls) simp
  obtain q where rest: "rx_matches (rx_seq (map (\<lambda>c. Cls (\<lambda>x. x = c)) w)) (Some c) (w @ s) q s"
    using Cons.IH by blast
  show ?case
  proof (cases w)
    case Nil
    then show ?thesis using first
      by (simp only: list.map rx_seq.simps append_Cons append_Nil) (rule exI)
  next
    case (Cons d v)
    show ?thesis using rx_matches.Seq[OF first rest]
      unfolding Cons list.map rx_seq.simps append_Cons by (rule exI)
  qed
qed

end
