(* ===== verification/Commit_Messages.thy ===== *)
theory Commit_Messages
  imports Commit_Types JS_Regex
begin

text \<open>
  Commit messages: \<open>validators/commit-message-validator.ts\<close>, \<open>commit-message-validation.ts\<close> and
  \<open>commit-message-repair.ts\<close>. Strings are lists of Latin-1 code units; the messages of the
  validator are in French, with their accented letters at their Latin-1 codes and the dash of
  two of them, which is outside Latin-1, written as code 0x97.
\<close>

subsection \<open>The validator\<close>

definition VALID_TYPES :: "string list" where
  "VALID_TYPES = [''feat'', ''fix'', ''docs'', ''style'', ''refactor'', ''perf'', ''test'', ''build'',
     ''ci'', ''chore'', ''revert'']"

definition MAX_COMMIT_SUBJECT_LENGTH :: nat where
  "MAX_COMMIT_SUBJECT_LENGTH = 72"

definition VAGUE_DESCRIPTIONS :: "string list" where
  "VAGUE_DESCRIPTIONS = [''fix bug'', ''fix bugs'', ''bug fix'', ''bugfix'', ''updates'', ''update'',
     ''stuff'', ''things'', ''changes'', ''change'', ''wip'', ''temp'', ''misc'', ''minor'']"

definition PAST_TENSE :: "string list" where
  "PAST_TENSE = [''added'', ''fixed'', ''removed'', ''updated'', ''changed'', ''deleted'', ''created'',
     ''modified'', ''moved'', ''renamed'', ''resolved'', ''refactored'', ''implemented'', ''improved'']"

definition GERUND :: "string list" where
  "GERUND = [''adding'', ''fixing'', ''removing'', ''updating'', ''changing'', ''deleting'', ''creating'',
     ''modifying'', ''moving'', ''renaming'', ''resolving'', ''refactoring'', ''implementing'',
     ''improving'']"

text \<open>The parts of \<open>/^(\w+)(?:\(([^)]+)\))?(!)?\s*:\s(.+)$/\<close>. The characters that may follow each part
  are not characters of that part, so the greedy match is the only one and no backtracking is
  needed. \<open>.\<close> excludes the line terminators.\<close>

definition skip_scope :: "string \<Rightarrow> string option" where
  "skip_scope s =
     (case s of
        c # rest \<Rightarrow>
          if c = CHR ''('' then
            (let inner = takeWhile (\<lambda>x. x \<noteq> CHR '')'') rest;
                 after = dropWhile (\<lambda>x. x \<noteq> CHR '')'') rest
             in if inner \<noteq> [] \<and> after \<noteq> [] then Some (tl after) else None)
          else Some s
      | [] \<Rightarrow> Some [])"

definition skip_bang :: "string \<Rightarrow> string" where
  "skip_bang s = (case s of c # rest \<Rightarrow> if c = CHR ''!'' then rest else s | [] \<Rightarrow> [])"

definition after_colon :: "string \<Rightarrow> string option" where
  "after_colon s =
     (case dropWhile is_js_whitespace s of
        c # w # rest \<Rightarrow>
          if c = CHR '':'' \<and> is_js_whitespace w \<and> rest \<noteq> [] \<and> \<not> list_ex is_line_terminator rest
          then Some rest else None
      | _ \<Rightarrow> None)"

text \<open>The first and the fourth group of the match.\<close>

definition match_commit :: "string \<Rightarrow> (string \<times> string) option" where
  "match_commit s =
     (let type = takeWhile is_word_char s
      in if type = [] then None
         else (case skip_scope (dropWhile is_word_char s) of
                 None \<Rightarrow> None
               | Some r \<Rightarrow>
                   (case after_colon (skip_bang r) of
                      None \<Rightarrow> None
                    | Some description \<Rightarrow> Some (type, description))))"

text \<open>\<open>/^(w1|w2|...)\b/i\<close>.\<close>

definition starts_with_word :: "string list \<Rightarrow> string \<Rightarrow> bool" where
  "starts_with_word words s =
     list_ex (\<lambda>w. map to_lower (take (length w) s) = w \<and>
       (case drop (length w) s of [] \<Rightarrow> True | c # _ \<Rightarrow> \<not> is_word_char c)) words"

definition subject_of :: "string \<Rightarrow> string" where
  "subject_of message = trim (hd (split_on (CHR 0x0A) (trim message)))"

text \<open>\<open>E\<close> is e acute, \<open>G\<close> e grave, \<open>D\<close> the dash.\<close>

abbreviation E_acute :: string where "E_acute \<equiv> [CHR 0xE9]"
abbreviation E_grave :: string where "E_grave \<equiv> [CHR 0xE8]"
abbreviation Long_dash :: string where "Long_dash \<equiv> [CHR 0x97]"

definition FORMAT_ERROR :: string where
  "FORMAT_ERROR = ''Format invalide. Attendu: <type>(<scope>): <description>''"

definition type_error_text :: "string \<Rightarrow> string" where
  "type_error_text type = ''Type \"'' @ type @ ''\" invalide. Types autoris'' @ E_acute @ ''s: ''
     @ join '', '' VALID_TYPES"

definition length_error_text :: "string \<Rightarrow> string" where
  "length_error_text subject = ''Subject line trop long: '' @ show_nat (length subject) @ ''/''
     @ show_nat MAX_COMMIT_SUBJECT_LENGTH @ '' caract'' @ E_grave @ ''res max''"

definition imperative_prefix :: string where
  "imperative_prefix = ''Utiliser l'' @ [CHR 0x27] @ ''imp'' @ E_acute @ ''ratif pr'' @ E_acute
     @ ''sent (add, fix, remove) '' @ Long_dash"

definition past_error_text :: string where
  "past_error_text = imperative_prefix @ '' pas le pass'' @ E_acute @ '' (added, fixed, removed)''"

definition gerund_error_text :: string where
  "gerund_error_text = imperative_prefix @ '' pas le g'' @ E_acute @ ''rondif (adding, fixing, removing)''"

definition vague_error_text :: "string \<Rightarrow> string" where
  "vague_error_text description = ''Description trop vague: \"'' @ description @ ''\". '' @ [CHR 0xCA]
     @ ''tre sp'' @ E_acute @ ''cifique sur ce qui a chang'' @ E_acute"

definition description_errors :: "string \<Rightarrow> string \<Rightarrow> string \<Rightarrow> string list" where
  "description_errors subject type description =
     (if type \<notin> set VALID_TYPES then [type_error_text type] else [])
     @ (case description of
          c # _ \<Rightarrow> if is_upper c
            then [''La description ne doit pas commencer par une majuscule apr'' @ E_grave
                  @ ''s le deux-points''] else []
        | [] \<Rightarrow> [])
     @ (if description \<noteq> [] \<and> last description = CHR ''.''
        then [''La description ne doit pas se terminer par un point''] else [])
     @ (if length subject > MAX_COMMIT_SUBJECT_LENGTH then [length_error_text subject] else [])
     @ (if starts_with_word PAST_TENSE description then [past_error_text] else [])
     @ (if starts_with_word GERUND description then [gerund_error_text] else [])
     @ (if map to_lower description \<in> set VAGUE_DESCRIPTIONS then [vague_error_text description] else [])"

definition validate_commit_message :: "string \<Rightarrow> bool \<times> string list" where
  "validate_commit_message message =
     (if trim message = [] then (False, [''Message de commit vide''])
      else let subject = subject_of message
      in case match_commit subject of
           None \<Rightarrow> (False, [FORMAT_ERROR])
         | Some (type, description) \<Rightarrow>
             if type = [] \<or> description = [] then (False, [FORMAT_ERROR])
             else let errors = description_errors subject type description
             in (errors = [], errors))"

subsection \<open>Structured feedback\<close>

definition SUBJECT_LIMIT_PREFIX :: string where
  "SUBJECT_LIMIT_PREFIX = ''Subject line trop long:''"

definition feedback_of :: "nat \<Rightarrow> string \<Rightarrow> string \<Rightarrow> feedback_error" where
  "feedback_of planIndex subject errorMessage =
     (let exceeds = starts_with SUBJECT_LIMIT_PREFIX errorMessage
      in \<lparr>fb_kind = Validation, fb_message = errorMessage @ '' on \"'' @ subject @ ''\"'',
          fb_resolution_hint = Some ''Rewrite only this commit message while preserving its file list and intent.'',
          fb_files = None, fb_planIndex = Some planIndex,
          fb_rule = Some (if exceeds then SubjectMaxLength else CommitMessageRule),
          fb_rejectedSubject = Some subject,
          fb_actualLength = (if exceeds then Some (length subject) else None),
          fb_maximumLength = (if exceeds then Some MAX_COMMIT_SUBJECT_LENGTH else None)\<rparr>)"

text \<open>Here the subject is the first line of the formatted message, untrimmed.\<close>

definition plan_feedback :: "nat \<Rightarrow> commit_plan \<Rightarrow> feedback_error list" where
  "plan_feedback planIndex plan =
     (let message = format_conventional_commit (cp_commit plan);
          subject = hd (split_on (CHR 0x0A) message)
      in map (feedback_of planIndex subject) (snd (validate_commit_message message)))"

fun collect_from :: "nat \<Rightarrow> commit_plan list \<Rightarrow> feedback_error list" where
  "collect_from i [] = []"
| "collect_from i (plan # plans) = plan_feedback i plan @ collect_from (Suc i) plans"

definition collect_commit_message_validation_errors :: "commit_plan list \<Rightarrow> feedback_error list" where
  "collect_commit_message_validation_errors plans = collect_from 0 plans"

subsection \<open>Repair\<close>

record repair_payload =
  rp_rejectedPlans :: "commit_plan list"
  rp_validationErrors :: "feedback_error list"

record repair_item =
  ri_planIndex :: nat
  ri_commit :: commit_message

datatype repair_error = SchemaMismatch | IndexMismatch | ProtectedFieldsChanged

definition requested_indexes :: "repair_payload \<Rightarrow> nat list" where
  "requested_indexes payload =
     sort (remdups (List.map_filter fb_planIndex (rp_validationErrors payload)))"

definition changes_protected :: "repair_payload \<Rightarrow> repair_item \<Rightarrow> bool" where
  "changes_protected payload r =
     (case nth_opt (rp_rejectedPlans payload) (ri_planIndex r) of
        None \<Rightarrow> True
      | Some plan \<Rightarrow>
          cm_type (ri_commit r) \<noteq> cm_type (cp_commit plan)
          \<or> cm_scope (ri_commit r) \<noteq> cm_scope (cp_commit plan)
          \<or> cm_isBreaking (ri_commit r) \<noteq> cm_isBreaking (cp_commit plan))"

text \<open>The response after the strict schema: \<^const>\<open>None\<close> when the schema rejects it. A later repair of
  the same index replaces an earlier one in the \<open>Map\<close>.\<close>

definition merge_commit_message_repairs ::
  "repair_payload \<Rightarrow> repair_item list option \<Rightarrow> repair_error + commit_plan list" where
  "merge_commit_message_repairs payload response =
     (case response of
        None \<Rightarrow> Inl SchemaMismatch
      | Some repairs \<Rightarrow>
          if sort (map ri_planIndex repairs) \<noteq> requested_indexes payload then Inl IndexMismatch
          else if list_ex (changes_protected payload) repairs then Inl ProtectedFieldsChanged
          else
            (let repaired = map_of (rev (map (\<lambda>r. (ri_planIndex r, ri_commit r)) repairs))
             in Inr (map (\<lambda>(i, plan). plan\<lparr>cp_commit := nullish (repaired i) (cp_commit plan)\<rparr>)
                       (enumerate 0 (rp_rejectedPlans payload)))))"


subsection \<open>Formatting and validating agree\<close>

text \<open>The subject line of a commit, and the commits whose parts do not disturb the syntax.\<close>

definition header :: "commit_message \<Rightarrow> string" where
  "header c = cm_type c
     @ (if truthy (cm_scope c) then ''('' @ nullish (cm_scope c) [] @ '')'' else [])
     @ (if cm_isBreaking c then ''!'' else []) @ '': '' @ cm_description c"

definition well_formed_commit :: "commit_message \<Rightarrow> bool" where
  "well_formed_commit c \<longleftrightarrow> cm_type c \<in> set VALID_TYPES
     \<and> (\<forall>x \<in> set (nullish (cm_scope c) []). x \<noteq> CHR '')'' \<and> x \<noteq> CHR 0x0A)
     \<and> cm_description c \<noteq> [] \<and> \<not> list_ex is_line_terminator (cm_description c)
     \<and> \<not> is_js_whitespace (last (cm_description c))"

lemma hd_split_on: "hd (split_on c s) = takeWhile (\<lambda>x. x \<noteq> c) s"
  by (induction s) (auto split: list.splits)

lemma trim_kept_head:
  assumes "h \<noteq> []" "\<not> is_js_whitespace (hd h)" "\<not> is_js_whitespace (last h)"
  shows "\<exists>n. trim (h @ x) = h @ take n x"
proof -
  have "trim_start (h @ x) = h @ x" using assms(1,2) by (cases h) (simp_all add: trim_start_def)
  then have t: "trim (h @ x) = rev (dropWhile is_js_whitespace (rev x @ rev h))"
    by (simp add: trim_def trim_start_def)
  show ?thesis
  proof (cases "\<forall>c \<in> set x. is_js_whitespace c")
    case True
    have "dropWhile is_js_whitespace (rev h) = rev h"
      using assms(1,3) by (cases h rule: rev_cases) simp_all
    then have "trim (h @ x) = h @ take 0 x" using t True by (simp add: dropWhile_append)
    then show ?thesis by blast
  next
    case False
    then have "trim (h @ x) = h @ rev (dropWhile is_js_whitespace (rev x))"
      using t by (auto simp: dropWhile_append)
    moreover have "rev (dropWhile is_js_whitespace (rev x)) =
        take (length (dropWhile is_js_whitespace (rev x))) x"
      by (metis append_eq_conv_conj length_rev rev_append rev_rev_ident takeWhile_dropWhile_id)
    ultimately show ?thesis by metis
  qed
qed

lemma subject_of_headed:
  assumes "h \<noteq> []" "\<not> is_js_whitespace (hd h)" "\<not> is_js_whitespace (last h)" "CHR 0x0A \<notin> set h"
    and "x = [] \<or> hd x = CHR 0x0A"
  shows "subject_of (h @ x) = h"
proof -
  obtain n where n: "trim (h @ x) = h @ take n x" using trim_kept_head[OF assms(1-3)] by blast
  have "takeWhile (\<lambda>c. c \<noteq> CHR 0x0A) (h @ take n x) = h"
    using assms(4,5) by (cases x; cases n) (auto simp: takeWhile_tail)
  moreover have "trim h = h" using trim_kept_head[OF assms(1-3), of "[]"] by simp
  ultimately show ?thesis using n by (simp add: subject_of_def hd_split_on)
qed

lemma valid_type_chars:
  "t \<in> set VALID_TYPES \<Longrightarrow> t \<noteq> [] \<and> (\<forall>c \<in> set t. is_word_char c \<and> c \<noteq> CHR 0x0A \<and> \<not> is_js_whitespace c)"
proof -
  have "list_all (\<lambda>t. t \<noteq> [] \<and> list_all (\<lambda>c. is_word_char c \<and> c \<noteq> CHR 0x0A \<and> \<not> is_js_whitespace c) t)
      VALID_TYPES" by code_simp
  then show "t \<in> set VALID_TYPES \<Longrightarrow> t \<noteq> [] \<and> (\<forall>c \<in> set t. is_word_char c \<and> c \<noteq> CHR 0x0A \<and> \<not> is_js_whitespace c)"
    by (auto simp: list_all_iff)
qed

lemma punctuation:
  "\<not> is_word_char (CHR ''('')" "\<not> is_word_char (CHR ''!'')" "\<not> is_word_char (CHR '':'')"
  "\<not> is_js_whitespace (CHR '':'')" "is_js_whitespace (CHR '' '')"
  by code_simp+

lemma after_colon_description:
  assumes "d \<noteq> []" "\<not> list_ex is_line_terminator d"
  shows "after_colon ('': '' @ d) = Some d"
  using assms punctuation by (simp add: after_colon_def)

lemma stop_at:
  "(\<And>c. c \<in> set t \<Longrightarrow> P c) \<Longrightarrow> \<not> P x \<Longrightarrow> takeWhile P (t @ x # r) = t"
  "(\<And>c. c \<in> set t \<Longrightarrow> P c) \<Longrightarrow> \<not> P x \<Longrightarrow> dropWhile P (t @ x # r) = x # r"
  by (induction t) auto

lemma match_header:
  assumes w: "well_formed_commit c"
  shows "match_commit (header c) = Some (cm_type c, cm_description c)"
proof -
  let ?colon = "'': '' @ cm_description c"
  let ?bang = "(if cm_isBreaking c then ''!'' else []) @ ?colon"
  let ?scope = "(if truthy (cm_scope c) then ''('' @ nullish (cm_scope c) [] @ '')'' else []) @ ?bang"
  have ty: "cm_type c \<noteq> []" "\<And>x. x \<in> set (cm_type c) \<Longrightarrow> is_word_char x"
    using w valid_type_chars[of "cm_type c"] by (auto simp: well_formed_commit_def)
  obtain x r where first: "?scope = x # r" "\<not> is_word_char x"
    using punctuation by (cases "truthy (cm_scope c)"; cases "cm_isBreaking c") auto
  then have "header c = cm_type c @ x # r" by (simp add: header_def)
  then have sp: "takeWhile is_word_char (header c) = cm_type c" "dropWhile is_word_char (header c) = ?scope"
    using ty(2) first by (simp_all add: stop_at)
  have col: "after_colon ?colon = Some (cm_description c)"
    using w by (intro after_colon_description) (auto simp: well_formed_commit_def)
  have bang: "skip_bang ?bang = ?colon" by (simp add: skip_bang_def)
  have "skip_scope ?scope = Some ?bang"
  proof (cases "truthy (cm_scope c)")
    case True
    then obtain sc where sc: "cm_scope c = Some sc" "sc \<noteq> []"
      by (auto simp: truthy_def split: option.splits)
    have "\<And>x. x \<in> set sc \<Longrightarrow> x \<noteq> CHR '')''" using w sc by (auto simp: well_formed_commit_def nullish_def)
    then show ?thesis using sc
      by (simp add: skip_scope_def truthy_def nullish_def Let_def takeWhile_append2 dropWhile_append2)
  qed (simp add: skip_scope_def)
  then show ?thesis using sp ty(1) bang col by (simp add: match_commit_def Let_def)
qed

lemma format_header:
  "format_conventional_commit c = header c @
     (if truthy (cm_body c) then CHR 0x0A # CHR 0x0A # nullish (cm_body c) [] else [])"
  by (simp add: format_conventional_commit_def header_def)

lemma header_shape:
  assumes w: "well_formed_commit c"
  shows "header c \<noteq> []" "\<not> is_js_whitespace (hd (header c))" "\<not> is_js_whitespace (last (header c))"
    "CHR 0x0A \<notin> set (header c)"
proof -
  have ty: "cm_type c \<noteq> []" "\<And>x. x \<in> set (cm_type c) \<Longrightarrow> x \<noteq> CHR 0x0A \<and> \<not> is_js_whitespace x"
    using w valid_type_chars[of "cm_type c"] by (auto simp: well_formed_commit_def)
  have d: "cm_description c \<noteq> []" "\<not> is_js_whitespace (last (cm_description c))"
    "CHR 0x0A \<notin> set (cm_description c)"
    using w by (auto simp: well_formed_commit_def list_ex_iff is_line_terminator_def)
  have sc: "CHR 0x0A \<notin> set (nullish (cm_scope c) [])" using w by (auto simp: well_formed_commit_def)
  obtain y where y: "header c = cm_type c @ y" by (simp add: header_def)
  obtain z where z: "header c = z @ cm_description c"
    by (simp add: header_def)
  show "header c \<noteq> []" using y ty(1) by simp
  have "hd (header c) \<in> set (cm_type c)" using y ty(1) by (simp add: hd_in_set)
  then show "\<not> is_js_whitespace (hd (header c))" using ty(2) by blast
  show "\<not> is_js_whitespace (last (header c))" using z d(1,2) by simp
  show "CHR 0x0A \<notin> set (header c)"
    using ty(2) d(3) sc by (cases "truthy (cm_scope c)"; cases "cm_isBreaking c") (auto simp: header_def)
qed

lemma subject_of_format:
  assumes w: "well_formed_commit c"
  shows "subject_of (format_conventional_commit c) = header c"
  unfolding format_header using header_shape[OF w] by (intro subject_of_headed) auto

lemma format_not_blank:
  assumes w: "well_formed_commit c"
  shows "trim (format_conventional_commit c) \<noteq> []"
  unfolding format_header
  using trim_kept_head[OF header_shape(1-3)[OF w]] header_shape(1)[OF w] by (metis append_is_Nil_conv)

text \<open>The validator reads back what the formatter wrote. For a commit whose parts respect the
  grammar, whatever its body, the formatted message is parsed to exactly its type and description, and
  the verdict is the style rules applied to them and to the subject line: the body never matters.\<close>

theorem validator_reads_formatted_commit:
  assumes w: "well_formed_commit c"
  shows "match_commit (subject_of (format_conventional_commit c)) = Some (cm_type c, cm_description c) \<and>
    validate_commit_message (format_conventional_commit c) =
      (description_errors (header c) (cm_type c) (cm_description c) = [],
       description_errors (header c) (cm_type c) (cm_description c))"
proof -
  have ne: "cm_type c \<noteq> []" "cm_description c \<noteq> []"
    using w valid_type_chars[of "cm_type c"] by (auto simp: well_formed_commit_def)
  show ?thesis
    using ne format_not_blank[OF w]
    by (simp add: validate_commit_message_def Let_def subject_of_format[OF w] match_header[OF w])
qed


definition sample_commit :: commit_message where
  "sample_commit = \<lparr>cm_type = ''feat'', cm_scope = Some ''api'', cm_description = ''support batch uploads'',
     cm_body = Some ''Details.'', cm_isBreaking = True\<rparr>"

theorem validator_reads_formatted_commit_witness:
  "match_commit (subject_of (format_conventional_commit sample_commit)) =
     Some (''feat'', ''support batch uploads'') \<and>
   fst (validate_commit_message (format_conventional_commit sample_commit))"
proof -
  have "well_formed_commit sample_commit" by code_simp
  moreover have "description_errors (header sample_commit) (cm_type sample_commit)
      (cm_description sample_commit) = []" by code_simp
  ultimately show ?thesis
    using validator_reads_formatted_commit[of sample_commit] by (simp add: sample_commit_def)
qed

subsection \<open>The indexes of the feedback\<close>

lemma collect_from_index:
  "e \<in> set (collect_from i plans) \<Longrightarrow>
     \<exists>j. fb_planIndex e = Some j \<and> i \<le> j \<and> j < i + length plans \<and> fb_kind e = Validation"
  by (induction i plans rule: collect_from.induct)
    (auto simp: plan_feedback_def Let_def feedback_of_def)

lemma collected_kind:
  "e \<in> set (collect_commit_message_validation_errors plans) \<Longrightarrow> fb_kind e = Validation"
  using collect_from_index by (fastforce simp: collect_commit_message_validation_errors_def)

lemma collect_from_Nil:
  "collect_from i plans = [] \<longleftrightarrow>
     (\<forall>plan \<in> set plans. snd (validate_commit_message (format_conventional_commit (cp_commit plan))) = [])"
  by (induction i plans rule: collect_from.induct) (auto simp: plan_feedback_def Let_def)

subsection \<open>A repair changes messages only\<close>

lemma nth_enumerate: "i < length xs \<Longrightarrow> enumerate 0 xs ! i = (i, xs ! i)"
  by (simp add: nth_enumerate_eq)

lemma merge_inv:
  assumes "merge_commit_message_repairs payload response = Inr plans"
  obtains repairs where "response = Some repairs"
    "sort (map ri_planIndex repairs) = requested_indexes payload"
    "\<And>r. r \<in> set repairs \<Longrightarrow> \<not> changes_protected payload r"
    "plans = map (\<lambda>(i, plan). plan\<lparr>cp_commit := nullish (map_of (rev (map (\<lambda>r. (ri_planIndex r, ri_commit r)) repairs)) i)
       (cp_commit plan)\<rparr>) (enumerate 0 (rp_rejectedPlans payload))"
  using assms
  by (auto simp: merge_commit_message_repairs_def Let_def list_ex_iff split: option.splits if_splits)

lemma repair_lookup:
  assumes "map_of (rev (map (\<lambda>r. (ri_planIndex r, ri_commit r)) repairs)) i = Some c"
  shows "\<exists>r \<in> set repairs. ri_planIndex r = i \<and> ri_commit r = c"
  using map_of_SomeD[OF assms] by auto

lemma repair_lookup_None:
  "map_of (rev (map (\<lambda>r. (ri_planIndex r, ri_commit r)) repairs)) i = None \<longleftrightarrow>
     i \<notin> ri_planIndex ` set repairs"
  by (force simp: map_of_eq_None_iff)

text \<open>C40. Repairing commit messages can only reword them. A merged repair keeps the number and the order of
  the plans and the files of each; the type, the scope and the breaking flag of each commit are
  unchanged; a plan whose index was not requested is untouched; and every requested index got the
  commit of one item of the response.\<close>

theorem repair_preserves_plans:
  assumes "merge_commit_message_repairs payload response = Inr plans"
  shows "map cp_files plans = map cp_files (rp_rejectedPlans payload) \<and>
    (\<forall>i < length plans.
       cm_type (cp_commit (plans ! i)) = cm_type (cp_commit (rp_rejectedPlans payload ! i)) \<and>
       cm_scope (cp_commit (plans ! i)) = cm_scope (cp_commit (rp_rejectedPlans payload ! i)) \<and>
       cm_isBreaking (cp_commit (plans ! i)) = cm_isBreaking (cp_commit (rp_rejectedPlans payload ! i)) \<and>
       (i \<notin> set (requested_indexes payload) \<longrightarrow> plans ! i = rp_rejectedPlans payload ! i) \<and>
       (i \<in> set (requested_indexes payload) \<longrightarrow>
          (\<exists>repairs r. response = Some repairs \<and> r \<in> set repairs \<and> ri_planIndex r = i \<and>
             cp_commit (plans ! i) = ri_commit r)))"
proof -
  let ?old = "rp_rejectedPlans payload"
  obtain repairs where R: "response = Some repairs"
    "sort (map ri_planIndex repairs) = requested_indexes payload"
    "\<And>r. r \<in> set repairs \<Longrightarrow> \<not> changes_protected payload r"
    "plans = map (\<lambda>(i, plan). plan\<lparr>cp_commit := nullish (map_of (rev (map (\<lambda>r. (ri_planIndex r, ri_commit r)) repairs)) i)
       (cp_commit plan)\<rparr>) (enumerate 0 ?old)"
    using merge_inv[OF assms] by blast
  let ?m = "map_of (rev (map (\<lambda>r. (ri_planIndex r, ri_commit r)) repairs))"
  have len: "length plans = length ?old" using R(4) by simp
  have at: "plans ! i = (?old ! i)\<lparr>cp_commit := nullish (?m i) (cp_commit (?old ! i))\<rparr>"
    if "i < length plans" for i
    using that len R(4) by (simp add: nth_enumerate)
  have files: "map cp_files plans = map cp_files ?old"
    by (rule nth_equalityI) (simp_all add: len at)
  have idx: "set (requested_indexes payload) = ri_planIndex ` set repairs"
    using R(2) by (metis set_map set_sort)
  have "cm_type (cp_commit (plans ! i)) = cm_type (cp_commit (?old ! i)) \<and>
       cm_scope (cp_commit (plans ! i)) = cm_scope (cp_commit (?old ! i)) \<and>
       cm_isBreaking (cp_commit (plans ! i)) = cm_isBreaking (cp_commit (?old ! i)) \<and>
       (i \<notin> set (requested_indexes payload) \<longrightarrow> plans ! i = ?old ! i) \<and>
       (i \<in> set (requested_indexes payload) \<longrightarrow>
          (\<exists>repairs r. response = Some repairs \<and> r \<in> set repairs \<and> ri_planIndex r = i \<and>
             cp_commit (plans ! i) = ri_commit r))" if i: "i < length plans" for i
  proof (cases "?m i")
    case None
    then have "i \<notin> set (requested_indexes payload)" using idx repair_lookup_None by blast
    then show ?thesis using at[OF i] None by (simp add: nullish_def)
  next
    case (Some c)
    then obtain r where r: "r \<in> set repairs" "ri_planIndex r = i" "ri_commit r = c"
      using repair_lookup by blast
    then have "\<not> changes_protected payload r" using R(3) by blast
    then show ?thesis
      using at[OF i] Some r R(1) idx i len
      by (auto simp: changes_protected_def nth_opt_def nullish_def)
  qed
  with files show ?thesis by blast
qed

definition sample_repair :: repair_payload where
  "sample_repair = \<lparr>rp_rejectedPlans =
       [\<lparr>cp_commit = sample_commit, cp_files = [''a'']\<rparr>,
        \<lparr>cp_commit = sample_commit\<lparr>cm_description := ''Updated.''\<rparr>, cp_files = [''b'', ''c'']\<rparr>],
     rp_validationErrors = [plain_error Validation ''m'' None None\<lparr>fb_planIndex := Some 1\<rparr>]\<rparr>"

definition sample_response :: "repair_item list" where
  "sample_response = [\<lparr>ri_planIndex = 1, ri_commit = sample_commit\<rparr>]"

lemma sample_merge:
  "merge_commit_message_repairs sample_repair (Some sample_response) =
     Inr [\<lparr>cp_commit = sample_commit, cp_files = [''a'']\<rparr>,
          \<lparr>cp_commit = sample_commit, cp_files = [''b'', ''c'']\<rparr>]"
  by code_simp

theorem repair_preserves_plans_witness:
  "map cp_files (rp_rejectedPlans sample_repair) = [[''a''], [''b'', ''c'']] \<and>
   cm_type sample_commit = cm_type (cp_commit (rp_rejectedPlans sample_repair ! 1))"
  using repair_preserves_plans[OF sample_merge] by auto

end
