(* ===== verification/Posix_Paths.thy ===== *)
theory Posix_Paths
  imports Prelude
begin

text \<open>
  The path functions of the Node library the program uses (\<open>node:path\<close> on POSIX): normalization, absolute
  paths, joining; and the state locations of \<open>src/src/modules/reconciliation/reconciler-paths.ts\<close>.
\<close>

subsection \<open>Node paths\<close>

text \<open>\<open>path.posix.normalize\<close>: empty and \<open>.\<close> segments disappear, \<open>..\<close> removes the segment before it.
  \<open>acc\<close> holds the kept segments, the last one first.\<close>

fun normalize_segments :: "bool \<Rightarrow> string list \<Rightarrow> string list \<Rightarrow> string list" where
  "normalize_segments allowAbove acc [] = rev acc"
| "normalize_segments allowAbove acc (s # segs) =
     (if s = [] \<or> s = ''.'' then normalize_segments allowAbove acc segs
      else if s = ''..'' then
        (case acc of
           [] \<Rightarrow> normalize_segments allowAbove (if allowAbove then [''..''] else []) segs
         | t # acc' \<Rightarrow>
             if t = ''..'' then normalize_segments allowAbove (''..'' # acc) segs
             else normalize_segments allowAbove acc' segs)
      else normalize_segments allowAbove (s # acc) segs)"

definition is_absolute :: "string \<Rightarrow> bool" where
  "is_absolute p \<longleftrightarrow> p \<noteq> [] \<and> hd p = CHR ''/''"

definition posix_normalize :: "string \<Rightarrow> string" where
  "posix_normalize p =
     (if p = [] then ''.''
      else let abs = is_absolute p;
               trailing = last p = CHR ''/'';
               body = join ''/'' (normalize_segments (\<not> abs) [] (split_on (CHR ''/'') p))
      in if body = [] then (if abs then ''/'' else if trailing then ''./'' else ''.'')
         else (if abs then ''/'' else []) @ body @ (if trailing then ''/'' else []))"

definition strip_trailing_slashes :: "string \<Rightarrow> string" where
  "strip_trailing_slashes p = rev (dropWhile (\<lambda>c. c = CHR ''/'') (rev p))"

text \<open>\<open>path.join\<close> drops empty segments.\<close>

definition path_join_all :: "string list \<Rightarrow> string" where
  "path_join_all segs = posix_normalize (join ''/'' (filter (\<lambda>s. s \<noteq> []) segs))"

definition path_join :: "string \<Rightarrow> string \<Rightarrow> string" where
  "path_join a b = path_join_all [a, b]"

definition path_segments :: "string \<Rightarrow> string list" where
  "path_segments p = normalize_segments False [] (split_on (CHR ''/'') p)"

text \<open>\<open>path.resolve\<close> from an absolute directory.\<close>

definition path_resolve :: "string \<Rightarrow> string \<Rightarrow> string" where
  "path_resolve directory p =
     CHR ''/'' # join ''/'' (path_segments (if is_absolute p then p else directory @ ''/'' @ p))"

definition posix_basename :: "string \<Rightarrow> string" where
  "posix_basename p = after_last (CHR ''/'') (strip_trailing_slashes p)"

text \<open>\<open>path.extname\<close>.\<close>

definition posix_extname :: "string \<Rightarrow> string" where
  "posix_extname p =
     (let b = posix_basename p; ext = after_last (CHR ''.'') b in
      if CHR ''.'' \<notin> set b \<or> b = ''..'' \<or> length b = Suc (length ext) then [] else CHR ''.'' # ext)"

text \<open>\<open>path.posix.dirname\<close>: the path up to the last slash that is not trailing, without it. The slash at position
  0 is the root.\<close>

definition posix_dirname :: "string \<Rightarrow> string" where
  "posix_dirname p =
     (let q = strip_trailing_slashes p; parent = take (length q - length (after_last (CHR ''/'') q)) q
      in if length parent \<le> 1 then (if is_absolute p then ''/'' else ''.'')
         else if length parent = 2 \<and> is_absolute p then ''//''
         else butlast parent)"

text \<open>Going up ends: the measure of a path that has a parent of its own is above its parent's.\<close>

definition path_height :: "string \<Rightarrow> nat" where
  "path_height p = (if p = ''.'' then 0 else Suc (length p))"

lemma strip_trailing_length: "length (strip_trailing_slashes p) \<le> length p"
  using length_dropWhile_le[of "\<lambda>c. c = CHR ''/''" "rev p"] by (simp add: strip_trailing_slashes_def)

lemma dirname_height:
  assumes "posix_dirname p \<noteq> p"
  shows "path_height (posix_dirname p) < path_height p"
proof -
  define q where "q = strip_trailing_slashes p"
  define parent where "parent = take (length q - length (after_last (CHR ''/'') q)) q"
  have len: "length parent \<le> length p"
    using strip_trailing_length[of p] by (simp add: parent_def q_def)
  have dir: "posix_dirname p = (if length parent \<le> 1 then (if is_absolute p then ''/'' else ''.'')
         else if length parent = 2 \<and> is_absolute p then ''//'' else butlast parent)"
    by (simp add: posix_dirname_def q_def parent_def Let_def)
  show ?thesis
  proof (cases "length parent \<le> 1")
    case True
    then have "is_absolute p \<Longrightarrow> p \<noteq> ''/'' \<Longrightarrow> length p > 1"
      by (cases p; cases "tl p") (auto simp: is_absolute_def)
    then show ?thesis using True assms dir by (auto simp: path_height_def is_absolute_def)
  next
    case False
    show ?thesis
    proof (cases "length parent = 2 \<and> is_absolute p")
      case True
      have "p \<noteq> ''//'' \<Longrightarrow> length p > 2"
      proof (rule ccontr)
        assume "p \<noteq> ''//''" "\<not> length p > 2"
        then have "length p = 2" using len True by simp
        then obtain a b where p: "p = [a, b]" by (auto simp: numeral_2_eq_2 length_Suc_conv)
        have "length q = 2" using True len strip_trailing_length[of p] by (auto simp: parent_def q_def p split: if_splits)
        then have "b \<noteq> CHR ''/''" "q = p" by (auto simp: q_def strip_trailing_slashes_def p split: if_splits)
        then show False using True by (auto simp: parent_def p after_last_def split: if_splits)
      qed
      then show ?thesis using True False assms dir by (auto simp: path_height_def split: if_splits)
    next
      case two: False
      then have "posix_dirname p = butlast parent" using dir False by auto
      then show ?thesis using False len by (auto simp: path_height_def split: if_splits)
    qed
  qed
qed

subsection \<open>State locations\<close>

text \<open>The environment is a partial function; a thrown error is its message.\<close>

type_synonym environment = "string \<Rightarrow> string option"

definition RECONCILER_DB_FILE_NAME :: string where "RECONCILER_DB_FILE_NAME = ''reconciler.sqlite''"
definition APPLICATION_STATE_DIRECTORY_NAME :: string where "APPLICATION_STATE_DIRECTORY_NAME = ''git-commits-push''"
definition RECONCILER_STATE_DIRECTORY_NAME :: string where "RECONCILER_STATE_DIRECTORY_NAME = ''orders''"
definition NODE_CUTOVER_CLOSURE_LEDGER_FILE_NAME :: string where
  "NODE_CUTOVER_CLOSURE_LEDGER_FILE_NAME = ''node-cutover-closures.json''"

definition expand_home :: "string \<Rightarrow> string \<Rightarrow> string" where
  "expand_home candidate home =
     (if candidate = ''~'' then home
      else if starts_with ''~/'' candidate then path_join home (drop 2 candidate)
      else candidate)"

definition require_absolute_path :: "string \<Rightarrow> string \<Rightarrow> string + string" where
  "require_absolute_path candidate variableName =
     (if \<not> is_absolute candidate then Inl (variableName @ '' must resolve to an absolute path.'')
      else Inr (posix_normalize candidate))"

definition resolve_application_state_directory :: "environment \<Rightarrow> string \<Rightarrow> string + string" where
  "resolve_application_state_directory env home =
     (case env ''XDG_STATE_HOME'' of
        Some (c # cs) \<Rightarrow>
          map_sum id (\<lambda>stateHome. path_join stateHome APPLICATION_STATE_DIRECTORY_NAME)
            (require_absolute_path (expand_home (c # cs) home) ''XDG_STATE_HOME'')
      | _ \<Rightarrow> Inr (path_join_all [home, ''.local'', ''state'', APPLICATION_STATE_DIRECTORY_NAME]))"

definition resolve_reconciler_state_directory :: "environment \<Rightarrow> string \<Rightarrow> string + string" where
  "resolve_reconciler_state_directory env home =
     (case env ''ORDER_STATE_DIR'' of
        Some d \<Rightarrow> require_absolute_path (expand_home d home) ''ORDER_STATE_DIR''
      | None \<Rightarrow> map_sum id (\<lambda>d. path_join d RECONCILER_STATE_DIRECTORY_NAME)
                 (resolve_application_state_directory env home))"

definition resolve_node_cutover_closure_ledger_path :: "environment \<Rightarrow> string \<Rightarrow> string + string" where
  "resolve_node_cutover_closure_ledger_path env home =
     (case env ''GCP_NODE_CUTOVER_CLOSURE_LEDGER'' of
        Some d \<Rightarrow> require_absolute_path (expand_home d home) ''GCP_NODE_CUTOVER_CLOSURE_LEDGER''
      | None \<Rightarrow> map_sum id (\<lambda>d. path_join d NODE_CUTOVER_CLOSURE_LEDGER_FILE_NAME)
                 (resolve_application_state_directory env home))"

definition resolve_reconciler_db_path :: "string \<Rightarrow> string" where
  "resolve_reconciler_db_path stateDirectory = path_join stateDirectory RECONCILER_DB_FILE_NAME"

text \<open>Without \<open>ORDER_STATE_DIR\<close> the two directories are found or refused together.\<close>

lemma state_directory_default:
  "env ''ORDER_STATE_DIR'' = None \<Longrightarrow> resolve_application_state_directory env home = Inr d \<Longrightarrow>
     \<exists>s. resolve_reconciler_state_directory env home = Inr s"
  by (simp add: resolve_reconciler_state_directory_def)

end
