(* ===== verification/Git_Ops.thy ===== *)
theory Git_Ops
  imports Commit_Types Posix_Paths
begin

text \<open>
  Git as the pipeline uses it. The processes it starts and the file system, with their state \<open>'w\<close>, are
  outside the source: a \<open>git_env\<close> says what \<open>execFileSync("git", args)\<close> (through \<open>git-exec.ts\<close>), a
  shell command of \<open>execSync\<close>, a write and a probe of a file answer. Every call is recorded in order in
  \<open>gs_calls\<close>, with its answer, so the properties can speak of what was run. On top of it:
  \<open>diff.ts\<close> and \<open>reset-index.ts\<close>.
\<close>

subsection \<open>Calls\<close>

record git_failure =
  gf_message :: string
  gf_status :: "int option"
  gf_stdout :: "string option"
  gf_stderr :: "string option"

type_synonym process_config = "(string \<times> string) list"

datatype git_call =
    GitArgs process_config "string list" "git_failure + string"
  | Shell string "git_failure + string"
  | WroteFile string string "string option"
  | RemovedFile string
  | ProbedPath string "string + bool"
  | RanNode "string list" "git_failure + string"

record 'w git_state =
  gs_world :: 'w
  gs_calls :: "git_call list"

record 'w git_env =
  ge_git :: "process_config \<Rightarrow> string list \<Rightarrow> 'w \<Rightarrow> (git_failure + string) \<times> 'w"
  ge_shell :: "string \<Rightarrow> 'w \<Rightarrow> (git_failure + string) \<times> 'w"
  ge_node :: "string list \<Rightarrow> 'w \<Rightarrow> (git_failure + string) \<times> 'w"
  ge_write :: "string \<Rightarrow> string \<Rightarrow> 'w \<Rightarrow> string option \<times> 'w"
  ge_remove :: "string \<Rightarrow> 'w \<Rightarrow> 'w"
  ge_exists :: "string \<Rightarrow> 'w \<Rightarrow> string + bool"
  ge_sanitize :: "string \<Rightarrow> string"
  ge_sha256 :: "string \<Rightarrow> string"
  ge_uuid :: "'w \<Rightarrow> string"
  ge_temp_path :: "nat \<Rightarrow> 'w \<Rightarrow> string"

definition log_call :: "git_call \<Rightarrow> 'w \<Rightarrow> 'w git_state \<Rightarrow> 'w git_state" where
  "log_call c w st = st\<lparr>gs_world := w, gs_calls := gs_calls st @ [c]\<rparr>"

text \<open>\<open>gitExecArgsRaw\<close>, \<open>gitExecArgs\<close> and \<open>execSync\<close>.\<close>

definition git_exec_args_raw ::
  "'w git_env \<Rightarrow> process_config \<Rightarrow> string list \<Rightarrow> 'w git_state \<Rightarrow> (git_failure + string) \<times> 'w git_state" where
  "git_exec_args_raw env cfg args st =
     (let (r, w) = ge_git env cfg args (gs_world st) in (r, log_call (GitArgs cfg args r) w st))"

definition git_exec_args ::
  "'w git_env \<Rightarrow> process_config \<Rightarrow> string list \<Rightarrow> 'w git_state \<Rightarrow> (git_failure + string) \<times> 'w git_state" where
  "git_exec_args env cfg args st =
     (case git_exec_args_raw env cfg args st of
        (Inl e, st1) \<Rightarrow> (Inl e, st1)
      | (Inr out, st1) \<Rightarrow> (Inr (trim out), st1))"

definition exec_shell ::
  "'w git_env \<Rightarrow> string \<Rightarrow> 'w git_state \<Rightarrow> (git_failure + string) \<times> 'w git_state" where
  "exec_shell env command st =
     (let (r, w) = ge_shell env command (gs_world st) in (r, log_call (Shell command r) w st))"

definition exec_node ::
  "'w git_env \<Rightarrow> string list \<Rightarrow> 'w git_state \<Rightarrow> (git_failure + string) \<times> 'w git_state" where
  "exec_node env args st =
     (let (r, w) = ge_node env args (gs_world st) in (r, log_call (RanNode args r) w st))"

text \<open>A computation over the calls that returns or throws, and its composition. \<open>only P m\<close>: every call
  \<open>m\<close> makes satisfies \<open>P\<close>.\<close>

type_synonym ('e, 'a, 'w) git_m = "'w git_state \<Rightarrow> ('e + 'a) \<times> 'w git_state"

definition ret :: "'a \<Rightarrow> ('e, 'a, 'w) git_m" where
  "ret v st = (Inr v, st)"

definition throw :: "'e \<Rightarrow> ('e, 'a, 'w) git_m" where
  "throw e st = (Inl e, st)"

definition bindE :: "('e, 'a, 'w) git_m \<Rightarrow> ('a \<Rightarrow> ('e, 'b, 'w) git_m) \<Rightarrow> ('e, 'b, 'w) git_m" where
  "bindE m f st = (case m st of (Inl e, st1) \<Rightarrow> (Inl e, st1) | (Inr v, st1) \<Rightarrow> f v st1)"

text \<open>\<open>try { m } catch (e) { h(e) }\<close>.\<close>

definition catchE :: "('e, 'a, 'w) git_m \<Rightarrow> ('e \<Rightarrow> ('f, 'a, 'w) git_m) \<Rightarrow> ('f, 'a, 'w) git_m" where
  "catchE m h st = (case m st of (Inl e, st1) \<Rightarrow> h e st1 | (Inr v, st1) \<Rightarrow> (Inr v, st1))"

definition only :: "(git_call \<Rightarrow> bool) \<Rightarrow> ('e, 'a, 'w) git_m \<Rightarrow> bool" where
  "only P m \<longleftrightarrow> (\<forall>st. \<exists>cs. gs_calls (snd (m st)) = gs_calls st @ cs \<and> list_all P cs)"

named_theorems only_rules

lemma only_ret [only_rules]: "only P (ret v)"
  by (simp add: only_def ret_def)

lemma only_throw [only_rules]: "only P (throw e)"
  by (simp add: only_def throw_def)

lemma only_bind [only_rules]:
  assumes "only P m" "\<And>v. only P (f v)"
  shows "only P (bindE m f)"
  unfolding only_def
proof
  fix st
  obtain r st1 where m: "m st = (r, st1)" by fastforce
  obtain cs where cs: "gs_calls st1 = gs_calls st @ cs" "list_all P cs"
    using assms(1) m unfolding only_def by (metis snd_conv)
  show "\<exists>cs. gs_calls (snd (bindE m f st)) = gs_calls st @ cs \<and> list_all P cs"
  proof (cases r)
    case (Inr v)
    obtain ds where "gs_calls (snd (f v st1)) = gs_calls st1 @ ds" "list_all P ds"
      using assms(2) unfolding only_def by blast
    with cs m Inr show ?thesis by (simp add: bindE_def)
  qed (use cs m in \<open>simp add: bindE_def\<close>)
qed

lemma only_catch [only_rules]:
  assumes "only P m" "\<And>e. only P (h e)"
  shows "only P (catchE m h)"
  unfolding only_def
proof
  fix st
  obtain r st1 where m: "m st = (r, st1)" by fastforce
  obtain cs where cs: "gs_calls st1 = gs_calls st @ cs" "list_all P cs"
    using assms(1) m unfolding only_def by (metis snd_conv)
  show "\<exists>cs. gs_calls (snd (catchE m h st)) = gs_calls st @ cs \<and> list_all P cs"
  proof (cases r)
    case (Inl e)
    obtain ds where "gs_calls (snd (h e st1)) = gs_calls st1 @ ds" "list_all P ds"
      using assms(2) unfolding only_def by blast
    with cs m Inl show ?thesis by (simp add: catchE_def)
  qed (use cs m in \<open>simp add: catchE_def\<close>)
qed

lemma only_if [only_rules]: "only P m \<Longrightarrow> only P n \<Longrightarrow> only P (if b then m else n)"
  by simp

lemma only_raw [only_rules]:
  "(\<And>r. P (GitArgs cfg args r)) \<Longrightarrow> only P (git_exec_args_raw env cfg args)"
  by (auto simp: only_def git_exec_args_raw_def log_call_def split: prod.splits)

lemma only_args [only_rules]:
  "(\<And>r. P (GitArgs cfg args r)) \<Longrightarrow> only P (git_exec_args env cfg args)"
  by (auto simp: only_def git_exec_args_def git_exec_args_raw_def log_call_def split: prod.splits sum.splits)

lemma only_shell [only_rules]:
  "(\<And>r. P (Shell command r)) \<Longrightarrow> only P (exec_shell env command)"
  by (auto simp: only_def exec_shell_def log_call_def split: prod.splits)

lemma only_node [only_rules]:
  "(\<And>r. P (RanNode args r)) \<Longrightarrow> only P (exec_node env args)"
  by (auto simp: only_def exec_node_def log_call_def split: prod.splits)

lemma only_mono: "only P m \<Longrightarrow> (\<And>c. P c \<Longrightarrow> Q c) \<Longrightarrow> only Q m"
  unfolding only_def by (meson list.pred_mono_strong)

lemma onlyD:
  "only P m \<Longrightarrow> m st = (r, st') \<Longrightarrow> \<exists>cs. gs_calls st' = gs_calls st @ cs \<and> list_all P cs"
  unfolding only_def by (metis snd_conv)

text \<open>\<open>at_most A n m\<close>: \<open>m\<close> makes at most \<open>n\<close> calls that satisfy \<open>A\<close>.\<close>

definition at_most :: "(git_call \<Rightarrow> bool) \<Rightarrow> nat \<Rightarrow> ('e, 'a, 'w) git_m \<Rightarrow> bool" where
  "at_most A n m \<longleftrightarrow>
     (\<forall>st. \<exists>cs. gs_calls (snd (m st)) = gs_calls st @ cs \<and> length (filter A cs) \<le> n)"

lemma at_most_none: "only (\<lambda>c. \<not> A c) m \<Longrightarrow> at_most A 0 m"
  unfolding only_def at_most_def by (metis (no_types, lifting) filter_False le_numeral_extra(3) list.pred_set list.size(3))

lemma at_most_mono: "at_most A n m \<Longrightarrow> n \<le> k \<Longrightarrow> at_most A k m"
  unfolding at_most_def by (meson order.trans)

lemma at_most_bind:
  assumes "at_most A n m" "\<And>v. at_most A k (f v)"
  shows "at_most A (n + k) (bindE m f)"
  unfolding at_most_def
proof
  fix st
  obtain r st1 where m: "m st = (r, st1)" by fastforce
  obtain cs where cs: "gs_calls st1 = gs_calls st @ cs" "length (filter A cs) \<le> n"
    using assms(1) m unfolding at_most_def by (metis snd_conv)
  show "\<exists>cs. gs_calls (snd (bindE m f st)) = gs_calls st @ cs \<and> length (filter A cs) \<le> n + k"
  proof (cases r)
    case (Inr v)
    obtain ds where "gs_calls (snd (f v st1)) = gs_calls st1 @ ds" "length (filter A ds) \<le> k"
      using assms(2) unfolding at_most_def by blast
    with cs m Inr show ?thesis by (simp add: bindE_def add_mono)
  qed (use cs m in \<open>simp add: bindE_def\<close>)
qed

lemma at_most_catch:
  assumes "at_most A n m" "\<And>e. at_most A k (h e)"
  shows "at_most A (n + k) (catchE m h)"
  unfolding at_most_def
proof
  fix st
  obtain r st1 where m: "m st = (r, st1)" by fastforce
  obtain cs where cs: "gs_calls st1 = gs_calls st @ cs" "length (filter A cs) \<le> n"
    using assms(1) m unfolding at_most_def by (metis snd_conv)
  show "\<exists>cs. gs_calls (snd (catchE m h st)) = gs_calls st @ cs \<and> length (filter A cs) \<le> n + k"
  proof (cases r)
    case (Inl e)
    obtain ds where "gs_calls (snd (h e st1)) = gs_calls st1 @ ds" "length (filter A ds) \<le> k"
      using assms(2) unfolding at_most_def by blast
    with cs m Inl show ?thesis by (simp add: catchE_def add_mono)
  qed (use cs m in \<open>simp add: catchE_def\<close>)
qed

lemma at_most_ret: "at_most A n (ret v)"
  by (simp add: at_most_def ret_def)

lemma at_most_throw: "at_most A n (throw e)"
  by (simp add: at_most_def throw_def)

lemma at_most_args: "at_most A 1 (git_exec_args env cfg args)"
  by (auto simp: at_most_def git_exec_args_def git_exec_args_raw_def log_call_def split: prod.splits sum.splits)

text \<open>\<open>throws Q m\<close>: whatever \<open>m\<close> throws satisfies \<open>Q\<close>.\<close>

definition throws :: "('e \<Rightarrow> bool) \<Rightarrow> ('e, 'a, 'w) git_m \<Rightarrow> bool" where
  "throws Q m \<longleftrightarrow> (\<forall>st e st'. m st = (Inl e, st') \<longrightarrow> Q e)"

named_theorems throws_rules

lemma throws_ret [throws_rules]: "throws Q (ret v)"
  by (simp add: throws_def ret_def)

lemma throws_throw [throws_rules]: "Q e \<Longrightarrow> throws Q (throw e)"
  by (simp add: throws_def throw_def)

lemma throws_bind [throws_rules]:
  "throws Q m \<Longrightarrow> (\<And>v. throws Q (f v)) \<Longrightarrow> throws Q (bindE m f)"
  unfolding throws_def bindE_def by (fastforce split: prod.splits sum.splits)

lemma throws_catch [throws_rules]: "(\<And>e. throws Q (h e)) \<Longrightarrow> throws Q (catchE m h)"
  unfolding throws_def catchE_def by (fastforce split: prod.splits sum.splits)

lemma throws_if [throws_rules]: "throws Q m \<Longrightarrow> throws Q n \<Longrightarrow> throws Q (if b then m else n)"
  by simp

lemma bindE_cases:
  assumes "bindE m f st = (r, st')"
  obtains e where "m st = (Inl e, st')" "r = Inl e"
  | v st1 where "m st = (Inr v, st1)" "f v st1 = (r, st')"
  using assms by (auto simp: bindE_def split: prod.splits sum.splits)

text \<open>A computation that returned: every step of it returned.\<close>

lemma bindE_returns:
  "bindE m f st = (Inr v, st') \<longleftrightarrow> (\<exists>u st1. m st = (Inr u, st1) \<and> f u st1 = (Inr v, st'))"
  by (auto simp: bindE_def split: prod.splits sum.splits)

lemma bindE_assoc: "bindE (bindE m f) g = bindE m (\<lambda>v. bindE (f v) g)"
  by (rule ext) (simp add: bindE_def split: prod.splits sum.splits)

lemma bindE_ret: "bindE (ret v) f = f v"
  by (rule ext) (simp add: bindE_def ret_def)

lemma throw_returns [simp]: "throw e st \<noteq> (Inr v, st')"
  by (simp add: throw_def)

lemma ret_returns [simp]: "ret u st = (Inr v, st') \<longleftrightarrow> u = v \<and> st = st'"
  by (auto simp: ret_def)

text \<open>\<open>quoteGitConfigParameter\<close> and \<open>appendProcessConfig\<close>: the entries as one environment variable.\<close>

fun replace_all :: "char \<Rightarrow> string \<Rightarrow> string \<Rightarrow> string" where
  "replace_all c by1 [] = []"
| "replace_all c by1 (x # xs) = (if x = c then by1 else [x]) @ replace_all c by1 xs"

definition quote_git_config_parameter :: "string \<times> string \<Rightarrow> string" where
  "quote_git_config_parameter entry =
     [CHR 0x27] @ replace_all (CHR 0x27) [CHR 0x27, CHR 0x5C, CHR 0x27, CHR 0x27]
       (fst entry @ ''='' @ snd entry) @ [CHR 0x27]"

definition append_process_config :: "string option \<Rightarrow> process_config \<Rightarrow> string option" where
  "append_process_config ambient entries =
     (if entries = [] then ambient
      else let ambientParameters = (case ambient of None \<Rightarrow> None | Some a \<Rightarrow> Some (trim a));
               appended = join '' '' (map quote_git_config_parameter entries)
      in Some (if truthy ambientParameters
               then nullish ambientParameters [] @ '' '' @ appended else appended))"

text \<open>\<open>JSON.stringify\<close> of a string, which the retry code uses as a shell quotation.\<close>

definition hex_digit :: "nat \<Rightarrow> char" where
  "hex_digit n = ''0123456789abcdef'' ! n"

definition json_escape :: "char \<Rightarrow> string" where
  "json_escape c =
     (let n = (of_char c :: nat) in
      if c = CHR 0x22 then [CHR 0x5C, CHR 0x22]
      else if c = CHR 0x5C then [CHR 0x5C, CHR 0x5C]
      else if n = 8 then [CHR 0x5C, CHR ''b''] else if n = 9 then [CHR 0x5C, CHR ''t'']
      else if n = 10 then [CHR 0x5C, CHR ''n''] else if n = 12 then [CHR 0x5C, CHR ''f'']
      else if n = 13 then [CHR 0x5C, CHR ''r'']
      else if n < 32 then [CHR 0x5C, CHR ''u'', CHR ''0'', CHR ''0'', hex_digit (n div 16), hex_digit (n mod 16)]
      else [c])"

definition json_quote :: "string \<Rightarrow> string" where
  "json_quote s = [CHR 0x22] @ concat (map json_escape s) @ [CHR 0x22]"

subsection \<open>The commands of a retry\<close>

record 'w git_ops =
  go_diff_file :: "string \<Rightarrow> 'w \<Rightarrow> string option \<times> 'w"
  go_diff_cached :: "'w \<Rightarrow> string option \<times> 'w"
  go_add :: "string list \<Rightarrow> 'w \<Rightarrow> bool \<times> 'w"
  go_add_all :: "'w \<Rightarrow> bool \<times> 'w"
  go_reset_head :: "'w \<Rightarrow> 'w"

definition shell_output ::
  "'w git_env \<Rightarrow> string \<Rightarrow> 'w git_state \<Rightarrow> string option \<times> 'w git_state" where
  "shell_output env command st =
     (case exec_shell env command st of (Inl _, st1) \<Rightarrow> (None, st1) | (Inr out, st1) \<Rightarrow> (Some out, st1))"

definition add_command :: "string list \<Rightarrow> string" where
  "add_command files = ''git add -- '' @ join '' '' (map json_quote files)"

definition diff_file_command :: "string \<Rightarrow> string" where
  "diff_file_command f = ''git diff -- '' @ [CHR 0x22]
     @ replace_all (CHR 0x22) [CHR 0x5C, CHR 0x22] f @ [CHR 0x22]"

definition retry_git :: "'w git_env \<Rightarrow> 'w git_state git_ops" where
  "retry_git env =
     \<lparr>go_diff_file = (\<lambda>f st. shell_output env (diff_file_command f) st),
      go_diff_cached = (\<lambda>st. shell_output env ''git diff --cached'' st),
      go_add = (\<lambda>files st. let (r, st1) = shell_output env (add_command files) st in (r \<noteq> None, st1)),
      go_add_all = (\<lambda>st. let (r, st1) = shell_output env ''git add -A'' st in (r \<noteq> None, st1)),
      go_reset_head = (\<lambda>st. snd (shell_output env ''git reset HEAD'' st))\<rparr>"

text \<open>The quotation protects double quotes and backslashes only; between double quotes the shell still
  expands a command substitution in a file name.\<close>

lemma add_command_keeps_substitution:
  "add_command [''$(touch x)''] = ''git add -- '' @ [CHR 0x22] @ ''$(touch x)'' @ [CHR 0x22]"
  by code_simp

subsection \<open>The remaining diff\<close>

text \<open>A file whose worktree differs from the index keeps its worktree diff; the others are staged again.\<close>

fun split_pending ::
  "'w git_ops \<Rightarrow> string list \<Rightarrow> 'w \<Rightarrow> (string list \<times> string list) \<times> 'w" where
  "split_pending ops [] w = (([], []), w)"
| "split_pending ops (f # fs) w =
     (case go_diff_file ops f w of
        (out, w1) \<Rightarrow>
          (case split_pending ops fs w1 of
             ((safe, parts), w2) \<Rightarrow>
               (case out of
                  None \<Rightarrow> ((f # safe, parts), w2)
                | Some d \<Rightarrow> if d \<noteq> [] then ((safe, d # parts), w2) else ((f # safe, parts), w2))))"

definition reconstruct_remaining_diff ::
  "'w git_ops \<Rightarrow> string list option \<Rightarrow> 'w \<Rightarrow> string \<times> 'w" where
  "reconstruct_remaining_diff ops pendingFiles w =
     (case pendingFiles of
        Some (f # fs) \<Rightarrow>
          (case split_pending ops (f # fs) w of
             ((safe, parts), w1) \<Rightarrow>
               let worktree = join [CHR 0x0A] parts
               in if safe = [] then (worktree, w1)
                  else (case go_add ops safe w1 of
                          (False, w2) \<Rightarrow> (worktree, w2)
                        | (True, w2) \<Rightarrow>
                            (case go_diff_cached ops w2 of
                               (None, w3) \<Rightarrow> (worktree, w3)
                             | (Some cached, w3) \<Rightarrow> (cached @ worktree, go_reset_head ops w3))))
      | _ \<Rightarrow> (case go_diff_cached ops w of (out, w1) \<Rightarrow> (nullish out [], w1)))"

text \<open>\<open>resetIndexForRetry\<close> only reports a failure.\<close>

definition reset_index_for_retry :: "'w git_ops \<Rightarrow> 'w \<Rightarrow> 'w" where
  "reset_index_for_retry ops w = go_reset_head ops w"

end
