(* ===== verification/Push.thy ===== *)
theory Push
  imports Commit_Messages Git_Ops
begin

text \<open>
  Exact publication: \<open>push-destination.ts\<close>, \<open>push-endpoint.ts\<close> and \<open>push.ts\<close>. Every git command is the
  argument list of the source. A plain \<open>Error\<close> is its message; \<open>push.ts\<close> turns it into a
  \<open>PushError\<close>. \<open>sanitizePushDiagnostic\<close>, SHA-256 and the random identifier are fields of the
  environment.
\<close>

subsection \<open>Permanent and transient failures\<close>

definition PERMANENT_PUSH_SIGNATURES :: "string list" where
  "PERMANENT_PUSH_SIGNATURES = [''Permission denied'', ''Authentication failed'',
     ''could not read Username'', ''repository not found'', ''access denied'',
     ''does not appear to be a git repository'', ''not authorized'', ''without '' @ [CHR 0x27]
     @ ''workflow'' @ [CHR 0x27] @ '' scope'', ''GH006'', ''protected branch'',
     ''protected branch hook declined'']"

definition PERMANENT_HTTP_STATUS_PATTERNS :: "rx list" where
  "PERMANENT_HTTP_STATUS_PATTERNS =
     (let forbidden = rx_seq [rx_lit ''40'', rx_one_of ''13'', WordBoundary];
          version = rx_seq [rx_chr (CHR ''/''), rx_plus rx_digit, Star (Seq (rx_chr (CHR ''.'')) (rx_plus rx_digit))]
      in [rx_seq [WordBoundary, rx_ilit ''http'', rx_opt version, rx_plus rx_space, forbidden],
          rx_seq [WordBoundary, rx_ilit ''returned error:'', rx_spaces, forbidden],
          rx_seq [WordBoundary, rx_ilit ''status'', rx_opt (Seq (rx_plus rx_space) (rx_ilit ''code'')),
            rx_any [Seq (rx_plus rx_space) (rx_ilit ''is''), Seq rx_spaces (rx_one_of '':=''), rx_plus rx_space],
            rx_spaces, forbidden]])"

definition classify_transient :: "string \<Rightarrow> bool" where
  "classify_transient message =
     (let normalized = map to_lower message in
      \<not> (list_ex (\<lambda>sig. str_includes normalized (map to_lower sig)) PERMANENT_PUSH_SIGNATURES
         \<or> list_ex (\<lambda>r. rx_test r message) PERMANENT_HTTP_STATUS_PATTERNS))"

subsection \<open>The destination\<close>

definition read_optional_git ::
  "'w git_env \<Rightarrow> string list \<Rightarrow> (string, string option, 'w) git_m" where
  "read_optional_git env args st =
     (case git_exec_args env [] args st of
        (Inl _, st1) \<Rightarrow> (Inr None, st1)
      | (Inr out, st1) \<Rightarrow> (Inr (if out = [] then None else Some out), st1))"

definition split_nonempty_lines :: "string \<Rightarrow> string list" where
  "split_nonempty_lines v = filter (\<lambda>l. l \<noteq> []) (map trim (split_on (CHR 0x0A) v))"

definition read_configured_remotes :: "'w git_env \<Rightarrow> (string, string list, 'w) git_m" where
  "read_configured_remotes env =
     bindE (read_optional_git env [''remote'']) (\<lambda>out. ret (split_nonempty_lines (nullish out [])))"

definition read_configured_push_remote ::
  "'w git_env \<Rightarrow> string \<Rightarrow> (string, string option, 'w) git_m" where
  "read_configured_push_remote env sourceBranch =
     bindE (read_optional_git env [''config'', ''--get'', ''branch.'' @ sourceBranch @ ''.pushRemote''])
       (\<lambda>own. case own of
          Some r \<Rightarrow> ret (Some r)
        | None \<Rightarrow> read_optional_git env [''config'', ''--get'', ''remote.pushDefault''])"

definition read_branch_remote :: "'w git_env \<Rightarrow> string \<Rightarrow> (string, string option, 'w) git_m" where
  "read_branch_remote env sourceBranch =
     read_optional_git env [''config'', ''--get'', ''branch.'' @ sourceBranch @ ''.remote'']"

definition assert_configured_remote ::
  "string option \<Rightarrow> string list \<Rightarrow> string \<Rightarrow> (string, string, 'w) git_m" where
  "assert_configured_remote remote configuredRemotes sourceBranch =
     (case remote of
        None \<Rightarrow> throw (''Branch '' @ sourceBranch @ '' has no supported remote push destination.'')
      | Some r \<Rightarrow>
          if r = [] \<or> r = ''.'' \<or> r \<notin> set configuredRemotes
          then throw (''Branch '' @ sourceBranch @ '' has no supported remote push destination.'')
          else ret r)"

datatype push_default = PushCurrent | PushSimple | PushUpstream

definition read_push_default :: "'w git_env \<Rightarrow> (string, push_default, 'w) git_m" where
  "read_push_default env =
     bindE (read_optional_git env [''config'', ''--get'', ''push.default''])
       (\<lambda>out. let configured = nullish out ''simple'' in
          if configured = ''current'' then ret PushCurrent
          else if configured = ''simple'' then ret PushSimple
          else if configured = ''upstream'' then ret PushUpstream
          else throw (''push.default='' @ configured
                 @ '' is incompatible with exact single-branch publication.''))"

definition resolve_tracked_destination_ref ::
  "'w git_env \<Rightarrow> string \<Rightarrow> string \<Rightarrow> string \<Rightarrow> string \<Rightarrow> (string, string, 'w) git_m" where
  "resolve_tracked_destination_ref env sourceBranch upstreamRemote pushRemote upstreamDestinationRef =
     bindE (read_push_default env) (\<lambda>pushDefault.
       let currentBranchDestinationRef = ''refs/heads/'' @ sourceBranch in
       case pushDefault of
         PushCurrent \<Rightarrow> ret currentBranchDestinationRef
       | PushUpstream \<Rightarrow>
           if pushRemote \<noteq> upstreamRemote
           then throw ''push.default=upstream cannot publish to a remote different from the upstream remote.''
           else ret upstreamDestinationRef
       | PushSimple \<Rightarrow>
           if pushRemote \<noteq> upstreamRemote then ret currentBranchDestinationRef
           else if upstreamDestinationRef \<noteq> currentBranchDestinationRef
           then throw (''push.default=simple requires branch '' @ sourceBranch
                  @ '' to have an upstream branch with the same name.'')
           else ret upstreamDestinationRef)"

record tracked_push_destination =
  td_upstreamRef :: string
  td_remote :: string
  td_destinationRef :: string

definition tracked_remotes ::
  "'w git_env \<Rightarrow> string \<Rightarrow> string \<Rightarrow> string \<Rightarrow> (string, tracked_push_destination, 'w) git_m" where
  "tracked_remotes env sourceBranch upstreamRef upstreamDestinationRef =
     bindE (read_configured_remotes env) (\<lambda>configuredRemotes.
     bindE (read_branch_remote env sourceBranch) (\<lambda>branchRemote.
     bindE (assert_configured_remote branchRemote configuredRemotes sourceBranch) (\<lambda>upstreamRemote.
     bindE (read_configured_push_remote env sourceBranch) (\<lambda>pushRemote.
     bindE (assert_configured_remote (Some (nullish pushRemote upstreamRemote)) configuredRemotes sourceBranch) (\<lambda>remote.
     bindE (resolve_tracked_destination_ref env sourceBranch upstreamRemote remote upstreamDestinationRef)
       (\<lambda>destinationRef.
          ret \<lparr>td_upstreamRef = upstreamRef, td_remote = remote, td_destinationRef = destinationRef\<rparr>))))))"

definition resolve_tracked_push_destination ::
  "'w git_env \<Rightarrow> string \<Rightarrow> (string, tracked_push_destination option, 'w) git_m" where
  "resolve_tracked_push_destination env sourceBranch =
     bindE (read_optional_git env [''rev-parse'', ''--abbrev-ref'', ''--symbolic-full-name'', [CHR 0x40] @ ''{upstream}''])
       (\<lambda>upstream. case upstream of
          None \<Rightarrow> ret None
        | Some upstreamRef \<Rightarrow>
            bindE (read_optional_git env [''config'', ''--get'', ''branch.'' @ sourceBranch @ ''.merge''])
              (\<lambda>merge. if \<not> starts_with ''refs/heads/'' (nullish merge [])
                then throw (''Tracked branch '' @ sourceBranch @ '' has no supported destination ref.'')
                else bindE (tracked_remotes env sourceBranch upstreamRef (nullish merge [])) (\<lambda>d. ret (Some d))))"

record current_push_destination =
  cd_sourceBranch :: string
  cd_remote :: string
  cd_destinationRef :: string
  cd_establishUpstream :: bool

definition untracked_destination ::
  "'w git_env \<Rightarrow> string \<Rightarrow> string list \<Rightarrow> (string, current_push_destination option, 'w) git_m" where
  "untracked_destination env sourceBranch configuredRemotes =
     bindE (read_configured_push_remote env sourceBranch) (\<lambda>pushRemote.
     bindE (case pushRemote of Some r \<Rightarrow> ret (Some r) | None \<Rightarrow> read_branch_remote env sourceBranch)
       (\<lambda>preferred.
          bindE (case preferred of
                   Some r \<Rightarrow> assert_configured_remote (Some r) configuredRemotes sourceBranch
                 | None \<Rightarrow> ret (hd configuredRemotes))
            (\<lambda>remote. if remote = [] then ret None
               else ret (Some \<lparr>cd_sourceBranch = sourceBranch, cd_remote = remote,
                     cd_destinationRef = ''refs/heads/'' @ sourceBranch, cd_establishUpstream = True\<rparr>))))"

definition resolve_current_push_destination ::
  "'w git_env \<Rightarrow> (string, current_push_destination option, 'w) git_m" where
  "resolve_current_push_destination env =
     bindE (read_configured_remotes env) (\<lambda>configuredRemotes.
       if configuredRemotes = [] then ret None
       else bindE (read_optional_git env [''symbolic-ref'', ''--quiet'', ''--short'', ''HEAD'']) (\<lambda>branch.
         case branch of
           None \<Rightarrow> throw ''Detached HEAD has no automatic push destination.''
         | Some sourceBranch \<Rightarrow>
             bindE (resolve_tracked_push_destination env sourceBranch) (\<lambda>tracked.
               case tracked of
                 Some t \<Rightarrow> ret (Some \<lparr>cd_sourceBranch = sourceBranch, cd_remote = td_remote t,
                   cd_destinationRef = td_destinationRef t, cd_establishUpstream = False\<rparr>)
               | None \<Rightarrow> untracked_destination env sourceBranch configuredRemotes)))"


subsection \<open>The endpoint\<close>

record resolved_push_endpoint =
  ep_fingerprint :: string
  ep_ephemeralRemote :: string
  ep_processConfig :: process_config

definition lift_git :: "('e, 'a, 'w) git_m \<Rightarrow> ('e \<Rightarrow> 'f) \<Rightarrow> ('f, 'a, 'w) git_m" where
  "lift_git m f = catchE m (\<lambda>e. throw (f e))"

lemma lift_returns [simp]: "lift_git m f st = (Inr v, st') \<longleftrightarrow> m st = (Inr v, st')"
  by (auto simp: lift_git_def catchE_def throw_def split: prod.splits sum.splits)

text \<open>The rewrite rules, or the empty string when git says that there are none (status 1).\<close>

definition read_url_rewrite_configuration :: "'w git_env \<Rightarrow> (string, string, 'w) git_m" where
  "read_url_rewrite_configuration env =
     catchE (git_exec_args env [] [''config'', ''--null'', ''--get-regexp'',
         ''^url'' @ [CHR 0x5C] @ ''..*'' @ [CHR 0x5C] @ ''.(insteadof|pushinsteadof)$''])
       (\<lambda>e. if gf_status e = Some 1 then ret [] else throw (gf_message e))"

definition unpinnable :: "char \<Rightarrow> bool" where
  "unpinnable c \<longleftrightarrow> c = CHR ''='' \<or> c = CHR 0x00 \<or> c = CHR 0x0D \<or> c = CHR 0x0A"

definition pin_endpoint ::
  "'w git_env \<Rightarrow> string \<Rightarrow> string \<Rightarrow> (string, resolved_push_endpoint, 'w) git_m" where
  "pin_endpoint env pushUrl rewrites st =
     (let endpointId = ge_uuid env (gs_world st);
          ephemeralRemote = ''gcp-endpoint-'' @ endpointId;
          endpointAlias = ''gcp-pinned-'' @ endpointId @ ''://endpoint''
      in (Inr \<lparr>ep_fingerprint = ge_sha256 env (pushUrl @ [CHR 0x00] @ rewrites),
               ep_ephemeralRemote = ephemeralRemote,
               ep_processConfig = [(''remote.'' @ ephemeralRemote @ ''.url'', endpointAlias),
                 (''remote.'' @ ephemeralRemote @ ''.pushurl'', endpointAlias),
                 (''url.'' @ pushUrl @ ''.insteadOf'', endpointAlias)]\<rparr>, st))"

definition resolve_single_push_endpoint ::
  "'w git_env \<Rightarrow> string \<Rightarrow> (string, resolved_push_endpoint, 'w) git_m" where
  "resolve_single_push_endpoint env remote =
     bindE (lift_git (git_exec_args env [] [''remote'', ''get-url'', ''--push'', ''--all'', ''--'', remote]) gf_message)
       (\<lambda>out. case split_nonempty_lines out of
          [pushUrl] \<Rightarrow>
            if list_ex unpinnable pushUrl
            then throw (''Remote '' @ remote
              @ '' uses a push URL that cannot be safely pinned in process-scoped Git configuration.'')
            else bindE (read_url_rewrite_configuration env) (pin_endpoint env pushUrl)
        | pushUrls \<Rightarrow> throw (''Remote '' @ remote @ '' must resolve to exactly one push URL; found ''
              @ show_nat (length pushUrls) @ ''.''))"

text \<open>\<open>ls-remote\<close>: the first word of the output.\<close>

definition read_optional_destination_sha ::
  "'w git_env \<Rightarrow> resolved_push_endpoint \<Rightarrow> string \<Rightarrow> (git_failure, string option, 'w) git_m" where
  "read_optional_destination_sha env ep destinationRef =
     bindE (git_exec_args env (ep_processConfig ep)
              [''ls-remote'', ''--'', ep_ephemeralRemote ep, destinationRef])
       (\<lambda>out. let sha = takeWhile (\<lambda>c. \<not> is_js_whitespace c) out
              in ret (if sha = [] then None else Some sha))"

definition push_arguments ::
  "resolved_push_endpoint \<Rightarrow> string \<Rightarrow> string \<Rightarrow> string option \<Rightarrow> string list" where
  "push_arguments ep sourceSha destinationRef destinationBaselineSha =
     [''push'', ''--force-with-lease='' @ destinationRef @ '':'' @ nullish destinationBaselineSha [],
      ''--'', ep_ephemeralRemote ep, sourceSha @ '':'' @ destinationRef]"

definition push_exact ::
  "'w git_env \<Rightarrow> resolved_push_endpoint \<Rightarrow> string \<Rightarrow> string \<Rightarrow> string option \<Rightarrow> (git_failure, unit, 'w) git_m" where
  "push_exact env ep sourceSha destinationRef destinationBaselineSha =
     bindE (git_exec_args env (ep_processConfig ep)
              (push_arguments ep sourceSha destinationRef destinationBaselineSha)) (\<lambda>_. ret ())"

subsection \<open>Publication\<close>

definition create_push_error :: "'w git_env \<Rightarrow> string \<Rightarrow> string \<Rightarrow> nat \<Rightarrow> commit_error" where
  "create_push_error env prefix rawMessage retryCount =
     PushError (prefix @ '': '' @ ge_sanitize env rawMessage) (classify_transient rawMessage) retryCount"

definition read_destination_sha ::
  "'w git_env \<Rightarrow> resolved_push_endpoint \<Rightarrow> string \<Rightarrow> string \<Rightarrow> nat \<Rightarrow> (commit_error, string option, 'w) git_m" where
  "read_destination_sha env ep destinationRef phase retryCount =
     lift_git (read_optional_destination_sha env ep destinationRef)
       (\<lambda>e. create_push_error env (''Push '' @ phase @ '' failed'') (gf_message e) retryCount)"

definition assert_unchanged_or_published ::
  "string option \<Rightarrow> string option \<Rightarrow> string \<Rightarrow> nat \<Rightarrow> (commit_error, bool, 'w) git_m" where
  "assert_unchanged_or_published observedSha destinationBaselineSha sourceSha retryCount =
     (if observedSha = Some sourceSha then ret True
      else if observedSha = destinationBaselineSha then ret False
      else throw (PushError ''Push destination changed while recovering an uncertain publication; refusing automatic retry.''
             False retryCount))"

text \<open>The second push, and what the failure of it means.\<close>

definition publish_retry ::
  "'w git_env \<Rightarrow> resolved_push_endpoint \<Rightarrow> string \<Rightarrow> string option \<Rightarrow> string \<Rightarrow> (commit_error, nat, 'w) git_m" where
  "publish_retry env ep destinationRef destinationBaselineSha sourceSha =
     catchE (bindE (push_exact env ep sourceSha destinationRef destinationBaselineSha) (\<lambda>_. ret 1))
       (\<lambda>e. bindE (read_destination_sha env ep destinationRef ''recovery check'' 1) (\<lambda>observed.
            bindE (assert_unchanged_or_published observed destinationBaselineSha sourceSha 1) (\<lambda>published.
              if published then ret 1
              else throw (create_push_error env ''Push publication retry failed'' (gf_message e) 1))))"

definition publish_with_frozen_endpoint ::
  "'w git_env \<Rightarrow> resolved_push_endpoint \<Rightarrow> string \<Rightarrow> string option \<Rightarrow> string \<Rightarrow> (commit_error, nat, 'w) git_m" where
  "publish_with_frozen_endpoint env ep destinationRef destinationBaselineSha sourceSha =
     catchE (bindE (push_exact env ep sourceSha destinationRef destinationBaselineSha) (\<lambda>_. ret 0))
       (\<lambda>e. if \<not> classify_transient (gf_message e)
            then throw (create_push_error env ''Push publication failed'' (gf_message e) 0)
            else
              bindE (read_destination_sha env ep destinationRef ''recovery check'' 1) (\<lambda>observed.
              bindE (assert_unchanged_or_published observed destinationBaselineSha sourceSha 1) (\<lambda>published.
                if published then ret 1
                else publish_retry env ep destinationRef destinationBaselineSha sourceSha)))"

definition assert_fast_forward_publication ::
  "'w git_env \<Rightarrow> string option \<Rightarrow> string \<Rightarrow> (commit_error, unit, 'w) git_m" where
  "assert_fast_forward_publication env destinationBaselineSha sourceSha =
     (if \<not> truthy destinationBaselineSha \<or> destinationBaselineSha = Some sourceSha then ret ()
      else bindE (lift_git (git_exec_args env [] [''merge-base'', ''--is-ancestor'',
                    nullish destinationBaselineSha [], sourceSha])
               (\<lambda>_. PushError ''Remote destination is not an ancestor of the exact source commit; refusing automatic push.''
                      False 0))
             (\<lambda>_. ret ()))"

definition establish_upstream_tracking ::
  "'w git_env \<Rightarrow> string \<Rightarrow> string \<Rightarrow> string \<Rightarrow> string \<Rightarrow> (commit_error, unit, 'w) git_m" where
  "establish_upstream_tracking env sourceBranch remote destinationRef sourceSha =
     lift_git
       (bindE (lift_git (git_exec_args env [] [''config'', ''branch.'' @ sourceBranch @ ''.remote'', remote]) gf_message) (\<lambda>_.
        bindE (lift_git (git_exec_args env [] [''config'', ''branch.'' @ sourceBranch @ ''.merge'', destinationRef]) gf_message) (\<lambda>_.
        bindE (lift_git (git_exec_args env [] [''for-each-ref'', ''--format=%(upstream)'', ''--'',
                 ''refs/heads/'' @ sourceBranch]) gf_message) (\<lambda>upstreamRef.
        if \<not> starts_with ''refs/remotes/'' upstreamRef
        then throw ''Git did not resolve a remote-tracking upstream ref.''
        else bindE (lift_git (git_exec_args env [] [''update-ref'', upstreamRef, sourceSha]) gf_message) (\<lambda>_. ret ())))))
       (\<lambda>m. PushError (''Push succeeded but upstream tracking could not be established: ''
              @ ge_sanitize env m) False 0)"

text \<open>\<open>executePush\<close> in four parts. First, the read that confirms the publication; a transient failure
  is retried once when nothing was retried before.\<close>

definition confirm_destination ::
  "'w git_env \<Rightarrow> resolved_push_endpoint \<Rightarrow> string \<Rightarrow> string \<Rightarrow> nat \<Rightarrow> (commit_error, nat, 'w) git_m" where
  "confirm_destination env ep destinationRef sourceSha retryCount =
     bindE (catchE (bindE (read_destination_sha env ep destinationRef ''postflight'' retryCount) (\<lambda>d. ret (d, retryCount)))
              (\<lambda>e. case e of
                 PushError _ transient _ \<Rightarrow>
                   if \<not> transient \<or> retryCount > 0 then throw e
                   else bindE (read_destination_sha env ep destinationRef ''postflight'' 1) (\<lambda>d. ret (d, 1))
               | _ \<Rightarrow> throw e))
       (\<lambda>(destinationSha, count).
          if destinationSha \<noteq> Some sourceSha
          then throw (PushError ''Push completed without updating the destination to the exact source commit.''
                 False count)
          else ret count)"

text \<open>Second, the publication from a frozen endpoint and an exact source commit, up to the confirmation
  and with it.\<close>

definition publish_from_baseline ::
  "'w git_env \<Rightarrow> resolved_push_endpoint \<Rightarrow> string \<Rightarrow> string \<Rightarrow> (commit_error, nat, 'w) git_m" where
  "publish_from_baseline env ep destinationRef sourceSha =
     bindE (read_destination_sha env ep destinationRef ''preflight'' 0) (\<lambda>baseline.
     bindE (assert_fast_forward_publication env baseline sourceSha) (\<lambda>_.
       if baseline \<noteq> Some sourceSha
       then publish_with_frozen_endpoint env ep destinationRef baseline sourceSha
       else ret 0))"

definition publish_exact_source ::
  "'w git_env \<Rightarrow> current_push_destination \<Rightarrow> resolved_push_endpoint \<Rightarrow> string \<Rightarrow> (commit_error, nat, 'w) git_m" where
  "publish_exact_source env destination ep sourceSha =
     bindE (publish_from_baseline env ep (cd_destinationRef destination) sourceSha) (\<lambda>retryCount.
     bindE (confirm_destination env ep (cd_destinationRef destination) sourceSha retryCount) (\<lambda>count.
       if cd_establishUpstream destination
       then bindE (establish_upstream_tracking env (cd_sourceBranch destination) (cd_remote destination)
                     (cd_destinationRef destination) sourceSha) (\<lambda>_. ret count)
       else ret count))"

text \<open>Third, the endpoint and the source commit of a destination; last, the whole.\<close>

definition push_to_destination ::
  "'w git_env \<Rightarrow> current_push_destination \<Rightarrow> (commit_error, nat, 'w) git_m" where
  "push_to_destination env destination =
     bindE (lift_git (resolve_single_push_endpoint env (cd_remote destination))
              (\<lambda>m. PushError (''Cannot resolve push endpoint: '' @ ge_sanitize env m) False 0)) (\<lambda>ep.
     bindE (lift_git (git_exec_args env [] [''rev-parse'', ''HEAD''])
              (\<lambda>e. PushError (''Cannot resolve exact source commit: '' @ ge_sanitize env (gf_message e)) False 0))
       (publish_exact_source env destination ep))"

definition execute_push :: "'w git_env \<Rightarrow> bool \<Rightarrow> (commit_error, nat, 'w) git_m" where
  "execute_push env autoPush =
     (if \<not> autoPush then ret 0
      else bindE (lift_git (resolve_current_push_destination env)
                    (\<lambda>m. PushError (''Cannot resolve push destination: '' @ ge_sanitize env m) False 0))
             (\<lambda>destination. case destination of None \<Rightarrow> ret 0 | Some d \<Rightarrow> push_to_destination env d))"


subsection \<open>The calls of a publication\<close>

fun is_push :: "git_call \<Rightarrow> bool" where
  "is_push (GitArgs _ (a # _) _) = (a = ''push'')"
| "is_push _ = False"

definition silent :: "git_call \<Rightarrow> bool" where
  "silent c \<longleftrightarrow> \<not> is_push c"

lemma silent_simps [simp]:
  "silent (GitArgs cfg (a # args) r) \<longleftrightarrow> a \<noteq> ''push''" "silent (Shell cmd r)"
  "silent (RanNode ns r)"
  by (simp_all add: silent_def)

lemma only_lift [only_rules]: "only P m \<Longrightarrow> only P (lift_git m f)"
  unfolding lift_git_def by (intro only_rules)

lemma only_optional [only_rules]: "(\<And>r. P (GitArgs [] args r)) \<Longrightarrow> only P (read_optional_git env args)"
  by (auto simp: only_def read_optional_git_def git_exec_args_def git_exec_args_raw_def log_call_def
      split: prod.splits sum.splits)

lemma only_option [only_rules]:
  "only P m \<Longrightarrow> (\<And>v. only P (f v)) \<Longrightarrow> only P (case x of None \<Rightarrow> m | Some v \<Rightarrow> f v)"
  by (cases x) simp_all

lemma only_assert [only_rules]: "only P (assert_configured_remote r rs b)"
  by (auto simp: assert_configured_remote_def intro!: only_rules split: option.splits)

lemma only_push_default [only_rules]:
  "only silent (read_push_default env)"
  unfolding read_push_default_def Let_def by (intro only_rules) simp

lemma only_destination_ref [only_rules]:
  "only silent (resolve_tracked_destination_ref env b u p d)"
  unfolding resolve_tracked_destination_ref_def Let_def
  by (intro only_rules) (auto intro!: only_rules split: push_default.splits)

lemma only_remotes [only_rules]: "only silent (read_configured_remotes env)"
  unfolding read_configured_remotes_def by (intro only_rules) simp

lemma only_push_remote [only_rules]: "only silent (read_configured_push_remote env b)"
  unfolding read_configured_push_remote_def by (intro only_rules) simp_all

lemma only_branch_remote [only_rules]: "only silent (read_branch_remote env b)"
  unfolding read_branch_remote_def by (intro only_rules) simp

lemma only_tracked [only_rules]: "only silent (resolve_tracked_push_destination env b)"
  unfolding resolve_tracked_push_destination_def tracked_remotes_def
  by (intro only_rules) simp_all

lemma only_current [only_rules]: "only silent (resolve_current_push_destination env)"
  unfolding resolve_current_push_destination_def untracked_destination_def
  by (intro only_rules) simp_all

lemma only_pin [only_rules]: "only P (pin_endpoint env url rw)"
  by (simp add: only_def pin_endpoint_def Let_def)

lemma only_endpoint [only_rules]: "only silent (resolve_single_push_endpoint env remote)"
  unfolding resolve_single_push_endpoint_def read_url_rewrite_configuration_def
  by (intro only_rules) (auto intro!: only_rules split: list.splits)

lemma only_read_destination [only_rules]: "only silent (read_destination_sha env ep ref phase n)"
  unfolding read_destination_sha_def read_optional_destination_sha_def Let_def
  by (intro only_rules) simp

lemma only_unchanged [only_rules]: "only P (assert_unchanged_or_published a b s n)"
  unfolding assert_unchanged_or_published_def by (intro only_rules)

lemma only_confirm [only_rules]: "only silent (confirm_destination env ep ref s n)"
  unfolding confirm_destination_def
  by (intro only_rules) (auto intro!: only_rules split: commit_error.splits)

lemma only_upstream [only_rules]: "only silent (establish_upstream_tracking env b r d s)"
  unfolding establish_upstream_tracking_def by (intro only_rules) simp_all

lemma only_fast_forward [only_rules]: "only silent (assert_fast_forward_publication env b s)"
  unfolding assert_fast_forward_publication_def by (intro only_rules) simp

text \<open>A push of the publication is exactly the push of this source to this ref under this lease.\<close>

definition exact_push :: "resolved_push_endpoint \<Rightarrow> string \<Rightarrow> string \<Rightarrow> string option \<Rightarrow> git_call \<Rightarrow> bool" where
  "exact_push ep src ref base c \<longleftrightarrow>
     (is_push c \<longrightarrow> (\<exists>r. c = GitArgs (ep_processConfig ep) (push_arguments ep src ref base) r))"

lemma silent_exact: "silent c \<Longrightarrow> exact_push ep src ref base c"
  by (simp add: silent_def exact_push_def)

lemma only_push_exact: "only (exact_push ep src ref base) (push_exact env ep src ref base)"
  unfolding push_exact_def by (intro only_rules) (simp add: exact_push_def)

lemma at_most_read: "at_most is_push 0 (read_destination_sha env ep ref phase n)"
  by (rule at_most_none) (use only_read_destination in \<open>simp add: silent_def[abs_def]\<close>)

lemma at_most_silent: "only silent m \<Longrightarrow> at_most is_push 0 m"
  by (rule at_most_none) (simp add: silent_def[abs_def])

lemma publish_only:
  "only (exact_push ep src ref base) (publish_with_frozen_endpoint env ep ref base src)"
proof -
  have r: "only (exact_push ep src ref base) (read_destination_sha env ep ref phase n)" for phase n
    by (rule only_mono[OF only_read_destination silent_exact])
  show ?thesis
    unfolding publish_with_frozen_endpoint_def publish_retry_def
    by (intro only_rules only_push_exact r)
qed

lemma at_most_push: "at_most is_push 1 (push_exact env ep src ref base)"
  unfolding push_exact_def
  using at_most_bind[OF at_most_args at_most_silent[OF only_ret]] by simp

lemma publish_at_most:
  fixes env :: "'w git_env"
  shows "at_most is_push 2 (publish_with_frozen_endpoint env ep ref base src)"
proof -
  have z: "at_most is_push 0 (assert_unchanged_or_published a b s n)" for a b s n
    by (intro at_most_silent only_rules)
  have push: "at_most is_push 1 (bindE (push_exact env ep src ref base) (\<lambda>_. ret (k::nat)))" for k
    using at_most_bind[OF at_most_push at_most_ret, of 0] by simp
  have check: "at_most is_push (0 + (0 + k)) (bindE (read_destination_sha env ep ref ''recovery check'' 1)
      (\<lambda>o1. bindE (assert_unchanged_or_published o1 base src 1) f))"
    if "\<And>v. at_most is_push k (f v)" for k and f :: "bool \<Rightarrow> (commit_error, nat, 'w) git_m"
    by (intro at_most_bind at_most_read z that)
  have "at_most is_push (1 + (0 + (0 + 0))) (publish_retry env ep ref base src)"
    unfolding publish_retry_def
    by (intro at_most_catch push check) (simp add: at_most_ret at_most_throw)
  then have retry: "at_most is_push 1 (publish_retry env ep ref base src)" by simp
  have arg: "at_most is_push 1 (if v then ret 1 else publish_retry env ep ref base src)" for v
    using retry by (cases v) (simp_all add: at_most_ret)
  have h: "at_most is_push 1 (if \<not> classify_transient (gf_message e) then throw (err e)
      else bindE (read_destination_sha env ep ref ''recovery check'' 1) (\<lambda>o1.
        bindE (assert_unchanged_or_published o1 base src 1) (\<lambda>published.
          if published then ret 1 else publish_retry env ep ref base src)))" for e and err :: "git_failure \<Rightarrow> commit_error"
    using check[OF arg] by (simp add: at_most_throw)
  show ?thesis
    unfolding publish_with_frozen_endpoint_def
    by (rule at_most_mono[OF at_most_catch[OF push h]]) simp
qed


definition read_arguments :: "resolved_push_endpoint \<Rightarrow> string \<Rightarrow> string list" where
  "read_arguments ep ref = [''ls-remote'', ''--'', ep_ephemeralRemote ep, ref]"

definition first_word :: "string \<Rightarrow> string" where
  "first_word out = takeWhile (\<lambda>c. \<not> is_js_whitespace c) (trim out)"

lemma args_inv:
  assumes "git_exec_args env cfg args st = (r, st')"
  shows "(\<exists>e. r = Inl e \<and> gs_calls st' = gs_calls st @ [GitArgs cfg args (Inl e)]) \<or>
    (\<exists>out. r = Inr (trim out) \<and> gs_calls st' = gs_calls st @ [GitArgs cfg args (Inr out)])"
  using assms
  by (auto simp: git_exec_args_def git_exec_args_raw_def log_call_def split: prod.splits sum.splits)

lemma read_inv:
  assumes "read_destination_sha env ep ref phase n st = (Inr v, st')"
  shows "\<exists>out. gs_calls st' = gs_calls st @ [GitArgs (ep_processConfig ep) (read_arguments ep ref) (Inr out)]
    \<and> v = (if first_word out = [] then None else Some (first_word out))"
  using assms
  by (auto simp: read_destination_sha_def read_optional_destination_sha_def lift_git_def catchE_def
      bindE_def ret_def throw_def Let_def read_arguments_def first_word_def
      dest!: args_inv split: prod.splits sum.splits)

text \<open>The last word of a publication: the endpoint itself answered with the source commit.\<close>

definition confirmed :: "resolved_push_endpoint \<Rightarrow> string \<Rightarrow> string \<Rightarrow> git_call list \<Rightarrow> bool" where
  "confirmed ep ref src cs \<longleftrightarrow> (\<exists>pre out post.
     cs = pre @ GitArgs (ep_processConfig ep) (read_arguments ep ref) (Inr out) # post \<and>
     first_word out = src \<and> list_all silent post)"

lemma confirm_inv:
  assumes "confirm_destination env ep ref src k st = (Inr n, st')"
  shows "\<exists>cs. gs_calls st' = gs_calls st @ cs \<and> list_all silent cs \<and> confirmed ep ref src cs"
proof -
  have silent_read: "silent (GitArgs cfg (read_arguments ep ref) x)" for cfg x
    by (simp add: read_arguments_def)
  obtain r1 st1 where first: "read_destination_sha env ep ref ''postflight'' k st = (r1, st1)" by fastforce
  obtain cs1 where cs1: "gs_calls st1 = gs_calls st @ cs1" "list_all silent cs1"
    using onlyD[OF only_read_destination first] by blast
  show ?thesis
  proof (cases r1)
    case (Inr v)
    then obtain out where out: "gs_calls st1 = gs_calls st @ [GitArgs (ep_processConfig ep) (read_arguments ep ref) (Inr out)]"
      "v = (if first_word out = [] then None else Some (first_word out))"
      using read_inv first by blast
    have "st' = st1" "v = Some src"
      using assms first Inr
      by (auto simp: confirm_destination_def bindE_def catchE_def ret_def throw_def split: if_splits)
    with out have "first_word out = src" by (auto split: if_splits)
    with out \<open>st' = st1\<close> show ?thesis
      by (intro exI[of _ "[GitArgs (ep_processConfig ep) (read_arguments ep ref) (Inr out)]"])
        (fastforce simp: confirmed_def silent_read)
  next
    case (Inl e)
    then obtain v where second: "read_destination_sha env ep ref ''postflight'' 1 st1 = (Inr v, st')" "v = Some src"
      using assms first
      by (auto simp: confirm_destination_def bindE_def catchE_def ret_def throw_def
          split: if_splits commit_error.splits sum.splits prod.splits)
    then obtain out where out: "gs_calls st' = gs_calls st1 @ [GitArgs (ep_processConfig ep) (read_arguments ep ref) (Inr out)]"
      "v = (if first_word out = [] then None else Some (first_word out))"
      using read_inv by blast
    with second(2) have "first_word out = src" by (auto split: if_splits)
    with out cs1 show ?thesis
      by (intro exI[of _ "cs1 @ [GitArgs (ep_processConfig ep) (read_arguments ep ref) (Inr out)]"])
        (fastforce simp: confirmed_def silent_read)
  qed
qed

text \<open>The baseline under whose lease a push runs is an ancestor of the source, or there is none.\<close>

definition fast_forward :: "string option \<Rightarrow> string \<Rightarrow> git_call list \<Rightarrow> bool" where
  "fast_forward base src cs \<longleftrightarrow> (case base of None \<Rightarrow> True
     | Some b \<Rightarrow> \<exists>out. GitArgs [] [''merge-base'', ''--is-ancestor'', b, src] (Inr out) \<in> set cs)"

lemma fast_forward_inv:
  assumes "assert_fast_forward_publication env base src st = (Inr u, st')" "base \<noteq> Some src" "base \<noteq> Some []"
  shows "\<exists>cs. gs_calls st' = gs_calls st @ cs \<and> list_all silent cs \<and> fast_forward base src cs"
proof (cases base)
  case None
  with assms show ?thesis by (auto simp: assert_fast_forward_publication_def truthy_def ret_def fast_forward_def)
next
  case (Some b)
  with assms show ?thesis
    by (auto simp: assert_fast_forward_publication_def truthy_def ret_def bindE_def lift_git_def
        catchE_def throw_def fast_forward_def nullish_def dest!: args_inv split: sum.splits prod.splits)
qed

definition lawful :: "resolved_push_endpoint \<Rightarrow> string \<Rightarrow> string \<Rightarrow> string option \<Rightarrow> git_call list \<Rightarrow> bool" where
  "lawful ep ref src base cs \<longleftrightarrow>
     length (filter is_push cs) \<le> 2 \<and> list_all (exact_push ep src ref base) cs \<and>
     (filter is_push cs \<noteq> [] \<longrightarrow> fast_forward base src cs)"

lemma silent_no_push: "list_all silent cs \<Longrightarrow> filter is_push cs = []"
  by (auto simp: list_all_iff silent_def filter_empty_conv)

lemma silent_lawful: "list_all silent cs \<Longrightarrow> lawful ep ref src base cs"
  by (auto simp: lawful_def silent_no_push list_all_iff silent_exact)

lemma lawful_append:
  "lawful ep ref src base cs \<Longrightarrow> list_all silent ds \<Longrightarrow> lawful ep ref src base (cs @ ds)"
  by (auto simp: lawful_def silent_no_push list_all_iff silent_exact fast_forward_def split: option.splits)

lemma lawful_prepend:
  "lawful ep ref src base cs \<Longrightarrow> list_all silent ds \<Longrightarrow> lawful ep ref src base (ds @ cs)"
  by (auto simp: lawful_def silent_no_push list_all_iff silent_exact fast_forward_def split: option.splits)

lemma confirmed_append:
  "confirmed ep ref src cs \<Longrightarrow> list_all silent ds \<Longrightarrow> confirmed ep ref src (es @ cs @ ds)"
  unfolding confirmed_def
  by (metis append.assoc append_Cons list_all_append)

lemma frozen_lawful:
  assumes q: "publish_with_frozen_endpoint env ep ref base src st = (r, st')"
    and ff: "fast_forward base src ds" "list_all silent ds"
  shows "\<exists>cs. gs_calls st' = gs_calls st @ cs \<and> lawful ep ref src base (ds @ cs)"
proof -
  obtain cs where cs: "gs_calls st' = gs_calls st @ cs" "list_all (exact_push ep src ref base) cs"
    "length (filter is_push cs) \<le> 2"
    using onlyD[OF publish_only q] publish_at_most[of env ep ref base src] q
    unfolding at_most_def by (metis same_append_eq snd_conv)
  then have "lawful ep ref src base (ds @ cs)"
    using ff by (auto simp: lawful_def silent_no_push list_all_iff silent_exact fast_forward_def split: option.splits)
  with cs show ?thesis by blast
qed

lemma baseline_lawful:
  assumes run: "publish_from_baseline env ep ref src st = (r, st')"
  shows "\<exists>cs base. gs_calls st' = gs_calls st @ cs \<and> lawful ep ref src base cs"
proof -
  obtain r1 st1 where m1: "read_destination_sha env ep ref ''preflight'' 0 st = (r1, st1)" by fastforce
  obtain c1 where c1: "gs_calls st1 = gs_calls st @ c1" "list_all silent c1"
    using onlyD[OF only_read_destination m1] by blast
  show ?thesis
  proof (cases r1)
    case (Inl e)
    with run m1 c1 show ?thesis
      by (auto simp: publish_from_baseline_def bindE_def dest: silent_lawful)
  next
    case (Inr base)
    have bne: "base \<noteq> Some []" using read_inv m1 Inr by (fastforce split: if_splits)
    obtain r2 st2 where m2: "assert_fast_forward_publication env base src st1 = (r2, st2)" by fastforce
    obtain c2 where c2: "gs_calls st2 = gs_calls st1 @ c2" "list_all silent c2"
      using onlyD[OF only_fast_forward m2] by blast
    have c12: "gs_calls st2 = gs_calls st @ (c1 @ c2)" "list_all silent (c1 @ c2)" using c1 c2 by simp_all
    show ?thesis
    proof (cases "(\<exists>e. r2 = Inl e) \<or> base = Some src")
      case True
      then have "st' = st2"
        using run m1 Inr m2 by (cases r2) (auto simp: publish_from_baseline_def bindE_def ret_def)
      then show ?thesis using c12 silent_lawful by blast
    next
      case False
      then obtain u where u: "r2 = Inr u" by (cases r2) auto
      then have q: "publish_with_frozen_endpoint env ep ref base src st2 = (r, st')"
        using run m1 Inr m2 False by (auto simp: publish_from_baseline_def bindE_def)
      have "fast_forward base src c2"
        using fast_forward_inv[OF _ _ bne] m2 u c2(1) False by (metis same_append_eq)
      then show ?thesis using frozen_lawful[OF q _ c2(2)] c12 lawful_prepend[OF _ c1(2)] by fastforce
    qed
  qed
qed

lemma exact_source_lawful:
  assumes run: "publish_exact_source env d ep src st = (r, st')"
  shows "\<exists>cs base. gs_calls st' = gs_calls st @ cs \<and> lawful ep (cd_destinationRef d) src base cs
    \<and> (\<forall>n. r = Inr n \<longrightarrow> confirmed ep (cd_destinationRef d) src cs)"
proof -
  let ?ref = "cd_destinationRef d"
  obtain r1 st1 where m1: "publish_from_baseline env ep ?ref src st = (r1, st1)" by fastforce
  obtain c1 base where c1: "gs_calls st1 = gs_calls st @ c1" "lawful ep ?ref src base c1"
    using baseline_lawful[OF m1] by blast
  show ?thesis
  proof (cases r1)
    case (Inl e)
    with run m1 c1 show ?thesis by (auto simp: publish_exact_source_def bindE_def)
  next
    case (Inr k)
    obtain r2 st2 where m2: "confirm_destination env ep ?ref src k st1 = (r2, st2)" by fastforce
    obtain c2 where c2: "gs_calls st2 = gs_calls st1 @ c2" "list_all silent c2"
      using onlyD[OF only_confirm m2] by blast
    show ?thesis
    proof (cases r2)
      case (Inl e)
      then have "st' = st2" "r = Inl e" using run m1 Inr m2 by (auto simp: publish_exact_source_def bindE_def)
      then show ?thesis using c1 c2 lawful_append[OF c1(2) c2(2)] by auto
    next
      case (Inr n)
      let ?track = "if cd_establishUpstream d
        then bindE (establish_upstream_tracking env (cd_sourceBranch d) (cd_remote d) ?ref src) (\<lambda>_. ret n)
        else ret n"
      have t: "?track st2 = (r, st')"
        using run m1 \<open>r1 = Inr k\<close> m2 Inr by (simp add: publish_exact_source_def bindE_def)
      obtain c3 where c3: "gs_calls st' = gs_calls st2 @ c3" "list_all silent c3"
        using onlyD[of silent ?track, OF _ t] only_upstream only_rules(1,3,5) by metis
      have "confirmed ep ?ref src c2" using confirm_inv m2 Inr c2(1) by (metis same_append_eq)
      then have "confirmed ep ?ref src (c1 @ c2 @ c3)" using c3(2) by (rule confirmed_append)
      moreover have "lawful ep ?ref src base (c1 @ c2 @ c3)"
        using lawful_append[OF c1(2), of "c2 @ c3"] c2(2) c3(2) by simp
      ultimately show ?thesis using c1 c2 c3 by (intro exI[of _ "c1 @ c2 @ c3"]) auto
    qed
  qed
qed

definition lawful_run :: "('e, 'a, 'w) git_m \<Rightarrow> bool" where
  "lawful_run m \<longleftrightarrow> (\<forall>st. \<exists>cs ep ref src base. gs_calls (snd (m st)) = gs_calls st @ cs \<and>
     lawful ep ref src base cs \<and>
     (is_ok (fst (m st)) \<and> filter is_push cs \<noteq> [] \<longrightarrow> confirmed ep ref src cs))"

lemma lawful_run_silent: "only silent m \<Longrightarrow> lawful_run m"
  unfolding only_def lawful_run_def by (meson silent_lawful silent_no_push)

lemma lawful_run_exact: "lawful_run (publish_exact_source env d ep src)"
  unfolding lawful_run_def
proof
  fix st
  obtain r st' where run: "publish_exact_source env d ep src st = (r, st')" by fastforce
  from exact_source_lawful[OF run] run show "\<exists>cs ep' ref src' base.
      gs_calls (snd (publish_exact_source env d ep src st)) = gs_calls st @ cs \<and>
      lawful ep' ref src' base cs \<and>
      (is_ok (fst (publish_exact_source env d ep src st)) \<and> filter is_push cs \<noteq> [] \<longrightarrow>
         confirmed ep' ref src' cs)"
    by (metis fst_conv is_ok_iff snd_conv)
qed

lemma lawful_run_bind:
  assumes m: "only silent m" and f: "\<And>v. lawful_run (f v)"
  shows "lawful_run (bindE m f)"
  unfolding lawful_run_def
proof
  fix st
  obtain r st1 where run: "m st = (r, st1)" by fastforce
  obtain ds where ds: "gs_calls st1 = gs_calls st @ ds" "list_all silent ds" using onlyD[OF m run] by blast
  show "\<exists>cs ep ref src base. gs_calls (snd (bindE m f st)) = gs_calls st @ cs \<and>
     lawful ep ref src base cs \<and>
     (is_ok (fst (bindE m f st)) \<and> filter is_push cs \<noteq> [] \<longrightarrow> confirmed ep ref src cs)"
  proof (cases r)
    case (Inl e)
    with run ds show ?thesis
      by (simp add: bindE_def) (metis silent_lawful silent_no_push)
  next
    case (Inr v)
    obtain cs ep ref src base where cs: "gs_calls (snd (f v st1)) = gs_calls st1 @ cs"
      "lawful ep ref src base cs"
      "is_ok (fst (f v st1)) \<and> filter is_push cs \<noteq> [] \<longrightarrow> confirmed ep ref src cs"
      using f[of v] unfolding lawful_run_def by blast
    have "is_ok (fst (f v st1)) \<and> filter is_push (ds @ cs) \<noteq> [] \<longrightarrow> confirmed ep ref src (ds @ cs)"
      using cs(3) silent_no_push[OF ds(2)] confirmed_append[of ep ref src cs "[]" ds] by auto
    with run Inr cs ds lawful_prepend[OF cs(2) ds(2)] show ?thesis
      by (intro exI[of _ "ds @ cs"]) (auto simp: bindE_def)
  qed
qed

lemma execute_push_lawful: "lawful_run (execute_push env autoPush)"
proof -
  have "lawful_run (push_to_destination env d)" for d
    unfolding push_to_destination_def
    by (intro lawful_run_bind lawful_run_exact only_rules) simp
  then have "lawful_run (case x of None \<Rightarrow> ret 0 | Some d \<Rightarrow> push_to_destination env d)" for x
    by (cases x) (simp_all add: lawful_run_silent only_ret)
  then have "lawful_run (bindE (lift_git (resolve_current_push_destination env) err)
      (\<lambda>x. case x of None \<Rightarrow> ret 0 | Some d \<Rightarrow> push_to_destination env d))" for err :: "string \<Rightarrow> commit_error"
    by (intro lawful_run_bind only_lift only_current)
  then show ?thesis
    by (cases autoPush) (simp_all add: execute_push_def lawful_run_silent only_ret)
qed

lemma only_execute_push: "only (\<lambda>_. True) (execute_push env autoPush)"
  unfolding only_def
proof
  fix st
  obtain cs where "gs_calls (snd (execute_push env autoPush st)) = gs_calls st @ cs"
    using execute_push_lawful[of env autoPush] unfolding lawful_run_def by blast
  then show "\<exists>cs. gs_calls (snd (execute_push env autoPush st)) = gs_calls st @ cs \<and> list_all (\<lambda>_. True) cs"
    by (simp add: list_all_iff)
qed

text \<open>C5. Publication is exact, bounded and confirmed. A run of the push performs at most two push commands;
  all of them push one source commit to one ref of one pinned endpoint, under a lease on one
  baseline; if there is a baseline, git first confirmed that it is an ancestor of that commit, so
  nothing is overwritten; and when the run returns after pushing, the endpoint itself has answered,
  after the last push, that the ref is that commit.\<close>

theorem publication_is_exact:
  assumes run: "execute_push env autoPush st = (r, st')"
  shows "\<exists>cs ep ref src base. gs_calls st' = gs_calls st @ cs \<and>
    length (filter is_push cs) \<le> 2 \<and> list_all (exact_push ep src ref base) cs \<and>
    (filter is_push cs \<noteq> [] \<longrightarrow> autoPush \<and> fast_forward base src cs) \<and>
    ((\<exists>n. r = Inr n) \<and> filter is_push cs \<noteq> [] \<longrightarrow> confirmed ep ref src cs)"
proof (cases autoPush)
  case False
  with run have "gs_calls st' = gs_calls st @ []" by (simp add: execute_push_def ret_def)
  then show ?thesis by fastforce
next
  case True
  obtain cs ep ref src base where "gs_calls (snd (execute_push env autoPush st)) = gs_calls st @ cs"
    "lawful ep ref src base cs"
    "is_ok (fst (execute_push env autoPush st)) \<and> filter is_push cs \<noteq> [] \<longrightarrow> confirmed ep ref src cs"
    using execute_push_lawful unfolding lawful_run_def by blast
  with run True show ?thesis
    by (intro exI[of _ cs] exI[of _ ep] exI[of _ ref] exI[of _ src] exI[of _ base])
      (auto simp: lawful_def is_ok_iff)
qed


text \<open>The push throws push errors only.\<close>

definition is_push_error :: "commit_error \<Rightarrow> bool" where
  "is_push_error e \<longleftrightarrow> (\<exists>m t n. e = PushError m t n)"

lemma is_push_error_simps [simp]: "is_push_error (PushError m t n)" "is_push_error (create_push_error env p m n)"
  by (simp_all add: is_push_error_def create_push_error_def)

lemma throws_lift [throws_rules]: "(\<And>e. Q (f e)) \<Longrightarrow> throws Q (lift_git m f)"
  unfolding lift_git_def by (intro throws_rules)

lemma throws_read [throws_rules]: "throws is_push_error (read_destination_sha env ep ref phase n)"
  unfolding read_destination_sha_def by (intro throws_rules) simp

lemma throws_unchanged [throws_rules]: "throws is_push_error (assert_unchanged_or_published a b s n)"
  unfolding assert_unchanged_or_published_def by (intro throws_rules) simp

lemma throws_publish [throws_rules]:
  "throws is_push_error (publish_with_frozen_endpoint env ep ref base src)"
  unfolding publish_with_frozen_endpoint_def publish_retry_def by (intro throws_rules) simp_all

lemma throws_fast_forward [throws_rules]: "throws is_push_error (assert_fast_forward_publication env b s)"
  unfolding assert_fast_forward_publication_def by (intro throws_rules) simp

lemma throws_upstream [throws_rules]: "throws is_push_error (establish_upstream_tracking env b r d s)"
  unfolding establish_upstream_tracking_def by (intro throws_rules) simp

lemma throws_confirm [throws_rules]: "throws is_push_error (confirm_destination env ep ref src n)"
proof -
  have handler: "throws is_push_error (case e of
      PushError _ transient _ \<Rightarrow>
        if \<not> transient \<or> n > 0 then throw e
        else bindE (read_destination_sha env ep ref ''postflight'' 1) (\<lambda>d. ret (d, 1))
      | _ \<Rightarrow> throw e)" if pe: "is_push_error e" for e
  proof -
    obtain m t k where "e = PushError m t k" using pe by (auto simp: is_push_error_def)
    then show ?thesis
      by (cases "\<not> t \<or> n > 0") (auto simp: throws_throw throws_bind throws_read throws_ret)
  qed
  have "throws is_push_error (catchE (bindE (read_destination_sha env ep ref ''postflight'' n) (\<lambda>d. ret (d, n)))
      (\<lambda>e. case e of
         PushError _ transient _ \<Rightarrow>
           if \<not> transient \<or> n > 0 then throw e
           else bindE (read_destination_sha env ep ref ''postflight'' 1) (\<lambda>d. ret (d, 1))
       | _ \<Rightarrow> throw e))"
    using handler throws_read[of env ep ref "''postflight''" n]
    unfolding throws_def catchE_def bindE_def ret_def
    by (fastforce split: prod.splits sum.splits)
  then show ?thesis
    unfolding confirm_destination_def by (intro throws_bind) (auto intro!: throws_rules)
qed

lemma execute_push_throws: "throws is_push_error (execute_push env autoPush)"
proof -
  have "throws is_push_error (push_to_destination env d)" for d
    unfolding push_to_destination_def publish_exact_source_def publish_from_baseline_def
    by (intro throws_rules) simp_all
  then have "throws is_push_error (case x of None \<Rightarrow> ret 0 | Some d \<Rightarrow> push_to_destination env d)" for x
    by (cases x) (simp_all add: throws_ret)
  then show ?thesis unfolding execute_push_def by (intro throws_rules) simp_all
qed

text \<open>A repository with one remote, a branch without upstream, and a remote that moves when pushed to.\<close>

definition git_error :: "string \<Rightarrow> git_failure" where
  "git_error m = \<lparr>gf_message = m, gf_status = Some 1, gf_stdout = None, gf_stderr = None\<rparr>"

definition sample_remote :: "process_config \<Rightarrow> string list \<Rightarrow> bool \<Rightarrow> (git_failure + string) \<times> bool" where
  "sample_remote cfg args pushed =
     (if args = [''remote''] then (Inr ''origin'', pushed)
      else if hd args = ''symbolic-ref'' then (Inr ''main'', pushed)
      else if args = [''rev-parse'', ''HEAD''] then (Inr ''abc'', pushed)
      else if hd args = ''remote'' then (Inr ''u'', pushed)
      else if hd args = ''ls-remote'' then (Inr (if pushed then ''abc x'' else ''base x''), pushed)
      else if hd args = ''merge-base'' then (Inr [], pushed)
      else if hd args = ''push'' then (Inr [], True)
      else if hd args = ''for-each-ref'' then (Inr ''refs/remotes/origin/main'', pushed)
      else if hd args = ''update-ref'' then (Inr [], pushed)
      else if hd args = ''config'' \<and> args ! 1 \<noteq> ''--get'' \<and> args ! 1 \<noteq> ''--null'' then (Inr [], pushed)
      else (Inl (git_error ''no''), pushed))"

definition sample_git_env :: "bool git_env" where
  "sample_git_env = \<lparr>ge_git = sample_remote, ge_shell = (\<lambda>_ w. (Inr [], w)),
     ge_node = (\<lambda>_ w. (Inr [], w)), ge_write = (\<lambda>_ _ w. (None, w)),
     ge_remove = (\<lambda>_ w. w), ge_exists = (\<lambda>_ _. Inr True), ge_sanitize = id, ge_sha256 = id,
     ge_uuid = (\<lambda>_. ''id''), ge_temp_path = (\<lambda>_ _. ''/tmp/m'')\<rparr>"

definition sample_git_state :: "bool git_state" where
  "sample_git_state = \<lparr>gs_world = False, gs_calls = []\<rparr>"

lemma sample_push_run:
  "case execute_push sample_git_env True sample_git_state of (r, st') \<Rightarrow>
     r = Inr 0 \<and> gs_world st' \<and> length (filter is_push (gs_calls st')) = 1"
  by code_simp

theorem publication_is_exact_witness:
  "\<exists>st' ep ref src base. execute_push sample_git_env True sample_git_state = (Inr 0, st') \<and>
     list_all (exact_push ep src ref base) (gs_calls st') \<and> fast_forward base src (gs_calls st') \<and>
     confirmed ep ref src (gs_calls st')"
proof -
  obtain st' where run: "execute_push sample_git_env True sample_git_state = (Inr 0, st')"
    "length (filter is_push (gs_calls st')) = 1"
    using sample_push_run by (auto split: prod.splits)
  have "gs_calls sample_git_state = []" by (simp add: sample_git_state_def)
  with publication_is_exact[OF run(1)] run show ?thesis by fastforce
qed

end
