(* ===== verification/Publisher.thy ===== *)
theory Publisher
  imports Push
begin

text \<open>
  Committing the plans of one repository and pushing once: \<open>commit-plan-file-state.ts\<close> and
  \<open>publisher.ts\<close>. A thrown value that is not one of the error classes is \<^const>\<open>OtherError\<close> with its
  message. Paths are relative to the repository, so \<open>path.resolve\<close> is part of \<open>ge_exists\<close>.
\<close>

subsection \<open>The state of planned files\<close>

record commit_plan_file_state =
  fs_nonexistentFiles :: "string list"
  fs_unchangedFiles :: "string list"

definition failure :: "string \<Rightarrow> git_failure" where
  "failure m = \<lparr>gf_message = m, gf_status = None, gf_stdout = None, gf_stderr = None\<rparr>"

definition path_exists :: "'w git_env \<Rightarrow> string \<Rightarrow> (git_failure, bool, 'w) git_m" where
  "path_exists env p st =
     (let r = ge_exists env p (gs_world st);
          st1 = log_call (ProbedPath p r) (gs_world st) st
      in case r of Inl m \<Rightarrow> (Inl (failure m), st1) | Inr b \<Rightarrow> (Inr b, st1))"

datatype file_verdict = Changed | Unchanged | Nonexistent

definition inspect_file :: "'w git_env \<Rightarrow> string \<Rightarrow> (git_failure, file_verdict, 'w) git_m" where
  "inspect_file env plannedFile =
     bindE (git_exec_args_raw env [] [''--literal-pathspecs'', ''status'', ''--porcelain=v1'',
              ''--ignored=matching'', ''-z'', ''--'', plannedFile]) (\<lambda>status.
       if status \<noteq> [] then ret Changed
       else bindE (path_exists env plannedFile) (\<lambda>there.
         if there then ret Unchanged
         else bindE (git_exec_args_raw env [] [''--literal-pathspecs'', ''ls-files'', ''--cached'', ''-z'',
                       ''--'', plannedFile]) (\<lambda>trackedPath.
           if trackedPath \<noteq> [] then ret Unchanged else ret Nonexistent)))"

fun inspect_files ::
  "'w git_env \<Rightarrow> string list \<Rightarrow> commit_plan_file_state \<Rightarrow> (git_failure, commit_plan_file_state, 'w) git_m" where
  "inspect_files env [] acc = ret acc"
| "inspect_files env (f # fs) acc =
     bindE (inspect_file env f) (\<lambda>v. inspect_files env fs
       (case v of
          Changed \<Rightarrow> acc
        | Unchanged \<Rightarrow> acc\<lparr>fs_unchangedFiles := fs_unchangedFiles acc @ [f]\<rparr>
        | Nonexistent \<Rightarrow> acc\<lparr>fs_nonexistentFiles := fs_nonexistentFiles acc @ [f]\<rparr>))"

definition inspect_commit_plan_file_state ::
  "'w git_env \<Rightarrow> string list \<Rightarrow> (git_failure, commit_plan_file_state, 'w) git_m" where
  "inspect_commit_plan_file_state env files =
     inspect_files env files \<lparr>fs_nonexistentFiles = [], fs_unchangedFiles = []\<rparr>"

subsection \<open>Guards\<close>

definition normalize_path :: "string \<Rightarrow> string" where
  "normalize_path p = strip_trailing_slashes (posix_normalize p)"

fun find_duplicate :: "string set \<Rightarrow> string list \<Rightarrow> string option" where
  "find_duplicate seen [] = None"
| "find_duplicate seen (f # fs) =
     (if normalize_path f \<in> seen then Some f
      else find_duplicate (insert (normalize_path f) seen) fs)"

definition planned_files :: "commit_plan list \<Rightarrow> string list" where
  "planned_files plans = concat (map cp_files plans)"

fun keep_first :: "string set \<Rightarrow> string list \<Rightarrow> string list" where
  "keep_first seen [] = []"
| "keep_first seen (f # fs) =
     (if f \<in> seen then keep_first seen fs else f # keep_first (insert f seen) fs)"

definition collect_pending_files :: "commit_plan list \<Rightarrow> nat \<Rightarrow> string list" where
  "collect_pending_files plans index = keep_first {} (planned_files (drop index plans))"

definition duplicate_error :: "string \<Rightarrow> commit_error" where
  "duplicate_error file = CommitPlanError
     (''Invalid commit plan: file \"'' @ file @ ''\" appears in multiple plans. ''
      @ ''Files that contain multiple concerns must be grouped into a single Fat Commit plan.'')
     DuplicateFile (Some [file]) None"

definition EMPTY_DIFF_HASH :: string where
  "EMPTY_DIFF_HASH = ''e3b0c44298fc1c149afbf4c8996fb92427ae41e4649b934ca495991b7852b855''"

definition check_diff_hash :: "'w git_env \<Rightarrow> string \<Rightarrow> (commit_error, unit, 'w) git_m" where
  "check_diff_hash env expectedDiffHash =
     (if expectedDiffHash = EMPTY_DIFF_HASH then ret ()
      else bindE (lift_git (exec_shell env ''git diff --cached'') (\<lambda>e. OtherError (gf_message e)))
             (\<lambda>currentDiff. if ge_sha256 env currentDiff \<noteq> expectedDiffHash
                then throw DiffHashMismatchError else ret ()))"

subsection \<open>One commit\<close>

definition write_message :: "'w git_env \<Rightarrow> string \<Rightarrow> string \<Rightarrow> (git_failure, unit, 'w) git_m" where
  "write_message env p message st =
     (let (r, w) = ge_write env p message (gs_world st);
          st1 = log_call (WroteFile p message r) w st
      in case r of Some m \<Rightarrow> (Inl (failure m), st1) | None \<Rightarrow> (Inr (), st1))"

definition remove_message :: "'w git_env \<Rightarrow> string \<Rightarrow> 'w git_state \<Rightarrow> 'w git_state" where
  "remove_message env p st = log_call (RemovedFile p) (ge_remove env p (gs_world st)) st"

text \<open>\<open>try { git commit } finally { unlink }\<close>.\<close>

definition commit_with_file :: "'w git_env \<Rightarrow> string \<Rightarrow> (git_failure, string, 'w) git_m" where
  "commit_with_file env p st =
     (let (r, st1) = git_exec_args env [] [''commit'', ''--file'', p, ''--no-verify''] st
      in (r, remove_message env p st1))"

definition read_head :: "'w git_env \<Rightarrow> (git_failure, string, 'w) git_m" where
  "read_head env = bindE (exec_shell env ''git rev-parse HEAD'') (\<lambda>out. ret (trim out))"

definition commit_one_plan :: "'w git_env \<Rightarrow> nat \<Rightarrow> commit_plan \<Rightarrow> (git_failure, string, 'w) git_m" where
  "commit_one_plan env i plan =
     bindE (git_exec_args env [] ([''--literal-pathspecs'', ''add'', ''--''] @ cp_files plan)) (\<lambda>_.
       (\<lambda>st. let p = ge_temp_path env i (gs_world st) in
          bindE (write_message env p (format_conventional_commit (cp_commit plan))) (\<lambda>_.
          bindE (commit_with_file env p) (\<lambda>_. read_head env)) st))"

definition reset_head :: "'w git_env \<Rightarrow> (git_failure, string, 'w) git_m" where
  "reset_head env = exec_shell env ''git reset HEAD''"

text \<open>The \<open>catch\<close> of one plan: clean the index, look at the files, classify.\<close>

definition plan_context :: "committed_sha list \<Rightarrow> string list \<Rightarrow> plan_error_context option" where
  "plan_context committed pending =
     Some \<lparr>pc_committedShas = Some committed, pc_pendingFiles = Some pending\<rparr>"

definition plan_label :: "nat \<Rightarrow> nat \<Rightarrow> string" where
  "plan_label i n = show_nat (i + 1) @ ''/'' @ show_nat n"

definition plan_failure ::
  "commit_plan list \<Rightarrow> nat \<Rightarrow> committed_sha list \<Rightarrow> string \<Rightarrow> git_failure \<Rightarrow> commit_plan_file_state \<Rightarrow> commit_error"
where
  "plan_failure plans i committed originalHead err fileState =
     (let n = length plans; plan = plans ! i; pending = collect_pending_files plans i in
      if fs_nonexistentFiles fileState \<noteq> [] then
        CommitPlanError (''Plan '' @ plan_label i n @ '' references file(s) that do not exist on disk or in Git: ''
            @ join '', '' (fs_nonexistentFiles fileState) @ ''.'')
          NonexistentFile (Some (fs_nonexistentFiles fileState)) (plan_context committed pending)
      else if length (fs_unchangedFiles fileState) = length (cp_files plan) then
        CommitPlanError (''Plan '' @ plan_label i n @ '' has no changes for file(s): ''
            @ join '', '' (fs_unchangedFiles fileState) @ ''.'')
          MissingFile (Some (fs_unchangedFiles fileState)) (plan_context committed pending)
      else
        PartialCommitError (''Commit '' @ plan_label i n @ '' failed: '' @ gf_message err
            @ [CHR 0x0A] @ nullish (gf_stdout err) [] @ [CHR 0x0A] @ nullish (gf_stderr err) [] @ ''. ''
            @ show_nat (length committed) @ '' commit(s) already in history (from '' @ take 7 originalHead @ ''). ''
            @ show_nat (length pending) @ '' file(s) still pending.'')
          \<lparr>pt_committedShas = committed, pt_originalHead = originalHead, pt_failedIndex = i,
           pt_totalCount = n, pt_pendingFiles = pending\<rparr>)"

definition unknown_git_error :: "string \<Rightarrow> commit_error" where
  "unknown_git_error m = GitExecError m ''unknown'' (-1)"

definition fail_plan ::
  "'w git_env \<Rightarrow> commit_plan list \<Rightarrow> nat \<Rightarrow> committed_sha list \<Rightarrow> string \<Rightarrow> git_failure
     \<Rightarrow> (commit_error, 'a, 'w) git_m" where
  "fail_plan env plans i committed originalHead err =
     bindE (lift_git (reset_head env) (\<lambda>e. unknown_git_error
              (''reset HEAD failed during cleanup: '' @ gf_message e @ ''. Original commit error: '' @ gf_message err)))
       (\<lambda>_. bindE (lift_git (inspect_commit_plan_file_state env (cp_files (plans ! i)))
                     (\<lambda>e. unknown_git_error (gf_message e)))
          (\<lambda>fileState. throw (plan_failure plans i committed originalHead err fileState)))"

definition best_effort :: "('e, 'a, 'w) git_m \<Rightarrow> ('f, unit, 'w) git_m" where
  "best_effort m st = (Inr (), snd (m st))"

text \<open>The loop over the plans; \<open>i\<close> is the index of the next one.\<close>

fun commit_loop ::
  "'w git_env \<Rightarrow> commit_plan list \<Rightarrow> string \<Rightarrow> nat \<Rightarrow> commit_plan list \<Rightarrow> committed_sha list
     \<Rightarrow> (commit_error, committed_sha list, 'w) git_m" where
  "commit_loop env plans originalHead i [] committed = ret committed"
| "commit_loop env plans originalHead i (plan # rest) committed =
     bindE (catchE (commit_one_plan env i plan) (fail_plan env plans i committed originalHead)) (\<lambda>sha.
     bindE (best_effort (reset_head env)) (\<lambda>_.
       commit_loop env plans originalHead (i + 1) rest
         (committed @ [\<lparr>cs_sha = sha, cs_files = cp_files plan\<rparr>])))"

record publish_result =
  pu_committedShas :: "committed_sha list"
  pu_originalHead :: string
  pu_pushRetryCount :: nat

text \<open>The push of landed commits.\<close>

definition push_landed ::
  "'w git_env \<Rightarrow> settings \<Rightarrow> string \<Rightarrow> committed_sha list \<Rightarrow> (commit_error, publish_result, 'w) git_m" where
  "push_landed env settings originalHead committed =
     bindE (lift_git (execute_push env (st_autoPush settings)) (\<lambda>e. case e of
              PushError m transient retryCount \<Rightarrow> PostCommitPushError m transient retryCount
                \<lparr>po_committedShas = committed, po_originalHead = originalHead,
                 po_pushRetryCount = retryCount\<rparr>
            | _ \<Rightarrow> e))
       (\<lambda>retryCount. ret \<lparr>pu_committedShas = committed, pu_originalHead = originalHead,
                         pu_pushRetryCount = retryCount\<rparr>)"

definition execute_multi_commit_and_push ::
  "'w git_env \<Rightarrow> commit_plan list \<Rightarrow> string \<Rightarrow> settings \<Rightarrow> (commit_error, publish_result, 'w) git_m" where
  "execute_multi_commit_and_push env plans expectedDiffHash settings =
     (if plans = [] then throw (CommitPlanError
          ''executeMultiCommitAndPush: received an empty plans array.'' EmptyPlans None None)
      else case find_duplicate {} (planned_files plans) of
        Some file \<Rightarrow> throw (duplicate_error file)
      | None \<Rightarrow>
          bindE (check_diff_hash env expectedDiffHash) (\<lambda>_.
          bindE (lift_git (read_head env) (\<lambda>e. OtherError (gf_message e))) (\<lambda>originalHead.
          bindE (lift_git (reset_head env) (\<lambda>e. OtherError (gf_message e))) (\<lambda>_.
          bindE (commit_loop env plans originalHead 0 plans [])
            (push_landed env settings originalHead)))))"


subsection \<open>Before any change\<close>

lemma find_duplicate_None:
  "find_duplicate seen fs = None \<longleftrightarrow>
     distinct (map normalize_path fs) \<and> set (map normalize_path fs) \<inter> seen = {}"
  by (induction seen fs rule: find_duplicate.induct) auto

lemma find_duplicate_Some: "find_duplicate seen fs = Some f \<Longrightarrow> f \<in> set fs"
  by (induction seen fs rule: find_duplicate.induct) (auto split: if_splits)

lemma keep_first_set: "set (keep_first seen fs) = set fs - seen"
  by (induction seen fs rule: keep_first.induct) auto

lemma keep_first_distinct: "distinct (keep_first seen fs)"
  by (induction seen fs rule: keep_first.induct) (auto simp: keep_first_set)

text \<open>Reading calls: the shell commands \<open>git diff --cached\<close> and \<open>git rev-parse HEAD\<close>.\<close>

fun reads_only :: "git_call \<Rightarrow> bool" where
  "reads_only (Shell cmd _) \<longleftrightarrow> cmd = ''git diff --cached'' \<or> cmd = ''git rev-parse HEAD''"
| "reads_only _ = False"

lemma check_reads: "only reads_only (check_diff_hash env h)"
  unfolding check_diff_hash_def by (intro only_rules) simp

text \<open>A plan that cannot be executed changes nothing. When the plans are empty, when a file appears
  twice under any spelling of its path, or when the staged diff is not the one the plans were made
  for, the publication throws having run no git command at all, or only having read the staged
  diff; in particular nothing was staged, committed or pushed.\<close>

theorem invalid_plans_touch_nothing:
  assumes "plans = [] \<or> \<not> distinct (map normalize_path (planned_files plans)) \<or>
      (\<exists>d w. ge_shell env ''git diff --cached'' (gs_world st) = (Inr d, w) \<and> h \<noteq> EMPTY_DIFF_HASH
        \<and> ge_sha256 env d \<noteq> h)"
  shows "\<exists>e st' cs. execute_multi_commit_and_push env plans h settings st = (Inl e, st') \<and>
    (e = DiffHashMismatchError \<or> (\<exists>m k files. e = CommitPlanError m k files None)) \<and>
    gs_calls st' = gs_calls st @ cs \<and> list_all reads_only cs \<and> length cs \<le> 1"
proof (cases "plans = [] \<or> find_duplicate {} (planned_files plans) \<noteq> None")
  case True
  then have "\<exists>e. execute_multi_commit_and_push env plans h settings st = (Inl e, st) \<and>
      (\<exists>m k files. e = CommitPlanError m k files None)"
    by (cases "plans = []") (auto simp: execute_multi_commit_and_push_def throw_def duplicate_error_def)
  then show ?thesis by (metis append_Nil2 le0 list.pred_inject(1) list.size(3))
next
  case False
  then have "distinct (map normalize_path (planned_files plans))" by (simp add: find_duplicate_None)
  with assms False obtain d w where d: "ge_shell env ''git diff --cached'' (gs_world st) = (Inr d, w)"
    "h \<noteq> EMPTY_DIFF_HASH" "ge_sha256 env d \<noteq> h" by auto
  then have "check_diff_hash env h st =
      (Inl DiffHashMismatchError, log_call (Shell ''git diff --cached'' (Inr d)) w st)"
    by (simp add: check_diff_hash_def bindE_def lift_git_def catchE_def exec_shell_def throw_def)
  with False have "execute_multi_commit_and_push env plans h settings st =
      (Inl DiffHashMismatchError, log_call (Shell ''git diff --cached'' (Inr d)) w st)"
    by (simp add: execute_multi_commit_and_push_def bindE_def)
  then show ?thesis by (simp add: log_call_def)
qed

subsection \<open>The commits a run made\<close>

text \<open>What the calls of a run say, read in order and without looking at what the program reports. The index is the
  list of the paths given to \<open>git add\<close> since it was known to equal \<open>HEAD\<close>, or \<open>None\<close> when it is not known. A
  successful \<open>git commit\<close> makes a commit of the index; its message is the one in the file it names, as that file
  was written last. Its object ID is known when the next thing Git answers is \<open>git rev-parse HEAD\<close>. Any
  other command that is not a Git argument list could have made a commit too, of unknown files.\<close>

record made_commit =
  mc_files :: "string list option"
  mc_message :: "string option"
  mc_sha :: "string option"

record run_view =
  rv_index :: "string list option"
  rv_file :: "(string \<times> string) option"
  rv_fresh :: bool
  rv_made :: "made_commit list"

definition unseen :: run_view where
  "unseen = \<lparr>rv_index = None, rv_file = None, rv_fresh = False, rv_made = []\<rparr>"

definition commit_of :: "string list option \<Rightarrow> string option \<Rightarrow> made_commit" where
  "commit_of files message = \<lparr>mc_files = files, mc_message = message, mc_sha = None\<rparr>"

text \<open>The subcommand of a Git argument list: its first word that is not an option.\<close>

definition subcommand :: "string list \<Rightarrow> string" where
  "subcommand args = (case dropWhile (\<lambda>a. take 1 a = ''-'') args of [] \<Rightarrow> [] | a # _ \<Rightarrow> a)"

definition committed_now :: "run_view \<Rightarrow> process_config \<Rightarrow> string list \<Rightarrow> made_commit" where
  "committed_now v cfg args = (case rv_file v of
       Some (p, m) \<Rightarrow> if cfg = [] \<and> args = [''commit'', ''--file'', p, ''--no-verify'']
         then commit_of (rv_index v) (Some m) else commit_of None None
     | None \<Rightarrow> commit_of None None)"

definition name_last :: "string \<Rightarrow> made_commit list \<Rightarrow> made_commit list" where
  "name_last sha cs = butlast cs @ [(last cs)\<lparr>mc_sha := Some sha\<rparr>]"

fun observe :: "run_view \<Rightarrow> git_call \<Rightarrow> run_view" where
  "observe v (GitArgs cfg args r) =
     (if subcommand args = ''commit'' then
        (if is_ok r then v\<lparr>rv_made := rv_made v @ [committed_now v cfg args], rv_index := Some [], rv_fresh := True\<rparr>
         else v\<lparr>rv_fresh := False\<rparr>)
      else if subcommand args = ''add'' then
        v\<lparr>rv_fresh := False,
          rv_index := (if is_ok r \<and> take 3 args = [''--literal-pathspecs'', ''add'', ''--'']
            then map_option (\<lambda>files. files @ drop 3 args) (rv_index v) else None)\<rparr>
      else v\<lparr>rv_fresh := False\<rparr>)"
| "observe v (Shell command r) =
     (if command = ''git rev-parse HEAD'' then
        v\<lparr>rv_fresh := False,
          rv_made := (case r of Inr out \<Rightarrow> if rv_fresh v then name_last (trim out) (rv_made v) else rv_made v
            | Inl _ \<Rightarrow> rv_made v)\<rparr>
      else if command = ''git diff --cached'' then v\<lparr>rv_fresh := False\<rparr>
      else if command = ''git reset HEAD'' then
        v\<lparr>rv_fresh := False, rv_index := (if is_ok r then Some [] else rv_index v)\<rparr>
      else v\<lparr>rv_fresh := False, rv_index := None, rv_made := rv_made v @ [commit_of None None]\<rparr>)"
| "observe v (WroteFile p m r) = v\<lparr>rv_fresh := False, rv_file := (if r = None then Some (p, m) else None)\<rparr>"
| "observe v (RemovedFile p) = v\<lparr>rv_file := None\<rparr>"
| "observe v (ProbedPath p r) = v\<lparr>rv_fresh := False\<rparr>"
| "observe v (RanNode args r) =
     v\<lparr>rv_fresh := False, rv_index := None, rv_made := rv_made v @ [commit_of None None]\<rparr>"

definition commits_made :: "git_call list \<Rightarrow> made_commit list" where
  "commits_made cs = rv_made (foldl observe unseen cs)"

text \<open>A commit that carries out a plan, and a commit the program reports with its files and the object ID Git
  answered.\<close>

definition planned_as :: "commit_plan \<Rightarrow> made_commit \<Rightarrow> bool" where
  "planned_as plan c \<longleftrightarrow> mc_files c = Some (cp_files plan) \<and>
     mc_message c = Some (format_conventional_commit (cp_commit plan))"

definition recorded_as :: "made_commit \<Rightarrow> committed_sha \<Rightarrow> bool" where
  "recorded_as c s \<longleftrightarrow> mc_sha c = Some (cs_sha s) \<and> mc_files c = Some (cs_files s)"

text \<open>The run made the commits of the plans before \<open>i\<close>, all reported as \<open>shas\<close>, and perhaps the one of plan \<open>i\<close>,
  whose object ID Git then failed to tell.\<close>

definition carried_out :: "commit_plan list \<Rightarrow> made_commit list \<Rightarrow> bool" where
  "carried_out plans cs \<longleftrightarrow> list_all2 planned_as (take (length cs) plans) cs"

definition stopped_at :: "commit_plan list \<Rightarrow> made_commit list \<Rightarrow> nat \<Rightarrow> committed_sha list \<Rightarrow> bool" where
  "stopped_at plans cs i shas \<longleftrightarrow> i < length plans \<and> carried_out plans cs \<and>
     list_all2 recorded_as (take i cs) shas \<and>
     (length cs = i \<or> length cs = Suc i \<and> mc_sha (cs ! i) = None)"

definition finished_all :: "commit_plan list \<Rightarrow> made_commit list \<Rightarrow> committed_sha list \<Rightarrow> bool" where
  "finished_all plans cs shas \<longleftrightarrow> list_all2 planned_as plans cs \<and> list_all2 recorded_as cs shas"

definition pending_from :: "commit_plan list \<Rightarrow> nat \<Rightarrow> string list \<Rightarrow> bool" where
  "pending_from plans i files \<longleftrightarrow> set files = set (planned_files (drop i plans)) \<and> distinct files"

text \<open>The outcome of a publication against the commits it made.\<close>

fun accounts_for :: "commit_plan list \<Rightarrow> made_commit list \<Rightarrow> commit_error + publish_result \<Rightarrow> bool" where
  "accounts_for plans cs (Inr res) \<longleftrightarrow> finished_all plans cs (pu_committedShas res)"
| "accounts_for plans cs (Inl (PostCommitPushError m t n ctx)) \<longleftrightarrow>
     finished_all plans cs (po_committedShas ctx) \<and> po_pushRetryCount ctx = n"
| "accounts_for plans cs (Inl (PartialCommitError m ctx)) \<longleftrightarrow>
     stopped_at plans cs (pt_failedIndex ctx) (pt_committedShas ctx) \<and>
     pending_from plans (pt_failedIndex ctx) (pt_pendingFiles ctx) \<and> pt_totalCount ctx = length plans"
| "accounts_for plans cs (Inl (CommitPlanError m k files (Some ctx))) \<longleftrightarrow>
     (\<exists>i shas pending. pc_committedShas ctx = Some shas \<and> pc_pendingFiles ctx = Some pending \<and>
        stopped_at plans cs i shas \<and> pending_from plans i pending)"
| "accounts_for plans cs (Inl (GitExecError m c code)) \<longleftrightarrow> carried_out plans cs"
| "accounts_for plans cs (Inl (PushError m t n)) \<longleftrightarrow> False"
| "accounts_for plans cs (Inl _) \<longleftrightarrow> cs = []"

text \<open>Calls that make no commit.\<close>

fun commits_nothing :: "git_call \<Rightarrow> bool" where
  "commits_nothing (GitArgs cfg args r) \<longleftrightarrow> subcommand args \<noteq> ''commit''"
| "commits_nothing (Shell command r) \<longleftrightarrow>
     command \<in> {''git rev-parse HEAD'', ''git diff --cached'', ''git reset HEAD''}"
| "commits_nothing (RanNode args r) \<longleftrightarrow> False"
| "commits_nothing _ \<longleftrightarrow> True"

lemma subcommand_Cons [simp]:
  "subcommand (a # args) = (if take 1 a = ''-'' then subcommand args else a)"
  by (simp add: subcommand_def)

lemma observe_quiet:
  "commits_nothing c \<Longrightarrow> \<not> rv_fresh v \<Longrightarrow> rv_made (observe v c) = rv_made v \<and> \<not> rv_fresh (observe v c)"
  by (cases c) (auto split: sum.splits)

lemma quiet_made:
  "list_all commits_nothing cs \<Longrightarrow> \<not> rv_fresh v \<Longrightarrow>
     rv_made (foldl observe v cs) = rv_made v \<and> \<not> rv_fresh (foldl observe v cs)"
  by (induction cs arbitrary: v) (simp_all add: observe_quiet)

subsection \<open>No push before every plan is committed\<close>

lemma only_path_exists [only_rules]: "only silent (path_exists env p)"
  by (auto simp: only_def path_exists_def log_call_def Let_def silent_def split: sum.splits)

lemma only_inspect_file [only_rules]: "only silent (inspect_file env f)"
  unfolding inspect_file_def by (intro only_rules) simp_all

lemma only_inspect_files [only_rules]: "only silent (inspect_files env fs acc)"
  by (induction env fs acc rule: inspect_files.induct) (auto intro!: only_rules)

lemma only_write [only_rules]: "only silent (write_message env p m)"
  by (auto simp: only_def write_message_def log_call_def Let_def silent_def split: prod.splits option.splits)

lemma only_commit_file [only_rules]: "only silent (commit_with_file env p)"
  by (auto simp: only_def commit_with_file_def remove_message_def git_exec_args_def git_exec_args_raw_def
      log_call_def Let_def silent_def split: prod.splits sum.splits)

lemma only_read_head [only_rules]: "only silent (read_head env)"
  unfolding read_head_def by (intro only_rules) simp

lemma only_reset [only_rules]: "only silent (reset_head env)"
  unfolding reset_head_def by (intro only_rules) simp

lemma only_with_state: "(\<And>x. only P (m x)) \<Longrightarrow> only P (\<lambda>st. m (g st) st)"
  by (simp add: only_def)

lemma only_commit_one [only_rules]: "only silent (commit_one_plan env i plan)"
  unfolding commit_one_plan_def Let_def
  by (rule only_bind, rule only_args, simp,
      rule only_with_state[where g = "\<lambda>st. ge_temp_path env i (gs_world st)"], intro only_rules)

lemma only_fail_plan [only_rules]: "only silent (fail_plan env plans i c h e)"
  unfolding fail_plan_def inspect_commit_plan_file_state_def by (intro only_rules)

lemma only_best_effort [only_rules]: "only P m \<Longrightarrow> only P (best_effort m)"
  by (simp add: only_def best_effort_def)

lemma only_loop [only_rules]: "only silent (commit_loop env plans h i rest c)"
proof (induction rest arbitrary: i c)
  case Nil
  then show ?case by (simp add: only_ret)
next
  case (Cons plan rest)
  show ?case unfolding commit_loop.simps by (intro only_rules Cons.IH)
qed

lemma only_check [only_rules]: "only silent (check_diff_hash env h)"
  by (rule only_mono[OF check_reads]) (auto elim: reads_only.elims simp: silent_def)

text \<open>The part before the push, and its outcome.\<close>

definition commit_part ::
  "'w git_env \<Rightarrow> commit_plan list \<Rightarrow> string \<Rightarrow> (commit_error, string \<times> committed_sha list, 'w) git_m" where
  "commit_part env plans h =
     bindE (check_diff_hash env h) (\<lambda>_.
     bindE (lift_git (read_head env) (\<lambda>e. OtherError (gf_message e))) (\<lambda>head.
     bindE (lift_git (reset_head env) (\<lambda>e. OtherError (gf_message e))) (\<lambda>_.
     bindE (commit_loop env plans head 0 plans []) (\<lambda>shas. ret (head, shas)))))"

lemma execute_split:
  assumes "plans \<noteq> []" "find_duplicate {} (planned_files plans) = None"
  shows "execute_multi_commit_and_push env plans h settings =
    bindE (commit_part env plans h) (\<lambda>(head, shas). push_landed env settings head shas)"
  using assms by (simp add: execute_multi_commit_and_push_def commit_part_def bindE_assoc bindE_ret)

lemma only_commit_part: "only silent (commit_part env plans h)"
  unfolding commit_part_def by (intro only_rules)

subsection \<open>What the calls of each part made\<close>

text \<open>The view of the calls after the first \<open>k\<close>.\<close>

definition view_since :: "nat \<Rightarrow> 'w git_state \<Rightarrow> run_view" where
  "view_since k st = foldl observe unseen (drop k (gs_calls st))"

lemma seen_log [simp]:
  "k \<le> length (gs_calls st) \<Longrightarrow> view_since k (log_call c w st) = observe (view_since k st) c"
  "length (gs_calls (log_call c w st)) = Suc (length (gs_calls st))"
  "gs_world (log_call c w st) = w"
  by (simp_all add: view_since_def log_call_def)

lemma seen_start: "view_since (length (gs_calls st)) st = unseen"
  by (simp add: view_since_def)

lemma seen_quiet:
  assumes "only commits_nothing m" "m st = (r, st')" "k \<le> length (gs_calls st)" "\<not> rv_fresh (view_since k st)"
  shows "rv_made (view_since k st') = rv_made (view_since k st)" "\<not> rv_fresh (view_since k st')" "k \<le> length (gs_calls st')"
  using onlyD[OF assms(1,2)] quiet_made[OF _ assms(4)] assms(3) by (auto simp: view_since_def)

text \<open>The push and the treatment of a failed plan make no commit.\<close>

lemma quiet_push_default [only_rules]: "only commits_nothing (read_push_default env)"
  unfolding read_push_default_def Let_def by (intro only_rules) simp

lemma quiet_destination_ref [only_rules]: "only commits_nothing (resolve_tracked_destination_ref env b u p d)"
  unfolding resolve_tracked_destination_ref_def Let_def
  by (intro only_rules) (auto intro!: only_rules split: push_default.splits)

lemma quiet_remotes [only_rules]:
  "only commits_nothing (read_configured_remotes env)" "only commits_nothing (read_configured_push_remote env b)"
  "only commits_nothing (read_branch_remote env b)"
  unfolding read_configured_remotes_def read_configured_push_remote_def read_branch_remote_def
  by ((intro only_rules; simp)+)

lemma quiet_current: "only commits_nothing (resolve_current_push_destination env)"
  unfolding resolve_current_push_destination_def untracked_destination_def
    resolve_tracked_push_destination_def tracked_remotes_def
  by (intro only_rules) simp_all

lemma quiet_endpoint: "only commits_nothing (resolve_single_push_endpoint env remote)"
  unfolding resolve_single_push_endpoint_def read_url_rewrite_configuration_def
  by (intro only_rules) (auto intro!: only_rules split: list.splits)

lemma quiet_read [only_rules]: "only commits_nothing (read_destination_sha env ep ref phase n)"
  unfolding read_destination_sha_def read_optional_destination_sha_def Let_def
  by (intro only_rules) simp

lemma quiet_push_exact [only_rules]: "only commits_nothing (push_exact env ep src ref base)"
  unfolding push_exact_def push_arguments_def by (intro only_rules) simp

lemma quiet_confirm [only_rules]: "only commits_nothing (confirm_destination env ep ref s n)"
  unfolding confirm_destination_def
  by (intro only_rules) (auto intro!: only_rules split: commit_error.splits)

lemma quiet_execute_push: "only commits_nothing (execute_push env autoPush)"
  unfolding execute_push_def push_to_destination_def publish_exact_source_def publish_from_baseline_def
    publish_with_frozen_endpoint_def publish_retry_def assert_fast_forward_publication_def
    establish_upstream_tracking_def
  by (intro only_rules quiet_current quiet_endpoint) simp_all

lemma quiet_inspect [only_rules]: "only commits_nothing (inspect_files env files acc)"
proof -
  have "only commits_nothing (path_exists env p)" for p
    by (auto simp: only_def path_exists_def log_call_def Let_def split: sum.splits)
  then have "only commits_nothing (inspect_file env f)" for f
    unfolding inspect_file_def by (intro only_rules) simp_all
  then show ?thesis by (induction env files acc rule: inspect_files.induct) (auto intro!: only_rules)
qed

lemma quiet_reset [only_rules]: "only commits_nothing (reset_head env)"
  unfolding reset_head_def by (intro only_rules) simp

lemma quiet_fail_plan: "only commits_nothing (fail_plan env plans i c h e)"
  unfolding fail_plan_def inspect_commit_plan_file_state_def by (intro only_rules)

lemma quiet_check: "only commits_nothing (check_diff_hash env h)"
  by (rule only_mono[OF check_reads]) (auto elim: reads_only.elims)

lemma quiet_head: "only commits_nothing (read_head env)"
  unfolding read_head_def by (intro only_rules) simp

text \<open>One plan. It makes the commit of the plan and returns the object ID Git tells, or throws having made no
  commit, or the commit whose object ID Git did not tell.\<close>

definition plan_commit :: "commit_plan \<Rightarrow> string option \<Rightarrow> made_commit" where
  "plan_commit plan sha = \<lparr>mc_files = Some (cp_files plan),
     mc_message = Some (format_conventional_commit (cp_commit plan)), mc_sha = sha\<rparr>"

lemma commit_one_made:
  assumes run: "commit_one_plan env i plan st = (r, st')"
    and k: "k \<le> length (gs_calls st)" and clean: "rv_index (view_since k st) = Some []"
  shows "k \<le> length (gs_calls st')" "\<not> rv_fresh (view_since k st')"
    "\<And>sha. r = Inr sha \<Longrightarrow> rv_index (view_since k st') = Some [] \<and>
       rv_made (view_since k st') = rv_made (view_since k st) @ [plan_commit plan (Some sha)]"
    "\<And>e. r = Inl e \<Longrightarrow> rv_made (view_since k st') = rv_made (view_since k st) \<or>
       rv_made (view_since k st') = rv_made (view_since k st) @ [plan_commit plan None]"
proof -
  note defs = commit_one_plan_def bindE_def git_exec_args_def git_exec_args_raw_def write_message_def
    commit_with_file_def remove_message_def read_head_def exec_shell_def ret_def Let_def
    committed_now_def commit_of_def name_last_def plan_commit_def is_ok_def
  show "k \<le> length (gs_calls st')"
    using run k by (auto simp: defs split: prod.splits sum.splits option.splits)
  show "\<not> rv_fresh (view_since k st')"
    using run k by (auto simp: defs split: prod.splits sum.splits option.splits)
  show "rv_index (view_since k st') = Some [] \<and>
       rv_made (view_since k st') = rv_made (view_since k st) @ [plan_commit plan (Some sha)]" if "r = Inr sha" for sha
    using run k clean that by (auto simp: defs split: prod.splits sum.splits option.splits)
  show "rv_made (view_since k st') = rv_made (view_since k st) \<or>
       rv_made (view_since k st') = rv_made (view_since k st) @ [plan_commit plan None]" if "r = Inl e" for e
    using run k clean that by (auto simp: defs split: prod.splits sum.splits option.splits)
qed

text \<open>The loop. Between two plans the index equals \<open>HEAD\<close> and the commits so far are those of the plans before
  \<open>i\<close>, reported as \<open>shas\<close>.\<close>

definition between_plans ::
  "commit_plan list \<Rightarrow> nat \<Rightarrow> committed_sha list \<Rightarrow> nat \<Rightarrow> 'w git_state \<Rightarrow> bool" where
  "between_plans plans i shas k st \<longleftrightarrow> k \<le> length (gs_calls st) \<and> rv_index (view_since k st) = Some [] \<and>
     \<not> rv_fresh (view_since k st) \<and> list_all2 planned_as (take i plans) (rv_made (view_since k st)) \<and>
     list_all2 recorded_as (rv_made (view_since k st)) shas"

lemma plan_commit_planned [simp]: "planned_as plan (plan_commit plan sha)"
  by (simp add: planned_as_def plan_commit_def)

lemma plan_commit_recorded [simp]:
  "recorded_as (plan_commit plan (Some sha)) \<lparr>cs_sha = sha, cs_files = cp_files plan\<rparr>"
  by (simp add: recorded_as_def plan_commit_def)

lemma reset_between:
  assumes "best_effort (reset_head env) st = (r, st')" "between_plans plans i shas k st"
  shows "between_plans plans i shas k st'"
  using assms
  by (auto simp: best_effort_def reset_head_def exec_shell_def between_plans_def Let_def split: prod.splits)

lemma pending_collected: "pending_from plans i (collect_pending_files plans i)"
  by (simp add: pending_from_def collect_pending_files_def keep_first_set keep_first_distinct)

lemma plan_failure_accounts:
  assumes "stopped_at plans cs i shas"
  shows "accounts_for plans cs (Inl (plan_failure plans i shas head err fs))"
  using assms pending_collected
  by (auto simp: plan_failure_def plan_context_def Let_def)

lemma fail_plan_accounts:
  assumes "fail_plan env plans i shas head err st = (r, st')" "stopped_at plans cs i shas"
  shows "\<exists>e. r = Inl e \<and> accounts_for plans cs (Inl e)"
  using assms plan_failure_accounts[OF assms(2)]
  by (auto simp: fail_plan_def bindE_def lift_git_def catchE_def throw_def unknown_git_error_def stopped_at_def
      split: prod.splits sum.splits)

lemma between_stopped:
  assumes "between_plans plans i shas k st" "i < length plans"
  shows "stopped_at plans (rv_made (view_since k st)) i shas"
    "stopped_at plans (rv_made (view_since k st) @ [plan_commit (plans ! i) None]) i shas"
proof -
  let ?cs = "rv_made (view_since k st)"
  have p: "list_all2 planned_as (take i plans) ?cs" "list_all2 recorded_as ?cs shas"
    using assms(1) by (simp_all add: between_plans_def)
  then have n: "length ?cs = i" using assms(2) by (auto dest: list_all2_lengthD)
  with p assms(2) show "stopped_at plans ?cs i shas" by (simp add: stopped_at_def carried_out_def)
  have "list_all2 planned_as (take i plans @ [plans ! i]) (?cs @ [plan_commit (plans ! i) None])"
    using p(1) by (simp add: list_all2_appendI)
  with p n assms(2) show "stopped_at plans (?cs @ [plan_commit (plans ! i) None]) i shas"
    by (simp add: stopped_at_def carried_out_def take_Suc_conv_app_nth nth_append) (simp add: plan_commit_def)
qed

lemma between_next:
  assumes "between_plans plans i shas k st" "i < length plans" "k \<le> length (gs_calls st1)"
    "\<not> rv_fresh (view_since k st1)" "rv_index (view_since k st1) = Some []"
    "rv_made (view_since k st1) = rv_made (view_since k st) @ [plan_commit (plans ! i) (Some sha)]"
  shows "between_plans plans (i + 1) (shas @ [\<lparr>cs_sha = sha, cs_files = cp_files (plans ! i)\<rparr>]) k st1"
  using assms by (simp add: between_plans_def take_Suc_conv_app_nth list_all2_appendI)

definition loop_accounts :: "commit_plan list \<Rightarrow> made_commit list \<Rightarrow> commit_error + committed_sha list \<Rightarrow> bool" where
  "loop_accounts plans cs r \<longleftrightarrow> (case r of
       Inr shas \<Rightarrow> finished_all plans cs shas | Inl e \<Rightarrow> accounts_for plans cs (Inl e))"

lemma commit_loop_accounts:
  assumes "commit_loop env plans head i rest shas st = (r, st')"
    and "rest = drop i plans" "i \<le> length plans" "between_plans plans i shas k st"
  shows "loop_accounts plans (rv_made (view_since k st')) r \<and> \<not> rv_fresh (view_since k st') \<and> k \<le> length (gs_calls st')"
  using assms
proof (induction rest arbitrary: i shas st)
  case Nil
  then show ?case by (auto simp: ret_def loop_accounts_def finished_all_def between_plans_def)
next
  case (Cons plan rest)
  have i: "i < length plans" using Cons.prems(2) by (metis drop_all list.distinct(1) not_le)
  then have step: "plan = plans ! i" "rest = drop (Suc i) plans"
    using Cons.prems(2) by (metis Cons_nth_drop_Suc list.inject)+
  have start: "k \<le> length (gs_calls st)" "rv_index (view_since k st) = Some []"
    using Cons.prems(4) by (simp_all add: between_plans_def)
  obtain r1 st1 where one: "commit_one_plan env i plan st = (r1, st1)" by fastforce
  note seen1 = commit_one_made[OF one start]
  show ?case
  proof (cases r1)
    case (Inl err)
    obtain r2 :: "commit_error + string" and st2
      where fail: "fail_plan env plans i shas head err st1 = (r2, st2)" by fastforce
    note seen2 = seen_quiet[OF quiet_fail_plan fail seen1(1,2)]
    have "stopped_at plans (rv_made (view_since k st1)) i shas"
      using seen1(4)[OF Inl] between_stopped[OF Cons.prems(4) i] step(1) by metis
    from fail_plan_accounts[OF fail this] obtain e where "r2 = Inl e"
      "accounts_for plans (rv_made (view_since k st1)) (Inl e)" by blast
    then show ?thesis
      using Cons.prems(1) one Inl fail seen2 by (auto simp: bindE_def catchE_def loop_accounts_def)
  next
    case (Inr sha)
    let ?shas = "shas @ [\<lparr>cs_sha = sha, cs_files = cp_files plan\<rparr>]"
    obtain u st2 where reset: "best_effort (reset_head env) st1 = (Inr u, st2)"
      and again: "commit_loop env plans head (i + 1) rest ?shas st2 = (r, st')"
      using Cons.prems(1) one Inr by (auto simp: bindE_def catchE_def best_effort_def)
    have "between_plans plans (i + 1) ?shas k st1"
      using between_next[OF Cons.prems(4) i seen1(1,2)] seen1(3)[OF Inr] step(1) by blast
    then have "between_plans plans (i + 1) ?shas k st2" by (rule reset_between[OF reset])
    with Cons.IH[OF again] step(2) i show ?thesis by simp
  qed
qed

text \<open>Before the loop no commit is made, and the loop starts with an index that equals \<open>HEAD\<close>.\<close>

lemma commit_part_accounts:
  assumes run: "commit_part env plans h st = (r, st')" and k: "k = length (gs_calls st)"
  shows "(\<forall>e. r = Inl e \<longrightarrow> accounts_for plans (rv_made (view_since k st')) (Inl e)) \<and>
    (\<forall>head shas. r = Inr (head, shas) \<longrightarrow> finished_all plans (rv_made (view_since k st')) shas) \<and>
    \<not> rv_fresh (view_since k st') \<and> k \<le> length (gs_calls st')"
proof -
  have start: "k \<le> length (gs_calls st)" "\<not> rv_fresh (view_since k st)" "rv_made (view_since k st) = []"
    using k by (simp_all add: seen_start unseen_def)
  obtain r1 st1 where check: "check_diff_hash env h st = (r1, st1)" by fastforce
  note s1 = seen_quiet[OF quiet_check check start(1,2)]
  obtain r2 st2 where head: "read_head env st1 = (r2, st2)" by fastforce
  note s2 = seen_quiet[OF quiet_head head s1(3,2)]
  obtain r3 st3 where reset: "reset_head env st2 = (r3, st3)" by fastforce
  note s3 = seen_quiet[OF quiet_reset reset s2(3,2)]
  show ?thesis
  proof (cases "\<exists>u v w. r1 = Inr u \<and> r2 = Inr v \<and> r3 = Inr w")
    case False
    have "\<exists>e. r = Inl e \<and> (st' = st1 \<or> st' = st2 \<or> st' = st3) \<and> accounts_for plans [] (Inl e)"
      using run False check head reset
      by (cases r1; cases r2; cases r3)
        (auto simp: commit_part_def bindE_def lift_git_def catchE_def throw_def check_diff_hash_def ret_def
          split: if_splits sum.splits prod.splits)
    then show ?thesis using s1 s2 s3 start(3) by auto
  next
    case True
    then obtain u v w where ok: "r1 = Inr u" "r2 = Inr v" "r3 = Inr w" by blast
    have "rv_index (view_since k st3) = Some []"
      using reset ok(3) s2(3) by (auto simp: reset_head_def exec_shell_def is_ok_def Let_def split: prod.splits)
    then have between: "between_plans plans 0 [] k st3" using s1 s2 s3 start(3) by (simp add: between_plans_def)
    obtain r4 where loop: "commit_loop env plans v 0 plans [] st3 = (r4, st')"
      "r = (case r4 of Inl e \<Rightarrow> Inl e | Inr shas \<Rightarrow> Inr (v, shas))"
      using run check head reset ok
      by (auto simp: commit_part_def bindE_def lift_git_def catchE_def ret_def split: sum.splits prod.splits)
    from commit_loop_accounts[OF loop(1) _ _ between] loop(2) show ?thesis
      by (cases r4) (auto simp: loop_accounts_def)
  qed
qed

lemma push_landed_accounts:
  assumes run: "push_landed env settings head shas st = (r, st')" and fin: "finished_all plans cs shas"
  shows "accounts_for plans cs r"
proof -
  obtain r1 st1 where p: "execute_push env (st_autoPush settings) st = (r1, st1)" by fastforce
  show ?thesis
  proof (cases r1)
    case (Inl e)
    then have "is_push_error e" using execute_push_throws p unfolding throws_def by blast
    then obtain m t n where "e = PushError m t n" by (auto simp: is_push_error_def)
    with run fin p Inl show ?thesis
      by (auto simp: push_landed_def bindE_def lift_git_def catchE_def throw_def)
  next
    case (Inr n)
    with run fin p show ?thesis
      by (auto simp: push_landed_def bindE_def lift_git_def catchE_def ret_def)
  qed
qed

lemma publication_accounted:
  assumes run: "execute_multi_commit_and_push env plans h settings st = (r, st')"
  shows "\<exists>cs. gs_calls st' = gs_calls st @ cs \<and> accounts_for plans (commits_made cs) r \<and>
    (filter is_push cs \<noteq> [] \<longrightarrow> list_all2 planned_as plans (commits_made cs))"
proof (cases "plans = [] \<or> find_duplicate {} (planned_files plans) \<noteq> None")
  case True
  then have "st' = st \<and> accounts_for plans (commits_made []) r"
    using run
    by (cases "plans = []")
      (auto simp: execute_multi_commit_and_push_def throw_def duplicate_error_def commits_made_def unseen_def)
  then show ?thesis by simp
next
  case False
  define k where "k = length (gs_calls st)"
  obtain r1 st1 where c: "commit_part env plans h st = (r1, st1)" by fastforce
  note acc = commit_part_accounts[OF c k_def]
  obtain ds where ds: "gs_calls st1 = gs_calls st @ ds" "list_all silent ds"
    using onlyD[OF only_commit_part c] by blast
  have view: "rv_made (view_since k s) = commits_made cs" if "gs_calls s = gs_calls st @ cs" for s cs
    using that by (simp add: view_since_def commits_made_def k_def)
  have run': "bindE (commit_part env plans h) (\<lambda>(head, shas). push_landed env settings head shas) st = (r, st')"
    using run False by (simp add: execute_split)
  show ?thesis
  proof (cases r1)
    case (Inl e)
    then have "st' = st1" "r = Inl e" using run' c by (simp_all add: bindE_def)
    then show ?thesis using acc Inl ds view[OF ds(1)] silent_no_push by fastforce
  next
    case (Inr v)
    obtain head shas where v: "v = (head, shas)" by fastforce
    then have p: "push_landed env settings head shas st1 = (r, st')" using run' c Inr by (simp add: bindE_def)
    have quiet: "only commits_nothing (push_landed env settings head shas)"
      unfolding push_landed_def lift_git_def
      by (intro only_rules quiet_execute_push)
    obtain es where es: "gs_calls st' = gs_calls st1 @ es" using onlyD[OF quiet p] by blast
    have fin: "finished_all plans (rv_made (view_since k st1)) shas" using acc Inr v by blast
    have "rv_made (view_since k st') = rv_made (view_since k st1)" using seen_quiet(1)[OF quiet p] acc by blast
    moreover have "rv_made (view_since k st') = commits_made (ds @ es)" using ds es view by simp
    ultimately have "finished_all plans (commits_made (ds @ es)) shas" using fin by simp
    then show ?thesis using push_landed_accounts[OF p] ds es
      by (intro exI[of _ "ds @ es"]) (auto simp: finished_all_def)
  qed
qed

text \<open>C7. The outcome of a publication accounts for every commit it made and every planned file. Read off
  the Git commands it ran, each of its commits carries out one plan, in the order of the plans: it holds exactly
  the paths of that plan, added to an index that equalled \<open>HEAD\<close>, under the formatted message of that plan; no
  other commit is made on any path. A run that returns, or whose push fails, made the commits of all plans and
  reports each with its files and the object ID Git answered right after it. A failure at plan \<open>i\<close> reports
  exactly the commits of the plans before \<open>i\<close> and, without repetition, every file of the plans from \<open>i\<close> on; at
  most the commit of plan \<open>i\<close> itself exists besides, when Git made it but did not tell its object ID. Only
  a failed cleanup, which reports nothing, can leave commits unreported, and those are still the ones planned.
  And a push command is run only when the commits of all plans exist.\<close>

theorem publication_accounts_for_files:
  assumes run: "execute_multi_commit_and_push env plans h settings st = (r, st')"
  shows "\<exists>cs. gs_calls st' = gs_calls st @ cs \<and> accounts_for plans (commits_made cs) r \<and>
    (filter is_push cs \<noteq> [] \<longrightarrow> list_all2 planned_as plans (commits_made cs))"
  using publication_accounted[OF run] .

text \<open>A plan that names a file twice, and two plans of which git commits only the first.\<close>

definition feat_commit :: commit_message where
  "feat_commit = \<lparr>cm_type = ''feat'', cm_scope = None, cm_description = ''add parser'', cm_body = None,
     cm_isBreaking = False\<rparr>"

definition feat_plan :: commit_plan where
  "feat_plan = \<lparr>cp_commit = feat_commit, cp_files = [''a'']\<rparr>"

definition pushing_settings :: settings where
  "pushing_settings = \<lparr>st_provider = ''p'', st_model = ''m'', st_temperature = 0, st_autoPush = True,
     st_fallbackProvider = None, st_fallbackModel = None, st_thinking = None, st_agent = None,
     st_searchPaths = [], st_skipTests = True, st_maxDiffChars = None\<rparr>"

theorem invalid_plans_touch_nothing_witness:
  "\<exists>e st'. execute_multi_commit_and_push sample_git_env [feat_plan, feat_plan\<lparr>cp_files := [''./a'']\<rparr>] ''h''
      pushing_settings sample_git_state = (Inl e, st') \<and> list_all reads_only (gs_calls st')"
proof -
  have "\<not> distinct (map normalize_path (planned_files [feat_plan, feat_plan\<lparr>cp_files := [''./a'']\<rparr>]))"
    by code_simp
  moreover have "gs_calls sample_git_state = []" by (simp add: sample_git_state_def)
  ultimately show ?thesis
    using invalid_plans_touch_nothing[of "[feat_plan, feat_plan\<lparr>cp_files := [''./a'']\<rparr>]"
        sample_git_env sample_git_state "''h''" pushing_settings]
    by fastforce
qed

definition one_commit_env :: "bool git_env" where
  "one_commit_env = sample_git_env\<lparr>ge_git := (\<lambda>cfg args committed.
     if args ! 0 = ''commit'' then (if committed then (Inl (git_error ''hook''), True) else (Inr [], True))
     else (Inr ''abc'', committed))\<rparr>"

definition three_files :: "commit_plan list" where
  "three_files = [feat_plan, feat_plan\<lparr>cp_files := [''b'', ''c'']\<rparr>]"

lemma sample_publication:
  "case fst (execute_multi_commit_and_push one_commit_env three_files EMPTY_DIFF_HASH pushing_settings
       sample_git_state) of Inl (PartialCommitError m c) \<Rightarrow> pt_failedIndex c = 1 | _ \<Rightarrow> False"
  by code_simp

theorem publication_accounts_for_files_witness:
  "\<exists>m c st'. execute_multi_commit_and_push one_commit_env three_files EMPTY_DIFF_HASH pushing_settings
       sample_git_state = (Inl (PartialCommitError m c), st') \<and>
     mc_files (hd (commits_made (gs_calls st'))) = Some [''a''] \<and>
     map cs_files (pt_committedShas c) = [[''a'']] \<and> set (pt_pendingFiles c) = {''b'', ''c''}"
proof -
  obtain m c st' where run: "execute_multi_commit_and_push one_commit_env three_files EMPTY_DIFF_HASH
      pushing_settings sample_git_state = (Inl (PartialCommitError m c), st')" "pt_failedIndex c = 1"
    using sample_publication
    by (cases "execute_multi_commit_and_push one_commit_env three_files EMPTY_DIFF_HASH pushing_settings sample_git_state")
      (auto split: sum.splits commit_error.splits)
  have "gs_calls sample_git_state = []" by (simp add: sample_git_state_def)
  with publication_accounts_for_files[OF run(1)] run(2)
  have acc: "stopped_at three_files (commits_made (gs_calls st')) 1 (pt_committedShas c)"
    "pending_from three_files 1 (pt_pendingFiles c)" by auto
  then obtain a cs where made: "commits_made (gs_calls st') = a # cs"
    by (cases "commits_made (gs_calls st')") (auto simp: stopped_at_def)
  with acc(1) have "planned_as feat_plan a" "list_all2 recorded_as [a] (pt_committedShas c)"
    by (auto simp: stopped_at_def carried_out_def three_files_def)
  then show ?thesis using run(1) acc(2) made
    by (fastforce simp: planned_as_def recorded_as_def pending_from_def planned_files_def three_files_def
        feat_plan_def list_all2_Cons1)
qed

end
