(* ===== verification/Retry_Policy.thy ===== *)
theory Retry_Policy
  imports Commit_Messages Git_Ops "HOL-Library.List_Lexorder" "HOL-Library.Char_ord"
    "HOL-Library.Multiset"
begin

text \<open>
  Retrying a repository: \<open>queue-retry.ts\<close>, \<open>validation-retry-handler.ts\<close> and
  \<open>llm-job-failure-handler.ts\<close>. The module-level array \<open>retryJobs\<close> is the list of jobs each function
  returns; the payload of a job is a datatype, its JSON text is not modelled. SHA-256 and the
  locale-dependent order of \<open>localeCompare\<close> are parameters, the fields of \<open>hash_env\<close>.
  Log lines and telemetry are not modelled.
\<close>

subsection \<open>Constants\<close>

fun MAX_ATTEMPTS_BY_KIND :: "error_kind \<Rightarrow> nat" where
  "MAX_ATTEMPTS_BY_KIND Validation = 2"
| "MAX_ATTEMPTS_BY_KIND Structural = 1"
| "MAX_ATTEMPTS_BY_KIND Race = 1"
| "MAX_ATTEMPTS_BY_KIND Git = 1"
| "MAX_ATTEMPTS_BY_KIND Network = 1"

definition MAX_FEEDBACK_HISTORY :: nat where
  "MAX_FEEDBACK_HISTORY = max 10 (sum_list (map MAX_ATTEMPTS_BY_KIND error_kinds))"

definition MAX_FEEDBACK_ENTRY_BYTES :: nat where
  "MAX_FEEDBACK_ENTRY_BYTES = 16 * 1024"

definition MAX_FEEDBACK_TOTAL_BYTES :: nat where
  "MAX_FEEDBACK_TOTAL_BYTES = 64 * 1024"

subsection \<open>Payloads\<close>

record feedback =
  fd_previous_commit :: string
  fd_errors :: "feedback_error list"
  fd_committed_shas :: "committed_sha list option"
  fd_pending_files :: "string list option"

record job_base =
  jb_repository :: string
  jb_diffHash :: string
  jb_provider :: string
  jb_model :: string
  jb_temperature :: int
  jb_systemPrompt :: string
  jb_thinking :: "bool option"
  jb_agent :: "string option"

datatype job_payload =
    PlanningPayload job_base string feedback
  | RepairPayload job_base repair_payload

record retry_job =
  rj_id :: string
  rj_payload :: job_payload

datatype queue_retry_result = Queued repo_state retry_job | LoopDetected repo_state

subsection \<open>Hashing plans\<close>

text \<open>The canonical form: the files of each plan sorted by code units, the plans sorted by
  \<open>localeCompare\<close> of their JSON (\<open>he_sort\<close>), then the digest of the whole.\<close>

record hash_env =
  he_sort :: "commit_plan list \<Rightarrow> commit_plan list"
  he_digest :: "commit_plan list \<Rightarrow> string"
  he_sha256 :: "string \<Rightarrow> string"

definition canonical_plan :: "commit_plan \<Rightarrow> commit_plan" where
  "canonical_plan plan = plan\<lparr>cp_files := sort (cp_files plan)\<rparr>"

definition hash_plans :: "hash_env \<Rightarrow> commit_plan list \<Rightarrow> string" where
  "hash_plans he plans = he_digest he (he_sort he (map canonical_plan plans))"

subsection \<open>Feedback history\<close>

definition NL :: string where "NL = [CHR 0x0A]"

definition format_failed_plans :: "commit_plan list \<Rightarrow> string" where
  "format_failed_plans plans =
     join (NL @ ''---'' @ NL)
       (map (\<lambda>p. format_conventional_commit (cp_commit p) @ NL @ ''Files: ''
               @ join '', '' (cp_files p)) plans)"

definition truncate_to :: "nat \<Rightarrow> string \<Rightarrow> string" where
  "truncate_to n s = (if length s > n then take n s @ NL @ ''[truncated]'' else s)"

definition append_feedback_history ::
  "string list option \<Rightarrow> commit_plan list \<Rightarrow> string list \<times> string" where
  "append_feedback_history history failedPlans =
     (let entry = truncate_to MAX_FEEDBACK_ENTRY_BYTES (format_failed_plans failedPlans);
          appended = nullish history [] @ [entry];
          nextHistory = drop (length appended - MAX_FEEDBACK_HISTORY) appended;
          joined = join (NL @ NL @ ''--- NEXT ATTEMPT ---'' @ NL @ NL) nextHistory
      in (nextHistory, truncate_to MAX_FEEDBACK_TOTAL_BYTES joined))"

subsection \<open>Queueing a retry\<close>

definition job_base_of ::
  "repo_state \<Rightarrow> string \<Rightarrow> settings \<Rightarrow> string \<Rightarrow> job_base" where
  "job_base_of rs diffHash settings systemPrompt =
     \<lparr>jb_repository = rs_repository rs, jb_diffHash = diffHash, jb_provider = st_provider settings,
      jb_model = st_model settings, jb_temperature = st_temperature settings,
      jb_systemPrompt = systemPrompt, jb_thinking = st_thinking settings, jb_agent = st_agent settings\<rparr>"

definition queue_commit_message_repair ::
  "hash_env \<Rightarrow> string \<Rightarrow> repo_state \<Rightarrow> feedback_error list \<Rightarrow> settings \<Rightarrow> string \<Rightarrow> commit_plan list
     \<Rightarrow> string + queue_retry_result" where
  "queue_commit_message_repair he repoId rs errors settings systemPrompt failedPlans =
     (if \<not> truthy (rs_diffHash rs)
      then Inl (''Cannot repair repo '' @ repoId @ '': missing diffHash on RepoState'')
      else let planHash = hash_plans he failedPlans
      in if rs_lastPlanHash rs = Some planHash
         then Inr (LoopDetected (rs\<lparr>rs_lastPlanHash := Some planHash\<rparr>))
      else let (nextHistory, _) = append_feedback_history (rs_feedbackHistory rs) failedPlans;
               payload = RepairPayload
                 (job_base_of rs (nullish (rs_diffHash rs) []) settings systemPrompt)
                 \<lparr>rp_rejectedPlans = failedPlans, rp_validationErrors = errors\<rparr>
      in Inr (Queued (rs\<lparr>rs_lastPlanHash := Some planHash, rs_feedbackHistory := Some nextHistory\<rparr>)
                \<lparr>rj_id = repoId, rj_payload = payload\<rparr>))"

definition committed_files :: "committed_sha list \<Rightarrow> string set" where
  "committed_files shas = set (map posix_normalize (concat (map cs_files shas)))"

text \<open>Pending files that already landed, now or in an earlier attempt, are dropped.\<close>

definition filter_pending ::
  "repo_state \<Rightarrow> committed_sha list option \<Rightarrow> string list option \<Rightarrow> string list option" where
  "filter_pending rs committedShas pendingFiles =
     (case pendingFiles of
        Some (f # fs) \<Rightarrow>
          Some (filter (\<lambda>g. posix_normalize g \<notin> committed_files (nullish (rs_committedShas rs) [])
                              \<union> committed_files (nullish committedShas [])) (f # fs))
      | _ \<Rightarrow> pendingFiles)"

text \<open>Staging again and reading the diff; any failure falls back to the reconstructed diff.\<close>

definition restaged_diff ::
  "'w git_ops \<Rightarrow> string list option \<Rightarrow> string \<Rightarrow> 'w \<Rightarrow> string \<times> 'w" where
  "restaged_diff ops pendingFiles remainingDiff w =
     (case (case pendingFiles of Some (f # fs) \<Rightarrow> go_add ops (f # fs) w | _ \<Rightarrow> go_add_all ops w) of
        (False, w1) \<Rightarrow> (remainingDiff, w1)
      | (True, w1) \<Rightarrow>
          (case go_diff_cached ops w1 of (out, w2) \<Rightarrow> (nullish out remainingDiff, w2)))"

definition queue_retry ::
  "hash_env \<Rightarrow> 'w git_ops \<Rightarrow> string \<Rightarrow> repo_state \<Rightarrow> feedback_error list
     \<Rightarrow> committed_sha list option \<Rightarrow> string list option \<Rightarrow> settings \<Rightarrow> string \<Rightarrow> commit_plan list
     \<Rightarrow> 'w \<Rightarrow> (string + queue_retry_result) \<times> 'w" where
  "queue_retry he ops repoId rs errors committedShas pending settings systemPrompt failedPlans w =
     (if \<not> truthy (rs_diffHash rs)
      then (Inl (''Cannot retry repo '' @ repoId @ '': missing diffHash on RepoState''), w)
      else if failedPlans \<noteq> [] \<and> errors \<noteq> [] \<and> list_all (\<lambda>e. fb_kind e = Validation) errors
      then (queue_commit_message_repair he repoId rs errors settings systemPrompt failedPlans, w)
      else let pendingFiles = filter_pending rs committedShas pending;
               (remainingDiff, w1) = reconstruct_remaining_diff ops pendingFiles w;
               (actualDiff, w2) = restaged_diff ops pendingFiles remainingDiff w1;
               newDiffHash = he_sha256 he actualDiff;
               planHash = hash_plans he failedPlans
      in if rs_lastPlanHash rs = Some planHash
         then (Inr (LoopDetected (rs\<lparr>rs_lastPlanHash := Some planHash\<rparr>)), w2)
      else let (nextHistory, previousCommit) = append_feedback_history (rs_feedbackHistory rs) failedPlans;
               payload = PlanningPayload (job_base_of rs newDiffHash settings systemPrompt) actualDiff
                 \<lparr>fd_previous_commit = previousCommit, fd_errors = errors,
                  fd_committed_shas = committedShas, fd_pending_files = pendingFiles\<rparr>
      in (Inr (Queued (rs\<lparr>rs_lastPlanHash := Some planHash, rs_feedbackHistory := Some nextHistory,
                          rs_diffHash := Some newDiffHash\<rparr>)
                \<lparr>rj_id = repoId, rj_payload = payload\<rparr>), w2))"

subsection \<open>Invalid commit messages\<close>

text \<open>\<open>vr_job\<close> is the job pushed on the queue, if any. \<open>Inl\<close> is an exception of \<open>queueRetry\<close>, which
  leaves the handler.\<close>

record validation_result =
  vr_handled :: bool
  vr_repoState :: repo_state
  vr_loopCountDelta :: nat
  vr_job :: "retry_job option"

definition failed_state :: "repo_state \<Rightarrow> string \<Rightarrow> repo_state" where
  "failed_state rs err = rs\<lparr>rs_status := FAILED, rs_error := Some err\<rparr>"

definition start_fallback :: "repo_state \<Rightarrow> repo_state" where
  "start_fallback rs =
     set_attempt Validation 0 (rs\<lparr>rs_fallbackAttempted := Some True, rs_lastPlanHash := None\<rparr>)"

definition validation_loop_failure :: "repo_state \<Rightarrow> repo_state" where
  "validation_loop_failure rs =
     (failed_state rs ''Loop detected: LLM returned an identical commit-message repair.'')
       \<lparr>rs_loopDetected := Some (Validation, nullish (rs_lastPlanHash rs) [])\<rparr>"

definition error_messages :: "feedback_error list \<Rightarrow> string" where
  "error_messages errors = join '', '' (map fb_message errors)"

text \<open>The primary model repeated itself: try the fallback model at once, if there is one.\<close>

definition primary_loop ::
  "hash_env \<Rightarrow> 'w git_ops \<Rightarrow> string \<Rightarrow> repo_state \<Rightarrow> feedback_error list \<Rightarrow> settings \<Rightarrow> string
     \<Rightarrow> commit_plan list \<Rightarrow> 'w \<Rightarrow> (string + validation_result) \<times> 'w" where
  "primary_loop he ops repoId looped errors settings systemPrompt plans w =
     (let failed = \<lparr>vr_handled = True, vr_repoState = validation_loop_failure looped,
                    vr_loopCountDelta = 1, vr_job = None\<rparr>
      in if should_use_fallback settings Validation (MAX_ATTEMPTS_BY_KIND Validation) False then
           (case build_fallback_settings settings of
              Inl e \<Rightarrow> (Inl e, w)
            | Inr fallbackSettings \<Rightarrow>
                (case queue_retry he ops repoId (start_fallback looped) errors None None
                        fallbackSettings systemPrompt plans w of
                   (Inl e, w1) \<Rightarrow> (Inl e, w1)
                 | (Inr (Queued rs' job), w1) \<Rightarrow>
                     (Inr \<lparr>vr_handled = True, vr_repoState = rs', vr_loopCountDelta = 1,
                           vr_job = Some job\<rparr>, w1)
                 | (Inr (LoopDetected _), w1) \<Rightarrow> (Inr failed, w1)))
         else (Inr failed, w))"

text \<open>The attempts of the primary model are used up: the fallback model, or failure.\<close>

definition primary_exhausted ::
  "hash_env \<Rightarrow> 'w git_ops \<Rightarrow> string \<Rightarrow> repo_state \<Rightarrow> feedback_error list \<Rightarrow> settings \<Rightarrow> string
     \<Rightarrow> commit_plan list \<Rightarrow> 'w \<Rightarrow> (string + validation_result) \<times> 'w" where
  "primary_exhausted he ops repoId rs errors settings systemPrompt plans w =
     (if should_use_fallback settings Validation (attempt_count rs Validation) False then
        (case build_fallback_settings settings of
           Inl e \<Rightarrow> (Inl e, w)
         | Inr fallbackSettings \<Rightarrow>
             (case queue_retry he ops repoId (start_fallback rs) errors None None
                     fallbackSettings systemPrompt plans w of
                (Inl e, w1) \<Rightarrow> (Inl e, w1)
              | (Inr (Queued rs' job), w1) \<Rightarrow>
                  (Inr \<lparr>vr_handled = True, vr_repoState = rs', vr_loopCountDelta = 0,
                        vr_job = Some job\<rparr>, w1)
              | (Inr (LoopDetected rs'), w1) \<Rightarrow>
                  (Inr \<lparr>vr_handled = True, vr_repoState =
                         failed_state rs' ''Loop detected after fallback: LLM returned an identical plan.'',
                        vr_loopCountDelta = 0, vr_job = None\<rparr>, w1)))
      else (Inr \<lparr>vr_handled = True,
                 vr_repoState = failed_state rs
                   (''Validation failed after max retries: '' @ error_messages errors),
                 vr_loopCountDelta = 0, vr_job = None\<rparr>, w))"

definition handle_validation_retry ::
  "hash_env \<Rightarrow> 'w git_ops \<Rightarrow> string \<Rightarrow> repo_state \<Rightarrow> commit_plan list \<Rightarrow> settings \<Rightarrow> string
     \<Rightarrow> 'w \<Rightarrow> (string + validation_result) \<times> 'w" where
  "handle_validation_retry he ops repoId rs plans settings systemPrompt w =
     (let errors = collect_commit_message_validation_errors plans
      in if errors = [] then
           (Inr \<lparr>vr_handled = False, vr_repoState = rs, vr_loopCountDelta = 0, vr_job = None\<rparr>, w)
         else if rs_fallbackAttempted rs = Some True then
           (Inr \<lparr>vr_handled = True,
                 vr_repoState = failed_state rs
                   (''Validation failed after fallback repair: '' @ error_messages errors),
                 vr_loopCountDelta = 0, vr_job = None\<rparr>, w)
         else if attempt_count rs Validation < MAX_ATTEMPTS_BY_KIND Validation then
           (let rs1 = set_attempt Validation (attempt_count rs Validation + 1) rs
            in case queue_retry he ops repoId rs1 errors None None settings systemPrompt plans w of
                 (Inl e, w1) \<Rightarrow> (Inl e, w1)
               | (Inr (Queued rs' job), w1) \<Rightarrow>
                   (Inr \<lparr>vr_handled = True, vr_repoState = rs', vr_loopCountDelta = 0,
                         vr_job = Some job\<rparr>, w1)
               | (Inr (LoopDetected looped), w1) \<Rightarrow>
                   primary_loop he ops repoId looped errors settings systemPrompt plans w1)
         else primary_exhausted he ops repoId rs errors settings systemPrompt plans w)"

subsection \<open>A failed LLM job\<close>

definition EMPTY_PLAN_SUCCESS :: string where
  "EMPTY_PLAN_SUCCESS =
     ''LLM returned an empty plan after partial commits completed; treating as success.''"

text \<open>\<open>llmError\<close> is the diagnostic after \<open>sanitizeSensitiveDiagnostic\<close>, which is not modelled.\<close>

definition handle_llm_job_failure ::
  "hash_env \<Rightarrow> 'w git_ops \<Rightarrow> string \<Rightarrow> string \<Rightarrow> repo_state \<Rightarrow> settings \<Rightarrow> string
     \<Rightarrow> 'w \<Rightarrow> (string + (repo_state \<times> retry_job option)) \<times> 'w" where
  "handle_llm_job_failure he ops repoId llmError rs settings systemPrompt w =
     (case classify_llm_failure llmError of
        None \<Rightarrow>
          if (str_includes llmError ''empty'' \<or> str_includes llmError ''non-empty JSON array'')
             \<and> committed_count rs > 0
          then (Inr (rs\<lparr>rs_status := SUCCESS, rs_commits := Some [],
                       rs_error := Some EMPTY_PLAN_SUCCESS\<rparr>, None), w)
          else (Inr (failed_state rs (''LLM fatal error: '' @ llmError), None), w)
      | Some kind \<Rightarrow>
          let attempts = attempt_count rs kind
          in if attempts < MAX_ATTEMPTS_BY_KIND kind then
            (case queue_retry he ops repoId (set_attempt kind (attempts + 1) rs)
                    [plain_error kind llmError
                       (Some ''The previous LLM response was malformed. Regenerate based on the current diff.'')
                       None]
                    None None settings systemPrompt [] w of
               (Inl e, w1) \<Rightarrow> (Inl e, w1)
             | (Inr (LoopDetected rs'), w1) \<Rightarrow>
                 (Inr (failed_state rs' ''Loop detected after LLM-side failure.'', None), w1)
             | (Inr (Queued rs' job), w1) \<Rightarrow> (Inr (rs', Some job), w1))
          else (Inr (failed_state rs (''LLM fatal error after max retries: '' @ llmError), None), w))"


subsection \<open>What queueing guarantees\<close>

lemma repair_queued:
  assumes "queue_commit_message_repair he repoId rs errors settings sp plans = Inr (Queued rs' job)"
  shows "rs' = rs\<lparr>rs_lastPlanHash := Some (hash_plans he plans),
           rs_feedbackHistory := Some (fst (append_feedback_history (rs_feedbackHistory rs) plans))\<rparr>"
    "rs_lastPlanHash rs \<noteq> Some (hash_plans he plans)"
    "\<exists>base p. rj_payload job = RepairPayload base p \<and> jb_model base = st_model settings
       \<and> jb_provider base = st_provider settings"
  using assms
  by (auto simp: queue_commit_message_repair_def Let_def job_base_of_def split: if_splits prod.splits)

fun payload_base :: "job_payload \<Rightarrow> job_base" where
  "payload_base (PlanningPayload b _ _) = b"
| "payload_base (RepairPayload b _) = b"

lemma queue_retry_queued:
  assumes "queue_retry he ops repoId rs errors shas pending settings sp plans w = (Inr (Queued rs' job), w')"
  shows "rs_lastPlanHash rs' = Some (hash_plans he plans)"
    "rs_feedbackHistory rs' = Some (fst (append_feedback_history (rs_feedbackHistory rs) plans))"
    "rs_attempts rs' = rs_attempts rs" "rs_fallbackAttempted rs' = rs_fallbackAttempted rs"
    "rs_status rs' = rs_status rs" "rs_committedShas rs' = rs_committedShas rs"
    "rs_repository rs' = rs_repository rs" "rs_originalHead rs' = rs_originalHead rs"
    "rs_diffHash rs' = rs_diffHash rs \<or> (\<exists>x. rs_diffHash rs' = Some (he_sha256 he x))"
    "rs_lastPlanHash rs \<noteq> Some (hash_plans he plans)" "truthy (rs_diffHash rs)"
    "jb_model (payload_base (rj_payload job)) = st_model settings"
    "jb_provider (payload_base (rj_payload job)) = st_provider settings"
    "rj_id job = repoId"
  using assms
  by (auto simp: queue_retry_def queue_commit_message_repair_def Let_def job_base_of_def
      split: if_splits prod.splits)

lemma queue_retry_loop:
  assumes "queue_retry he ops repoId rs errors shas pending settings sp plans w = (Inr (LoopDetected rs'), w')"
  shows "rs' = rs" "rs_lastPlanHash rs = Some (hash_plans he plans)"
proof -
  have same: "rs_lastPlanHash rs = Some h \<Longrightarrow> rs\<lparr>rs_lastPlanHash := Some h\<rparr> = rs" for h
    by (cases rs) simp
  show "rs' = rs" "rs_lastPlanHash rs = Some (hash_plans he plans)"
    using assms
    by (auto simp: queue_retry_def queue_commit_message_repair_def Let_def same
        split: if_splits prod.splits)
qed

lemma queue_retry_repeated:
  assumes "truthy (rs_diffHash rs)" "rs_lastPlanHash rs = Some (hash_plans he plans)"
  shows "fst (queue_retry he ops repoId rs errors shas pending settings sp plans w) = Inr (LoopDetected rs)"
proof -
  have "rs\<lparr>rs_lastPlanHash := Some (hash_plans he plans)\<rparr> = rs" using assms(2) by (cases rs) simp
  then show ?thesis
    using assms
    by (auto simp: queue_retry_def queue_commit_message_repair_def Let_def split: prod.splits)
qed

lemma canonical_same_files:
  "mset (cp_files p) = mset (cp_files q) \<Longrightarrow> cp_commit p = cp_commit q \<Longrightarrow> canonical_plan p = canonical_plan q"
  by (cases p; cases q) (simp add: canonical_plan_def flip: sorted_list_of_multiset_mset)

text \<open>A plan is never queued twice in a row. Once a retry was queued for a plan, queueing again the same
  commits over the same files, in whatever order each plan lists its files and with whatever errors,
  settings and repository state between, answers loop-detected and changes nothing.\<close>

theorem identical_plan_is_a_loop:
  assumes queued: "queue_retry he ops repoId rs errors shas pending settings sp plans w
      = (Inr (Queued rs' job), w')"
    and same: "list_all2 (\<lambda>p q. cp_commit p = cp_commit q \<and> mset (cp_files p) = mset (cp_files q)) plans plans'"
    and later: "rs_lastPlanHash rs'' = rs_lastPlanHash rs'" "truthy (rs_diffHash rs'')"
  shows "fst (queue_retry he ops repoId rs'' errors' shas' pending' settings' sp' plans' w'')
    = Inr (LoopDetected rs'')"
proof -
  have "map canonical_plan plans = map canonical_plan plans'"
    using same by (induction rule: list_all2_induct) (auto intro: canonical_same_files)
  then have "hash_plans he plans' = hash_plans he plans" by (simp add: hash_plans_def)
  moreover have "rs_lastPlanHash rs' = Some (hash_plans he plans)"
    using queue_retry_queued(1)[OF queued] .
  ultimately show ?thesis using later by (intro queue_retry_repeated) simp_all
qed

subsection \<open>The feedback history is bounded\<close>

lemma truncate_length: "length (truncate_to n s) \<le> n + 12"
  by (simp add: truncate_to_def NL_def)

lemma history_limit: "MAX_FEEDBACK_HISTORY = 10"
  by code_simp

text \<open>The feedback sent to the model is bounded: the history keeps at most ten entries, the newest one
  last, each added entry has at most 16 KiB and the joined text at most 64 KiB, both up to the
  marker of a truncation.\<close>

theorem feedback_history_bounded:
  assumes "append_feedback_history history plans = (next1, previous)"
  shows "length next1 \<le> 10 \<and> next1 \<noteq> [] \<and>
    last next1 = truncate_to MAX_FEEDBACK_ENTRY_BYTES (format_failed_plans plans) \<and>
    length (last next1) \<le> 16384 + 12 \<and> length previous \<le> 65536 + 12 \<and>
    set next1 \<subseteq> set (nullish history []) \<union> {last next1}"
proof -
  let ?entry = "truncate_to MAX_FEEDBACK_ENTRY_BYTES (format_failed_plans plans)"
  let ?all = "nullish history [] @ [?entry]"
  have n: "next1 = drop (length ?all - 10) ?all"
    and p: "previous = truncate_to MAX_FEEDBACK_TOTAL_BYTES
      (join (NL @ NL @ ''--- NEXT ATTEMPT ---'' @ NL @ NL) next1)"
    using assms by (auto simp: append_feedback_history_def Let_def history_limit)
  have ne: "length ?all - 10 < length ?all" by simp
  have "last next1 = ?entry" using n ne by (simp add: last_drop)
  moreover have "length next1 \<le> 10" "next1 \<noteq> []" using n by simp_all
  moreover have "set next1 \<subseteq> set ?all" using n set_drop_subset by metis
  ultimately show ?thesis
    using p truncate_length[of MAX_FEEDBACK_ENTRY_BYTES] truncate_length[of MAX_FEEDBACK_TOTAL_BYTES]
    by (auto simp: MAX_FEEDBACK_ENTRY_BYTES_def MAX_FEEDBACK_TOTAL_BYTES_def)
qed

subsection \<open>Retries are bounded\<close>

text \<open>What is left of the retries of a repository: the unused attempts of each kind, and three more while
  the fallback model has not been tried.\<close>

definition retry_budget :: "repo_state \<Rightarrow> nat" where
  "retry_budget rs = (if rs_fallbackAttempted rs = Some True then 0 else 3)
     + sum_list (map (\<lambda>k. MAX_ATTEMPTS_BY_KIND k - attempt_count rs k) error_kinds)"

lemma retry_budget_limit: "retry_budget rs \<le> 9"
  by (simp add: retry_budget_def error_kinds_def) arith

lemma attempt_count_cong: "rs_attempts rs' = rs_attempts rs \<Longrightarrow> attempt_count rs' = attempt_count rs"
  by (rule ext) (simp add: attempt_count_def)

lemma retry_budget_cong:
  "rs_attempts rs' = rs_attempts rs \<Longrightarrow> rs_fallbackAttempted rs' = rs_fallbackAttempted rs
     \<Longrightarrow> retry_budget rs' = retry_budget rs"
  by (simp add: retry_budget_def attempt_count_cong[of rs' rs])

lemma queued_budget:
  assumes "queue_retry he ops repoId rs errors shas pending settings sp plans w = (Inr (Queued rs' job), w')"
  shows "retry_budget rs' = retry_budget rs" "rs_fallbackAttempted rs' = rs_fallbackAttempted rs"
  using queue_retry_queued(3,4)[OF assms] by (auto intro: retry_budget_cong)

lemma sum_list_map_less:
  fixes f g :: "'a \<Rightarrow> nat"
  shows "\<lbrakk>\<forall>x. f x \<le> g x; k \<in> set xs; f k < g k\<rbrakk> \<Longrightarrow> sum_list (map f xs) < sum_list (map g xs)"
proof (induction xs)
  case (Cons x xs)
  have "sum_list (map f xs) \<le> sum_list (map g xs)" using Cons.prems(1) by (simp add: sum_list_mono)
  then show ?case using Cons by (auto intro: add_less_le_mono add_le_less_mono)
qed simp

lemma budget_spent:
  assumes "attempt_count rs k < MAX_ATTEMPTS_BY_KIND k"
  shows "retry_budget (set_attempt k (attempt_count rs k + 1) rs) < retry_budget rs"
proof -
  let ?rs = "set_attempt k (attempt_count rs k + 1) rs"
  have counts: "attempt_count ?rs = (attempt_count rs)(k := attempt_count rs k + 1)"
    by (rule ext) simp
  have "k \<in> set error_kinds" by (cases k) (simp_all add: error_kinds_def)
  then have "sum_list (map (\<lambda>k. MAX_ATTEMPTS_BY_KIND k - attempt_count ?rs k) error_kinds)
      < sum_list (map (\<lambda>k. MAX_ATTEMPTS_BY_KIND k - attempt_count rs k) error_kinds)"
    using assms by (intro sum_list_map_less[of _ _ k]) (auto simp: counts)
  then show ?thesis by (simp add: retry_budget_def)
qed

lemma budget_fallback:
  assumes "rs_fallbackAttempted rs \<noteq> Some True"
  shows "retry_budget (start_fallback rs) < retry_budget rs"
  using assms attempt_count_cong[of "rs\<lparr>rs_fallbackAttempted := Some True, rs_lastPlanHash := None\<rparr>" rs]
  by (simp add: retry_budget_def error_kinds_def start_fallback_def)


lemma budget_failed [simp]:
  "rs_status (failed_state rs e) = FAILED" "rs_attempts (failed_state rs e) = rs_attempts rs"
  "rs_fallbackAttempted (failed_state rs e) = rs_fallbackAttempted rs"
  by (simp_all add: failed_state_def)

text \<open>What a handler does to a repository: queue one job and spend budget, or fail. The model named in
  the job is the primary one, or the fallback model on its first and only use.\<close>

definition spends :: "settings \<Rightarrow> repo_state \<Rightarrow> repo_state \<Rightarrow> retry_job option \<Rightarrow> bool" where
  "spends settings rs rs' job \<longleftrightarrow> (case job of
       None \<Rightarrow> rs_status rs' = FAILED
     | Some j \<Rightarrow> retry_budget rs' < retry_budget rs \<and>
         (jb_model (payload_base (rj_payload j)) = st_model settings \<and>
            rs_fallbackAttempted rs' = rs_fallbackAttempted rs
          \<or> Some (jb_model (payload_base (rj_payload j))) = st_fallbackModel settings \<and>
            rs_fallbackAttempted rs \<noteq> Some True \<and> rs_fallbackAttempted rs' = Some True))"

lemma spends_failed [simp]: "rs_status rs' = FAILED \<Longrightarrow> spends settings rs rs' None"
  by (simp add: spends_def)

lemma spends_primary:
  assumes "queue_retry he ops repoId (set_attempt k (attempt_count rs k + 1) rs) errors shas pending settings sp plans w
      = (Inr (Queued rs' job), w')" "attempt_count rs k < MAX_ATTEMPTS_BY_KIND k"
  shows "spends settings rs rs' (Some job)"
  using queued_budget[OF assms(1)] queue_retry_queued(12)[OF assms(1)] budget_spent[OF assms(2)]
  by (simp add: spends_def)

lemma spends_fallback:
  assumes q: "queue_retry he ops repoId (start_fallback rs1) errors shas pending fs sp plans w
      = (Inr (Queued rs' job), w')"
    and f: "build_fallback_settings settings = Inr fs" "should_use_fallback settings Validation n False"
    and rs: "rs_fallbackAttempted rs1 = rs_fallbackAttempted rs" "rs_fallbackAttempted rs \<noteq> Some True"
      "retry_budget rs1 \<le> retry_budget rs"
  shows "spends settings rs rs' (Some job)"
proof -
  have "retry_budget (start_fallback rs1) < retry_budget rs1" using budget_fallback rs by metis
  moreover have "rs_fallbackAttempted (start_fallback rs1) = Some True" by (simp add: start_fallback_def)
  moreover have "Some (st_model fs) = st_fallbackModel settings"
    using fallback_settings_available[OF f(2)] f(1) by auto
  ultimately show ?thesis
    using queued_budget[OF q] queue_retry_queued(12)[OF q] rs by (simp add: spends_def)
qed

lemma primary_loop_spends:
  assumes "primary_loop he ops repoId rs1 errors settings sp plans w = (Inr r, w')"
    and "rs_fallbackAttempted rs1 = rs_fallbackAttempted rs" "rs_fallbackAttempted rs \<noteq> Some True"
      "retry_budget rs1 \<le> retry_budget rs"
  shows "spends settings rs (vr_repoState r) (vr_job r) \<and> vr_handled r"
  using assms
  by (auto simp: primary_loop_def Let_def validation_loop_failure_def dest: spends_fallback
      split: if_splits sum.splits prod.splits queue_retry_result.splits)

lemma primary_exhausted_spends:
  assumes "primary_exhausted he ops repoId rs errors settings sp plans w = (Inr r, w')"
    and "rs_fallbackAttempted rs \<noteq> Some True"
  shows "spends settings rs (vr_repoState r) (vr_job r) \<and> vr_handled r"
  using assms
  by (auto simp: primary_exhausted_def intro: spends_fallback
      split: if_splits sum.splits prod.splits queue_retry_result.splits)

lemma validation_spends:
  assumes "handle_validation_retry he ops repoId rs plans settings sp w = (Inr r, w')" "vr_handled r"
  shows "spends settings rs (vr_repoState r) (vr_job r)"
proof (cases "collect_commit_message_validation_errors plans = [] \<or> rs_fallbackAttempted rs = Some True
    \<or> \<not> attempt_count rs Validation < MAX_ATTEMPTS_BY_KIND Validation")
  case True
  then show ?thesis
    using assms by (auto simp: handle_validation_retry_def Let_def
        dest: primary_exhausted_spends split: if_splits)
next
  case False
  let ?rs1 = "set_attempt Validation (attempt_count rs Validation + 1) rs"
  let ?errors = "collect_commit_message_validation_errors plans"
  have b: "retry_budget ?rs1 \<le> retry_budget rs" using budget_spent False by (simp add: less_imp_le)
  obtain q w1 where q: "queue_retry he ops repoId ?rs1 ?errors None None settings sp plans w = (q, w1)"
    by fastforce
  have loop: "q = Inr (LoopDetected l) \<Longrightarrow> l = ?rs1" for l
    using queue_retry_loop(1) q by metis
  show ?thesis
    using assms(1) False q spends_primary[of he ops repoId Validation rs] b loop
      primary_loop_spends[of he ops repoId ?rs1 ?errors settings sp plans w1 r w' rs]
    by (auto simp: handle_validation_retry_def Let_def split: sum.splits queue_retry_result.splits)
qed

lemma llm_failure_spends:
  assumes "handle_llm_job_failure he ops repoId err rs settings sp w = (Inr (rs', job), w')"
  shows "spends settings rs rs' job \<or> (job = None \<and> rs_status rs' = SUCCESS)"
  using assms spends_primary[of he ops repoId _ rs]
  by (auto simp: handle_llm_job_failure_def Let_def
      split: if_splits option.splits sum.splits prod.splits queue_retry_result.splits)

text \<open>Every retry of invalid commit messages spends something. A handled result queues at most one job; with
  a job the remaining budget of the repository strictly decreases, and without one the repository
  is FAILED. The job goes to the primary model, or to the fallback model on its first and only use,
  which marks the repository. The budget is at most nine, so no repository is retried more often.\<close>

theorem validation_retry_bounded:
  assumes "handle_validation_retry he ops repoId rs plans settings sp w = (Inr r, w')" "vr_handled r"
  shows "retry_budget rs \<le> 9 \<and>
    (case vr_job r of
       None \<Rightarrow> rs_status (vr_repoState r) = FAILED
     | Some j \<Rightarrow> retry_budget (vr_repoState r) < retry_budget rs \<and>
         (jb_model (payload_base (rj_payload j)) = st_model settings \<and>
            rs_fallbackAttempted (vr_repoState r) = rs_fallbackAttempted rs
          \<or> Some (jb_model (payload_base (rj_payload j))) = st_fallbackModel settings \<and>
            rs_fallbackAttempted rs \<noteq> Some True \<and> rs_fallbackAttempted (vr_repoState r) = Some True))"
  using validation_spends[OF assms] retry_budget_limit by (simp add: spends_def)

subsection \<open>Concrete retries\<close>

definition sample_hash :: hash_env where
  "sample_hash = \<lparr>he_sort = id, he_digest = (\<lambda>ps. concat (map (\<lambda>p. cm_description (cp_commit p)) ps)),
     he_sha256 = (\<lambda>s. ''h'' @ s)\<rparr>"

definition idle_git :: "unit git_ops" where
  "idle_git = \<lparr>go_diff_file = (\<lambda>_ w. (None, w)), go_diff_cached = (\<lambda>w. (Some ''diff'', w)),
     go_add = (\<lambda>_ w. (True, w)), go_add_all = (\<lambda>w. (True, w)), go_reset_head = (\<lambda>w. w)\<rparr>"

definition sample_settings :: settings where
  "sample_settings = \<lparr>st_provider = ''p'', st_model = ''m'', st_temperature = 0, st_autoPush = True,
     st_fallbackProvider = Some ''fp'', st_fallbackModel = Some ''fm'', st_thinking = None, st_agent = None,
     st_searchPaths = [], st_skipTests = True, st_maxDiffChars = None\<rparr>"

definition sample_repo :: repo_state where
  "sample_repo = \<lparr>rs_repository = ''/r'', rs_status = RUNNING, rs_operation = None, rs_pushSnapshot = None,
     rs_pushedShas = None, rs_diffHash = Some ''d'', rs_commits = None, rs_error = None,
     rs_attempts = None, rs_committedShas = None, rs_originalHead = None, rs_feedbackHistory = None,
     rs_lastPlanHash = None, rs_loopDetected = None, rs_fallbackAttempted = None\<rparr>"

definition bad_plan :: commit_plan where
  "bad_plan = \<lparr>cp_commit = \<lparr>cm_type = ''feat'', cm_scope = None, cm_description = ''wip'',
     cm_body = None, cm_isBreaking = False\<rparr>, cp_files = [''b'', ''a'']\<rparr>"

lemma sample_queue:
  "\<exists>rs job. queue_retry sample_hash idle_git ''r'' sample_repo [plain_error Git ''x'' None None] None None
     sample_settings [] [bad_plan] () = (Inr (Queued rs job), ())"
  by (simp add: queue_retry_def sample_repo_def truthy_def plain_error_def Let_def split: prod.splits)

theorem identical_plan_is_a_loop_witness:
  "\<exists>rs job. fst (queue_retry sample_hash idle_git ''r'' sample_repo [plain_error Git ''x'' None None] None
       None sample_settings [] [bad_plan] ()) = Inr (Queued rs job) \<and>
     fst (queue_retry sample_hash idle_git ''r'' rs [plain_error Race ''y'' None None]
       None None sample_settings [] [bad_plan\<lparr>cp_files := [''a'', ''b'']\<rparr>] ()) = Inr (LoopDetected rs)"
proof -
  obtain rs job where q: "queue_retry sample_hash idle_git ''r'' sample_repo
      [plain_error Git ''x'' None None] None None sample_settings [] [bad_plan] () = (Inr (Queued rs job), ())"
    using sample_queue by blast
  have "rs_diffHash rs = Some ''d'' \<or> (\<exists>x. rs_diffHash rs = Some (''h'' @ x))"
    using queue_retry_queued(9)[OF q] by (auto simp: sample_repo_def sample_hash_def)
  then have "truthy (rs_diffHash rs)" by (auto simp: truthy_def)
  with q identical_plan_is_a_loop[OF q, of "[bad_plan\<lparr>cp_files := [''a'', ''b'']\<rparr>]" rs] show ?thesis
    by (auto simp: bad_plan_def)
qed

theorem feedback_history_bounded_witness:
  "length (fst (append_feedback_history (Some (replicate 10 ''x'')) [bad_plan])) \<le> 10"
  using feedback_history_bounded[OF prod.collapse[symmetric], of "Some (replicate 10 ''x'')" "[bad_plan]"]
  by blast

lemma bad_plan_rejected: "collect_commit_message_validation_errors [bad_plan] \<noteq> []"
  by code_simp

lemma sample_validation:
  "\<exists>r j. handle_validation_retry sample_hash idle_git ''r'' (set_attempt Validation 2 sample_repo)
      [bad_plan] sample_settings [] () = (Inr r, ()) \<and> vr_handled r \<and> vr_job r = Some j"
proof -
  have errors: "list_all (\<lambda>e. fb_kind e = Validation) (collect_commit_message_validation_errors [bad_plan])"
    using collected_kind by (auto simp: list_all_iff)
  have "\<exists>rs job. queue_retry sample_hash idle_git ''r'' (start_fallback (set_attempt Validation 2 sample_repo))
      (collect_commit_message_validation_errors [bad_plan]) None None
      (sample_settings\<lparr>st_provider := ''fp'', st_model := ''fm''\<rparr>) [] [bad_plan] () = (Inr (Queued rs job), ())"
    using errors bad_plan_rejected
    by (simp add: queue_retry_def queue_commit_message_repair_def start_fallback_def sample_repo_def
        set_attempt_def truthy_def Let_def split: prod.splits)
  moreover have "rs_fallbackAttempted (set_attempt Validation 2 sample_repo) = None"
    by (simp add: sample_repo_def)
  moreover have "should_use_fallback sample_settings Validation 2 False"
    "build_fallback_settings sample_settings = Inr (sample_settings\<lparr>st_provider := ''fp'', st_model := ''fm''\<rparr>)"
    by (simp_all add: should_use_fallback_def build_fallback_settings_def sample_settings_def truthy_def
        nullish_def)
  ultimately show ?thesis
    using bad_plan_rejected
    by (auto simp: handle_validation_retry_def primary_exhausted_def Let_def)
qed

theorem validation_retry_bounded_witness:
  "\<exists>r j. fst (handle_validation_retry sample_hash idle_git ''r''
       (set_attempt Validation 2 sample_repo) [bad_plan] sample_settings [] ()) = Inr r \<and>
     vr_job r = Some j \<and> retry_budget (vr_repoState r) < retry_budget (set_attempt Validation 2 sample_repo)"
proof -
  obtain r j where run: "handle_validation_retry sample_hash idle_git ''r''
       (set_attempt Validation 2 sample_repo) [bad_plan] sample_settings [] () = (Inr r, ())"
    "vr_handled r" "vr_job r = Some j"
    using sample_validation by blast
  then show ?thesis using validation_retry_bounded[OF run(1,2)] by auto
qed

text \<open>A second malformed answer in a row is never retried: the failure handler queues with no plans, so
  the two retries hash the same empty plan and the second one is reported as a loop, although two
  attempts are allowed for this kind.\<close>

lemma second_llm_failure_is_a_loop:
  assumes q: "handle_llm_job_failure he ops repoId err rs settings sp w = (Inr (rs', Some job), w1)"
    and k: "classify_llm_failure err' = Some Validation" "attempt_count rs' Validation < 2"
    and d: "truthy (rs_diffHash rs')"
  shows "\<exists>rs''. fst (handle_llm_job_failure he ops repoId err' rs' settings sp w2) = Inr (rs'', None) \<and>
    rs_status rs'' = FAILED \<and> rs_error rs'' = Some ''Loop detected after LLM-side failure.''"
proof -
  have "rs_lastPlanHash rs' = Some (hash_plans he [])"
    using q by (auto simp: handle_llm_job_failure_def Let_def dest: queue_retry_queued(1)
        split: if_splits option.splits sum.splits prod.splits queue_retry_result.splits)
  then have "fst (queue_retry he ops repoId (set_attempt Validation (attempt_count rs' Validation + 1) rs')
      [plain_error Validation err' (Some ''The previous LLM response was malformed. Regenerate based on the current diff.'') None]
      None None settings sp [] w2) = Inr (LoopDetected (set_attempt Validation (attempt_count rs' Validation + 1) rs'))"
    using d by (intro queue_retry_repeated) simp_all
  then show ?thesis
    using k by (auto simp: handle_llm_job_failure_def Let_def failed_state_def split: prod.splits)
qed

end
