(* ===== verification/Secret_Scanner.thy ===== *)
theory Secret_Scanner
  imports JS_Regex
begin

text \<open>
  The secret scanner, \<open>src/src/modules/core/secret-scanner.ts\<close>: the patterns, the exemptions and the loop
  over the lines of a diff, with the specification that the loop computes, line by line, the verdict
  on each added line in the file of its last header. A pattern's \<open>confirm\<close> is an optional predicate.
\<close>

record finding =
  sf_name :: string
  sf_line :: string
  sf_lineNumber :: nat
  sf_filePath :: "string option"
  sf_reason :: "string option"

record scan_result =
  sr_clean :: bool
  sr_findings :: "finding list"
  sr_warnings :: "finding list"

record secret_pattern =
  sp_name :: string
  sp_pattern :: rx
  sp_confirm :: "(string \<Rightarrow> bool) option"

subsection \<open>Patterns\<close>

definition PASSWORD_PLACEHOLDERS :: "string list" where
  "PASSWORD_PLACEHOLDERS = [''changeme'', ''password'', ''placeholder'', ''example'', ''xxx'', ''xxxxxxxx'',
     ''todo'', ''fixme'']"

text \<open>\<open>/[:=]\s*['"]?(.*?)['"]?\s*$/\<close>: after the first \<open>:\<close> or \<open>=\<close> from which the rest of the line can
  be matched, as much white space as possible, a quote if there is one, and the shortest value
  that leaves only an optional quote and white space.\<close>

definition value_ends :: "string \<Rightarrow> bool" where
  "value_ends s \<longleftrightarrow> is_blank s \<or> (case s of c # cs \<Rightarrow> is_quote c \<and> is_blank cs | [] \<Rightarrow> False)"

fun lazy_value :: "string \<Rightarrow> string option" where
  "lazy_value [] = Some []"
| "lazy_value (c # cs) =
     (if value_ends (c # cs) then Some []
      else if is_line_terminator c then None
      else map_option (\<lambda>v. c # v) (lazy_value cs))"

fun first_some :: "('a \<Rightarrow> 'b option) \<Rightarrow> 'a list \<Rightarrow> 'b option" where
  "first_some f [] = None"
| "first_some f (x # xs) = (case f x of None \<Rightarrow> first_some f xs | Some y \<Rightarrow> Some y)"

definition value_after_space :: "string \<Rightarrow> string option" where
  "value_after_space s =
     (case s of
        c # cs \<Rightarrow> if is_quote c then (case lazy_value cs of None \<Rightarrow> lazy_value s | v \<Rightarrow> v) else lazy_value s
      | [] \<Rightarrow> lazy_value s)"

definition value_after_separator :: "string \<Rightarrow> string option" where
  "value_after_separator s =
     first_some (\<lambda>k. value_after_space (drop k s)) (rev [0..<Suc (length (takeWhile is_js_whitespace s))])"

fun assigned_value :: "string \<Rightarrow> string option" where
  "assigned_value [] = None"
| "assigned_value (c # cs) =
     (if c = CHR '':'' \<or> c = CHR ''=''
      then (case value_after_separator cs of None \<Rightarrow> assigned_value cs | v \<Rightarrow> v)
      else assigned_value cs)"

text \<open>\<open>.replace(/^['"]|['"]$/g, "")\<close>.\<close>

definition strip_quotes :: "string \<Rightarrow> string" where
  "strip_quotes s =
     (let t = (case s of c # cs \<Rightarrow> if is_quote c then cs else s | [] \<Rightarrow> [])
      in if t \<noteq> [] \<and> is_quote (last t) then butlast t else t)"

definition extract_assigned_value :: "string \<Rightarrow> string" where
  "extract_assigned_value content =
     (case assigned_value content of None \<Rightarrow> [] | Some v \<Rightarrow> strip_quotes v)"

definition confirm_password :: "string \<Rightarrow> bool" where
  "confirm_password content =
     (let v = extract_assigned_value content
      in \<not> length v < 8 \<and> map to_lower v \<notin> set PASSWORD_PLACEHOLDERS)"

definition is_key_char :: "char \<Rightarrow> bool" where
  "is_key_char c \<longleftrightarrow> is_digit c \<or> is_upper c"

definition rx_quote :: rx where "rx_quote = rx_opt (Cls is_quote)"

definition pat :: "string \<Rightarrow> rx list \<Rightarrow> secret_pattern" where
  "pat name rs = \<lparr>sp_name = name, sp_pattern = rx_seq rs, sp_confirm = None\<rparr>"

definition SECRET_PATTERNS :: "secret_pattern list" where
  "SECRET_PATTERNS =
     [pat ''AWS Access Key'' [rx_lit ''AKIA'', rx_times 16 (Cls is_key_char)],
      pat ''AWS Secret Key'' [rx_any [rx_ilit ''aws_secret_access_key'', rx_ilit ''aws_secret_key''],
        rx_spaces, rx_lit ''='', rx_spaces, rx_at_least 20 rx_nonspace],
      pat ''Private Key'' [rx_lit ''-----BEGIN '', rx_opt (rx_any [rx_lit ''RSA '', rx_lit ''EC '', rx_lit ''DSA '']),
        rx_lit ''PRIVATE KEY-----''],
      pat ''GitHub Token'' [rx_lit ''gh'', rx_one_of ''pousr'', rx_lit ''_'', rx_at_least 36 rx_word],
      pat ''Slack Token'' [rx_lit ''xox'', rx_one_of ''baprs'', rx_lit ''-'', rx_at_least 10 rx_digit, rx_lit ''-'',
        rx_plus (Cls (\<lambda>c. is_letter c \<or> is_digit c \<or> c = CHR ''-''))],
      pat ''Connection String'' [rx_any [rx_lit ''mongodb'', rx_lit ''postgres'', rx_lit ''postgresql'',
          rx_lit ''mysql'', rx_lit ''redis''], rx_lit ''://'',
        rx_plus (Cls (\<lambda>c. \<not> is_js_whitespace c \<and> c \<noteq> CHR '':'')), rx_lit '':'',
        rx_plus (Cls (\<lambda>c. \<not> is_js_whitespace c \<and> c \<noteq> CHR 0x40)), rx_chr (CHR 0x40), rx_plus rx_nonspace],
      pat ''Generic API Key'' [rx_any [rx_seq [rx_ilit ''api'', rx_opt (rx_one_of ''_-''), rx_ilit ''key''],
          rx_ilit ''apikey''], rx_spaces, rx_one_of '':='', rx_spaces, rx_quote, rx_at_least 20 rx_nonspace],
      pat ''Generic Token'' [rx_any [rx_ilit ''auth_token'', rx_ilit ''access_token'', rx_ilit ''refresh_token''],
        rx_spaces, rx_one_of '':='', rx_spaces, rx_quote, rx_at_least 20 rx_nonspace],
      pat ''Env Secret'' [rx_any [rx_lit ''SECRET_KEY'', rx_lit ''PRIVATE_KEY'', rx_lit ''STRIPE_API_KEY'',
          rx_lit ''STRIPE_SECRET'', rx_lit ''OPENAI_API_KEY'', rx_lit ''ANTHROPIC_API_KEY'',
          rx_lit ''SENDGRID_API_KEY''], rx_spaces, rx_lit ''='', rx_spaces, rx_at_least 16 rx_nonspace],
      (pat ''Password / Secret'' [rx_any [rx_ilit ''password'', rx_ilit ''passwd'', rx_ilit ''pwd'',
          rx_ilit ''db_password'', rx_ilit ''mysql_password'', rx_ilit ''postgres_password''],
        rx_spaces, rx_lit ''='', NotAhead (rx_lit ''=''), rx_spaces])\<lparr>sp_confirm := Some confirm_password\<rparr>]"

definition FALSE_POSITIVE_PATTERNS :: "rx list" where
  "FALSE_POSITIVE_PATTERNS =
     [rx_seq [rx_lit ''process.env'', rx_one_of ''.['', rx_plus rx_word],
      rx_lit ''os.environ['',
      rx_seq [rx_lit ''$'', rx_opt (rx_lit ''{''), rx_plus rx_word, rx_opt (rx_lit ''}'')],
      rx_lit ''getenv('', rx_lit ''requireEnv('', rx_lit ''getApiKey('']"

definition ALLOW_SECRET_ANNOTATION :: string where
  "ALLOW_SECRET_ANNOTATION = ''git-commits-push: allow-secret''"

definition MOCK_KEYWORD_PATTERN :: rx where
  "MOCK_KEYWORD_PATTERN = rx_seq [WordBoundary, rx_any [rx_ilit ''mock'', rx_ilit ''dummy'', rx_ilit ''test'',
     rx_ilit ''example'', rx_ilit ''fake''], WordBoundary]"

definition NON_PRODUCTION_PATH_SEGMENTS :: "string list" where
  "NON_PRODUCTION_PATH_SEGMENTS = [''test'', ''tests'', ''__tests__'', ''specs'', ''fixtures'']"

definition ENV_EXAMPLE_FILENAMES :: "string list" where
  "ENV_EXAMPLE_FILENAMES = [''.env.example'', ''.env.template'', ''.env.sample'']"

subsection \<open>Paths\<close>

text \<open>\<open>/^diff --git a\/.+ b\/(.+)$/\<close>: the first group is greedy, so the last \<open> b/\<close> with text on both
  sides counts. \<open>last_target seen s\<close>: \<open>seen\<close> tells that some text precedes \<open>s\<close>.\<close>

fun last_target :: "bool \<Rightarrow> string \<Rightarrow> string option" where
  "last_target seen [] = None"
| "last_target seen (c # cs) =
     (case last_target True cs of
        Some p \<Rightarrow> Some p
      | None \<Rightarrow>
          if seen \<and> starts_with '' b/'' (c # cs) \<and> drop 4 (c # cs) \<noteq> [] then Some (drop 4 (c # cs)) else None)"

definition parse_diff_git_path :: "string \<Rightarrow> string option" where
  "parse_diff_git_path line =
     (if starts_with ''diff --git a/'' line \<and> \<not> list_ex is_line_terminator line
      then last_target False (drop 13 line) else None)"

definition parse_added_file_path :: "string \<Rightarrow> string option" where
  "parse_added_file_path line =
     (if \<not> starts_with ''+++ '' line then None
      else let rawPath = trim (drop 4 line)
      in if rawPath = ''/dev/null'' then None
         else Some (if starts_with ''b/'' rawPath then drop 2 rawPath else rawPath))"

definition path_segments :: "string \<Rightarrow> string list" where
  "path_segments p = concat (map (split_on (CHR 0x5C)) (split_on (CHR ''/'') (map to_lower p)))"

definition is_non_production_path :: "string option \<Rightarrow> bool" where
  "is_non_production_path p =
     (case p of None \<Rightarrow> False
      | Some f \<Rightarrow> f \<noteq> [] \<and> list_ex (\<lambda>s. s \<in> set NON_PRODUCTION_PATH_SEGMENTS) (path_segments f))"

definition is_env_example_path :: "string option \<Rightarrow> bool" where
  "is_env_example_path p =
     (case p of None \<Rightarrow> False
      | Some f \<Rightarrow> f \<noteq> [] \<and> last (path_segments f) \<in> set ENV_EXAMPLE_FILENAMES)"

subsection \<open>The scan\<close>

definition exempt_content :: "string \<Rightarrow> bool" where
  "exempt_content content \<longleftrightarrow>
     str_includes content ALLOW_SECRET_ANNOTATION \<or> rx_test MOCK_KEYWORD_PATTERN content
     \<or> list_ex (\<lambda>r. rx_test r content) FALSE_POSITIVE_PATTERNS"

definition pattern_hits :: "string \<Rightarrow> secret_pattern \<Rightarrow> bool" where
  "pattern_hits content p \<longleftrightarrow> rx_test (sp_pattern p) content
     \<and> (case sp_confirm p of None \<Rightarrow> True | Some f \<Rightarrow> f content)"

definition build_finding :: "string \<Rightarrow> string \<Rightarrow> nat \<Rightarrow> string option \<Rightarrow> string option \<Rightarrow> finding" where
  "build_finding name content lineNumber filePath reason =
     \<lparr>sf_name = name, sf_line = trim content, sf_lineNumber = lineNumber,
      sf_filePath = (case filePath of Some f \<Rightarrow> if f \<noteq> [] then Some f else None | None \<Rightarrow> None),
      sf_reason = reason\<rparr>"

definition NON_PRODUCTION :: string where "NON_PRODUCTION = ''non-production path''"

text \<open>The verdict on the content of one added line.\<close>

definition scan_content :: "nat \<Rightarrow> string option \<Rightarrow> string \<Rightarrow> finding option" where
  "scan_content lineNumber path content =
     (if is_env_example_path path \<or> exempt_content content then None
      else map_option (\<lambda>p. build_finding (sp_name p) content lineNumber path
               (if is_non_production_path path then Some NON_PRODUCTION else None))
             (List.find (pattern_hits content) SECRET_PATTERNS))"

definition is_header :: "string \<Rightarrow> bool" where
  "is_header line \<longleftrightarrow> starts_with ''diff --git '' line \<or> starts_with ''+++ '' line"

definition header_path :: "string \<Rightarrow> string option" where
  "header_path line =
     (if starts_with ''diff --git '' line then parse_diff_git_path line else parse_added_file_path line)"

fun scan_lines :: "nat \<Rightarrow> string option \<Rightarrow> string list \<Rightarrow> finding list \<times> finding list" where
  "scan_lines i path [] = ([], [])"
| "scan_lines i path (line # rest) =
     (if is_header line then scan_lines (i + 1) (header_path line) rest
      else let (findings, warnings) = scan_lines (i + 1) path rest
      in if \<not> starts_with ''+'' line then (findings, warnings)
         else (case scan_content (i + 1) path (drop 1 line) of
                 None \<Rightarrow> (findings, warnings)
               | Some f \<Rightarrow> if sf_reason f = Some NON_PRODUCTION then (findings, f # warnings)
                   else (f # findings, warnings)))"

definition scan_diff :: "string \<Rightarrow> scan_result" where
  "scan_diff diff =
     (if is_blank diff then \<lparr>sr_clean = True, sr_findings = [], sr_warnings = []\<rparr>
      else let (findings, warnings) = scan_lines 0 None (split_on (CHR 0x0A) diff)
      in \<lparr>sr_clean = (findings = []), sr_findings = findings, sr_warnings = warnings\<rparr>)"

subsection \<open>What the scan computes\<close>

text \<open>The file a line belongs to, from the headers before it; and the verdict on line \<open>i\<close>.\<close>

definition file_at :: "string list \<Rightarrow> nat \<Rightarrow> string option" where
  "file_at lines i =
     (case filter is_header (take i lines) of [] \<Rightarrow> None | hs \<Rightarrow> header_path (last hs))"

definition line_verdict :: "string list \<Rightarrow> nat \<Rightarrow> finding option" where
  "line_verdict lines i =
     (let line = lines ! i in
      if \<not> is_header line \<and> starts_with ''+'' line
      then scan_content (i + 1) (file_at lines i) (drop 1 line) else None)"

definition blocking :: "finding \<Rightarrow> bool" where
  "blocking f \<longleftrightarrow> sf_reason f \<noteq> Some NON_PRODUCTION"

definition verdicts :: "string list \<Rightarrow> finding list" where
  "verdicts lines = List.map_filter (line_verdict lines) [0..<length lines]"

lemma scan_lines_verdicts:
  assumes "lines = done @ rest" "path = file_at lines (length done)"
  shows "scan_lines (length done) path rest =
    (let vs = List.map_filter (line_verdict lines) [length done..<length lines]
     in (filter blocking vs, filter (\<lambda>f. \<not> blocking f) vs))"
  using assms
proof (induction rest arbitrary: "done" path)
  case Nil
  then show ?case by (simp add: map_filter_simps)
next
  case (Cons line rest)
  have len: "length done < length lines" using Cons.prems(1) by simp
  have here: "lines ! length done = line" using Cons.prems(1) by simp
  have split: "[length done..<length lines] = length done # [Suc (length done)..<length lines]"
    using len by (rule upt_conv_Cons)
  have next1: "file_at lines (Suc (length done)) = (if is_header line then header_path line else path)"
    using Cons.prems by (cases "filter is_header done") (simp_all add: file_at_def)
  have IH: "scan_lines (Suc (length done)) (if is_header line then header_path line else path) rest =
      (let vs = List.map_filter (line_verdict lines) [Suc (length done)..<length lines]
       in (filter blocking vs, filter (\<lambda>f. \<not> blocking f) vs))"
    using Cons.IH[of "done @ [line]" "file_at lines (Suc (length done))"] Cons.prems(1) next1 by simp
  have verdict: "line_verdict lines (length done) =
      (if \<not> is_header line \<and> starts_with ''+'' line then scan_content (Suc (length done)) path (drop 1 line) else None)"
    using Cons.prems(2) here by (simp add: line_verdict_def)
  have reason: "(sf_reason f = Some NON_PRODUCTION) = (\<not> blocking f)" for f :: finding
    by (simp add: blocking_def)
  show ?case
    using IH
    by (cases "is_header line"; cases "scan_content (Suc (length done)) path (drop 1 line)")
      (simp_all add: split verdict map_filter_simps Let_def reason)
qed

lemma find_hit: "p \<in> set ps \<Longrightarrow> P p \<Longrightarrow> \<exists>q. List.find P ps = Some q \<and> P q \<and> q \<in> set ps"
  by (induction ps) auto

lemma scan_diff_verdicts:
  "scan_diff diff =
    (let vs = verdicts (split_on (CHR 0x0A) diff); fs = filter blocking vs
     in if is_blank diff then \<lparr>sr_clean = True, sr_findings = [], sr_warnings = []\<rparr>
        else \<lparr>sr_clean = (fs = []), sr_findings = fs, sr_warnings = filter (\<lambda>f. \<not> blocking f) vs\<rparr>)"
proof -
  have "scan_lines 0 None (split_on (CHR 0x0A) diff) =
      (let vs = verdicts (split_on (CHR 0x0A) diff) in (filter blocking vs, filter (\<lambda>f. \<not> blocking f) vs))"
    using scan_lines_verdicts[of "split_on (CHR 0x0A) diff" "[]"] by (simp add: verdicts_def file_at_def)
  then show ?thesis by (simp add: scan_diff_def Let_def)
qed

text \<open>A blank diff has no added line.\<close>

lemma split_on_chars: "w \<in> set (split_on c s) \<Longrightarrow> set w \<subseteq> set s"
proof (induction s arbitrary: w)
  case (Cons a s)
  obtain v vs where v: "split_on c s = v # vs" by (cases "split_on c s") simp_all
  with Cons.IH have "set v \<subseteq> set s" "\<And>u. u \<in> set vs \<Longrightarrow> set u \<subseteq> set s" by simp_all
  with Cons.prems v show ?case by (fastforce split: if_splits)
qed simp

lemma blank_no_verdict:
  assumes "is_blank diff"
  shows "verdicts (split_on (CHR 0x0A) diff) = []"
proof -
  have ws: "\<not> is_js_whitespace (CHR ''+'')" by code_simp
  have "line_verdict (split_on (CHR 0x0A) diff) i = None" if "i < length (split_on (CHR 0x0A) diff)" for i
  proof -
    have "\<not> starts_with ''+'' (split_on (CHR 0x0A) diff ! i)"
    proof
      assume "starts_with ''+'' (split_on (CHR 0x0A) diff ! i)"
      then have "CHR ''+'' \<in> set (split_on (CHR 0x0A) diff ! i)"
        by (cases "split_on (CHR 0x0A) diff ! i") (auto simp: starts_with_def)
      then have "CHR ''+'' \<in> set diff" using split_on_chars nth_mem[OF that] by blast
      with assms ws show False by (auto simp: is_blank_iff)
    qed
    then show ?thesis by (simp add: line_verdict_def)
  qed
  then show ?thesis by (auto simp: verdicts_def map_filter_def filter_empty_conv)
qed

text \<open>The scan is the line-by-line verdict. The findings of a diff are, in order, the verdicts on its
  added lines, each judged alone and in the file of the last header before it, that are not in a
  non-production path; the warnings are those that are; and the diff is clean exactly when no
  finding blocks.\<close>

theorem scan_diff_is_line_by_line:
  "sr_findings (scan_diff diff) = filter blocking (verdicts (split_on (CHR 0x0A) diff)) \<and>
   sr_warnings (scan_diff diff) = filter (\<lambda>f. \<not> blocking f) (verdicts (split_on (CHR 0x0A) diff)) \<and>
   sr_clean (scan_diff diff) = (filter blocking (verdicts (split_on (CHR 0x0A) diff)) = [])"
  by (simp add: scan_diff_verdicts Let_def blank_no_verdict)

text \<open>C11. An added secret blocks. If a line of the diff is an added line of a production file, is not
  exempt, and some part of it matches one of the patterns that need no confirmation, then the diff
  is not clean and a finding names that line and that file.\<close>

theorem added_secret_blocks:
  assumes "i < length lines" "lines = split_on (CHR 0x0A) diff"
    and "lines ! i = CHR ''+'' # pre @ secret @ post" "\<not> is_header (lines ! i)"
    and "\<not> is_env_example_path (file_at lines i)" "\<not> is_non_production_path (file_at lines i)"
    and "\<not> exempt_content (pre @ secret @ post)"
    and "p \<in> set SECRET_PATTERNS" "sp_confirm p = None"
    and "rx_matches (sp_pattern p) (if pre = [] then None else Some (last pre)) (secret @ post) q post"
  shows "\<not> sr_clean (scan_diff diff) \<and>
    (\<exists>f \<in> set (sr_findings (scan_diff diff)). sf_lineNumber f = i + 1 \<and>
       sf_line f = trim (pre @ secret @ post) \<and>
       sf_filePath f = (if file_at lines i = Some [] then None else file_at lines i))"
proof -
  have "pattern_hits (pre @ secret @ post) p"
    using rx_test_at[OF assms(10)] assms(9) by (simp add: pattern_hits_def)
  then obtain p' where "List.find (pattern_hits (pre @ secret @ post)) SECRET_PATTERNS = Some p'"
    using find_hit[OF assms(8)] by blast
  then obtain f where f: "line_verdict lines i = Some f" "blocking f" "sf_lineNumber f = i + 1"
      "sf_line f = trim (pre @ secret @ post)"
      "sf_filePath f = (if file_at lines i = Some [] then None else file_at lines i)"
    using assms(3-7)
    by (auto simp: line_verdict_def scan_content_def blocking_def build_finding_def starts_with_def
        split: option.splits)
  then have "f \<in> set (filter blocking (verdicts lines))"
    using assms(1) by (auto simp: verdicts_def map_filter_def image_iff)
  moreover from this have "filter blocking (verdicts lines) \<noteq> []" by force
  ultimately show ?thesis
    using f(3-5) assms(2) by (auto simp: scan_diff_verdicts Let_def blank_no_verdict)
qed

definition leaking_diff :: string where
  "leaking_diff = ''+++ b/src/a.ts'' @ [CHR 0x0A] @ ''+k=AKIA0123456789ABCDEF;''"

lemma leaking_diff_facts:
  "split_on (CHR 0x0A) leaking_diff ! 1 = CHR ''+'' # ''k='' @ ''AKIA0123456789ABCDEF'' @ '';''"
  "\<not> is_header (split_on (CHR 0x0A) leaking_diff ! 1)"
  "\<not> is_env_example_path (file_at (split_on (CHR 0x0A) leaking_diff) 1)"
  "\<not> is_non_production_path (file_at (split_on (CHR 0x0A) leaking_diff) 1)"
  "\<not> exempt_content (''k='' @ ''AKIA0123456789ABCDEF'' @ '';'')"
  "1 < length (split_on (CHR 0x0A) leaking_diff)"
  by code_simp+

theorem added_secret_blocks_witness:
  "\<not> sr_clean (scan_diff leaking_diff)"
proof -
  let ?p = "pat ''AWS Access Key'' [rx_lit ''AKIA'', rx_times 16 (Cls is_key_char)]"
  have "?p \<in> set SECRET_PATTERNS" by (simp add: SECRET_PATTERNS_def)
  moreover have "(Some (CHR ''F''), '';'') \<in> set (rx_ends (sp_pattern ?p) (Some (CHR ''='')) (''AKIA0123456789ABCDEF'' @ '';''))"
    by code_simp
  then have "rx_matches (sp_pattern ?p) (if ''k='' = [] then None else Some (last ''k=''))
      (''AKIA0123456789ABCDEF'' @ '';'') (Some (CHR ''F'')) '';''" by (simp add: rx_ends_iff)
  moreover have "sp_confirm ?p = None" by (simp add: pat_def)
  ultimately show ?thesis
    using added_secret_blocks[OF leaking_diff_facts(6) refl leaking_diff_facts(1-5)] by blast
qed

text \<open>A line of a file that begins with \<open>++ \<close> looks like a header in a diff: it is not scanned, and the
  lines after it are judged in the path it names.\<close>

lemma added_line_can_spoof_header:
  "sr_clean (scan_diff (''+++ b/src/a.ts'' @ [CHR 0x0A] @ ''+++ b/tests/x'' @ [CHR 0x0A]
     @ ''+k=AKIA0123456789ABCDEF;''))"
  "sr_clean (scan_diff (''+++ b/src/a.ts'' @ [CHR 0x0A] @ ''+++ k=AKIA0123456789ABCDEF;''))"
  by code_simp+

end
