(* ===== verification/Repo_Validation.thy ===== *)
theory Repo_Validation
  imports Push Secret_Scanner
begin

text \<open>
  The validation of one repository before its diff leaves the machine,
  \<open>src/src/modules/core/validators/pre-commit-validators.ts\<close>: the choice of the test command from the files of the
  repository, the scan of the staged diff with the default scanner, and the order of the two. An
  error is its message. The contents of \<open>package.json\<close> are given parsed; log lines are not modelled.
\<close>

subsection \<open>The test command\<close>

datatype package_file = PackageAbsent | PackageUnreadable | Package "string option" "string option"

record repo_files =
  rf_stackEval :: "(string + string) option"
  rf_package :: package_file
  rf_bunLock :: bool
  rf_pnpmLock :: bool
  rf_yarnLock :: bool
  rf_names :: "string list"

datatype test_command = RunShell string | RunNode "string list"

text \<open>\<open>/test_runner:\s*["']?([^"'\n]+)["']?/\<close>: the first match, its group.\<close>

definition runner_text :: "string \<Rightarrow> string option" where
  "runner_text s =
     (let t = takeWhile (\<lambda>c. \<not> is_quote c \<and> c \<noteq> CHR 0x0A) s in if t = [] then None else Some t)"

definition runner_after_space :: "string \<Rightarrow> string option" where
  "runner_after_space s =
     (case s of
        c # cs \<Rightarrow> if is_quote c then runner_text cs else runner_text s
      | [] \<Rightarrow> None)"

definition runner_after_key :: "string \<Rightarrow> string option" where
  "runner_after_key s =
     first_some (\<lambda>k. runner_after_space (drop k s)) (rev [0..<Suc (length (takeWhile is_js_whitespace s))])"

fun find_runner :: "string \<Rightarrow> string option" where
  "find_runner [] = None"
| "find_runner (c # cs) =
     (if starts_with ''test_runner:'' (c # cs)
      then (case runner_after_key (drop 12 (c # cs)) of None \<Rightarrow> find_runner cs | r \<Rightarrow> r)
      else find_runner cs)"

text \<open>The \<open>switch\<close>: \<^const>\<open>None\<close> when it falls through, otherwise the command, if any.\<close>

definition declared_command :: "string \<Rightarrow> test_command option option" where
  "declared_command raw =
     (case map_option trim (find_runner raw) of
        None \<Rightarrow> None
      | Some runner \<Rightarrow>
          if runner = ''vitest'' then Some (Some (RunShell ''bun x vitest run''))
          else if runner = ''pytest'' then Some (Some (RunShell ''pytest''))
          else if runner = ''bun test'' then Some (Some (RunShell ''bun test''))
          else if runner = ''node --test'' then Some (Some (RunNode [''--test'']))
          else if runner = ''none'' then Some None
          else None)"

definition declared_manager :: "string option \<Rightarrow> string option" where
  "declared_manager packageManager =
     (case packageManager of
        None \<Rightarrow> None
      | Some m \<Rightarrow> List.find (\<lambda>name. starts_with (name @ [CHR 0x40]) m) [''bun'', ''npm'', ''pnpm'', ''yarn''])"

definition package_command :: "repo_files \<Rightarrow> string option \<Rightarrow> test_command" where
  "package_command fs packageManager =
     RunShell ((case declared_manager packageManager of
          Some m \<Rightarrow> m
        | None \<Rightarrow> if rf_bunLock fs then ''bun'' else if rf_pnpmLock fs then ''pnpm''
            else if rf_yarnLock fs then ''yarn'' else ''npm'') @ '' run test'')"

definition ends_with :: "string \<Rightarrow> string \<Rightarrow> bool" where
  "ends_with suffix s \<longleftrightarrow> starts_with (rev suffix) (rev s)"

text \<open>\<open>/\.(test|spec)\.(ts|js)$/\<close> and \<open>/^(test_.*|.*_test)\.py$/\<close>.\<close>

definition is_node_test :: "string \<Rightarrow> bool" where
  "is_node_test name \<longleftrightarrow>
     list_ex (\<lambda>suffix. ends_with suffix name) [''.test.ts'', ''.test.js'', ''.spec.ts'', ''.spec.js'']"

definition is_python_test :: "string \<Rightarrow> bool" where
  "is_python_test name \<longleftrightarrow>
     rx_test (rx_seq [AtStart, rx_any [Seq (rx_lit ''test_'') (Star rx_dot), Seq (Star rx_dot) (rx_lit ''_test'')],
       rx_lit ''.py'', AtEnd]) name"

definition file_command :: "string \<Rightarrow> repo_files \<Rightarrow> test_command option" where
  "file_command path fs =
     (let nodeTests = filter is_node_test (rf_names fs) in
      if nodeTests \<noteq> [] then Some (RunNode (''--test'' # map (\<lambda>n. posix_normalize (path @ ''/'' @ n)) nodeTests))
      else if list_ex is_python_test (rf_names fs) then Some (RunShell ''pytest'')
      else None)"

definition fallback_command :: "string \<Rightarrow> repo_files \<Rightarrow> test_command option" where
  "fallback_command path fs =
     (case rf_package fs of
        Package packageManager test \<Rightarrow>
          if truthy test then Some (package_command fs packageManager) else file_command path fs
      | _ \<Rightarrow> file_command path fs)"

definition choose_tests :: "string \<Rightarrow> repo_files \<Rightarrow> string + test_command option" where
  "choose_tests path fs =
     (case rf_stackEval fs of
        Some (Inl e) \<Rightarrow> Inl e
      | Some (Inr raw) \<Rightarrow>
          (case declared_command raw of Some c \<Rightarrow> Inr c | None \<Rightarrow> Inr (fallback_command path fs))
      | None \<Rightarrow> Inr (fallback_command path fs))"

definition run_test_cascade ::
  "'w git_env \<Rightarrow> ('w \<Rightarrow> repo_files) \<Rightarrow> string \<Rightarrow> (string, unit, 'w) git_m" where
  "run_test_cascade env files path st =
     (case choose_tests path (files (gs_world st)) of
        Inl e \<Rightarrow> throw e st
      | Inr None \<Rightarrow> ret () st
      | Inr (Some (RunShell command)) \<Rightarrow>
          bindE (lift_git (exec_shell env command) gf_message) (\<lambda>_. ret ()) st
      | Inr (Some (RunNode args)) \<Rightarrow>
          bindE (lift_git (exec_node env args) gf_message) (\<lambda>_. ret ()) st)"

subsection \<open>The scan and its order\<close>

definition finding_label :: "finding \<Rightarrow> string" where
  "finding_label f = sf_name f @ '' at line '' @ show_nat (sf_lineNumber f)"

definition validate_diff_for_secrets :: "string \<Rightarrow> (string, unit, 'w) git_m" where
  "validate_diff_for_secrets diff =
     (let result = scan_diff diff in
      if \<not> sr_clean result
      then throw (''Security Exception: Secret detected in diff. ''
             @ join '', '' (map finding_label (sr_findings result)))
      else ret ())"

definition SUBMODULE_ADD :: string where
  "SUBMODULE_ADD = ''git submodule foreach --quiet --recursive '' @ [CHR 0x27] @ ''git add -A'' @ [CHR 0x27]"

definition process_repo_validation_and_diff ::
  "'w git_env \<Rightarrow> ('w \<Rightarrow> repo_files) \<Rightarrow> settings \<Rightarrow> string \<Rightarrow> (string, string \<times> string, 'w) git_m" where
  "process_repo_validation_and_diff env files settings path =
     bindE (if st_skipTests settings then ret () else run_test_cascade env files path) (\<lambda>_.
     bindE (lift_git (exec_shell env SUBMODULE_ADD) gf_message) (\<lambda>_.
     bindE (lift_git (exec_shell env ''git add -A'') gf_message) (\<lambda>_.
     bindE (lift_git (exec_shell env ''git diff --cached'') gf_message) (\<lambda>diff.
       if is_blank diff then throw ''No changes found after staging.''
       else bindE (validate_diff_for_secrets diff) (\<lambda>_. ret (diff, ge_sha256 env diff))))))"

lemma shell_returns:
  "exec_shell env command st = (Inr out, st') \<Longrightarrow> gs_calls st' = gs_calls st @ [Shell command (Inr out)]"
  by (auto simp: exec_shell_def log_call_def split: prod.splits)

lemma only_cascade: "only silent (run_test_cascade env files path)"
proof -
  have "only silent (bindE (lift_git (exec_shell env c) gf_message) (\<lambda>_. ret ()))" for c
    by (intro only_rules) simp
  moreover have "only silent (bindE (lift_git (exec_node env a) gf_message) (\<lambda>_. ret ()))" for a
    by (intro only_rules) simp
  ultimately show ?thesis
    unfolding only_def run_test_cascade_def
    by (auto simp: throw_def ret_def split: sum.splits option.splits test_command.splits)
qed

text \<open>A repository passes validation only with the diff it has staged, scanned without a finding.\<close>

lemma validated_diff:
  assumes "process_repo_validation_and_diff env files settings path st = (Inr (diff, h), st')"
  shows "h = ge_sha256 env diff" "\<not> is_blank diff" "sr_clean (scan_diff diff)"
    "\<exists>cs. gs_calls st' = cs @ [Shell ''git diff --cached'' (Inr diff)]"
proof -
  from assms obtain st1 where
    d: "exec_shell env ''git diff --cached'' st1 = (Inr diff, st')" "h = ge_sha256 env diff"
      "\<not> is_blank diff" "sr_clean (scan_diff diff)"
    by (auto simp: process_repo_validation_and_diff_def bindE_returns validate_diff_for_secrets_def Let_def
        split: if_splits)
  then show "h = ge_sha256 env diff" "\<not> is_blank diff" "sr_clean (scan_diff diff)"
    "\<exists>cs. gs_calls st' = cs @ [Shell ''git diff --cached'' (Inr diff)]"
    using shell_returns by fastforce+
qed

end
