(* ===== verification/Push_Only.thy ===== *)
theory Push_Only
  imports Repo_Validation
begin

text \<open>
  Publishing existing commits of a clean tracked branch: \<open>src/src/modules/git/push-only.ts\<close> and
  \<open>src/src/modules/git/push-only-checkpoint.ts\<close>. A snapshot is captured, kept across the batch, and pushed
  only after everything it says has been checked again. A thrown \<open>PushError\<close> is the constructor of
  \<open>commit_error\<close>, any other error is \<^const>\<open>OtherError\<close> with its message.
\<close>

subsection \<open>Capture\<close>

definition endpoint_read_sha ::
  "'w git_env \<Rightarrow> resolved_push_endpoint \<Rightarrow> string \<Rightarrow> (string, string, 'w) git_m" where
  "endpoint_read_sha env ep destinationRef =
     bindE (lift_git (read_optional_destination_sha env ep destinationRef) gf_message) (\<lambda>sha.
       case sha of None \<Rightarrow> throw ''Push destination returned no object ID.'' | Some s \<Rightarrow> ret s)"

definition is_ancestor :: "'w git_env \<Rightarrow> string \<Rightarrow> string \<Rightarrow> (string, bool, 'w) git_m" where
  "is_ancestor env a b =
     catchE (bindE (git_exec_args env [] [''merge-base'', ''--is-ancestor'', a, b]) (\<lambda>_. ret True)) (\<lambda>_. ret False)"

definition outgoing_list :: "'w git_env \<Rightarrow> string \<Rightarrow> string \<Rightarrow> (string, string list, 'w) git_m" where
  "outgoing_list env baseline head =
     bindE (lift_git (git_exec_args env [] [''rev-list'', ''--reverse'', baseline @ ''..'' @ head]) gf_message)
       (\<lambda>out. ret (split_nonempty_lines out))"

definition snapshot_of ::
  "'w git_env \<Rightarrow> string \<Rightarrow> tracked_push_destination \<Rightarrow> resolved_push_endpoint \<Rightarrow> string
     \<Rightarrow> (string, tracked_push_snapshot option, 'w) git_m" where
  "snapshot_of env sourceBranch destination ep baseline =
     bindE (lift_git (git_exec_args env [] [''rev-parse'', ''HEAD'']) gf_message) (\<lambda>head.
     bindE (is_ancestor env head baseline) (\<lambda>published.
       if published then ret None
       else bindE (is_ancestor env baseline head) (\<lambda>ahead.
         if \<not> ahead then throw (''Tracked branch has diverged from '' @ td_destinationRef destination
             @ ''; refusing automatic push.'')
         else bindE (outgoing_list env baseline head) (\<lambda>outgoing.
           if outgoing = [] then ret None
           else ret (Some \<lparr>ts_sourceBranch = sourceBranch, ts_validatedHeadSha = head,
               ts_upstreamRef = td_upstreamRef destination, ts_remote = td_remote destination,
               ts_destinationRef = td_destinationRef destination, ts_destinationBaselineSha = baseline,
               ts_outgoingShas = outgoing, ts_pushUrlFingerprint = ep_fingerprint ep\<rparr>)))))"

definition capture_tracked_push_snapshot ::
  "'w git_env \<Rightarrow> (string, tracked_push_snapshot option, 'w) git_m" where
  "capture_tracked_push_snapshot env =
     bindE (read_optional_git env [''symbolic-ref'', ''--quiet'', ''--short'', ''HEAD'']) (\<lambda>branch.
       case branch of
         None \<Rightarrow> ret None
       | Some sourceBranch \<Rightarrow>
           bindE (resolve_tracked_push_destination env sourceBranch) (\<lambda>tracked.
             case tracked of
               None \<Rightarrow> ret None
             | Some destination \<Rightarrow>
                 bindE (resolve_single_push_endpoint env (td_remote destination)) (\<lambda>ep.
                 bindE (lift_git (endpoint_read_sha env ep (td_destinationRef destination))
                          (\<lambda>m. ''Cannot inspect tracked push destination: '' @ ge_sanitize env m))
                   (snapshot_of env sourceBranch destination ep))))"

subsection \<open>Checking the snapshot again\<close>

definition assert_outgoing_shas_match_snapshot ::
  "'w git_env \<Rightarrow> tracked_push_snapshot \<Rightarrow> (commit_error, unit, 'w) git_m" where
  "assert_outgoing_shas_match_snapshot env snap =
     bindE (lift_git (git_exec_args env [] [''merge-base'', ''--is-ancestor'',
              ts_destinationBaselineSha snap, ts_validatedHeadSha snap])
              (\<lambda>_. PushError ''Push-only baseline is not an ancestor of the validated HEAD.'' False 0)) (\<lambda>_.
     bindE (lift_git (outgoing_list env (ts_destinationBaselineSha snap) (ts_validatedHeadSha snap)) OtherError)
       (\<lambda>outgoing. if outgoing \<noteq> ts_outgoingShas snap
          then throw (PushError ''Push-only outgoing commit list no longer matches the validated snapshot.'' False 0)
          else ret ()))"

fun show_commits :: "'w git_env \<Rightarrow> string list \<Rightarrow> (commit_error, string list, 'w) git_m" where
  "show_commits env [] = ret []"
| "show_commits env (sha # shas) =
     bindE (lift_git (git_exec_args env [] [''show'', ''--format='', ''--binary'', ''--no-ext-diff'', sha])
              (\<lambda>e. OtherError (gf_message e))) (\<lambda>patch.
     bindE (show_commits env shas) (\<lambda>patches. ret (patch # patches)))"

definition read_commit_patches :: "'w git_env \<Rightarrow> string list \<Rightarrow> (commit_error, string, 'w) git_m" where
  "read_commit_patches env shas = bindE (show_commits env shas) (\<lambda>ps. ret (join [CHR 0x0A] ps))"

definition read_remote_destination_sha ::
  "'w git_env \<Rightarrow> resolved_push_endpoint \<Rightarrow> tracked_push_snapshot \<Rightarrow> (commit_error, string, 'w) git_m" where
  "read_remote_destination_sha env ep snap =
     lift_git (endpoint_read_sha env ep (ts_destinationRef snap))
       (\<lambda>m. PushError (''Cannot verify push-only destination: '' @ ge_sanitize env m) (classify_transient m) 0)"

datatype publication_state = PublicationPending | AlreadyPushed

definition same_destination :: "tracked_push_snapshot \<Rightarrow> tracked_push_destination option \<Rightarrow> bool" where
  "same_destination snap destination =
     (case destination of
        None \<Rightarrow> False
      | Some d \<Rightarrow> td_upstreamRef d = ts_upstreamRef snap \<and> td_remote d = ts_remote snap
          \<and> td_destinationRef d = ts_destinationRef snap)"

definition revalidate_tracked_push_snapshot ::
  "'w git_env \<Rightarrow> tracked_push_snapshot \<Rightarrow> resolved_push_endpoint \<Rightarrow> (commit_error, publication_state, 'w) git_m"
where
  "revalidate_tracked_push_snapshot env snap ep =
     (let other = (\<lambda>e. OtherError (gf_message e)) in
      bindE (lift_git (git_exec_args env [] [''symbolic-ref'', ''--quiet'', ''--short'', ''HEAD'']) other) (\<lambda>branch.
      bindE (lift_git (git_exec_args env [] [''rev-parse'', ''HEAD'']) other) (\<lambda>head.
      bindE (lift_git (git_exec_args env [] [''status'', ''--porcelain=v1'', ''--untracked-files=all'']) other) (\<lambda>status.
        if branch \<noteq> ts_sourceBranch snap \<or> head \<noteq> ts_validatedHeadSha snap \<or> status \<noteq> []
        then throw (PushError ''Repository branch, HEAD, or worktree changed after push-only validation.'' False 0)
        else
          bindE (lift_git (resolve_tracked_push_destination env (ts_sourceBranch snap)) OtherError) (\<lambda>current.
            if \<not> same_destination snap current
            then throw (PushError ''Tracked push destination changed after validation; refusing stale push.'' False 0)
            else bindE (read_remote_destination_sha env ep snap) (\<lambda>remote.
              if remote = ts_validatedHeadSha snap then ret AlreadyPushed
              else if remote \<noteq> ts_destinationBaselineSha snap
              then throw (PushError ''Remote destination changed after push-only validation; refusing stale push.'' False 0)
              else ret PublicationPending))))))"

subsection \<open>The push\<close>

definition publish_snapshot ::
  "'w git_env \<Rightarrow> tracked_push_snapshot \<Rightarrow> resolved_push_endpoint \<Rightarrow> (commit_error, string list, 'w) git_m" where
  "publish_snapshot env snap ep =
     bindE (revalidate_tracked_push_snapshot env snap ep) (\<lambda>s. case s of
       AlreadyPushed \<Rightarrow> ret (ts_outgoingShas snap)
     | PublicationPending \<Rightarrow>
         bindE (lift_git (push_exact env ep (ts_validatedHeadSha snap) (ts_destinationRef snap)
                            (Some (ts_destinationBaselineSha snap)))
                  (\<lambda>e. PushError (''Push-only publication failed: '' @ ge_sanitize env (gf_message e))
                         (classify_transient (gf_message e)) 0)) (\<lambda>_.
         bindE (read_remote_destination_sha env ep snap) (\<lambda>remote.
           if remote \<noteq> ts_validatedHeadSha snap
           then throw (PushError ''Push completed without updating the destination to the validated HEAD.'' False 0)
           else ret (ts_outgoingShas snap))))"

definition validate_and_push_tracked_snapshot ::
  "'w git_env \<Rightarrow> ('w \<Rightarrow> repo_files) \<Rightarrow> settings \<Rightarrow> string \<Rightarrow> tracked_push_snapshot
     \<Rightarrow> (commit_error, string list, 'w) git_m" where
  "validate_and_push_tracked_snapshot env files settings path snap =
     (if \<not> st_autoPush settings then ret []
      else
        bindE (if st_skipTests settings then ret () else lift_git (run_test_cascade env files path) OtherError) (\<lambda>_.
        bindE (assert_outgoing_shas_match_snapshot env snap) (\<lambda>_.
        bindE (read_commit_patches env (ts_outgoingShas snap)) (\<lambda>patches.
        bindE (lift_git (validate_diff_for_secrets patches) OtherError) (\<lambda>_.
        bindE (lift_git (resolve_single_push_endpoint env (ts_remote snap))
                 (\<lambda>m. PushError (''Cannot resolve push-only destination: '' @ ge_sanitize env m) False 0)) (\<lambda>ep.
          if ep_fingerprint ep \<noteq> ts_pushUrlFingerprint snap
          then throw (PushError ''Tracked remote push URL changed after push-only validation.'' False 0)
          else publish_snapshot env snap ep))))))"

subsection \<open>The checkpoint\<close>

text \<open>\<open>result\<close> is the job's error, if it failed. Outside the \<open>try\<close>, a missing snapshot throws.\<close>

definition checkpoint_body ::
  "'w git_env \<Rightarrow> ('w \<Rightarrow> repo_files) \<Rightarrow> settings \<Rightarrow> repo_state \<Rightarrow> string option \<Rightarrow> tracked_push_snapshot
     \<Rightarrow> (commit_error, string list, 'w) git_m" where
  "checkpoint_body env files settings rs result snap =
     (case result of
        Some e \<Rightarrow> throw (OtherError e)
      | None \<Rightarrow>
          if \<not> st_autoPush settings
          then throw (OtherError ''Push-only publication was checkpointed but autoPush is now disabled.'')
          else bindE (validate_and_push_tracked_snapshot env files settings (rs_repository rs) snap) (\<lambda>pushed.
            if pushed \<noteq> ts_outgoingShas snap
            then throw (OtherError ''Push-only publication did not return the complete checkpointed object set.'')
            else ret pushed))"

definition handle_push_only_checkpoint_result ::
  "'w git_env \<Rightarrow> ('w \<Rightarrow> repo_files) \<Rightarrow> settings \<Rightarrow> repo_state \<Rightarrow> string option \<Rightarrow> (string, repo_state, 'w) git_m"
where
  "handle_push_only_checkpoint_result env files settings rs result =
     (case rs_pushSnapshot rs of
        None \<Rightarrow> throw ''Persisted push-only state is missing its tracked snapshot.''
      | Some snap \<Rightarrow>
          catchE (bindE (checkpoint_body env files settings rs result snap) (\<lambda>pushed.
              ret (rs\<lparr>rs_status := SUCCESS, rs_operation := Some PushOnly, rs_pushSnapshot := Some snap,
                      rs_pushedShas := Some pushed\<rparr>)))
            (\<lambda>e. ret (rs\<lparr>rs_status := FAILED, rs_operation := Some PushOnly, rs_pushSnapshot := Some snap,
                      rs_error := Some (ge_sanitize env (error_message e))\<rparr>)))"


subsection \<open>What a push-only publication does\<close>

lemma only_endpoint_read [only_rules]: "only silent (endpoint_read_sha env ep ref)"
  unfolding endpoint_read_sha_def read_optional_destination_sha_def Let_def
  by (intro only_rules) simp

lemma only_outgoing_list [only_rules]: "only silent (outgoing_list env b h)"
  unfolding outgoing_list_def by (intro only_rules) simp

lemma only_outgoing [only_rules]: "only silent (assert_outgoing_shas_match_snapshot env snap)"
  unfolding assert_outgoing_shas_match_snapshot_def by (intro only_rules) simp

lemma only_show [only_rules]: "only silent (show_commits env shas)"
  by (induction shas) (auto intro!: only_rules)

lemma only_patches [only_rules]: "only silent (read_commit_patches env shas)"
  unfolding read_commit_patches_def by (intro only_rules)

lemma only_remote_sha [only_rules]: "only silent (read_remote_destination_sha env ep snap)"
  unfolding read_remote_destination_sha_def by (intro only_rules)

lemma only_revalidate [only_rules]: "only silent (revalidate_tracked_push_snapshot env snap ep)"
  unfolding revalidate_tracked_push_snapshot_def Let_def by (intro only_rules) simp_all

lemma only_validate_secrets [only_rules]: "only P (validate_diff_for_secrets diff)"
  unfolding validate_diff_for_secrets_def Let_def by (intro only_rules)

lemma remote_sha_inv:
  assumes "read_remote_destination_sha env ep snap st = (Inr sha, st')"
  shows "\<exists>out. gs_calls st' = gs_calls st @ [GitArgs (ep_processConfig ep) (read_arguments ep (ts_destinationRef snap)) (Inr out)]
    \<and> first_word out = sha"
  using assms
  by (auto simp: read_remote_destination_sha_def endpoint_read_sha_def read_optional_destination_sha_def
      bindE_returns read_arguments_def first_word_def Let_def dest!: args_inv split: option.splits if_splits)

abbreviation snapshot_push :: "resolved_push_endpoint \<Rightarrow> tracked_push_snapshot \<Rightarrow> git_call \<Rightarrow> bool" where
  "snapshot_push ep snap \<equiv> exact_push ep (ts_validatedHeadSha snap) (ts_destinationRef snap)
     (Some (ts_destinationBaselineSha snap))"

lemma confirmed_by_read:
  "first_word out = src \<Longrightarrow>
     confirmed ep ref src (cs @ [GitArgs (ep_processConfig ep) (read_arguments ep ref) (Inr out)])"
  unfolding confirmed_def by fastforce

lemma already_pushed_inv:
  assumes "revalidate_tracked_push_snapshot env snap ep st = (Inr AlreadyPushed, st')"
  shows "\<exists>cs. gs_calls st' = gs_calls st @ cs \<and>
    confirmed ep (ts_destinationRef snap) (ts_validatedHeadSha snap) cs"
proof -
  from assms obtain b h w d s1 s2 s3 s4 where run:
    "git_exec_args env [] [''symbolic-ref'', ''--quiet'', ''--short'', ''HEAD''] st = (Inr b, s1)"
    "git_exec_args env [] [''rev-parse'', ''HEAD''] s1 = (Inr h, s2)"
    "git_exec_args env [] [''status'', ''--porcelain=v1'', ''--untracked-files=all''] s2 = (Inr w, s3)"
    "resolve_tracked_push_destination env (ts_sourceBranch snap) s3 = (Inr d, s4)"
    "read_remote_destination_sha env ep snap s4 = (Inr (ts_validatedHeadSha snap), st')"
    by (auto simp: revalidate_tracked_push_snapshot_def Let_def bindE_returns split: if_splits)
  obtain x1 x2 x3 where "gs_calls s3 = gs_calls st @ [x1, x2, x3]"
    using args_inv[OF run(1)] args_inv[OF run(2)] args_inv[OF run(3)] by fastforce
  moreover obtain cs where "gs_calls s4 = gs_calls s3 @ cs" using onlyD[OF only_tracked run(4)] by blast
  moreover obtain out where "gs_calls st' = gs_calls s4 @
      [GitArgs (ep_processConfig ep) (read_arguments ep (ts_destinationRef snap)) (Inr out)]"
    "first_word out = ts_validatedHeadSha snap" using remote_sha_inv[OF run(5)] by blast
  ultimately show ?thesis
    using confirmed_by_read[of out _ ep _ "[x1, x2, x3] @ cs"]
    by (intro exI[of _ "([x1, x2, x3] @ cs) @
      [GitArgs (ep_processConfig ep) (read_arguments ep (ts_destinationRef snap)) (Inr out)]"]) simp
qed

lemma publish_snapshot_calls:
  assumes run: "publish_snapshot env snap ep st = (r, st')"
  shows "\<exists>cs. gs_calls st' = gs_calls st @ cs \<and> length (filter is_push cs) \<le> 1 \<and>
    list_all (snapshot_push ep snap) cs \<and>
    (\<forall>shas. r = Inr shas \<longrightarrow> shas = ts_outgoingShas snap \<and>
       confirmed ep (ts_destinationRef snap) (ts_validatedHeadSha snap) cs)"
proof -
  let ?ref = "ts_destinationRef snap" let ?head = "ts_validatedHeadSha snap"
  let ?base = "Some (ts_destinationBaselineSha snap)"
  obtain r1 st1 where m1: "revalidate_tracked_push_snapshot env snap ep st = (r1, st1)" by fastforce
  obtain c1 where c1: "gs_calls st1 = gs_calls st @ c1" "list_all silent c1"
    using onlyD[OF only_revalidate m1] by blast
  have quiet: ?thesis if "gs_calls st' = gs_calls st @ c1" "\<And>shas. r \<noteq> Inr shas"
    using that c1 silent_no_push[of c1] by (auto simp: list_all_iff silent_exact)
  show ?thesis
  proof (cases r1)
    case (Inl e)
    then have "st' = st1" "r = Inl e" using run m1 by (simp_all add: publish_snapshot_def bindE_def)
    then show ?thesis using quiet c1 by simp
  next
    case (Inr s)
    show ?thesis
    proof (cases s)
      case AlreadyPushed
      then have r: "r = Inr (ts_outgoingShas snap)" "st' = st1"
        using run m1 Inr by (simp_all add: publish_snapshot_def bindE_def ret_def)
      from m1 Inr AlreadyPushed have "confirmed ep ?ref ?head c1"
        using already_pushed_inv[of env snap ep st st1] c1(1) by auto
      with r c1 silent_no_push[of c1] show ?thesis
        by (intro exI[of _ c1]) (auto simp: list_all_iff silent_exact)
    next
      case PublicationPending
      obtain r2 st2 where m2: "push_exact env ep ?head ?ref ?base st1 = (r2, st2)" by fastforce
      obtain c2 where c2: "gs_calls st2 = gs_calls st1 @ c2" "list_all (snapshot_push ep snap) c2"
        using onlyD[OF only_push_exact m2] by blast
      have l2: "length (filter is_push c2) \<le> 1"
        using at_most_push[of env ep ?head ?ref ?base] m2 c2(1) unfolding at_most_def
        by (metis same_append_eq snd_conv)
      obtain c3 where c3: "gs_calls st' = gs_calls st2 @ c3" "list_all silent c3"
        "\<forall>shas. r = Inr shas \<longrightarrow> shas = ts_outgoingShas snap \<and> confirmed ep ?ref ?head c3"
      proof (cases r2)
        case (Inl e)
        then have "st' = st2 \<and> (\<exists>x. r = Inl x)"
          using run m1 \<open>r1 = Inr s\<close> PublicationPending m2
          by (auto simp: publish_snapshot_def bindE_def lift_git_def catchE_def throw_def)
        then show ?thesis using that[of "[]"] by fastforce
      next
        case (Inr u)
        obtain r3 st3 where m3: "read_remote_destination_sha env ep snap st2 = (r3, st3)" by fastforce
        obtain c3 where c3: "gs_calls st3 = gs_calls st2 @ c3" "list_all silent c3"
          using onlyD[OF only_remote_sha m3] by blast
        have st': "st' = st3"
          using run m1 \<open>r1 = Inr s\<close> PublicationPending m2 Inr m3
          by (cases r3) (simp_all add: publish_snapshot_def bindE_def lift_git_def catchE_def throw_def ret_def split: if_splits)
        have "shas = ts_outgoingShas snap \<and> confirmed ep ?ref ?head c3" if "r = Inr shas" for shas
        proof -
          have "r3 = Inr ?head" "shas = ts_outgoingShas snap"
            using run m1 \<open>r1 = Inr s\<close> PublicationPending m2 Inr m3 that
            by (auto simp: publish_snapshot_def bindE_def lift_git_def catchE_def throw_def ret_def
                split: if_splits sum.splits)
          moreover from this obtain out where
            "c3 = [GitArgs (ep_processConfig ep) (read_arguments ep ?ref) (Inr out)]" "first_word out = ?head"
            using remote_sha_inv[of env ep snap st2 ?head st3] m3 c3(1) by auto
          ultimately show ?thesis using confirmed_by_read[of out ?head ep ?ref "[]"] by simp
        qed
        then show ?thesis using that c3 st' by blast
      qed
      have "list_all (snapshot_push ep snap) (c1 @ c2 @ c3)"
        using c1(2) c2(2) c3(2) by (auto simp: list_all_iff silent_exact)
      moreover have "length (filter is_push (c1 @ c2 @ c3)) \<le> 1"
        using l2 silent_no_push[OF c1(2)] silent_no_push[OF c3(2)] by simp
      moreover have "confirmed ep ?ref ?head (c1 @ c2 @ c3)" if "confirmed ep ?ref ?head c3"
        using confirmed_append[OF that, of "[]" "c1 @ c2"] by simp
      ultimately show ?thesis using c1(1) c2(1) c3 by (intro exI[of _ "c1 @ c2 @ c3"]) auto
    qed
  qed
qed

text \<open>What was checked before the endpoint was resolved.\<close>

lemma outgoing_checked:
  assumes "assert_outgoing_shas_match_snapshot env snap st = (Inr u, st')"
  shows "\<exists>cs. gs_calls st' = gs_calls st @ cs \<and>
    fast_forward (Some (ts_destinationBaselineSha snap)) (ts_validatedHeadSha snap) cs"
  using assms
  by (auto simp: assert_outgoing_shas_match_snapshot_def outgoing_list_def bindE_returns fast_forward_def
      dest!: args_inv split: if_splits)

lemma cascade_returns:
  assumes "(if skip then ret () else lift_git (run_test_cascade env files path) OtherError) st = (Inr u, st')"
  shows "\<exists>cs. gs_calls st' = gs_calls st @ cs \<and> list_all silent cs"
proof -
  have "only silent (if skip then ret () else lift_git (run_test_cascade env files path) OtherError)"
    by (intro only_rules only_cascade)
  from onlyD[OF this assms] show ?thesis by blast
qed

text \<open>The patches of the outgoing commits, in the order of the snapshot, scanned clean.\<close>

abbreviation show_call :: "string \<Rightarrow> string \<Rightarrow> git_call" where
  "show_call sha out \<equiv> GitArgs [] [''show'', ''--format='', ''--binary'', ''--no-ext-diff'', sha] (Inr out)"

definition scanned :: "tracked_push_snapshot \<Rightarrow> git_call list \<Rightarrow> bool" where
  "scanned snap cs \<longleftrightarrow> (\<exists>pre outs post.
     cs = pre @ map2 show_call (ts_outgoingShas snap) outs @ post \<and>
     length outs = length (ts_outgoingShas snap) \<and> sr_clean (scan_diff (join [CHR 0x0A] (map trim outs))))"

lemma show_commits_inv:
  "show_commits env shas st = (Inr ps, st') \<Longrightarrow>
     \<exists>outs. gs_calls st' = gs_calls st @ map2 show_call shas outs \<and> length outs = length shas \<and> ps = map trim outs"
proof (induction shas arbitrary: st ps)
  case (Cons sha shas)
  then obtain patch s1 rest where run:
    "git_exec_args env [] [''show'', ''--format='', ''--binary'', ''--no-ext-diff'', sha] st = (Inr patch, s1)"
    "show_commits env shas s1 = (Inr rest, st')" "ps = patch # rest"
    by (auto simp: bindE_returns)
  obtain out where out: "patch = trim out" "gs_calls s1 = gs_calls st @ [show_call sha out]"
    using args_inv[OF run(1)] by auto
  obtain outs where outs: "gs_calls st' = gs_calls s1 @ map2 show_call shas outs" "length outs = length shas"
    "rest = map trim outs" using Cons.IH[OF run(2)] by blast
  show ?case using run(3) out outs by (intro exI[of _ "out # outs"]) simp
qed simp

lemma patches_scanned:
  assumes "read_commit_patches env (ts_outgoingShas snap) st = (Inr patches, st1)"
    "sr_clean (scan_diff patches)"
  shows "\<exists>cs. gs_calls st1 = gs_calls st @ cs \<and> scanned snap cs"
proof -
  obtain ps where ps: "show_commits env (ts_outgoingShas snap) st = (Inr ps, st1)" "patches = join [CHR 0x0A] ps"
    using assms(1) by (auto simp: read_commit_patches_def bindE_returns)
  obtain outs where "gs_calls st1 = gs_calls st @ map2 show_call (ts_outgoingShas snap) outs"
    "length outs = length (ts_outgoingShas snap)" "ps = map trim outs"
    using show_commits_inv[OF ps(1)] by blast
  moreover from this have "scanned snap (map2 show_call (ts_outgoingShas snap) outs)"
    using assms(2) ps(2) unfolding scanned_def
    by (intro exI[of _ "[]"] exI[of _ outs]) simp
  ultimately show ?thesis by blast
qed

lemma scanned_append: "scanned snap cs \<Longrightarrow> scanned snap (as @ cs @ bs)"
  unfolding scanned_def by (metis append.assoc)

lemma fast_forward_append: "fast_forward base src cs \<Longrightarrow> fast_forward base src (as @ cs @ bs)"
  unfolding fast_forward_def by (auto split: option.splits)

text \<open>Everything before the publication is silent.\<close>

definition push_only_checks ::
  "'w git_env \<Rightarrow> ('w \<Rightarrow> repo_files) \<Rightarrow> settings \<Rightarrow> string \<Rightarrow> tracked_push_snapshot
     \<Rightarrow> (commit_error, resolved_push_endpoint, 'w) git_m" where
  "push_only_checks env files settings path snap =
     bindE (if st_skipTests settings then ret () else lift_git (run_test_cascade env files path) OtherError) (\<lambda>_.
     bindE (assert_outgoing_shas_match_snapshot env snap) (\<lambda>_.
     bindE (read_commit_patches env (ts_outgoingShas snap)) (\<lambda>patches.
     bindE (lift_git (validate_diff_for_secrets patches) OtherError) (\<lambda>_.
     bindE (lift_git (resolve_single_push_endpoint env (ts_remote snap))
              (\<lambda>m. PushError (''Cannot resolve push-only destination: '' @ ge_sanitize env m) False 0)) (\<lambda>ep.
       if ep_fingerprint ep \<noteq> ts_pushUrlFingerprint snap
       then throw (PushError ''Tracked remote push URL changed after push-only validation.'' False 0)
       else ret ep)))))"

lemma bindE_throw: "bindE (throw e) f = throw e"
  by (rule ext) (simp add: bindE_def throw_def)

lemma bindE_if: "bindE (if b then m else n) f = (if b then bindE m f else bindE n f)"
  by simp

lemma validate_and_push_split:
  "st_autoPush settings \<Longrightarrow>
     validate_and_push_tracked_snapshot env files settings path snap =
       bindE (push_only_checks env files settings path snap) (publish_snapshot env snap)"
  unfolding validate_and_push_tracked_snapshot_def push_only_checks_def
  by (simp add: bindE_assoc bindE_ret bindE_throw bindE_if cong: if_cong)

lemma only_checks: "only silent (push_only_checks env files settings path snap)"
  unfolding push_only_checks_def by (intro only_rules only_cascade)

lemma checks_inv:
  assumes "push_only_checks env files settings path snap st = (Inr ep, st')"
  shows "ep_fingerprint ep = ts_pushUrlFingerprint snap"
    "\<exists>cs. gs_calls st' = gs_calls st @ cs \<and> scanned snap cs \<and>
       fast_forward (Some (ts_destinationBaselineSha snap)) (ts_validatedHeadSha snap) cs"
proof -
  let ?ff = "fast_forward (Some (ts_destinationBaselineSha snap)) (ts_validatedHeadSha snap)"
  from assms obtain s1 s2 s3 patches where run:
    "(if st_skipTests settings then ret () else lift_git (run_test_cascade env files path) OtherError) st = (Inr (), s1)"
    "assert_outgoing_shas_match_snapshot env snap s1 = (Inr (), s2)"
    "read_commit_patches env (ts_outgoingShas snap) s2 = (Inr patches, s3)"
    "sr_clean (scan_diff patches)"
    "resolve_single_push_endpoint env (ts_remote snap) s3 = (Inr ep, st')"
    "ep_fingerprint ep = ts_pushUrlFingerprint snap"
    by (auto simp: push_only_checks_def bindE_returns validate_diff_for_secrets_def Let_def split: if_splits)
  obtain c1 where c1: "gs_calls s1 = gs_calls st @ c1" using cascade_returns[OF run(1)] by blast
  obtain c2 where c2: "gs_calls s2 = gs_calls s1 @ c2" "?ff c2" using outgoing_checked[OF run(2)] by blast
  obtain c3 where c3: "gs_calls s3 = gs_calls s2 @ c3" "scanned snap c3"
    using patches_scanned[OF run(3,4)] by blast
  obtain c4 where c4: "gs_calls st' = gs_calls s3 @ c4" using onlyD[OF only_endpoint run(5)] by blast
  show "ep_fingerprint ep = ts_pushUrlFingerprint snap" by (rule run(6))
  show "\<exists>cs. gs_calls st' = gs_calls st @ cs \<and> scanned snap cs \<and> ?ff cs"
    using c1 c2 c3 c4 scanned_append[OF c3(2), of "c1 @ c2" c4] fast_forward_append[OF c2(2), of c1 "c3 @ c4"]
    by (intro exI[of _ "c1 @ c2 @ c3 @ c4"]) simp
qed

definition snapshot_publication ::
  "resolved_push_endpoint \<Rightarrow> tracked_push_snapshot \<Rightarrow> git_call list \<Rightarrow> bool" where
  "snapshot_publication ep snap cs \<longleftrightarrow>
     ep_fingerprint ep = ts_pushUrlFingerprint snap \<and> scanned snap cs \<and>
     fast_forward (Some (ts_destinationBaselineSha snap)) (ts_validatedHeadSha snap) cs"

lemma validate_and_push_calls:
  assumes auto: "st_autoPush settings"
    and run: "validate_and_push_tracked_snapshot env files settings path snap st = (r, st')"
  shows "\<exists>cs ep. gs_calls st' = gs_calls st @ cs \<and> length (filter is_push cs) \<le> 1 \<and>
    list_all (snapshot_push ep snap) cs \<and>
    (filter is_push cs \<noteq> [] \<longrightarrow> snapshot_publication ep snap cs) \<and>
    (\<forall>shas. r = Inr shas \<longrightarrow> shas = ts_outgoingShas snap \<and> snapshot_publication ep snap cs \<and>
       confirmed ep (ts_destinationRef snap) (ts_validatedHeadSha snap) cs)"
proof -
  obtain r1 st1 where m1: "push_only_checks env files settings path snap st = (r1, st1)" by fastforce
  obtain c1 where c1: "gs_calls st1 = gs_calls st @ c1" "list_all silent c1"
    using onlyD[OF only_checks m1] by blast
  show ?thesis
  proof (cases r1)
    case (Inl e)
    then have "st' = st1" "r = Inl e"
      using run m1 by (simp_all add: validate_and_push_split[OF auto] bindE_def)
    then show ?thesis
      using c1 silent_no_push[OF c1(2)] by (intro exI[of _ c1]) (auto simp: list_all_iff silent_exact)
  next
    case (Inr ep)
    have run2: "publish_snapshot env snap ep st1 = (r, st')"
      using run m1 Inr by (simp add: validate_and_push_split[OF auto] bindE_def)
    obtain c2 where c2: "gs_calls st' = gs_calls st1 @ c2" "length (filter is_push c2) \<le> 1"
      "list_all (snapshot_push ep snap) c2"
      "\<forall>shas. r = Inr shas \<longrightarrow> shas = ts_outgoingShas snap \<and>
         confirmed ep (ts_destinationRef snap) (ts_validatedHeadSha snap) c2"
      using publish_snapshot_calls[OF run2] by blast
    have "snapshot_publication ep snap c1"
      using checks_inv[of env files settings path snap st ep st1] m1 Inr c1(1)
      unfolding snapshot_publication_def by auto
    then have pub: "snapshot_publication ep snap (c1 @ c2)"
      unfolding snapshot_publication_def
      using scanned_append[of snap c1 "[]" c2] fast_forward_append[of _ _ c1 "[]" c2] by simp
    have conf: "confirmed ep (ts_destinationRef snap) (ts_validatedHeadSha snap) (c1 @ c2)"
      if "confirmed ep (ts_destinationRef snap) (ts_validatedHeadSha snap) c2"
      using confirmed_append[OF that, of "[]" c1] by simp
    have "length (filter is_push (c1 @ c2)) \<le> 1" using c2(2) silent_no_push[OF c1(2)] by simp
    moreover have "list_all (snapshot_push ep snap) (c1 @ c2)"
      using c1(2) c2(3) by (auto simp: list_all_iff silent_exact)
    ultimately show ?thesis
      using c1(1) c2(1,4) pub conf by (intro exI[of _ "c1 @ c2"] exI[of _ ep]) auto
  qed
qed


text \<open>A repository with an upstream and one commit to push.\<close>

definition sample_tracked :: "process_config \<Rightarrow> string list \<Rightarrow> bool \<Rightarrow> (git_failure + string) \<times> bool" where
  "sample_tracked cfg args pushed =
     (if args = [''rev-parse'', ''--abbrev-ref'', ''--symbolic-full-name'', [CHR 0x40] @ ''{upstream}'']
      then (Inr ''origin/main'', pushed)
      else if args = [''config'', ''--get'', ''branch.main.merge''] then (Inr ''refs/heads/main'', pushed)
      else if args = [''config'', ''--get'', ''branch.main.remote''] then (Inr ''origin'', pushed)
      else if hd args = ''status'' then (Inr [], pushed)
      else if hd args = ''rev-list'' then (Inr ''abc'', pushed)
      else if hd args = ''show'' then (Inr ''+ok'', pushed)
      else sample_remote cfg args pushed)"

definition tracked_env :: "bool git_env" where
  "tracked_env = sample_git_env\<lparr>ge_git := sample_tracked\<rparr>"

definition sample_snapshot :: tracked_push_snapshot where
  "sample_snapshot = \<lparr>ts_sourceBranch = ''main'', ts_validatedHeadSha = ''abc'', ts_upstreamRef = ''origin/main'',
     ts_remote = ''origin'', ts_destinationRef = ''refs/heads/main'', ts_destinationBaselineSha = ''base'',
     ts_outgoingShas = [''abc''], ts_pushUrlFingerprint = ''u'' @ [CHR 0x00]\<rparr>"

definition push_settings :: settings where
  "push_settings = \<lparr>st_provider = [], st_model = [], st_temperature = 0, st_autoPush = True,
     st_fallbackProvider = None, st_fallbackModel = None, st_thinking = None, st_agent = None,
     st_searchPaths = [], st_skipTests = True, st_maxDiffChars = None\<rparr>"

definition no_files :: repo_files where
  "no_files = \<lparr>rf_stackEval = None, rf_package = PackageAbsent, rf_bunLock = False, rf_pnpmLock = False, rf_yarnLock = False, rf_names = []\<rparr>"

definition push_only_repo :: repo_state where
  "push_only_repo = \<lparr>rs_repository = ''/r'', rs_status = RUNNING, rs_operation = Some PushOnly,
     rs_pushSnapshot = Some sample_snapshot, rs_pushedShas = None, rs_diffHash = None, rs_commits = None,
     rs_error = None, rs_attempts = None, rs_committedShas = None, rs_originalHead = None,
     rs_feedbackHistory = None, rs_lastPlanHash = None, rs_loopDetected = None, rs_fallbackAttempted = None\<rparr>"

lemma tracked_exec: "git_exec_args tracked_env cfg args st =
   (case sample_tracked cfg args (gs_world st) of (r, w) \<Rightarrow>
     (case r of Inl e \<Rightarrow> Inl e | Inr out \<Rightarrow> Inr (trim out), log_call (GitArgs cfg args r) w st))"
  by (simp add: git_exec_args_def git_exec_args_raw_def tracked_env_def split: prod.splits sum.splits)
lemma tracked_env_fields [simp]:
  "ge_sha256 tracked_env s = s" "ge_uuid tracked_env w = ''id''"
  by (simp_all add: tracked_env_def sample_git_env_def)

lemma log_world [simp]: "gs_world (log_call c w st) = w" by (simp add: log_call_def)
lemma trims: "trim [] = []" "trim ''abc'' = ''abc''" "trim ''main'' = ''main''" "trim ''origin/main'' = ''origin/main''" "trim ''origin'' = ''origin''" "trim ''refs/heads/main'' = ''refs/heads/main''" "trim ''base x'' = ''base x''" "trim ''abc x'' = ''abc x''"
  "trim ''+ok'' = ''+ok''" "trim ''u'' = ''u''" by code_simp+
lemma lift_run: "lift_git m f st = (case m st of (Inl e, st1) \<Rightarrow> (Inl (f e), st1) | (Inr v, st1) \<Rightarrow> (Inr v, st1))"
  by (auto simp: lift_git_def catchE_def throw_def split: prod.splits sum.splits)

lemmas tracked_run = bindE_def catchE_def lift_run tracked_exec sample_tracked_def sample_remote_def trims
  ret_def throw_def nullish_def starts_with_def git_error_def read_optional_git_def

lemma tracked_destination_run: "\<not> gs_world st \<Longrightarrow> \<exists>st'. resolve_tracked_push_destination tracked_env ''main'' st =
   (Inr (Some \<lparr>td_upstreamRef = ''origin/main'', td_remote = ''origin'', td_destinationRef = ''refs/heads/main''\<rparr>), st')
   \<and> \<not> gs_world st'"
  by (simp add: resolve_tracked_push_destination_def tracked_remotes_def read_branch_remote_def
      read_configured_remotes_def read_configured_push_remote_def resolve_tracked_destination_ref_def
      read_push_default_def assert_configured_remote_def split_nonempty_lines_def tracked_run)

lemma tracked_remote_run: "\<exists>st'. read_remote_destination_sha tracked_env ep sample_snapshot st =
   (Inr (if gs_world st then ''abc'' else ''base''), st') \<and> gs_world st' = gs_world st"
  by (simp add: read_remote_destination_sha_def endpoint_read_sha_def read_optional_destination_sha_def Let_def
     is_js_whitespace_def tracked_run)

lemma tracked_revalidation_run:
  assumes w: "\<not> gs_world st"
  shows "\<exists>st'. revalidate_tracked_push_snapshot tracked_env sample_snapshot ep st = (Inr PublicationPending, st')
   \<and> \<not> gs_world st'"
proof -
  let ?st = "log_call (GitArgs [] [''status'', ''--porcelain=v1'', ''--untracked-files=all''] (Inr [])) False
     (log_call (GitArgs [] [''rev-parse'', ''HEAD''] (Inr ''abc'')) False
      (log_call (GitArgs [] [''symbolic-ref'', ''--quiet'', ''--short'', ''HEAD''] (Inr ''main'')) False st))"
  obtain st1 where t: "resolve_tracked_push_destination tracked_env ''main'' ?st =
    (Inr (Some \<lparr>td_upstreamRef = ''origin/main'', td_remote = ''origin'', td_destinationRef = ''refs/heads/main''\<rparr>), st1)"
    "\<not> gs_world st1" using tracked_destination_run[of ?st] by auto
  obtain st2 where "read_remote_destination_sha tracked_env ep sample_snapshot st1 = (Inr ''base'', st2)" "\<not> gs_world st2"
    using tracked_remote_run[of ep st1] t(2) by auto
  then show ?thesis using w t
    by (simp add: revalidate_tracked_push_snapshot_def Let_def sample_snapshot_def same_destination_def tracked_run)
qed

lemma tracked_publication_run:
  assumes w: "\<not> gs_world st"
  shows "\<exists>st'. publish_snapshot tracked_env sample_snapshot ep st = (Inr [''abc''], st')"
proof -
  obtain st1 where t: "revalidate_tracked_push_snapshot tracked_env sample_snapshot ep st = (Inr PublicationPending, st1)"
    "\<not> gs_world st1" using tracked_revalidation_run[OF w] by blast
  let ?push = "push_exact tracked_env ep ''abc'' ''refs/heads/main'' (Some ''base'') st1"
  obtain st2 where p: "?push = (Inr (), st2)" "gs_world st2" using t(2)
    by (simp add: push_exact_def push_arguments_def tracked_run)
  obtain st3 where "read_remote_destination_sha tracked_env ep sample_snapshot st2 = (Inr ''abc'', st3)"
    using tracked_remote_run[of ep st2] p(2) by auto
  then show ?thesis using t p by (simp add: publish_snapshot_def sample_snapshot_def lift_run bindE_def ret_def)
qed

lemma tracked_checks_run:
  "\<exists>st' ep. push_only_checks tracked_env (\<lambda>_. no_files) push_settings ''/r'' sample_snapshot sample_git_state = (Inr ep, st')
     \<and> \<not> gs_world st'"
proof -
  have "sr_clean (scan_diff ''+ok'')" by code_simp
  then have clean: "validate_diff_for_secrets ''+ok'' = ret ()"
    by (simp add: validate_diff_for_secrets_def Let_def)
  show ?thesis
    by (simp add: push_only_checks_def push_settings_def sample_git_state_def sample_snapshot_def clean
        assert_outgoing_shas_match_snapshot_def outgoing_list_def read_commit_patches_def
        resolve_single_push_endpoint_def read_url_rewrite_configuration_def pin_endpoint_def
        unpinnable_def split_nonempty_lines_def Let_def tracked_run)
qed


end
