(* ===== verification/Commit_Phase.thy ===== *)
theory Commit_Phase
  imports Publisher Retry_Policy Push_Only "HOL-Library.AList" "HOL-Library.Sublist"
begin

text \<open>
  The commit-and-push phase, \<open>src/src/phases/step2-commit-push.ts\<close>, and its end,
  \<open>src/src/modules/core/commit-push-finalizer.ts\<close>. The phase takes the results of the delegated jobs, one
  repository after another, and either delegates the queued retries again or finishes the run.
  \<open>state.repos\<close> is an association list in the order of its keys; every repository has its own
  \<^typ>\<open>'w git_env\<close>, the world is common. The queue \<open>retryJobs\<close> is drained when the phase starts, so it
  is the list of the jobs queued in this phase. The log records (\<open>skillLog\<close>) and the printed report are not
  modelled.
\<close>

subsection \<open>Data\<close>

type_synonym repos = "(string \<times> repo_state) list"

record job_result =
  jr_id :: string
  jr_outcome :: "string + commit_plan list"

record 'w phase_env =
  pe_git :: "string \<Rightarrow> 'w git_env"
  pe_files :: "string \<Rightarrow> 'w \<Rightarrow> repo_files"
  pe_hash :: hash_env
  pe_settings :: settings
  pe_prompt :: string

record handled =
  hd_repo :: repo_state
  hd_job :: "retry_job option"
  hd_loops :: nat

record phase_progress =
  pp_repos :: repos
  pp_jobs :: "retry_job list"
  pp_loops :: nat

subsection \<open>What landed\<close>

fun merge_new :: "string set \<Rightarrow> committed_sha list \<Rightarrow> committed_sha list" where
  "merge_new known [] = []"
| "merge_new known (c # cs) =
     (if cs_sha c \<in> known then merge_new known cs else c # merge_new (insert (cs_sha c) known) cs)"

definition merge_committed_shas :: "committed_sha list \<Rightarrow> committed_sha list \<Rightarrow> committed_sha list" where
  "merge_committed_shas existing incoming = existing @ merge_new (cs_sha ` set existing) incoming"

definition committed :: "repo_state \<Rightarrow> committed_sha list" where
  "committed rs = nullish (rs_committedShas rs) []"

definition merge_landed :: "repo_state \<Rightarrow> committed_sha list \<Rightarrow> repo_state" where
  "merge_landed rs shas = rs\<lparr>rs_committedShas := Some (merge_committed_shas (committed rs) shas)\<rparr>"

definition keep_original_head :: "string \<Rightarrow> repo_state \<Rightarrow> repo_state" where
  "keep_original_head h rs = rs\<lparr>rs_originalHead := Some (nullish (rs_originalHead rs) h)\<rparr>"

definition merge_post_commit_push_failure :: "repo_state \<Rightarrow> post_commit_context \<Rightarrow> repo_state" where
  "merge_post_commit_push_failure rs ctx =
     set_attempt Network (attempt_count rs Network + po_pushRetryCount ctx)
       (keep_original_head (po_originalHead ctx) (merge_landed rs (po_committedShas ctx)))"

text \<open>The \<open>instanceof\<close> chain of the \<open>catch\<close>: the repository with what landed, and the pending files.\<close>

fun preserve_landed :: "repo_state \<Rightarrow> commit_error \<Rightarrow> repo_state \<times> string list option" where
  "preserve_landed rs (PostCommitPushError m t n ctx) = (merge_post_commit_push_failure rs ctx, None)"
| "preserve_landed rs (PartialCommitError m ctx) =
     (keep_original_head (pt_originalHead ctx) (merge_landed rs (pt_committedShas ctx)),
      Some (pt_pendingFiles ctx))"
| "preserve_landed rs (CommitPlanError m k files (Some ctx)) =
     (if nullish (pc_committedShas ctx) [] \<noteq> []
      then (merge_landed rs (nullish (pc_committedShas ctx) []), pc_pendingFiles ctx)
      else (rs, None))"
| "preserve_landed rs _ = (rs, None)"

subsection \<open>One result\<close>

definition kind_name :: "error_kind \<Rightarrow> string" where
  "kind_name k = (case k of Validation \<Rightarrow> ''validation'' | Structural \<Rightarrow> ''structural'' | Race \<Rightarrow> ''race''
     | Git \<Rightarrow> ''git'' | Network \<Rightarrow> ''network'')"

definition identical_plan_failure :: "error_kind \<Rightarrow> repo_state \<Rightarrow> repo_state" where
  "identical_plan_failure kind rs =
     (failed_state rs (''Loop detected: LLM returned an identical plan on two consecutive attempts for kind \"''
         @ kind_name kind @ ''\".''))
       \<lparr>rs_loopDetected := Some (kind, nullish (rs_lastPlanHash rs) [])\<rparr>"

text \<open>A retry of a classified error: the index is reset, the attempt is counted, a job is queued.\<close>

definition retry_execution ::
  "'w phase_env \<Rightarrow> string \<Rightarrow> repo_state \<Rightarrow> string list option \<Rightarrow> feedback_error \<Rightarrow> commit_plan list
     \<Rightarrow> (string, handled, 'w) git_m" where
  "retry_execution pe repoId rs pending err plans st =
     (let kind = fb_kind err;
          ops = retry_git (pe_git pe (rs_repository rs));
          st1 = reset_index_for_retry ops st;
          rs1 = set_attempt kind (attempt_count rs kind + 1) rs
      in case queue_retry (pe_hash pe) ops repoId rs1 [err] (rs_committedShas rs1) pending (pe_settings pe)
                (pe_prompt pe) plans st1 of
           (Inl e, st2) \<Rightarrow> (Inl e, st2)
         | (Inr (Queued rs2 job), st2) \<Rightarrow> (Inr \<lparr>hd_repo = rs2, hd_job = Some job, hd_loops = 0\<rparr>, st2)
         | (Inr (LoopDetected rs2), st2) \<Rightarrow>
             (Inr \<lparr>hd_repo = identical_plan_failure kind rs2, hd_job = None, hd_loops = 1\<rparr>, st2))"

definition settle :: "repo_state \<Rightarrow> handled" where
  "settle rs = \<lparr>hd_repo = rs, hd_job = None, hd_loops = 0\<rparr>"

definition execution_failed ::
  "'w phase_env \<Rightarrow> string \<Rightarrow> repo_state \<Rightarrow> commit_error \<Rightarrow> commit_plan list \<Rightarrow> (string, handled, 'w) git_m" where
  "execution_failed pe repoId rs err plans =
     (let (rs1, pending) = preserve_landed rs err
      in case classify_error err (committed_count rs1 > 0) of
           TreatAsSuccess \<Rightarrow>
             ret (settle (rs1\<lparr>rs_status := SUCCESS, rs_commits := Some [], rs_error := Some EMPTY_PLAN_SUCCESS\<rparr>))
         | Retry fe \<Rightarrow>
             if attempt_count rs1 (fb_kind fe) < MAX_ATTEMPTS_BY_KIND (fb_kind fe)
             then retry_execution pe repoId rs1 pending fe plans
             else ret (settle (failed_state rs1 (fb_message fe)))
         | Fail fe \<Rightarrow> ret (settle (failed_state rs1 (fb_message fe))))"

definition execution_succeeded :: "repo_state \<Rightarrow> publish_result \<Rightarrow> commit_plan list \<Rightarrow> repo_state" where
  "execution_succeeded rs res plans =
     (let rs1 = keep_original_head (pu_originalHead res) (merge_landed rs (pu_committedShas res));
          rs2 = (if pu_pushRetryCount res > 0
                 then set_attempt Network (attempt_count rs1 Network + pu_pushRetryCount res) rs1 else rs1)
      in rs2\<lparr>rs_status := SUCCESS, rs_commits := Some plans\<rparr>)"

definition execute_plans ::
  "'w phase_env \<Rightarrow> string \<Rightarrow> repo_state \<Rightarrow> commit_plan list \<Rightarrow> (string, handled, 'w) git_m" where
  "execute_plans pe repoId rs plans =
     (if \<not> truthy (rs_diffHash rs) then throw (''Cannot push: diffHash missing for '' @ repoId)
      else catchE
        (bindE (execute_multi_commit_and_push (pe_git pe (rs_repository rs)) plans
                  (nullish (rs_diffHash rs) []) (pe_settings pe))
           (\<lambda>res. ret (settle (execution_succeeded rs res plans))))
        (\<lambda>err. execution_failed pe repoId rs err plans))"

definition handle_result ::
  "'w phase_env \<Rightarrow> repo_state \<Rightarrow> job_result \<Rightarrow> (string, handled, 'w) git_m" where
  "handle_result pe rs result st =
     (let repoId = jr_id result; env = pe_git pe (rs_repository rs); ops = retry_git env in
      if rs_operation rs = Some PushOnly then
        bindE (handle_push_only_checkpoint_result env (pe_files pe (rs_repository rs)) (pe_settings pe) rs
                 (case jr_outcome result of Inl e \<Rightarrow> Some e | Inr _ \<Rightarrow> None))
          (\<lambda>rs'. ret (settle rs')) st
      else case jr_outcome result of
        Inl e \<Rightarrow>
          bindE (handle_llm_job_failure (pe_hash pe) ops repoId (ge_sanitize env e) rs (pe_settings pe) (pe_prompt pe))
            (\<lambda>(rs', job). ret \<lparr>hd_repo = rs', hd_job = job, hd_loops = 0\<rparr>) st
      | Inr plans \<Rightarrow>
          bindE (handle_validation_retry (pe_hash pe) ops repoId rs plans (pe_settings pe) (pe_prompt pe))
            (\<lambda>v. if vr_handled v
               then ret \<lparr>hd_repo = vr_repoState v, hd_job = vr_job v, hd_loops = vr_loopCountDelta v\<rparr>
               else execute_plans pe repoId rs plans) st)"

subsection \<open>The phase\<close>

definition record_handled :: "string \<Rightarrow> handled \<Rightarrow> phase_progress \<Rightarrow> phase_progress" where
  "record_handled repoId h p =
     \<lparr>pp_repos = AList.update repoId (hd_repo h) (pp_repos p),
      pp_jobs = pp_jobs p @ (case hd_job h of None \<Rightarrow> [] | Some j \<Rightarrow> [j]),
      pp_loops = pp_loops p + hd_loops h\<rparr>"

fun handle_results ::
  "'w phase_env \<Rightarrow> job_result list \<Rightarrow> phase_progress \<Rightarrow> (string, phase_progress, 'w) git_m" where
  "handle_results pe [] p = ret p"
| "handle_results pe (result # results) p =
     (case map_of (pp_repos p) (jr_id result) of
        None \<Rightarrow> handle_results pe results p
      | Some rs \<Rightarrow>
          bindE (handle_result pe rs result)
            (\<lambda>h. handle_results pe results (record_handled (jr_id result) h p)))"

text \<open>What a run that ends says: the repositories the report prints, and the counts of the last log records.\<close>

record run_summary =
  sm_repos :: repos
  sm_success :: nat
  sm_failed :: nat
  sm_total :: nat
  sm_retries :: nat
  sm_loops :: nat

definition summarize :: "repos \<Rightarrow> nat \<Rightarrow> run_summary" where
  "summarize repos loopCount =
     (let states = map snd repos in
      \<lparr>sm_repos = repos,
       sm_success = length (filter (\<lambda>rs. rs_status rs = SUCCESS) states),
       sm_failed = length (filter (\<lambda>rs. rs_status rs = FAILED) states),
       sm_total = length states,
       sm_retries = sum_list (map total_retries states),
       sm_loops = loopCount\<rparr>)"

datatype phase_end = RunFailed run_summary | RunDone run_summary

datatype phase_result = Delegated "retry_job list" repos | Finished phase_end

definition finalize_commit_push_phase :: "repos \<Rightarrow> nat \<Rightarrow> phase_end" where
  "finalize_commit_push_phase repos loopCount =
     (let summary = summarize repos loopCount
      in if sm_failed summary > 0 then RunFailed summary else RunDone summary)"

definition run_commit_and_push_phase ::
  "'w phase_env \<Rightarrow> job_result list \<Rightarrow> repos \<Rightarrow> (string, phase_result, 'w) git_m" where
  "run_commit_and_push_phase pe results repos =
     bindE (handle_results pe results \<lparr>pp_repos = repos, pp_jobs = [], pp_loops = 0\<rparr>) (\<lambda>p.
       ret (if pp_jobs p \<noteq> [] then Delegated (pp_jobs p) (pp_repos p)
            else Finished (finalize_commit_push_phase (pp_repos p) (pp_loops p))))"


subsection \<open>Landed commits\<close>

definition sha_set :: "committed_sha list \<Rightarrow> string set" where
  "sha_set cs = cs_sha ` set cs"

lemma merge_new_shas: "sha_set (merge_new known cs) = sha_set cs - known"
  unfolding sha_set_def by (induction known cs rule: merge_new.induct) auto

lemma merge_new_subset: "set (merge_new known cs) \<subseteq> set cs"
  by (induction known cs rule: merge_new.induct) auto

lemma merge_new_distinct: "distinct (map cs_sha (merge_new known cs))"
proof (induction known cs rule: merge_new.induct)
  case (2 known c cs)
  have "cs_sha c \<notin> sha_set (merge_new (insert (cs_sha c) known) cs)" by (simp add: merge_new_shas)
  with 2 show ?case by (simp add: sha_set_def)
qed simp

lemma merge_shas [simp]: "sha_set (merge_committed_shas old new) = sha_set old \<union> sha_set new"
  using merge_new_shas[of "sha_set old" new] by (auto simp: merge_committed_shas_def sha_set_def)

lemma merge_distinct:
  "distinct (map cs_sha old) \<Longrightarrow> distinct (map cs_sha (merge_committed_shas old new))"
  using merge_new_distinct merge_new_shas[of "sha_set old" new]
  by (auto simp: merge_committed_shas_def sha_set_def)

text \<open>\<open>rs'\<close> keeps every recorded commit of \<open>rs\<close>, in order, and adds those of \<open>new\<close> that are not recorded yet,
  once.\<close>

definition adds_landed :: "repo_state \<Rightarrow> committed_sha list \<Rightarrow> repo_state \<Rightarrow> bool" where
  "adds_landed rs new rs' \<longleftrightarrow> (\<exists>added. committed rs' = committed rs @ added \<and> set added \<subseteq> set new \<and>
     (distinct (map cs_sha (committed rs)) \<longrightarrow> distinct (map cs_sha (committed rs'))) \<and>
     sha_set (committed rs') = sha_set (committed rs) \<union> sha_set new)"

lemma adds_landed_merge: "adds_landed rs new (merge_landed rs new)"
  unfolding adds_landed_def
  by (rule exI[of _ "merge_new (cs_sha ` set (committed rs)) new"])
    (use merge_shas[of "committed rs" new] merge_distinct[of "committed rs" new] in
      \<open>simp add: merge_landed_def committed_def nullish_def merge_new_subset merge_committed_shas_def\<close>)

lemma committed_cong: "rs_committedShas rs' = rs_committedShas rs \<Longrightarrow> committed rs' = committed rs"
  by (simp add: committed_def)

lemma adds_nothing: "rs_committedShas rs' = rs_committedShas rs \<Longrightarrow> adds_landed rs [] rs'"
  using committed_cong[of rs' rs] by (simp add: adds_landed_def sha_set_def)

lemma adds_landed_cong:
  "adds_landed rs new rs1 \<Longrightarrow> rs_committedShas rs2 = rs_committedShas rs1 \<Longrightarrow> adds_landed rs new rs2"
  using committed_cong[of rs2 rs1] by (simp add: adds_landed_def)

text \<open>The commits an outcome of the publication carries.\<close>

fun carried :: "commit_error + publish_result \<Rightarrow> committed_sha list" where
  "carried (Inr res) = pu_committedShas res"
| "carried (Inl (PostCommitPushError m t n ctx)) = po_committedShas ctx"
| "carried (Inl (PartialCommitError m ctx)) = pt_committedShas ctx"
| "carried (Inl (CommitPlanError m k files (Some ctx))) = nullish (pc_committedShas ctx) []"
| "carried (Inl _) = []"

lemma preserve_adds: "adds_landed rs (carried (Inl err)) (fst (preserve_landed rs err))"
proof -
  have "adds_landed rs [] rs" using adds_nothing[of rs rs] by simp
  then show ?thesis
    by (cases "(rs, err)" rule: preserve_landed.cases)
      (auto simp: merge_post_commit_push_failure_def keep_original_head_def
        intro: adds_landed_cong[OF adds_landed_merge])
qed

lemma retry_execution_keeps:
  assumes "retry_execution pe repoId rs pending err plans st = (Inr h, st')"
  shows "rs_committedShas (hd_repo h) = rs_committedShas rs"
  using assms queue_retry_queued(6) queue_retry_loop(1)
  by (fastforce simp: retry_execution_def Let_def identical_plan_failure_def failed_state_def
      split: prod.splits sum.splits queue_retry_result.splits)

lemma execution_failed_adds:
  assumes "execution_failed pe repoId rs err plans st = (Inr h, st')"
  shows "adds_landed rs (carried (Inl err)) (hd_repo h)"
proof -
  obtain rs1 pending where p: "preserve_landed rs err = (rs1, pending)" by fastforce
  have "rs_committedShas (hd_repo h) = rs_committedShas rs1"
    using assms p
    by (auto simp: execution_failed_def settle_def failed_state_def
        dest: retry_execution_keeps split: classification.splits if_splits)
  then show ?thesis using preserve_adds[of rs err] p adds_landed_cong by force
qed

lemma execution_succeeded_adds:
  "adds_landed rs (pu_committedShas res) (execution_succeeded rs res plans)"
  using adds_landed_merge
  by (rule adds_landed_cong) (simp add: execution_succeeded_def Let_def keep_original_head_def)

lemma execute_plans_adds:
  assumes "execute_multi_commit_and_push (pe_git pe (rs_repository rs)) plans
      (nullish (rs_diffHash rs) []) (pe_settings pe) st = (r, st1)"
    and "execute_plans pe repoId rs plans st = (Inr h, st')"
  shows "adds_landed rs (carried r) (hd_repo h)"
proof (cases r)
  case (Inl e)
  then show ?thesis using assms execution_failed_adds[of pe repoId rs e plans st1]
    by (auto simp: execute_plans_def catchE_def bindE_def split: if_splits)
next
  case (Inr res)
  then show ?thesis using assms execution_succeeded_adds[of rs res plans]
    by (auto simp: execute_plans_def catchE_def bindE_def settle_def ret_def split: if_splits)
qed

text \<open>What an outcome carries, against the commits Git was seen to make.\<close>

definition told :: "made_commit list \<Rightarrow> string set" where
  "told cs = {sha. \<exists>c \<in> set cs. mc_sha c = Some sha}"

lemma recorded_told:
  "list_all2 recorded_as cs shas \<Longrightarrow> sha_set shas = told cs \<and> (\<forall>s \<in> set shas. \<exists>c \<in> set cs. recorded_as c s)"
proof (induction rule: list_all2_induct)
  case (Cons c cs s shas)
  then show ?case by (auto simp: sha_set_def told_def recorded_as_def)
qed (simp add: sha_set_def told_def)

lemma stopped_told:
  assumes "stopped_at plans cs i shas"
  shows "sha_set shas = told cs \<and> (\<forall>s \<in> set shas. \<exists>c \<in> set cs. recorded_as c s)"
proof -
  have "list_all2 recorded_as (take i cs) shas" using assms by (simp add: stopped_at_def)
  note known = recorded_told[OF this]
  have "told (take i cs) = told cs"
  proof (cases "length cs = i")
    case False
    with assms have "length cs = Suc i" "mc_sha (cs ! i) = None" by (auto simp: stopped_at_def)
    then have "told cs = told (take i cs @ [cs ! i])" by (metis lessI take_Suc_conv_app_nth take_all_iff le_refl)
    with \<open>mc_sha (cs ! i) = None\<close> show ?thesis by (auto simp: told_def)
  qed simp
  moreover have "\<forall>s \<in> set shas. \<exists>c \<in> set cs. recorded_as c s" using known by (meson in_set_takeD)
  ultimately show ?thesis using known by simp
qed

lemma carried_told:
  assumes "accounts_for plans cs r" "\<nexists>m c n. r = Inl (GitExecError m c n)"
  shows "sha_set (carried r) = told cs \<and> (\<forall>s \<in> set (carried r). \<exists>c \<in> set cs. recorded_as c s)"
  using assms recorded_told stopped_told
  by (cases "(plans, cs, r)" rule: accounts_for.cases)
    (auto simp: finished_all_def nullish_def, (auto simp: sha_set_def told_def)?)

text \<open>C8. What the record of a repository says about its commits, against the commits Git was seen to make.
  When the plans of a repository are executed, the commits recorded before stay, in the same order. After them
  come, without a repeated object ID, exactly the commits of this execution whose object ID Git told: none that
  landed is missing, none is recorded that Git did not make, and each has the files Git committed. The one
  exception is a publication that ends in \<open>GitExecError\<close>, an error that carries no commits: then the
  record does not change, and commits the execution made before the error are missing from it.\<close>

theorem landed_commits_are_recorded:
  assumes "execute_multi_commit_and_push (pe_git pe (rs_repository rs)) plans
      (nullish (rs_diffHash rs) []) (pe_settings pe) st = (r, st1)"
    and "execute_plans pe repoId rs plans st = (Inr h, st')"
  shows "\<exists>cs added. gs_calls st1 = gs_calls st @ cs \<and> committed (hd_repo h) = committed rs @ added \<and>
    (distinct (map cs_sha (committed rs)) \<longrightarrow> distinct (map cs_sha (committed (hd_repo h)))) \<and>
    (if \<exists>m c n. r = Inl (GitExecError m c n) then added = []
     else cs_sha ` set (committed (hd_repo h)) = cs_sha ` set (committed rs) \<union>
            {sha. \<exists>c \<in> set (commits_made cs). mc_sha c = Some sha} \<and>
          (\<forall>s \<in> set added. \<exists>c \<in> set (commits_made cs). mc_sha c = Some (cs_sha s) \<and> mc_files c = Some (cs_files s)))"
proof -
  obtain cs where cs: "gs_calls st1 = gs_calls st @ cs" "accounts_for plans (commits_made cs) r"
    using publication_accounted[OF assms(1)] by blast
  obtain added where added: "committed (hd_repo h) = committed rs @ added" "set added \<subseteq> set (carried r)"
    "distinct (map cs_sha (committed rs)) \<longrightarrow> distinct (map cs_sha (committed (hd_repo h)))"
    "sha_set (committed (hd_repo h)) = sha_set (committed rs) \<union> sha_set (carried r)"
    using execute_plans_adds[OF assms] unfolding adds_landed_def by blast
  show ?thesis
  proof (cases "\<exists>m c n. r = Inl (GitExecError m c n)")
    case True
    then have "added = []" using added(2) by auto
    then show ?thesis using True cs(1) added by (intro exI[of _ cs] exI[of _ added]) simp
  next
    case False
    from carried_told[OF cs(2) False] added(2,4) show ?thesis
      using False cs(1) added(1,3)
      by (intro exI[of _ cs] exI[of _ added]) (auto simp: sha_set_def told_def recorded_as_def)
  qed
qed

text \<open>The other handlers leave the recorded commits as they are.\<close>

lemma validation_keeps:
  assumes "handle_validation_retry he ops repoId rs plans settings sp w = (Inr r, w')"
  shows "rs_committedShas (vr_repoState r) = rs_committedShas rs"
proof -
  have q: "rs_committedShas rs' = rs_committedShas rs1"
    if "queue_retry he ops repoId rs1 errors a b s sp plans w1 = (Inr q, w2)"
      "q = Queued rs' j \<or> q = LoopDetected rs'" for rs1 errors a b s w1 w2 q rs' j
    using that queue_retry_queued(6) queue_retry_loop(1) by metis
  show ?thesis using assms
    by (auto simp: handle_validation_retry_def primary_loop_def primary_exhausted_def Let_def failed_state_def
        validation_loop_failure_def start_fallback_def dest!: q
        split: if_splits sum.splits prod.splits queue_retry_result.splits)
qed

subsection \<open>Settled or retried\<close>

definition settled :: "repo_state \<Rightarrow> bool" where
  "settled rs \<longleftrightarrow> rs_status rs = SUCCESS \<or> rs_status rs = FAILED"

text \<open>A handled result settles its repository, or queues one job under its name and spends retry budget.\<close>

definition progresses :: "string \<Rightarrow> repo_state \<Rightarrow> repo_state \<Rightarrow> retry_job option \<Rightarrow> bool" where
  "progresses repoId rs rs' job \<longleftrightarrow> (case job of
       None \<Rightarrow> settled rs'
     | Some j \<Rightarrow> rj_id j = repoId \<and> retry_budget rs' < retry_budget rs)"

lemma progresses_settled [simp]: "progresses repoId rs rs' None \<longleftrightarrow> settled rs'"
  by (simp add: progresses_def)

lemma spends_progresses:
  "spends settings rs rs' job \<Longrightarrow> (\<And>j. job = Some j \<Longrightarrow> rj_id j = repoId) \<Longrightarrow> progresses repoId rs rs' job"
  by (auto simp: spends_def progresses_def settled_def split: option.splits)

lemma queued_id:
  "queue_retry he ops repoId rs errors a b s sp plans w = (Inr (Queued rs' j), w') \<Longrightarrow> rj_id j = repoId"
  by (rule queue_retry_queued(14))

lemma validation_job_id:
  assumes "handle_validation_retry he ops repoId rs plans settings sp w = (Inr r, w')" "vr_job r = Some j"
  shows "rj_id j = repoId"
  using assms
  by (auto simp: handle_validation_retry_def primary_loop_def primary_exhausted_def Let_def dest: queued_id
      split: if_splits sum.splits prod.splits queue_retry_result.splits)

lemma llm_job_id:
  assumes "handle_llm_job_failure he ops repoId err rs settings sp w = (Inr (rs', Some j), w')"
  shows "rj_id j = repoId"
  using assms
  by (auto simp: handle_llm_job_failure_def Let_def dest: queued_id
      split: if_splits option.splits sum.splits prod.splits queue_retry_result.splits)

lemma retry_execution_progresses:
  assumes run: "retry_execution pe repoId rs pending err plans st = (Inr h, st')"
    and left: "attempt_count rs (fb_kind err) < MAX_ATTEMPTS_BY_KIND (fb_kind err)"
  shows "progresses repoId rs (hd_repo h) (hd_job h)"
proof -
  let ?ops = "retry_git (pe_git pe (rs_repository rs))"
  let ?rs1 = "set_attempt (fb_kind err) (attempt_count rs (fb_kind err) + 1) rs"
  obtain q st2 where q: "queue_retry (pe_hash pe) ?ops repoId ?rs1 [err] (rs_committedShas ?rs1) pending
      (pe_settings pe) (pe_prompt pe) plans (reset_index_for_retry ?ops st) = (q, st2)" by fastforce
  show ?thesis
  proof (cases "\<exists>rs2 j. q = Inr (Queued rs2 j)")
    case True
    then obtain rs2 j where q2: "q = Inr (Queued rs2 j)" by blast
    then have "hd_repo h = rs2" "hd_job h = Some j" using run q by (auto simp: retry_execution_def Let_def)
    moreover have "spends (pe_settings pe) rs rs2 (Some j)" using spends_primary[OF q[unfolded q2] left] .
    ultimately show ?thesis using queued_id[OF q[unfolded q2]] by (auto intro!: spends_progresses)
  next
    case False
    then show ?thesis using run q
      by (auto simp: retry_execution_def Let_def settled_def identical_plan_failure_def
          split: sum.splits queue_retry_result.splits)
  qed
qed

lemma budget_network: "retry_budget (set_attempt Network (attempt_count rs Network + n) rs) \<le> retry_budget rs"
  by (simp add: retry_budget_def error_kinds_def)

lemma merge_landed_budget:
  "retry_budget (keep_original_head h (merge_landed rs cs)) = retry_budget rs"
  "retry_budget (merge_landed rs cs) = retry_budget rs"
  by (auto intro!: retry_budget_cong simp: keep_original_head_def merge_landed_def)

lemma post_commit_budget: "retry_budget (merge_post_commit_push_failure rs ctx) \<le> retry_budget rs"
proof -
  let ?rs = "keep_original_head (po_originalHead ctx) (merge_landed rs (po_committedShas ctx))"
  have "attempt_count ?rs = attempt_count rs"
    by (rule attempt_count_cong) (simp add: keep_original_head_def merge_landed_def)
  then show ?thesis
    using budget_network[of ?rs] by (simp add: merge_post_commit_push_failure_def merge_landed_budget)
qed

lemma preserve_budget: "retry_budget (fst (preserve_landed rs err)) \<le> retry_budget rs"
  by (cases "(rs, err)" rule: preserve_landed.cases) (simp_all add: merge_landed_budget post_commit_budget)

lemma execution_failed_progresses:
  assumes run: "execution_failed pe repoId rs err plans st = (Inr h, st')"
  shows "progresses repoId rs (hd_repo h) (hd_job h)"
proof -
  obtain rs1 pending where p: "preserve_landed rs err = (rs1, pending)" by fastforce
  have "progresses repoId rs1 (hd_repo h) (hd_job h)"
    using run p
    by (auto simp: execution_failed_def settle_def settled_def
        dest: retry_execution_progresses split: classification.splits if_splits)
  moreover have "retry_budget rs1 \<le> retry_budget rs" using preserve_budget[of rs err] p by simp
  ultimately show ?thesis by (auto simp: progresses_def split: option.splits)
qed

lemma execute_plans_progresses:
  assumes "execute_plans pe repoId rs plans st = (Inr h, st')"
  shows "progresses repoId rs (hd_repo h) (hd_job h)"
  using assms
  by (auto simp: execute_plans_def catchE_def bindE_def settle_def ret_def settled_def
      execution_succeeded_def Let_def dest: execution_failed_progresses
      split: if_splits sum.splits prod.splits)

lemma push_only_settles:
  "handle_push_only_checkpoint_result env files settings rs result st = (Inr rs', st') \<Longrightarrow> settled rs'"
  by (auto simp: handle_push_only_checkpoint_result_def settled_def catchE_def bindE_def ret_def
      split: option.splits prod.splits sum.splits)

lemma handle_result_progresses:
  assumes run: "handle_result pe rs result st = (Inr h, st')"
  shows "progresses (jr_id result) rs (hd_repo h) (hd_job h)"
proof (cases "rs_operation rs = Some PushOnly")
  case True
  then show ?thesis using run
    by (auto simp: handle_result_def Let_def bindE_returns settle_def dest: push_only_settles)
next
  case False
  note plain = False
  show ?thesis
  proof (cases "jr_outcome result")
    case (Inl e)
    with plain run obtain rs' job st1 where l: "handle_llm_job_failure (pe_hash pe)
        (retry_git (pe_git pe (rs_repository rs))) (jr_id result) (ge_sanitize (pe_git pe (rs_repository rs)) e)
        rs (pe_settings pe) (pe_prompt pe) st = (Inr (rs', job), st1)" "hd_repo h = rs'" "hd_job h = job"
      by (auto simp: handle_result_def Let_def bindE_returns)
    from llm_failure_spends[OF l(1)] show ?thesis
    proof
      assume "spends (pe_settings pe) rs rs' job"
      then show ?thesis using l llm_job_id by (auto intro!: spends_progresses)
    qed (use l in \<open>auto simp: settled_def\<close>)
  next
    case (Inr plans)
    with plain run obtain v st1 where v: "handle_validation_retry (pe_hash pe)
        (retry_git (pe_git pe (rs_repository rs))) (jr_id result) rs plans (pe_settings pe) (pe_prompt pe) st
        = (Inr v, st1)"
      "if vr_handled v then hd_repo h = vr_repoState v \<and> hd_job h = vr_job v
       else execute_plans pe (jr_id result) rs plans st1 = (Inr h, st')"
      by (fastforce simp: handle_result_def Let_def bindE_returns split: if_splits)
    show ?thesis
    proof (cases "vr_handled v")
      case True
      then show ?thesis using v validation_spends[OF v(1)] validation_job_id[OF v(1)]
        by (auto intro!: spends_progresses)
    qed (use v execute_plans_progresses in auto)
  qed
qed


text \<open>What a phase does to the repository of every result, when each job has one result.\<close>

definition outcome_of :: "repos \<Rightarrow> repos \<Rightarrow> retry_job list \<Rightarrow> string \<Rightarrow> bool" where
  "outcome_of repos repos' jobs repoId \<longleftrightarrow> (case map_of repos repoId of
       None \<Rightarrow> map_of repos' repoId = None \<and> repoId \<notin> rj_id ` set jobs
     | Some rs \<Rightarrow> \<exists>rs'. map_of repos' repoId = Some rs' \<and>
         (if repoId \<in> rj_id ` set jobs then retry_budget rs' < retry_budget rs else settled rs'))"

lemma handle_results_outcome:
  assumes "handle_results pe results p st = (Inr q, st')" "distinct (map jr_id results)"
  shows "\<exists>new. pp_jobs q = pp_jobs p @ new \<and> rj_id ` set new \<subseteq> jr_id ` set results \<and> distinct (map rj_id new) \<and>
    (\<forall>i. i \<notin> jr_id ` set results \<longrightarrow> map_of (pp_repos q) i = map_of (pp_repos p) i) \<and>
    (\<forall>i \<in> jr_id ` set results. outcome_of (pp_repos p) (pp_repos q) new i)"
  using assms
proof (induction results arbitrary: p st)
  case (Cons result results)
  let ?id = "jr_id result"
  have fresh: "?id \<notin> jr_id ` set results" using Cons.prems(2) by simp
  show ?case
  proof (cases "map_of (pp_repos p) ?id")
    case None
    then have "handle_results pe results p st = (Inr q, st')" using Cons.prems(1) by simp
    from Cons.IH[OF this] Cons.prems(2) obtain new where new: "pp_jobs q = pp_jobs p @ new"
      "rj_id ` set new \<subseteq> jr_id ` set results" "distinct (map rj_id new)"
      "\<forall>i. i \<notin> jr_id ` set results \<longrightarrow> map_of (pp_repos q) i = map_of (pp_repos p) i"
      "\<forall>i \<in> jr_id ` set results. outcome_of (pp_repos p) (pp_repos q) new i" by auto
    then have "outcome_of (pp_repos p) (pp_repos q) new ?id" using None fresh by (auto simp: outcome_of_def)
    then show ?thesis using new by (intro exI[of _ new]) auto
  next
    case (Some rs)
    then obtain h st1 where h: "handle_result pe rs result st = (Inr h, st1)"
      "handle_results pe results (record_handled ?id h p) st1 = (Inr q, st')"
      using Cons.prems(1) by (auto simp: bindE_returns)
    define p1 where "p1 = record_handled ?id h p"
    have repos1: "map_of (pp_repos p1) i = (if i = ?id then Some (hd_repo h) else map_of (pp_repos p) i)" for i
      by (simp add: p1_def record_handled_def update_conv')
    obtain new where new: "pp_jobs q = pp_jobs p1 @ new" "rj_id ` set new \<subseteq> jr_id ` set results"
      "distinct (map rj_id new)"
      "\<forall>i. i \<notin> jr_id ` set results \<longrightarrow> map_of (pp_repos q) i = map_of (pp_repos p1) i"
      "\<forall>i \<in> jr_id ` set results. outcome_of (pp_repos p1) (pp_repos q) new i"
      using Cons.IH[OF h(2)] Cons.prems(2) unfolding p1_def by auto
    define mine where "mine = (case hd_job h of None \<Rightarrow> [] | Some j \<Rightarrow> [j])"
    have jobs: "pp_jobs q = pp_jobs p @ mine @ new"
      using new(1) by (simp add: p1_def record_handled_def mine_def)
    have prog: "progresses ?id rs (hd_repo h) (hd_job h)" by (rule handle_result_progresses[OF h(1)])
    then have ids: "rj_id ` set mine \<subseteq> {?id}" by (auto simp: mine_def progresses_def split: option.splits)
    have "?id \<notin> rj_id ` set new" using new(2) fresh by blast
    moreover have "map_of (pp_repos q) ?id = Some (hd_repo h)" using new(4) fresh repos1 by simp
    ultimately have "outcome_of (pp_repos p) (pp_repos q) (mine @ new) ?id"
      using prog Some by (auto simp: outcome_of_def mine_def progresses_def split: option.splits)
    moreover have "outcome_of (pp_repos p) (pp_repos q) (mine @ new) i" if "i \<in> jr_id ` set results" for i
    proof -
      have "i \<noteq> ?id" using that fresh by blast
      then have "map_of (pp_repos p1) i = map_of (pp_repos p) i" "i \<notin> rj_id ` set mine"
        using repos1 ids by auto
      moreover have "outcome_of (pp_repos p1) (pp_repos q) new i" using new(5) that by blast
      ultimately show ?thesis by (simp add: outcome_of_def image_Un cong: option.case_cong)
    qed
    moreover have "distinct (map rj_id (mine @ new))"
      using new(3) ids \<open>?id \<notin> rj_id ` set new\<close> by (auto simp: mine_def split: option.splits)
    ultimately show ?thesis using jobs new(2,4) ids repos1 by (intro exI[of _ "mine @ new"]) auto
  qed
qed simp


text \<open>No repository is added or dropped.\<close>

lemma handle_results_keys:
  "handle_results pe results p st = (Inr q, st') \<Longrightarrow> map fst (pp_repos q) = map fst (pp_repos p)"
proof (induction results arbitrary: p st)
  case (Cons result results)
  show ?case
  proof (cases "map_of (pp_repos p) (jr_id result)")
    case (Some rs)
    then obtain h st1 where
      "handle_results pe results (record_handled (jr_id result) h p) st1 = (Inr q, st')"
      using Cons.prems by (auto simp: bindE_returns)
    moreover have "jr_id result \<in> set (map fst (pp_repos p))" using Some by (auto simp: domI simp flip: dom_map_of_conv_image_fst)
    ultimately show ?thesis using Cons.IH by (simp add: record_handled_def update_keys)
  qed (use Cons in simp)
qed simp

lemma phase_outcome:
  assumes "run_commit_and_push_phase pe results repos st = (Inr res, st')" "distinct (map jr_id results)"
  shows "\<exists>repos' jobs loops.
    res = (if jobs \<noteq> [] then Delegated jobs repos' else Finished (finalize_commit_push_phase repos' loops)) \<and>
    rj_id ` set jobs \<subseteq> jr_id ` set results \<and>
    (\<forall>i. i \<notin> jr_id ` set results \<longrightarrow> map_of repos' i = map_of repos i) \<and>
    (\<forall>i \<in> jr_id ` set results. outcome_of repos repos' jobs i) \<and>
    map fst repos' = map fst repos \<and> distinct (map rj_id jobs)"
proof -
  obtain q where q: "handle_results pe results \<lparr>pp_repos = repos, pp_jobs = [], pp_loops = 0\<rparr> st = (Inr q, st')"
    "res = (if pp_jobs q \<noteq> [] then Delegated (pp_jobs q) (pp_repos q)
            else Finished (finalize_commit_push_phase (pp_repos q) (pp_loops q)))"
    using assms(1) by (auto simp: run_commit_and_push_phase_def bindE_returns)
  show ?thesis using handle_results_outcome[OF q(1) assms(2)] handle_results_keys[OF q(1)] q(2) by auto
qed

lemma finalize_outcome:
  "finalize_commit_push_phase repos loops =
     (if \<exists>rs \<in> set (map snd repos). rs_status rs = FAILED then RunFailed else RunDone)
       \<lparr>sm_repos = repos,
        sm_success = length (filter (\<lambda>rs. rs_status rs = SUCCESS) (map snd repos)),
        sm_failed = length (filter (\<lambda>rs. rs_status rs = FAILED) (map snd repos)),
        sm_total = length repos, sm_retries = sum_list (map total_retries (map snd repos)), sm_loops = loops\<rparr>"
proof -
  have "filter (\<lambda>rs. rs_status rs = FAILED) (map snd repos) \<noteq> [] \<longleftrightarrow>
      (\<exists>rs \<in> set (map snd repos). rs_status rs = FAILED)"
    by (simp only: filter_empty_conv) blast
  then show ?thesis
    by (simp only: finalize_commit_push_phase_def summarize_def Let_def run_summary.select_convs
        length_greater_0_conv length_map if_distrib[of "\<lambda>f. f _"])
qed

text \<open>C30. The phase ends a run only when every repository that had a result is settled, and then tells the truth.
  Its final states are the ones it hands on: those of the delegation, or those the report of the run
  prints. They are the states of the same repositories, in the same order; a repository without a result is
  untouched; one with a result is delegated again, with less retry budget, or it is \<open>SUCCESS\<close> or \<open>FAILED\<close>. A
  run that ends fails if and only if some final state is \<open>FAILED\<close>, and the counts it reports of successes,
  failures, repositories and retries are those of the final states. A phase that does not end the run
  delegates at least one job, only for repositories with a result, and for none of them twice.\<close>

theorem phase_settles_or_delegates:
  assumes "run_commit_and_push_phase pe results repos st = (Inr res, st')" "distinct (map jr_id results)"
  shows "\<exists>repos' jobs loops.
    map fst repos' = map fst repos \<and>
    (\<forall>i. i \<notin> jr_id ` set results \<longrightarrow> map_of repos' i = map_of repos i) \<and>
    (\<forall>i \<in> jr_id ` set results. \<forall>rs. map_of repos i = Some rs \<longrightarrow> (\<exists>rs'. map_of repos' i = Some rs' \<and>
       (if i \<in> rj_id ` set jobs then retry_budget rs' < retry_budget rs
        else rs_status rs' = SUCCESS \<or> rs_status rs' = FAILED))) \<and>
    rj_id ` set jobs \<subseteq> jr_id ` set results \<inter> fst ` set repos \<and> distinct (map rj_id jobs) \<and>
    res = (if jobs \<noteq> [] then Delegated jobs repos'
      else Finished ((if \<exists>rs \<in> set (map snd repos'). rs_status rs = FAILED then RunFailed else RunDone)
        \<lparr>sm_repos = repos',
         sm_success = length (filter (\<lambda>rs. rs_status rs = SUCCESS) (map snd repos')),
         sm_failed = length (filter (\<lambda>rs. rs_status rs = FAILED) (map snd repos')),
         sm_total = length repos', sm_retries = sum_list (map total_retries (map snd repos')),
         sm_loops = loops\<rparr>))"
proof -
  obtain repos' jobs loops where r:
    "res = (if jobs \<noteq> [] then Delegated jobs repos' else Finished (finalize_commit_push_phase repos' loops))"
    "rj_id ` set jobs \<subseteq> jr_id ` set results"
    "\<forall>i. i \<notin> jr_id ` set results \<longrightarrow> map_of repos' i = map_of repos i"
    "\<forall>i \<in> jr_id ` set results. outcome_of repos repos' jobs i"
    "map fst repos' = map fst repos" "distinct (map rj_id jobs)"
    using phase_outcome[OF assms] by blast
  have each: "\<exists>rs'. map_of repos' i = Some rs' \<and> (if i \<in> rj_id ` set jobs
        then retry_budget rs' < retry_budget rs else rs_status rs' = SUCCESS \<or> rs_status rs' = FAILED)"
    if "i \<in> jr_id ` set results" "map_of repos i = Some rs" for i rs
    using bspec[OF r(4) that(1)] that(2) by (auto simp: outcome_of_def settled_def)
  have "i \<in> fst ` set repos" if "i \<in> rj_id ` set jobs" for i
  proof (rule ccontr)
    assume "i \<notin> fst ` set repos"
    then have "map_of repos i = None" by (simp add: map_of_eq_None_iff)
    moreover have "outcome_of repos repos' jobs i" using r(2,4) that by blast
    ultimately show False using that by (simp add: outcome_of_def)
  qed
  then have "rj_id ` set jobs \<subseteq> jr_id ` set results \<inter> fst ` set repos" using r(2) by blast
  then show ?thesis
    using r(1)[unfolded finalize_outcome] r(3,5,6) each
    by (intro exI[of _ repos'] exI[of _ jobs] exI[of _ loops]) blast
qed

subsection \<open>Rounds\<close>

text \<open>The rounds of a run: Turnlock re-enters the phase with one result per job of the last delegation, at any
  later state of the world. \<open>delegations pe n repos jobs\<close>: after \<open>n\<close> rounds the phase delegated
  \<open>jobs\<close>.\<close>

inductive delegations :: "'w phase_env \<Rightarrow> nat \<Rightarrow> repos \<Rightarrow> retry_job list \<Rightarrow> bool" for pe where
  first: "delegations pe 1 repos' jobs"
    if "run_commit_and_push_phase pe results repos st = (Inr (Delegated jobs repos'), st')"
       "distinct (map jr_id results)"
| again: "delegations pe (n + 1) repos' jobs'"
    if "delegations pe n repos jobs" "jr_id ` set results \<subseteq> rj_id ` set jobs" "distinct (map jr_id results)"
       "run_commit_and_push_phase pe results repos st = (Inr (Delegated jobs' repos'), st')"

lemma delegated_budget:
  assumes "run_commit_and_push_phase pe results repos st = (Inr (Delegated jobs repos'), st')"
    "distinct (map jr_id results)" "j \<in> set jobs"
  shows "rj_id j \<in> jr_id ` set results \<and> (\<exists>rs rs'. map_of repos (rj_id j) = Some rs \<and>
    map_of repos' (rj_id j) = Some rs' \<and> retry_budget rs' < retry_budget rs)"
proof -
  have r: "rj_id ` set jobs \<subseteq> jr_id ` set results" "\<forall>i \<in> jr_id ` set results. outcome_of repos repos' jobs i"
    using phase_outcome[OF assms(1,2)] by (auto split: if_splits)
  then have "rj_id j \<in> jr_id ` set results" using assms(3) by blast
  moreover from this have "outcome_of repos repos' jobs (rj_id j)" using r(2) by blast
  ultimately show ?thesis using assms(3) by (auto simp: outcome_of_def split: option.splits if_splits)
qed

lemma delegations_budget:
  "delegations pe n repos jobs \<Longrightarrow>
     jobs \<noteq> [] \<and> (\<forall>j \<in> set jobs. \<exists>rs. map_of repos (rj_id j) = Some rs \<and> retry_budget rs + n \<le> 9)"
proof (induction rule: delegations.induct)
  case (first results repos st jobs repos' st')
  have "jobs \<noteq> []" using phase_outcome[OF first] by (auto split: if_splits)
  moreover have "\<exists>rs. map_of repos' (rj_id j) = Some rs \<and> retry_budget rs + 1 \<le> 9" if j: "j \<in> set jobs" for j
  proof -
    obtain rs rs' where "map_of repos' (rj_id j) = Some rs'" "retry_budget rs' < retry_budget rs"
      using delegated_budget[OF first j] by blast
    with retry_budget_limit[of rs] show ?thesis by (intro exI[of _ rs']) simp
  qed
  ultimately show ?case by blast
next
  case (again n repos jobs results st jobs' repos' st')
  have "jobs' \<noteq> []" using phase_outcome[OF again.hyps(4,3)] by (auto split: if_splits)
  moreover have "\<exists>rs. map_of repos' (rj_id j) = Some rs \<and> retry_budget rs + (n + 1) \<le> 9"
    if j: "j \<in> set jobs'" for j
  proof -
    obtain rs rs' where d: "rj_id j \<in> jr_id ` set results" "map_of repos (rj_id j) = Some rs"
      "map_of repos' (rj_id j) = Some rs'" "retry_budget rs' < retry_budget rs"
      using delegated_budget[OF again.hyps(4,3) j] by blast
    then obtain j0 where j0: "j0 \<in> set jobs" "rj_id j0 = rj_id j" using again.hyps(2) by (metis imageE subsetD)
    obtain rs0 where "map_of repos (rj_id j0) = Some rs0" "retry_budget rs0 + n \<le> 9"
      using again.IH j0(1) by blast
    then have "retry_budget rs + n \<le> 9" using j0(2) d(2) by simp
    then show ?thesis using d(3,4) by (intro exI[of _ rs']) simp
  qed
  ultimately show ?case by blast
qed

text \<open>C9. A run of the commit-and-push phase ends: whatever the models answer and whatever Git does between the
  rounds, the phase delegates retries at most nine times. Each round spends at least one unit of the retry
  budget (the unused attempts of each error kind and the fallback model) of every repository it delegates
  again, and that budget is at most nine.\<close>

theorem delegation_rounds_bounded:
  assumes "delegations pe n repos jobs"
  shows "n \<le> 9 \<and> (\<forall>j \<in> set jobs. \<exists>rs. map_of repos (rj_id j) = Some rs \<and> retry_budget rs + n \<le> 9)"
  using delegations_budget[OF assms] by (metis add_leD2 last_in_set)

subsection \<open>What a retry asks for\<close>

lemma retry_kind: "classify_error err b = Retry fe \<Longrightarrow> fb_kind fe \<noteq> Validation"
  by (cases "(err, b)" rule: classify_error.cases) (auto simp: plain_error_def split: if_splits)

lemma filter_pending_free:
  assumes "f \<in> set (nullish (filter_pending rs cs pending) [])"
  shows "posix_normalize f \<notin> committed_files (nullish cs [])"
proof (cases "nullish pending []")
  case Nil
  then show ?thesis using assms by (cases pending) (auto simp: filter_pending_def nullish_def)
next
  case (Cons g gs)
  then have "pending = Some (g # gs)" by (cases pending) (auto simp: nullish_def)
  then show ?thesis using assms by (auto simp: filter_pending_def nullish_def simp del: filter.simps(2))
qed

lemma queue_retry_planning:
  assumes "queue_retry he ops repoId rs [err] shas pending settings sp plans w = (Inr (Queued rs' job), w')"
    "fb_kind err \<noteq> Validation"
  shows "\<exists>base diff fb. rj_payload job = PlanningPayload base diff fb \<and>
    jb_diffHash base = he_sha256 he diff \<and> rs_diffHash rs' = Some (he_sha256 he diff) \<and>
    fd_errors fb = [err] \<and> fd_committed_shas fb = shas \<and> fd_pending_files fb = filter_pending rs shas pending"
  using assms
  by (auto simp: queue_retry_def Let_def job_base_of_def split: if_splits prod.splits)

lemma retry_execution_queued:
  assumes "retry_execution pe repoId rs pending err plans st = (Inr h, st')" "hd_job h = Some job"
  shows "\<exists>w. queue_retry (pe_hash pe) (retry_git (pe_git pe (rs_repository rs))) repoId
      (set_attempt (fb_kind err) (attempt_count rs (fb_kind err) + 1) rs) [err] (rs_committedShas rs) pending
      (pe_settings pe) (pe_prompt pe) plans w = (Inr (Queued (hd_repo h) job), st')"
  using assms
  by (auto simp: retry_execution_def Let_def split: prod.splits sum.splits queue_retry_result.splits)

text \<open>A retry never asks for work that is done. The job queued after a failed execution carries the whole
  list of commits recorded for the repository, a diff whose digest is the one recorded in the repository's state
  (so the check before the next commit compares the same diff the model saw), and no pending file that, up to
  the spelling of its path, belongs to a landed commit.\<close>

theorem retry_job_is_consistent:
  assumes run: "execute_plans pe repoId rs plans st = (Inr h, st')" and job: "hd_job h = Some job"
  shows "\<exists>base diff fb. rj_payload job = PlanningPayload base diff fb \<and>
    jb_diffHash base = he_sha256 (pe_hash pe) diff \<and>
    rs_diffHash (hd_repo h) = Some (he_sha256 (pe_hash pe) diff) \<and>
    nullish (fd_committed_shas fb) [] = committed (hd_repo h) \<and>
    (\<forall>f \<in> set (nullish (fd_pending_files fb) []).
       posix_normalize f \<notin> set (map posix_normalize (concat (map cs_files (committed (hd_repo h))))))"
proof -
  obtain r st1 where x: "execute_multi_commit_and_push (pe_git pe (rs_repository rs)) plans
      (nullish (rs_diffHash rs) []) (pe_settings pe) st = (r, st1)" by fastforce
  obtain err where "r = Inl err" and failed: "execution_failed pe repoId rs err plans st1 = (Inr h, st')"
    using run job x by (cases r) (auto simp: execute_plans_def catchE_def bindE_def settle_def ret_def split: if_splits)
  obtain rs1 pending where p: "preserve_landed rs err = (rs1, pending)" by fastforce
  obtain fe where fe: "classify_error err (committed_count rs1 > 0) = Retry fe"
    and retry: "retry_execution pe repoId rs1 pending fe plans st1 = (Inr h, st')"
    using failed p job by (auto simp: execution_failed_def settle_def split: classification.splits if_splits)
  obtain w where q: "queue_retry (pe_hash pe) (retry_git (pe_git pe (rs_repository rs1))) repoId
      (set_attempt (fb_kind fe) (attempt_count rs1 (fb_kind fe) + 1) rs1) [fe] (rs_committedShas rs1) pending
      (pe_settings pe) (pe_prompt pe) plans w = (Inr (Queued (hd_repo h) job), st')"
    using retry_execution_queued[OF retry job] by blast
  have kept: "rs_committedShas (hd_repo h) = rs_committedShas rs1" using queue_retry_queued(6)[OF q] by simp
  obtain base diff fb where b: "rj_payload job = PlanningPayload base diff fb"
    "jb_diffHash base = he_sha256 (pe_hash pe) diff" "rs_diffHash (hd_repo h) = Some (he_sha256 (pe_hash pe) diff)"
    "fd_committed_shas fb = rs_committedShas rs1"
    "fd_pending_files fb = filter_pending (set_attempt (fb_kind fe) (attempt_count rs1 (fb_kind fe) + 1) rs1)
       (rs_committedShas rs1) pending"
    using queue_retry_planning[OF q retry_kind[OF fe]] by blast
  have "posix_normalize f \<notin> committed_files (committed (hd_repo h))"
    if "f \<in> set (nullish (fd_pending_files fb) [])" for f
    using filter_pending_free[of f] that b(5) kept by (simp add: committed_def)
  then show ?thesis
    using b kept by (intro exI[of _ base] exI[of _ diff] exI[of _ fb]) (simp add: committed_def committed_files_def)
qed

subsection \<open>Concrete phases\<close>

definition phase_git_env :: "bool git_env" where
  "phase_git_env = one_commit_env\<lparr>ge_shell := (\<lambda>_ w. (Inr ''abc'', w))\<rparr>"

definition sample_phase :: "bool phase_env" where
  "sample_phase = \<lparr>pe_git = (\<lambda>_. phase_git_env), pe_files = (\<lambda>_ _. no_files), pe_hash = sample_hash,
     pe_settings = pushing_settings, pe_prompt = []\<rparr>"

definition partly_committed :: repo_state where
  "partly_committed = sample_repo\<lparr>rs_diffHash := Some EMPTY_DIFF_HASH,
     rs_committedShas := Some [\<lparr>cs_sha = ''old'', cs_files = [''z'']\<rparr>]\<rparr>"

lemma partial_run:
  "\<exists>m c st1. execute_multi_commit_and_push phase_git_env three_files EMPTY_DIFF_HASH pushing_settings
     sample_git_state = (Inl (PartialCommitError m c), st1) \<and>
     map mc_sha (commits_made (gs_calls st1)) = [Some ''abc'']"
proof -
  have "case execute_multi_commit_and_push phase_git_env three_files EMPTY_DIFF_HASH pushing_settings
     sample_git_state of
       (Inl (PartialCommitError m c), st1) \<Rightarrow> map mc_sha (commits_made (gs_calls st1)) = [Some ''abc''] | _ \<Rightarrow> False"
    by code_simp
  then show ?thesis
    by (cases "execute_multi_commit_and_push phase_git_env three_files EMPTY_DIFF_HASH pushing_settings sample_git_state")
      (auto split: sum.splits commit_error.splits)
qed

lemma partial_retry:
  "\<exists>h st' j. execute_plans sample_phase ''r'' partly_committed three_files sample_git_state = (Inr h, st') \<and>
     hd_job h = Some j"
proof -
  obtain m c st1 where run: "execute_multi_commit_and_push phase_git_env three_files EMPTY_DIFF_HASH
      pushing_settings sample_git_state = (Inl (PartialCommitError m c), st1)" using partial_run by blast
  let ?rs = "keep_original_head (pt_originalHead c) (merge_landed partly_committed (pt_committedShas c))"
  let ?fe = "plain_error Git m (Some ''Re-decide the plan based on the pending files (provided below).'') None"
  let ?ops = "retry_git phase_git_env"
  obtain q st2 where q: "queue_retry sample_hash ?ops ''r'' (set_attempt Git 1 ?rs) [?fe] (rs_committedShas ?rs)
      (Some (pt_pendingFiles c)) pushing_settings [] three_files (reset_index_for_retry ?ops st1) = (q, st2)"
    by fastforce
  have hash: "rs_diffHash (set_attempt Git 1 ?rs) = Some EMPTY_DIFF_HASH" "rs_lastPlanHash (set_attempt Git 1 ?rs) = None"
    by (simp_all add: keep_original_head_def merge_landed_def partly_committed_def sample_repo_def)
  have "q \<noteq> Inr (LoopDetected l)" for l using queue_retry_loop(2)[of _ _ _ "set_attempt Git 1 ?rs"] q hash by fastforce
  moreover have "\<exists>x. q = Inr x" using q hash
    by (auto simp: queue_retry_def Let_def truthy_def EMPTY_DIFF_HASH_def plain_error_def split: if_splits prod.splits)
  ultimately obtain rs2 j where q2: "q = Inr (Queued rs2 j)" by (metis queue_retry_result.exhaust)
  have "attempt_count ?rs Git = 0"
    by (simp add: attempt_count_def keep_original_head_def merge_landed_def partly_committed_def sample_repo_def)
  then show ?thesis using run q q2
    by (simp add: execute_plans_def partly_committed_def sample_phase_def truthy_def EMPTY_DIFF_HASH_def nullish_def
        catchE_def bindE_def execution_failed_def retry_execution_def plain_error_def)
qed


theorem landed_commits_are_recorded_witness:
  "\<exists>h st'. execute_plans sample_phase ''r'' partly_committed three_files sample_git_state = (Inr h, st') \<and>
     cs_sha ` set (committed (hd_repo h)) = {''old'', ''abc''} \<and> distinct (map cs_sha (committed (hd_repo h)))"
proof -
  obtain m c st1 where run: "execute_multi_commit_and_push phase_git_env three_files EMPTY_DIFF_HASH pushing_settings
     sample_git_state = (Inl (PartialCommitError m c), st1)"
    "map mc_sha (commits_made (gs_calls st1)) = [Some ''abc'']"
    using partial_run by (elim exE conjE) (rule that)
  obtain h st' where h: "execute_plans sample_phase ''r'' partly_committed three_files sample_git_state = (Inr h, st')"
    using partial_retry by blast
  have "execute_multi_commit_and_push (pe_git sample_phase (rs_repository partly_committed)) three_files
      (nullish (rs_diffHash partly_committed) []) (pe_settings sample_phase) sample_git_state
      = (Inl (PartialCommitError m c), st1)"
    using run(1) by (simp add: sample_phase_def partly_committed_def nullish_def)
  note rec = landed_commits_are_recorded[OF this h]
  have no: "\<not> (\<exists>m' c' n. (Inl (PartialCommitError m c) :: commit_error + publish_result) = Inl (GitExecError m' c' n))"
    by simp
  obtain cs where
    new: "gs_calls st1 = gs_calls sample_git_state @ cs" "distinct (map cs_sha (committed partly_committed)) \<longrightarrow>
      distinct (map cs_sha (committed (hd_repo h)))"
    "cs_sha ` set (committed (hd_repo h)) = cs_sha ` set (committed partly_committed) \<union>
       {sha. \<exists>c \<in> set (commits_made cs). mc_sha c = Some sha}"
    using rec[unfolded if_not_P[OF no]] by (elim exE conjE) (rule that)
  have told: "mc_sha ` set (commits_made cs) = {Some ''abc''}"
    using arg_cong[OF run(2), of set] new(1) by (simp add: sample_git_state_def)
  have "{sha. \<exists>c \<in> set (commits_made cs). mc_sha c = Some sha} = {sha. Some sha \<in> mc_sha ` set (commits_made cs)}"
    by (simp only: image_iff) (simp only: eq_commute)
  then have "{sha. \<exists>c \<in> set (commits_made cs). mc_sha c = Some sha} = {''abc''}" unfolding told by simp
  with new(2,3) h show ?thesis by (auto simp: partly_committed_def committed_def nullish_def)
qed

theorem retry_job_is_consistent_witness:
  "\<exists>h st' job base diff fb. execute_plans sample_phase ''r'' partly_committed three_files sample_git_state = (Inr h, st') \<and>
     hd_job h = Some job \<and> rj_payload job = PlanningPayload base diff fb \<and>
     nullish (fd_committed_shas fb) [] = committed (hd_repo h)"
proof -
  obtain h st' job where h: "execute_plans sample_phase ''r'' partly_committed three_files sample_git_state = (Inr h, st')"
    "hd_job h = Some job" using partial_retry by blast
  from retry_job_is_consistent[OF h] h show ?thesis by blast
qed

text \<open>A round that delegates, and a round that ends the run.\<close>

lemma delegating_phase:
  "\<exists>jobs repos' st'. run_commit_and_push_phase sample_phase [\<lparr>jr_id = ''r'', jr_outcome = Inr [bad_plan]\<rparr>]
     [(''r'', sample_repo)] sample_git_state = (Inr (Delegated jobs repos'), st')"
proof -
  have errors: "list_all (\<lambda>e. fb_kind e = Validation) (collect_commit_message_validation_errors [bad_plan])"
    using collected_kind by (auto simp: list_all_iff)
  have "\<exists>v j. handle_validation_retry (pe_hash sample_phase) ops ''r'' sample_repo [bad_plan] pushing_settings []
      sample_git_state = (Inr v, sample_git_state) \<and> vr_handled v \<and> vr_job v = Some j"
    for ops :: "bool git_state git_ops"
    using errors bad_plan_rejected
    by (simp add: handle_validation_retry_def queue_retry_def queue_commit_message_repair_def sample_repo_def
        attempt_count_def set_attempt_def truthy_def Let_def split: prod.splits)
  then obtain v j where v: "handle_validation_retry (pe_hash sample_phase) (retry_git phase_git_env) ''r'' sample_repo
      [bad_plan] pushing_settings [] sample_git_state = (Inr v, sample_git_state)" "vr_handled v" "vr_job v = Some j"
    by blast
  then have "handle_result sample_phase sample_repo \<lparr>jr_id = ''r'', jr_outcome = Inr [bad_plan]\<rparr> sample_git_state =
      (Inr \<lparr>hd_repo = vr_repoState v, hd_job = Some j, hd_loops = vr_loopCountDelta v\<rparr>, sample_git_state)"
    by (simp add: handle_result_def Let_def bindE_def ret_def sample_phase_def sample_repo_def)
  then show ?thesis
    by (simp add: run_commit_and_push_phase_def bindE_def ret_def record_handled_def)
qed

theorem delegation_rounds_bounded_witness:
  "\<exists>repos jobs. delegations sample_phase 1 repos jobs \<and> jobs \<noteq> [] \<and>
     (\<forall>j \<in> set jobs. \<exists>rs. map_of repos (rj_id j) = Some rs \<and> retry_budget rs \<le> 8)"
proof -
  obtain jobs repos st' where run: "run_commit_and_push_phase sample_phase [\<lparr>jr_id = ''r'', jr_outcome = Inr [bad_plan]\<rparr>]
     [(''r'', sample_repo)] sample_git_state = (Inr (Delegated jobs repos), st')"
    using delegating_phase by blast
  then have d: "delegations sample_phase 1 repos jobs" by (rule delegations.first) simp
  from delegation_rounds_bounded[OF d] delegations_budget[OF d] d show ?thesis by fastforce
qed

theorem phase_settles_or_delegates_witness:
  "\<exists>summary rs st'. run_commit_and_push_phase sample_phase [\<lparr>jr_id = ''r'', jr_outcome = Inl ''boom''\<rparr>]
     [(''r'', sample_repo)] sample_git_state = (Inr (Finished (RunFailed summary)), st') \<and>
     sm_repos summary = [(''r'', rs)] \<and> rs_status rs = FAILED \<and> sm_failed summary = 1 \<and> sm_total summary = 1"
proof -
  have "\<not> str_includes ''boom'' ''empty'' \<and> \<not> str_includes ''boom'' ''non-empty JSON array'' \<and>
    classify_llm_failure ''boom'' = None" by code_simp
  then obtain summary st' where run: "run_commit_and_push_phase sample_phase
      [\<lparr>jr_id = ''r'', jr_outcome = Inl ''boom''\<rparr>] [(''r'', sample_repo)] sample_git_state
      = (Inr (Finished (RunFailed summary)), st')"
    by (fastforce simp: run_commit_and_push_phase_def handle_result_def bindE_def ret_def record_handled_def
        sample_phase_def phase_git_env_def one_commit_env_def sample_git_env_def sample_repo_def
        handle_llm_job_failure_def failed_state_def finalize_commit_push_phase_def summarize_def Let_def)
  from phase_settles_or_delegates[OF run] obtain repos' loops where final:
    "map fst repos' = [''r'']" "\<exists>rs \<in> set (map snd repos'). rs_status rs = FAILED"
    "summary = \<lparr>sm_repos = repos', sm_success = length (filter (\<lambda>rs. rs_status rs = SUCCESS) (map snd repos')),
       sm_failed = length (filter (\<lambda>rs. rs_status rs = FAILED) (map snd repos')),
       sm_total = length repos', sm_retries = sum_list (map total_retries (map snd repos')), sm_loops = loops\<rparr>"
    by (auto simp del: set_map filter_map split: if_splits)
  then obtain rs where "repos' = [(''r'', rs)]" by auto
  with run final show ?thesis by simp
qed

end
