(* ===== verification/Discovery_Phase.thy ===== *)
theory Discovery_Phase
  imports Commit_Phase
begin

text \<open>
  The first phase: \<open>src/src/modules/core/discovery.ts\<close>, the Git helpers of \<open>src/src/utils/git-utils.ts\<close> it
  uses, and \<open>src/src/phases/step1-discovery-validation.ts\<close>. The file system answers through parameters:
  \<open>readdirSync\<close> with the names and whether each is a directory, \<open>existsSync\<close> and \<open>realpathSync\<close>. The
  walk over the directories is bounded by fuel; without fuel it gives \<^const>\<open>None\<close>. The messages on standard
  error and the log records are not modelled.
\<close>

subsection \<open>Git helpers\<close>

record 'w disc_env = "'w phase_env" +
  de_readdir :: "string \<Rightarrow> 'w \<Rightarrow> (string \<times> bool) list option"
  de_exists :: "string \<Rightarrow> 'w \<Rightarrow> bool"
  de_realpath :: "string \<Rightarrow> 'w \<Rightarrow> string option"
  de_home :: string

text \<open>\<open>gitExec\<close>: trimmed output; \<^const>\<open>None\<close> stands for the exception, which every caller here catches.\<close>

definition git_exec :: "'w git_env \<Rightarrow> string \<Rightarrow> 'w git_state \<Rightarrow> string option \<times> 'w git_state" where
  "git_exec env args st =
     (case exec_shell env (''git '' @ args) st of
        (Inl e, st1) \<Rightarrow> (None, st1)
      | (Inr out, st1) \<Rightarrow> (Some (trim out), st1))"

definition is_detached_head :: "'w git_env \<Rightarrow> 'w git_state \<Rightarrow> bool \<times> 'w git_state" where
  "is_detached_head env st =
     (case git_exec env ''symbolic-ref --quiet --short HEAD'' st of
        (out, st1) \<Rightarrow> (case out of None \<Rightarrow> True | Some s \<Rightarrow> s = [], st1))"

definition SUBMODULE_STATUS :: string where
  "SUBMODULE_STATUS = ''submodule foreach --quiet --recursive '' @ [CHR 0x27] @ ''git status --porcelain'' @ [CHR 0x27]"

definition has_dirty_submodules :: "'w git_env \<Rightarrow> 'w git_state \<Rightarrow> bool \<times> 'w git_state" where
  "has_dirty_submodules env st =
     (case git_exec env SUBMODULE_STATUS st of
        (out, st1) \<Rightarrow> (case out of None \<Rightarrow> False | Some s \<Rightarrow> trim s \<noteq> [], st1))"

definition has_local_changes :: "'w git_env \<Rightarrow> 'w git_state \<Rightarrow> bool \<times> 'w git_state" where
  "has_local_changes env st =
     (case git_exec env ''status --porcelain'' st of
        (out, st1) \<Rightarrow> if out \<noteq> None \<and> out \<noteq> Some [] then (True, st1) else has_dirty_submodules env st1)"

text \<open>One line of \<open>git ls-files --stage\<close>: mode 160000 is a submodule, its path follows the last tab.\<close>

definition gitlink_path :: "string \<Rightarrow> string option" where
  "gitlink_path line =
     (if take 6 line = ''160000'' \<and> length line > 6 \<and> is_js_whitespace (line ! 6) \<and> CHR 0x09 \<in> set line
      then (let p = trim (after_last (CHR 0x09) line) in if p = [] then None else Some p)
      else None)"

definition get_submodule_paths ::
  "'w disc_env \<Rightarrow> string \<Rightarrow> 'w git_state \<Rightarrow> string list \<times> 'w git_state" where
  "get_submodule_paths de repoPath st =
     (case git_exec (pe_git de repoPath) ''ls-files --stage'' st of
        (None, st1) \<Rightarrow> ([], st1)
      | (Some out, st1) \<Rightarrow>
          (filter (\<lambda>p. de_exists de p (gs_world st1) \<and> de_exists de (path_join p ''.git'') (gs_world st1))
             (map (path_join repoPath) (List.map_filter gitlink_path (split_on (CHR 0x0A) out))), st1))"

definition get_worktrees :: "'w git_env \<Rightarrow> string \<Rightarrow> 'w git_state \<Rightarrow> string list \<times> 'w git_state" where
  "get_worktrees env repoPath st =
     (case git_exec env ''worktree list --porcelain'' st of
        (None, st1) \<Rightarrow> ([repoPath], st1)
      | (Some out, st1) \<Rightarrow>
          (let worktrees = map (\<lambda>l. trim (drop 9 l)) (filter (starts_with ''worktree '') (split_on (CHR 0x0A) out))
           in (if worktrees \<noteq> [] then worktrees else [repoPath], st1)))"

subsection \<open>Walking the directories\<close>

definition walkable :: "string \<times> bool \<Rightarrow> bool" where
  "walkable entry \<longleftrightarrow> snd entry \<and> fst entry \<noteq> ''node_modules'' \<and> \<not> starts_with ''.'' (fst entry)"

text \<open>The loops of \<open>walk\<close> over the submodules and over the entries both visit a list of directories;
  \<open>walk\<close> without fuel is \<^const>\<open>None\<close>.\<close>

fun walk_all ::
  "(string \<Rightarrow> 'w git_state \<Rightarrow> (string list \<times> 'w git_state) option) \<Rightarrow> string list \<Rightarrow> 'w git_state
     \<Rightarrow> (string list \<times> 'w git_state) option" where
  "walk_all visit [] st = Some ([], st)"
| "walk_all visit (d # ds) st =
     (case visit d st of
        None \<Rightarrow> None
      | Some (found, st1) \<Rightarrow> map_option (\<lambda>(deeper, st2). (found @ deeper, st2)) (walk_all visit ds st1))"

fun walk :: "'w disc_env \<Rightarrow> nat \<Rightarrow> string \<Rightarrow> 'w git_state \<Rightarrow> (string list \<times> 'w git_state) option" where
  "walk de 0 dir st = None"
| "walk de (Suc fuel) dir st =
     (case de_readdir de dir (gs_world st) of
        None \<Rightarrow> Some ([], st)
      | Some entries \<Rightarrow>
          if ''.git'' \<in> fst ` set entries
          then (case get_submodule_paths de dir st of
                  (subs, st1) \<Rightarrow> map_option (\<lambda>(deeper, st2). (dir # deeper, st2)) (walk_all (walk de fuel) subs st1))
          else walk_all (walk de fuel) (map (\<lambda>e. path_join dir (fst e)) (filter walkable entries)) st)"

definition find_git_directories_recursively ::
  "'w disc_env \<Rightarrow> nat \<Rightarrow> string \<Rightarrow> 'w git_state \<Rightarrow> (string list \<times> 'w git_state) option" where
  "find_git_directories_recursively de fuel root st =
     (if de_exists de root (gs_world st) then walk de fuel root st else Some ([], st))"

subsection \<open>Discovery\<close>

record repository_info =
  ri_id :: string
  ri_path :: string
  ri_operation :: repository_operation
  ri_pushSnapshot :: "tracked_push_snapshot option"

definition expand_path :: "'w disc_env \<Rightarrow> string \<Rightarrow> string" where
  "expand_path de p = (if starts_with ''~/'' p then path_join (de_home de) (drop 2 p) else p)"

definition canonicalize_path :: "'w disc_env \<Rightarrow> string \<Rightarrow> 'w \<Rightarrow> string" where
  "canonicalize_path de p w = nullish (de_realpath de p w) p"

text \<open>\<open>realpathSync\<close> after \<open>existsSync\<close> is taken to succeed.\<close>

definition compute_repo_id :: "'w disc_env \<Rightarrow> string \<Rightarrow> 'w \<Rightarrow> string" where
  "compute_repo_id de p w =
     take 16 (ge_sha256 (pe_git de p) (if de_exists de p w then nullish (de_realpath de p w) p else p))"

text \<open>One repository that has not been seen: \<^const>\<open>None\<close> if it has nothing to publish.\<close>

definition inspect_repository ::
  "'w disc_env \<Rightarrow> string \<Rightarrow> (string, repository_info option, 'w) git_m" where
  "inspect_repository de repoPath st =
     (let env = pe_git de repoPath in
      case is_detached_head env st of
        (True, st1) \<Rightarrow> (Inr None, st1)
      | (False, st1) \<Rightarrow>
          (case has_local_changes env st1 of
             (True, st2) \<Rightarrow>
               (Inr (Some \<lparr>ri_id = compute_repo_id de repoPath (gs_world st2), ri_path = repoPath,
                           ri_operation = CommitAndPush, ri_pushSnapshot = None\<rparr>), st2)
           | (False, st2) \<Rightarrow>
               if \<not> st_autoPush (pe_settings de) then (Inr None, st2)
               else bindE (capture_tracked_push_snapshot env) (\<lambda>snap st3. (Inr (map_option (\<lambda>s.
                   \<lparr>ri_id = compute_repo_id de repoPath (gs_world st3), ri_path = repoPath,
                    ri_operation = PushOnly, ri_pushSnapshot = Some s\<rparr>) snap), st3)) st2))"

fun inspect_repositories ::
  "'w disc_env \<Rightarrow> string list \<Rightarrow> string set \<times> repository_info list
     \<Rightarrow> (string, string set \<times> repository_info list, 'w) git_m" where
  "inspect_repositories de [] acc = ret acc"
| "inspect_repositories de (p # ps) (seen, results) =
     (if p \<in> seen then inspect_repositories de ps (seen, results)
      else bindE (inspect_repository de p) (\<lambda>r.
             inspect_repositories de ps (insert p seen, results @ (case r of None \<Rightarrow> [] | Some i \<Rightarrow> [i]))))"

fun all_worktrees :: "'w disc_env \<Rightarrow> string list \<Rightarrow> 'w git_state \<Rightarrow> string list \<times> 'w git_state" where
  "all_worktrees de [] st = ([], st)"
| "all_worktrees de (p # ps) st =
     (case get_worktrees (pe_git de p) p st of
        (here, st1) \<Rightarrow> (case all_worktrees de ps st1 of (deeper, st2) \<Rightarrow> (here @ deeper, st2)))"

definition OUT_OF_FUEL :: string where "OUT_OF_FUEL = ''walk: out of fuel''"

fun discover_roots ::
  "'w disc_env \<Rightarrow> nat \<Rightarrow> string list \<Rightarrow> string set \<times> repository_info list
     \<Rightarrow> (string, string set \<times> repository_info list, 'w) git_m" where
  "discover_roots de fuel [] acc = ret acc"
| "discover_roots de fuel (root # roots) acc =
     (\<lambda>st. case find_git_directories_recursively de fuel
                  (canonicalize_path de (expand_path de root) (gs_world st)) st of
        None \<Rightarrow> throw OUT_OF_FUEL st
      | Some (repos, st1) \<Rightarrow>
          (case all_worktrees de repos st1 of
             (paths, st2) \<Rightarrow>
               bindE (inspect_repositories de paths acc) (discover_roots de fuel roots) st2))"

definition path_depth :: "repository_info \<Rightarrow> nat" where
  "path_depth r = length (split_on (CHR ''/'') (ri_path r))"

text \<open>The comparator subtracts the depths; \<open>Array.prototype.sort\<close> is stable.\<close>

definition deepest_first :: "repository_info list \<Rightarrow> repository_info list" where
  "deepest_first = sort_key (\<lambda>r. - int (path_depth r))"

definition run_discovery :: "'w disc_env \<Rightarrow> nat \<Rightarrow> (string, repository_info list, 'w) git_m" where
  "run_discovery de fuel =
     (let roots = (if st_searchPaths (pe_settings de) \<noteq> [] then st_searchPaths (pe_settings de)
                   else [''~/Developper/Projects''])
      in bindE (discover_roots de fuel roots ({}, [])) (\<lambda>(seen, results). ret (deepest_first results)))"


subsection \<open>The phase\<close>

datatype planned_job =
    CheckpointJob string string
  | PlanJob string job_base string

record valid_repo =
  vd_id :: string
  vd_path :: string
  vd_diff :: string
  vd_diffHash :: string

record validation_progress =
  vp_valid :: "valid_repo list"
  vp_checkpoints :: "planned_job list"
  vp_repos :: repos

definition fresh_repo :: "string \<Rightarrow> repo_status \<Rightarrow> repository_operation \<Rightarrow> repo_state" where
  "fresh_repo path status operation =
     \<lparr>rs_repository = path, rs_status = status, rs_operation = Some operation, rs_pushSnapshot = None,
      rs_pushedShas = None, rs_diffHash = None, rs_commits = None, rs_error = None, rs_attempts = None,
      rs_committedShas = None, rs_originalHead = None, rs_feedbackHistory = None, rs_lastPlanHash = None,
      rs_loopDetected = None, rs_fallbackAttempted = None\<rparr>"

definition validation_failed :: "repository_info \<Rightarrow> string \<Rightarrow> validation_progress \<Rightarrow> validation_progress" where
  "validation_failed r msg vp =
     vp\<lparr>vp_repos := AList.update (ri_id r)
          ((fresh_repo (ri_path r) FAILED (ri_operation r))
             \<lparr>rs_pushSnapshot := ri_pushSnapshot r, rs_error := Some msg\<rparr>) (vp_repos vp)\<rparr>"

definition validate_repository ::
  "'w disc_env \<Rightarrow> repository_info \<Rightarrow> validation_progress \<Rightarrow> 'w git_state \<Rightarrow> validation_progress \<times> 'w git_state"
where
  "validate_repository de r vp st =
     (if ri_operation r = PushOnly then
        (case ri_pushSnapshot r of
           None \<Rightarrow> (validation_failed r ''Push-only repository is missing its tracked snapshot.'' vp, st)
         | Some snap \<Rightarrow>
             (vp\<lparr>vp_checkpoints := vp_checkpoints vp @ [CheckpointJob (ri_id r) (ri_path r)],
                 vp_repos := AList.update (ri_id r)
                   ((fresh_repo (ri_path r) RUNNING PushOnly)\<lparr>rs_pushSnapshot := Some snap\<rparr>) (vp_repos vp)\<rparr>, st))
      else
        (case process_repo_validation_and_diff (pe_git de (ri_path r)) (pe_files de (ri_path r)) (pe_settings de)
                (ri_path r) st of
           (Inl msg, st1) \<Rightarrow> (validation_failed r msg vp, st1)
         | (Inr (diff, diffHash), st1) \<Rightarrow>
             (vp\<lparr>vp_valid := vp_valid vp @ [\<lparr>vd_id = ri_id r, vd_path = ri_path r, vd_diff = diff,
                                            vd_diffHash = diffHash\<rparr>],
                 vp_repos := AList.update (ri_id r)
                   ((fresh_repo (ri_path r) PENDING CommitAndPush)\<lparr>rs_diffHash := Some diffHash\<rparr>)
                   (vp_repos vp)\<rparr>, st1)))"

fun validate_repositories ::
  "'w disc_env \<Rightarrow> repository_info list \<Rightarrow> validation_progress \<Rightarrow> 'w git_state
     \<Rightarrow> validation_progress \<times> 'w git_state" where
  "validate_repositories de [] vp st = (vp, st)"
| "validate_repositories de (r # rs) vp st =
     (case validate_repository de r vp st of (vp1, st1) \<Rightarrow> validate_repositories de rs vp1 st1)"

text \<open>The dash of the truncation message, U+2014, is written as its three UTF-8 bytes.\<close>

definition truncation_note :: "nat \<Rightarrow> nat \<Rightarrow> string \<Rightarrow> string" where
  "truncation_note chars maxDiff statFallback =
     NL @ NL @ ''### DIFF TRUNCATED '' @ [CHR 0xE2, CHR 0x80, CHR 0x94] @ '' '' @ show_nat chars
       @ '' chars total, showing first '' @ show_nat maxDiff @ '' chars ###''
       @ NL @ NL @ ''### FULL FILE LIST (git diff --stat) ###'' @ NL @ statFallback"

definition diff_for_llm ::
  "'w git_env \<Rightarrow> nat \<Rightarrow> string \<Rightarrow> 'w git_state \<Rightarrow> string \<times> 'w git_state" where
  "diff_for_llm env maxDiff diff st =
     (if length diff > maxDiff
      then (case shell_output env ''git diff --cached --stat'' st of
              (out, st1) \<Rightarrow> (take maxDiff diff @ truncation_note (length diff) maxDiff (nullish out []), st1))
      else (diff, st))"

fun planning_jobs ::
  "'w disc_env \<Rightarrow> valid_repo list \<Rightarrow> 'w git_state \<Rightarrow> planned_job list \<times> 'w git_state" where
  "planning_jobs de [] st = ([], st)"
| "planning_jobs de (r # rs) st =
     (let settings = pe_settings de in
      case diff_for_llm (pe_git de (vd_path r)) (nullish (st_maxDiffChars settings) 3000000) (vd_diff r) st of
        (shown, st1) \<Rightarrow>
          (case planning_jobs de rs st1 of
             (jobs, st2) \<Rightarrow>
               (PlanJob (vd_id r)
                  \<lparr>jb_repository = vd_path r, jb_diffHash = vd_diffHash r, jb_provider = st_provider settings,
                   jb_model = st_model settings, jb_temperature = st_temperature settings,
                   jb_systemPrompt = pe_prompt de, jb_thinking = st_thinking settings,
                   jb_agent = st_agent settings\<rparr> shown # jobs, st2)))"

definition mark_running :: "valid_repo list \<Rightarrow> repos \<Rightarrow> repos" where
  "mark_running valid repos =
     fold (\<lambda>r. AList.map_entry (vd_id r) (\<lambda>rs. rs\<lparr>rs_status := RUNNING\<rparr>)) valid repos"

datatype discovery_end =
    NothingToDo
  | ValidationFailed run_summary
  | ValidationDone run_summary
  | DelegatedPlanning "planned_job list" repos

definition run_discovery_and_validation_phase ::
  "'w disc_env \<Rightarrow> nat \<Rightarrow> repos \<Rightarrow> (string, discovery_end, 'w) git_m" where
  "run_discovery_and_validation_phase de fuel repos =
     bindE (run_discovery de fuel) (\<lambda>found st.
       if found = [] then (Inr NothingToDo, st)
       else case validate_repositories de found \<lparr>vp_valid = [], vp_checkpoints = [], vp_repos = repos\<rparr> st of
         (vp, st1) \<Rightarrow>
           if vp_valid vp = [] \<and> vp_checkpoints vp = [] then
             (let summary = (summarize (vp_repos vp) 0)\<lparr>sm_retries := 0\<rparr>
              in (Inr (if sm_failed summary > 0 then ValidationFailed summary else ValidationDone summary), st1))
           else (case planning_jobs de (vp_valid vp) st1 of
             (jobs, st2) \<Rightarrow> (Inr (DelegatedPlanning (vp_checkpoints vp @ jobs)
                                   (mark_running (vp_valid vp) (vp_repos vp))), st2)))"

subsection \<open>What is delegated was validated\<close>

text \<open>Consecutive shell commands of this log that a repository answered, one after the other from some world on.\<close>

fun shell_answers :: "'w git_env \<Rightarrow> 'w \<Rightarrow> git_call list \<Rightarrow> bool" where
  "shell_answers env w [] \<longleftrightarrow> True"
| "shell_answers env w (Shell command r # cs) \<longleftrightarrow>
     fst (ge_shell env command w) = r \<and> shell_answers env (snd (ge_shell env command w)) cs"
| "shell_answers env w (c # cs) \<longleftrightarrow> False"

definition shell_run :: "'w git_env \<Rightarrow> git_call list \<Rightarrow> git_call list \<Rightarrow> bool" where
  "shell_run env part cs \<longleftrightarrow> sublist part cs \<and> (\<exists>w. shell_answers env w part)"

text \<open>The diff a repository printed right after everything in it, and in its submodules, was staged.\<close>

definition staged_diff :: "'w git_env \<Rightarrow> string \<Rightarrow> git_call list \<Rightarrow> bool" where
  "staged_diff env diff cs \<longleftrightarrow>
     (\<exists>a b. shell_run env [Shell (''git submodule foreach --quiet --recursive '' @ [CHR 0x27] @ ''git add -A'' @ [CHR 0x27]) (Inr a),
        Shell ''git add -A'' (Inr b), Shell ''git diff --cached'' (Inr diff)] cs)"

text \<open>Git has reported no change: the command failed or printed nothing but blanks.\<close>

definition nothing_reported :: "(git_failure + string) \<Rightarrow> bool" where
  "nothing_reported r \<longleftrightarrow> (case r of Inl _ \<Rightarrow> True | Inr out \<Rightarrow> is_blank out)"

text \<open>What Git said of a repository when it was inspected: it is on a branch, and neither its status nor that of its
  submodules shows a change; or one of them does.\<close>

definition found_clean :: "'w git_env \<Rightarrow> git_call list \<Rightarrow> bool" where
  "found_clean env cs \<longleftrightarrow>
     (\<exists>branch status submodules. \<not> is_blank branch \<and> nothing_reported status \<and> nothing_reported submodules \<and>
        shell_run env [Shell ''git symbolic-ref --quiet --short HEAD'' (Inr branch), Shell ''git status --porcelain'' status,
          Shell (''git submodule foreach --quiet --recursive '' @ [CHR 0x27] @ ''git status --porcelain'' @ [CHR 0x27]) submodules] cs)"

definition found_dirty :: "'w git_env \<Rightarrow> git_call list \<Rightarrow> bool" where
  "found_dirty env cs \<longleftrightarrow>
     (\<exists>branch status submodules. \<not> is_blank branch \<and>
        (\<not> nothing_reported status \<and>
           shell_run env [Shell ''git symbolic-ref --quiet --short HEAD'' (Inr branch), Shell ''git status --porcelain'' status] cs \<or>
         \<not> nothing_reported submodules \<and>
           shell_run env [Shell ''git symbolic-ref --quiet --short HEAD'' (Inr branch), Shell ''git status --porcelain'' status,
             Shell (''git submodule foreach --quiet --recursive '' @ [CHR 0x27] @ ''git status --porcelain'' @ [CHR 0x27]) submodules] cs))"

lemma shell_run_more: "shell_run env part cs \<Longrightarrow> shell_run env part (as @ cs @ bs)"
  unfolding shell_run_def sublist_def by (metis append.assoc)

lemma shell_evidence_more:
  "staged_diff env d cs \<Longrightarrow> staged_diff env d (as @ cs @ bs)"
  "found_clean env cs \<Longrightarrow> found_clean env (as @ cs @ bs)"
  "found_dirty env cs \<Longrightarrow> found_dirty env (as @ cs @ bs)"
  unfolding staged_diff_def found_clean_def found_dirty_def using shell_run_more by metis+

lemma shell_step:
  "exec_shell env c st = (r, st') \<Longrightarrow> gs_calls st' = gs_calls st @ [Shell c r] \<and>
     fst (ge_shell env c (gs_world st)) = r \<and> snd (ge_shell env c (gs_world st)) = gs_world st'"
  by (auto simp: exec_shell_def log_call_def split: prod.splits)

lemma git_exec_step:
  "git_exec env args st = (out, st') \<Longrightarrow> \<exists>r. gs_calls st' = gs_calls st @ [Shell (''git '' @ args) r] \<and>
     fst (ge_shell env (''git '' @ args) (gs_world st)) = r \<and>
     snd (ge_shell env (''git '' @ args) (gs_world st)) = gs_world st' \<and>
     out = (case r of Inl _ \<Rightarrow> None | Inr text \<Rightarrow> Some (trim text))"
  by (auto simp: git_exec_def dest!: shell_step split: prod.splits sum.splits)

lemma blank_trimmed: "is_blank (trim t) = is_blank t"
proof -
  have kept: "(\<forall>c \<in> set (dropWhile P t). P c) = (\<forall>c \<in> set t. P c)" for P :: "char \<Rightarrow> bool" and t
    by (induction t) auto
  show ?thesis by (simp add: is_blank_iff trim_def trim_start_def kept)
qed

text \<open>The logged part of a run, from the calls \<open>base\<close> on.\<close>

definition logged :: "git_call list \<Rightarrow> 'w git_state \<Rightarrow> (git_call list \<Rightarrow> bool) \<Rightarrow> bool" where
  "logged base st P \<longleftrightarrow> (\<exists>cs. gs_calls st = base @ cs \<and> P cs)"

definition validated :: "'w disc_env \<Rightarrow> git_call list \<Rightarrow> valid_repo \<Rightarrow> bool" where
  "validated de cs r \<longleftrightarrow> vd_diffHash r = ge_sha256 (pe_git de (vd_path r)) (vd_diff r) \<and>
     \<not> is_blank (vd_diff r) \<and> sr_clean (scan_diff (vd_diff r)) \<and>
     staged_diff (pe_git de (vd_path r)) (vd_diff r) cs"

lemma validated_more: "validated de cs r \<Longrightarrow> validated de (as @ cs @ bs) r"
  using shell_evidence_more(1) unfolding validated_def by blast

lemma only_process [only_rules]: "only silent (process_repo_validation_and_diff env files settings path)"
  unfolding process_repo_validation_and_diff_def by (intro only_rules only_cascade) simp_all

lemma validate_repository_grows:
  assumes "validate_repository de r vp st = (vp', st')"
  shows "\<exists>cs. gs_calls st' = gs_calls st @ cs \<and> list_all silent cs"
proof (cases "ri_operation r = PushOnly")
  case True
  then show ?thesis using assms by (auto simp: validate_repository_def split: option.splits)
next
  case False
  obtain x st1 where x: "process_repo_validation_and_diff (pe_git de (ri_path r)) (pe_files de (ri_path r))
      (pe_settings de) (ri_path r) st = (x, st1)" by fastforce
  with False assms have "st' = st1" by (auto simp: validate_repository_def split: sum.splits prod.splits)
  then show ?thesis using onlyD[OF only_process x] by blast
qed

text \<open>The diff is the answer of the repository to the last command of its validation.\<close>

lemma asked_diff:
  assumes "process_repo_validation_and_diff env files settings path st = (Inr (diff, h), st')"
  shows "\<exists>cs. gs_calls st' = gs_calls st @ cs \<and> staged_diff env diff cs"
proof -
  from assms obtain st0 a st1 b st2 where
    t: "(if st_skipTests settings then ret () else run_test_cascade env files path) st = (Inr (), st0)"
    and d: "exec_shell env SUBMODULE_ADD st0 = (Inr a, st1)" "exec_shell env ''git add -A'' st1 = (Inr b, st2)"
      "exec_shell env ''git diff --cached'' st2 = (Inr diff, st')"
    by (auto simp: process_repo_validation_and_diff_def bindE_returns validate_diff_for_secrets_def Let_def
        split: if_splits)
  have "only silent (if st_skipTests settings then ret () else run_test_cascade env files path)"
    using only_cascade by (auto intro: only_rules)
  from onlyD[OF this t] obtain cs where cs: "gs_calls st0 = gs_calls st @ cs" by blast
  let ?part = "[Shell SUBMODULE_ADD (Inr a), Shell ''git add -A'' (Inr b), Shell ''git diff --cached'' (Inr diff)]"
  have "shell_answers env (gs_world st0) ?part"
    using shell_step[OF d(1)] shell_step[OF d(2)] shell_step[OF d(3)] by simp
  then have "shell_run env ?part ?part" by (auto simp: shell_run_def)
  then have "staged_diff env diff ?part" unfolding staged_diff_def SUBMODULE_ADD_def by blast
  then have "staged_diff env diff (cs @ ?part)" using shell_evidence_more(1)[of env diff ?part cs "[]"] by simp
  moreover have "gs_calls st' = gs_calls st @ cs @ ?part"
    using shell_step[OF d(1)] shell_step[OF d(2)] shell_step[OF d(3)] cs by simp
  ultimately show ?thesis by blast
qed

lemma validate_repository_valid:
  assumes "validate_repository de r vp st = (vp', st')"
    and "\<forall>v \<in> set (vp_valid vp). logged base st (\<lambda>cs. validated de cs v)" "gs_calls st = base @ before"
  shows "\<forall>v \<in> set (vp_valid vp'). logged base st' (\<lambda>cs. validated de cs v) \<and>
    (v \<in> set (vp_valid vp) \<or> ri_operation r = CommitAndPush \<and> vd_path v = ri_path r)"
proof -
  obtain cs where cs: "gs_calls st' = gs_calls st @ cs" using validate_repository_grows[OF assms(1)] by blast
  have old: "logged base st' (\<lambda>cs. validated de cs v)" if "v \<in> set (vp_valid vp)" for v
    using assms(2) that cs validated_more[of de _ v "[]" cs] by (fastforce simp: logged_def)
  show ?thesis
  proof (cases "ri_operation r = PushOnly")
    case True
    then have "vp_valid vp' = vp_valid vp"
      using assms(1) by (auto simp: validate_repository_def validation_failed_def split: option.splits)
    then show ?thesis using old by simp
  next
    case False
    obtain x st1 where x: "process_repo_validation_and_diff (pe_git de (ri_path r)) (pe_files de (ri_path r))
        (pe_settings de) (ri_path r) st = (x, st1)" by fastforce
    show ?thesis
    proof (cases x)
      case (Inl e)
      then show ?thesis using False x assms(1) old by (auto simp: validate_repository_def validation_failed_def)
    next
      case (Inr dh)
      obtain diff h where dh: "dh = (diff, h)" by fastforce
      let ?new = "\<lparr>vd_id = ri_id r, vd_path = ri_path r, vd_diff = diff, vd_diffHash = h\<rparr>"
      have out: "st' = st1" "vp_valid vp' = vp_valid vp @ [?new]"
        using False x Inr dh assms(1) by (auto simp: validate_repository_def)
      note d = validated_diff[OF x[unfolded Inr dh]]
      have "staged_diff (pe_git de (ri_path r)) diff cs"
        using asked_diff[OF x[unfolded Inr dh]] cs out(1) by auto
      then have "validated de (before @ cs) ?new"
        using d shell_evidence_more(1)[of _ diff cs before "[]"] by (simp add: validated_def)
      then have "logged base st' (\<lambda>cs. validated de cs ?new)"
        using cs assms(3) by (auto simp: logged_def)
      moreover have "ri_operation r = CommitAndPush" using False by (cases "ri_operation r") simp_all
      ultimately show ?thesis using old out(2) by simp
    qed
  qed
qed

lemma validate_repositories_valid:
  assumes "validate_repositories de rs vp st = (vp', st')"
    and "\<forall>v \<in> set (vp_valid vp). logged base st (\<lambda>cs. validated de cs v)" "gs_calls st = base @ before"
  shows "\<forall>v \<in> set (vp_valid vp'). logged base st' (\<lambda>cs. validated de cs v) \<and>
    (v \<in> set (vp_valid vp) \<or> (\<exists>r \<in> set rs. ri_operation r = CommitAndPush \<and> vd_path v = ri_path r))"
  using assms
proof (induction rs arbitrary: vp st before)
  case (Cons r rs)
  obtain vp1 st1 where one: "validate_repository de r vp st = (vp1, st1)" by fastforce
  obtain cs where cs: "gs_calls st1 = base @ before @ cs"
    using validate_repository_grows[OF one] Cons.prems(3) by auto
  note head = validate_repository_valid[OF one Cons.prems(2,3)]
  have "validate_repositories de rs vp1 st1 = (vp', st')" using Cons.prems(1) one by simp
  from Cons.IH[OF this _ cs] head show ?case by fastforce
qed simp

subsection \<open>The calls of the phase\<close>

definition grows :: "'w git_state \<Rightarrow> 'w git_state \<Rightarrow> bool" where
  "grows st st' \<longleftrightarrow> (\<exists>cs. gs_calls st' = gs_calls st @ cs \<and> list_all silent cs)"

lemma grows_refl [simp]: "grows st st"
  by (simp add: grows_def)

lemma grows_trans [trans]: "grows a b \<Longrightarrow> grows b c \<Longrightarrow> grows a c"
  by (auto simp: grows_def)

lemma grows_only: "only silent m \<Longrightarrow> m st = (r, st') \<Longrightarrow> grows st st'"
  unfolding grows_def by (rule onlyD)

lemma grows_exec: "git_exec env args st = (out, st') \<Longrightarrow> grows st st'"
  by (auto simp: git_exec_def grows_def exec_shell_def log_call_def split: prod.splits sum.splits)

lemma grows_detached: "is_detached_head env st = (b, st') \<Longrightarrow> grows st st'"
  by (auto simp: is_detached_head_def dest: grows_exec split: prod.splits)

lemma grows_changes: "has_local_changes env st = (b, st') \<Longrightarrow> grows st st'"
  by (auto simp: has_local_changes_def has_dirty_submodules_def dest!: grows_exec intro: grows_trans
      split: prod.splits if_splits)

lemma grows_worktrees: "get_worktrees env p st = (ps, st') \<Longrightarrow> grows st st'"
  by (auto simp: get_worktrees_def Let_def dest: grows_exec split: prod.splits option.splits)

lemma grows_submodules: "get_submodule_paths de p st = (ps, st') \<Longrightarrow> grows st st'"
  by (auto simp: get_submodule_paths_def dest: grows_exec split: prod.splits option.splits)

lemma grows_walk_all:
  assumes "walk_all visit ds st = Some (found, st')"
    and "\<And>d st found st'. visit d st = Some (found, st') \<Longrightarrow> grows st st'"
  shows "grows st st'"
  using assms(1)
proof (induction ds arbitrary: st found)
  case (Cons d ds)
  then obtain f1 st1 f2 where "visit d st = Some (f1, st1)" "walk_all visit ds st1 = Some (f2, st')"
    by (auto split: option.splits)
  with Cons.IH assms(2) show ?case using grows_trans by blast
qed simp

lemma grows_walk: "walk de fuel dir st = Some (found, st') \<Longrightarrow> grows st st'"
proof (induction fuel arbitrary: dir st found st')
  case (Suc fuel)
  have visit: "walk_all (walk de fuel) ds s = Some (f, s') \<Longrightarrow> grows s s'" for ds s f s'
    using grows_walk_all Suc.IH by blast
  show ?case
    using Suc.prems
    by (auto split: option.splits prod.splits if_splits dest!: visit dest: grows_submodules intro: grows_trans)
qed simp

lemma grows_all_worktrees: "all_worktrees de ps st = (qs, st') \<Longrightarrow> grows st st'"
  by (induction ps arbitrary: st qs) (auto split: prod.splits dest!: grows_worktrees intro: grows_trans)

lemma only_capture [only_rules]: "only silent (capture_tracked_push_snapshot env)"
  unfolding capture_tracked_push_snapshot_def snapshot_of_def is_ancestor_def
  by (intro only_rules) simp_all

lemma grows_inspect: "inspect_repository de p st = (r, st') \<Longrightarrow> grows st st'"
  by (auto simp: inspect_repository_def Let_def bindE_def
      dest!: grows_detached grows_changes grows_only[OF only_capture] intro: grows_trans
      split: prod.splits sum.splits bool.splits if_splits)

lemma grows_inspects: "inspect_repositories de ps acc st = (r, st') \<Longrightarrow> grows st st'"
proof (induction de ps acc arbitrary: st rule: inspect_repositories.induct)
  case (2 de p ps seen results)
  show ?case
  proof (cases "p \<in> seen")
    case False
    then have "bindE (inspect_repository de p) (\<lambda>r. inspect_repositories de ps
        (insert p seen, results @ (case r of None \<Rightarrow> [] | Some i \<Rightarrow> [i]))) st = (r, st')" using 2 by simp
    then show ?thesis
      by (rule bindE_cases) (use 2(2)[OF False] grows_inspect grows_trans in blast)+
  qed (use 2 in simp)
qed (simp add: ret_def)

lemma grows_roots: "discover_roots de fuel roots acc st = (r, st') \<Longrightarrow> grows st st'"
proof (induction roots arbitrary: acc st)
  case (Cons root roots)
  let ?find = "find_git_directories_recursively de fuel (canonicalize_path de (expand_path de root) (gs_world st)) st"
  show ?case
  proof (cases ?find)
    case None
    then show ?thesis using Cons.prems by (simp add: throw_def)
  next
    case (Some x)
    obtain repos st1 where x: "x = (repos, st1)" by fastforce
    have g1: "grows st st1" using Some x by (auto simp: find_git_directories_recursively_def dest: grows_walk split: if_splits)
    obtain paths st2 where p: "all_worktrees de repos st1 = (paths, st2)" by fastforce
    have "bindE (inspect_repositories de paths acc) (discover_roots de fuel roots) st2 = (r, st')"
      using Cons.prems Some x p by simp
    then have "grows st2 st'" by (rule bindE_cases) (use Cons.IH grows_inspects grows_trans in blast)+
    then show ?thesis using g1 grows_all_worktrees[OF p] grows_trans by blast
  qed
qed (simp add: ret_def)

lemma grows_discovery: "run_discovery de fuel st = (r, st') \<Longrightarrow> grows st st'"
  unfolding run_discovery_def Let_def
  by (erule bindE_cases) (auto dest: grows_roots simp: ret_def)

lemma grows_validate: "validate_repositories de rs vp st = (vp', st') \<Longrightarrow> grows st st'"
proof (induction rs arbitrary: vp st)
  case (Cons r rs)
  obtain vp1 st1 where "validate_repository de r vp st = (vp1, st1)" by fastforce
  with Cons validate_repository_grows[OF this] show ?case unfolding grows_def[symmetric]
    by (auto intro: grows_trans)
qed simp

lemma grows_planning: "planning_jobs de rs st = (jobs, st') \<Longrightarrow> grows st st'"
proof (induction rs arbitrary: st jobs)
  case (Cons r rs)
  have shown: "diff_for_llm env n d s = (x, s') \<Longrightarrow> grows s s'" for env n d s x s'
    by (auto simp: diff_for_llm_def shell_output_def exec_shell_def log_call_def grows_def
        split: if_splits prod.splits sum.splits)
  from Cons show ?case by (auto simp: Let_def split: prod.splits dest!: shown intro: grows_trans)
qed simp

subsection \<open>What discovery finds\<close>

definition well_found :: "'w disc_env \<Rightarrow> git_call list \<Rightarrow> repository_info \<Rightarrow> bool" where
  "well_found de cs r \<longleftrightarrow> (case ri_operation r of
       PushOnly \<Rightarrow> st_autoPush (pe_settings de) \<and> ri_pushSnapshot r \<noteq> None \<and> found_clean (pe_git de (ri_path r)) cs
     | CommitAndPush \<Rightarrow> ri_pushSnapshot r = None \<and> found_dirty (pe_git de (ri_path r)) cs)"

lemma well_found_more: "well_found de cs r \<Longrightarrow> well_found de (as @ cs @ bs) r"
  using shell_evidence_more(2,3) by (fastforce simp: well_found_def split: repository_operation.splits)

lemma detached_step:
  assumes "is_detached_head env st = (False, st')"
  shows "\<exists>branch. gs_calls st' = gs_calls st @ [Shell ''git symbolic-ref --quiet --short HEAD'' (Inr branch)] \<and>
    \<not> is_blank branch \<and>
    ge_shell env ''git symbolic-ref --quiet --short HEAD'' (gs_world st) = (Inr branch, gs_world st')"
proof -
  obtain out st1 where 1: "git_exec env ''symbolic-ref --quiet --short HEAD'' st = (out, st1)" by fastforce
  then have "st1 = st'" "out \<noteq> None" "out \<noteq> Some []"
    using assms by (auto simp: is_detached_head_def split: option.splits)
  with git_exec_step[OF 1] show ?thesis
    by (auto simp: is_blank_def prod_eq_iff split: sum.splits)
qed

lemma changes_step:
  assumes "has_local_changes env st = (b, st')"
  shows "\<exists>status. (\<not> nothing_reported status \<and> b \<and>
       gs_calls st' = gs_calls st @ [Shell ''git status --porcelain'' status] \<and>
       shell_answers env (gs_world st) [Shell ''git status --porcelain'' status]) \<or>
    (nothing_reported status \<and> (\<exists>submodules. b = (\<not> nothing_reported submodules) \<and>
       gs_calls st' = gs_calls st @ [Shell ''git status --porcelain'' status, Shell (''git '' @ SUBMODULE_STATUS) submodules] \<and>
       shell_answers env (gs_world st) [Shell ''git status --porcelain'' status, Shell (''git '' @ SUBMODULE_STATUS) submodules]))"
proof -
  obtain out st1 where 1: "git_exec env ''status --porcelain'' st = (out, st1)" by fastforce
  obtain r where r: "gs_calls st1 = gs_calls st @ [Shell ''git status --porcelain'' r]"
    "fst (ge_shell env ''git status --porcelain'' (gs_world st)) = r"
    "snd (ge_shell env ''git status --porcelain'' (gs_world st)) = gs_world st1"
    "out = (case r of Inl _ \<Rightarrow> None | Inr text \<Rightarrow> Some (trim text))"
    using git_exec_step[OF 1] by auto
  have quiet: "nothing_reported r \<longleftrightarrow> out = None \<or> out = Some []"
    using r(4) by (auto simp: nothing_reported_def is_blank_def split: sum.splits)
  show ?thesis
  proof (cases "nothing_reported r")
    case False
    then show ?thesis using assms 1 r(1-3) quiet by (intro exI[of _ r]) (auto simp: has_local_changes_def)
  next
    case True
    then have sub: "has_dirty_submodules env st1 = (b, st')" using assms 1 quiet by (auto simp: has_local_changes_def)
    obtain out2 st2 where 2: "git_exec env SUBMODULE_STATUS st1 = (out2, st2)" by fastforce
    obtain q where q: "gs_calls st2 = gs_calls st1 @ [Shell (''git '' @ SUBMODULE_STATUS) q]"
      "fst (ge_shell env (''git '' @ SUBMODULE_STATUS) (gs_world st1)) = q"
      "snd (ge_shell env (''git '' @ SUBMODULE_STATUS) (gs_world st1)) = gs_world st2"
      "out2 = (case q of Inl _ \<Rightarrow> None | Inr text \<Rightarrow> Some (trim text))"
      using git_exec_step[OF 2] by auto
    have "b = (\<not> nothing_reported q) \<and> st' = st2"
      using sub 2 q(4) blank_trimmed
      by (auto simp: has_dirty_submodules_def nothing_reported_def is_blank_def split: sum.splits)
    with True r q show ?thesis by (intro exI[of _ r]) auto
  qed
qed

lemma inspect_found:
  assumes "inspect_repository de p st = (Inr (Some r), st')"
  shows "ri_path r = p \<and> (\<exists>cs. gs_calls st' = gs_calls st @ cs \<and> well_found de cs r)"
proof -
  let ?env = "pe_git de p"
  obtain st1 where 1: "is_detached_head ?env st = (False, st1)"
    using assms by (auto simp: inspect_repository_def Let_def split: prod.splits bool.splits)
  obtain b st2 where 2: "has_local_changes ?env st1 = (b, st2)" by fastforce
  obtain branch where branch: "gs_calls st1 = gs_calls st @ [Shell ''git symbolic-ref --quiet --short HEAD'' (Inr branch)]"
    "\<not> is_blank branch" "ge_shell ?env ''git symbolic-ref --quiet --short HEAD'' (gs_world st) = (Inr branch, gs_world st1)"
    using detached_step[OF 1] by blast
  have SUB: "''git '' @ SUBMODULE_STATUS =
      ''git submodule foreach --quiet --recursive '' @ [CHR 0x27] @ ''git status --porcelain'' @ [CHR 0x27]"
    by (simp add: SUBMODULE_STATUS_def)
  have evidence: "\<exists>cs. gs_calls st2 = gs_calls st @ cs \<and> (if b then found_dirty ?env cs else found_clean ?env cs)"
    using changes_step[OF 2] unfolding SUB
  proof (elim exE disjE conjE)
    fix status assume s: "\<not> nothing_reported status" b
      "gs_calls st2 = gs_calls st1 @ [Shell ''git status --porcelain'' status]"
      "shell_answers ?env (gs_world st1) [Shell ''git status --porcelain'' status]"
    let ?part = "[Shell ''git symbolic-ref --quiet --short HEAD'' (Inr branch), Shell ''git status --porcelain'' status]"
    have "shell_answers ?env (gs_world st) ?part" using s(4) branch(3) by simp
    then have "shell_run ?env ?part ?part" by (auto simp: shell_run_def)
    then have "found_dirty ?env ?part" using s(1) branch(2) unfolding found_dirty_def by blast
    then show ?thesis using s(2,3) branch(1) by (intro exI[of _ ?part]) simp
  next
    fix status submodules assume s: "nothing_reported status" "b = (\<not> nothing_reported submodules)"
      "gs_calls st2 = gs_calls st1 @ [Shell ''git status --porcelain'' status,
         Shell (''git submodule foreach --quiet --recursive '' @ [CHR 0x27] @ ''git status --porcelain'' @ [CHR 0x27]) submodules]"
      "shell_answers ?env (gs_world st1) [Shell ''git status --porcelain'' status,
         Shell (''git submodule foreach --quiet --recursive '' @ [CHR 0x27] @ ''git status --porcelain'' @ [CHR 0x27]) submodules]"
    let ?part = "[Shell ''git symbolic-ref --quiet --short HEAD'' (Inr branch), Shell ''git status --porcelain'' status,
         Shell (''git submodule foreach --quiet --recursive '' @ [CHR 0x27] @ ''git status --porcelain'' @ [CHR 0x27]) submodules]"
    have "shell_answers ?env (gs_world st) ?part" using s(4) branch(3) by simp
    then have "shell_run ?env ?part ?part" unfolding shell_run_def by blast
    then have "if b then found_dirty ?env ?part else found_clean ?env ?part"
      using s(1,2) branch(2) unfolding found_dirty_def found_clean_def by auto
    then show ?thesis using s(3) branch(1) by (intro exI[of _ ?part]) simp
  qed
  then obtain cs where cs: "gs_calls st2 = gs_calls st @ cs" "if b then found_dirty ?env cs else found_clean ?env cs"
    by blast
  show ?thesis
  proof (cases b)
    case True
    then show ?thesis using assms 1 2 cs by (auto simp: inspect_repository_def Let_def well_found_def)
  next
    case False
    with assms 1 2 obtain snap st3 where 3: "capture_tracked_push_snapshot ?env st2 = (Inr (Some snap), st3)"
      "st' = st3" "ri_path r = p" "ri_operation r = PushOnly" "ri_pushSnapshot r = Some snap" "st_autoPush (pe_settings de)"
      by (auto simp: inspect_repository_def Let_def bindE_returns split: if_splits)
    obtain more where "gs_calls st3 = gs_calls st2 @ more" using onlyD[OF only_capture 3(1)] by blast
    then show ?thesis
      using cs False 3 shell_evidence_more(2)[of ?env cs "[]" more]
      by (intro conjI exI[of _ "cs @ more"]) (simp_all add: well_found_def)
  qed
qed

text \<open>The results so far: one entry per path, all of them seen.\<close>

definition found_ok ::
  "'w disc_env \<Rightarrow> git_call list \<Rightarrow> 'w git_state \<Rightarrow> string set \<times> repository_info list \<Rightarrow> bool" where
  "found_ok de base st acc \<longleftrightarrow> distinct (map ri_path (snd acc)) \<and> ri_path ` set (snd acc) \<subseteq> fst acc \<and>
     (\<forall>r \<in> set (snd acc). logged base st (\<lambda>cs. well_found de cs r)) \<and> (\<exists>cs. gs_calls st = base @ cs)"

lemma logged_more:
  "logged base st (\<lambda>cs. well_found de cs r) \<Longrightarrow> grows st st' \<Longrightarrow> logged base st' (\<lambda>cs. well_found de cs r)"
  using well_found_more[of de _ r "[]"] by (fastforce simp: logged_def grows_def)

lemma found_ok_more: "found_ok de base st acc \<Longrightarrow> grows st st' \<Longrightarrow> found_ok de base st' acc"
  using logged_more by (fastforce simp: found_ok_def grows_def)

lemma inspects_ok:
  "inspect_repositories de ps acc st = (Inr acc', st') \<Longrightarrow> found_ok de base st acc \<Longrightarrow> found_ok de base st' acc'"
proof (induction de ps acc arbitrary: st rule: inspect_repositories.induct)
  case (2 de p ps seen results)
  show ?case
  proof (cases "p \<in> seen")
    case False
    then obtain r st1 where r: "inspect_repository de p st = (Inr r, st1)"
      "inspect_repositories de ps (insert p seen, results @ (case r of None \<Rightarrow> [] | Some i \<Rightarrow> [i])) st1 = (Inr acc', st')"
      using 2 by (auto simp: bindE_returns)
    have before: "found_ok de base st1 (seen, results)" using found_ok_more[OF 2(4) grows_inspect[OF r(1)]] .
    have "logged base st1 (\<lambda>cs. well_found de cs i) \<and> ri_path i = p" if i: "r = Some i" for i
    proof -
      obtain cs where "gs_calls st1 = gs_calls st @ cs" "well_found de cs i" "ri_path i = p"
        using inspect_found[OF r(1)[unfolded i]] by blast
      then show ?thesis
        using 2(4) well_found_more[of de cs i _ "[]"] by (fastforce simp: found_ok_def logged_def)
    qed
    then have "found_ok de base st1 (insert p seen, results @ (case r of None \<Rightarrow> [] | Some i \<Rightarrow> [i]))"
      using before False by (auto simp: found_ok_def split: option.splits)
    then show ?thesis using 2(2)[OF False r(2)] by blast
  qed (use 2 in simp)
qed simp

lemma roots_ok:
  "discover_roots de fuel roots acc st = (Inr acc', st') \<Longrightarrow> found_ok de base st acc \<Longrightarrow> found_ok de base st' acc'"
proof (induction roots arbitrary: acc st)
  case (Cons root roots)
  from Cons.prems(1) obtain repos st1 paths acc1 st2 st3 where
    w: "find_git_directories_recursively de fuel (canonicalize_path de (expand_path de root) (gs_world st)) st = Some (repos, st1)"
    "all_worktrees de repos st1 = (paths, st2)"
    and i: "inspect_repositories de paths acc st2 = (Inr acc1, st3)" "discover_roots de fuel roots acc1 st3 = (Inr acc', st')"
    by (auto simp: bindE_returns split: option.splits prod.splits)
  have "grows st st1" using w(1) by (auto simp: find_git_directories_recursively_def dest: grows_walk split: if_splits)
  then have "grows st st2" using grows_all_worktrees[OF w(2)] grows_trans by blast
  then show ?case using Cons.IH[OF i(2)] inspects_ok[OF i(1)] found_ok_more Cons.prems(2) by blast
qed simp

lemma discovery_ok:
  assumes "run_discovery de fuel st = (Inr found, st')"
  shows "distinct (map ri_path found)" "\<forall>r \<in> set found. logged (gs_calls st) st' (\<lambda>cs. well_found de cs r)"
    "sorted_wrt (\<lambda>a b. path_depth b \<le> path_depth a) found"
proof -
  obtain seen results where r: "discover_roots de fuel
      (if st_searchPaths (pe_settings de) \<noteq> [] then st_searchPaths (pe_settings de) else [''~/Developper/Projects''])
      ({}, []) st = (Inr (seen, results), st')" "found = deepest_first results"
    using assms unfolding run_discovery_def Let_def by (force simp: bindE_returns)
  have ok: "found_ok de (gs_calls st) st' (seen, results)"
    using roots_ok[OF r(1), of "gs_calls st"] by (simp add: found_ok_def)
  then show "distinct (map ri_path found)" "\<forall>r \<in> set found. logged (gs_calls st) st' (\<lambda>cs. well_found de cs r)"
    by (simp_all add: r(2) deepest_first_def found_ok_def distinct_map)
  have "sorted (map (\<lambda>r. - int (path_depth r)) found)" by (simp add: r(2) deepest_first_def)
  then show "sorted_wrt (\<lambda>a b. path_depth b \<le> path_depth a) found"
    by (simp add: sorted_map)
qed

lemma split_on_deeper:
  "length (split_on c (p @ c # rest)) > length (split_on c p)"
proof (induction p)
  case Nil
  then show ?case using split_on_not_Nil[of c rest] by (simp del: split_on_not_Nil)
next
  case (Cons x p)
  have l: "length (case split_on c s of [] \<Rightarrow> [[x]] | w # ws \<Rightarrow> (x # w) # ws) = length (split_on c s)" for s
    by (cases "split_on c s") simp_all
  show ?case using Cons by (simp add: l)
qed

text \<open>Discovery lists every repository once and puts nested repositories first: no two results have the same
  path, and no repository stands before one inside its directory, so that the commits of a submodule land
  before the diff of its parent is taken. A clean repository is listed only under \<open>autoPush\<close>, always with the
  snapshot it is to publish; a dirty one never has a snapshot. Discovery itself pushes nothing.\<close>

theorem discovery_orders_nested_first:
  assumes run: "run_discovery de fuel st = (Inr found, st')"
  shows "distinct (map ri_path found) \<and>
    (\<forall>i j. i < j \<and> j < length found \<longrightarrow>
       (\<forall>rest. ri_path (found ! j) \<noteq> ri_path (found ! i) @ ''/'' @ rest)) \<and>
    (\<forall>r \<in> set found. case ri_operation r of
       PushOnly \<Rightarrow> st_autoPush (pe_settings de) \<and> ri_pushSnapshot r \<noteq> None
     | CommitAndPush \<Rightarrow> ri_pushSnapshot r = None) \<and>
    (\<exists>cs. gs_calls st' = gs_calls st @ cs \<and> filter is_push cs = [])"
proof -
  have "ri_path (found ! j) \<noteq> ri_path (found ! i) @ ''/'' @ rest" if ij: "i < j" "j < length found" for i j rest
  proof
    assume nested: "ri_path (found ! j) = ri_path (found ! i) @ ''/'' @ rest"
    have "path_depth (found ! j) \<le> path_depth (found ! i)"
      using discovery_ok(3)[OF run] ij by (simp add: sorted_wrt_iff_nth_less)
    then show False using nested split_on_deeper[of "CHR ''/''" "ri_path (found ! i)" rest]
      by (simp add: path_depth_def)
  qed
  moreover obtain cs where "gs_calls st' = gs_calls st @ cs" "list_all silent cs"
    using grows_discovery[OF run] by (auto simp: grows_def)
  ultimately show ?thesis
    using discovery_ok(1,2)[OF run] silent_no_push
    by (auto simp: well_found_def logged_def split: repository_operation.splits)
qed

subsection \<open>The walk ends\<close>

lemma walk_all_total:
  assumes "\<And>d s. d \<in> set ds \<Longrightarrow> \<exists>r. visit d s = Some r"
  shows "\<exists>r. walk_all visit ds st = Some r"
  using assms
proof (induction ds arbitrary: st)
  case (Cons d ds)
  obtain f s where "visit d st = Some (f, s)" using Cons.prems[of d st] by auto
  moreover have "\<exists>r. walk_all visit ds s = Some r" by (rule Cons.IH) (use Cons.prems in simp)
  ultimately show ?case by auto
qed simp

lemma walk_all_found:
  assumes "walk_all visit ds st = Some (found, st')"
    and "\<And>d s f s'. d \<in> set ds \<Longrightarrow> visit d s = Some (f, s') \<Longrightarrow> \<forall>x \<in> set f. P x"
  shows "\<forall>x \<in> set found. P x"
  using assms
proof (induction ds arbitrary: st found)
  case (Cons d ds)
  then obtain f1 st1 f2 where w: "visit d st = Some (f1, st1)" "walk_all visit ds st1 = Some (f2, st')"
    "found = f1 @ f2" by (auto split: option.splits)
  have "\<forall>x \<in> set f1. P x" using Cons.prems(2)[OF _ w(1)] by simp
  moreover have "\<forall>x \<in> set f2. P x" using Cons.IH[OF w(2)] Cons.prems(2) by (meson list.set_intros(2))
  ultimately show ?case using w(3) by auto
qed simp

definition has_git_entry :: "'w disc_env \<Rightarrow> string \<Rightarrow> bool" where
  "has_git_entry de dir \<longleftrightarrow> (\<exists>w entries. de_readdir de dir w = Some entries \<and> ''.git'' \<in> fst ` set entries)"

lemma has_git_entryI:
  "de_readdir de dir w = Some entries \<Longrightarrow> (''.git'', b) \<in> set entries \<Longrightarrow> has_git_entry de dir"
  unfolding has_git_entry_def by force

lemma walk_found:
  "walk de fuel dir st = Some (found, st') \<Longrightarrow> \<forall>d \<in> set found. has_git_entry de d"
proof (induction fuel arbitrary: dir st found st')
  case (Suc fuel)
  have visit: "walk_all (walk de fuel) ds s = Some (f, s') \<Longrightarrow> \<forall>d \<in> set f. has_git_entry de d" for ds s f s'
    by (rule walk_all_found) (use Suc.IH in blast)+
  show ?case
    using Suc.prems
    by (auto split: option.splits prod.splits if_splits dest!: visit intro: has_git_entryI)
qed simp

lemma walk_total:
  assumes "\<And>dir w entries e. de_readdir de dir w = Some entries \<Longrightarrow> e \<in> set entries \<Longrightarrow> walkable e
      \<Longrightarrow> rank (path_join dir (fst e)) < (rank dir :: nat)"
    and "\<And>dir s subs s' p. get_submodule_paths de dir s = (subs, s') \<Longrightarrow> p \<in> set subs \<Longrightarrow> rank p < rank dir"
  shows "rank dir < fuel \<Longrightarrow> \<exists>r. walk de fuel dir st = Some r"
proof (induction fuel arbitrary: dir st)
  case (Suc fuel)
  have visit: "\<exists>r. walk_all (walk de fuel) ds s = Some r" if "\<And>d. d \<in> set ds \<Longrightarrow> rank d < rank dir" for ds s
    by (rule walk_all_total) (use Suc that in fastforce)
  show ?case
  proof (cases "de_readdir de dir (gs_world st)")
    case (Some entries)
    obtain subs st1 where subs: "get_submodule_paths de dir st = (subs, st1)" by fastforce
    have "\<exists>r. walk_all (walk de fuel) subs st1 = Some r" by (rule visit) (rule assms(2)[OF subs])
    moreover have "\<exists>r. walk_all (walk de fuel) (map (\<lambda>e. path_join dir (fst e)) (filter walkable entries)) st = Some r"
      by (rule visit) (use assms(1)[OF Some] in auto)
    ultimately show ?thesis using Some subs by auto
  qed simp
qed simp

text \<open>The search for repositories ends and finds only repositories. If every directory the file system lists and
  every submodule Git reports lies below its parent (some rank decreases, as the depth does in a finite tree
  without cycles), then more fuel than the rank of the root is enough: the walk returns, and every path it
  returns had a \<open>.git\<close> entry when it was read.\<close>

theorem repository_walk_ends:
  assumes "\<And>dir w entries e. de_readdir de dir w = Some entries \<Longrightarrow> e \<in> set entries \<Longrightarrow> walkable e
      \<Longrightarrow> rank (path_join dir (fst e)) < (rank dir :: nat)"
    and "\<And>dir s subs s' p. get_submodule_paths de dir s = (subs, s') \<Longrightarrow> p \<in> set subs \<Longrightarrow> rank p < rank dir"
    and "rank root < fuel"
  shows "\<exists>found st'. find_git_directories_recursively de fuel root st = Some (found, st') \<and>
    (\<forall>d \<in> set found. \<exists>w entries. de_readdir de d w = Some entries \<and> ''.git'' \<in> fst ` set entries)"
proof (cases "de_exists de root (gs_world st)")
  case True
  obtain found st' where "walk de fuel root st = Some (found, st')"
    using walk_total[OF assms] by fastforce
  then show ?thesis using True walk_found[of de fuel root st found st']
    by (auto simp: find_git_directories_recursively_def has_git_entry_def)
qed (simp add: find_git_directories_recursively_def)

subsection \<open>What the models are given\<close>

lemma planning_jobs_of:
  "planning_jobs de rs st = (jobs, st') \<Longrightarrow> job \<in> set jobs \<Longrightarrow>
     \<exists>r \<in> set rs. \<exists>base shown. job = PlanJob (vd_id r) base shown \<and> jb_repository base = vd_path r \<and>
       jb_diffHash base = vd_diffHash r \<and>
       (let maxDiff = nullish (st_maxDiffChars (pe_settings de)) 3000000 in
        if length (vd_diff r) \<le> maxDiff then shown = vd_diff r else prefix (take maxDiff (vd_diff r)) shown)"
proof (induction rs arbitrary: st jobs st')
  case (Cons r rs)
  let ?max = "nullish (st_maxDiffChars (pe_settings de)) 3000000"
  obtain shown st1 where s: "diff_for_llm (pe_git de (vd_path r)) ?max (vd_diff r) st = (shown, st1)" by fastforce
  obtain more_jobs st2 where m: "planning_jobs de rs st1 = (more_jobs, st2)" by fastforce
  have shown: "if length (vd_diff r) \<le> ?max then shown = vd_diff r else prefix (take ?max (vd_diff r)) shown"
    using s by (auto simp: diff_for_llm_def split: prod.splits if_splits)
  from Cons.prems(1,2) s m consider "job \<in> set more_jobs"
    | base where "job = PlanJob (vd_id r) base shown" "jb_repository base = vd_path r" "jb_diffHash base = vd_diffHash r"
    by (auto simp: Let_def)
  then show ?case
  proof cases
    case 1
    from Cons.IH[of st1 more_jobs] m 1 show ?thesis by auto
  next
    case 2
    with shown show ?thesis by (auto simp: Let_def)
  qed
qed simp

lemma checkpoints_of:
  assumes "validate_repositories de rs vp st = (vp', st')" "job \<in> set (vp_checkpoints vp')"
  shows "job \<in> set (vp_checkpoints vp) \<or>
    (\<exists>r \<in> set rs. job = CheckpointJob (ri_id r) (ri_path r) \<and> ri_operation r = PushOnly)"
  using assms
proof (induction rs arbitrary: vp st)
  case (Cons r rs)
  obtain vp1 st1 where v: "validate_repository de r vp st = (vp1, st1)" by fastforce
  have "set (vp_checkpoints vp1) \<subseteq> insert (CheckpointJob (ri_id r) (ri_path r)) (set (vp_checkpoints vp)) \<and>
      (set (vp_checkpoints vp1) \<subseteq> set (vp_checkpoints vp) \<or> ri_operation r = PushOnly)"
    using v by (auto simp: validate_repository_def validation_failed_def split: if_splits option.splits sum.splits prod.splits)
  with Cons.IH[of vp1 st1] Cons.prems v show ?case by auto
qed simp

text \<open>C10. The models plan only what was staged, scanned and can be checked again. For every planning job the first
  phase delegates, Git reported in this very phase that the repository is on a branch and changed, or that one of its
  submodules is; then everything in it was staged, and right after that it printed a nonempty diff in which
  the scanner found no secret. The job carries the digest of that whole diff, and shows the diff itself, or beyond
  the limit a text beginning with its first part. A checkpoint job goes only, and under \<open>autoPush\<close> only, to
  a repository on a branch for which Git reported no change, neither of its own nor in a submodule. Nothing is
  pushed in this phase.\<close>

theorem planning_jobs_are_validated:
  assumes run: "run_discovery_and_validation_phase de fuel repos st = (Inr (DelegatedPlanning jobs repos'), st')"
  shows "\<exists>cs. gs_calls st' = gs_calls st @ cs \<and> filter is_push cs = [] \<and>
    (\<forall>job \<in> set jobs. case job of
       PlanJob i base shown \<Rightarrow> found_dirty (pe_git de (jb_repository base)) cs \<and>
         (\<exists>diff. staged_diff (pe_git de (jb_repository base)) diff cs \<and> \<not> is_blank diff \<and>
            sr_clean (scan_diff diff) \<and> jb_diffHash base = ge_sha256 (pe_git de (jb_repository base)) diff \<and>
            (let maxDiff = nullish (st_maxDiffChars (pe_settings de)) 3000000 in
             if length diff \<le> maxDiff then shown = diff else prefix (take maxDiff diff) shown))
     | CheckpointJob i path \<Rightarrow> st_autoPush (pe_settings de) \<and> found_clean (pe_git de path) cs)"
proof -
  obtain found st0 vp st1 planned where p: "run_discovery de fuel st = (Inr found, st0)"
    "validate_repositories de found \<lparr>vp_valid = [], vp_checkpoints = [], vp_repos = repos\<rparr> st0 = (vp, st1)"
    "planning_jobs de (vp_valid vp) st1 = (planned, st')" "jobs = vp_checkpoints vp @ planned"
    using run by (auto simp: run_discovery_and_validation_phase_def bindE_returns Let_def
        split: if_splits prod.splits)
  have g: "grows st st0" "grows st0 st1" "grows st1 st'"
    using grows_discovery[OF p(1)] grows_validate[OF p(2)] grows_planning[OF p(3)] by blast+
  then obtain cs0 cs1 cs2 where cs: "gs_calls st0 = gs_calls st @ cs0" "gs_calls st1 = gs_calls st0 @ cs1"
    "gs_calls st' = gs_calls st1 @ cs2" "list_all silent (cs0 @ cs1 @ cs2)"
    by (auto simp: grows_def)
  let ?cs = "cs0 @ cs1 @ cs2"
  have found: "well_found de ?cs r" if "r \<in> set found" for r
    using discovery_ok(2)[OF p(1)] that cs(1) well_found_more[of de cs0 r "[]" "cs1 @ cs2"] by (auto simp: logged_def)
  have valid: "\<forall>v \<in> set (vp_valid vp). logged (gs_calls st) st1 (\<lambda>cs. validated de cs v) \<and>
      (\<exists>r \<in> set found. ri_operation r = CommitAndPush \<and> vd_path v = ri_path r)"
    using validate_repositories_valid[OF p(2) _ cs(1)] by simp
  have checked: "validated de ?cs v" if "v \<in> set (vp_valid vp)" for v
    using valid that cs(1,2) validated_more[of de "cs0 @ cs1" v "[]" cs2] by (auto simp: logged_def)
  have "case job of
       PlanJob i base shown \<Rightarrow> found_dirty (pe_git de (jb_repository base)) ?cs \<and>
         (\<exists>diff. staged_diff (pe_git de (jb_repository base)) diff ?cs \<and> \<not> is_blank diff \<and>
            sr_clean (scan_diff diff) \<and> jb_diffHash base = ge_sha256 (pe_git de (jb_repository base)) diff \<and>
            (let maxDiff = nullish (st_maxDiffChars (pe_settings de)) 3000000 in
             if length diff \<le> maxDiff then shown = diff else prefix (take maxDiff diff) shown))
     | CheckpointJob i path \<Rightarrow> st_autoPush (pe_settings de) \<and> found_clean (pe_git de path) ?cs" if "job \<in> set jobs" for job
  proof -
    from that p(4) consider "job \<in> set (vp_checkpoints vp)" | "job \<in> set planned" by auto
    then show ?thesis
    proof cases
      case 1
      then obtain r where "r \<in> set found" "job = CheckpointJob (ri_id r) (ri_path r)" "ri_operation r = PushOnly"
        using checkpoints_of[OF p(2)] by auto
      then show ?thesis using found[of r] by (simp add: well_found_def)
    next
      case 2
      then obtain r base shown where r: "r \<in> set (vp_valid vp)" "job = PlanJob (vd_id r) base shown"
        "jb_repository base = vd_path r" "jb_diffHash base = vd_diffHash r"
        "let maxDiff = nullish (st_maxDiffChars (pe_settings de)) 3000000 in
          if length (vd_diff r) \<le> maxDiff then shown = vd_diff r else prefix (take maxDiff (vd_diff r)) shown"
        using planning_jobs_of[OF p(3)] by blast
      obtain i where "i \<in> set found" "ri_operation i = CommitAndPush" "vd_path r = ri_path i"
        using valid r(1) by blast
      then have "found_dirty (pe_git de (vd_path r)) ?cs" using found[of i] by (simp add: well_found_def)
      then show ?thesis using checked[OF r(1)] r by (auto simp: validated_def Let_def intro!: exI[of _ "vd_diff r"])
    qed
  qed
  moreover have "filter is_push ?cs = []" using cs(4) silent_no_push by blast
  ultimately show ?thesis using cs(1-3) by (intro exI[of _ ?cs]) simp
qed


subsection \<open>A concrete discovery\<close>

text \<open>A home directory with one repository, whose worktree is dirty.\<close>

definition home_git :: "process_config \<Rightarrow> string list \<Rightarrow> bool \<Rightarrow> (git_failure + string) \<times> bool" where
  "home_git cfg args w =
     (if args = [''rev-parse'', ''HEAD''] then (Inr (replicate 40 (CHR ''a'')), w)
      else if hd args = ''ls-remote'' then (Inr (replicate 40 (CHR ''b'') @ '' refs/heads/main''), w)
      else if hd args = ''rev-list'' then (Inr (replicate 40 (CHR ''a'')), w)
      else (Inl (git_error ''no''), w))"

definition home_env :: "bool git_env" where
  "home_env = sample_git_env\<lparr>ge_git := home_git, ge_sha256 := (\<lambda>_. replicate 64 (CHR ''c'')), ge_shell := (\<lambda>command w.
     (if command = ''git symbolic-ref --quiet --short HEAD'' then Inr ''main''
      else if command = ''git status --porcelain'' then Inr ''M a''
      else if command = ''git diff --cached'' then Inr ''+ok''
      else if command = ''git worktree list --porcelain'' then Inl (git_error ''old git'')
      else Inr [], w))\<rparr>"

definition home_disc :: "bool disc_env" where
  "home_disc = \<lparr>pe_git = (\<lambda>_. home_env), pe_files = (\<lambda>_ _. no_files), pe_hash = sample_hash,
     pe_settings = pushing_settings\<lparr>st_searchPaths := [''/h'']\<rparr>, pe_prompt = [],
     de_readdir = (\<lambda>dir _. if dir = ''/h'' then Some [(''r'', True), (''.cache'', True)]
                   else if dir = ''/h/r'' then Some [(''.git'', True)] else None),
     de_exists = (\<lambda>p _. p = ''/h'' \<or> p = ''/h/r''), de_realpath = (\<lambda>p _. Some p), de_home = ''/h''\<rparr>"

definition home_rank :: "string \<Rightarrow> nat" where
  "home_rank dir = (if dir = ''/h'' then 1 else 0)"

lemma home_submodules: "get_submodule_paths home_disc dir s = (subs, s') \<Longrightarrow> subs = []"
proof -
  have "List.map_filter gitlink_path (split_on (CHR 0x0A) []) = []" by code_simp
  then show "get_submodule_paths home_disc dir s = (subs, s') \<Longrightarrow> subs = []"
    by (auto simp: get_submodule_paths_def git_exec_def exec_shell_def home_disc_def home_env_def trim_def
        trim_start_def)
qed

theorem repository_walk_ends_witness:
  "\<exists>found st'. find_git_directories_recursively home_disc 2 ''/h'' sample_git_state = Some (found, st')"
proof -
  have join: "path_join ''/h'' ''r'' = ''/h/r''" by code_simp
  have down: "home_rank (path_join dir (fst e)) < home_rank dir"
    if r: "de_readdir home_disc dir w = Some entries" "e \<in> set entries" "walkable e" for dir w entries e
  proof -
    have "\<not> walkable (''.cache'', True)" "\<not> walkable (''.git'', True)" by code_simp+
    then have "dir = ''/h''" "fst e = ''r''" using r by (auto simp: home_disc_def split: if_splits)
    then show ?thesis by (simp add: home_rank_def join)
  qed
  have sub: "home_rank p < home_rank dir"
    if "get_submodule_paths home_disc dir s = (subs, s')" "p \<in> set subs" for dir s subs s' p
    using that home_submodules by fastforce
  have "home_rank ''/h'' < 2" by (simp add: home_rank_def)
  have "\<exists>found st'. find_git_directories_recursively home_disc 2 ''/h'' sample_git_state = Some (found, st') \<and>
    (\<forall>d \<in> set found. \<exists>w entries. de_readdir home_disc d w = Some entries \<and> ''.git'' \<in> fst ` set entries)"
    by (rule repository_walk_ends[of home_disc home_rank]) (use down sub \<open>home_rank ''/h'' < 2\<close> in blast)+
  then show ?thesis by blast
qed


lemma home_discovery:
  "\<exists>r st. run_discovery home_disc 2 sample_git_state = (Inr [r], st) \<and> ri_path r = ''/h/r'' \<and>
     ri_operation r = CommitAndPush"
proof -
  have "case run_discovery home_disc 2 sample_git_state of (r, st) \<Rightarrow>
      map_sum id (map (\<lambda>r. (ri_path r, ri_operation r))) r = Inr [(''/h/r'', CommitAndPush)]"
    by code_simp
  then show ?thesis
    by (cases "run_discovery home_disc 2 sample_git_state") (auto simp: map_sum_def split: sum.splits)
qed

theorem discovery_orders_nested_first_witness:
  "\<exists>found st. run_discovery home_disc 2 sample_git_state = (Inr found, st) \<and> found \<noteq> [] \<and>
     distinct (map ri_path found) \<and> filter is_push (gs_calls st) = []"
proof -
  obtain r st where run: "run_discovery home_disc 2 sample_git_state = (Inr [r], st)"
    using home_discovery by blast
  have "gs_calls sample_git_state = []" by (simp add: sample_git_state_def)
  with discovery_orders_nested_first[OF run] run show ?thesis by auto
qed

lemma home_phase:
  "\<exists>i base shown repos st. run_discovery_and_validation_phase home_disc 2 [] sample_git_state
     = (Inr (DelegatedPlanning [PlanJob i base shown] repos), st)"
proof -
  obtain r st where run: "run_discovery home_disc 2 sample_git_state = (Inr [r], st)"
    "ri_path r = ''/h/r''" "ri_operation r = CommitAndPush" using home_discovery by blast
  have "sr_clean (scan_diff ''+ok'')" "\<not> is_blank ''+ok''" by code_simp+
  moreover from this have "(validate_diff_for_secrets ''+ok'' :: (string, unit, bool) git_m) = ret ()"
    by (simp add: validate_diff_for_secrets_def Let_def)
  ultimately have "\<exists>st'. process_repo_validation_and_diff home_env (\<lambda>_. no_files)
      (pushing_settings\<lparr>st_searchPaths := [''/h'']\<rparr>) ''/h/r'' st = (Inr (''+ok'', replicate 64 (CHR ''c'')), st')"
    by (simp add: process_repo_validation_and_diff_def bindE_def lift_run ret_def exec_shell_def SUBMODULE_ADD_def
        pushing_settings_def home_env_def)
  then show ?thesis using run
    by (fastforce simp: run_discovery_and_validation_phase_def bindE_def validate_repository_def home_disc_def
        diff_for_llm_def nullish_def pushing_settings_def Let_def)
qed

theorem planning_jobs_are_validated_witness:
  "\<exists>i base shown repos st. run_discovery_and_validation_phase home_disc 2 [] sample_git_state
     = (Inr (DelegatedPlanning [PlanJob i base shown] repos), st) \<and> filter is_push (gs_calls st) = [] \<and>
     found_dirty home_env (gs_calls st) \<and> (\<exists>diff. staged_diff home_env diff (gs_calls st))"
proof -
  obtain i base shown repos st where run: "run_discovery_and_validation_phase home_disc 2 [] sample_git_state
     = (Inr (DelegatedPlanning [PlanJob i base shown] repos), st)" using home_phase by blast
  have "gs_calls sample_git_state = []" "pe_git home_disc p = home_env" for p
    by (simp_all add: sample_git_state_def home_disc_def)
  with planning_jobs_are_validated[OF run] run show ?thesis by fastforce
qed

end
