(* ===== verification/Legacy_Queue.thy ===== *)
theory Legacy_Queue
  imports Control_Protocol JS_Regex
begin

text \<open>
  The artifacts of the retired file queue, \<open>src/src/modules/reconciliation/legacy-queue-state.ts\<close>: their
  inspection before admission and their archival by the owner. The state directory is a table of names and a
  table of files (what an inode number denotes); before every file-system call other processes may change both
  (\<open>lq_others\<close>, by the number of the call). A path is written relative to the state directory.
  \<open>JSON.parse\<close>, SHA-256, \<open>localeCompare\<close>, the clock and \<open>randomUUID\<close> are parameters.
\<close>

subsection \<open>Files\<close>

record file_node =
  fn_isFile :: bool
  fn_opens :: bool \<comment> \<open>\<open>O_RDONLY | O_NOFOLLOW\<close> succeeds\<close>
  fn_device :: int
  fn_modified :: int
  fn_contents :: string

datatype directory_status = DirectoryAbsent | NotADirectory | DirectoryUnreadable string | DirectoryListed

record state_dir =
  sd_status :: directory_status
  sd_names :: "(string \<times> nat) list"
  sd_nodes :: "nat \<Rightarrow> file_node option"

record artifact_evidence =
  ev_path :: string
  ev_device :: int
  ev_inode :: nat
  ev_size :: nat
  ev_modified :: int
  ev_sha256 :: string

datatype lock_classification = LockNone | LockLive | LockStale | LockMalformed

record queue_inspection =
  qi_lock :: lock_classification
  qi_lockEvidence :: "artifact_evidence option"
  qi_orders :: "artifact_evidence list"

record queue_env =
  qe_others :: "nat \<Rightarrow> state_dir \<Rightarrow> state_dir"
  qe_json :: "string \<Rightarrow> js_value option"
  qe_sha256 :: "string \<Rightarrow> string"
  qe_before :: "string \<Rightarrow> string \<Rightarrow> bool" \<comment> \<open>\<open>a.localeCompare(b) <= 0\<close>\<close>
  qe_finite :: "string \<Rightarrow> bool" \<comment> \<open>the timestamp of this text, when it is no integer, is finite\<close>
  qe_uuid :: "nat \<Rightarrow> string"
  qe_now :: "nat \<Rightarrow> int"

text \<open>\<open>qs_moved\<close>: the evidence whose path was renamed, the name it was renamed to, and what was read back.\<close>

record queue_state =
  qs_dir :: state_dir
  qs_step :: nat
  qs_moved :: "(artifact_evidence \<times> string \<times> artifact_evidence option) list"

definition others_act :: "queue_env \<Rightarrow> queue_state \<Rightarrow> queue_state" where
  "others_act env st = st\<lparr>qs_dir := qe_others env (qs_step st) (qs_dir st), qs_step := Suc (qs_step st)\<rparr>"

definition node_at :: "nat \<Rightarrow> queue_state \<Rightarrow> file_node option" where
  "node_at i st = sd_nodes (qs_dir st) i"

datatype read_error = NoEntry | Unreadable string

text \<open>\<open>readRegularFile\<close>: the descriptor denotes the inode found at \<open>openSync\<close>, whatever the name denotes later;
  \<open>fstat\<close>, read and \<open>fstat\<close> are three calls.\<close>

definition evidence_of :: "queue_env \<Rightarrow> string \<Rightarrow> nat \<Rightarrow> file_node \<Rightarrow> string \<Rightarrow> artifact_evidence" where
  "evidence_of env p i node contents =
     \<lparr>ev_path = p, ev_device = fn_device node, ev_inode = i, ev_size = length (fn_contents node),
      ev_modified = fn_modified node, ev_sha256 = qe_sha256 env contents\<rparr>"

definition read_descriptor ::
  "queue_env \<Rightarrow> string \<Rightarrow> nat \<Rightarrow> queue_state \<Rightarrow> (read_error + string \<times> artifact_evidence) \<times> queue_state" where
  "read_descriptor env p i st =
     (let st1 = others_act env st in
      case node_at i st1 of
        None \<Rightarrow> (Inl (Unreadable ''fstat failed''), st1)
      | Some before \<Rightarrow>
          if \<not> fn_isFile before then (Inl (Unreadable ''artifact is not a regular file''), st1)
          else let st2 = others_act env st1; st3 = others_act env st2 in
            (case (node_at i st2, node_at i st3) of
               (Some read, Some after) \<Rightarrow>
                 if fn_device before \<noteq> fn_device after \<or> length (fn_contents before) \<noteq> length (fn_contents after)
                    \<or> fn_modified before \<noteq> fn_modified after \<or> length (fn_contents read) \<noteq> length (fn_contents after)
                 then (Inl (Unreadable ''artifact changed while it was being inspected''), st3)
                 else (Inr (fn_contents read, evidence_of env p i after (fn_contents read)), st3)
             | _ \<Rightarrow> (Inl (Unreadable ''read failed''), st3)))"

definition read_regular_file ::
  "queue_env \<Rightarrow> string \<Rightarrow> queue_state \<Rightarrow> (read_error + string \<times> artifact_evidence) \<times> queue_state" where
  "read_regular_file env p st =
     (let st1 = others_act env st in
      case map_of (sd_names (qs_dir st1)) p of
        None \<Rightarrow> (Inl NoEntry, st1)
      | Some i \<Rightarrow>
          (case node_at i st1 of
             None \<Rightarrow> (Inl NoEntry, st1)
           | Some node \<Rightarrow>
               if \<not> fn_opens node then (Inl (Unreadable ''cannot open''), st1)
               else read_descriptor env p i st1))"

subsection \<open>Orders\<close>

definition LEGACY_LOCK_FILE_NAME :: string where "LEGACY_LOCK_FILE_NAME = ''running.lock''"

definition LEGACY_QUEUE_LOCK_STALE_AFTER_MS :: int where "LEGACY_QUEUE_LOCK_STALE_AFTER_MS = 40000"

definition is_alnum :: "char \<Rightarrow> bool" where
  "is_alnum c \<longleftrightarrow> is_letter c \<or> is_digit c"

definition LEGACY_ORDER_FILE_PATTERN :: rx where
  "LEGACY_ORDER_FILE_PATTERN = rx_seq [AtStart, rx_lit ''order-'', rx_plus rx_digit, rx_chr (CHR ''-''),
     Cls is_alnum, Star (Cls (\<lambda>c. is_alnum c \<or> c \<in> set ''._-'')), rx_chr (CHR ''.''),
     rx_any [rx_lit ''json'', rx_lit ''flag''], AtEnd]"

definition is_legacy_queue_artifact_name :: "string \<Rightarrow> bool" where
  "is_legacy_queue_artifact_name fileName \<longleftrightarrow>
     fileName = LEGACY_LOCK_FILE_NAME \<or> rx_test LEGACY_ORDER_FILE_PATTERN fileName"

text \<open>\<open>isRecord\<close> of this module excludes arrays.\<close>

definition is_json_object :: "js_value \<Rightarrow> bool" where
  "is_json_object v = (case v of JObject _ \<Rightarrow> True | _ \<Rightarrow> False)"

definition has_json_extension :: "string \<Rightarrow> bool" where
  "has_json_extension p \<longleftrightarrow> drop (length p - 5) p = ''.json''"

definition order_failure :: "string \<Rightarrow> string \<Rightarrow> string" where
  "order_failure p m = ''Legacy order artifact is malformed or unreadable: '' @ p @ '': '' @ m"

fun read_error_message :: "read_error \<Rightarrow> string" where
  "read_error_message NoEntry = ''ENOENT''"
| "read_error_message (Unreadable m) = m"

definition read_legacy_order_evidence ::
  "queue_env \<Rightarrow> string \<Rightarrow> queue_state \<Rightarrow> (string + artifact_evidence) \<times> queue_state" where
  "read_legacy_order_evidence env p st =
     (if \<not> rx_test LEGACY_ORDER_FILE_PATTERN p
      then (Inl (order_failure p ''artifact name does not match the legacy queue format''), st)
      else case read_regular_file env p st of
        (Inl e, st1) \<Rightarrow> (Inl (order_failure p (read_error_message e)), st1)
      | (Inr (contents, evidence), st1) \<Rightarrow>
          (if has_json_extension p then
             (case qe_json env contents of
                None \<Rightarrow> Inl (order_failure p ''invalid JSON'')
              | Some v \<Rightarrow> if is_json_object v then Inr evidence
                         else Inl (order_failure p ''JSON artifact is not an object''))
           else Inr evidence, st1))"

fun read_orders ::
  "queue_env \<Rightarrow> string list \<Rightarrow> queue_state \<Rightarrow> (string + artifact_evidence list) \<times> queue_state" where
  "read_orders env [] st = (Inr [], st)"
| "read_orders env (p # ps) st =
     (case read_legacy_order_evidence env p st of
        (Inl e, st1) \<Rightarrow> (Inl e, st1)
      | (Inr evidence, st1) \<Rightarrow>
          (case read_orders env ps st1 of
             (Inl e, st2) \<Rightarrow> (Inl e, st2)
           | (Inr rest, st2) \<Rightarrow> (Inr (evidence # rest), st2)))"

subsection \<open>The lock\<close>

definition lock_fields_valid :: "queue_env \<Rightarrow> string \<Rightarrow> js_value \<Rightarrow> bool" where
  "lock_fields_valid env contents v \<longleftrightarrow> is_json_object v \<and>
     (case get_prop v ''runId'' of JString _ \<Rightarrow> True | _ \<Rightarrow> False) \<and>
     (case get_prop v ''callerName'' of JString _ \<Rightarrow> True | _ \<Rightarrow> False) \<and>
     (case get_prop v ''timestamp'' of JInt _ \<Rightarrow> True | JNonInteger \<Rightarrow> qe_finite env contents | _ \<Rightarrow> False)"

definition classify_legacy_lock ::
  "queue_env \<Rightarrow> int \<Rightarrow> queue_state \<Rightarrow> (lock_classification \<times> artifact_evidence option) \<times> queue_state" where
  "classify_legacy_lock env nowEpochMs st =
     (case read_regular_file env LEGACY_LOCK_FILE_NAME st of
        (Inl NoEntry, st1) \<Rightarrow> ((LockNone, None), st1)
      | (Inl _, st1) \<Rightarrow> ((LockMalformed, None), st1)
      | (Inr (contents, evidence), st1) \<Rightarrow>
          ((case qe_json env contents of
              None \<Rightarrow> (LockMalformed, Some evidence)
            | Some v \<Rightarrow>
                if \<not> lock_fields_valid env contents v then (LockMalformed, Some evidence)
                else if nowEpochMs - ev_modified evidence \<le> LEGACY_QUEUE_LOCK_STALE_AFTER_MS
                then (LockLive, Some evidence) else (LockStale, Some evidence)), st1))"

subsection \<open>Inspection\<close>

definition no_artifacts :: queue_inspection where
  "no_artifacts = \<lparr>qi_lock = LockNone, qi_lockEvidence = None, qi_orders = []\<rparr>"

definition inspect_entries ::
  "queue_env \<Rightarrow> int \<Rightarrow> string list \<Rightarrow> queue_state \<Rightarrow> (string + queue_inspection) \<times> queue_state" where
  "inspect_entries env nowEpochMs entries st =
     (case (if LEGACY_LOCK_FILE_NAME \<in> set entries then classify_legacy_lock env nowEpochMs st
            else ((LockNone, None), st)) of
        ((lock, lockEvidence), st1) \<Rightarrow>
          (case read_orders env (filter (starts_with ''order-'') entries) st1 of
             (Inl e, st2) \<Rightarrow> (Inl e, st2)
           | (Inr orders, st2) \<Rightarrow>
               (Inr \<lparr>qi_lock = lock, qi_lockEvidence = lockEvidence,
                     qi_orders = sort_by (\<lambda>a b. qe_before env (ev_path a) (ev_path b)) orders\<rparr>, st2)))"

definition inspect_legacy_queue_state ::
  "queue_env \<Rightarrow> queue_state \<Rightarrow> (string + queue_inspection) \<times> queue_state" where
  "inspect_legacy_queue_state env st =
     (let nowEpochMs = qe_now env (qs_step st); st1 = others_act env st in
      case sd_status (qs_dir st1) of
        DirectoryAbsent \<Rightarrow> (Inr no_artifacts, st1)
      | NotADirectory \<Rightarrow> (Inl ''Reconciliation state directory is unreadable: configured state path is not a directory'', st1)
      | DirectoryUnreadable m \<Rightarrow> (Inl (''Reconciliation state directory is unreadable: '' @ m), st1)
      | DirectoryListed \<Rightarrow>
          (let st2 = others_act env st1
           in inspect_entries env nowEpochMs (map fst (sd_names (qs_dir st2))) st2))"

subsection \<open>Archival\<close>

definition all_evidence :: "queue_inspection \<Rightarrow> artifact_evidence list" where
  "all_evidence q = (case qi_lockEvidence q of None \<Rightarrow> [] | Some e \<Rightarrow> [e]) @ qi_orders q"

definition evidence_matches :: "artifact_evidence option \<Rightarrow> artifact_evidence option \<Rightarrow> bool" where
  "evidence_matches l r =
     (case (l, r) of
        (Some a, Some b) \<Rightarrow> ev_path a = ev_path b \<and> ev_device a = ev_device b \<and> ev_inode a = ev_inode b
          \<and> ev_size a = ev_size b \<and> ev_modified a = ev_modified b \<and> ev_sha256 a = ev_sha256 b
      | (None, None) \<Rightarrow> True
      | _ \<Rightarrow> False)"

definition inspection_is_compatible_for_cleanup :: "queue_inspection \<Rightarrow> queue_inspection \<Rightarrow> bool" where
  "inspection_is_compatible_for_cleanup expected current \<longleftrightarrow>
     list_all (\<lambda>entry. list_ex (\<lambda>candidate. evidence_matches (Some candidate) (Some entry)) (all_evidence expected))
       (all_evidence current)"

definition archive_name :: "queue_env \<Rightarrow> string \<Rightarrow> queue_state \<Rightarrow> string" where
  "archive_name env p st = ''.gcp-migrated-'' @ p @ ''-'' @ qe_uuid env (qs_step st)"

definition rename_entry :: "string \<Rightarrow> string \<Rightarrow> state_dir \<Rightarrow> state_dir option" where
  "rename_entry a b d =
     (case map_of (sd_names d) a of
        None \<Rightarrow> None
      | Some i \<Rightarrow> Some (d\<lparr>sd_names := filter (\<lambda>(n, _). n \<noteq> a \<and> n \<noteq> b) (sd_names d) @ [(b, i)]\<rparr>))"

definition archive_exact_artifact ::
  "queue_env \<Rightarrow> artifact_evidence \<Rightarrow> queue_state \<Rightarrow> (string + unit) \<times> queue_state" where
  "archive_exact_artifact env evidence st =
     (let archive = archive_name env (ev_path evidence) st; st1 = others_act env st in
      case rename_entry (ev_path evidence) archive (qs_dir st1) of
        None \<Rightarrow> (Inl ''rename failed'', st1)
      | Some d \<Rightarrow>
          (case read_regular_file env archive (st1\<lparr>qs_dir := d\<rparr>) of
             (Inl _, st2) \<Rightarrow>
               (Inl ''moved legacy artifact cannot be verified'',
                st2\<lparr>qs_moved := qs_moved st2 @ [(evidence, archive, None)]\<rparr>)
           | (Inr (_, movedEvidence), st2) \<Rightarrow>
               (let st3 = st2\<lparr>qs_moved := qs_moved st2 @ [(evidence, archive, Some movedEvidence)]\<rparr>
                in if \<not> evidence_matches (Some (evidence\<lparr>ev_path := archive\<rparr>)) (Some movedEvidence)
                   then (Inl ''legacy artifact changed before archival'', st3) else (Inr (), st3))))"

fun archive_all ::
  "queue_env \<Rightarrow> artifact_evidence list \<Rightarrow> queue_state \<Rightarrow> (string + unit) \<times> queue_state" where
  "archive_all env [] st = (Inr (), st)"
| "archive_all env (e # es) st =
     (case archive_exact_artifact env e st of
        (Inl m, st1) \<Rightarrow> (Inl m, st1)
      | (Inr _, st1) \<Rightarrow> archive_all env es st1)"

definition delete_legacy_queue_artifacts ::
  "queue_env \<Rightarrow> queue_inspection \<Rightarrow> queue_state \<Rightarrow> (string + unit) \<times> queue_state" where
  "delete_legacy_queue_artifacts env expected st =
     (case inspect_legacy_queue_state env st of
        (Inl e, st1) \<Rightarrow> (Inl e, st1)
      | (Inr current, st1) \<Rightarrow>
          if \<not> inspection_is_compatible_for_cleanup expected current
          then (Inl ''legacy queue state changed after reconciliation admission'', st1)
          else (case archive_all env
                  (qi_orders current @ (case qi_lockEvidence current of None \<Rightarrow> [] | Some e \<Rightarrow> [e])) st1 of
            (Inl e, st2) \<Rightarrow> (Inl e, st2)
          | (Inr _, st2) \<Rightarrow>
              (case inspect_legacy_queue_state env st2 of
                 (Inl e, st3) \<Rightarrow> (Inl e, st3)
               | (Inr remaining, st3) \<Rightarrow>
                   if qi_lock remaining \<noteq> LockNone \<or> qi_orders remaining \<noteq> []
                   then (Inl ''legacy queue state changed during reconciliation cleanup'', st3)
                   else (Inr (), st3))))"


subsection \<open>Only what was inspected is moved\<close>

lemma others_moved [simp]: "qs_moved (others_act env st) = qs_moved st"
  by (simp add: others_act_def)

lemma read_moved: "read_regular_file env p st = (r, st') \<Longrightarrow> qs_moved st' = qs_moved st"
  by (auto simp: read_regular_file_def read_descriptor_def Let_def split: option.splits if_splits prod.splits)

lemma order_moved: "read_legacy_order_evidence env p st = (r, st') \<Longrightarrow> qs_moved st' = qs_moved st"
  by (auto simp: read_legacy_order_evidence_def dest: read_moved split: if_splits prod.splits sum.splits)

lemma orders_moved: "read_orders env ps st = (r, st') \<Longrightarrow> qs_moved st' = qs_moved st"
  by (induction ps arbitrary: st r) (auto dest!: order_moved split: prod.splits sum.splits)

lemma classify_moved: "classify_legacy_lock env now st = (r, st') \<Longrightarrow> qs_moved st' = qs_moved st"
  by (auto simp: classify_legacy_lock_def dest: read_moved split: prod.splits sum.splits read_error.splits)

lemma inspect_moved: "inspect_legacy_queue_state env st = (r, st') \<Longrightarrow> qs_moved st' = qs_moved st"
  by (auto simp: inspect_legacy_queue_state_def inspect_entries_def Let_def
      dest!: classify_moved orders_moved split: directory_status.splits prod.splits sum.splits if_splits)

lemma evidence_matches_iff: "evidence_matches (Some a) (Some b) \<longleftrightarrow> a = b"
  by (cases a; cases b) (auto simp: evidence_matches_def)

lemma compatible_iff:
  "inspection_is_compatible_for_cleanup expected current \<longleftrightarrow> set (all_evidence current) \<subseteq> set (all_evidence expected)"
  by (auto simp: inspection_is_compatible_for_cleanup_def evidence_matches_iff list_all_iff list_ex_iff)

text \<open>A move that was confirmed: what was read back under the new name is the file of the evidence.\<close>

definition confirmed_move :: "artifact_evidence \<times> string \<times> artifact_evidence option \<Rightarrow> bool" where
  "confirmed_move m = (case m of (evidence, archive, moved) \<Rightarrow> moved = Some (evidence\<lparr>ev_path := archive\<rparr>))"

lemma archive_one:
  assumes "archive_exact_artifact env e st = (r, st')"
  shows "\<exists>ms. qs_moved st' = qs_moved st @ ms \<and> length ms \<le> 1 \<and> (\<forall>m \<in> set ms. fst m = e) \<and>
    (r = Inr () \<longrightarrow> (\<forall>m \<in> set ms. confirmed_move m))"
  using assms
  by (auto simp: archive_exact_artifact_def Let_def confirmed_move_def evidence_matches_iff dest!: read_moved
      split: option.splits prod.splits sum.splits if_splits)

lemma archive_all_moves:
  "archive_all env es st = (r, st') \<Longrightarrow>
     \<exists>ms. qs_moved st' = qs_moved st @ ms \<and> fst ` set ms \<subseteq> set es \<and>
       (\<forall>m \<in> set (if r = Inr () then ms else butlast ms). confirmed_move m)"
proof (induction es arbitrary: st r)
  case (Cons e es)
  obtain r1 st1 where a: "archive_exact_artifact env e st = (r1, st1)" by fastforce
  obtain ms1 where ms1: "qs_moved st1 = qs_moved st @ ms1" "length ms1 \<le> 1" "\<forall>m \<in> set ms1. fst m = e"
    "r1 = Inr () \<longrightarrow> (\<forall>m \<in> set ms1. confirmed_move m)" using archive_one[OF a] by blast
  show ?case
  proof (cases r1)
    case (Inl m)
    then have "r = Inl m" "st' = st1" using Cons.prems a by auto
    moreover have "butlast ms1 = []" using ms1(2) by (cases ms1) auto
    ultimately show ?thesis using ms1 by (intro exI[of _ ms1]) auto
  next
    case (Inr u)
    then have ok: "\<forall>m \<in> set ms1. confirmed_move m" using ms1(4) by simp
    have "archive_all env es st1 = (r, st')" using Cons.prems a Inr by simp
    from Cons.IH[OF this] obtain ms2 where ms2: "qs_moved st' = qs_moved st1 @ ms2" "fst ` set ms2 \<subseteq> set es"
      "\<forall>m \<in> set (if r = Inr () then ms2 else butlast ms2). confirmed_move m" by blast
    have "\<forall>m \<in> set (if r = Inr () then ms1 @ ms2 else butlast (ms1 @ ms2)). confirmed_move m"
      using ok ms2(3) by (auto simp: butlast_append split: if_splits dest: in_set_butlastD)
    then show ?thesis using ms1(1,3) ms2(1,2) by (intro exI[of _ "ms1 @ ms2"]) auto
  qed
qed simp

text \<open>C31. Cleaning up the legacy queue moves only what was inspected before admission. Whatever other processes do
  to the directory between any two calls, every file the cleanup renames was named by an evidence of the earlier
  inspection; every rename before the last one, and the last one too unless the cleanup fails, moved exactly
  the file of that evidence (same device, inode, size, modification time and digest, read back under the new
  name); and the cleanup succeeds only if a final inspection found neither a lock nor an order.\<close>

theorem legacy_cleanup_is_exact:
  assumes run: "delete_legacy_queue_artifacts env expected st = (r, st')"
  shows "\<exists>ms. qs_moved st' = qs_moved st @ ms \<and> fst ` set ms \<subseteq> set (all_evidence expected) \<and>
    (\<forall>m \<in> set (if r = Inr () then ms else butlast ms). case m of (evidence, archive, moved) \<Rightarrow>
       moved = Some (evidence\<lparr>ev_path := archive\<rparr>)) \<and>
    (r = Inr () \<longrightarrow> (\<exists>st2 remaining. inspect_legacy_queue_state env st2 = (Inr remaining, st') \<and>
       qi_lock remaining = LockNone \<and> qi_orders remaining = []))"
proof -
  obtain r1 st1 where i1: "inspect_legacy_queue_state env st = (r1, st1)" by fastforce
  have m1: "qs_moved st1 = qs_moved st" by (rule inspect_moved[OF i1])
  show ?thesis
  proof (cases "\<exists>current. r1 = Inr current \<and> inspection_is_compatible_for_cleanup expected current")
    case False
    then have "st' = st1 \<and> (\<exists>e. r = Inl e)"
      using run i1 by (auto simp: delete_legacy_queue_artifacts_def split: sum.splits)
    then show ?thesis using m1 by (intro exI[of _ "[]"]) auto
  next
    case True
    then obtain current where c: "r1 = Inr current" "set (all_evidence current) \<subseteq> set (all_evidence expected)"
      "inspection_is_compatible_for_cleanup expected current" using compatible_iff by blast
    let ?es = "qi_orders current @ (case qi_lockEvidence current of None \<Rightarrow> [] | Some e \<Rightarrow> [e])"
    have es: "set ?es \<subseteq> set (all_evidence expected)" using c(2) by (auto simp: all_evidence_def)
    obtain r2 st2 where a: "archive_all env ?es st1 = (r2, st2)" by fastforce
    obtain ms where ms: "qs_moved st2 = qs_moved st1 @ ms" "fst ` set ms \<subseteq> set ?es"
      "\<forall>m \<in> set (if r2 = Inr () then ms else butlast ms). confirmed_move m"
      using archive_all_moves[OF a] by blast
    obtain r3 st3 where i3: "inspect_legacy_queue_state env st2 = (r3, st3)" by fastforce
    have m3: "qs_moved st3 = qs_moved st2" by (rule inspect_moved[OF i3])
    have end_state: "qs_moved st' = qs_moved st2" "r = Inr () \<Longrightarrow> r2 = Inr ()"
      "r = Inr () \<Longrightarrow> \<exists>remaining. r3 = Inr remaining \<and> st' = st3 \<and> qi_lock remaining = LockNone \<and> qi_orders remaining = []"
      using run i1 c a i3 m3
      by (auto simp: delete_legacy_queue_artifacts_def split: sum.splits if_splits)
    have "\<forall>m \<in> set (if r = Inr () then ms else butlast ms). confirmed_move m"
      using ms(3) end_state(2) by (auto split: if_splits dest: in_set_butlastD)
    then show ?thesis
      using m1 ms(1,2) es end_state i3
      by (intro exI[of _ ms]) (auto simp: confirmed_move_def)
  qed
qed

text \<open>A directory with one old lock, which is archived.\<close>

definition quiet_queue :: queue_env where
  "quiet_queue = \<lparr>qe_others = (\<lambda>_ d. d),
     qe_json = (\<lambda>_. Some (JObject [(''runId'', JString ''r''), (''callerName'', JString ''c''), (''timestamp'', JInt 1)])),
     qe_sha256 = id, qe_before = (\<lambda>_ _. True), qe_finite = (\<lambda>_. True), qe_uuid = (\<lambda>_. ''u''), qe_now = (\<lambda>_. 100000)\<rparr>"

definition locked_dir :: queue_state where
  "locked_dir = \<lparr>qs_dir = \<lparr>sd_status = DirectoryListed, sd_names = [(''running.lock'', 7)],
     sd_nodes = (\<lambda>i. if i = 7 then Some \<lparr>fn_isFile = True, fn_opens = True, fn_device = 1, fn_modified = 5,
       fn_contents = ''{}''\<rparr> else None)\<rparr>, qs_step = 0, qs_moved = []\<rparr>"

definition old_lock :: artifact_evidence where
  "old_lock = \<lparr>ev_path = ''running.lock'', ev_device = 1, ev_inode = 7, ev_size = 2, ev_modified = 5, ev_sha256 = ''{}''\<rparr>"

lemma locked_dir_inspection:
  "fst (inspect_legacy_queue_state quiet_queue locked_dir) =
     Inr \<lparr>qi_lock = LockStale, qi_lockEvidence = Some old_lock, qi_orders = []\<rparr>"
  by code_simp

theorem legacy_cleanup_is_exact_witness:
  "\<exists>st'. delete_legacy_queue_artifacts quiet_queue
      \<lparr>qi_lock = LockStale, qi_lockEvidence = Some old_lock, qi_orders = []\<rparr> locked_dir = (Inr (), st') \<and>
     (\<forall>m \<in> set (qs_moved st'). fst m = old_lock)"
proof -
  let ?run = "delete_legacy_queue_artifacts quiet_queue
      \<lparr>qi_lock = LockStale, qi_lockEvidence = Some old_lock, qi_orders = []\<rparr> locked_dir"
  have "fst ?run = Inr ()" by code_simp
  then obtain st' where run: "?run = (Inr (), st')" by (metis prod.collapse)
  have "qs_moved locked_dir = []" by (simp add: locked_dir_def)
  with legacy_cleanup_is_exact[OF run] run show ?thesis by (auto simp: all_evidence_def)
qed

end
