(* ===== verification/Reconciler_Db.thy ===== *)
theory Reconciler_Db
  imports Coordinator_Spec Posix_Paths
begin

text \<open>
  Opening the coordinator's database, \<open>src/src/modules/reconciliation/reconciler-db.ts\<close>. The file is its
  schema version, its tables and its rows; other processes may change it before every statement. What SQLite
  answers to the statements that can fail is a parameter.
\<close>

subsection \<open>Data\<close>

definition RECONCILER_SCHEMA_VERSION :: int where "RECONCILER_SCHEMA_VERSION = 3"
definition RECONCILER_STATE_TABLE :: string where "RECONCILER_STATE_TABLE = ''reconciler_state''"

record db_file =
  df_version :: int
  df_tables :: "string list"
  df_rows :: db

datatype open_error = OpenMissing string | OpenCorrupt string | IncompatibleSchema string

datatype file_stat = StatFails string | StatMissing | StatRegular | StatOther

datatype wal_answer = WalOn | WalBusy | WalFails string

text \<open>\<open>oe_others i\<close> acts before the \<open>i\<close>-th observation; \<open>oe_initialize\<close> is a failure of one of the statements
  between \<open>BEGIN IMMEDIATE\<close> and \<open>COMMIT\<close>.\<close>

record open_env =
  oe_path :: string
  oe_stat :: file_stat
  oe_connect :: "string option"
  oe_pragma :: "string option"
  oe_wal :: "nat \<Rightarrow> wal_answer"
  oe_others :: "nat \<Rightarrow> db_file \<Rightarrow> db_file"
  oe_initialize :: "string option"

subsection \<open>Schema\<close>

definition assert_compatible_schema :: "string \<Rightarrow> int \<Rightarrow> string list \<Rightarrow> open_error option" where
  "assert_compatible_schema dbPath userVersion tables =
     (if userVersion \<noteq> RECONCILER_SCHEMA_VERSION
      then Some (IncompatibleSchema (''Reconciler database at '' @ dbPath @ '' declares schema version ''
        @ show_int userVersion @ '', but this runtime only supports version '' @ show_int RECONCILER_SCHEMA_VERSION
        @ ''.'' @ (if userVersion = 2 then '' Schema version 2 has no durable active-execution identity and cannot be reinterpreted safely. Perform the documented offline migration only after proving that no old execution tree survives.'' else [])
        @ '' Refusing to start Git mutations while coordinator state cannot be trusted.''))
      else if RECONCILER_STATE_TABLE \<notin> set tables
      then Some (OpenCorrupt (''Reconciler database at '' @ dbPath @ '' declares schema version ''
        @ show_int RECONCILER_SCHEMA_VERSION @ '' but the reconciler_state table is missing. The database is preserved; inspect it manually.''))
      else None)"

definition fresh_file :: db_file where
  "fresh_file = \<lparr>df_version = RECONCILER_SCHEMA_VERSION, df_tables = [RECONCILER_STATE_TABLE], df_rows = [initial_row]\<rparr>"

text \<open>\<open>enableWalWithBoundedContentionRetry\<close>: eight attempts; only a busy database is tried again.\<close>

fun enable_wal :: "(nat \<Rightarrow> wal_answer) \<Rightarrow> nat \<Rightarrow> nat \<Rightarrow> string option" where
  "enable_wal wal 0 attempt = None"
| "enable_wal wal (Suc left) attempt =
     (case wal attempt of
        WalOn \<Rightarrow> None
      | WalFails m \<Rightarrow> Some m
      | WalBusy \<Rightarrow> if attempt = 7 then Some ''database is locked'' else enable_wal wal left (attempt + 1))"

subsection \<open>Opening\<close>

definition failed_initialization :: "string \<Rightarrow> string \<Rightarrow> open_error" where
  "failed_initialization dbPath m =
     OpenCorrupt (''Reconciler database at '' @ dbPath @ '' failed schema initialization: '' @ m
       @ ''. The database is preserved; inspect it manually.'')"

text \<open>The branch under \<open>BEGIN IMMEDIATE\<close>: the lock is held, so nobody else writes until \<open>COMMIT\<close>; a failure rolls
  back.\<close>

definition initialize_locked :: "open_env \<Rightarrow> db_file \<Rightarrow> (open_error + unit) \<times> db_file" where
  "initialize_locked env f =
     (case oe_initialize env of
        Some m \<Rightarrow> (Inl (failed_initialization (oe_path env) m), f)
      | None \<Rightarrow>
          if df_version f = 0 \<and> df_tables f = [] then (Inr (), fresh_file)
          else (case assert_compatible_schema (oe_path env) (df_version f) (df_tables f) of
                  Some e \<Rightarrow> (Inl e, f)
                | None \<Rightarrow> (Inr (), f)))"

definition read_only_stat :: "open_env \<Rightarrow> open_error option" where
  "read_only_stat env =
     (case oe_stat env of
        StatFails m \<Rightarrow> Some (OpenCorrupt (''Reconciler database cannot be inspected at '' @ oe_path env @ '': '' @ m @ ''.''))
      | StatMissing \<Rightarrow> Some (OpenMissing (''Reconciler database does not exist at '' @ oe_path env
          @ ''; no durable reconciliation state is present.''))
      | StatOther \<Rightarrow> Some (OpenCorrupt (''Reconciler database path is not a regular file: '' @ oe_path env @ ''.''))
      | StatRegular \<Rightarrow> None)"

text \<open>The version and the tables are read by two statements.\<close>

definition open_schema :: "open_env \<Rightarrow> bool \<Rightarrow> db_file \<Rightarrow> (open_error + unit) \<times> db_file" where
  "open_schema env readOnly f =
     (let f1 = oe_others env 0 f; userVersion = df_version f1;
          f2 = oe_others env 1 f1; tables = df_tables f2
      in if userVersion = 0 \<and> tables = [] then
           (if readOnly then (Inl (OpenCorrupt (''Reconciler database at '' @ oe_path env
              @ '' exists but has no initialized schema.'')), f2)
            else initialize_locked env (oe_others env 2 f2))
         else (case assert_compatible_schema (oe_path env) userVersion tables of
                 Some e \<Rightarrow> (Inl e, f2)
               | None \<Rightarrow> (Inr (), f2)))"

definition open_reconciler_db :: "open_env \<Rightarrow> bool \<Rightarrow> db_file \<Rightarrow> (open_error + unit) \<times> db_file" where
  "open_reconciler_db env readOnly f =
     (case (if readOnly then read_only_stat env else None) of
        Some e \<Rightarrow> (Inl e, f)
      | None \<Rightarrow>
          (case oe_connect env of
             Some m \<Rightarrow> (Inl (OpenCorrupt (''Reconciler database cannot be opened at '' @ oe_path env @ '': '' @ m @ ''. ''
                @ ''The file is preserved. Inspect it and remove it manually only after confirming no reconciliation is pending.'')), f)
           | None \<Rightarrow>
               (case oe_pragma env of
                  Some m \<Rightarrow> (Inl (failed_initialization (oe_path env) m), f)
                | None \<Rightarrow>
                    (case (if readOnly then None else enable_wal (oe_wal env) 8 0) of
                       Some m \<Rightarrow> (Inl (failed_initialization (oe_path env) m), f)
                     | None \<Rightarrow> open_schema env readOnly f))))"

subsection \<open>What opening does\<close>

lemma schema_compatible_iff:
  "assert_compatible_schema p v tables = None \<longleftrightarrow> v = RECONCILER_SCHEMA_VERSION \<and> RECONCILER_STATE_TABLE \<in> set tables"
  by (auto simp: assert_compatible_schema_def)

lemma fresh_file_state: "read_state (df_rows fresh_file) = Inr initial_state"
  by code_simp

text \<open>C32. Opening the coordinator's database never destroys state. Whatever other processes commit between its
  statements, the file afterwards is a file that was found there, unchanged, or the fresh one, and the fresh one
  only in place of a file with no schema version and no table; a read-only opening changes nothing. The opening
  succeeds only on a file of the supported version with the state table (the schema it saw, when others write at
  the same time), and a fresh file holds the valid idle state at generation 0.\<close>

theorem opening_preserves_state:
  assumes "open_reconciler_db env readOnly f = (r, f')"
  shows "(\<exists>g \<in> {f, oe_others env 1 (oe_others env 0 f), oe_others env 2 (oe_others env 1 (oe_others env 0 f))}.
      f' = g \<or> df_version g = 0 \<and> df_tables g = [] \<and> f' = fresh_file \<and> \<not> readOnly) \<and>
    (r = Inr () \<longrightarrow> RECONCILER_STATE_TABLE \<in> set (df_tables f') \<and>
       (df_version f' = RECONCILER_SCHEMA_VERSION \<or> df_version (oe_others env 0 f) = RECONCILER_SCHEMA_VERSION)) \<and>
    read_state (df_rows fresh_file) = Inr initial_state"
proof -
  have schema: "open_schema env readOnly f = (r, f') \<Longrightarrow>
     (f' = oe_others env 1 (oe_others env 0 f) \<or> f' = oe_others env 2 (oe_others env 1 (oe_others env 0 f)) \<or>
      (df_version (oe_others env 2 (oe_others env 1 (oe_others env 0 f))) = 0 \<and>
       df_tables (oe_others env 2 (oe_others env 1 (oe_others env 0 f))) = [] \<and> f' = fresh_file \<and> \<not> readOnly)) \<and>
     (r = Inr () \<longrightarrow> RECONCILER_STATE_TABLE \<in> set (df_tables f') \<and>
       (df_version f' = RECONCILER_SCHEMA_VERSION \<or> df_version (oe_others env 0 f) = RECONCILER_SCHEMA_VERSION))"
    by (auto simp: open_schema_def initialize_locked_def Let_def schema_compatible_iff fresh_file_def
        split: if_splits option.splits)
  consider "f' = f" "\<exists>e. r = Inl e" | "open_schema env readOnly f = (r, f')"
    using assms unfolding open_reconciler_db_def by (auto split: option.splits if_splits)
  then show ?thesis
  proof cases
    case 1
    then show ?thesis using fresh_file_state by auto
  next
    case 2
    show ?thesis using schema[OF 2] fresh_file_state by blast
  qed
qed

text \<open>Two launchers that start on an empty file: the second reads version 0, the first commits the schema, the
  second reads its tables and refuses a database that is sound.\<close>

definition plain_open :: open_env where
  "plain_open = \<lparr>oe_path = ''/s/reconciler.sqlite'', oe_stat = StatRegular, oe_connect = None, oe_pragma = None,
     oe_wal = (\<lambda>_. WalOn), oe_others = (\<lambda>_ f. f), oe_initialize = None\<rparr>"

definition empty_file :: db_file where
  "empty_file = \<lparr>df_version = 0, df_tables = [], df_rows = []\<rparr>"

theorem opening_preserves_state_witness:
  "\<exists>r f'. open_reconciler_db plain_open False empty_file = (Inr r, f') \<and> RECONCILER_STATE_TABLE \<in> set (df_tables f')"
proof -
  have "fst (open_reconciler_db plain_open False empty_file) = Inr ()" by code_simp
  then obtain f' where "open_reconciler_db plain_open False empty_file = (Inr (), f')" by (metis prod.collapse)
  with opening_preserves_state[OF this] show ?thesis by blast
qed

lemma initialization_race_refuses:
  "\<exists>m. open_reconciler_db (plain_open\<lparr>oe_others := (\<lambda>i f. if i = 1 then fresh_file else f)\<rparr>) False empty_file
     = (Inl (IncompatibleSchema m), fresh_file)"
  by (simp add: open_reconciler_db_def open_schema_def plain_open_def empty_file_def fresh_file_def
      assert_compatible_schema_def RECONCILER_SCHEMA_VERSION_def RECONCILER_STATE_TABLE_def
      numeral_eq_Suc Let_def)

end
