(* ===== verification/Launcher.thy ===== *)
theory Launcher
  imports Coordinator_System Owned_Loop Legacy_Queue Reconciler_Db Retry_Policy
begin

text \<open>
  One public invocation, \<open>src/src/modules/reconciliation/public-launcher.ts\<close>, with
  \<open>launcher-cancellation.ts\<close>, \<open>state-cutover-lock.ts\<close> and \<open>legacy-state-cutover.ts\<close>. The world answers
  through \<open>launcher_env\<close>; every step that others can see is recorded in the trace. The request identity,
  and telemetry are not modelled; a message of the launcher is an effect, without the text of the exception
  it may end with.
\<close>

subsection \<open>Cancellation\<close>

record cancellation =
  cn_interruptedSignal :: "string option"
  cn_ownershipFailure :: "string option"
  cn_aborted :: "string option"

definition no_cancellation :: cancellation where
  "no_cancellation = \<lparr>cn_interruptedSignal = None, cn_ownershipFailure = None, cn_aborted = None\<rparr>"

definition on_signal :: "string \<Rightarrow> cancellation \<Rightarrow> cancellation" where
  "on_signal sig c = c\<lparr>cn_interruptedSignal := Some (nullish (cn_interruptedSignal c) sig),
     cn_aborted := Some (nullish (cn_aborted c) sig)\<rparr>"

definition abort_for_ownership_failure :: "string \<Rightarrow> cancellation \<Rightarrow> cancellation" where
  "abort_for_ownership_failure message c = c\<lparr>cn_ownershipFailure := Some (nullish (cn_ownershipFailure c) message),
     cn_aborted := Some (nullish (cn_aborted c) ''ownership-lost'')\<rparr>"

text \<open>One tick of the heartbeat interval: a lost row or an error aborts.\<close>

definition heartbeat_tick ::
  "tx_fault \<Rightarrow> (db \<Rightarrow> db) \<Rightarrow> string \<Rightarrow> int \<Rightarrow> int \<Rightarrow> cancellation \<times> db \<Rightarrow> cancellation \<times> db" where
  "heartbeat_tick fault between token pid now s =
     (case heartbeat_reconciler fault between token pid now (snd s) of
        (Inr True, db') \<Rightarrow> (fst s, db')
      | (Inr False, db') \<Rightarrow>
          (abort_for_ownership_failure ''reconciliation ownership was lost; active work was terminated'' (fst s), db')
      | (Inl _, db') \<Rightarrow>
          (abort_for_ownership_failure
             ''reconciliation ownership was lost because heartbeat validation failed'' (fst s), db'))"

subsection \<open>The cutover lock and the retired state\<close>

definition STATE_CUTOVER_LOCK_SUFFIX :: string where "STATE_CUTOVER_LOCK_SUFFIX = ''.migration-lock''"

definition resolve_state_cutover_lock_path :: "string \<Rightarrow> string + string" where
  "resolve_state_cutover_lock_path dir =
     (if \<not> is_absolute dir then Inl ''Application state directory must be an absolute path.''
      else Inr (posix_normalize dir @ STATE_CUTOVER_LOCK_SUFFIX))"

datatype legacy_root = RootAbsent | RootDirectory | RootOther | RootUnreadable

definition resolve_legacy_application_state_directory :: "string \<Rightarrow> string" where
  "resolve_legacy_application_state_directory home =
     path_join_all [home, ''.agents'', ''skills'', ''git-commits-push'', ''.state'']"

definition assert_legacy_application_state_migrated ::
  "environment \<Rightarrow> string \<Rightarrow> (string \<Rightarrow> legacy_root) \<Rightarrow> string option" where
  "assert_legacy_application_state_migrated env home stat =
     (if env ''ORDER_STATE_DIR'' \<noteq> None then None
      else let root = resolve_legacy_application_state_directory home in
        case stat root of
          RootAbsent \<Rightarrow> None
        | k \<Rightarrow> Some (''legacy application state ''
            @ (case k of RootDirectory \<Rightarrow> ''directory'' | RootUnreadable \<Rightarrow> ''unreadable filesystem entry''
                | _ \<Rightarrow> ''filesystem entry'')
            @ '' still exists at '' @ root
            @ ''; run the state migration from the dedicated git-commits-push repository before launch''))"

subsection \<open>The environment of a launch\<close>

record launcher_env =
  le_env :: environment
  le_home :: string
  le_mkdirParent :: "string option"
  le_lockFree :: bool
  le_rmdirFails :: bool
  le_legacyRoot :: "string \<Rightarrow> legacy_root"
  le_queue :: queue_env
  le_mkdirState :: "string option"
  le_open :: open_env
  le_token :: string
  le_pid :: int
  le_identity :: "string option"
  le_bootEpochMs :: int
  le_now :: int
  le_callerName :: string
  le_originAgent :: string
  le_originSessionId :: "string option"
  le_admission :: admission_env
  le_interrupted :: "string option"
  le_releaseFault :: tx_fault
  le_dbBeforeRelease :: "db \<Rightarrow> db"
  le_owned :: owned_script
  le_atEnd :: cancellation

datatype launcher_effect =
    CutoverLockTaken string
  | CutoverLockReleased string bool
  | StderrMessage string
  | StdoutMessage string
  | AdmissionDone register_result db
  | LegacyCleaned bool
  | LoopEntered
  | OwnershipRelease "op_error + bool" db
  | ConnectionClosed

datatype launcher_exit = Returned int | KilledBy string | Threw string

record launcher_state =
  la_trace :: "launcher_effect list"
  la_queue :: queue_state
  la_file :: db_file
  la_loop :: loop_state

definition emit :: "launcher_effect \<Rightarrow> launcher_state \<Rightarrow> launcher_state" where
  "emit e st = st\<lparr>la_trace := la_trace st @ [e]\<rparr>"

subsection \<open>Admission\<close>

definition acquire_state_cutover_lock :: "launcher_env \<Rightarrow> string + string" where
  "acquire_state_cutover_lock le =
     (case resolve_application_state_directory (le_env le) (le_home le) of
        Inl e \<Rightarrow> Inl e
      | Inr dir \<Rightarrow>
          (case resolve_state_cutover_lock_path dir of
             Inl e \<Rightarrow> Inl e
           | Inr p \<Rightarrow>
               (case le_mkdirParent le of
                  Some e \<Rightarrow> Inl e
                | None \<Rightarrow> if le_lockFree le then Inr p else Inl (''State migration lock is already held: '' @ p))))"

text \<open>\<open>releaseStateCutoverLockBeforeReturn\<close>: the lock directory is removed; a failing \<open>rmdir\<close> is swallowed
  and leaves the lock in place, for the operator to inspect. The effect says whether it was removed.\<close>

definition release_lock :: "launcher_env \<Rightarrow> string option \<Rightarrow> launcher_state \<Rightarrow> launcher_state" where
  "release_lock le lock st =
     (case lock of None \<Rightarrow> st | Some p \<Rightarrow> emit (CutoverLockReleased p (\<not> le_rmdirFails le)) st)"

definition write_live_legacy_worker_message :: string where
  "write_live_legacy_worker_message =
     ''git-commits-push: a legacy queue worker (running.lock) appears active.'' @ NL @
     ''Refusing to start a competing reconciler. Wait for the legacy worker to finish, then run again;'' @ NL @
     ''or remove the lock manually after confirming that no legacy worker is running.'' @ NL"

definition write_malformed_legacy_lock_message :: string where
  "write_malformed_legacy_lock_message =
     ''git-commits-push: legacy queue lock (running.lock) is malformed or unreadable.'' @ NL @
     ''Refusing reconciliation because legacy worker liveness cannot be established.'' @ NL @
     ''Preserve and inspect the lock before removing it manually.'' @ NL"

definition write_coalesced_message :: "int \<Rightarrow> string" where
  "write_coalesced_message generation =
     ''Reconciliation requested (generation '' @ show_int generation @ '').'' @ NL @
     ''Another git-commits-push worker is active.'' @ NL @
     ''This terminal can exit; the active worker will perform another global rescan before becoming idle.'' @ NL"

definition fail_closed :: "string \<Rightarrow> launcher_state \<Rightarrow> launcher_exit \<times> launcher_state" where
  "fail_closed m st = (Returned 2, emit (StderrMessage (''git-commits-push: '' @ m @ NL)) st)"

fun open_error_message :: "open_error \<Rightarrow> string" where
  "open_error_message (OpenMissing m) = m"
| "open_error_message (OpenCorrupt m) = m"
| "open_error_message (IncompatibleSchema m) = m"

definition register_options_of :: "launcher_env \<Rightarrow> string \<Rightarrow> register_options" where
  "register_options_of le identity =
     \<lparr>ro_token = le_token le, ro_pid = le_pid le, ro_bootEpochMs = le_bootEpochMs le,
      ro_processIdentity = identity, ro_callerName = le_callerName le, ro_originAgent = le_originAgent le,
      ro_originSessionId = le_originSessionId le, ro_nowEpochMs = le_now le\<rparr>"

definition reconciler_db_path :: "launcher_env \<Rightarrow> string" where
  "reconciler_db_path le =
     (case resolve_reconciler_state_directory (le_env le) (le_home le) of
        Inl _ \<Rightarrow> []
      | Inr dir \<Rightarrow> resolve_reconciler_db_path dir)"

text \<open>Everything up to the registration, under the lock: the inspection that will be cleaned up and the
  registration, or the end.\<close>

definition open_and_register ::
  "launcher_env \<Rightarrow> string option \<Rightarrow> queue_inspection \<Rightarrow> launcher_state
     \<Rightarrow> (launcher_exit + register_result) \<times> launcher_state" where
  "open_and_register le lock inspection st =
     (case open_reconciler_db ((le_open le)\<lparr>oe_path := reconciler_db_path le\<rparr>) False (la_file st) of
        (Inl e, f) \<Rightarrow>
          map_prod Inl id (fail_closed (open_error_message e) (release_lock le lock (st\<lparr>la_file := f\<rparr>)))
      | (Inr _, f) \<Rightarrow>
          (let st1 = st\<lparr>la_file := f, la_loop := \<lparr>lp_db = df_rows f, lp_trace = []\<rparr>\<rparr> in
           case le_identity le of
             None \<Rightarrow>
               (case fail_closed ''cannot read the launcher process start identity'' (release_lock le lock st1) of
                  (x, st2) \<Rightarrow> (Inl x, emit ConnectionClosed st2))
           | Some identity \<Rightarrow>
               (case register_reconciliation_request (le_admission le) (register_options_of le identity)
                       (lp_db (la_loop st1)) of
                  (Inl e, db) \<Rightarrow>
                    (case fail_closed ''reconciliation admission failed''
                            (release_lock le lock (st1\<lparr>la_loop := \<lparr>lp_db = db, lp_trace = []\<rparr>\<rparr>)) of
                       (x, st2) \<Rightarrow> (Inl x, emit ConnectionClosed st2))
                | (Inr registration, db) \<Rightarrow>
                    (Inr registration, release_lock le lock
                       (emit (AdmissionDone registration db) (st1\<lparr>la_loop := \<lparr>lp_db = db, lp_trace = []\<rparr>\<rparr>))))))"

definition inspected_part ::
  "launcher_env \<Rightarrow> string option \<Rightarrow> queue_inspection \<Rightarrow> launcher_state
     \<Rightarrow> (launcher_exit + queue_inspection \<times> register_result) \<times> launcher_state" where
  "inspected_part le lock inspection st =
     (if qi_lock inspection = LockLive
      then (Inl (Returned 2), emit (StderrMessage write_live_legacy_worker_message) (release_lock le lock st))
      else if qi_lock inspection = LockMalformed
      then (Inl (Returned 2), emit (StderrMessage write_malformed_legacy_lock_message) (release_lock le lock st))
      else (case le_mkdirState le of
         Some e \<Rightarrow> (Inl (Threw e), st)
       | None \<Rightarrow>
           (case open_and_register le lock inspection st of
              (Inl x, st1) \<Rightarrow> (Inl x, st1)
            | (Inr registration, st1) \<Rightarrow> (Inr (inspection, registration), st1))))"

definition admission_part ::
  "launcher_env \<Rightarrow> launcher_state \<Rightarrow> (launcher_exit + queue_inspection \<times> register_result) \<times> launcher_state" where
  "admission_part le st =
     (case (if le_env le ''ORDER_STATE_DIR'' = None then map_sum id Some (acquire_state_cutover_lock le)
            else Inr None) of
        Inl e \<Rightarrow> map_prod Inl id (fail_closed e st)
      | Inr lock \<Rightarrow>
          (let st0 = (case lock of None \<Rightarrow> st | Some p \<Rightarrow> emit (CutoverLockTaken p) st) in
           case assert_legacy_application_state_migrated (le_env le) (le_home le) (le_legacyRoot le) of
             Some e \<Rightarrow> map_prod Inl id (fail_closed e (release_lock le lock st0))
           | None \<Rightarrow>
               (case resolve_reconciler_state_directory (le_env le) (le_home le) of
                  Inl e \<Rightarrow> (Inl (Threw e), st0)
                | Inr _ \<Rightarrow>
                    (case inspect_legacy_queue_state (le_queue le) (la_queue st0) of
                       (Inl e, q) \<Rightarrow> map_prod Inl id (fail_closed
                          (''reconciliation state directory is unreadable: '' @ e)
                          (release_lock le lock (st0\<lparr>la_queue := q\<rparr>)))
                     | (Inr inspection, q) \<Rightarrow> inspected_part le lock inspection (st0\<lparr>la_queue := q\<rparr>)))))"

subsection \<open>Ownership\<close>

text \<open>\<open>releaseOwnershipBestEffort\<close> while \<open>ownerActive\<close>; an exception is swallowed.\<close>

definition release_ownership :: "launcher_env \<Rightarrow> launcher_state \<Rightarrow> launcher_state" where
  "release_ownership le st =
     (let before = le_dbBeforeRelease le (lp_db (la_loop st)) in
      case release_reconciliation_ownership (le_releaseFault le) (le_token le) (le_pid le) before of
        (r, db) \<Rightarrow> emit (OwnershipRelease r before) (st\<lparr>la_loop := (la_loop st)\<lparr>lp_db := db\<rparr>\<rparr>))"

definition owned_options_of :: "launcher_env \<Rightarrow> owned_options" where
  "owned_options_of le = \<lparr>oo_ownerToken = le_token le, oo_ownerPid = le_pid le\<rparr>"

definition lost_message :: "launcher_env \<Rightarrow> string \<Rightarrow> string" where
  "lost_message le fallback = nullish (cn_ownershipFailure (le_atEnd le)) fallback"

definition recovery_notice :: "bool \<Rightarrow> int option \<Rightarrow> launcher_state \<Rightarrow> launcher_state" where
  "recovery_notice wasRecovered previousPid st =
     (if wasRecovered then emit (StderrMessage
        (''git-commits-push: recovered reconciliation state from a previous owner (pid ''
         @ (case previousPid of None \<Rightarrow> ''null'' | Some p \<Rightarrow> show_int p)
         @ ''). Performing a fresh global rescan.'' @ NL)) st
      else st)"

text \<open>\<open>crashWithoutFalseIdle\<close>, the handler of an uncaught exception of the owner.\<close>

definition crash_without_false_idle :: "launcher_env \<Rightarrow> string \<Rightarrow> launcher_state \<Rightarrow> launcher_exit \<times> launcher_state" where
  "crash_without_false_idle le reason st =
     (Returned 1, emit ConnectionClosed (release_ownership le
        (emit (StderrMessage (''git-commits-push launcher crashed: '' @ reason @ NL)) st)))"

text \<open>The end of the loop; a cancelled one is \<open>terminateAfterCancellation\<close>.\<close>

definition owned_result_part ::
  "launcher_env \<Rightarrow> owned_result \<Rightarrow> launcher_state \<Rightarrow> launcher_exit option \<times> launcher_state" where
  "owned_result_part le result st =
     (if \<not> or_cancelled result then (Some (Returned (or_exitCode result)), emit ConnectionClosed st)
      else let st1 = emit ConnectionClosed (release_ownership le st) in
        (case cn_interruptedSignal (le_atEnd le) of
           Some sig \<Rightarrow> (Some (KilledBy sig), st1)
         | None \<Rightarrow> map_prod Some id (fail_closed (lost_message le ''reconciliation ownership was lost'') st1)))"

text \<open>The part of the owner: clean up the legacy queue, then the loop. \<^const>\<open>None\<close> is a loop whose script of
  passes is used up, that is, one that still runs.\<close>

definition owner_part ::
  "launcher_env \<Rightarrow> queue_inspection \<Rightarrow> int \<Rightarrow> bool \<Rightarrow> int option \<Rightarrow> launcher_state
     \<Rightarrow> launcher_exit option \<times> launcher_state" where
  "owner_part le inspection generation wasRecovered previousPid st =
     (case delete_legacy_queue_artifacts (le_queue le) inspection (la_queue st) of
        (Inl e, q) \<Rightarrow>
          (let st1 = emit ConnectionClosed (release_ownership le (emit (LegacyCleaned False) (st\<lparr>la_queue := q\<rparr>)))
           in map_prod Some id (fail_closed (''legacy queue migration failed: '' @ e) st1))
      | (Inr _, q) \<Rightarrow>
          (let st1 = emit LoopEntered (recovery_notice wasRecovered previousPid
             (emit (LegacyCleaned True) (st\<lparr>la_queue := q\<rparr>))) in
           case run_owned_reconciliation (owned_options_of le) (le_owned le) generation (la_loop st1) of
             (None, lp) \<Rightarrow> (None, st1\<lparr>la_loop := lp\<rparr>)
           | (Some (Inl _), lp) \<Rightarrow>
               (let st2 = emit ConnectionClosed (release_ownership le (st1\<lparr>la_loop := lp\<rparr>))
                in map_prod Some id (fail_closed (lost_message le ''reconciliation execution failed'') st2))
           | (Some (Inr result), lp) \<Rightarrow> owned_result_part le result (st1\<lparr>la_loop := lp\<rparr>)))"

definition run_public_launcher ::
  "launcher_env \<Rightarrow> launcher_state \<Rightarrow> launcher_exit option \<times> launcher_state" where
  "run_public_launcher le st =
     (case admission_part le st of
        (Inl x, st1) \<Rightarrow> (Some x, st1)
      | (Inr (inspection, registration), st1) \<Rightarrow>
          (case le_interrupted le of
             Some sig \<Rightarrow>
               (let st2 = (case registration of Owner _ _ _ _ _ \<Rightarrow> release_ownership le st1 | _ \<Rightarrow> st1)
                in (Some (KilledBy sig), emit ConnectionClosed st2))
           | None \<Rightarrow>
               (case registration of
                  Coalesced generation _ _ \<Rightarrow>
                    (Some (Returned 0), emit ConnectionClosed (emit (StdoutMessage (write_coalesced_message generation)) st1))
                | Owner generation _ wasRecovered previousPid _ \<Rightarrow>
                    owner_part le inspection generation wasRecovered previousPid st1)))"


subsection \<open>What a launch does\<close>

text \<open>The cutover lock of this launch is on disk after these effects: a failed removal leaves it there.\<close>

definition lock_held :: "launcher_effect list \<Rightarrow> bool" where
  "lock_held tr = foldl (\<lambda>held e. case e of CutoverLockTaken _ \<Rightarrow> True | CutoverLockReleased _ removed \<Rightarrow> held \<and> \<not> removed | _ \<Rightarrow> held) False tr"

definition bystander :: "launcher_effect \<Rightarrow> bool" where
  "bystander e \<longleftrightarrow> (case e of StderrMessage _ \<Rightarrow> True | StdoutMessage _ \<Rightarrow> True | ConnectionClosed \<Rightarrow> True | _ \<Rightarrow> False)"

text \<open>A release that took effect was one of this launcher, with no active execution.\<close>

fun safe_release :: "launcher_env \<Rightarrow> launcher_effect \<Rightarrow> bool" where
  "safe_release le (OwnershipRelease (Inr True) before) =
     (\<exists>s. read_state before = Inr s \<and> owned_by s (le_token le) (le_pid le) \<and> activeExecution s = None)"
| "safe_release le _ = True"

definition lock_trace :: "string option \<Rightarrow> (string \<Rightarrow> launcher_effect) \<Rightarrow> launcher_effect list" where
  "lock_trace lock e = (case lock of None \<Rightarrow> [] | Some p \<Rightarrow> [e p])"

abbreviation released_by :: "launcher_env \<Rightarrow> string \<Rightarrow> launcher_effect" where
  "released_by le \<equiv> (\<lambda>p. CutoverLockReleased p (\<not> le_rmdirFails le))"

lemma emit_simps [simp]:
  "la_trace (emit e st) = la_trace st @ [e]" "la_loop (emit e st) = la_loop st"
  "la_trace (release_lock le lock st) = la_trace st @ lock_trace lock (released_by le)"
  "la_loop (release_lock le lock st) = la_loop st"
  by (simp_all add: emit_def release_lock_def lock_trace_def split: option.splits)

lemma release_safe: 
  assumes "release_reconciliation_ownership fault (le_token le) (le_pid le) before = (r, db)"
  shows "safe_release le (OwnershipRelease r before)"
proof (cases r)
  case (Inr b)
  then have "release_transaction (le_token le) (le_pid le) before = (Inr b, db)"
    using assms by (auto simp: release_reconciliation_ownership_def dest: run_transaction_InrD)
  then show ?thesis
    using Inr by (cases b) (auto simp: release_transaction_def owned_by_def split: sum.splits if_splits)
qed simp

lemma release_ownership_trace:
  obtains r before where "la_trace (release_ownership le st) = la_trace st @ [OwnershipRelease r before]"
    "safe_release le (OwnershipRelease r before)"
proof -
  let ?before = "le_dbBeforeRelease le (lp_db (la_loop st))"
  obtain r db where r: "release_reconciliation_ownership (le_releaseFault le) (le_token le) (le_pid le) ?before = (r, db)"
    by fastforce
  have "la_trace (release_ownership le st) = la_trace st @ [OwnershipRelease r ?before]"
    using r by (simp add: release_ownership_def emit_def)
  then show thesis using that release_safe[OF r] by blast
qed

lemma register_owner_rows:
  assumes "register_attempts env o1 n k db = (Inr (Owner g c rec p rr), db')" "r \<in> set db'" "singleton_id r = 1"
  shows "owner_token r = Some (ro_token o1) \<and> owner_pid r = Some (ro_pid o1)"
  using assms(1)
proof (induction n arbitrary: k db)
  case (Suc n)
  show ?case
  proof (cases "read_state (before_observation env k db)")
    case (Inr seen)
    let ?tx = "run_reconciler_transaction (fault_at env k) (register_transaction o1 seen (owner_is_alive (view_at env k) seen))
      (before_transaction env k (before_observation env k db))"
    obtain res db2 where tx: "?tx = (res, db2)" by fastforce
    show ?thesis
    proof (cases "res = Inl ReconciliationOwnerChanged")
      case True
      then show ?thesis using Suc Inr tx by simp
    next
      case False
      then have "?tx = (Inr (Owner g c rec p rr), db')"
        using Suc.prems Inr tx by (auto simp: Let_def split: sum.splits op_error.splits)
      from run_transaction_InrD[OF this] show ?thesis
        using assms(2,3)
        by (auto simp: register_transaction_def update_where_def Let_def split: sum.splits if_splits)
    qed
  qed (use Suc.prems in simp)
qed simp


text \<open>Effects after the admission: no lock, no admission, no unsafe release.\<close>

definition plain_effect :: "launcher_env \<Rightarrow> launcher_effect \<Rightarrow> bool" where
  "plain_effect le e \<longleftrightarrow> safe_release le e \<and>
     (case e of CutoverLockTaken _ \<Rightarrow> False | CutoverLockReleased _ _ \<Rightarrow> False | AdmissionDone _ _ \<Rightarrow> False | _ \<Rightarrow> True)"

lemma plain_simps [simp]:
  "plain_effect le ConnectionClosed" "plain_effect le LoopEntered" "plain_effect le (LegacyCleaned b)"
  "plain_effect le (StderrMessage m)" "plain_effect le (StdoutMessage m)"
  "\<not> plain_effect le (AdmissionDone r db)"
  "plain_effect le (OwnershipRelease q before) = safe_release le (OwnershipRelease q before)"
  by (simp_all add: plain_effect_def)

lemma bystander_simps [simp]:
  "bystander ConnectionClosed" "\<not> bystander LoopEntered" "bystander (StderrMessage m)" "bystander (StdoutMessage m)"
  "\<not> bystander (AdmissionDone r db)" "\<not> bystander (OwnershipRelease q before)"
  by (simp_all add: bystander_def)

lemma bystander_plain: "bystander e \<Longrightarrow> plain_effect le e"
  by (cases e) (auto simp: bystander_def plain_effect_def)

lemma lock_held_simps:
  "lock_held (tr @ lock_trace lock (released_by le)) = (lock_held tr \<and> (lock = None \<or> le_rmdirFails le))"
  "lock_held (tr @ lock_trace lock CutoverLockTaken) = (lock \<noteq> None \<or> lock_held tr)"
  "lock_held []  = False" "lock_held (tr @ [AdmissionDone r db]) = lock_held tr"
  by (simp_all add: lock_held_def lock_trace_def split: option.splits)

lemma lock_held_plain: "\<forall>e \<in> set es. plain_effect le e \<Longrightarrow> lock_held (tr @ es) = lock_held tr"
proof (induction es rule: rev_induct)
  case (snoc e es)
  then show ?case by (cases e) (auto simp: lock_held_def plain_effect_def)
qed simp

definition admission_outcome ::
  "launcher_env \<Rightarrow> launcher_state \<Rightarrow> string option \<Rightarrow> launcher_exit + queue_inspection \<times> register_result
     \<Rightarrow> launcher_effect list \<Rightarrow> launcher_state \<Rightarrow> bool" where
  "admission_outcome le st lock r es st' \<longleftrightarrow>
     (case r of
        Inl x \<Rightarrow> (\<exists>ws. (\<forall>e \<in> set ws. bystander e) \<and> es = (if \<exists>m. x = Threw m then [] else lock_trace lock (released_by le)) @ ws) \<and>
          lp_trace (la_loop st') \<in> {lp_trace (la_loop st), []}
      | Inr (inspection, registration) \<Rightarrow>
          (\<exists>db. es = AdmissionDone registration db # lock_trace lock (released_by le) \<and>
            (\<forall>g c rec p rr. registration = Owner g c rec p rr \<longrightarrow>
               (\<forall>row \<in> set db. singleton_id row = 1 \<longrightarrow> owner_token row = Some (le_token le) \<and> owner_pid row = Some (le_pid le)))) \<and>
          (lock \<noteq> None) = (le_env le ''ORDER_STATE_DIR'' = None) \<and> qi_lock inspection \<in> {LockNone, LockStale} \<and>
          fst (inspect_legacy_queue_state (le_queue le) (la_queue st)) = Inr inspection \<and> lp_trace (la_loop st') = [])"

lemma open_and_register_outcome:
  assumes "open_and_register le lock inspection st = (r, st')"
  shows "case r of
     Inl x \<Rightarrow> (\<exists>ws. (\<forall>e \<in> set ws. bystander e) \<and> la_trace st' = la_trace st @ lock_trace lock (released_by le) @ ws) \<and>
       (\<forall>m. x \<noteq> Threw m) \<and> lp_trace (la_loop st') \<in> {lp_trace (la_loop st), []}
   | Inr registration \<Rightarrow>
       (\<exists>db. la_trace st' = la_trace st @ AdmissionDone registration db # lock_trace lock (released_by le) \<and>
         (\<forall>g c rec p rr. registration = Owner g c rec p rr \<longrightarrow>
            (\<forall>row \<in> set db. singleton_id row = 1 \<longrightarrow> owner_token row = Some (le_token le) \<and> owner_pid row = Some (le_pid le)))) \<and>
       lp_trace (la_loop st') = []"
proof -
  have owner: "\<forall>row \<in> set db'. singleton_id row = 1 \<longrightarrow> owner_token row = Some (le_token le) \<and> owner_pid row = Some (le_pid le)"
    if "register_reconciliation_request env (register_options_of le i) db = (Inr (Owner g c rec p rr), db')"
    for env i db db' g c rec p rr
    using that register_owner_rows[of env "register_options_of le i"]
    by (fastforce simp: register_reconciliation_request_def register_options_of_def split: option.splits)
  obtain ro f where o1: "open_reconciler_db ((le_open le)\<lparr>oe_path := reconciler_db_path le\<rparr>) False (la_file st) = (ro, f)" by fastforce
  show ?thesis
  proof (cases ro)
    case (Inl e)
    then show ?thesis using assms o1 by (auto simp: open_and_register_def fail_closed_def)
  next
    case (Inr u)
    show ?thesis
    proof (cases "le_identity le")
      case None
      then show ?thesis using assms o1 Inr by (auto simp: open_and_register_def fail_closed_def Let_def)
    next
      case (Some i)
      obtain rr db where g: "register_reconciliation_request (le_admission le) (register_options_of le i) (df_rows f) = (rr, db)"
        by fastforce
      show ?thesis
        using assms o1 Inr Some g owner[of "le_admission le" i "df_rows f" _ _ _ _ _ db]
        by (cases rr) (auto simp: open_and_register_def fail_closed_def Let_def)
    qed
  qed
qed


lemma inspected_part_outcome:
  assumes "inspected_part le lock inspection st = (r, st')"
  shows "case r of
     Inl x \<Rightarrow> (\<exists>ws. (\<forall>e \<in> set ws. bystander e) \<and>
         la_trace st' = la_trace st @ (if \<exists>m. x = Threw m then [] else lock_trace lock (released_by le)) @ ws) \<and>
       lp_trace (la_loop st') \<in> {lp_trace (la_loop st), []}
   | Inr (inspection', registration) \<Rightarrow> inspection' = inspection \<and> qi_lock inspection \<in> {LockNone, LockStale} \<and>
       (\<exists>db. la_trace st' = la_trace st @ AdmissionDone registration db # lock_trace lock (released_by le) \<and>
         (\<forall>g c rec p rr. registration = Owner g c rec p rr \<longrightarrow>
            (\<forall>row \<in> set db. singleton_id row = 1 \<longrightarrow> owner_token row = Some (le_token le) \<and> owner_pid row = Some (le_pid le)))) \<and>
       lp_trace (la_loop st') = []"
proof (cases "qi_lock inspection \<in> {LockNone, LockStale} \<and> le_mkdirState le = None")
  case False
  then show ?thesis using assms
    by (cases "qi_lock inspection") (auto simp: inspected_part_def split: option.splits)
next
  case True
  obtain ro st1 where o1: "open_and_register le lock inspection st = (ro, st1)" by fastforce
  have "r = map_sum id (Pair inspection) ro \<and> st' = st1"
    using assms True o1 by (cases ro) (auto simp: inspected_part_def)
  then show ?thesis using open_and_register_outcome[OF o1] True by (cases ro) auto
qed

lemma admission_part_outcome:
  assumes "admission_part le st = (r, st')"
  shows "\<exists>lock es. la_trace st' = la_trace st @ lock_trace lock CutoverLockTaken @ es \<and> admission_outcome le st lock r es st'"
proof (cases "if le_env le ''ORDER_STATE_DIR'' = None then map_sum id Some (acquire_state_cutover_lock le) else Inr None")
  case (Inl e)
  then show ?thesis using assms
    by (intro exI[of _ None]) (auto simp: admission_part_def admission_outcome_def fail_closed_def lock_trace_def)
next
  case (Inr lock)
  then have lock: "(lock \<noteq> None) = (le_env le ''ORDER_STATE_DIR'' = None)"
    by (auto split: if_splits simp: map_sum_def split: sum.splits)
  define st0 where "st0 = (case lock of None \<Rightarrow> st | Some p \<Rightarrow> emit (CutoverLockTaken p) st)"
  have st0: "la_trace st0 = la_trace st @ lock_trace lock CutoverLockTaken" "la_loop st0 = la_loop st" "la_queue st0 = la_queue st"
    by (simp_all add: st0_def lock_trace_def emit_def split: option.splits)
  have start: "admission_part le st = (case assert_legacy_application_state_migrated (le_env le) (le_home le) (le_legacyRoot le) of
             Some e \<Rightarrow> map_prod Inl id (fail_closed e (release_lock le lock st0))
           | None \<Rightarrow>
               (case resolve_reconciler_state_directory (le_env le) (le_home le) of
                  Inl e \<Rightarrow> (Inl (Threw e), st0)
                | Inr _ \<Rightarrow>
                    (case inspect_legacy_queue_state (le_queue le) (la_queue st0) of
                       (Inl e, q) \<Rightarrow> map_prod Inl id (fail_closed
                          (''reconciliation state directory is unreadable: '' @ e)
                          (release_lock le lock (st0\<lparr>la_queue := q\<rparr>)))
                     | (Inr inspection, q) \<Rightarrow> inspected_part le lock inspection (st0\<lparr>la_queue := q\<rparr>))))"
    using Inr unfolding admission_part_def st0_def by (simp add: Let_def)
  show ?thesis
  proof (cases "assert_legacy_application_state_migrated (le_env le) (le_home le) (le_legacyRoot le)")
    case (Some e)
    then show ?thesis using assms start st0
      by (intro exI[of _ lock]) (auto simp: admission_outcome_def fail_closed_def)
  next
    case migrated: None
    show ?thesis
    proof (cases "resolve_reconciler_state_directory (le_env le) (le_home le)")
      case (Inl e)
      then show ?thesis using assms start st0 migrated
        by (intro exI[of _ lock]) (auto simp: admission_outcome_def)
    next
      case directory: (Inr d)
      obtain ri q where i: "inspect_legacy_queue_state (le_queue le) (la_queue st0) = (ri, q)" by fastforce
      show ?thesis
      proof (cases ri)
        case (Inl e)
        then show ?thesis using assms start st0 migrated directory i
          by (intro exI[of _ lock]) (auto simp: admission_outcome_def fail_closed_def)
      next
        case (Inr inspection)
        then have "inspected_part le lock inspection (st0\<lparr>la_queue := q\<rparr>) = (r, st')"
          using assms start migrated directory i by simp
        from inspected_part_outcome[OF this] show ?thesis
          using lock st0 i Inr
          by (intro exI[of _ lock]) (auto simp: admission_outcome_def split: sum.splits prod.splits)
      qed
    qed
  qed
qed


lemma recovery_notice_simps:
  "\<exists>ms. la_trace (recovery_notice b p st) = la_trace st @ ms \<and> (\<forall>e \<in> set ms. bystander e)"
  "la_loop (recovery_notice b p st) = la_loop st"
  by (simp_all add: recovery_notice_def)

lemma owner_part_outcome:
  assumes "owner_part le inspection g b p st = (x, st')"
  shows "(\<exists>es. la_trace st' = la_trace st @ es \<and> (\<forall>e \<in> set es. plain_effect le e) \<and> LoopEntered \<notin> set es
        \<and> la_loop st' = la_loop st\<lparr>lp_db := lp_db (la_loop st')\<rparr>) \<or>
    (\<exists>ms es. la_trace st' = la_trace st @ LegacyCleaned True # ms @ LoopEntered # es \<and>
       (\<forall>e \<in> set ms. bystander e) \<and> (\<forall>e \<in> set es. plain_effect le e) \<and>
       (\<exists>q. delete_legacy_queue_artifacts (le_queue le) inspection (la_queue st) = (Inr (), q)))"
proof -
  obtain rq q where d: "delete_legacy_queue_artifacts (le_queue le) inspection (la_queue st) = (rq, q)" by fastforce
  have released: "\<exists>r before. la_trace (release_ownership le s) = la_trace s @ [OwnershipRelease r before] \<and>
      safe_release le (OwnershipRelease r before)" for s
    by (rule release_ownership_trace[of le s]) blast
  show ?thesis
  proof (cases rq)
    case (Inl e)
    let ?st1 = "emit (LegacyCleaned False) (st\<lparr>la_queue := q\<rparr>)"
    obtain r before where rel: "la_trace (release_ownership le ?st1) = la_trace ?st1 @ [OwnershipRelease r before]"
      "safe_release le (OwnershipRelease r before)" using released by blast
    have "la_loop (release_ownership le ?st1) = la_loop st\<lparr>lp_db := lp_db (la_loop (release_ownership le ?st1))\<rparr>"
      by (simp add: release_ownership_def Let_def split: prod.splits)
    then show ?thesis using assms d Inl rel
      by (intro disjI1 exI[of _ "[LegacyCleaned False, OwnershipRelease r before, ConnectionClosed,
          StderrMessage (''git-commits-push: '' @ (''legacy queue migration failed: '' @ e) @ NL)]"])
        (auto simp: owner_part_def fail_closed_def Let_def)
  next
    case (Inr u)
    define st1 where "st1 = emit LoopEntered (recovery_notice b p (emit (LegacyCleaned True) (st\<lparr>la_queue := q\<rparr>)))"
    obtain ms where ms: "la_trace st1 = la_trace st @ LegacyCleaned True # ms @ [LoopEntered]" "\<forall>e \<in> set ms. bystander e"
      using recovery_notice_simps(1)[of b p "emit (LegacyCleaned True) (st\<lparr>la_queue := q\<rparr>)"]
      by (auto simp: st1_def)
    have start: "owner_part le inspection g b p st =
       (case run_owned_reconciliation (owned_options_of le) (le_owned le) g (la_loop st1) of
             (None, lp) \<Rightarrow> (None, st1\<lparr>la_loop := lp\<rparr>)
           | (Some (Inl _), lp) \<Rightarrow>
               (let st2 = emit ConnectionClosed (release_ownership le (st1\<lparr>la_loop := lp\<rparr>))
                in map_prod Some id (fail_closed (lost_message le ''reconciliation execution failed'') st2))
           | (Some (Inr result), lp) \<Rightarrow> owned_result_part le result (st1\<lparr>la_loop := lp\<rparr>))"
      unfolding owner_part_def st1_def by (simp add: d Inr Let_def)
    have "\<exists>es. la_trace st' = la_trace st1 @ es \<and> (\<forall>e \<in> set es. plain_effect le e)"
    proof -
      obtain ro lp where run: "run_owned_reconciliation (owned_options_of le) (le_owned le) g (la_loop st1) = (ro, lp)" by fastforce
      obtain r before where rel: "la_trace (release_ownership le (st1\<lparr>la_loop := lp\<rparr>)) = la_trace st1 @ [OwnershipRelease r before]"
        "safe_release le (OwnershipRelease r before)" using released[of "st1\<lparr>la_loop := lp\<rparr>"] by auto
      show ?thesis using assms start run rel
        by (auto simp: owned_result_part_def fail_closed_def Let_def split: option.splits sum.splits if_splits)
    qed
    then show ?thesis using ms d Inr by auto
  qed
qed


lemma launcher_continues:
  assumes run: "run_public_launcher le st = (x, st')" and a: "admission_part le st = (Inr (inspection, reg), st1)"
  shows "\<exists>ps. la_trace st' = la_trace st1 @ ps \<and> (\<forall>e \<in> set ps. plain_effect le e) \<and>
    (if LoopEntered \<in> set ps then LegacyCleaned True \<in> set (takeWhile (\<lambda>e. e \<noteq> LoopEntered) ps) \<and>
         le_interrupted le = None \<and> (\<exists>g c rec p rr. reg = Owner g c rec p rr)
     else lp_trace (la_loop st') = lp_trace (la_loop st1))"
proof (cases "le_interrupted le")
  case (Some sig)
  obtain r before where rel: "la_trace (release_ownership le st1) = la_trace st1 @ [OwnershipRelease r before]"
    "safe_release le (OwnershipRelease r before)" by (rule release_ownership_trace[of le st1])
  have "lp_trace (la_loop (release_ownership le st1)) = lp_trace (la_loop st1)"
    by (simp add: release_ownership_def Let_def split: prod.splits)
  then show ?thesis using run a Some rel
    by (intro exI[of _ "(case reg of Owner _ _ _ _ _ \<Rightarrow> [OwnershipRelease r before] | _ \<Rightarrow> []) @ [ConnectionClosed]"])
      (cases reg; auto simp: run_public_launcher_def Let_def)
next
  case None
  show ?thesis
  proof (cases reg)
    case (Coalesced g p c)
    then show ?thesis using run a None
      by (intro exI[of _ "[StdoutMessage (write_coalesced_message g), ConnectionClosed]"]) (auto simp: run_public_launcher_def)
  next
    case (Owner g c rec p rr)
    then have "owner_part le inspection g rec p st1 = (x, st')"
      using run a None by (simp add: run_public_launcher_def)
    from owner_part_outcome[OF this] show ?thesis
    proof (elim disjE exE conjE)
      fix es assume "la_trace st' = la_trace st1 @ es" "\<forall>e\<in>set es. plain_effect le e" "LoopEntered \<notin> set es"
        "la_loop st' = la_loop st1\<lparr>lp_db := lp_db (la_loop st')\<rparr>"
      moreover from this(4) have "lp_trace (la_loop st') = lp_trace (la_loop st1)" by (metis loop_state.select_convs(2) loop_state.surjective loop_state.update_convs(1))
      ultimately show ?thesis by auto
    next
      fix ms es q assume ms: "\<forall>e\<in>set ms. bystander e" and es: "la_trace st' = la_trace st1 @ LegacyCleaned True # ms @ LoopEntered # es"
        "\<forall>e\<in>set es. plain_effect le e"
      have "\<forall>e \<in> set ms. plain_effect le e" using ms bystander_plain by blast
      then show ?thesis using es Owner None
        by (intro exI[of _ "LegacyCleaned True # ms @ LoopEntered # es"]) auto
    qed
  qed
qed

lemma lock_trace_elem: "e \<in> set (lock_trace lock f) \<Longrightarrow> \<exists>q. e = f q"
  by (auto simp: lock_trace_def split: option.splits)

text \<open>A launch that ends before or in its admission.\<close>

lemma unadmitted_trace:
  assumes tr: "tr = lock_trace lock CutoverLockTaken @ (if thrown then [] else lock_trace lock (released_by le)) @ ws"
    and ws: "\<forall>e \<in> set ws. bystander e"
  shows "\<not> thrown \<Longrightarrow> lock_held tr = (lock \<noteq> None \<and> le_rmdirFails le)"
    "\<not> thrown \<Longrightarrow> CutoverLockTaken p \<in> set tr \<Longrightarrow> CutoverLockReleased p (\<not> le_rmdirFails le) \<in> set tr"
    "lock \<noteq> None \<longleftrightarrow> (\<exists>p. CutoverLockTaken p \<in> set tr)"
    "AdmissionDone q db \<notin> set tr" "LoopEntered \<notin> set tr"
    "\<forall>e \<in> set tr. safe_release le e"
proof -
  have plain: "\<forall>e \<in> set ws. plain_effect le e" for le using ws bystander_plain by blast
  have taken: "CutoverLockTaken p \<notin> set ws" for p using ws by (auto simp: bystander_def)
  show "lock_held tr = (lock \<noteq> None \<and> le_rmdirFails le)" if "\<not> thrown"
    using lock_held_plain[OF plain, of "lock_trace lock CutoverLockTaken @ lock_trace lock (released_by le)"]
      lock_held_simps(2)[of "[]" lock] that
    by (cases lock) (simp_all add: tr lock_held_simps)
  show "CutoverLockReleased p (\<not> le_rmdirFails le) \<in> set tr" if "\<not> thrown" "CutoverLockTaken p \<in> set tr"
    using that taken by (cases lock) (auto simp: tr lock_trace_def)
  show "lock \<noteq> None \<longleftrightarrow> (\<exists>p. CutoverLockTaken p \<in> set tr)"
    using taken by (cases lock) (auto simp: tr lock_trace_def)
  show "AdmissionDone q db \<notin> set tr" "LoopEntered \<notin> set tr"
    using ws by (auto simp: tr dest!: lock_trace_elem)
  show "\<forall>e \<in> set tr. safe_release le e"
    using plain by (auto simp: tr plain_effect_def dest!: lock_trace_elem split: if_splits)
qed

text \<open>A launch that was admitted, and what it did afterwards.\<close>

lemma admitted_trace:
  assumes tr: "tr = (lock_trace lock CutoverLockTaken @ AdmissionDone reg db # lock_trace lock (released_by le)) @ ps"
    and ps: "\<forall>e \<in> set ps. plain_effect le e"
  shows "lock_held tr = (lock \<noteq> None \<and> le_rmdirFails le)" "\<forall>e \<in> set tr. safe_release le e"
    "\<And>q d. AdmissionDone q d \<in> set tr \<Longrightarrow>
       lock_held (takeWhile (\<lambda>e. e \<noteq> AdmissionDone q d) tr) = (lock \<noteq> None)"
    "LoopEntered \<in> set tr \<longleftrightarrow> LoopEntered \<in> set ps"
    "lock_held (takeWhile (\<lambda>e. e \<noteq> LoopEntered) tr) = (lock \<noteq> None \<and> le_rmdirFails le)"
    "set (takeWhile (\<lambda>e. e \<noteq> LoopEntered) tr) \<supseteq> insert (AdmissionDone reg db) (set (takeWhile (\<lambda>e. e \<noteq> LoopEntered) ps))"
    "\<And>p. CutoverLockTaken p \<in> set tr \<longleftrightarrow> lock = Some p"
    "\<And>p. lock = Some p \<Longrightarrow>
       CutoverLockReleased p (\<not> le_rmdirFails le) \<in> set (takeWhile (\<lambda>e. e \<noteq> LoopEntered) tr)"
proof -
  let ?pre = "lock_trace lock CutoverLockTaken @ AdmissionDone reg db # lock_trace lock (released_by le)"
  have free: "lock_held ?pre = (lock \<noteq> None \<and> le_rmdirFails le)"
    by (cases lock) (simp_all add: lock_held_def lock_trace_def)
  have held: "lock_held (?pre @ qs) = (lock \<noteq> None \<and> le_rmdirFails le)" if "set qs \<subseteq> set ps" for qs
    using lock_held_plain[of qs le ?pre] free ps that by auto
  show "CutoverLockTaken p \<in> set tr \<longleftrightarrow> lock = Some p" for p
    using ps by (cases lock) (auto simp: tr lock_trace_def plain_effect_def)
  have pre: "LoopEntered \<notin> set ?pre" by (auto dest: lock_trace_elem)
  have while: "takeWhile (\<lambda>e. e \<noteq> LoopEntered) tr = ?pre @ takeWhile (\<lambda>e. e \<noteq> LoopEntered) ps"
    unfolding tr by (rule takeWhile_append2) (use pre in blast)
  show "lock_held tr = (lock \<noteq> None \<and> le_rmdirFails le)" unfolding tr by (rule held) simp
  show "CutoverLockReleased p (\<not> le_rmdirFails le) \<in> set (takeWhile (\<lambda>e. e \<noteq> LoopEntered) tr)"
    if "lock = Some p" for p unfolding while using that by (simp add: lock_trace_def)
  show "\<forall>e \<in> set tr. safe_release le e" using ps by (auto simp: tr plain_effect_def dest!: lock_trace_elem)
  show "LoopEntered \<in> set tr \<longleftrightarrow> LoopEntered \<in> set ps" using pre by (auto simp: tr)
  show "lock_held (takeWhile (\<lambda>e. e \<noteq> LoopEntered) tr) = (lock \<noteq> None \<and> le_rmdirFails le)"
    unfolding while by (rule held) (auto dest: set_takeWhileD)
  show "set (takeWhile (\<lambda>e. e \<noteq> LoopEntered) tr) \<supseteq> insert (AdmissionDone reg db) (set (takeWhile (\<lambda>e. e \<noteq> LoopEntered) ps))"
    unfolding while by auto
  fix q d assume "AdmissionDone q d \<in> set tr"
  then have "q = reg \<and> d = db" using ps by (auto simp: tr dest!: lock_trace_elem)
  then show "lock_held (takeWhile (\<lambda>e. e \<noteq> AdmissionDone q d) tr) = (lock \<noteq> None)"
    by (cases lock) (simp_all add: tr lock_trace_def lock_held_def)
qed

text \<open>C12. The launcher fences the Git work. A launch that does not throw has tried to remove the state cutover
  lock it took, and at its end that lock is on disk exactly if it was taken and its \<open>rmdir\<close> failed. The
  launch is admitted while it holds that lock, unless \<open>ORDER_STATE_DIR\<close> names the state. It enters the
  reconciliation loop only as the registered owner of the coordinator row, without a signal received before, after
  an inspection that found no live and no malformed legacy lock and after the legacy state was archived, and with
  the removal of the lock behind it; without that no step of the loop happens, so no Git process is started. Every
  release of the ownership that takes effect is of this launcher's own row, and while no execution is recorded
  there.\<close>

theorem launcher_fences_work:
  assumes run: "run_public_launcher le st = (x, st')" and start: "la_trace st = []"
  shows "((\<forall>m. x \<noteq> Some (Threw m)) \<longrightarrow>
       (\<forall>p. CutoverLockTaken p \<in> set (la_trace st') \<longrightarrow>
          CutoverLockReleased p (\<not> le_rmdirFails le) \<in> set (la_trace st')) \<and>
       lock_held (la_trace st') = (le_rmdirFails le \<and> (\<exists>p. CutoverLockTaken p \<in> set (la_trace st')))) \<and>
    (\<forall>r db. AdmissionDone r db \<in> set (la_trace st') \<longrightarrow>
       lock_held (takeWhile (\<lambda>e. e \<noteq> AdmissionDone r db) (la_trace st')) = (le_env le ''ORDER_STATE_DIR'' = None)) \<and>
    (\<forall>e \<in> set (la_trace st'). safe_release le e) \<and>
    (if LoopEntered \<in> set (la_trace st')
     then let before = takeWhile (\<lambda>e. e \<noteq> LoopEntered) (la_trace st') in
       (\<forall>p. CutoverLockTaken p \<in> set (la_trace st') \<longrightarrow> CutoverLockReleased p (\<not> le_rmdirFails le) \<in> set before) \<and>
       (lock_held before \<longrightarrow> le_rmdirFails le) \<and> LegacyCleaned True \<in> set before \<and> le_interrupted le = None \<and>
       (\<exists>g c rec p rr db. AdmissionDone (Owner g c rec p rr) db \<in> set before \<and>
          (\<forall>row \<in> set db. singleton_id row = 1 \<longrightarrow>
             owner_token row = Some (le_token le) \<and> owner_pid row = Some (le_pid le))) \<and>
       (\<exists>inspection. fst (inspect_legacy_queue_state (le_queue le) (la_queue st)) = Inr inspection \<and>
          qi_lock inspection \<in> {LockNone, LockStale})
     else lp_trace (la_loop st') \<in> {lp_trace (la_loop st), []})"
proof -
  obtain r st1 where a: "admission_part le st = (r, st1)" by fastforce
  obtain lock es where tr: "la_trace st1 = lock_trace lock CutoverLockTaken @ es" and out1: "admission_outcome le st lock r es st1"
    using admission_part_outcome[OF a] start by auto
  show ?thesis
  proof (cases r)
    case (Inl y)
    then have x: "x = Some y" "st' = st1" using run a by (simp_all add: run_public_launcher_def)
    obtain ws where ws: "\<forall>e \<in> set ws. bystander e"
      "la_trace st1 = lock_trace lock CutoverLockTaken @ (if \<exists>m. y = Threw m then [] else lock_trace lock (released_by le)) @ ws"
      using out1 Inl tr by (auto simp: admission_outcome_def)
    note un = unadmitted_trace[OF ws(2,1)]
    have "(\<forall>m. x \<noteq> Some (Threw m)) \<longrightarrow>
       (\<forall>p. CutoverLockTaken p \<in> set (la_trace st') \<longrightarrow>
          CutoverLockReleased p (\<not> le_rmdirFails le) \<in> set (la_trace st')) \<and>
       lock_held (la_trace st') = (le_rmdirFails le \<and> (\<exists>p. CutoverLockTaken p \<in> set (la_trace st')))"
      using un(1-3) x by auto
    then show ?thesis
      using un(4-6) out1 Inl x by (auto simp: admission_outcome_def)
  next
    case (Inr res)
    then obtain inspection reg where res: "r = Inr (inspection, reg)" by (cases res) auto
    obtain db where es: "es = AdmissionDone reg db # lock_trace lock (released_by le)"
      and rows: "\<forall>g c rec p rr. reg = Owner g c rec p rr \<longrightarrow>
            (\<forall>row \<in> set db. singleton_id row = 1 \<longrightarrow> owner_token row = Some (le_token le) \<and> owner_pid row = Some (le_pid le))"
      and lock: "(lock \<noteq> None) = (le_env le ''ORDER_STATE_DIR'' = None)" and insp: "qi_lock inspection \<in> {LockNone, LockStale}"
        "fst (inspect_legacy_queue_state (le_queue le) (la_queue st)) = Inr inspection"
      and lp: "lp_trace (la_loop st1) = []"
      using out1 res by (auto simp: admission_outcome_def)
    obtain ps where ps: "la_trace st' = la_trace st1 @ ps" "\<forall>e \<in> set ps. plain_effect le e"
      and loop: "if LoopEntered \<in> set ps then LegacyCleaned True \<in> set (takeWhile (\<lambda>e. e \<noteq> LoopEntered) ps) \<and>
             le_interrupted le = None \<and> (\<exists>g c rec p rr. reg = Owner g c rec p rr)
         else lp_trace (la_loop st') = []"
      using launcher_continues[OF run a[unfolded res]] unfolding lp by blast
    have full: "la_trace st' = (lock_trace lock CutoverLockTaken @ AdmissionDone reg db # lock_trace lock (released_by le)) @ ps"
      using ps(1) by (simp add: tr es)
    note fenced = admitted_trace[OF full ps(2)]
    let ?before = "takeWhile (\<lambda>e. e \<noteq> LoopEntered) (la_trace st')"
    have owned: "\<exists>g c rec p rr db. AdmissionDone (Owner g c rec p rr) db \<in> set ?before \<and>
        (\<forall>row \<in> set db. singleton_id row = 1 \<longrightarrow>
           owner_token row = Some (le_token le) \<and> owner_pid row = Some (le_pid le))" if entered: "LoopEntered \<in> set ps"
    proof -
      obtain g c rec p rr where reg: "reg = Owner g c rec p rr" using loop entered by auto
      have "AdmissionDone (Owner g c rec p rr) db \<in> set ?before" using fenced(6) reg by blast
      moreover have "\<forall>row \<in> set db. singleton_id row = 1 \<longrightarrow>
           owner_token row = Some (le_token le) \<and> owner_pid row = Some (le_pid le)" using rows reg by simp
      ultimately show ?thesis by (intro exI conjI)
    qed
    have "LegacyCleaned True \<in> set ?before" if "LoopEntered \<in> set ps" using loop that fenced(6) by auto
    moreover have "(\<forall>p. CutoverLockTaken p \<in> set (la_trace st') \<longrightarrow>
          CutoverLockReleased p (\<not> le_rmdirFails le) \<in> set ?before \<and>
          CutoverLockReleased p (\<not> le_rmdirFails le) \<in> set (la_trace st')) \<and>
       lock_held (la_trace st') = (le_rmdirFails le \<and> (\<exists>p. CutoverLockTaken p \<in> set (la_trace st')))"
      using fenced(1,7,8) by (auto dest: set_takeWhileD)
    ultimately show ?thesis
      using fenced(2-5) owned loop insp lock by (auto simp: Let_def split: if_splits)
  qed
qed

definition sample_launch :: launcher_env where
  "sample_launch = \<lparr>le_env = (\<lambda>_. None), le_home = ''/h'', le_mkdirParent = None, le_lockFree = True, le_rmdirFails = False,
     le_legacyRoot = (\<lambda>_. RootAbsent), le_queue = quiet_queue, le_mkdirState = None, le_open = plain_open,
     le_token = ''t1'', le_pid = 10, le_identity = Some ''ps-process:Mon'', le_bootEpochMs = 1, le_now = 5,
     le_callerName = ''c'', le_originAgent = ''a'', le_originSessionId = None,
     le_admission = quiet_env empty_os, le_interrupted = None, le_releaseFault = TxOk, le_dbBeforeRelease = id,
     le_owned = sample_owned_script, le_atEnd = no_cancellation\<rparr>"

definition before_launch :: launcher_state where
  "before_launch = \<lparr>la_trace = [], la_queue = \<lparr>qs_dir = \<lparr>sd_status = DirectoryListed, sd_names = [],
     sd_nodes = (\<lambda>_. None)\<rparr>, qs_step = 0, qs_moved = []\<rparr>, la_file = empty_file, la_loop = \<lparr>lp_db = [], lp_trace = []\<rparr>\<rparr>"

fun is_LoopEntered :: "launcher_effect \<Rightarrow> bool" where
  "is_LoopEntered LoopEntered = True"
| "is_LoopEntered _ = False"

lemma sample_launch_enters:
  "case run_public_launcher sample_launch before_launch of (x, st') \<Rightarrow>
     x = Some (Returned 0) \<and> list_ex is_LoopEntered (la_trace st')"
  by code_simp

theorem launcher_fences_work_witness:
  "\<exists>st'. run_public_launcher sample_launch before_launch = (Some (Returned 0), st') \<and>
     LoopEntered \<in> set (la_trace st') \<and> \<not> lock_held (la_trace st')"
proof -
  obtain st' where run: "run_public_launcher sample_launch before_launch = (Some (Returned 0), st')"
    "list_ex is_LoopEntered (la_trace st')"
    using sample_launch_enters by (auto split: prod.splits)
  have "la_trace before_launch = []" by (simp add: before_launch_def)
  moreover have "\<not> le_rmdirFails sample_launch" by (simp add: sample_launch_def)
  ultimately show ?thesis using launcher_fences_work[OF run(1)] run
    by (auto simp: list_ex_iff elim: is_LoopEntered.elims)
qed

end
