(* ===== verification/Cutover_Preflight.thy ===== *)
theory Cutover_Preflight
  imports Legacy_Queue Reconciler_Db
begin

text \<open>
  The read-only gate before the state of an earlier installation is taken over:
  \<open>src/src/modules/reconciliation/historical-turnlock-state.ts\<close> (what older runs left behind),
  \<open>reconciler-preflight.ts\<close> (the coordinator's directory and database) and
  \<open>src/src/utils/node-cutover-preflight.ts\<close> (both together), with \<open>node-cutover-types.ts\<close>. Every file is read once,
  so its content is an answer of the environment; the database and its side files are looked at twice, and the
  answers of the two moments are different parameters. \<open>JSON.parse\<close>, the date schema of zod and \<open>decodeTime\<close> of the
  package ulid are parameters.
\<close>

subsection \<open>Blockers and records\<close>

datatype blocker_kind =
    ActiveTurnlockLock | IncompatibleRun | InvalidClosureLedger | MalformedTurnlockLock | StaleTurnlockLock
  | UnreadableRunRoot | UnexpectedRunEntry
  | LiveQueueLock | StaleQueueLock | MalformedQueueLock | PendingOrder | UnreadableOrderState
  | ActiveReconciler | StaleReconciler | ActiveExecution | OrphanExecution | PendingReconciliation
  | UncheckpointedReconcilerDb | CorruptReconcilerDb | IncompatibleReconcilerDb

record cutover_blocker =
  cb_detail :: string
  cb_kind :: blocker_kind
  cb_subject :: string

definition blocker :: "blocker_kind \<Rightarrow> string \<Rightarrow> string \<Rightarrow> cutover_blocker" where
  "blocker kind subject detail = \<lparr>cb_detail = detail, cb_kind = kind, cb_subject = subject\<rparr>"

datatype run_classification = Drained | ExplicitlyClosed | RejectedIncompatible

record run_record =
  rr_classification :: run_classification
  rr_reason :: string
  rr_runId :: string

record closure_record =
  cl_closedAt :: string
  cl_reason :: string
  cl_runId :: string

subsection \<open>The environment\<close>

datatype file_answer = FileMissing | FileUnreadable | FileText string

datatype lock_file = NoLockFile | BadLockFile | LockText string

datatype run_listing = RunsMissing | RunsUnreadable | RunEntries "(string \<times> bool) list"

text \<open>\<open>ht_lease text\<close> is the integer part of a \<open>leaseUntilEpochMs\<close> of this text that is no integer, when it is finite;
  \<open>ht_fraction\<close> is what \<open>String\<close> makes of a number that is no integer.\<close>

record turnlock_env =
  ht_json :: "string \<Rightarrow> js_value option"
  ht_decodeTime :: "string \<Rightarrow> bool"
  ht_timestamp :: "string \<Rightarrow> bool"
  ht_lease :: "string \<Rightarrow> int option"
  ht_fraction :: string
  ht_ledger :: file_answer
  ht_runs :: run_listing
  ht_lock :: "string \<Rightarrow> lock_file"
  ht_state :: "string \<Rightarrow> file_answer"
  ht_events :: "string \<Rightarrow> file_answer"

subsection \<open>Values\<close>

definition ORCHESTRATOR_NAME :: string where "ORCHESTRATOR_NAME = ''git-commits-push-tl''"

definition is_run_id_char :: "char \<Rightarrow> bool" where
  "is_run_id_char c \<longleftrightarrow> is_digit c \<or> c \<in> set ''ABCDEFGHJKMNPQRSTVWXYZ''"

definition is_valid_run_id :: "turnlock_env \<Rightarrow> string \<Rightarrow> bool" where
  "is_valid_run_id te value \<longleftrightarrow> length value = 26 \<and> list_all is_run_id_char value \<and> ht_decodeTime te value"

definition by_run_id :: "('a \<Rightarrow> string) \<Rightarrow> 'a list \<Rightarrow> 'a list" where
  "by_run_id key xs = sort_by (\<lambda>a b. string_le (key a) (key b)) xs"

text \<open>\<open>String(value)\<close>.\<close>

fun js_string :: "string \<Rightarrow> js_value \<Rightarrow> string" where
  "js_string fraction JUndefined = ''undefined''"
| "js_string fraction JNull = ''null''"
| "js_string fraction (JBool b) = (if b then ''true'' else ''false'')"
| "js_string fraction (JInt i) = show_int i"
| "js_string fraction JNonInteger = fraction"
| "js_string fraction (JString s) = s"
| "js_string fraction (JArray vs) =
     join '','' (map (\<lambda>v. if v = JNull \<or> v = JUndefined then [] else js_string fraction v) vs)"
| "js_string fraction (JObject kvs) = ''[object Object]''"

fun json_text :: "js_value \<Rightarrow> string option" where
  "json_text (JString s) = Some s"
| "json_text _ = None"

subsection \<open>The closure ledger\<close>

definition closure_entry :: "turnlock_env \<Rightarrow> js_value \<Rightarrow> string + closure_record" where
  "closure_entry te value =
     (if \<not> is_json_object value then Inl ''closure ledger run entries must be objects''
      else case (json_text (get_prop value ''runId''), json_text (get_prop value ''closedAt''),
                 json_text (get_prop value ''reason'')) of
        (Some runId, Some closedAt, Some reason) \<Rightarrow>
          if is_valid_run_id te runId \<and> ht_timestamp te closedAt \<and> \<not> is_blank reason
          then Inr \<lparr>cl_closedAt = closedAt, cl_reason = reason, cl_runId = runId\<rparr>
          else Inl ''closure ledger entries require a ULID runId, timestamp, and reason''
      | _ \<Rightarrow> Inl ''closure ledger entries require a ULID runId, timestamp, and reason'')"

text \<open>The map of closures, in insertion order.\<close>

fun read_closures :: "turnlock_env \<Rightarrow> closure_record list \<Rightarrow> js_value list \<Rightarrow> string + closure_record list" where
  "read_closures te known [] = Inr known"
| "read_closures te known (value # rest) =
     (case closure_entry te value of
        Inl e \<Rightarrow> Inl e
      | Inr c \<Rightarrow>
          if cl_runId c \<in> cl_runId ` set known then Inl (''closure ledger contains duplicate runId '' @ cl_runId c)
          else read_closures te (known @ [c]) rest)"

definition parse_ledger :: "turnlock_env \<Rightarrow> string \<Rightarrow> string + closure_record list" where
  "parse_ledger te contents =
     (case ht_json te contents of
        None \<Rightarrow> Inl ''closure ledger is not valid JSON''
      | Some parsed \<Rightarrow>
          if \<not> is_json_object parsed \<or> get_prop parsed ''version'' \<noteq> JInt 1
          then Inl ''closure ledger must contain version 1 and a runs array''
          else (case get_prop parsed ''runs'' of
                  JArray runs \<Rightarrow> read_closures te [] runs
                | _ \<Rightarrow> Inl ''closure ledger must contain version 1 and a runs array''))"

definition invalid_closure_ledger :: "string \<Rightarrow> cutover_blocker list \<times> closure_record list" where
  "invalid_closure_ledger detail = ([blocker InvalidClosureLedger ''closure-ledger'' detail], [])"

definition read_closure_ledger :: "turnlock_env \<Rightarrow> cutover_blocker list \<times> closure_record list" where
  "read_closure_ledger te =
     (case ht_ledger te of
        FileMissing \<Rightarrow> ([], [])
      | FileUnreadable \<Rightarrow> invalid_closure_ledger ''closure ledger is unreadable''
      | FileText contents \<Rightarrow>
          (case parse_ledger te contents of
             Inl detail \<Rightarrow> invalid_closure_ledger detail
           | Inr closures \<Rightarrow> ([], closures)))"

subsection \<open>One run\<close>

definition inspect_turnlock_lock :: "turnlock_env \<Rightarrow> string \<Rightarrow> int \<Rightarrow> cutover_blocker list" where
  "inspect_turnlock_lock te runId nowEpochMs =
     (let malformed = [blocker MalformedTurnlockLock runId ''Turnlock lock is malformed or unreadable''] in
      case ht_lock te runId of
        NoLockFile \<Rightarrow> []
      | BadLockFile \<Rightarrow> malformed
      | LockText text \<Rightarrow>
          (case ht_json te text of
             None \<Rightarrow> malformed
           | Some parsed \<Rightarrow>
               (case (case get_prop parsed ''leaseUntilEpochMs'' of
                        JInt i \<Rightarrow> Some i | JNonInteger \<Rightarrow> ht_lease te text | _ \<Rightarrow> None) of
                  None \<Rightarrow> [blocker MalformedTurnlockLock runId ''Turnlock lock has no finite leaseUntilEpochMs'']
                | Some leaseUntil \<Rightarrow>
                    if nowEpochMs \<le> leaseUntil
                    then [blocker ActiveTurnlockLock runId ''Turnlock run lease is still active'']
                    else [blocker StaleTurnlockLock runId ''expired Turnlock lock must be removed before cutover''])))"

text \<open>The loop over the lines; \<open>finalEventIsTerminal\<close> and \<open>terminalSuccess\<close> are its variables.\<close>

fun scan_events ::
  "turnlock_env \<Rightarrow> string \<Rightarrow> bool \<Rightarrow> bool option \<Rightarrow> string list \<Rightarrow> string + bool \<times> bool option" where
  "scan_events te runId finalTerminal success [] = Inr (finalTerminal, success)"
| "scan_events te runId finalTerminal success (line # rest) =
     (if is_blank line then scan_events te runId finalTerminal success rest
      else case ht_json te line of
        None \<Rightarrow> Inl ''events.ndjson contains malformed JSON''
      | Some event \<Rightarrow>
          if \<not> is_json_object event then Inl ''events.ndjson contains a non-object event''
          else if get_prop event ''eventType'' \<noteq> JString ''orchestrator_end''
          then scan_events te runId False success rest
          else (case get_prop event ''success'' of
                  JBool b \<Rightarrow>
                    if get_prop event ''runId'' = JString runId
                       \<and> get_prop event ''orchestratorName'' = JString ORCHESTRATOR_NAME
                    then scan_events te runId True (Some b) rest
                    else Inl ''orchestrator_end event does not match its run''
                | _ \<Rightarrow> Inl ''orchestrator_end event does not match its run''))"

text \<open>\<^const>\<open>Inl\<close> is a \<open>reason\<close>, \<open>Inr (Some b)\<close> a \<open>terminalSuccess\<close>.\<close>

definition read_terminal_event :: "turnlock_env \<Rightarrow> string \<Rightarrow> string + bool option" where
  "read_terminal_event te runId =
     (case ht_events te runId of
        FileMissing \<Rightarrow> Inr None
      | FileUnreadable \<Rightarrow> Inl ''events.ndjson is unreadable''
      | FileText contents \<Rightarrow>
          (case scan_events te runId False None (split_on (CHR 0x0A) contents) of
             Inl reason \<Rightarrow> Inl reason
           | Inr (finalTerminal, success) \<Rightarrow> Inr (if finalTerminal then success else None)))"

definition read_state_incompatibility_reason :: "turnlock_env \<Rightarrow> string \<Rightarrow> string option" where
  "read_state_incompatibility_reason te runId =
     (case (case ht_state te runId of FileText t \<Rightarrow> ht_json te t | _ \<Rightarrow> None) of
        None \<Rightarrow> Some ''state.json is missing, malformed, or unreadable''
      | Some state \<Rightarrow>
          if \<not> is_json_object state then Some ''state.json is not an object''
          else if get_prop state ''schemaVersion'' \<noteq> JInt 2
          then Some (''state schemaVersion '' @ js_string (ht_fraction te) (get_prop state ''schemaVersion'')
                 @ '' is incompatible with Node cutover'')
          else if get_prop state ''runId'' \<noteq> JString runId \<or> get_prop state ''orchestratorName'' \<noteq> JString ORCHESTRATOR_NAME
          then Some ''state.json identity does not match its run directory''
          else None)"

definition rejected :: "string \<Rightarrow> cutover_blocker list \<Rightarrow> string \<Rightarrow> cutover_blocker list \<times> run_record" where
  "rejected runId blockers reason =
     (blockers @ [blocker IncompatibleRun runId reason],
      \<lparr>rr_classification = RejectedIncompatible, rr_reason = reason, rr_runId = runId\<rparr>)"

definition closed_record :: "closure_record \<Rightarrow> run_record" where
  "closed_record c = \<lparr>rr_classification = ExplicitlyClosed, rr_reason = cl_closedAt c @ '': '' @ cl_reason c,
     rr_runId = cl_runId c\<rparr>"

definition inspect_run ::
  "turnlock_env \<Rightarrow> string \<Rightarrow> closure_record option \<Rightarrow> int \<Rightarrow> cutover_blocker list \<times> run_record" where
  "inspect_run te runId closure nowEpochMs =
     (let blockers = inspect_turnlock_lock te runId nowEpochMs in
      case closure of
        Some c \<Rightarrow> (blockers, \<lparr>rr_classification = ExplicitlyClosed,
                     rr_reason = cl_closedAt c @ '': '' @ cl_reason c, rr_runId = runId\<rparr>)
      | None \<Rightarrow>
          (case read_state_incompatibility_reason te runId of
             Some reason \<Rightarrow> rejected runId blockers reason
           | None \<Rightarrow>
               (case read_terminal_event te runId of
                  Inl reason \<Rightarrow> rejected runId blockers reason
                | Inr (Some True) \<Rightarrow>
                    (blockers, \<lparr>rr_classification = Drained,
                       rr_reason = ''terminal orchestrator_end success event'', rr_runId = runId\<rparr>)
                | Inr (Some False) \<Rightarrow>
                    rejected runId blockers
                      ''terminal orchestrator_end failure event requires explicit closure before cutover''
                | Inr None \<Rightarrow>
                    rejected runId blockers
                      ''historical non-terminal run requires explicit closure before cutover'')))"

subsection \<open>All runs\<close>

fun inspect_runs ::
  "turnlock_env \<Rightarrow> closure_record list \<Rightarrow> int \<Rightarrow> (string \<times> bool) list \<Rightarrow> cutover_blocker list \<times> run_record list" where
  "inspect_runs te closures nowEpochMs [] = ([], [])"
| "inspect_runs te closures nowEpochMs ((name, isDirectory) # rest) =
     (let (bs, rs) = inspect_runs te closures nowEpochMs rest in
      if \<not> isDirectory \<or> \<not> is_valid_run_id te name
      then (blocker UnexpectedRunEntry name ''Turnlock run root contains a non-run entry'' # bs, rs)
      else let (b, r) = inspect_run te name (List.find (\<lambda>c. cl_runId c = name) closures) nowEpochMs
           in (b @ bs, r # rs))"

definition inspect_historical_turnlock_state :: "turnlock_env \<Rightarrow> int \<Rightarrow> cutover_blocker list \<times> run_record list" where
  "inspect_historical_turnlock_state te nowEpochMs =
     (let (ledgerBlockers, closures) = read_closure_ledger te in
      case ht_runs te of
        RunsUnreadable \<Rightarrow>
          (ledgerBlockers @ [blocker UnreadableRunRoot ''turnlock-runs'' ''Turnlock run root is unreadable''], [])
      | listing \<Rightarrow>
          (let entries = (case listing of RunEntries es \<Rightarrow> by_run_id fst es | _ \<Rightarrow> []);
               (bs, rs) = inspect_runs te closures nowEpochMs entries;
               unclassified = filter (\<lambda>c. cl_runId c \<notin> rr_runId ` set rs) (by_run_id cl_runId closures)
           in (ledgerBlockers @ bs, by_run_id rr_runId (rs @ map closed_record unclassified))))"


subsection \<open>The coordinator's directory\<close>

text \<open>The database is the file that is read, at the two statements that read it; \<open>rp_transient i\<close> says which side
  files are there, or cannot be inspected, and \<open>rp_fingerprint i\<close> is the fingerprint or an error, at moment \<open>i\<close>.\<close>

record preflight_env =
  rp_queue :: queue_env
  rp_directory :: queue_state
  rp_dbPath :: string
  rp_stat :: file_stat
  rp_transient :: "nat \<Rightarrow> string \<Rightarrow> bool"
  rp_fingerprint :: "nat \<Rightarrow> string + string"
  rp_open :: open_env
  rp_file :: db_file
  rp_atRead :: "db \<Rightarrow> db"
  rp_os :: "nat \<Rightarrow> os_view"
  rp_invariantText :: "op_error \<Rightarrow> string"
  rp_probeText :: "probe_error \<Rightarrow> string"

definition DB_SUBJECT :: string where "DB_SUBJECT = ''reconciler.sqlite''"

definition SQLITE_TRANSIENT_FILE_SUFFIXES :: "string list" where
  "SQLITE_TRANSIENT_FILE_SUFFIXES = [''-journal'', ''-shm'', ''-wal'']"

text \<open>The suffixes are in alphabetical order already, so sorting changes nothing.\<close>

definition list_sqlite_transient_files :: "preflight_env \<Rightarrow> nat \<Rightarrow> string list" where
  "list_sqlite_transient_files pe moment =
     filter (rp_transient pe moment) (map (\<lambda>suffix. rp_dbPath pe @ suffix) SQLITE_TRANSIENT_FILE_SUFFIXES)"

definition uncheckpointed_database_blocker :: "string list \<Rightarrow> cutover_blocker" where
  "uncheckpointed_database_blocker transientFiles =
     blocker UncheckpointedReconcilerDb DB_SUBJECT
       (if transientFiles \<noteq> []
        then ''SQLite transient state is present ('' @ join '', '' (map (after_last (CHR ''/'')) transientFiles)
          @ ''); refusing a potentially stale immutable read''
        else ''reconciler database changed during immutable inspection'')"

fun legacy_lock_blocker :: "lock_classification \<Rightarrow> cutover_blocker list" where
  "legacy_lock_blocker LockNone = []"
| "legacy_lock_blocker LockLive =
     [blocker LiveQueueLock LEGACY_LOCK_FILE_NAME ''legacy queue lock heartbeat is still live'']"
| "legacy_lock_blocker LockStale =
     [blocker StaleQueueLock LEGACY_LOCK_FILE_NAME ''stale legacy queue lock must be migrated before cutover'']"
| "legacy_lock_blocker LockMalformed =
     [blocker MalformedQueueLock LEGACY_LOCK_FILE_NAME ''legacy queue lock is malformed or unreadable'']"

definition liveness_text :: "execution_boundary_liveness \<Rightarrow> string" where
  "liveness_text l = (case l of AliveExact \<Rightarrow> ''alive-exact'' | Dead \<Rightarrow> ''dead'' | Ambiguous \<Rightarrow> ''ambiguous'')"

definition owner_is_exact :: "preflight_env \<Rightarrow> reconciler_state \<Rightarrow> bool" where
  "owner_is_exact pe state =
     (case (ownerToken state, ownerPid state, ownerProcessIdentity state) of
        (Some _, Some pid, Some identity) \<Rightarrow>
          (if is_process_alive (rp_os pe 0) pid then read_process_start_identity (rp_os pe 1) pid else None) = Some identity
      | _ \<Rightarrow> False)"

definition owner_blocker :: "preflight_env \<Rightarrow> reconciler_state \<Rightarrow> cutover_blocker list" where
  "owner_blocker pe state =
     (case (ownerToken state, ownerPid state, ownerProcessIdentity state) of
        (Some _, Some pid, Some identity) \<Rightarrow>
          [blocker (if owner_is_exact pe state then ActiveReconciler else StaleReconciler) DB_SUBJECT
             (''reconciliation owner is '' @ (if owner_is_exact pe state then ''live'' else ''stale or unverifiable'')
              @ '' (pid '' @ show_int pid @ '', generation ''
              @ (case runningGeneration state of None \<Rightarrow> ''null'' | Some g \<Rightarrow> show_int g) @ '')'')]
      | _ \<Rightarrow> [])"

definition execution_blocker ::
  "preflight_env \<Rightarrow> reconciler_state \<Rightarrow> probe_error + cutover_blocker list" where
  "execution_blocker pe state =
     (case activeExecution state of
        None \<Rightarrow> Inr []
      | Some e \<Rightarrow>
          (case classify_execution_boundary (rp_os pe 2) e of
             Inl err \<Rightarrow> Inl err
           | Inr liveness \<Rightarrow>
               Inr [blocker (if owner_is_exact pe state \<and> liveness = AliveExact then ActiveExecution else OrphanExecution)
                      DB_SUBJECT (''durable Git execution is '' @ liveness_text liveness @ '' (pid '' @ show_int (ae_pid e)
                        @ '', generation '' @ show_int (ae_generation e) @ '')'')]))"

definition pending_blocker :: "reconciler_state \<Rightarrow> cutover_blocker list" where
  "pending_blocker state =
     (if ownerToken state = None \<and> requestedGeneration state > completedGeneration state
      then [blocker PendingReconciliation DB_SUBJECT
              (''reconciliation is pending (requested '' @ show_int (requestedGeneration state) @ '' > completed ''
               @ show_int (completedGeneration state) @ '') with no active owner'')]
      else [])"

text \<open>The body of the \<open>try\<close>: the blockers that end the inspection, or those of the state.\<close>

definition inspect_database :: "preflight_env \<Rightarrow> cutover_blocker + cutover_blocker list" where
  "inspect_database pe =
     (case open_reconciler_db ((rp_open pe)\<lparr>oe_path := rp_dbPath pe\<rparr>) True (rp_file pe) of
        (Inl (OpenMissing _), _) \<Rightarrow> Inl (uncheckpointed_database_blocker [])
      | (Inl (IncompatibleSchema m), _) \<Rightarrow> Inl (blocker IncompatibleReconcilerDb DB_SUBJECT m)
      | (Inl (OpenCorrupt m), _) \<Rightarrow> Inl (blocker CorruptReconcilerDb DB_SUBJECT m)
      | (Inr _, f) \<Rightarrow>
          (case read_state (rp_atRead pe (df_rows f)) of
             Inl e \<Rightarrow> Inl (blocker CorruptReconcilerDb DB_SUBJECT (rp_invariantText pe e))
           | Inr state \<Rightarrow>
               (case execution_blocker pe state of
                  Inl err \<Rightarrow> Inl (blocker CorruptReconcilerDb DB_SUBJECT
                      (''reconciler database read failed: '' @ rp_probeText pe err))
                | Inr bs \<Rightarrow> Inr (owner_blocker pe state @ bs @ pending_blocker state))))"

definition database_blockers :: "preflight_env \<Rightarrow> cutover_blocker list" where
  "database_blockers pe =
     (case rp_fingerprint pe 0 of
        Inl m \<Rightarrow> [blocker CorruptReconcilerDb DB_SUBJECT (''reconciler database cannot be inspected: '' @ m)]
      | Inr fingerprintBefore \<Rightarrow>
          (case inspect_database pe of
             Inl b \<Rightarrow> [b]
           | Inr databaseBlockers \<Rightarrow>
               if list_sqlite_transient_files pe 1 \<noteq> [] \<or> rp_fingerprint pe 1 \<noteq> Inr fingerprintBefore
               then [uncheckpointed_database_blocker (list_sqlite_transient_files pe 1)]
               else databaseBlockers))"

definition inspect_reconciliation_preflight_state ::
  "preflight_env \<Rightarrow> int \<Rightarrow> cutover_blocker list" where
  "inspect_reconciliation_preflight_state pe nowEpochMs =
     (case inspect_legacy_queue_state ((rp_queue pe)\<lparr>qe_now := (\<lambda>_. nowEpochMs)\<rparr>) (rp_directory pe) of
        (Inl m, _) \<Rightarrow> [blocker UnreadableOrderState ''order-state'' (''order state directory is unreadable: '' @ m)]
      | (Inr legacy, _) \<Rightarrow>
          legacy_lock_blocker (qi_lock legacy) @
          map (\<lambda>e. blocker PendingOrder (after_last (CHR ''/'') (ev_path e))
                 ''legacy queued order artifact must be migrated before cutover'') (qi_orders legacy) @
          (case rp_stat pe of
             StatFails m \<Rightarrow> [blocker CorruptReconcilerDb DB_SUBJECT (''reconciler database cannot be inspected: '' @ m)]
           | StatMissing \<Rightarrow> []
           | StatOther \<Rightarrow> [blocker CorruptReconcilerDb DB_SUBJECT ''reconciler database path is not a regular file'']
           | StatRegular \<Rightarrow>
               if list_sqlite_transient_files pe 0 \<noteq> []
               then [uncheckpointed_database_blocker (list_sqlite_transient_files pe 0)]
               else database_blockers pe))"

subsection \<open>The gate\<close>

record cutover_report =
  cr_blockers :: "cutover_blocker list"
  cr_classifications :: "run_record list"
  cr_ready :: bool
  cr_drained :: nat
  cr_explicitlyClosed :: nat
  cr_rejectedIncompatible :: nat

definition count_class :: "run_classification \<Rightarrow> run_record list \<Rightarrow> nat" where
  "count_class k rs = length (filter (\<lambda>r. rr_classification r = k) rs)"

text \<open>\<open>nowEpochMs\<close> is \<^const>\<open>None\<close> when it is not finite; times are whole milliseconds.\<close>

definition inspect_node_cutover_state ::
  "turnlock_env \<Rightarrow> preflight_env \<Rightarrow> int option \<Rightarrow> string + cutover_report" where
  "inspect_node_cutover_state te pe now =
     (case now of
        None \<Rightarrow> Inl ''nowEpochMs must be finite''
      | Some nowEpochMs \<Rightarrow>
          (let (historical, classifications) = inspect_historical_turnlock_state te nowEpochMs;
               blockers = historical @ inspect_reconciliation_preflight_state pe nowEpochMs
           in Inr \<lparr>cr_blockers = blockers, cr_classifications = classifications, cr_ready = (blockers = []),
                   cr_drained = count_class Drained classifications,
                   cr_explicitlyClosed = count_class ExplicitlyClosed classifications,
                   cr_rejectedIncompatible = count_class RejectedIncompatible classifications\<rparr>))"


subsection \<open>Ready means quiescent\<close>

definition run_settled :: "turnlock_env \<Rightarrow> closure_record list \<Rightarrow> string \<Rightarrow> bool" where
  "run_settled te closures name \<longleftrightarrow> ht_lock te name = NoLockFile \<and>
     (name \<in> cl_runId ` set closures \<or>
      read_state_incompatibility_reason te name = None \<and> read_terminal_event te name = Inr (Some True))"

definition history_settled :: "turnlock_env \<Rightarrow> bool" where
  "history_settled te \<longleftrightarrow>
     (case read_closure_ledger te of (ledgerBlockers, closures) \<Rightarrow> ledgerBlockers = [] \<and>
        (case ht_runs te of
           RunsMissing \<Rightarrow> True
         | RunsUnreadable \<Rightarrow> False
         | RunEntries es \<Rightarrow> (\<forall>(name, isDirectory) \<in> set es.
             isDirectory \<and> is_valid_run_id te name \<and> run_settled te closures name)))"

text \<open>The database that was read is idle: no owner, no execution, nothing requested that is not completed.\<close>

definition idle_database :: "preflight_env \<Rightarrow> bool" where
  "idle_database pe \<longleftrightarrow>
     (\<exists>f s. open_reconciler_db ((rp_open pe)\<lparr>oe_path := rp_dbPath pe\<rparr>) True (rp_file pe) = (Inr (), f) \<and>
        read_state (rp_atRead pe (df_rows f)) = Inr s \<and> ownerToken s = None \<and> activeExecution s = None \<and>
        requestedGeneration s = completedGeneration s)"

definition coordinator_quiescent :: "preflight_env \<Rightarrow> int \<Rightarrow> bool" where
  "coordinator_quiescent pe now \<longleftrightarrow>
     (\<exists>legacy. fst (inspect_legacy_queue_state ((rp_queue pe)\<lparr>qe_now := (\<lambda>_. now)\<rparr>) (rp_directory pe)) = Inr legacy \<and>
        qi_lock legacy = LockNone \<and> qi_orders legacy = []) \<and>
     (rp_stat pe = StatMissing \<or>
      rp_stat pe = StatRegular \<and> (\<forall>i \<in> {0, 1}. list_sqlite_transient_files pe i = []) \<and>
      (\<exists>fingerprint. \<forall>i \<in> {0, 1}. rp_fingerprint pe i = Inr fingerprint) \<and> idle_database pe)"

lemma set_by_run_id [simp]: "set (by_run_id key xs) = set xs"
  by (simp add: by_run_id_def)

lemma lock_blockers_iff: "inspect_turnlock_lock te name now = [] \<longleftrightarrow> ht_lock te name = NoLockFile"
  by (auto simp: inspect_turnlock_lock_def Let_def split: lock_file.splits option.splits)

lemma find_closure: "List.find (\<lambda>c. cl_runId c = name) cs = None \<longleftrightarrow> name \<notin> cl_runId ` set cs"
  by (auto simp: find_None_iff)

lemma inspect_run_clear:
  "fst (inspect_run te name (List.find (\<lambda>c. cl_runId c = name) cs) now) = [] \<longleftrightarrow> run_settled te cs name"
  using find_closure[of name cs] lock_blockers_iff[of te name now]
  by (cases "List.find (\<lambda>c. cl_runId c = name) cs")
    (auto simp: inspect_run_def run_settled_def rejected_def Let_def split: option.splits sum.splits bool.splits)

lemma inspect_runs_clear:
  "fst (inspect_runs te cs now es) = [] \<longleftrightarrow>
     (\<forall>(name, isDirectory) \<in> set es. isDirectory \<and> is_valid_run_id te name \<and> run_settled te cs name)"
  by (induction es) (auto simp: Let_def case_prod_beta inspect_run_clear split: if_splits)

text \<open>Every rejected run has a blocker.\<close>

lemma inspect_run_rejected:
  "rr_classification (snd (inspect_run te name c now)) = RejectedIncompatible \<Longrightarrow> fst (inspect_run te name c now) \<noteq> []"
  by (auto simp: inspect_run_def rejected_def Let_def split: option.splits sum.splits bool.splits)

lemma inspect_runs_rejected:
  "fst (inspect_runs te cs now es) = [] \<Longrightarrow> r \<in> set (snd (inspect_runs te cs now es)) \<Longrightarrow>
     rr_classification r \<noteq> RejectedIncompatible"
  using inspect_run_rejected
  by (induction es) (fastforce simp: Let_def case_prod_beta split: if_splits)+

lemma history_clear:
  "fst (inspect_historical_turnlock_state te now) = [] \<longleftrightarrow> history_settled te"
  by (cases "ht_runs te")
    (simp_all add: inspect_historical_turnlock_state_def history_settled_def Let_def case_prod_beta inspect_runs_clear)

lemma history_rejected:
  assumes "fst (inspect_historical_turnlock_state te now) = []" "r \<in> set (snd (inspect_historical_turnlock_state te now))"
  shows "rr_classification r \<noteq> RejectedIncompatible"
  using assms inspect_runs_rejected
  by (cases "ht_runs te")
    (auto simp: inspect_historical_turnlock_state_def closed_record_def Let_def case_prod_beta)

lemma valid_owner_fields:
  "valid_state s \<Longrightarrow> ownerToken s \<noteq> None \<Longrightarrow> ownerPid s \<noteq> None \<and> ownerProcessIdentity s \<noteq> None"
  by (cases "ownerPid s"; cases "ownerProcessIdentity s")
    (auto simp: valid_state_def no_owner_def valid_owner_def is_non_empty_def is_positive_integer_def split: option.splits)

lemma database_clear: "inspect_database pe = Inr [] \<longleftrightarrow> idle_database pe"
proof (cases "\<exists>f s. open_reconciler_db ((rp_open pe)\<lparr>oe_path := rp_dbPath pe\<rparr>) True (rp_file pe) = (Inr (), f) \<and>
    read_state (rp_atRead pe (df_rows f)) = Inr s")
  case True
  then obtain f s where o1: "open_reconciler_db ((rp_open pe)\<lparr>oe_path := rp_dbPath pe\<rparr>) True (rp_file pe) = (Inr (), f)"
    and r: "read_state (rp_atRead pe (df_rows f)) = Inr s" by blast
  have v: "valid_state s" using r by (simp add: read_state_iff)
  have "owner_blocker pe s = [] \<longleftrightarrow> ownerToken s = None"
    using valid_owner_fields[OF v] by (cases "ownerToken s") (auto simp: owner_blocker_def)
  moreover have "execution_blocker pe s = Inr [] \<longleftrightarrow> activeExecution s = None"
    by (auto simp: execution_blocker_def split: option.splits sum.splits)
  moreover have "pending_blocker s = [] \<longleftrightarrow> ownerToken s \<noteq> None \<or> requestedGeneration s = completedGeneration s"
    using v by (cases "ownerToken s") (auto simp: pending_blocker_def valid_state_def)
  ultimately show ?thesis
    using o1 r by (auto simp: inspect_database_def idle_database_def split: sum.splits)
next
  case False
  then show ?thesis
    by (auto simp: inspect_database_def idle_database_def split: sum.splits prod.splits open_error.splits)
qed

lemma preflight_clear: "inspect_reconciliation_preflight_state pe now = [] \<longleftrightarrow> coordinator_quiescent pe now"
proof -
  have db: "database_blockers pe = [] \<longleftrightarrow> list_sqlite_transient_files pe 1 = [] \<and>
      (\<exists>fingerprint. \<forall>i \<in> {0, 1}. rp_fingerprint pe i = Inr fingerprint) \<and> idle_database pe"
    unfolding database_clear[symmetric]
    by (auto simp: database_blockers_def split: sum.splits)
  have lock: "legacy_lock_blocker l = [] \<longleftrightarrow> l = LockNone" for l by (cases l) simp_all
  show ?thesis
    by (auto simp: inspect_reconciliation_preflight_state_def coordinator_quiescent_def db lock
        split: sum.splits prod.splits file_stat.splits)
qed


lemma count_classes:
  "count_class Drained rs + count_class ExplicitlyClosed rs + count_class RejectedIncompatible rs = length rs"
proof (induction rs)
  case (Cons r rs)
  then show ?case by (cases "rr_classification r") (simp_all add: count_class_def)
qed (simp add: count_class_def)


text \<open>A finished run and an idle database.\<close>

definition finished_run :: string where "finished_run = ''01ARZ3NDEKTSV4RRFFQ69G5FAV''"

definition settled_history :: turnlock_env where
  "settled_history = \<lparr>ht_json = (\<lambda>text. Some (JObject (if text = ''state''
       then [(''schemaVersion'', JInt 2), (''runId'', JString finished_run), (''orchestratorName'', JString ORCHESTRATOR_NAME)]
       else [(''eventType'', JString ''orchestrator_end''), (''runId'', JString finished_run),
             (''orchestratorName'', JString ORCHESTRATOR_NAME), (''success'', JBool True)]))),
     ht_decodeTime = (\<lambda>_. True), ht_timestamp = (\<lambda>_. True), ht_lease = (\<lambda>_. None), ht_fraction = ''0.5'',
     ht_ledger = FileMissing, ht_runs = RunEntries [(finished_run, True)], ht_lock = (\<lambda>_. NoLockFile),
     ht_state = (\<lambda>_. FileText ''state''), ht_events = (\<lambda>_. FileText ''event'')\<rparr>"

definition idle_directory :: preflight_env where
  "idle_directory = \<lparr>rp_queue = quiet_queue,
     rp_directory = \<lparr>qs_dir = \<lparr>sd_status = DirectoryListed, sd_names = [], sd_nodes = (\<lambda>_. None)\<rparr>, qs_step = 0, qs_moved = []\<rparr>,
     rp_dbPath = ''/s/reconciler.sqlite'', rp_stat = StatRegular, rp_transient = (\<lambda>_ _. False),
     rp_fingerprint = (\<lambda>_. Inr ''1:2:3''), rp_open = plain_open, rp_file = fresh_file, rp_atRead = id,
     rp_os = (\<lambda>_. \<lparr>os_platform = Linux, kill_probe = (\<lambda>_. Some ESRCH), boot_id_file = None,
       proc_stat_file = (\<lambda>_. None), ps_lstart_command = (\<lambda>_. None), ps_pgid = (\<lambda>_. None)\<rparr>),
     rp_invariantText = (\<lambda>_. ''invalid''), rp_probeText = (\<lambda>_. ''probe'')\<rparr>"

lemma settled_report: "map_sum id cr_ready (inspect_node_cutover_state settled_history idle_directory (Some 5)) = Inr True"
  by code_simp


end
