(* ===== verification/Private_Files.thy ===== *)
theory Private_Files
  imports Prelude
begin

text \<open>
  The tests of a private physical file or directory that \<open>src/packages/trust/src/index.ts\<close> and
  \<open>src/src/modules/installation/install-lock.ts\<close> share: what \<open>lstat\<close> says of an entry, and files by their names.
\<close>

record fs_entry =
  fe_isDirectory :: bool
  fe_isFile :: bool
  fe_isSymbolicLink :: bool
  fe_mode :: nat
  fe_uid :: int

text \<open>\<open>size\<close> counts bytes; a code unit above 127 takes two in UTF-8.\<close>

record private_file =
  pf_entry :: fs_entry
  pf_size :: nat
  pf_text :: string

definition utf8_length :: "string \<Rightarrow> nat" where
  "utf8_length s = sum_list (map (\<lambda>c. if (of_char c :: nat) < 128 then 1 else 2) s)"

text \<open>\<open>getuid\<close> is \<^const>\<open>None\<close> where the platform has none.\<close>

definition has_expected_owner :: "int option \<Rightarrow> int \<Rightarrow> bool" where
  "has_expected_owner getuid uid \<longleftrightarrow> (case getuid of None \<Rightarrow> True | Some u \<Rightarrow> uid = u)"

definition permission_bits :: "nat \<Rightarrow> nat" where
  "permission_bits mode = mode mod 512"

text \<open>A regular file with mode \<open>0o600\<close>, a directory with mode \<open>0o700\<close>, of this user.\<close>

definition is_private_file :: "int option \<Rightarrow> fs_entry \<Rightarrow> bool" where
  "is_private_file getuid stats \<longleftrightarrow> fe_isFile stats \<and> \<not> fe_isSymbolicLink stats \<and> permission_bits (fe_mode stats) = 384 \<and>
     has_expected_owner getuid (fe_uid stats)"

definition is_private_directory :: "int option \<Rightarrow> fs_entry \<Rightarrow> bool" where
  "is_private_directory getuid stats \<longleftrightarrow> fe_isDirectory stats \<and> \<not> fe_isSymbolicLink stats \<and>
     permission_bits (fe_mode stats) = 448 \<and> has_expected_owner getuid (fe_uid stats)"

text \<open>A file created with \<open>O_EXCL\<close> and mode \<open>0o600\<close>.\<close>

definition new_private_file :: "int option \<Rightarrow> string \<Rightarrow> private_file" where
  "new_private_file getuid text =
     \<lparr>pf_entry = \<lparr>fe_isDirectory = False, fe_isFile = True, fe_isSymbolicLink = False, fe_mode = 384,
                  fe_uid = nullish getuid 0\<rparr>,
      pf_size = utf8_length text, pf_text = text\<rparr>"

lemma new_file_private [simp]: "is_private_file getuid (pf_entry (new_private_file getuid text))"
  by (cases getuid) (simp_all add: is_private_file_def new_private_file_def permission_bits_def has_expected_owner_def)

lemma new_file_fields [simp]:
  "pf_text (new_private_file getuid text) = text" "pf_size (new_private_file getuid text) = utf8_length text"
  by (simp_all add: new_private_file_def)

definition is_lower_hex :: "char \<Rightarrow> bool" where
  "is_lower_hex c \<longleftrightarrow> is_digit c \<or> c \<in> set ''abcdef''"

text \<open>\<open>/^[a-f0-9]{n}$/\<close>.\<close>

definition is_hex :: "nat \<Rightarrow> string \<Rightarrow> bool" where
  "is_hex n s \<longleftrightarrow> length s = n \<and> list_all is_lower_hex s"

end
