(* ===== verification/Release_Identity.thy ===== *)
theory Release_Identity
  imports JS_Regex Posix_Paths Private_Files
begin

text \<open>
  The names of installed releases, \<open>src/src/modules/installation/release-identity.ts\<close>, and the places of an
  installation, \<open>src/src/modules/installation/install-paths.ts\<close>: a release is a directory named by its version and
  the digest of its content.
\<close>

subsection \<open>Names\<close>

definition SEMVER_NUMBER :: rx where
  "SEMVER_NUMBER = rx_any [rx_chr (CHR ''0''), Seq (Cls (\<lambda>c. is_digit c \<and> c \<noteq> CHR ''0'')) (Star rx_digit)]"

definition STABLE_SEMVER_PATTERN :: rx where
  "STABLE_SEMVER_PATTERN = rx_seq [SEMVER_NUMBER, rx_chr (CHR ''.''), SEMVER_NUMBER, rx_chr (CHR ''.''), SEMVER_NUMBER]"

definition PACKAGE_VERSION_PATTERN :: rx where
  "PACKAGE_VERSION_PATTERN = rx_seq [AtStart, STABLE_SEMVER_PATTERN, AtEnd]"

definition RELEASE_NAME_PATTERN :: rx where
  "RELEASE_NAME_PATTERN =
     rx_seq [AtStart, STABLE_SEMVER_PATTERN, rx_chr (CHR ''-''), rx_times 64 (Cls is_lower_hex), AtEnd]"

definition is_package_version :: "string \<Rightarrow> bool" where
  "is_package_version v = rx_test PACKAGE_VERSION_PATTERN v"

definition create_standalone_release_name :: "string \<Rightarrow> string \<Rightarrow> string + string" where
  "create_standalone_release_name version digest =
     (if \<not> is_package_version version then Inl ''Deployed package manifest is invalid.''
      else if \<not> is_hex 64 digest then Inl ''Standalone release digest must be a complete SHA-256.''
      else Inr (version @ ''-'' @ digest))"

definition is_standalone_release_name :: "string \<Rightarrow> bool" where
  "is_standalone_release_name candidate = rx_test RELEASE_NAME_PATTERN candidate"

subsection \<open>A created name is a release name\<close>

text \<open>Patterns that do not look at what follows match in any context.\<close>

fun forward_rx :: "rx \<Rightarrow> bool" where
  "forward_rx (Seq a b) = (forward_rx a \<and> forward_rx b)"
| "forward_rx (Alt a b) = (forward_rx a \<and> forward_rx b)"
| "forward_rx (Star a) = forward_rx a"
| "forward_rx Eps = True"
| "forward_rx (Cls f) = True"
| "forward_rx _ = False"

lemma rx_matches_extend: "rx_matches r p s q t \<Longrightarrow> forward_rx r \<Longrightarrow> rx_matches r p (s @ x) q (t @ x)"
  by (induction rule: rx_matches.induct) (auto intro: rx_matches.intros)

lemma anchored_search:
  assumes "rx_test (Seq AtStart r) s"
  shows "\<exists>q t. rx_matches r None s q t"
proof -
  have late: "\<not> rx_search (Seq AtStart r) (Some c) w" for c w
    by (induction w arbitrary: c) auto
  have "rx_ends (Seq AtStart r) None s \<noteq> []"
    using assms late by (cases s) (auto simp: rx_test_def)
  then obtain q t where "(q, t) \<in> set (rx_ends (Seq AtStart r) None s)" by (cases "rx_ends (Seq AtStart r) None s") auto
  then have "rx_matches (Seq AtStart r) None s q t" by (rule rx_ends_sound)
  then show ?thesis by (auto elim!: rx_matches_cases)
qed

lemma semver_forward: "forward_rx STABLE_SEMVER_PATTERN"
  by (simp add: STABLE_SEMVER_PATTERN_def SEMVER_NUMBER_def rx_chr_def)

lemma created_name_is_release_name:
  assumes "create_standalone_release_name version digest = Inr name"
  shows "is_standalone_release_name name"
proof -
  have v: "is_package_version version" "is_hex 64 digest" "name = version @ ''-'' @ digest"
    using assms by (auto simp: create_standalone_release_name_def split: if_splits)
  obtain q t where "rx_matches (Seq STABLE_SEMVER_PATTERN AtEnd) None version q t"
    using anchored_search[of "Seq STABLE_SEMVER_PATTERN AtEnd" version] v(1)
    by (auto simp: is_package_version_def PACKAGE_VERSION_PATTERN_def)
  then have "rx_matches STABLE_SEMVER_PATTERN None version q []" by (auto elim!: rx_matches_cases)
  then have first: "rx_matches STABLE_SEMVER_PATTERN None name q (''-'' @ digest)"
    using rx_matches_extend[OF _ semver_forward] v(3) by fastforce
  obtain r where "rx_matches (rx_times 64 (Cls is_lower_hex)) (Some (CHR ''-'')) digest r []"
    using rx_times_matches[of digest 64 is_lower_hex _ "[]"] v(2) by (auto simp: is_hex_def)
  then have "rx_matches RELEASE_NAME_PATTERN None name r []"
    using first unfolding RELEASE_NAME_PATTERN_def rx_seq.simps rx_chr_def
    by (intro rx_matches.intros) (auto intro: rx_matches.intros)
  then show ?thesis
    using rx_test_at[of RELEASE_NAME_PATTERN "[]" name] by (simp add: is_standalone_release_name_def)
qed

text \<open>The characters of a version.\<close>

fun rx_over :: "(char \<Rightarrow> bool) \<Rightarrow> rx \<Rightarrow> bool" where
  "rx_over P (Cls f) = (\<forall>c. f c \<longrightarrow> P c)"
| "rx_over P (Seq a b) = (rx_over P a \<and> rx_over P b)"
| "rx_over P (Alt a b) = (rx_over P a \<and> rx_over P b)"
| "rx_over P (Star a) = rx_over P a"
| "rx_over P _ = True"

lemma rx_matches_over: "rx_matches r p s q t \<Longrightarrow> rx_over P r \<Longrightarrow> \<exists>w. s = w @ t \<and> list_all P w"
proof (induction rule: rx_matches.induct)
  case (Cls f c p s)
  then show ?case by (intro exI[of _ "[c]"]) simp
next
  case (Seq a p s q t b r u)
  then obtain v w where "s = v @ t" "list_all P v" "t = w @ u" "list_all P w" by auto
  then show ?case by (intro exI[of _ "v @ w"]) simp
next
  case (Iterate a p s q t r u)
  then obtain v w where "s = v @ t" "list_all P v" "t = w @ u" "list_all P w" by auto
  then show ?case by (intro exI[of _ "v @ w"]) simp
qed auto

lemma version_characters:
  assumes "is_package_version version"
  shows "list_all (\<lambda>c. is_digit c \<or> c = CHR ''.'') version"
proof -
  obtain q t where "rx_matches (Seq STABLE_SEMVER_PATTERN AtEnd) None version q t"
    using anchored_search[of "Seq STABLE_SEMVER_PATTERN AtEnd" version] assms
    by (auto simp: is_package_version_def PACKAGE_VERSION_PATTERN_def)
  then have "rx_matches STABLE_SEMVER_PATTERN None version q []" by (auto elim!: rx_matches_cases)
  moreover have "rx_over (\<lambda>c. is_digit c \<or> c = CHR ''.'') STABLE_SEMVER_PATTERN"
    by (auto simp: STABLE_SEMVER_PATTERN_def SEMVER_NUMBER_def rx_chr_def is_digit_def)
  ultimately show ?thesis using rx_matches_over by fastforce
qed

lemma created_name_shape:
  assumes "create_standalone_release_name version digest = Inr name"
  shows "CHR ''/'' \<notin> set name" "65 \<le> length name"
proof -
  have v: "is_package_version version" "is_hex 64 digest" "name = version @ ''-'' @ digest"
    using assms by (auto simp: create_standalone_release_name_def split: if_splits)
  then show "CHR ''/'' \<notin> set name" "65 \<le> length name"
    using version_characters[OF v(1)] by (auto simp: is_hex_def list_all_iff is_digit_def is_lower_hex_def)
qed

subsection \<open>Places\<close>

definition APPLICATION_DIRECTORY_NAME :: string where "APPLICATION_DIRECTORY_NAME = ''git-commits-push''"
definition EXECUTABLE_NAME :: string where "EXECUTABLE_NAME = ''git-commits-push''"

record install_paths =
  applicationDirectory :: string
  releasesDirectory :: string
  currentReleaseLink :: string
  publicExecutablePath :: string
  installLockPath :: string

definition resolve_data_home :: "environment \<Rightarrow> string \<Rightarrow> string + string" where
  "resolve_data_home env home =
     (case env ''XDG_DATA_HOME'' of
        Some (c # cs) \<Rightarrow>
          require_absolute_path (if starts_with ''~/'' (c # cs) then path_join home (drop 2 (c # cs)) else c # cs) ''XDG_DATA_HOME''
      | _ \<Rightarrow> Inr (path_join_all [home, ''.local'', ''share'']))"

definition resolve_standalone_install_paths :: "environment \<Rightarrow> string \<Rightarrow> string + install_paths" where
  "resolve_standalone_install_paths env home =
     (case require_absolute_path home ''Home directory'' of
        Inl e \<Rightarrow> Inl e
      | Inr homeDirectory \<Rightarrow>
          (case resolve_data_home env homeDirectory of
             Inl e \<Rightarrow> Inl e
           | Inr dataHome \<Rightarrow>
               let application = path_join dataHome APPLICATION_DIRECTORY_NAME;
                   binDirectory = path_join_all [homeDirectory, ''.local'', ''bin'']
               in Inr \<lparr>applicationDirectory = application, releasesDirectory = path_join application ''releases'',
                      currentReleaseLink = path_join application ''current'',
                      publicExecutablePath = path_join binDirectory EXECUTABLE_NAME,
                      installLockPath = path_join binDirectory (''.'' @ EXECUTABLE_NAME @ ''-install.lock'')\<rparr>))"

text \<open>The target of the current link.\<close>

lemma release_target:
  assumes "CHR ''/'' \<notin> set name" "name \<noteq> []" "name \<noteq> ''.''" "name \<noteq> ''..''"
  shows "path_join ''releases'' name = ''releases/'' @ name"
proof -
  have "split_on (CHR ''/'') name = [name]" using assms(1) by (induction name) auto
  then have segs: "split_on (CHR ''/'') (''releases/'' @ name) = [''releases'', name]" by simp
  have "last name \<noteq> CHR ''/''" using assms(1,2) last_in_set[of name] by metis
  then have "last (''releases/'' @ name) \<noteq> CHR ''/''" using assms(2) by simp
  then show ?thesis
    using assms segs by (simp add: path_join_def path_join_all_def posix_normalize_def is_absolute_def Let_def)
qed

lemma created_name_target:
  assumes "create_standalone_release_name version digest = Inr name"
  shows "path_join ''releases'' name = ''releases/'' @ name"
  using created_name_shape[OF assms] by (intro release_target) auto

end
