(* ===== verification/Trust_Tokens.thy ===== *)
theory Trust_Tokens
  imports Control_Protocol Release_Identity
begin

text \<open>
  The trust tokens of \<open>src/packages/trust/src/index.ts\<close>: a file in a private directory that lets a Git hook
  recognize the Git commands this program starts. A token is created by the internal Git helpers of an authorized
  working directory and is accepted once, within its lifetime, by a descendant of its issuer. The store is a map
  from file names to files; other processes may change it before every file-system call. \<open>realpath\<close>, Unicode
  normalization, \<open>decodeURI\<close>, JSON, SHA-256, \<open>ps\<close>, the clock and random names are parameters.
\<close>

subsection \<open>Constants\<close>

definition TOKEN_TTL_MS :: int where "TOKEN_TTL_MS = 30000"

definition TRUSTED_ISSUER :: string where "TRUSTED_ISSUER = ''git-commits-push-internal-git-helper''"

definition TRUST_TOKEN_RECORD_KEYS :: "string list" where
  "TRUST_TOKEN_RECORD_KEYS = [''createdAt'', ''expiresAt'', ''issuer'', ''issuerCwd'', ''issuerPid'', ''issuerPpid'',
     ''issuerStackHash'', ''version'']"

text \<open>\<open>TOKEN_PATTERN\<close>, which is also the shape of a SHA-256 digest.\<close>

definition is_token :: "string \<Rightarrow> bool" where
  "is_token s \<longleftrightarrow> is_hex 64 s"

subsection \<open>The process\<close>

record trust_process =
  tp_realpath :: "string \<Rightarrow> string option"
  tp_nfc :: "string \<Rightarrow> string"
  tp_decodeURI :: "string \<Rightarrow> string option"
  tp_packageDirectory :: string
  tp_home :: string
  tp_cwd :: string
  tp_pid :: int
  tp_ppid :: int
  tp_ps :: "int \<Rightarrow> string option"
  tp_now :: int
  tp_sha256 :: "string \<Rightarrow> string"

subsection \<open>Authorized directories\<close>

definition canonicalize_existing_path :: "trust_process \<Rightarrow> string \<Rightarrow> string" where
  "canonicalize_existing_path tp candidate =
     tp_nfc tp (case tp_realpath tp candidate of Some p \<Rightarrow> p | None \<Rightarrow> posix_normalize candidate)"

definition workspace_runtime_root :: "trust_process \<Rightarrow> string option" where
  "workspace_runtime_root tp =
     (let packages = posix_dirname (tp_packageDirectory tp) in
      if posix_basename (tp_packageDirectory tp) = ''trust'' \<and> posix_basename packages = ''packages''
      then Some (posix_dirname packages) else None)"

definition resolve_source_runtime_root :: "trust_process \<Rightarrow> string" where
  "resolve_source_runtime_root tp =
     nullish (workspace_runtime_root tp)
       (path_join_all [tp_home tp, ''Developper'', ''Projects'', ''git-commits-push''])"

definition is_release_root :: "string \<Rightarrow> bool" where
  "is_release_root current \<longleftrightarrow> rx_test RELEASE_NAME_PATTERN (posix_basename current) \<and>
     posix_basename (posix_dirname current) = ''releases'' \<and>
     posix_basename (posix_dirname (posix_dirname current)) = ''git-commits-push''"

function release_root_above :: "string \<Rightarrow> string option" where
  "release_root_above current =
     (if posix_dirname current = current then None
      else if is_release_root current then Some current
      else release_root_above (posix_dirname current))"
  by auto
termination
  by (relation "measure path_height") (simp_all add: dirname_height)

definition installed_release_root_for_path :: "trust_process \<Rightarrow> string \<Rightarrow> string option" where
  "installed_release_root_for_path tp candidate = release_root_above (canonicalize_existing_path tp candidate)"

definition is_installed_release_working_directory :: "trust_process \<Rightarrow> string \<Rightarrow> bool" where
  "is_installed_release_working_directory tp candidate =
     (let normalizedCandidate = canonicalize_existing_path tp candidate; releaseRoot = posix_dirname normalizedCandidate
      in posix_basename normalizedCandidate = ''dist'' \<and> installed_release_root_for_path tp releaseRoot = Some releaseRoot)"

definition is_authorized_issuer_working_directory :: "trust_process \<Rightarrow> string \<Rightarrow> bool" where
  "is_authorized_issuer_working_directory tp candidate \<longleftrightarrow> is_absolute candidate \<and>
     (let normalizedCandidate = canonicalize_existing_path tp candidate;
          sourceRuntimeRoot = canonicalize_existing_path tp (resolve_source_runtime_root tp)
      in normalizedCandidate = sourceRuntimeRoot \<or> normalizedCandidate = path_join sourceRuntimeRoot ''dist'' \<or>
         is_installed_release_working_directory tp normalizedCandidate)"

definition trust_module_can_mint_from :: "trust_process \<Rightarrow> string \<Rightarrow> bool" where
  "trust_module_can_mint_from tp workingDirectory =
     (let w = canonicalize_existing_path tp workingDirectory in
      case workspace_runtime_root tp of
        Some root \<Rightarrow> let sourceRoot = canonicalize_existing_path tp root in w = sourceRoot \<or> w = path_join sourceRoot ''dist''
      | None \<Rightarrow>
          (case installed_release_root_for_path tp (tp_packageDirectory tp) of
             None \<Rightarrow> False
           | Some releaseRoot \<Rightarrow> w = path_join releaseRoot ''dist''))"

definition authorized_issuer_paths :: "trust_process \<Rightarrow> string \<Rightarrow> string list" where
  "authorized_issuer_paths tp workingDirectory =
     (let sourceRuntimeRoot = resolve_source_runtime_root tp in
      if workingDirectory = sourceRuntimeRoot
      then [path_join_all [sourceRuntimeRoot, ''src'', ''modules'', ''git'', ''git-exec.ts''],
            path_join_all [sourceRuntimeRoot, ''src'', ''utils'', ''git-utils.ts''],
            path_join_all [sourceRuntimeRoot, ''dist'', ''src'', ''modules'', ''git'', ''git-exec.js''],
            path_join_all [sourceRuntimeRoot, ''dist'', ''src'', ''utils'', ''git-utils.js'']]
      else [path_join_all [workingDirectory, ''src'', ''modules'', ''git'', ''git-exec.js''],
            path_join_all [workingDirectory, ''src'', ''utils'', ''git-utils.js'']])"

subsection \<open>The issuer's stack\<close>

text \<open>\<open>haystack.indexOf(needle)\<close>.\<close>

fun index_of :: "string \<Rightarrow> string \<Rightarrow> nat option" where
  "index_of needle [] = (if needle = [] then Some 0 else None)"
| "index_of needle (c # s) =
     (if starts_with needle (c # s) then Some 0 else map_option Suc (index_of needle s))"

text \<open>The paths searched for are joined from constants, so they are not empty; the code would loop on an empty one.\<close>

function has_stack_path_boundary :: "string \<Rightarrow> string \<Rightarrow> bool" where
  "has_stack_path_boundary stack issuerPath =
     (if stack = [] \<or> issuerPath = [] then False
      else case index_of issuerPath stack of
        None \<Rightarrow> False
      | Some i \<Rightarrow>
          let rest = drop (i + length issuerPath) stack in
          if rest = [] \<or> hd rest \<in> {CHR '':'', CHR '')'', CHR 0x0A} then True
          else has_stack_path_boundary rest issuerPath)"
  by auto
termination
  by (relation "measure (\<lambda>(s, _). length s)") auto

definition to_slashes :: "string \<Rightarrow> string" where
  "to_slashes s = map (\<lambda>c. if c = CHR 0x5C then CHR ''/'' else c) s"

definition normalize_stack_paths :: "trust_process \<Rightarrow> string \<Rightarrow> string option" where
  "normalize_stack_paths tp stack = map_option (\<lambda>s. tp_nfc tp (to_slashes s)) (tp_decodeURI tp stack)"

definition is_authorized_issuer_stack :: "trust_process \<Rightarrow> string option \<Rightarrow> string \<Rightarrow> bool" where
  "is_authorized_issuer_stack tp stack workingDirectory =
     (case stack of
        None \<Rightarrow> False
      | Some s \<Rightarrow>
          s \<noteq> [] \<and> is_authorized_issuer_working_directory tp workingDirectory \<and>
          (case normalize_stack_paths tp s of
             None \<Rightarrow> False
           | Some normalizedStack \<Rightarrow>
               list_ex (\<lambda>p. has_stack_path_boundary normalizedStack (tp_nfc tp (to_slashes p)))
                 (authorized_issuer_paths tp workingDirectory)))"

subsection \<open>Records\<close>

record token_record =
  tr_version :: int
  tr_issuer :: string
  tr_createdAt :: int
  tr_expiresAt :: int
  tr_issuerPid :: int
  tr_issuerPpid :: int
  tr_issuerCwd :: string
  tr_issuerStackHash :: string

definition create_trust_token_record :: "trust_process \<Rightarrow> string \<Rightarrow> string + token_record" where
  "create_trust_token_record tp stack =
     (if \<not> is_authorized_issuer_stack tp (Some stack) (tp_cwd tp)
      then Inl ''Trust tokens can only be created by git-commits-push internal git helpers.''
      else if \<not> trust_module_can_mint_from tp (tp_cwd tp)
      then Inl ''Trust tokens require the executing git-commits-push runtime directory.''
      else Inr \<lparr>tr_version = 1, tr_issuer = TRUSTED_ISSUER, tr_createdAt = tp_now tp,
                tr_expiresAt = tp_now tp + TOKEN_TTL_MS, tr_issuerPid = tp_pid tp, tr_issuerPpid = tp_ppid tp,
                tr_issuerCwd = tp_cwd tp, tr_issuerStackHash = tp_sha256 tp stack\<rparr>)"

definition record_json :: "token_record \<Rightarrow> js_value" where
  "record_json r = JObject [(''version'', JInt (tr_version r)), (''issuer'', JString (tr_issuer r)),
     (''createdAt'', JInt (tr_createdAt r)), (''expiresAt'', JInt (tr_expiresAt r)),
     (''issuerPid'', JInt (tr_issuerPid r)), (''issuerPpid'', JInt (tr_issuerPpid r)),
     (''issuerCwd'', JString (tr_issuerCwd r)), (''issuerStackHash'', JString (tr_issuerStackHash r))]"

definition read_parent_process_id :: "trust_process \<Rightarrow> int \<Rightarrow> int option" where
  "read_parent_process_id tp pid =
     (if pid = tp_pid tp then Some (tp_ppid tp)
      else case tp_ps tp pid of
        None \<Rightarrow> None
      | Some output \<Rightarrow>
          (case parse_int (trim output) of
             Some parentPid \<Rightarrow> if is_safe_integer parentPid \<and> 0 \<le> parentPid then Some parentPid else None
           | None \<Rightarrow> None))"

fun ancestor_search :: "trust_process \<Rightarrow> int \<Rightarrow> int \<Rightarrow> nat \<Rightarrow> int \<Rightarrow> bool" where
  "ancestor_search tp issuerPid issuerPpid 0 candidatePid = False"
| "ancestor_search tp issuerPid issuerPpid (Suc left) candidatePid =
     (if candidatePid \<le> 0 then False
      else if candidatePid = issuerPid then read_parent_process_id tp candidatePid = Some issuerPpid
      else case read_parent_process_id tp candidatePid of
        None \<Rightarrow> False
      | Some parentPid \<Rightarrow>
          if parentPid = candidatePid then False else ancestor_search tp issuerPid issuerPpid left parentPid)"

definition is_issuer_process_ancestor :: "trust_process \<Rightarrow> int \<Rightarrow> int \<Rightarrow> bool" where
  "is_issuer_process_ancestor tp issuerPid issuerPpid = ancestor_search tp issuerPid issuerPpid 64 (tp_pid tp)"

text \<open>The fields of a record with the right keys and types. A number that is no integer has the type but fails the
  later test of a safe integer, or is not the version.\<close>

definition typed_record :: "js_value \<Rightarrow> token_record option" where
  "typed_record v =
     (case v of
        JObject kvs \<Rightarrow>
          if sort_by string_le (map fst kvs) \<noteq> TRUST_TOKEN_RECORD_KEYS then None
          else (case (get_prop v ''version'', get_prop v ''issuer'', get_prop v ''createdAt'', get_prop v ''expiresAt'',
                      get_prop v ''issuerPid'', get_prop v ''issuerPpid'', get_prop v ''issuerCwd'',
                      get_prop v ''issuerStackHash'') of
            (JInt version, JString issuer, JInt createdAt, JInt expiresAt, JInt pid, JInt ppid, JString cwd, JString hash) \<Rightarrow>
              Some \<lparr>tr_version = version, tr_issuer = issuer, tr_createdAt = createdAt, tr_expiresAt = expiresAt,
                    tr_issuerPid = pid, tr_issuerPpid = ppid, tr_issuerCwd = cwd, tr_issuerStackHash = hash\<rparr>
          | _ \<Rightarrow> None)
      | _ \<Rightarrow> None)"

definition is_valid_record :: "trust_process \<Rightarrow> js_value \<Rightarrow> bool" where
  "is_valid_record tp v =
     (case typed_record v of
        None \<Rightarrow> False
      | Some r \<Rightarrow>
          tr_version r = 1 \<and> tr_issuer r = TRUSTED_ISSUER \<and>
          is_authorized_issuer_working_directory tp (tr_issuerCwd r) \<and>
          is_safe_integer (tr_createdAt r) \<and> is_safe_integer (tr_expiresAt r) \<and>
          tr_expiresAt r = tr_createdAt r + TOKEN_TTL_MS \<and> tr_createdAt r \<le> tp_now tp + 1000 \<and>
          tp_now tp \<le> tr_expiresAt r \<and>
          is_safe_integer (tr_issuerPid r) \<and> 0 < tr_issuerPid r \<and>
          is_safe_integer (tr_issuerPpid r) \<and> 0 \<le> tr_issuerPpid r \<and>
          is_token (tr_issuerStackHash r) \<and>
          is_issuer_process_ancestor tp (tr_issuerPid r) (tr_issuerPpid r))"


subsection \<open>The store\<close>

type_synonym token_store = "string \<Rightarrow> private_file option"

text \<open>What the file system answers to one operation of the module, and what others do to the store before its
  \<open>i\<close>-th access. \<open>sv_getuid\<close> is \<^const>\<open>None\<close> where there is no \<open>getuid\<close>; \<open>sv_rename\<close> and \<open>sv_unlink\<close> say whether
  those calls succeed. An exclusive write may fail to open the file, or leave it empty.\<close>

datatype write_answer = WriteOk | OpenFails string | WriteFails string

record store_view =
  sv_getuid :: "int option"
  sv_exists :: bool
  sv_mkdir :: "string option"
  sv_lstat :: "fs_entry option"
  sv_random :: "nat \<Rightarrow> string"
  sv_write :: "nat \<Rightarrow> write_answer"
  sv_rename :: bool
  sv_unlink :: bool
  sv_stringify :: "js_value \<Rightarrow> string"
  sv_parse :: "string \<Rightarrow> js_value option"
  sv_others :: "nat \<Rightarrow> token_store \<Rightarrow> token_store"

definition ensure_store_directory :: "store_view \<Rightarrow> string option" where
  "ensure_store_directory sv =
     (case (if sv_exists sv then None else sv_mkdir sv) of
        Some e \<Rightarrow> Some e
      | None \<Rightarrow>
          (case sv_lstat sv of
             None \<Rightarrow> Some ''lstat failed''
           | Some stats \<Rightarrow>
               if \<not> is_private_directory (sv_getuid sv) stats
               then Some ''Trust token store is not a private physical directory''
               else None))"

subsection \<open>Creation\<close>

fun write_unique_token ::
  "store_view \<Rightarrow> string \<Rightarrow> nat \<Rightarrow> nat \<Rightarrow> token_store \<Rightarrow> (string + string) \<times> token_store" where
  "write_unique_token sv text 0 attempt store = (Inl ''Unable to allocate a unique trust token.'', store)"
| "write_unique_token sv text (Suc left) attempt store =
     (let token = sv_random sv attempt; now = sv_others sv attempt store in
      case sv_write sv attempt of
        OpenFails e \<Rightarrow> (Inl e, now)
      | answer \<Rightarrow>
          if now token \<noteq> None then write_unique_token sv text left (attempt + 1) now
          else (case answer of
            WriteFails e \<Rightarrow> (Inl e, now(token \<mapsto> new_private_file (sv_getuid sv) []))
          | _ \<Rightarrow> (Inr token, now(token \<mapsto> new_private_file (sv_getuid sv) text))))"

definition create_trust_token ::
  "trust_process \<Rightarrow> store_view \<Rightarrow> string option \<Rightarrow> token_store \<Rightarrow> (string + string) \<times> token_store" where
  "create_trust_token tp sv stack store =
     (case stack of
        Some (c # s) \<Rightarrow>
          (case ensure_store_directory sv of
             Some e \<Rightarrow> (Inl e, store)
           | None \<Rightarrow>
               (case create_trust_token_record tp (c # s) of
                  Inl e \<Rightarrow> (Inl e, store)
                | Inr r \<Rightarrow> write_unique_token sv (sv_stringify sv (record_json r)) 3 0 store))
      | _ \<Rightarrow> (Inl ''Unable to establish the trust token issuer stack.'', store))"

subsection \<open>Validation\<close>

definition claimed_name :: "trust_process \<Rightarrow> store_view \<Rightarrow> string \<Rightarrow> string" where
  "claimed_name tp sv token = token @ ''.claimed-'' @ show_int (tp_pid tp) @ ''-'' @ sv_random sv 0"

text \<open>\<open>rename\<close> is atomic: it succeeds for one claimer.\<close>

definition claim_token :: "trust_process \<Rightarrow> store_view \<Rightarrow> string \<Rightarrow> token_store \<Rightarrow> string option \<times> token_store" where
  "claim_token tp sv token store =
     (let now = sv_others sv 0 store; claimed = claimed_name tp sv token in
      case now token of
        None \<Rightarrow> (None, now)
      | Some file \<Rightarrow>
          if sv_rename sv then (Some claimed, (now(token := None))(claimed \<mapsto> file)) else (None, now))"

definition is_secure_entry :: "store_view \<Rightarrow> private_file \<Rightarrow> bool" where
  "is_secure_entry sv file \<longleftrightarrow>
     is_private_file (sv_getuid sv) (pf_entry file) \<and> 0 < pf_size file \<and> pf_size file \<le> 4096"

definition is_secure_claimed_token :: "store_view \<Rightarrow> string \<Rightarrow> token_store \<Rightarrow> bool" where
  "is_secure_claimed_token sv claimed store =
     (case store claimed of None \<Rightarrow> False | Some file \<Rightarrow> is_secure_entry sv file)"

definition read_claimed :: "trust_process \<Rightarrow> store_view \<Rightarrow> string \<Rightarrow> token_store \<Rightarrow> bool" where
  "read_claimed tp sv claimed store =
     (case store claimed of
        None \<Rightarrow> False
      | Some file \<Rightarrow> (case sv_parse sv (pf_text file) of None \<Rightarrow> False | Some record \<Rightarrow> is_valid_record tp record))"

definition cleanup_token :: "store_view \<Rightarrow> string \<Rightarrow> token_store \<Rightarrow> token_store" where
  "cleanup_token sv name store = (if sv_unlink sv then store(name := None) else store)"

definition validate_trust_token ::
  "trust_process \<Rightarrow> store_view \<Rightarrow> string option \<Rightarrow> token_store \<Rightarrow> bool \<times> token_store" where
  "validate_trust_token tp sv token store =
     (case token of
        None \<Rightarrow> (False, store)
      | Some t \<Rightarrow>
          if \<not> is_token t then (False, store)
          else if ensure_store_directory sv \<noteq> None then (False, store)
          else (case claim_token tp sv t store of
            (None, store1) \<Rightarrow> (False, store1)
          | (Some claimed, store1) \<Rightarrow>
              (let store2 = sv_others sv 1 store1 in
               if \<not> is_secure_claimed_token sv claimed store2
               then (False, cleanup_token sv claimed (sv_others sv 2 store2))
               else let store3 = sv_others sv 2 store2 in
                 (read_claimed tp sv claimed store3, cleanup_token sv claimed (sv_others sv 3 store3)))))"

subsection \<open>A token is accepted once\<close>

text \<open>Nobody else creates a file of this name again (names are 32 random bytes).\<close>

definition never_recreates :: "string \<Rightarrow> store_view \<Rightarrow> bool" where
  "never_recreates name sv \<longleftrightarrow> (\<forall>i store. store name = None \<longrightarrow> sv_others sv i store name = None)"

definition record_accepted :: "trust_process \<Rightarrow> token_record \<Rightarrow> bool" where
  "record_accepted tp r \<longleftrightarrow> tr_version r = 1 \<and> tr_issuer r = TRUSTED_ISSUER \<and>
     is_authorized_issuer_working_directory tp (tr_issuerCwd r) \<and>
     tr_expiresAt r = tr_createdAt r + TOKEN_TTL_MS \<and>
     tr_createdAt r - 1000 \<le> tp_now tp \<and> tp_now tp \<le> tr_createdAt r + TOKEN_TTL_MS"

text \<open>The issuer is the validating process or one of its ancestors.\<close>

inductive ancestor :: "trust_process \<Rightarrow> int \<Rightarrow> int \<Rightarrow> bool" for tp where
  self: "ancestor tp pid pid"
| parent: "read_parent_process_id tp pid = Some parent \<Longrightarrow> ancestor tp parent issuer \<Longrightarrow> ancestor tp pid issuer"

lemma ancestor_search_ancestor:
  "ancestor_search tp issuerPid issuerPpid n pid \<Longrightarrow>
     ancestor tp pid issuerPid \<and> read_parent_process_id tp issuerPid = Some issuerPpid"
  by (induction n arbitrary: pid) (auto intro: ancestor.intros split: if_splits option.splits)

lemma claimed_name_not_token: "claimed_name tp sv token \<noteq> token"
  by (simp add: claimed_name_def)

lemma absent_token_refused:
  assumes "store t = None" "never_recreates t sv"
  shows "\<not> fst (validate_trust_token tp sv (Some t) store)"
  using assms by (auto simp: validate_trust_token_def claim_token_def never_recreates_def Let_def)

text \<open>The claimed name carries 8 random bytes: others leave that file alone.\<close>

definition leaves_alone :: "string \<Rightarrow> store_view \<Rightarrow> bool" where
  "leaves_alone name sv \<longleftrightarrow> (\<forall>i store. sv_others sv i store name = store name)"

lemma validation_claims:
  assumes "validate_trust_token tp sv (Some t) store = (True, store')" "never_recreates t sv"
    and "leaves_alone (claimed_name tp sv t) sv"
  shows "is_token t" "ensure_store_directory sv = None" "store' t = None"
    "\<exists>token_file v. sv_others sv 0 store t = Some token_file \<and> is_secure_entry sv token_file \<and>
       sv_parse sv (pf_text token_file) = Some v \<and> is_valid_record tp v"
proof -
  let ?c = "claimed_name tp sv t"
  show guards: "is_token t" "ensure_store_directory sv = None"
    using assms(1) by (auto simp: validate_trust_token_def split: if_splits)
  obtain token_file where found: "sv_others sv 0 store t = Some token_file" "sv_rename sv"
    using assms(1) guards by (auto simp: validate_trust_token_def claim_token_def Let_def split: option.splits if_splits)
  define store1 where "store1 = ((sv_others sv 0 store)(t := None))(?c \<mapsto> token_file)"
  define store3 where "store3 = sv_others sv 2 (sv_others sv 1 store1)"
  have here: "sv_others sv 1 store1 ?c = Some token_file" "store3 ?c = Some token_file"
    using assms(3) by (simp_all add: leaves_alone_def store1_def store3_def)
  have "store1 t = None" using claimed_name_not_token[of tp sv t] by (simp add: store1_def)
  then have gone: "sv_others sv 3 store3 t = None" using assms(2) by (simp add: never_recreates_def store3_def)
  have result: "validate_trust_token tp sv (Some t) store =
     (if is_secure_entry sv token_file then (read_claimed tp sv ?c store3, cleanup_token sv ?c (sv_others sv 3 store3))
      else (False, cleanup_token sv ?c store3))"
    using guards found here
    by (simp add: validate_trust_token_def claim_token_def is_secure_claimed_token_def Let_def store1_def[symmetric]
        store3_def)
  then have "is_secure_entry sv token_file" "read_claimed tp sv ?c store3" "store' = cleanup_token sv ?c (sv_others sv 3 store3)"
    using assms(1) by (auto split: if_splits)
  then show "store' t = None"
    "\<exists>token_file v. sv_others sv 0 store t = Some token_file \<and> is_secure_entry sv token_file \<and>
       sv_parse sv (pf_text token_file) = Some v \<and> is_valid_record tp v"
    using gone found here by (auto simp: cleanup_token_def read_claimed_def split: option.splits)
qed

text \<open>C14. A trust token is accepted only as what its issuer wrote, in time, by a descendant, and once. When a
  validation answers true, the token has its exact form, the store was a private directory of this user, and the
  file found under it was a private file of this user whose record names the internal issuer in an authorized
  directory, was created at most 30 seconds ago (and at most one in the future), and names a process that is the
  validating one or an ancestor of it, with the recorded parent. No later validation of the token, by any process,
  answers true, whatever others do to the store, unless they write the random name again.\<close>

theorem trust_token_accepted_once:
  assumes run: "validate_trust_token tp sv (Some t) store = (True, store')"
    and names: "never_recreates t sv" "leaves_alone (claimed_name tp sv t) sv"
  shows "is_token t \<and> ensure_store_directory sv = None \<and>
    (\<exists>token_file v r. sv_others sv 0 store t = Some token_file \<and> is_secure_entry sv token_file \<and>
       sv_parse sv (pf_text token_file) = Some v \<and> typed_record v = Some r \<and> record_accepted tp r \<and>
       ancestor tp (tp_pid tp) (tr_issuerPid r) \<and> read_parent_process_id tp (tr_issuerPid r) = Some (tr_issuerPpid r)) \<and>
    (\<forall>tp2 sv2 between. never_recreates t sv2 \<and> (\<forall>s. s t = None \<longrightarrow> between s t = None) \<longrightarrow>
       \<not> fst (validate_trust_token tp2 sv2 (Some t) (between store')))"
proof -
  note claims = validation_claims[OF run names]
  from claims(4) obtain token_file v where f: "sv_others sv 0 store t = Some token_file" "is_secure_entry sv token_file"
    "sv_parse sv (pf_text token_file) = Some v" "is_valid_record tp v" by blast
  then obtain r where r: "typed_record v = Some r" "record_accepted tp r"
    "is_issuer_process_ancestor tp (tr_issuerPid r) (tr_issuerPpid r)"
    by (auto simp: is_valid_record_def record_accepted_def split: option.splits)
  have "ancestor tp (tp_pid tp) (tr_issuerPid r) \<and> read_parent_process_id tp (tr_issuerPid r) = Some (tr_issuerPpid r)"
    using r(3) ancestor_search_ancestor unfolding is_issuer_process_ancestor_def by blast
  moreover have "\<not> fst (validate_trust_token tp2 sv2 (Some t) (between store'))"
    if "never_recreates t sv2" "\<forall>s. s t = None \<longrightarrow> between s t = None" for tp2 sv2 between
    using that(1) by (intro absent_token_refused) (simp_all add: that(2) claims(3))
  ultimately show ?thesis using claims(1,2) f r by blast
qed

lemma record_json_typed: "typed_record (record_json r) = Some r"
  by (simp add: typed_record_def record_json_def get_prop_def TRUST_TOKEN_RECORD_KEYS_def sort_by_def)

lemma write_unique_outcome:
  "write_unique_token sv text n i store = (Inr token, store') \<Longrightarrow>
     store' token = Some (new_private_file (sv_getuid sv) text) \<and> (\<exists>j. token = sv_random sv j)"
  by (induction n arbitrary: i store) (auto simp: Let_def split: option.splits if_splits write_answer.splits)

text \<open>The store as the other processes leave it before attempt \<open>k\<close> writes its token. A returned token was free
  there, and the only change of its creation is its file.\<close>

primrec store_before :: "store_view \<Rightarrow> token_store \<Rightarrow> nat \<Rightarrow> token_store" where
  "store_before sv store 0 = store"
| "store_before sv store (Suc k) = sv_others sv k (store_before sv store k)"

lemma write_unique_fresh:
  "write_unique_token sv text n i (store_before sv store i) = (Inr token, store') \<Longrightarrow>
     \<exists>k < i + n. store_before sv store (Suc k) token = None \<and>
       store' = (store_before sv store (Suc k))(token \<mapsto> new_private_file (sv_getuid sv) text)"
proof (induction n arbitrary: i)
  case (Suc n)
  have again: "\<exists>k < i + Suc n. store_before sv store (Suc k) token = None \<and>
       store' = (store_before sv store (Suc k))(token \<mapsto> new_private_file (sv_getuid sv) text)"
    if "write_unique_token sv text n (i + 1) (store_before sv store (Suc i)) = (Inr token, store')"
    using Suc.IH[of "Suc i"] that by (simp del: store_before.simps fun_upd_apply)
  have "write_unique_token sv text n (i + 1) (store_before sv store (Suc i)) = (Inr token, store') \<or>
    store_before sv store (Suc i) token = None \<and>
      store' = (store_before sv store (Suc i))(token \<mapsto> new_private_file (sv_getuid sv) text)"
    using Suc.prems by (auto simp: Let_def split: if_splits write_answer.splits)
  then show ?case
  proof
    assume "write_unique_token sv text n (i + 1) (store_before sv store (Suc i)) = (Inr token, store')"
    then show ?thesis by (rule again)
  next
    assume "store_before sv store (Suc i) token = None \<and>
      store' = (store_before sv store (Suc i))(token \<mapsto> new_private_file (sv_getuid sv) text)"
    then show ?thesis by (intro exI[of _ i]) (rule conjI, simp)
  qed
qed simp

lemma created_token_is_fresh:
  assumes "create_trust_token tp sv stack store = (Inr token, store')"
  shows "\<exists>k rec. store_before sv store (Suc k) token = None \<and> k < 3 \<and>
     store' = (store_before sv store (Suc k))(token \<mapsto>
       new_private_file (sv_getuid sv) (sv_stringify sv (record_json rec))) \<and>
     tr_issuerPid rec = tp_pid tp \<and> tr_issuerCwd rec = tp_cwd tp \<and> tr_createdAt rec = tp_now tp \<and>
     tr_expiresAt rec = tp_now tp + TOKEN_TTL_MS"
  using assms write_unique_fresh[of sv _ 3 0 store token store']
  by (fastforce simp: create_trust_token_def create_trust_token_record_def
      split: option.splits list.splits sum.splits if_splits)

text \<open>A fresh token is accepted. A token that creation returned is accepted by a validation of the same user in
  the issuer or a descendant of it that finds the store as it was left, within its lifetime and with the clock at
  most a second behind, when the issuer's directory is authorized there too and the record fits the size limit.\<close>

theorem fresh_token_is_accepted:
  assumes run: "create_trust_token tp sv (Some stack) store = (Inr t, store1)"
    and random: "\<forall>i. is_token (sv_random sv i)" "\<forall>s. is_token (tp_sha256 tp s)"
    and json: "\<forall>r. create_trust_token_record tp stack = Inr r \<longrightarrow>
      sv_parse sv2 (sv_stringify sv (record_json r)) = Some (record_json r) \<and>
      utf8_length (sv_stringify sv (record_json r)) \<in> {1..4096}"
    and numbers: "is_safe_integer (tp_now tp)" "is_safe_integer (tp_now tp + TOKEN_TTL_MS)"
      "is_safe_integer (tp_pid tp)" "0 < tp_pid tp" "is_safe_integer (tp_ppid tp)" "0 \<le> tp_ppid tp"
    and view: "sv_getuid sv2 = sv_getuid sv" "ensure_store_directory sv2 = None" "\<forall>i s. sv_others sv2 i s = s" "sv_rename sv2"
    and process: "is_authorized_issuer_working_directory tp2 (tp_cwd tp)"
      "is_issuer_process_ancestor tp2 (tp_pid tp) (tp_ppid tp)"
      "tp_now tp \<le> tp_now tp2 + 1000" "tp_now tp2 \<le> tp_now tp + TOKEN_TTL_MS"
  shows "fst (validate_trust_token tp2 sv2 (Some t) store1)"
proof -
  obtain r where s: "create_trust_token_record tp stack = Inr r"
    "write_unique_token sv (sv_stringify sv (record_json r)) 3 0 store = (Inr t, store1)"
    using run by (auto simp: create_trust_token_def split: option.splits list.splits sum.splits)
  have r: "r = \<lparr>tr_version = 1, tr_issuer = TRUSTED_ISSUER, tr_createdAt = tp_now tp,
                tr_expiresAt = tp_now tp + TOKEN_TTL_MS, tr_issuerPid = tp_pid tp, tr_issuerPpid = tp_ppid tp,
                tr_issuerCwd = tp_cwd tp, tr_issuerStackHash = tp_sha256 tp stack\<rparr>"
    using s(1) by (auto simp: create_trust_token_record_def split: if_splits)
  let ?file = "new_private_file (sv_getuid sv) (sv_stringify sv (record_json r))"
  have t: "store1 t = Some ?file" "is_token t" using write_unique_outcome[OF s(2)] random(1) by auto
  have secure: "is_secure_entry sv2 ?file"
    using json s(1) view(1)
    by (simp add: is_secure_entry_def)
  have valid: "is_valid_record tp2 (record_json r)"
    using numbers process random(2) by (simp add: is_valid_record_def record_json_typed r)
  show ?thesis
    using t secure valid view json s(1) claimed_name_not_token[of tp2 sv2 t]
    by (simp add: validate_trust_token_def claim_token_def is_secure_claimed_token_def read_claimed_def Let_def)
qed

subsection \<open>Instances\<close>

definition sample_process :: trust_process where
  "sample_process = \<lparr>tp_realpath = (\<lambda>_. None), tp_nfc = (\<lambda>s. s), tp_decodeURI = Some,
     tp_packageDirectory = ''/u/packages/trust'', tp_home = ''/h'', tp_cwd = ''/u'', tp_pid = 9, tp_ppid = 7,
     tp_ps = (\<lambda>_. None), tp_now = 5000, tp_sha256 = (\<lambda>_. replicate 64 (CHR ''a''))\<rparr>"

text \<open>The hook is a child of the issuer.\<close>

definition sample_hook :: trust_process where
  "sample_hook = sample_process\<lparr>tp_pid := 11, tp_ppid := 9, tp_ps := (\<lambda>p. if p = 9 then Some ''7'' else None),
     tp_now := 6000\<rparr>"

definition sample_token_record :: token_record where
  "sample_token_record = \<lparr>tr_version = 1, tr_issuer = TRUSTED_ISSUER, tr_createdAt = 5000, tr_expiresAt = 35000,
     tr_issuerPid = 9, tr_issuerPpid = 7, tr_issuerCwd = ''/u'', tr_issuerStackHash = replicate 64 (CHR ''a'')\<rparr>"

definition sample_stack :: string where "sample_stack = ''at /u/src/utils/git-utils.ts:1''"

definition sample_store_view :: store_view where
  "sample_store_view = \<lparr>sv_getuid = Some 1, sv_exists = True, sv_mkdir = None,
     sv_lstat = Some \<lparr>fe_isDirectory = True, fe_isFile = False, fe_isSymbolicLink = False, fe_mode = 448, fe_uid = 1\<rparr>,
     sv_random = (\<lambda>_. replicate 64 (CHR ''b'')), sv_write = (\<lambda>_. WriteOk), sv_rename = True, sv_unlink = True,
     sv_stringify = (\<lambda>_. ''{}''), sv_parse = (\<lambda>_. Some (record_json sample_token_record)),
     sv_others = (\<lambda>_ store. store)\<rparr>"

lemma sample_record: "create_trust_token_record sample_process sample_stack = Inr sample_token_record"
  by code_simp

definition sample_token :: string where "sample_token = replicate 64 (CHR ''b'')"

lemma sample_fields:
  "sv_random sample_store_view i = sample_token" "tp_sha256 sample_process x = replicate 64 (CHR ''a'')"
  "sv_others sample_store_view i st = st" "sv_getuid sample_store_view = Some 1" "sv_rename sample_store_view"
  "sv_unlink sample_store_view" "sv_stringify sample_store_view v = ''{}''"
  "sv_parse sample_store_view y = Some (record_json sample_token_record)"
  "tp_now sample_process = 5000" "tp_pid sample_process = 9" "tp_ppid sample_process = 7" "tp_cwd sample_process = ''/u''"
  "tp_now sample_hook = 6000"
  by (simp_all add: sample_store_view_def sample_process_def sample_hook_def sample_token_def)

lemma sample_fields_write: "sv_write sample_store_view i = WriteOk" by (simp add: sample_store_view_def)

lemma sf1: "is_token sample_token" by code_simp
lemma sf2: "is_token (replicate 64 (CHR ''a''))" by code_simp
lemma sf3: "ensure_store_directory sample_store_view = None" by code_simp
lemma sf4: "is_authorized_issuer_working_directory sample_hook ''/u''" by code_simp
lemma sf5: "is_issuer_process_ancestor sample_hook 9 7" by code_simp
lemma sf6: "utf8_length ''{}'' = 2" by code_simp

lemmas sample_facts = sf1 sf2 sf3 sf4 sf5 sf6

lemma sample_creation:
  "create_trust_token sample_process sample_store_view (Some sample_stack) Map.empty
     = (Inr sample_token, [sample_token \<mapsto> new_private_file (Some 1) ''{}''])"
proof -
  obtain c s where stack: "sample_stack = c # s" by (simp add: sample_stack_def)
  show ?thesis
    using sample_record unfolding stack
    by (simp add: create_trust_token_def sample_facts sample_fields sample_fields_write numeral_3_eq_3)
qed

lemma sample_valid: "is_valid_record sample_hook (record_json sample_token_record)"
  by (simp add: is_valid_record_def record_json_typed)
     (simp add: sample_token_record_def sample_facts sample_fields TOKEN_TTL_MS_def is_safe_integer_def max_safe_integer_def)

lemma fresh_token_is_accepted_witness:
  "fst (validate_trust_token sample_hook sample_store_view (Some sample_token)
     [sample_token \<mapsto> new_private_file (Some 1) ''{}''])"
  using sample_facts(6)
  by (intro fresh_token_is_accepted[OF sample_creation])
     (simp_all add: sample_fields sample_facts sample_record is_safe_integer_def max_safe_integer_def TOKEN_TTL_MS_def)

lemma sample_token_validation:
  "validate_trust_token sample_hook sample_store_view (Some sample_token)
     [sample_token \<mapsto> new_private_file (Some 1) ''{}''] =
   (True, Map.empty)"
proof -
  define c where "c = claimed_name sample_hook sample_store_view sample_token"
  have "c \<noteq> sample_token" using claimed_name_not_token by (simp add: c_def)
  then show ?thesis
    by (simp add: validate_trust_token_def claim_token_def is_secure_claimed_token_def read_claimed_def is_secure_entry_def
        cleanup_token_def sample_fields sample_facts sample_valid Let_def c_def[symmetric] fun_upd_twist)
qed

lemma trust_token_accepted_once_witness:
  "\<not> fst (validate_trust_token sample_hook sample_store_view (Some sample_token) Map.empty)"
proof -
  have quiet: "never_recreates sample_token sample_store_view"
    "leaves_alone (claimed_name sample_hook sample_store_view sample_token) sample_store_view"
    by (simp_all add: never_recreates_def leaves_alone_def sample_fields)
  have "\<forall>tp2 sv2 between. never_recreates sample_token sv2 \<and> (\<forall>s :: token_store. s sample_token = None \<longrightarrow> between s sample_token = None) \<longrightarrow>
     \<not> fst (validate_trust_token tp2 sv2 (Some sample_token) (between Map.empty))"
    using trust_token_accepted_once[OF sample_token_validation quiet] by (elim conjE) assumption
  from this[rule_format, of sample_store_view "\<lambda>s. s"] quiet show ?thesis by simp
qed

end
