(* ===== verification/Install_Lock.thy ===== *)
theory Install_Lock
  imports Control_Protocol Posix_Paths Private_Files Process_Identity "HOL-Library.AList"
begin

text \<open>
  The global lock of the installer, \<open>src/src/modules/installation/install-lock.ts\<close>: an exclusive SQLite transaction
  on a file, held as long as the installer runs, and beside it a durable record of its owner. The directory of the
  lock is an association list of names and files; every file operation can fail. Only the holder of the
  transaction changes the directory; the record may be what a crashed installer, or one whose lock was lost, left.
  SQLite's answers, JSON, the nonce and the clock are parameters.
\<close>

subsection \<open>Records\<close>

record lock_record =
  lo_nonce :: string
  lo_pid :: int
  lo_processIdentity :: string

definition INSTALL_LOCK_RECORD_KEYS :: "string list" where
  "INSTALL_LOCK_RECORD_KEYS = [''nonce'', ''pid'', ''processIdentity'', ''version'']"

definition MAX_LOCK_RECORD_BYTES :: nat where "MAX_LOCK_RECORD_BYTES = 4096"

text \<open>\<open>isInstallLockRecord\<close>, with the fields it found.\<close>

definition install_lock_record :: "js_value \<Rightarrow> lock_record option" where
  "install_lock_record v =
     (case v of
        JObject kvs \<Rightarrow>
          if sort_by string_le (map fst kvs) \<noteq> INSTALL_LOCK_RECORD_KEYS then None
          else (case (get_prop v ''version'', get_prop v ''nonce'', get_prop v ''pid'', get_prop v ''processIdentity'') of
            (JInt version, JString nonce, JInt pid, JString identity) \<Rightarrow>
              if version = 1 \<and> is_hex 32 nonce \<and> is_safe_integer pid \<and> 0 < pid
                 \<and> 0 < length identity \<and> length identity \<le> 2048
              then Some \<lparr>lo_nonce = nonce, lo_pid = pid, lo_processIdentity = identity\<rparr> else None
          | _ \<Rightarrow> None)
      | _ \<Rightarrow> None)"

definition lock_record_json :: "lock_record \<Rightarrow> js_value" where
  "lock_record_json r = JObject [(''nonce'', JString (lo_nonce r)), (''pid'', JInt (lo_pid r)),
     (''processIdentity'', JString (lo_processIdentity r)), (''version'', JInt 1)]"

subsection \<open>The environment\<close>

datatype begin_answer = BeginOk | BeginBusy | BeginFailed

type_synonym lock_directory = "(string \<times> private_file) list"

text \<open>\<open>ie_unlink\<close>, \<open>ie_rename\<close>, \<open>ie_write\<close> and \<open>ie_link\<close> are failures that do not come from the names: an error, or
  none. \<open>ie_lockEntry\<close> is what \<open>lstat\<close> says of the database file.\<close>

record install_env =
  ie_lockName :: string
  ie_absolute :: bool
  ie_create :: "string option"
  ie_lockEntry :: "fs_entry option"
  ie_open :: "string option"
  ie_begin :: begin_answer
  ie_getuid :: "int option"
  ie_pid :: int
  ie_identity :: "string option"
  ie_nonce :: string
  ie_now :: string
  ie_os :: os_view
  ie_parse :: "string \<Rightarrow> js_value option"
  ie_stringify :: "js_value \<Rightarrow> string"
  ie_unlink :: "string \<Rightarrow> string option"
  ie_rename :: "string option"
  ie_write :: "string option"
  ie_link :: "string option"

text \<open>The connection: closed, or open with the exclusive transaction.\<close>

datatype lock_connection = Closed | HoldsLock

subsection \<open>The owner's record\<close>

definition owner_record_name :: "install_env \<Rightarrow> string" where
  "owner_record_name ie = ie_lockName ie @ ''.owner''"

definition read_owner_record :: "install_env \<Rightarrow> lock_directory \<Rightarrow> string + lock_record" where
  "read_owner_record ie dir =
     (case map_of dir (owner_record_name ie) of
        None \<Rightarrow> Inl ''ENOENT''
      | Some file \<Rightarrow>
          if \<not> is_private_file (ie_getuid ie) (pf_entry file) \<or> pf_size file = 0 \<or> pf_size file > MAX_LOCK_RECORD_BYTES
          then Inl (''Install lock owner is not a private physical file: '' @ owner_record_name ie)
          else (case ie_parse ie (pf_text file) of
            None \<Rightarrow> Inl (''Install lock owner is malformed: '' @ owner_record_name ie)
          | Some parsed \<Rightarrow>
              (case install_lock_record parsed of
                 None \<Rightarrow> Inl (''Install lock has an invalid owner record: '' @ owner_record_name ie)
               | Some r \<Rightarrow> Inr r)))"

definition owner_is_live :: "os_view \<Rightarrow> lock_record \<Rightarrow> bool" where
  "owner_is_live os owner \<longleftrightarrow> is_process_alive os (lo_pid owner) \<and>
     (case read_process_start_identity os (lo_pid owner) of
        None \<Rightarrow> True
      | Some observedIdentity \<Rightarrow> observedIdentity = lo_processIdentity owner)"

definition active_installer_message :: "install_env \<Rightarrow> lock_directory \<Rightarrow> string" where
  "active_installer_message ie dir =
     (case read_owner_record ie dir of
        Inr owner \<Rightarrow> ''A git-commits-push installer is active (pid '' @ show_int (lo_pid owner) @ '').''
      | Inl _ \<Rightarrow> ''A git-commits-push installer is active.'')"

subsection \<open>Under the transaction\<close>

definition candidate_prefix :: "install_env \<Rightarrow> string" where
  "candidate_prefix ie = owner_record_name ie @ ''.candidate-''"

definition is_stale_candidate :: "install_env \<Rightarrow> string \<Rightarrow> bool" where
  "is_stale_candidate ie name \<longleftrightarrow> starts_with (candidate_prefix ie) name \<and> is_hex 32 (drop (length (candidate_prefix ie)) name)"

fun remove_names :: "install_env \<Rightarrow> string list \<Rightarrow> lock_directory \<Rightarrow> string option \<times> lock_directory" where
  "remove_names ie [] dir = (None, dir)"
| "remove_names ie (name # rest) dir =
     (if \<not> is_stale_candidate ie name then remove_names ie rest dir
      else case ie_unlink ie name of
        Some e \<Rightarrow> (Some e, dir)
      | None \<Rightarrow> remove_names ie rest (AList.delete name dir))"

definition remove_stale_owner_candidates :: "install_env \<Rightarrow> lock_directory \<Rightarrow> string option \<times> lock_directory" where
  "remove_stale_owner_candidates ie dir = remove_names ie (map fst dir) dir"

definition stale_record_name :: "install_env \<Rightarrow> string" where
  "stale_record_name ie = owner_record_name ie @ ''.stale-'' @ ie_now ie @ ''-'' @ ie_nonce ie"

definition archive_stale_owner_record ::
  "install_env \<Rightarrow> lock_directory \<Rightarrow> (string + bool) \<times> lock_directory" where
  "archive_stale_owner_record ie dir =
     (case map_of dir (owner_record_name ie) of
        None \<Rightarrow> (Inr False, dir)
      | Some file \<Rightarrow>
          (case read_owner_record ie dir of
             Inl e \<Rightarrow> (Inl e, dir)
           | Inr existingOwner \<Rightarrow>
               if owner_is_live (ie_os ie) existingOwner
               then (Inl (''Install lock owner metadata still identifies a live process (pid ''
                          @ show_int (lo_pid existingOwner) @ '').''), dir)
               else (case ie_rename ie of
                 Some e \<Rightarrow> (Inl e, dir)
               | None \<Rightarrow> (Inr True, AList.update (stale_record_name ie) file (AList.delete (owner_record_name ie) dir)))))"

text \<open>The candidate is created exclusively and linked to the record's name, which fails if that exists; the candidate
  is unlinked either way, and a failed write leaves it.\<close>

definition write_owner_record :: "install_env \<Rightarrow> lock_record \<Rightarrow> lock_directory \<Rightarrow> string option \<times> lock_directory" where
  "write_owner_record ie owner dir =
     (let candidate = candidate_prefix ie @ lo_nonce owner;
          file = new_private_file (ie_getuid ie) (ie_stringify ie (lock_record_json owner));
          empty = new_private_file (ie_getuid ie) [] in
      if map_of dir candidate \<noteq> None then (Some ''EEXIST'', dir)
      else case ie_write ie of
        Some e \<Rightarrow> (Some e, AList.update candidate empty dir)
      | None \<Rightarrow>
          (let written = AList.update candidate file dir;
               linked = (if ie_link ie \<noteq> None then ie_link ie
                         else if map_of written (owner_record_name ie) \<noteq> None then Some ''EEXIST'' else None);
               dir1 = (if linked = None then AList.update (owner_record_name ie) file written else written) in
           case ie_unlink ie candidate of
             Some e \<Rightarrow> (Some e, dir1)
           | None \<Rightarrow> (linked, AList.delete candidate dir1)))"

subsection \<open>Acquisition and release\<close>

record lock_owner =
  ow_record :: lock_record
  ow_recovered :: bool

definition ensure_lock_database_file :: "install_env \<Rightarrow> string option" where
  "ensure_lock_database_file ie =
     (case ie_create ie of
        Some e \<Rightarrow> Some e
      | None \<Rightarrow>
          (case ie_lockEntry ie of
             None \<Rightarrow> Some ''ENOENT''
           | Some stats \<Rightarrow>
               if \<not> is_private_file (ie_getuid ie) stats
               then Some (''Install lock must be a private physical file: '' @ ie_lockName ie) else None))"

definition claim_record ::
  "install_env \<Rightarrow> lock_record \<Rightarrow> lock_directory \<Rightarrow> (string + lock_owner) \<times> lock_directory" where
  "claim_record ie owner dir =
     (case remove_stale_owner_candidates ie dir of
        (Some e, dir1) \<Rightarrow> (Inl e, dir1)
      | (None, dir1) \<Rightarrow>
          (case archive_stale_owner_record ie dir1 of
             (Inl e, dir2) \<Rightarrow> (Inl e, dir2)
           | (Inr wasRecovered, dir2) \<Rightarrow>
               (case write_owner_record ie owner dir2 of
                  (Some e, dir3) \<Rightarrow> (Inl e, dir3)
                | (None, dir3) \<Rightarrow> (Inr \<lparr>ow_record = owner, ow_recovered = wasRecovered\<rparr>, dir3))))"

definition acquire_install_lock ::
  "install_env \<Rightarrow> lock_directory \<Rightarrow> (string + lock_owner) \<times> lock_directory \<times> lock_connection" where
  "acquire_install_lock ie dir =
     (if \<not> ie_absolute ie then (Inl ''Install lock path must be absolute.'', dir, Closed)
      else case ensure_lock_database_file ie of
        Some e \<Rightarrow> (Inl e, dir, Closed)
      | None \<Rightarrow>
          (case ie_open ie of
             Some e \<Rightarrow> (Inl e, dir, Closed)
           | None \<Rightarrow>
               (case ie_begin ie of
                  BeginBusy \<Rightarrow> (Inl (active_installer_message ie dir), dir, Closed)
                | BeginFailed \<Rightarrow> (Inl (''Cannot acquire the installer lock database: '' @ ie_lockName ie), dir, Closed)
                | BeginOk \<Rightarrow>
                    (case ie_identity ie of
                       None \<Rightarrow> (Inl ''Cannot establish the installer process-start identity.'', dir, HoldsLock)
                     | Some identity \<Rightarrow>
                         (case claim_record ie \<lparr>lo_nonce = ie_nonce ie, lo_pid = ie_pid ie, lo_processIdentity = identity\<rparr> dir of
                            (Inl e, dir1) \<Rightarrow> (Inl e, dir1, Closed)
                          | (Inr owner, dir1) \<Rightarrow> (Inr owner, dir1, HoldsLock))))))"

text \<open>\<open>commit\<close> is a failure of \<open>COMMIT\<close> or of the close that follows; the connection is closed in any case.\<close>

definition release_install_lock ::
  "install_env \<Rightarrow> lock_owner \<Rightarrow> string option \<Rightarrow> lock_directory \<Rightarrow> string option \<times> lock_directory \<times> lock_connection" where
  "release_install_lock ie owner commit dir =
     (case read_owner_record ie dir of
        Inl e \<Rightarrow> (Some e, dir, HoldsLock)
      | Inr currentOwner \<Rightarrow>
          if lo_nonce currentOwner \<noteq> lo_nonce (ow_record owner) \<or> lo_pid currentOwner \<noteq> lo_pid (ow_record owner)
             \<or> lo_processIdentity currentOwner \<noteq> lo_processIdentity (ow_record owner)
          then (Some ''Install lock ownership changed before release.'', dir, HoldsLock)
          else (case ie_unlink ie (owner_record_name ie) of
            Some e \<Rightarrow> (Some e, dir, HoldsLock)
          | None \<Rightarrow> (commit, AList.delete (owner_record_name ie) dir, Closed)))"


subsection \<open>The lock protects its record\<close>

lemma record_names [simp]:
  "\<not> is_stale_candidate ie (owner_record_name ie)" "\<not> is_stale_candidate ie (stale_record_name ie)"
  "stale_record_name ie \<noteq> owner_record_name ie" "candidate_prefix ie @ n \<noteq> owner_record_name ie"
  "candidate_prefix ie @ n \<noteq> stale_record_name ie"
  by (auto simp: is_stale_candidate_def candidate_prefix_def stale_record_name_def starts_with_def)

lemmas alist_simps = AList.update_conv' AList.delete_conv'

lemma remove_names_frame:
  "remove_names ie names dir = (r, dir') \<Longrightarrow> \<not> is_stale_candidate ie n \<Longrightarrow> map_of dir' n = map_of dir n"
proof (induction names arbitrary: dir)
  case (Cons name names)
  then show ?case
    by (auto simp: alist_simps split: if_splits option.splits)
qed simp

lemma read_owner_cong:
  "map_of dir' (owner_record_name ie) = map_of dir (owner_record_name ie) \<Longrightarrow> read_owner_record ie dir' = read_owner_record ie dir"
  by (simp add: read_owner_record_def)

text \<open>Archiving: a live owner's record stays; otherwise the file moves, unchanged.\<close>

lemma archive_outcome:
  assumes "archive_stale_owner_record ie dir = (r, dir')"
  shows "case r of
     Inl _ \<Rightarrow> dir' = dir \<and> map_of dir (owner_record_name ie) \<noteq> None
   | Inr wasRecovered \<Rightarrow> wasRecovered = (map_of dir (owner_record_name ie) \<noteq> None) \<and>
       map_of dir' = (map_of dir)(owner_record_name ie := None,
         stale_record_name ie := (if wasRecovered then map_of dir (owner_record_name ie) else map_of dir (stale_record_name ie))) \<and>
       (wasRecovered \<longrightarrow> (\<exists>prev. read_owner_record ie dir = Inr prev \<and> \<not> owner_is_live (ie_os ie) prev))"
proof (cases "map_of dir (owner_record_name ie)")
  case None
  then show ?thesis using assms by (auto simp: archive_stale_owner_record_def fun_eq_iff)
next
  case (Some found)
  then show ?thesis using assms
    by (auto simp: archive_stale_owner_record_def alist_simps split: sum.splits if_splits option.splits)
qed

lemma write_outcome:
  assumes "write_owner_record ie owner dir = (r, dir')"
  shows "\<forall>n. n \<noteq> owner_record_name ie \<and> n \<noteq> candidate_prefix ie @ lo_nonce owner \<longrightarrow> map_of dir' n = map_of dir n"
    "r = None \<Longrightarrow> map_of dir (owner_record_name ie) = None \<and> map_of dir' (owner_record_name ie) =
       Some (new_private_file (ie_getuid ie) (ie_stringify ie (lock_record_json owner)))"
    "map_of dir (owner_record_name ie) = Some found \<Longrightarrow> map_of dir' (owner_record_name ie) = Some found"
  using assms
  by (auto simp: write_owner_record_def alist_simps Let_def split: if_splits option.splits)

text \<open>What acquisition does with the directory, whatever its result.\<close>

lemma claim_outcome:
  assumes "claim_record ie owner dir = (r, dir')"
  shows "\<forall>n. n \<notin> {owner_record_name ie, stale_record_name ie, candidate_prefix ie @ lo_nonce owner} \<and> \<not> is_stale_candidate ie n
      \<longrightarrow> map_of dir' n = map_of dir n" (is ?frame)
    "map_of dir (owner_record_name ie) = Some found \<Longrightarrow>
       map_of dir' (owner_record_name ie) = Some found \<and> (\<exists>e. r = Inl e) \<or> map_of dir' (stale_record_name ie) = Some found \<and>
       (\<exists>prev. read_owner_record ie dir = Inr prev \<and> \<not> owner_is_live (ie_os ie) prev)"
    "r = Inr ow \<Longrightarrow> ow_record ow = owner \<and> ow_recovered ow = (map_of dir (owner_record_name ie) \<noteq> None) \<and>
       map_of dir' (owner_record_name ie) = Some (new_private_file (ie_getuid ie) (ie_stringify ie (lock_record_json owner)))"
proof -
  obtain r1 dir1 where rm: "remove_stale_owner_candidates ie dir = (r1, dir1)" by fastforce
  have keep: "map_of dir1 n = map_of dir n" if "\<not> is_stale_candidate ie n" for n
    using rm that unfolding remove_stale_owner_candidates_def by (rule remove_names_frame)
  have same: "map_of dir1 (owner_record_name ie) = map_of dir (owner_record_name ie)"
    by (simp add: keep)
  have same_owner: "read_owner_record ie dir1 = read_owner_record ie dir"
    using same by (rule read_owner_cong)
  obtain r2 dir2 where ar: "archive_stale_owner_record ie dir1 = (r2, dir2)" by fastforce
  note archived = archive_outcome[OF ar]
  obtain r3 dir3 where wr: "write_owner_record ie owner dir2 = (r3, dir3)" by fastforce
  note written = write_outcome[OF wr]
  have stale_kept: "map_of dir3 (stale_record_name ie) = map_of dir2 (stale_record_name ie)"
    using written(1) record_names(3)[of ie] record_names(5)[of ie "lo_nonce owner"] by metis
  have cases: "r1 \<noteq> None \<and> (\<exists>e. r = Inl e) \<and> dir' = dir1 \<or> r1 = None \<and> (\<exists>e. r2 = Inl e \<and> r = Inl e) \<and> dir' = dir2 \<or>
      r1 = None \<and> (\<exists>b. r2 = Inr b \<and> dir' = dir3 \<and>
        (r3 \<noteq> None \<and> (\<exists>e. r = Inl e) \<or> r3 = None \<and> r = Inr \<lparr>ow_record = owner, ow_recovered = b\<rparr>))"
    using assms rm ar wr by (auto simp: claim_record_def split: option.splits sum.splits)
  show ?frame
    using cases archived written(1) keep by (auto split: sum.splits)
  show "map_of dir' (owner_record_name ie) = Some found \<and> (\<exists>e. r = Inl e) \<or> map_of dir' (stale_record_name ie) = Some found \<and>
       (\<exists>prev. read_owner_record ie dir = Inr prev \<and> \<not> owner_is_live (ie_os ie) prev)"
    if "map_of dir (owner_record_name ie) = Some found"
    using cases archived stale_kept same same_owner that by (auto split: sum.splits)
  show "ow_record ow = owner \<and> ow_recovered ow = (map_of dir (owner_record_name ie) \<noteq> None) \<and>
       map_of dir' (owner_record_name ie) = Some (new_private_file (ie_getuid ie) (ie_stringify ie (lock_record_json owner)))"
    if "r = Inr ow"
    using cases archived written(2) same that by auto
qed

text \<open>What a lock file's directory keeps, whatever an acquisition answers.\<close>

lemma acquire_cases:
  assumes "acquire_install_lock ie dir = (r, dir', conn)"
  shows "dir' = dir \<and> (\<exists>e. r = Inl e) \<and> (conn = Closed \<or> ie_identity ie = None) \<or>
    (\<exists>identity. ie_begin ie = BeginOk \<and> ie_identity ie = Some identity \<and>
       claim_record ie \<lparr>lo_nonce = ie_nonce ie, lo_pid = ie_pid ie, lo_processIdentity = identity\<rparr> dir = (r, dir') \<and>
       conn = (case r of Inl _ \<Rightarrow> Closed | Inr _ \<Rightarrow> HoldsLock))"
  using assms
  by (auto simp: acquire_install_lock_def split: if_splits option.splits begin_answer.splits sum.splits prod.splits)

lemma written_record_read:
  assumes "map_of dir (owner_record_name ie) = Some (new_private_file (ie_getuid ie) (ie_stringify ie (lock_record_json owner)))"
    and "ie_parse ie (ie_stringify ie (lock_record_json owner)) = Some (lock_record_json owner)"
    and "utf8_length (ie_stringify ie (lock_record_json owner)) \<in> {1..MAX_LOCK_RECORD_BYTES}"
    and "install_lock_record (lock_record_json owner) = Some owner"
  shows "read_owner_record ie dir = Inr owner"
  using assms by (simp add: read_owner_record_def)

abbreviation serializes_own_record :: "install_env \<Rightarrow> bool" where
  "serializes_own_record ie \<equiv> \<forall>identity own. ie_identity ie = Some identity \<longrightarrow>
      own = \<lparr>lo_nonce = ie_nonce ie, lo_pid = ie_pid ie, lo_processIdentity = identity\<rparr> \<longrightarrow>
      ie_parse ie (ie_stringify ie (lock_record_json own)) = Some (lock_record_json own) \<and>
      utf8_length (ie_stringify ie (lock_record_json own)) \<in> {1..MAX_LOCK_RECORD_BYTES} \<and>
      0 < length identity \<and> length identity \<le> 2048"

lemma acquired_record:
  assumes run: "acquire_install_lock ie dir = (Inr ow, dir', conn)"
    and json: "serializes_own_record ie"
    and owner: "is_hex 32 (ie_nonce ie)" "is_safe_integer (ie_pid ie)" "0 < ie_pid ie"
  shows "conn = HoldsLock \<and> ie_begin ie = BeginOk \<and> read_owner_record ie dir' = Inr (ow_record ow) \<and>
     ie_identity ie = Some (lo_processIdentity (ow_record ow)) \<and>
     lo_pid (ow_record ow) = ie_pid ie \<and> lo_nonce (ow_record ow) = ie_nonce ie"
proof -
  obtain identity where b: "ie_begin ie = BeginOk" "ie_identity ie = Some identity" "conn = HoldsLock"
    "claim_record ie \<lparr>lo_nonce = ie_nonce ie, lo_pid = ie_pid ie, lo_processIdentity = identity\<rparr> dir = (Inr ow, dir')"
    using acquire_cases[OF run] by auto
  let ?own = "\<lparr>lo_nonce = ie_nonce ie, lo_pid = ie_pid ie, lo_processIdentity = identity\<rparr>"
  have serialized: "ie_parse ie (ie_stringify ie (lock_record_json ?own)) = Some (lock_record_json ?own)"
      "utf8_length (ie_stringify ie (lock_record_json ?own)) \<in> {1..MAX_LOCK_RECORD_BYTES}"
      "0 < length identity" "length identity \<le> 2048"
    using json b(2) by blast+
  have "install_lock_record (lock_record_json ?own) = Some ?own"
    using serialized owner
    by (simp add: install_lock_record_def lock_record_json_def get_prop_def INSTALL_LOCK_RECORD_KEYS_def sort_by_def)
  then have "read_owner_record ie dir' = Inr ?own"
    using claim_outcome(3)[OF b(4) refl] serialized by (intro written_record_read) simp_all
  then show ?thesis using b claim_outcome(3)[OF b(4) refl] by simp
qed

text \<open>C19. The installer lock never displaces a live owner and loses no record. An acquisition that succeeds
  holds SQLite's exclusive transaction, and the owner's record on disk is its own, a private file with its nonce,
  pid and start identity, which reads back as such; it says it recovered exactly when there was a record before, and
  then that record's file was moved, unchanged, to the stale name and its owner was not a live process. When it
  fails, the connection is closed, unless the process cannot identify itself. Either way an existing
  record is kept, under its name with the failure or under the stale name with a dead owner, and no file of another
  name changes, except candidates that crashed acquisitions left.\<close>

theorem install_lock_protects_record:
  assumes run: "acquire_install_lock ie dir = (r, dir', conn)"
    and json: "serializes_own_record ie"
    and owner: "is_hex 32 (ie_nonce ie)" "is_safe_integer (ie_pid ie)" "0 < ie_pid ie"
  shows "(case r of
       Inl _ \<Rightarrow> conn = Closed \<or> ie_identity ie = None
     | Inr ow \<Rightarrow> conn = HoldsLock \<and> ie_begin ie = BeginOk \<and> read_owner_record ie dir' = Inr (ow_record ow) \<and>
         ie_identity ie = Some (lo_processIdentity (ow_record ow)) \<and>
         lo_pid (ow_record ow) = ie_pid ie \<and> lo_nonce (ow_record ow) = ie_nonce ie \<and>
         (ow_recovered ow \<longleftrightarrow> map_of dir (owner_record_name ie) \<noteq> None)) \<and>
    (\<forall>f. map_of dir (owner_record_name ie) = Some f \<longrightarrow>
       map_of dir' (owner_record_name ie) = Some f \<and> (\<exists>e. r = Inl e) \<or>
       map_of dir' (stale_record_name ie) = Some f \<and>
         (\<exists>prev. read_owner_record ie dir = Inr prev \<and> \<not> owner_is_live (ie_os ie) prev)) \<and>
    (\<forall>n. n \<notin> {owner_record_name ie, stale_record_name ie, candidate_prefix ie @ ie_nonce ie} \<and> \<not> is_stale_candidate ie n
       \<longrightarrow> map_of dir' n = map_of dir n)"
  using acquire_cases[OF run]
proof (elim disjE exE conjE)
  fix identity
  assume b: "ie_begin ie = BeginOk" "ie_identity ie = Some identity"
      "claim_record ie \<lparr>lo_nonce = ie_nonce ie, lo_pid = ie_pid ie, lo_processIdentity = identity\<rparr> dir = (r, dir')"
    and conn: "conn = (case r of Inl _ \<Rightarrow> Closed | Inr _ \<Rightarrow> HoldsLock)"
  note outcome = claim_outcome[OF b(3)]
  have "case r of Inl _ \<Rightarrow> conn = Closed \<or> ie_identity ie = None
     | Inr ow \<Rightarrow> conn = HoldsLock \<and> ie_begin ie = BeginOk \<and> read_owner_record ie dir' = Inr (ow_record ow) \<and>
         ie_identity ie = Some (lo_processIdentity (ow_record ow)) \<and>
         lo_pid (ow_record ow) = ie_pid ie \<and> lo_nonce (ow_record ow) = ie_nonce ie \<and>
         (ow_recovered ow \<longleftrightarrow> map_of dir (owner_record_name ie) \<noteq> None)"
    using conn outcome(3) acquired_record[OF _ json owner] run by (cases r) auto
  then show ?thesis using outcome(1,2) by simp
qed simp_all

text \<open>An own record is released.\<close>

lemma release_own:
  assumes "read_owner_record ie dir = Inr (ow_record ow)" "ie_unlink ie (owner_record_name ie) = None"
  shows "release_install_lock ie ow commit dir = (commit, AList.delete (owner_record_name ie) dir, Closed)"
  using assms by (simp add: release_install_lock_def)

lemma release_connection: "release_install_lock ie ow commit dir = (e, dir', HoldsLock) \<Longrightarrow> e \<noteq> None \<and> dir' = dir"
  by (cases "ie_unlink ie (owner_record_name ie)")
     (simp_all add: release_install_lock_def split: sum.splits if_splits, metis+)

text \<open>An installer finds the record of one that crashed.\<close>

definition crashed_record :: lock_record where
  "crashed_record = \<lparr>lo_nonce = replicate 32 (CHR ''c''), lo_pid = 5, lo_processIdentity = ''five''\<rparr>"

definition own_record :: lock_record where
  "own_record = \<lparr>lo_nonce = replicate 32 (CHR ''d''), lo_pid = 6, lo_processIdentity = ''six''\<rparr>"

definition sample_install :: install_env where
  "sample_install = \<lparr>ie_lockName = ''lock'', ie_absolute = True, ie_create = None,
     ie_lockEntry = Some (pf_entry (new_private_file (Some 1) [])), ie_open = None, ie_begin = BeginOk, ie_getuid = Some 1,
     ie_pid = 6, ie_identity = Some ''six'', ie_nonce = replicate 32 (CHR ''d''), ie_now = ''1'',
     ie_os = \<lparr>os_platform = Linux, kill_probe = (\<lambda>_. Some ESRCH), boot_id_file = None, proc_stat_file = (\<lambda>_. None),
              ps_lstart_command = (\<lambda>_. None), ps_pgid = (\<lambda>_. None)\<rparr>,
     ie_parse = (\<lambda>s. Some (lock_record_json (if s = ''own'' then own_record else crashed_record))),
     ie_stringify = (\<lambda>_. ''own''), ie_unlink = (\<lambda>_. None), ie_rename = None, ie_write = None, ie_link = None\<rparr>"

definition crashed_directory :: lock_directory where
  "crashed_directory = [(''lock.owner'', new_private_file (Some 1) ''crashed'')]"

lemma sample_acquisition:
  "acquire_install_lock sample_install crashed_directory =
     (Inr \<lparr>ow_record = own_record, ow_recovered = True\<rparr>,
      [(''lock.owner.stale-1-'' @ replicate 32 (CHR ''d''), new_private_file (Some 1) ''crashed''),
       (''lock.owner'', new_private_file (Some 1) ''own'')], HoldsLock)"
  by code_simp

lemma sample_install_numbers:
  "is_hex 32 (ie_nonce sample_install)" "is_safe_integer (ie_pid sample_install)" "0 < ie_pid sample_install"
  by code_simp+

lemma sample_install_serializes: "serializes_own_record sample_install"
proof -
  have "\<lparr>lo_nonce = ie_nonce sample_install, lo_pid = ie_pid sample_install, lo_processIdentity = ''six''\<rparr> = own_record"
    by (simp add: sample_install_def own_record_def)
  moreover have "utf8_length ''own'' = 3" by code_simp
  ultimately show ?thesis by (auto simp: sample_install_def MAX_LOCK_RECORD_BYTES_def)
qed

lemma install_lock_protects_record_witness:
  "map_of (fst (snd (acquire_install_lock sample_install crashed_directory))) (stale_record_name sample_install)
     = Some (new_private_file (Some 1) ''crashed'')"
proof -
  have "map_of crashed_directory (owner_record_name sample_install) = Some (new_private_file (Some 1) ''crashed'')"
    by code_simp
  then show ?thesis
    using install_lock_protects_record[OF sample_acquisition sample_install_serializes sample_install_numbers]
    unfolding sample_acquisition by simp
qed

end
