(* ===== verification/Release_Tree.thy ===== *)
theory Release_Tree
  imports Posix_Paths Private_Files "HOL-Library.Multiset"
begin

unbundle bit_operations_syntax

text \<open>
  The content of a release, \<open>src/src/modules/installation/release-tree.ts\<close>: its entries in a fixed order, the test
  that it is self-contained, and the text its digest is computed from. A directory tree is a \<open>fs_node\<close>, with the
  children of a directory in the order \<open>readdir\<close> lists them; names have no slash. \<open>realpath\<close> and SHA-256 are
  parameters. Nobody changes the tree while it is read.
\<close>

subsection \<open>Trees\<close>

datatype fs_node =
    Directory nat "(string \<times> fs_node) list"
  | RegularFile nat string
  | SymbolicLink nat string
  | SpecialFile

datatype entry_type = EntryDirectory | EntryFile | EntrySymlink

text \<open>\<open>te_content\<close> is what \<open>readFile\<close> answers later for a file.\<close>

record tree_entry =
  te_relativePath :: string
  te_executableMode :: nat
  te_type :: entry_type
  te_symlinkTarget :: string
  te_content :: string

record tree_env =
  tv_root :: string
  tv_physicalRoot :: "string option"
  tv_realpath :: "string \<Rightarrow> string option"
  tv_sha256 :: "string \<Rightarrow> string"

subsection \<open>Paths\<close>

fun strip_common :: "string list \<Rightarrow> string list \<Rightarrow> string list \<times> string list" where
  "strip_common (a # as) (b # bs) = (if a = b then strip_common as bs else (a # as, b # bs))"
| "strip_common as bs = (as, bs)"

text \<open>\<open>path.relative\<close> of absolute paths.\<close>

definition path_relative :: "string \<Rightarrow> string \<Rightarrow> string" where
  "path_relative source target =
     (let (up, down) = strip_common (path_segments source) (path_segments target)
      in join ''/'' (map (\<lambda>_. ''..'') up @ down))"

definition stays_within_root :: "string \<Rightarrow> string \<Rightarrow> bool" where
  "stays_within_root root candidate =
     (let relative = path_relative root candidate
      in relative = [] \<or> relative \<noteq> ''..'' \<and> \<not> starts_with ''../'' relative \<and> \<not> is_absolute relative)"

subsection \<open>Collecting the entries\<close>

definition executable_bits :: "nat \<Rightarrow> nat" where
  "executable_bits mode = mode AND 73"

definition name_le :: "string \<times> fs_node \<Rightarrow> string \<times> fs_node \<Rightarrow> bool" where
  "name_le l r = string_le (fst l) (fst r)"

definition relative_path :: "string list \<Rightarrow> string" where
  "relative_path names = join ''/'' names"

definition symlink_entry :: "tree_env \<Rightarrow> string list \<Rightarrow> nat \<Rightarrow> string \<Rightarrow> string + tree_entry" where
  "symlink_entry tv names mode symlinkTarget =
     (let relativePath = relative_path names; absolutePath = tv_root tv @ ''/'' @ relativePath;
          described = relativePath @ '' -> '' @ symlinkTarget in
      if is_absolute symlinkTarget then Inl (''Symlink escapes the release tree: '' @ described)
      else if \<not> stays_within_root (tv_root tv) (path_resolve (posix_dirname absolutePath) symlinkTarget)
      then Inl (''Symlink escapes the release tree: '' @ described)
      else case tv_realpath tv absolutePath of
        None \<Rightarrow> Inl (''Release symlink is broken: '' @ described)
      | Some physicalTarget \<Rightarrow>
          if \<not> stays_within_root (nullish (tv_physicalRoot tv) []) physicalTarget
          then Inl (''Symlink escapes the release tree: '' @ described)
          else Inr \<lparr>te_relativePath = relativePath, te_executableMode = executable_bits mode, te_type = EntrySymlink,
                    te_symlinkTarget = symlinkTarget, te_content = []\<rparr>)"

definition directory_entry :: "string list \<Rightarrow> nat \<Rightarrow> tree_entry" where
  "directory_entry names mode = \<lparr>te_relativePath = relative_path names, te_executableMode = executable_bits mode,
     te_type = EntryDirectory, te_symlinkTarget = [], te_content = []\<rparr>"

definition file_entry :: "string list \<Rightarrow> nat \<Rightarrow> string \<Rightarrow> tree_entry" where
  "file_entry names mode content = \<lparr>te_relativePath = relative_path names, te_executableMode = executable_bits mode,
     te_type = EntryFile, te_symlinkTarget = [], te_content = content\<rparr>"

fun node_weight :: "fs_node \<Rightarrow> nat" where
  "node_weight (Directory m children) = Suc (sum_list (map (\<lambda>(_, c). Suc (node_weight c)) children))"
| "node_weight _ = 1"

lemma mset_insert_by [simp]: "mset (insert_by le x xs) = add_mset x (mset xs)"
  by (induction xs) auto

lemma mset_sort_by [simp]: "mset (sort_by le xs) = mset xs"
  unfolding sort_by_def by (induction xs) auto

lemma sum_list_sort_by: "sum_list (map f (sort_by le xs)) = (sum_list (map f xs) :: nat)"
  by (metis mset_map mset_sort_by sum_mset_sum_list)

text \<open>\<open>visit\<close>, over the children of a directory in the order of their names.\<close>

function visit_children :: "tree_env \<Rightarrow> string list \<Rightarrow> (string \<times> fs_node) list \<Rightarrow> string + tree_entry list" where
  "visit_children tv names [] = Inr []"
| "visit_children tv names ((name, child) # rest) =
     (case (case child of
        Directory mode children \<Rightarrow>
          map_sum id (Cons (directory_entry (names @ [name]) mode))
            (visit_children tv (names @ [name]) (sort_by name_le children))
      | RegularFile mode content \<Rightarrow> Inr [file_entry (names @ [name]) mode content]
      | SymbolicLink mode symlinkTarget \<Rightarrow> map_sum id (\<lambda>e. [e]) (symlink_entry tv (names @ [name]) mode symlinkTarget)
      | SpecialFile \<Rightarrow> Inl (''Release contains a special file: '' @ relative_path (names @ [name]))) of
        Inl e \<Rightarrow> Inl e
      | Inr es \<Rightarrow> map_sum id (\<lambda>more_entries. es @ more_entries) (visit_children tv names rest))"
  by pat_completeness auto
termination
  by (relation "measure (\<lambda>(_, _, cs). sum_list (map (\<lambda>(_, c). Suc (node_weight c)) cs))")
     (auto simp: sum_list_sort_by)

definition collect_release_tree_entries :: "tree_env \<Rightarrow> fs_node option \<Rightarrow> string + tree_entry list" where
  "collect_release_tree_entries tv root =
     (case root of
        None \<Rightarrow> Inl ''ENOENT''
      | Some (Directory _ children) \<Rightarrow>
          (case tv_physicalRoot tv of
             None \<Rightarrow> Inl ''ENOENT''
           | Some _ \<Rightarrow> visit_children tv [] (sort_by name_le children))
      | Some _ \<Rightarrow> Inl (''Release root must be a physical directory: '' @ tv_root tv))"

definition validate_release_tree :: "tree_env \<Rightarrow> fs_node option \<Rightarrow> string option" where
  "validate_release_tree tv root =
     (case collect_release_tree_entries tv root of Inl e \<Rightarrow> Some e | Inr _ \<Rightarrow> None)"

subsection \<open>The digest\<close>

definition utf8_char :: "char \<Rightarrow> string" where
  "utf8_char c = (let n = of_char c :: nat in
     if n < 128 then [c] else [char_of (192 + n div 64), char_of (128 + n mod 64)])"

definition utf8_bytes :: "string \<Rightarrow> string" where
  "utf8_bytes s = concat (map utf8_char s)"

definition digest_field :: "string \<Rightarrow> string" where
  "digest_field s = (let bytes = utf8_bytes s in show_nat (length bytes) @ '':'' @ bytes)"

definition type_name :: "entry_type \<Rightarrow> string" where
  "type_name t = (case t of EntryDirectory \<Rightarrow> ''directory'' | EntryFile \<Rightarrow> ''file'' | EntrySymlink \<Rightarrow> ''symlink'')"

fun octal :: "nat \<Rightarrow> string" where
  "octal n = (if n < 8 then [char_of (48 + n)] else octal (n div 8) @ [char_of (48 + n mod 8)])"

declare octal.simps [simp del]

definition entry_text :: "tree_entry \<Rightarrow> string" where
  "entry_text e =
     digest_field (te_relativePath e) @ digest_field (type_name (te_type e)) @
     digest_field (octal (te_executableMode e)) @
     (case te_type e of
        EntryFile \<Rightarrow> digest_field (show_nat (length (te_content e))) @ te_content e
      | EntrySymlink \<Rightarrow> digest_field (te_symlinkTarget e)
      | EntryDirectory \<Rightarrow> [])"

definition digest_text :: "tree_entry list \<Rightarrow> string" where
  "digest_text es = concat (map entry_text es)"

definition digest_release_tree :: "tree_env \<Rightarrow> fs_node option \<Rightarrow> string + string" where
  "digest_release_tree tv root = map_sum id (\<lambda>es. tv_sha256 tv (digest_text es)) (collect_release_tree_entries tv root)"

subsection \<open>The digest text is unambiguous\<close>

lemma utf8_char_prefix: "utf8_char c @ x = utf8_char d @ y \<Longrightarrow> c = d \<and> x = y"
proof -
  assume eq: "utf8_char c @ x = utf8_char d @ y"
  let ?c = "of_char c :: nat" and ?d = "of_char d :: nat"
  have bounds: "?c < 256" "?d < 256" by simp_all
  then have quotients: "?c div 64 < 4" "?d div 64 < 4" by (simp_all add: less_mult_imp_div_less)
  have "?c = ?d \<and> x = y"
  proof (cases "?c < 128"; cases "?d < 128")
    assume "\<not> ?c < 128" "\<not> ?d < 128"
    then have "(char_of (192 + ?c div 64) :: char) = char_of (192 + ?d div 64)"
      "(char_of (128 + ?c mod 64) :: char) = char_of (128 + ?d mod 64)" "x = y"
      using eq by (auto simp: utf8_char_def Let_def)
    then have "192 + ?c div 64 = 192 + ?d div 64" "128 + ?c mod 64 = 128 + ?d mod 64" "x = y"
      using bounds by (auto intro!: octet_inj)
    then show ?thesis by (metis add_left_cancel div_mult_mod_eq)
  next
    assume low: "?c < 128" "\<not> ?d < 128"
    then have "c = char_of (192 + ?d div 64)" using eq by (auto simp: utf8_char_def Let_def)
    then have "?c = 192 + ?d div 64" using octets[of "192 + ?d div 64"] quotients by simp
    then show ?thesis using low by simp
  next
    assume low: "\<not> ?c < 128" "?d < 128"
    then have "d = char_of (192 + ?c div 64)" using eq by (auto simp: utf8_char_def Let_def)
    then have "?d = 192 + ?c div 64" using octets[of "192 + ?c div 64"] quotients by simp
    then show ?thesis using low by simp
  qed (use eq in \<open>auto simp: utf8_char_def Let_def\<close>)
  then show ?thesis by simp
qed

lemma utf8_bytes_inj: "utf8_bytes s = utf8_bytes t \<Longrightarrow> s = t"
proof (induction s arbitrary: t)
  case Nil
  then show ?case by (cases t) (auto simp: utf8_bytes_def utf8_char_def Let_def split: if_splits)
next
  case (Cons c s)
  then obtain d t' where t: "t = d # t'"
    by (cases t) (auto simp: utf8_bytes_def utf8_char_def Let_def split: if_splits)
  then show ?case using Cons utf8_char_prefix[of c "utf8_bytes s" d "utf8_bytes t'"]
    by (auto simp: utf8_bytes_def)
qed

lemma octal_not_Nil [simp]: "octal n \<noteq> []" "[] \<noteq> octal n"
  by (subst octal.simps, simp)+

lemma octal_inj: "octal m = octal n \<Longrightarrow> m = n"
proof (induction m arbitrary: n rule: octal.induct)
  case (1 m)
  have ends: "last (octal k) = char_of (48 + k mod 8)" "butlast (octal k) = (if k < 8 then [] else octal (k div 8))" for k
    by (subst octal.simps, simp)+
  have last: "m mod 8 = n mod 8" using 1(2) ends(1)[of m] ends(1)[of n]
    by (intro digit_inj) (simp_all add: order_less_trans[of _ 8 10])
  have front: "(if m < 8 then [] else octal (m div 8)) = (if n < 8 then [] else octal (n div 8))"
    using 1(2) ends(2)[of m] ends(2)[of n] by simp
  show ?case
  proof (cases "m < 8")
    case True
    then show ?thesis using front last by (simp split: if_splits)
  next
    case False
    then have "m div 8 = n div 8" "\<not> n < 8" using 1(1)[of "n div 8"] front by (auto split: if_splits)
    then show ?thesis using last by (metis div_mult_mod_eq)
  qed
qed

text \<open>A field says where it ends.\<close>

lemma number_prefix:
  "list_all is_digit a \<Longrightarrow> list_all is_digit b \<Longrightarrow> a @ '':'' @ x = b @ '':'' @ y \<Longrightarrow> a = b \<and> x = y"
proof (induction a arbitrary: b)
  case Nil
  then show ?case by (cases b) (auto simp: is_digit_def)
next
  case (Cons c a)
  then show ?case by (cases b) (auto simp: is_digit_def)
qed

lemma digest_field_prefix: "digest_field s @ x = digest_field t @ y \<Longrightarrow> s = t \<and> x = y"
proof -
  assume "digest_field s @ x = digest_field t @ y"
  then have "show_nat (length (utf8_bytes s)) = show_nat (length (utf8_bytes t)) \<and> utf8_bytes s @ x = utf8_bytes t @ y"
    using number_prefix[OF show_nat_digits show_nat_digits, of _ "utf8_bytes s @ x" _ "utf8_bytes t @ y"]
    by (simp add: digest_field_def Let_def)
  then show ?thesis using show_nat_inj utf8_bytes_inj by (metis append_eq_append_conv)
qed

definition plain_entry :: "tree_entry \<Rightarrow> bool" where
  "plain_entry e \<longleftrightarrow> (te_type e \<noteq> EntryFile \<longrightarrow> te_content e = []) \<and> (te_type e \<noteq> EntrySymlink \<longrightarrow> te_symlinkTarget e = [])"

lemma type_name_inj: "type_name s = type_name t \<Longrightarrow> s = t"
  by (simp add: type_name_def split: entry_type.splits)

lemma entry_text_prefix:
  assumes "plain_entry d" "plain_entry e" "entry_text d @ x = entry_text e @ y"
  shows "d = e \<and> x = y"
proof -
  define rest where "rest f = (case te_type f of
        EntryFile \<Rightarrow> digest_field (show_nat (length (te_content f))) @ te_content f
      | EntrySymlink \<Rightarrow> digest_field (te_symlinkTarget f) | EntryDirectory \<Rightarrow> [])" for f :: tree_entry
  have "te_relativePath d = te_relativePath e \<and> type_name (te_type d) = type_name (te_type e) \<and>
      octal (te_executableMode d) = octal (te_executableMode e) \<and> rest d @ x = rest e @ y"
    using assms(3) by (auto simp: entry_text_def rest_def[symmetric] dest!: digest_field_prefix)
  then have same: "te_relativePath d = te_relativePath e" "te_type d = te_type e"
      "te_executableMode d = te_executableMode e" "rest d @ x = rest e @ y"
    using type_name_inj octal_inj by blast+
  have "te_content d = te_content e \<and> te_symlinkTarget d = te_symlinkTarget e \<and> x = y"
    using same(2,4) assms(1,2)
    by (cases "te_type e") (auto simp: rest_def plain_entry_def dest!: digest_field_prefix show_nat_inj)
  then show ?thesis using same by simp
qed

lemma digest_text_inj:
  "list_all plain_entry ds \<Longrightarrow> list_all plain_entry es \<Longrightarrow> digest_text ds = digest_text es \<Longrightarrow> ds = es"
proof (induction ds arbitrary: es)
  have ne: "entry_text e \<noteq> []" for e by (simp add: entry_text_def digest_field_def Let_def)
  case Nil
  then show ?case using ne by (cases es) (auto simp: digest_text_def)
next
  have ne: "entry_text e \<noteq> []" for e by (simp add: entry_text_def digest_field_def Let_def)
  case (Cons d ds)
  obtain e es' where es: "es = e # es'"
    using Cons.prems(3) ne[of d] by (cases es) (simp_all add: digest_text_def)
  have "d = e \<and> digest_text ds = digest_text es'"
    by (rule entry_text_prefix) (use Cons.prems in \<open>simp_all add: es digest_text_def\<close>)
  then show ?case using Cons.IH[of es'] Cons.prems by (simp add: es)
qed

subsection \<open>The entries determine the tree\<close>

text \<open>What a release consists of: the children sorted by name, of the modes only the executable bits.\<close>

fun release_content :: "fs_node \<Rightarrow> fs_node" where
  "release_content (Directory mode children) =
     Directory (executable_bits mode) (sort_by name_le (map (\<lambda>(name, c). (name, release_content c)) children))"
| "release_content (RegularFile mode content) = RegularFile (executable_bits mode) content"
| "release_content (SymbolicLink mode t) = SymbolicLink (executable_bits mode) t"
| "release_content SpecialFile = SpecialFile"

text \<open>The root's own mode is not part of it.\<close>

definition release_children :: "fs_node option \<Rightarrow> (string \<times> fs_node) list" where
  "release_children root =
     (case map_option release_content root of Some (Directory _ children) \<Rightarrow> children | _ \<Rightarrow> [])"

text \<open>File names have no slash.\<close>

fun slash_free :: "fs_node \<Rightarrow> bool" where
  "slash_free (Directory mode children) = list_all (\<lambda>(name, c). CHR ''/'' \<notin> set name \<and> slash_free c) children"
| "slash_free _ = True"

type_synonym raw_entry = "string list \<times> nat \<times> entry_type \<times> string \<times> string"

fun raw_entries :: "string list \<Rightarrow> (string \<times> fs_node) list \<Rightarrow> raw_entry list" where
  "raw_entries names [] = []"
| "raw_entries names ((name, Directory mode children) # rest) =
     (names @ [name], mode, EntryDirectory, [], []) # raw_entries (names @ [name]) children @ raw_entries names rest"
| "raw_entries names ((name, RegularFile mode content) # rest) =
     (names @ [name], mode, EntryFile, [], content) # raw_entries names rest"
| "raw_entries names ((name, SymbolicLink mode t) # rest) =
     (names @ [name], mode, EntrySymlink, t, []) # raw_entries names rest"
| "raw_entries names ((name, SpecialFile) # rest) = raw_entries names rest"

definition to_entry :: "raw_entry \<Rightarrow> tree_entry" where
  "to_entry r = (case r of (names, mode, type, target, content) \<Rightarrow>
     \<lparr>te_relativePath = relative_path names, te_executableMode = mode, te_type = type, te_symlinkTarget = target,
      te_content = content\<rparr>)"

lemma insert_by_map: "(\<And>a b. le (f a) (f b) = le a b) \<Longrightarrow> insert_by le (f x) (map f xs) = map f (insert_by le x xs)"
  by (induction xs) auto

lemma sort_by_map: "(\<And>a b. le (f a) (f b) = le a b) \<Longrightarrow> sort_by le (map f xs) = map f (sort_by le xs)"
  unfolding sort_by_def by (induction xs) (auto simp: insert_by_map)

abbreviation content_child :: "string \<times> fs_node \<Rightarrow> string \<times> fs_node" where
  "content_child \<equiv> \<lambda>(name, c). (name, release_content c)"

lemma sort_content: "sort_by name_le (map content_child cs) = map content_child (sort_by name_le cs)"
  by (rule sort_by_map) (auto simp: name_le_def)

lemma map_sum_Inr: "map_sum id f x = Inr y \<longleftrightarrow> (\<exists>z. x = Inr z \<and> y = f z)"
  by (cases x) auto

lemma to_entry_simps:
  "to_entry (ns, executable_bits m, EntryDirectory, [], []) = directory_entry ns m"
  "to_entry (ns, executable_bits m, EntryFile, [], x) = file_entry ns m x"
  by (simp_all add: to_entry_def directory_entry_def file_entry_def)

lemma symlink_entry_is: "symlink_entry tv ns m t = Inr e \<Longrightarrow> e = to_entry (ns, executable_bits m, EntrySymlink, t, [])"
  by (auto simp: symlink_entry_def to_entry_def Let_def split: if_splits option.splits)

lemma visit_entries:
  "visit_children tv names cs = Inr es \<Longrightarrow> es = map to_entry (raw_entries names (map content_child cs))"
proof (induction tv names cs arbitrary: es rule: visit_children.induct)
  case (2 tv names name child rest)
  then show ?case
    by (cases child) (auto simp: sort_content to_entry_simps map_sum_Inr split: sum.splits dest: symlink_entry_is)
qed simp

text \<open>An entry that is not below the directory \<open>names\<close>.\<close>

definition outside :: "string list \<Rightarrow> raw_entry list \<Rightarrow> bool" where
  "outside names X \<longleftrightarrow> (case X of [] \<Rightarrow> True | r # _ \<Rightarrow> \<not> (\<exists>q. q \<noteq> [] \<and> fst r = names @ q))"

fun no_special :: "fs_node \<Rightarrow> bool" where
  "no_special (Directory mode children) = list_all (\<lambda>(name, c). no_special c) children"
| "no_special SpecialFile = False"
| "no_special _ = True"

abbreviation plain_children :: "(string \<times> fs_node) list \<Rightarrow> bool" where
  "plain_children cs \<equiv> list_all (\<lambda>(name, c). no_special c) cs"

lemma raw_entries_Cons:
  "plain_children ((n, c) # cs) \<Longrightarrow> \<exists>payload more_entries. raw_entries names ((n, c) # cs) = (names @ [n], payload) # more_entries"
  by (cases c) auto

lemma outside_next:
  assumes "plain_children cs" "outside names X"
  shows "outside (names @ [n]) (raw_entries names cs @ X)"
proof (cases cs)
  case Nil
  then show ?thesis using assms(2) by (auto simp: outside_def split: list.splits)
next
  case (Cons c cs')
  then show ?thesis using assms(1) raw_entries_Cons[of "fst c" "snd c" cs' names] by (auto simp: outside_def)
qed

lemma raw_entries_prefix:
  "plain_children cs \<Longrightarrow> plain_children ds \<Longrightarrow> outside names X \<Longrightarrow> outside names Y \<Longrightarrow>
     raw_entries names cs @ X = raw_entries names ds @ Y \<Longrightarrow> cs = ds \<and> X = Y"
proof (induction "sum_list (map (\<lambda>(_, c). Suc (node_weight c)) cs)" arbitrary: names cs ds X Y rule: less_induct)
  case less
  show ?case
  proof (cases cs; cases ds)
    fix c cs' d ds'
    assume cs: "cs = c # cs'" and ds: "ds = d # ds'"
    obtain n k m l where c: "c = (n, k)" and d: "d = (m, l)" by fastforce
    have IH: "cs' = ds' \<and> X = Y" if "raw_entries names cs' @ X = raw_entries names ds' @ Y"
      using less(1)[of cs' ds' names X Y] less(2-5) that by (auto simp: cs ds c d)
    show ?thesis
    proof (cases k)
      case (Directory mode children)
      then obtain lm lc where l: "l = Directory lm lc" "n = m" "lm = mode"
        and tails: "raw_entries (names @ [n]) children @ raw_entries names cs' @ X =
           raw_entries (names @ [n]) lc @ raw_entries names ds' @ Y"
        using less(3,6) by (cases l) (auto simp: cs ds c d)
      have "outside (names @ [n]) (raw_entries names cs' @ X)" "outside (names @ [n]) (raw_entries names ds' @ Y)"
        using less(2-5) by (auto simp: cs ds c d intro: outside_next)
      then have "children = lc \<and> raw_entries names cs' @ X = raw_entries names ds' @ Y"
        using less(1)[of children lc "names @ [n]"] less(2,3) tails by (auto simp: cs ds c d l Directory)
      then show ?thesis using IH by (simp add: cs ds c d l Directory)
    qed (use less(2,3,6) IH in \<open>cases l; auto simp: cs ds c d\<close>)+
  next
    fix c cs'
    assume "cs = c # cs'" "ds = []"
    then show ?thesis using less(2,5,6) raw_entries_Cons[of "fst c" "snd c" cs' names] by (auto simp: outside_def)
  next
    fix d ds'
    assume "cs = []" "ds = d # ds'"
    then show ?thesis using less(3,4,6) raw_entries_Cons[of "fst d" "snd d" ds' names] by (auto simp: outside_def)
  qed (use less in auto)
qed

lemma raw_entries_inj: "plain_children cs \<Longrightarrow> plain_children ds \<Longrightarrow> raw_entries [] cs = raw_entries [] ds \<Longrightarrow> cs = ds"
  using raw_entries_prefix[of cs ds "[]" "[]" "[]"] by (simp add: outside_def)

lemma split_on_free: "c \<notin> set s \<Longrightarrow> split_on c s = [s]"
  by (induction s) auto

lemma split_on_append: "c \<notin> set s \<Longrightarrow> split_on c (s @ c # t) = s # split_on c t"
  by (induction s) auto

lemma split_join: "ns \<noteq> [] \<Longrightarrow> \<forall>n \<in> set ns. CHR ''/'' \<notin> set n \<Longrightarrow> split_on (CHR ''/'') (join ''/'' ns) = ns"
  by (induction "''/''" ns rule: join.induct) (auto simp: split_on_free split_on_append)

text \<open>Below a directory with slash-free path, an entry has one too.\<close>

abbreviation free_children :: "(string \<times> fs_node) list \<Rightarrow> bool" where
  "free_children cs \<equiv> list_all (\<lambda>(name, c). CHR ''/'' \<notin> set name \<and> slash_free c) cs"

lemma raw_entry_names:
  "r \<in> set (raw_entries names cs) \<Longrightarrow> free_children cs \<Longrightarrow> \<forall>n \<in> set names. CHR ''/'' \<notin> set n \<Longrightarrow>
     fst r \<noteq> [] \<and> (\<forall>n \<in> set (fst r). CHR ''/'' \<notin> set n) \<and> plain_entry (to_entry r)"
  by (induction names cs rule: raw_entries.induct) (auto simp: to_entry_def plain_entry_def)

lemma to_entry_inj:
  "fst r \<noteq> [] \<Longrightarrow> fst q \<noteq> [] \<Longrightarrow> \<forall>n \<in> set (fst r). CHR ''/'' \<notin> set n \<Longrightarrow> \<forall>n \<in> set (fst q). CHR ''/'' \<notin> set n \<Longrightarrow>
     to_entry r = to_entry q \<Longrightarrow> r = q"
  by (cases r; cases q) (auto simp: to_entry_def relative_path_def dest: arg_cong[where f = "split_on (CHR ''/'')"] simp: split_join)

lemma content_slash_free: "slash_free t \<Longrightarrow> slash_free (release_content t)"
  by (induction t rule: release_content.induct) (auto simp: list_all_iff)

lemma content_free: "free_children cs \<Longrightarrow> free_children (map content_child cs)"
  by (auto simp: list_all_iff content_slash_free)

lemma visit_plain: "visit_children tv names cs = Inr es \<Longrightarrow> plain_children (map content_child cs)"
proof (induction tv names cs arbitrary: es rule: visit_children.induct)
  case (2 tv names name child rest)
  then show ?case
    by (cases child) (force simp: sort_content map_sum_Inr list_all_iff split_beta split: sum.splits)+
qed simp

lemma collected_entries:
  assumes "collect_release_tree_entries tv root = Inr es" "\<forall>t. root = Some t \<longrightarrow> slash_free t"
  shows "es = map to_entry (raw_entries [] (release_children root))" "plain_children (release_children root)"
    "free_children (release_children root)"
proof -
  obtain m cs where root: "root = Some (Directory m cs)" and visit: "visit_children tv [] (sort_by name_le cs) = Inr es"
    using assms(1) by (auto simp: collect_release_tree_entries_def split: option.splits fs_node.splits)
  have children: "release_children root = map content_child (sort_by name_le cs)"
    by (simp add: release_children_def root sort_content)
  show "es = map to_entry (raw_entries [] (release_children root))" "plain_children (release_children root)"
    using visit_entries[OF visit] visit_plain[OF visit] by (simp_all add: children)
  show "free_children (release_children root)"
    using assms(2) root content_free[of "sort_by name_le cs"] unfolding children by (simp add: list_all_iff)
qed

lemma entries_inj:
  assumes "free_children cs" "free_children ds" "plain_children cs" "plain_children ds"
    and "map to_entry (raw_entries [] cs) = map to_entry (raw_entries [] ds)"
  shows "cs = ds"
proof -
  have "inj_on to_entry (set (raw_entries [] cs) \<union> set (raw_entries [] ds))"
  proof (rule inj_onI)
    fix r q
    assume "r \<in> set (raw_entries [] cs) \<union> set (raw_entries [] ds)" "q \<in> set (raw_entries [] cs) \<union> set (raw_entries [] ds)"
      and same: "to_entry r = to_entry q"
    then have "fst x \<noteq> [] \<and> (\<forall>n \<in> set (fst x). CHR ''/'' \<notin> set n)" if "x = r \<or> x = q" for x
      using raw_entry_names[of x "[]" cs] raw_entry_names[of x "[]" ds] assms(1,2) that by auto
    from this[of r] this[of q] show "r = q" using same by (intro to_entry_inj) blast+
  qed
  then have "raw_entries [] cs = raw_entries [] ds"
    using assms(5) by (simp add: inj_on_map_eq_map)
  then show ?thesis using raw_entries_inj assms(3,4) by blast
qed

text \<open>C20. The digest of a release identifies its content. Two release trees whose digests are equal have the same
  directories, files, links, bytes, link targets and executable bits under the same names, or SHA-256 has a
  collision: the length-prefixed text that is hashed is unambiguous. Conversely, trees with the same content have
  the same digest, in whatever order \<open>readdir\<close> lists them and whatever their other permission bits.\<close>

theorem release_digest_identifies_content:
  assumes "digest_release_tree tv root1 = Inr d1" "digest_release_tree tv2 root2 = Inr d2"
    and "tv_sha256 tv = sha" "tv_sha256 tv2 = sha"
    and "\<forall>t. root1 = Some t \<or> root2 = Some t \<longrightarrow> slash_free t"
  shows "(d1 = d2 \<longrightarrow> release_children root1 = release_children root2 \<or> (\<exists>x y. x \<noteq> y \<and> sha x = sha y)) \<and>
    (release_children root1 = release_children root2 \<longrightarrow> d1 = d2)"
proof -
  obtain es1 es2 where es: "collect_release_tree_entries tv root1 = Inr es1" "d1 = sha (digest_text es1)"
    "collect_release_tree_entries tv2 root2 = Inr es2" "d2 = sha (digest_text es2)"
    using assms(1-4) by (auto simp: digest_release_tree_def map_sum_Inr)
  note one = collected_entries[OF es(1)] and two = collected_entries[OF es(3)]
  have "list_all plain_entry es1" "list_all plain_entry es2"
    using one two raw_entry_names[of _ "[]"] assms(5) by (auto simp: list_all_iff)
  then have "digest_text es1 = digest_text es2 \<Longrightarrow> release_children root1 = release_children root2"
    using digest_text_inj entries_inj one two assms(5) by metis
  then show ?thesis using es one two assms(5) by auto
qed

text \<open>Two listings of one directory.\<close>

definition sample_tree_env :: tree_env where
  "sample_tree_env = \<lparr>tv_root = ''/r'', tv_physicalRoot = Some ''/r'', tv_realpath = Some, tv_sha256 = (\<lambda>s. s)\<rparr>"

lemma release_digest_identifies_content_witness:
  "digest_release_tree sample_tree_env (Some (Directory 493 [(''b'', RegularFile 493 ''x''), (''a'', SymbolicLink 511 ''b'')])) =
   digest_release_tree sample_tree_env (Some (Directory 448 [(''a'', SymbolicLink 511 ''b''), (''b'', RegularFile 457 ''x'')]))"
proof -
  let ?l = "Some (Directory 493 [(''b'', RegularFile 493 ''x''), (''a'', SymbolicLink 511 ''b'')])"
  let ?r = "Some (Directory 448 [(''a'', SymbolicLink 511 ''b''), (''b'', RegularFile 457 ''x'')])"
  have ok: "is_ok (digest_release_tree sample_tree_env ?l)" "is_ok (digest_release_tree sample_tree_env ?r)"
    "release_children ?l = release_children ?r"
    by code_simp+
  then obtain d1 d2 where d: "digest_release_tree sample_tree_env ?l = Inr d1" "digest_release_tree sample_tree_env ?r = Inr d2"
    unfolding is_ok_iff by blast
  have "\<forall>t. ?l = Some t \<or> ?r = Some t \<longrightarrow> slash_free t" by auto
  then have "d1 = d2"
    using release_digest_identifies_content[OF d, of "\<lambda>s. s", THEN conjunct2, THEN mp] ok(3)
    by (simp only: sample_tree_env_def tree_env.simps)
  then show ?thesis using d by simp
qed

end
