(* ===== verification/Deployment_Builder.thy ===== *)
theory Deployment_Builder
  imports Control_Protocol Release_Identity Release_Tree
begin

text \<open>
  The deployment an installation stages, \<open>src/src/modules/installation/deployment-builder.ts\<close>: what \<open>pnpm deploy\<close>
  left in the staging directory, without the package manager's metadata, checked for the files a release needs.
  \<open>pnpm\<close> is a parameter, and so is the kernel's resolution of a path in a tree (\<open>bv_walk\<close>, which follows the links
  on the way but not the last one).
\<close>

definition REQUIRED_RELEASE_FILES :: "string list" where
  "REQUIRED_RELEASE_FILES =
    [''bin/git-commits-push.mjs'', ''dist/src/entrypoints/git-commits-push.js'', ''dist/src/entrypoints/node-supervisor.js'',
     ''dist/src/entrypoints/turnlock-orchestrator.js'', ''dist/src/entrypoints/turnlock-to-llm-bridge.js'',
     ''dist/src/config/settings.json'', ''dist/system-prompt.md'',
     ''node_modules/@git-commits-push/node-runtime/dist/index.js'', ''node_modules/@git-commits-push/trust/dist/index.js'']"

text \<open>How a child process ended.\<close>

datatype child_outcome = ChildError string | ChildClosed "int option" "string option"

record build_env =
  bv_pnpmCliPath :: string
  bv_pnpm :: "fs_node \<Rightarrow> child_outcome \<times> fs_node"
  bv_remove :: "string \<Rightarrow> string option"
  bv_walk :: "fs_node \<Rightarrow> string \<Rightarrow> fs_node option"
  bv_parse :: "string \<Rightarrow> js_value option"
  bv_chmod :: "string option"

definition run_pnpm_deploy :: "build_env \<Rightarrow> fs_node \<Rightarrow> string option \<times> fs_node" where
  "run_pnpm_deploy bv tree =
     (if \<not> is_absolute (bv_pnpmCliPath bv) then (Some ''pnpm CLI path must resolve to an absolute path.'', tree)
      else case bv_pnpm bv tree of
        (ChildError e, tree') \<Rightarrow> (Some e, tree')
      | (ChildClosed exitCode signal, tree') \<Rightarrow>
          if exitCode = Some 0 \<and> signal = None then (None, tree')
          else (Some (''pnpm deploy failed'' @
                  (case signal of
                     Some s \<Rightarrow> '' with '' @ s
                   | None \<Rightarrow> '' with exit code '' @ (case exitCode of Some n \<Rightarrow> show_int n | None \<Rightarrow> ''null'')) @ ''.''), tree'))"

subsection \<open>Removing metadata\<close>

text \<open>\<open>visit\<close> below \<open>node_modules\<close>: directories called \<open>.bin\<close> go. The first failure ends it; \<open>path\<close> names the
  directory.\<close>

fun remove_bin_directories ::
  "build_env \<Rightarrow> string \<Rightarrow> (string \<times> fs_node) list \<Rightarrow> string option \<times> (string \<times> fs_node) list" where
  "remove_bin_directories bv path [] = (None, [])"
| "remove_bin_directories bv path ((name, Directory mode children) # rest) =
     (if name = ''.bin'' then
        (case bv_remove bv (path @ ''/'' @ name) of
           Some e \<Rightarrow> (Some e, (name, Directory mode children) # rest)
         | None \<Rightarrow> remove_bin_directories bv path rest)
      else (case remove_bin_directories bv (path @ ''/'' @ name) children of
        (Some e, children') \<Rightarrow> (Some e, (name, Directory mode children') # rest)
      | (None, children') \<Rightarrow>
          (case remove_bin_directories bv path rest of
             (e, rest') \<Rightarrow> (e, (name, Directory mode children') # rest'))))"
| "remove_bin_directories bv path ((name, RegularFile mode content) # rest) =
     (case remove_bin_directories bv path rest of (e, rest') \<Rightarrow> (e, (name, RegularFile mode content) # rest'))"
| "remove_bin_directories bv path ((name, SymbolicLink mode t) # rest) =
     (case remove_bin_directories bv path rest of (e, rest') \<Rightarrow> (e, (name, SymbolicLink mode t) # rest'))"
| "remove_bin_directories bv path ((name, SpecialFile) # rest) =
     (case remove_bin_directories bv path rest of (e, rest') \<Rightarrow> (e, (name, SpecialFile) # rest'))"

definition METADATA_PATHS :: "string list list" where
  "METADATA_PATHS = [[''pnpm-lock.yaml''], [''node_modules'', ''.modules.yaml''], [''node_modules'', ''.package-map.json''],
     [''node_modules'', ''.pnpm-workspace-state-v1.json''], [''node_modules'', ''.pnpm'', ''lock.yaml'']]"

text \<open>\<open>rm\<close> with \<open>force\<close>: an absent file is none of its business, a directory is an error.\<close>

fun remove_file :: "string list \<Rightarrow> fs_node \<Rightarrow> string option \<times> fs_node" where
  "remove_file [name] (Directory mode children) =
     (case map_of children name of
        Some (Directory m cs) \<Rightarrow> (Some ''ERR_FS_EISDIR'', Directory mode children)
      | _ \<Rightarrow> (None, Directory mode (filter (\<lambda>(n, _). n \<noteq> name) children)))"
| "remove_file (name # names) (Directory mode children) =
     (case map_of children name of
        Some (Directory m cs) \<Rightarrow>
          (case remove_file names (Directory m cs) of
             (e, child') \<Rightarrow> (e, Directory mode (map (\<lambda>(n, c). (n, if n = name then child' else c)) children)))
      | _ \<Rightarrow> (None, Directory mode children))"
| "remove_file names tree = (None, tree)"

fun remove_files :: "build_env \<Rightarrow> string list list \<Rightarrow> fs_node \<Rightarrow> string option \<times> fs_node" where
  "remove_files bv [] tree = (None, tree)"
| "remove_files bv (names # rest) tree =
     (case bv_remove bv (relative_path names) of
        Some e \<Rightarrow> (Some e, tree)
      | None \<Rightarrow>
          (case remove_file names tree of
             (Some e, tree') \<Rightarrow> (Some e, tree')
           | (None, tree') \<Rightarrow> remove_files bv rest tree'))"

definition remove_pnpm_metadata :: "build_env \<Rightarrow> fs_node \<Rightarrow> string option \<times> fs_node" where
  "remove_pnpm_metadata bv tree =
     (case tree of
        Directory mode children \<Rightarrow>
          (case map_of children ''node_modules'' of
             Some (Directory m modules) \<Rightarrow>
               (case remove_bin_directories bv ''node_modules'' modules of
                  (e, modules') \<Rightarrow>
                    let tree' = Directory mode
                          (map (\<lambda>(n, c). (n, if n = ''node_modules'' then Directory m modules' else c)) children)
                    in case e of Some err \<Rightarrow> (Some err, tree') | None \<Rightarrow> remove_files bv METADATA_PATHS tree')
           | _ \<Rightarrow> (Some ''ENOENT'', tree))
      | _ \<Rightarrow> (Some ''ENOENT'', tree))"

subsection \<open>Validation\<close>

definition EXECUTABLE_FILE :: string where "EXECUTABLE_FILE = ''bin/git-commits-push.mjs''"

text \<open>\<open>chmod\<close> of the executable, when that is a file of the release's own \<open>bin\<close> directory; elsewhere it is reached
  through links and the tree does not show the mode.\<close>

definition chmod_executable :: "fs_node \<Rightarrow> fs_node" where
  "chmod_executable tree =
     (case tree of
        Directory mode children \<Rightarrow>
          Directory mode (map (\<lambda>(n, c). (n,
            if n = ''bin'' then
              (case c of
                 Directory m files \<Rightarrow> Directory m (map (\<lambda>(k, f). (k,
                   case f of RegularFile _ content \<Rightarrow> if k = ''git-commits-push.mjs'' then RegularFile 493 content else f
                   | _ \<Rightarrow> f)) files)
               | _ \<Rightarrow> c)
            else c)) children)
      | _ \<Rightarrow> tree)"

definition is_file :: "fs_node option \<Rightarrow> bool" where
  "is_file e \<longleftrightarrow> (case e of Some (RegularFile _ _) \<Rightarrow> True | _ \<Rightarrow> False)"

definition manifest_version :: "build_env \<Rightarrow> fs_node \<Rightarrow> string + string" where
  "manifest_version bv tree =
     (case bv_walk bv tree ''package.json'' of
        Some (RegularFile _ text) \<Rightarrow>
          (case bv_parse bv text of
             None \<Rightarrow> Inl ''SyntaxError''
           | Some manifest \<Rightarrow>
               if get_prop manifest ''name'' \<noteq> JString ''git-commits-push'' then Inl ''Deployed package manifest is invalid.''
               else (case get_prop manifest ''version'' of
                 JString v \<Rightarrow> if is_package_version v then Inr v else Inl ''Deployed package manifest is invalid.''
               | _ \<Rightarrow> Inl ''Deployed package manifest is invalid.''))
      | _ \<Rightarrow> Inl ''ENOENT'')"

definition missing_release_file :: "build_env \<Rightarrow> fs_node \<Rightarrow> string option" where
  "missing_release_file bv tree = find (\<lambda>p. \<not> is_file (bv_walk bv tree p)) REQUIRED_RELEASE_FILES"

definition validate_deployed_application ::
  "build_env \<Rightarrow> tree_env \<Rightarrow> fs_node \<Rightarrow> (string + string) \<times> fs_node" where
  "validate_deployed_application bv tv tree =
     (case manifest_version bv tree of
        Inl e \<Rightarrow> (Inl e, tree)
      | Inr version \<Rightarrow>
          (case bv_chmod bv of
             Some e \<Rightarrow> (Inl e, tree)
           | None \<Rightarrow>
               let tree' = chmod_executable tree in
               (case missing_release_file bv tree' of
                  Some p \<Rightarrow> (Inl (''Deployed release artifact is not a file: '' @ p), tree')
                | None \<Rightarrow>
                    (case validate_release_tree tv (Some tree') of
                       Some e \<Rightarrow> (Inl e, tree')
                     | None \<Rightarrow> (Inr version, tree')))))"

record built_deployment =
  bd_digest :: string
  bd_version :: string

definition build_standalone_deployment ::
  "build_env \<Rightarrow> tree_env \<Rightarrow> fs_node \<Rightarrow> (string + built_deployment) \<times> fs_node" where
  "build_standalone_deployment bv tv tree =
     (case run_pnpm_deploy bv tree of
        (Some e, tree1) \<Rightarrow> (Inl e, tree1)
      | (None, tree1) \<Rightarrow>
          (case remove_pnpm_metadata bv tree1 of
             (Some e, tree2) \<Rightarrow> (Inl e, tree2)
           | (None, tree2) \<Rightarrow>
               (case validate_deployed_application bv tv tree2 of
                  (Inl e, tree3) \<Rightarrow> (Inl e, tree3)
                | (Inr version, tree3) \<Rightarrow>
                    (case digest_release_tree tv (Some tree3) of
                       Inl e \<Rightarrow> (Inl e, tree3)
                     | Inr digest \<Rightarrow> (Inr \<lparr>bd_digest = digest, bd_version = version\<rparr>, tree3)))))"

text \<open>A deployment that is built is one that is complete, and its digest is its content's.\<close>

lemma built_deployment:
  assumes "build_standalone_deployment bv tv tree = (Inr b, tree')"
  shows "digest_release_tree tv (Some tree') = Inr (bd_digest b)" "is_package_version (bd_version b)"
    "\<forall>p \<in> set REQUIRED_RELEASE_FILES. is_file (bv_walk bv tree' p)"
proof -
  obtain t version where v: "validate_deployed_application bv tv t = (Inr version, tree')"
    and d: "digest_release_tree tv (Some tree') = Inr (bd_digest b)" "bd_version b = version"
    using assms
    by (auto simp: build_standalone_deployment_def split: prod.splits option.splits sum.splits)
  show "digest_release_tree tv (Some tree') = Inr (bd_digest b)" by (rule d(1))
  show "is_package_version (bd_version b)" "\<forall>p \<in> set REQUIRED_RELEASE_FILES. is_file (bv_walk bv tree' p)"
    using v d(2)
    by (auto simp: validate_deployed_application_def manifest_version_def missing_release_file_def find_None_iff Let_def
        split: option.splits sum.splits if_splits js_value.splits fs_node.splits)
qed

end
