(* ===== verification/Standalone_Installer.thy ===== *)
theory Standalone_Installer
  imports Install_Lock Deployment_Builder
begin

text \<open>
  The installer, \<open>src/src/modules/installation/standalone-installer.ts\<close>: under the lock it stages a deployment,
  names it by its content, and switches the link that says which release is current. The state is what the program
  changes on disk: the entries of the releases' directory, the two links and the lock's directory; every operation
  may fail. The moments between the operations are recorded, so that what a crash leaves is visible. Only the
  holder of the lock changes the releases and the links.
\<close>

subsection \<open>State\<close>

datatype link_entry = AbsentEntry | LinkTo string | DirectoryEntry | OtherEntry

text \<open>The entries of the releases' directory and the current link.\<close>

type_synonym moment = "(string \<times> fs_node) list \<times> link_entry"

record install_state =
  is_releases :: "(string \<times> fs_node) list"
  is_current :: link_entry
  is_public :: link_entry
  is_moments :: "moment list"

text \<open>The operations that can fail for reasons the state does not show.\<close>

datatype install_operation =
    ReadReleases | RemoveStale string | MakeStaging | RenameStaging | RemoveStaging | LstatRelease | LstatExecutable
  | LstatCurrent | ReadCurrent | LinkNext | RenameNext | RemoveNext | LstatPublic | ReadPublic | LinkPublic

record installer_env =
  iv_sourceDirectory :: string
  iv_environment :: environment
  iv_home :: string
  iv_mkdir :: "string \<Rightarrow> string option"
  iv_directory :: "string \<Rightarrow> fs_entry option"
  iv_lock :: install_env
  iv_commit :: "string option"
  iv_stagingNonce :: string
  iv_error :: "install_operation \<Rightarrow> string option"
  iv_build :: build_env
  iv_tree :: "string \<Rightarrow> tree_env"
  iv_publicExists :: bool
  iv_realpathPublic :: "install_state \<Rightarrow> string option"
  iv_realpathRelease :: "string \<Rightarrow> install_state \<Rightarrow> string option"

definition advance :: "(install_state \<Rightarrow> install_state) \<Rightarrow> install_state \<Rightarrow> install_state" where
  "advance f st = (let st' = f st in
     st'\<lparr>is_moments := is_moments st' @ [(is_releases st', is_current st')]\<rparr>)"

text \<open>A program over the state that may throw.\<close>

type_synonym 'a install_run = "install_state \<Rightarrow> (string + 'a) \<times> install_state"

definition and_then :: "'a install_run \<Rightarrow> ('a \<Rightarrow> 'b install_run) \<Rightarrow> 'b install_run" where
  "and_then m f st = (case m st of (Inl e, st') \<Rightarrow> (Inl e, st') | (Inr a, st') \<Rightarrow> f a st')"

definition attempt :: "installer_env \<Rightarrow> install_operation \<Rightarrow> (install_state \<Rightarrow> install_state) \<Rightarrow> unit install_run" where
  "attempt iv operation f st = (case iv_error iv operation of Some e \<Rightarrow> (Inl e, st) | None \<Rightarrow> (Inr (), advance f st))"

definition inspect :: "installer_env \<Rightarrow> install_operation \<Rightarrow> (install_state \<Rightarrow> string + 'a) \<Rightarrow> 'a install_run" where
  "inspect iv operation f st = (case iv_error iv operation of Some e \<Rightarrow> (Inl e, st) | None \<Rightarrow> (f st, st))"

subsection \<open>Directories\<close>

definition ensure_physical_directory :: "installer_env \<Rightarrow> string \<Rightarrow> string option" where
  "ensure_physical_directory iv directory =
     (case iv_mkdir iv directory of
        Some e \<Rightarrow> Some e
      | None \<Rightarrow>
          (case iv_directory iv directory of
             None \<Rightarrow> Some ''ENOENT''
           | Some stats \<Rightarrow>
               if \<not> fe_isDirectory stats \<or> fe_isSymbolicLink stats
                  \<or> \<not> has_expected_owner (ie_getuid (iv_lock iv)) (fe_uid stats)
               then Some (''Install path must be an owned physical directory: '' @ directory) else None))"

definition STAGING_PREFIX :: string where "STAGING_PREFIX = ''.staging-''"

definition is_staging_name :: "string \<Rightarrow> bool" where
  "is_staging_name name \<longleftrightarrow> starts_with STAGING_PREFIX name \<and> is_hex 32 (drop (length STAGING_PREFIX) name)"

definition staging_name :: "installer_env \<Rightarrow> string" where
  "staging_name iv = STAGING_PREFIX @ iv_stagingNonce iv"

definition set_releases :: "((string \<times> fs_node) list \<Rightarrow> (string \<times> fs_node) list) \<Rightarrow> install_state \<Rightarrow> install_state" where
  "set_releases f st = st\<lparr>is_releases := f (is_releases st)\<rparr>"

fun remove_stale :: "installer_env \<Rightarrow> (string \<times> fs_node) list \<Rightarrow> unit install_run" where
  "remove_stale iv [] st = (Inr (), st)"
| "remove_stale iv ((name, entry) # rest) st =
     (if \<not> is_staging_name name then remove_stale iv rest st
      else case entry of
        Directory _ _ \<Rightarrow> and_then (attempt iv (RemoveStale name) (set_releases (AList.delete name))) (\<lambda>_. remove_stale iv rest) st
      | _ \<Rightarrow> (Inl (''Stale staging entry is not a physical directory: '' @ name), st))"

definition remove_stale_staging_directories :: "installer_env \<Rightarrow> unit install_run" where
  "remove_stale_staging_directories iv =
     and_then (inspect iv ReadReleases (\<lambda>st. Inr (is_releases st))) (remove_stale iv)"

subsection \<open>Activation\<close>

definition verify_existing_release :: "installer_env \<Rightarrow> install_paths \<Rightarrow> string \<Rightarrow> string \<Rightarrow> unit install_run" where
  "verify_existing_release iv paths name expectedDigest = inspect iv LstatRelease (\<lambda>st.
     let releaseDirectory = path_join (releasesDirectory paths) name in
     case map_of (is_releases st) name of
       Some (Directory mode children) \<Rightarrow>
         (case digest_release_tree (iv_tree iv releaseDirectory) (Some (Directory mode children)) of
            Inl e \<Rightarrow> Inl e
          | Inr observedDigest \<Rightarrow>
              if observedDigest \<noteq> expectedDigest
              then Inl (''Content-addressed release failed digest verification: '' @ releaseDirectory) else Inr ())
     | _ \<Rightarrow> Inl (''Content-addressed release path is not a directory: '' @ releaseDirectory))"

definition is_release_target :: "string \<Rightarrow> bool" where
  "is_release_target target \<longleftrightarrow> starts_with ''releases/'' target \<and> is_standalone_release_name (drop 9 target)"

text \<open>The temporary link has a name of its own; \<open>finally\<close> removes it, and an error of that is thrown instead.\<close>

definition replace_current_release_link :: "installer_env \<Rightarrow> string \<Rightarrow> unit install_run" where
  "replace_current_release_link iv releaseName =
     and_then (inspect iv LstatCurrent (\<lambda>st.
       case is_current st of
         AbsentEntry \<Rightarrow> Inr () | LinkTo _ \<Rightarrow> Inr ()
       | _ \<Rightarrow> Inl ''Current release entry must be a symlink or absent''))
     (\<lambda>_. and_then (\<lambda>st.
       case is_current st of
         LinkTo target \<Rightarrow> inspect iv ReadCurrent (\<lambda>_.
           if is_release_target target then Inr ()
           else Inl (''Current release symlink has an unsafe target: '' @ target)) st
       | _ \<Rightarrow> (Inr (), st))
     (\<lambda>_ st.
       let (result, st1) = and_then (attempt iv LinkNext (\<lambda>s. s))
             (\<lambda>_. attempt iv RenameNext (\<lambda>s. s\<lparr>is_current := LinkTo (path_join ''releases'' releaseName)\<rparr>)) st
       in (case attempt iv RemoveNext (\<lambda>s. s) st1 of
             (Inl e, st2) \<Rightarrow> (Inl e, st2)
           | (Inr _, st2) \<Rightarrow> (result, st2))))"

definition public_target :: "install_paths \<Rightarrow> string" where
  "public_target paths = path_relative (posix_dirname (publicExecutablePath paths))
     (path_join_all [currentReleaseLink paths, ''bin'', ''git-commits-push.mjs''])"

text \<open>\<open>iv_publicExists\<close>: somebody created the path between the test and the link.\<close>

definition ensure_stable_public_executable :: "installer_env \<Rightarrow> install_paths \<Rightarrow> unit install_run" where
  "ensure_stable_public_executable iv paths =
     and_then (inspect iv LstatPublic (\<lambda>st. Inr (is_public st)))
     (\<lambda>publicKind.
       case publicKind of
         LinkTo observedTarget \<Rightarrow> inspect iv ReadPublic (\<lambda>_.
           if observedTarget \<noteq> public_target paths
           then Inl (''Public executable points to an unexpected target: '' @ observedTarget) else Inr ())
       | AbsentEntry \<Rightarrow> (\<lambda>st.
           if iv_publicExists iv
           then (Inl (''Public executable path changed during installation: '' @ publicExecutablePath paths), st)
           else attempt iv LinkPublic (\<lambda>s. s\<lparr>is_public := LinkTo (public_target paths)\<rparr>) st)
       | _ \<Rightarrow> (\<lambda>st. (Inl (''Public executable path must be absent or the managed symlink: ''
                         @ publicExecutablePath paths), st)))"

definition activate_standalone_release :: "installer_env \<Rightarrow> install_paths \<Rightarrow> string \<Rightarrow> unit install_run" where
  "activate_standalone_release iv paths releaseName =
     (if \<not> is_standalone_release_name releaseName
      then (\<lambda>st. (Inl (''Invalid standalone release name: '' @ releaseName), st))
      else and_then (inspect iv LstatExecutable (\<lambda>st.
             case map_of (is_releases st) releaseName of
               None \<Rightarrow> Inl ''ENOENT''
             | Some tree \<Rightarrow>
                 (case bv_walk (iv_build iv) tree EXECUTABLE_FILE of
                    None \<Rightarrow> Inl ''ENOENT''
                  | e \<Rightarrow> if is_file e then Inr () else Inl ''Release executable is not a file'')))
      (\<lambda>_ st. case ensure_physical_directory iv (posix_dirname (publicExecutablePath paths)) of
         Some e \<Rightarrow> (Inl e, st)
       | None \<Rightarrow> and_then (ensure_stable_public_executable iv paths)
           (\<lambda>_. and_then (replace_current_release_link iv releaseName)
             (\<lambda>_ st'. case (iv_realpathPublic iv st', iv_realpathRelease iv releaseName st') of
                (Some active, Some expected) \<Rightarrow>
                  (if active \<noteq> expected
                   then (Inl ''Activated executable does not resolve to the requested release.'', st')
                   else (Inr (), st'))
              | _ \<Rightarrow> (Inl ''ENOENT'', st'))) st))"

subsection \<open>Installation\<close>

record install_result =
  ir_releaseName :: string
  ir_reusedRelease :: bool

text \<open>\<open>mkdir\<close> of the staging directory, and the deployment into it.\<close>

definition make_staging :: "installer_env \<Rightarrow> unit install_run" where
  "make_staging iv st =
     (if map_of (is_releases st) (staging_name iv) \<noteq> None then (Inl ''EEXIST'', st)
      else attempt iv MakeStaging (set_releases (AList.update (staging_name iv) (Directory 448 []))) st)"

definition build_in_staging :: "installer_env \<Rightarrow> install_paths \<Rightarrow> built_deployment install_run" where
  "build_in_staging iv paths st =
     (case build_standalone_deployment (iv_build iv) (iv_tree iv (path_join (releasesDirectory paths) (staging_name iv)))
             (nullish (map_of (is_releases st) (staging_name iv)) SpecialFile) of
        (r, tree) \<Rightarrow> (r, advance (set_releases (AList.update (staging_name iv) tree)) st))"

definition publish_release :: "installer_env \<Rightarrow> install_paths \<Rightarrow> string \<Rightarrow> string \<Rightarrow> bool install_run" where
  "publish_release iv paths releaseName digest =
     and_then (inspect iv LstatRelease (\<lambda>st. Inr (map_of (is_releases st) releaseName = None)))
     (\<lambda>absent. if absent
       then and_then (attempt iv RenameStaging (\<lambda>s.
              set_releases (\<lambda>rel. AList.update releaseName (nullish (map_of rel (staging_name iv)) SpecialFile)
                (AList.delete (staging_name iv) rel)) s)) (\<lambda>_ st. (Inr False, st))
       else and_then (verify_existing_release iv paths releaseName digest)
         (\<lambda>_. and_then (attempt iv RemoveStaging (set_releases (AList.delete (staging_name iv)))) (\<lambda>_ st. (Inr True, st))))"

definition install_under_lock :: "installer_env \<Rightarrow> install_paths \<Rightarrow> install_result install_run" where
  "install_under_lock iv paths =
     and_then (remove_stale_staging_directories iv)
     (\<lambda>_. and_then (make_staging iv)
     (\<lambda>_. and_then (build_in_staging iv paths)
     (\<lambda>deployment. and_then (\<lambda>st. (create_standalone_release_name (bd_version deployment) (bd_digest deployment), st))
     (\<lambda>releaseName. and_then (publish_release iv paths releaseName (bd_digest deployment))
     (\<lambda>reusedRelease. and_then (activate_standalone_release iv paths releaseName)
     (\<lambda>_ st. (Inr \<lparr>ir_releaseName = releaseName, ir_reusedRelease = reusedRelease\<rparr>, st)))))))"

text \<open>The directories come first, then the lock.\<close>

definition prepare_installation :: "installer_env \<Rightarrow> string + install_paths" where
  "prepare_installation iv =
     (if \<not> is_absolute (iv_sourceDirectory iv) then Inl ''Source directory must resolve to an absolute path.''
      else case resolve_standalone_install_paths (iv_environment iv) (iv_home iv) of
        Inl e \<Rightarrow> Inl e
      | Inr paths \<Rightarrow>
          (case ensure_physical_directory iv (posix_dirname (publicExecutablePath paths)) of
             Some e \<Rightarrow> Inl e
           | None \<Rightarrow>
               (case ensure_physical_directory iv (applicationDirectory paths) of
                  Some e \<Rightarrow> Inl e
                | None \<Rightarrow>
                    (case ensure_physical_directory iv (releasesDirectory paths) of
                       Some e \<Rightarrow> Inl e
                     | None \<Rightarrow> Inr paths))))"

definition install_standalone ::
  "installer_env \<Rightarrow> install_state \<Rightarrow> lock_directory
     \<Rightarrow> (string + install_result) \<times> install_state \<times> lock_directory \<times> lock_connection" where
  "install_standalone iv st dir =
     (case prepare_installation iv of
        Inl e \<Rightarrow> (Inl e, st, dir, Closed)
      | Inr paths \<Rightarrow>
          (case acquire_install_lock (iv_lock iv) dir of
             (Inl e, dir1, conn) \<Rightarrow> (Inl e, st, dir1, conn)
           | (Inr lockOwner, dir1, _) \<Rightarrow>
               (let (operation, st1) = install_under_lock iv paths st;
                    st2 = (case operation of
                        Inr _ \<Rightarrow> st1
                      | Inl _ \<Rightarrow> snd (attempt iv RemoveStaging (set_releases (AList.delete (staging_name iv))) st1));
                    (releaseFailure, dir2, conn) = release_install_lock (iv_lock iv) lockOwner (iv_commit iv) dir1
                in (case operation of
                      Inl e \<Rightarrow> Inl e
                    | Inr result \<Rightarrow> (case releaseFailure of Some e \<Rightarrow> Inl e | None \<Rightarrow> Inr result),
                    st2, dir2, conn))))"

subsection \<open>The current link always names a verified release\<close>

text \<open>A release under its name: the digest of its content is in the name, and its executable is a file.\<close>

definition named_release :: "installer_env \<Rightarrow> install_paths \<Rightarrow> (string \<times> fs_node) list \<Rightarrow> string \<Rightarrow> bool" where
  "named_release iv paths rel name \<longleftrightarrow>
     (\<exists>tree version digest. map_of rel name = Some tree \<and> create_standalone_release_name version digest = Inr name \<and>
        (digest_release_tree (iv_tree iv (path_join (releasesDirectory paths) name)) (Some tree) = Inr digest \<or>
         digest_release_tree (iv_tree iv (path_join (releasesDirectory paths) (staging_name iv))) (Some tree) = Inr digest))"

definition verified_release :: "installer_env \<Rightarrow> install_paths \<Rightarrow> (string \<times> fs_node) list \<Rightarrow> string \<Rightarrow> bool" where
  "verified_release iv paths rel name \<longleftrightarrow> named_release iv paths rel name \<and>
     (\<exists>tree. map_of rel name = Some tree \<and> is_file (bv_walk (iv_build iv) tree EXECUTABLE_FILE))"

text \<open>What holds at every moment, against the state at the start.\<close>

definition sound_moment :: "installer_env \<Rightarrow> install_paths \<Rightarrow> install_state \<Rightarrow> moment \<Rightarrow> bool" where
  "sound_moment iv paths st0 m \<longleftrightarrow>
     (snd m = is_current st0 \<or>
      (\<exists>name. snd m = LinkTo (''releases/'' @ name) \<and> is_standalone_release_name name \<and> verified_release iv paths (fst m) name)) \<and>
     (\<forall>n tree. \<not> is_staging_name n \<and> map_of (is_releases st0) n = Some tree \<longrightarrow> map_of (fst m) n = Some tree)"

definition sound :: "installer_env \<Rightarrow> install_paths \<Rightarrow> install_state \<Rightarrow> install_state \<Rightarrow> bool" where
  "sound iv paths st0 st \<longleftrightarrow> sound_moment iv paths st0 (is_releases st, is_current st) \<and>
     (\<forall>m \<in> set (is_moments st). sound_moment iv paths st0 m)"

text \<open>A run from \<open>P\<close> keeps \<open>I\<close>, and ends in \<open>Q\<close> when it does not throw.\<close>

definition triple ::
  "(install_state \<Rightarrow> bool) \<Rightarrow> (install_state \<Rightarrow> bool) \<Rightarrow> 'a install_run \<Rightarrow> ('a \<Rightarrow> install_state \<Rightarrow> bool) \<Rightarrow> bool" where
  "triple I P m Q \<longleftrightarrow> (\<forall>st. I st \<and> P st \<longrightarrow>
     (case m st of (Inl _, st') \<Rightarrow> I st' | (Inr a, st') \<Rightarrow> I st' \<and> Q a st'))"

lemma triple_and_then:
  assumes "triple I P m Q" "\<And>a. triple I (Q a) (f a) R"
  shows "triple I P (and_then m f) R"
  unfolding triple_def
proof (intro allI impI)
  fix st
  assume "I st \<and> P st"
  then have "case m st of (Inl _, st') \<Rightarrow> I st' | (Inr a, st') \<Rightarrow> I st' \<and> Q a st'" using assms(1) by (auto simp: triple_def)
  then show "case and_then m f st of (Inl _, st') \<Rightarrow> I st' | (Inr a, st') \<Rightarrow> I st' \<and> R a st'"
    using assms(2) by (cases "m st"; cases "fst (m st)") (auto simp: and_then_def triple_def)
qed

lemma triple_pure: "(\<And>st. I st \<Longrightarrow> P st \<Longrightarrow> (\<exists>e. m st = (Inl e, st)) \<or> (\<exists>a. m st = (Inr a, st) \<and> Q a st)) \<Longrightarrow> triple I P m Q"
  by (fastforce simp: triple_def)

lemma triple_inspect:
  "(\<And>st a. I st \<Longrightarrow> P st \<Longrightarrow> f st = Inr a \<Longrightarrow> Q a st) \<Longrightarrow> triple I P (inspect iv operation f) Q"
  by (auto simp: triple_def inspect_def split: option.splits sum.splits)

lemma triple_attempt:
  "(\<And>st. I st \<Longrightarrow> P st \<Longrightarrow> I (advance f st) \<and> Q (advance f st)) \<Longrightarrow> triple I P (attempt iv operation f) (\<lambda>_. Q)"
  by (auto simp: triple_def attempt_def split: option.splits)

lemma triple_weaken: "triple I P m Q \<Longrightarrow> (\<And>st. P' st \<Longrightarrow> P st) \<Longrightarrow> (\<And>a st. Q a st \<Longrightarrow> Q' a st) \<Longrightarrow> triple I P' m Q'"
  by (fastforce simp: triple_def split: prod.splits sum.splits)

lemma triple_run:
  assumes "triple I P m Q" "I st" "P st" "m st = (r, st')"
  shows "I st'" "r = Inr a \<Longrightarrow> Q a st'"
  using assms(1)[unfolded triple_def, rule_format, of st] assms(2-4) by (cases r; simp)+

text \<open>Staging changes nothing a moment speaks of.\<close>

lemma staging_length: "is_staging_name n \<Longrightarrow> length n = 41"
  by (auto simp: is_staging_name_def is_hex_def STAGING_PREFIX_def starts_with_def dest!: arg_cong[of _ _ length])

lemma release_not_staging: "create_standalone_release_name v d = Inr n \<Longrightarrow> \<not> is_staging_name n"
  using created_name_shape(2) staging_length by fastforce

lemma named_not_staging: "named_release iv paths rel n \<Longrightarrow> \<not> is_staging_name n"
  unfolding named_release_def using release_not_staging by blast

lemma named_frame:
  "named_release iv paths rel n \<Longrightarrow> map_of rel' n = map_of rel n \<Longrightarrow> named_release iv paths rel' n"
  by (simp add: named_release_def)

lemma sound_moment_frame:
  assumes "sound_moment iv paths st0 (rel, cur)" "\<And>n. \<not> is_staging_name n \<Longrightarrow> map_of rel n \<noteq> None \<Longrightarrow> map_of rel' n = map_of rel n"
  shows "sound_moment iv paths st0 (rel', cur)"
proof -
  have "verified_release iv paths rel' n" if v: "verified_release iv paths rel n" for n
  proof -
    have "map_of rel' n = map_of rel n"
      using v named_not_staging by (intro assms(2)) (auto simp: verified_release_def)
    then show ?thesis using v named_frame by (auto simp: verified_release_def)
  qed
  moreover have "map_of rel' n = Some tree" if "\<not> is_staging_name n" "map_of rel n = Some tree" for n tree
    using assms(2)[of n] that by simp
  ultimately show ?thesis using assms(1) unfolding sound_moment_def fst_conv snd_conv by blast
qed

lemma sound_advance:
  "sound iv paths st0 st \<Longrightarrow> is_moments (f st) = is_moments st \<Longrightarrow>
     sound_moment iv paths st0 (is_releases (f st), is_current (f st)) \<Longrightarrow> sound iv paths st0 (advance f st)"
  by (simp add: sound_def advance_def Let_def)

lemma advance_fields [simp]:
  "is_releases (advance f st) = is_releases (f st)" "is_current (advance f st) = is_current (f st)"
  "is_public (advance f st) = is_public (f st)"
  by (simp_all add: advance_def Let_def)

lemma set_releases_fields [simp]:
  "is_releases (set_releases f st) = f (is_releases st)" "is_current (set_releases f st) = is_current st"
  "is_public (set_releases f st) = is_public st" "is_moments (set_releases f st) = is_moments st"
  by (simp_all add: set_releases_def)

lemma sound_set_releases:
  assumes "sound iv paths st0 st" "\<And>n. \<not> is_staging_name n \<Longrightarrow> map_of (is_releases st) n \<noteq> None \<Longrightarrow>
      map_of (f (is_releases st)) n = map_of (is_releases st) n"
  shows "sound iv paths st0 (advance (set_releases f) st)"
  using assms by (intro sound_advance) (auto simp: sound_def intro: sound_moment_frame)

lemma remove_stale_triple: "triple (sound iv paths st0) (\<lambda>_. True) (remove_stale iv names) (\<lambda>_ _. True)"
proof (induction names)
  case Nil
  then show ?case by (simp add: triple_def)
next
  case (Cons e names)
  obtain n t where e: "e = (n, t)" by fastforce
  have "triple (sound iv paths st0) (\<lambda>_. True)
      (and_then (attempt iv (RemoveStale n) (set_releases (AList.delete n))) (\<lambda>_. remove_stale iv names)) (\<lambda>_ _. True)"
    if "is_staging_name n"
    by (rule triple_and_then[OF triple_attempt[where Q = "\<lambda>_. True"] Cons.IH])
       (use that in \<open>auto intro!: sound_set_releases simp: alist_simps\<close>)
  then show ?case using Cons.IH by (cases t) (auto simp: e triple_def)
qed

lemma staged_name:
  assumes "is_hex 32 (iv_stagingNonce iv)"
  shows "is_staging_name (staging_name iv)"
  using assms by (simp add: is_staging_name_def staging_name_def starts_with_def)

lemma make_staging_triple:
  "is_hex 32 (iv_stagingNonce iv) \<Longrightarrow> triple (sound iv paths st0) (\<lambda>_. True) (make_staging iv) (\<lambda>_ _. True)"
  using staged_name[of iv]
  by (auto simp: triple_def make_staging_def attempt_def alist_simps split: option.splits intro!: sound_set_releases)

text \<open>The staged deployment, with the digest of its content.\<close>

definition staged :: "installer_env \<Rightarrow> install_paths \<Rightarrow> built_deployment \<Rightarrow> install_state \<Rightarrow> bool" where
  "staged iv paths b st \<longleftrightarrow> (\<exists>tree. map_of (is_releases st) (staging_name iv) = Some tree \<and>
     digest_release_tree (iv_tree iv (path_join (releasesDirectory paths) (staging_name iv))) (Some tree) = Inr (bd_digest b))"

lemma build_triple:
  assumes "is_hex 32 (iv_stagingNonce iv)"
  shows "triple (sound iv paths st0) (\<lambda>_. True) (build_in_staging iv paths) (staged iv paths)"
  unfolding triple_def
proof (intro allI impI)
  fix st
  assume st: "sound iv paths st0 st \<and> True"
  obtain r tree where b: "build_standalone_deployment (iv_build iv) (iv_tree iv (path_join (releasesDirectory paths) (staging_name iv)))
             (nullish (map_of (is_releases st) (staging_name iv)) SpecialFile) = (r, tree)" by fastforce
  have "sound iv paths st0 (advance (set_releases (AList.update (staging_name iv) tree)) st)"
    using staged_name[OF assms] st by (intro sound_set_releases) (auto simp: alist_simps)
  then show "case build_in_staging iv paths st of (Inl _, st') \<Rightarrow> sound iv paths st0 st'
      | (Inr a, st') \<Rightarrow> sound iv paths st0 st' \<and> staged iv paths a st'"
    using built_deployment(1) b by (cases r) (auto simp: build_in_staging_def staged_def alist_simps)
qed

lemma named_from_staging:
  "create_standalone_release_name version digest = Inr name \<Longrightarrow> map_of rel name = Some tree \<Longrightarrow>
     digest_release_tree (iv_tree iv (path_join (releasesDirectory paths) (staging_name iv))) (Some tree) = Inr digest \<Longrightarrow>
     named_release iv paths rel name"
  unfolding named_release_def by blast

lemma publish_triple:
  assumes nonce: "is_hex 32 (iv_stagingNonce iv)"
    and name: "create_standalone_release_name (bd_version b) (bd_digest b) = Inr name"
  shows "triple (sound iv paths st0) (staged iv paths b) (publish_release iv paths name (bd_digest b))
    (\<lambda>_ st. named_release iv paths (is_releases st) name)"
proof -
  have ns: "\<not> is_staging_name name" using release_not_staging[OF name] .
  then have other: "name \<noteq> staging_name iv" using staged_name[OF nonce] by auto
  have first: "triple (sound iv paths st0) (staged iv paths b)
      (inspect iv LstatRelease (\<lambda>st. Inr (map_of (is_releases st) name = None)))
      (\<lambda>absent st. staged iv paths b st \<and> absent = (map_of (is_releases st) name = None))"
    by (rule triple_inspect) simp
  have rename: "triple (sound iv paths st0) (\<lambda>st. staged iv paths b st \<and> True = (map_of (is_releases st) name = None))
      (attempt iv RenameStaging (\<lambda>s. set_releases (\<lambda>rel. AList.update name (nullish (map_of rel (staging_name iv)) SpecialFile)
                (AList.delete (staging_name iv) rel)) s)) (\<lambda>_ st. named_release iv paths (is_releases st) name)"
    by (rule triple_attempt)
       (use staged_name[OF nonce] name other in \<open>auto intro!: sound_set_releases intro: named_from_staging[OF name] simp: alist_simps staged_def\<close>)
  have verify: "triple (sound iv paths st0) (\<lambda>st. staged iv paths b st \<and> False = (map_of (is_releases st) name = None))
      (verify_existing_release iv paths name (bd_digest b)) (\<lambda>_ st. named_release iv paths (is_releases st) name)"
    unfolding verify_existing_release_def
    by (rule triple_inspect)
       (use name in \<open>auto simp: Let_def named_release_def split: option.splits fs_node.splits sum.splits if_splits\<close>)
  have remove: "triple (sound iv paths st0) (\<lambda>st. named_release iv paths (is_releases st) name)
      (attempt iv RemoveStaging (set_releases (AList.delete (staging_name iv)))) (\<lambda>_ st. named_release iv paths (is_releases st) name)"
    by (rule triple_attempt)
       (use staged_name[OF nonce] other in \<open>auto intro!: sound_set_releases intro: named_frame simp: alist_simps\<close>)
  have stays: "triple (sound iv paths st0) (\<lambda>st. named_release iv paths (is_releases st) name) (\<lambda>st. (Inr a, st))
      (\<lambda>_ st. named_release iv paths (is_releases st) name)" for a :: bool
    by (simp add: triple_def)
  show ?thesis
    unfolding publish_release_def
  proof (rule triple_and_then[OF first])
    fix absent
    show "triple (sound iv paths st0) (\<lambda>st. staged iv paths b st \<and> absent = (map_of (is_releases st) name = None))
       (if absent then and_then (attempt iv RenameStaging (\<lambda>s.
              set_releases (\<lambda>rel. AList.update name (nullish (map_of rel (staging_name iv)) SpecialFile)
                (AList.delete (staging_name iv) rel)) s)) (\<lambda>_ st. (Inr False, st))
        else and_then (verify_existing_release iv paths name (bd_digest b))
         (\<lambda>_. and_then (attempt iv RemoveStaging (set_releases (AList.delete (staging_name iv)))) (\<lambda>_ st. (Inr True, st))))
       (\<lambda>_ st. named_release iv paths (is_releases st) name)"
      by (cases absent)
         (simp_all only: if_True if_False triple_and_then[OF rename stays] triple_and_then[OF verify triple_and_then[OF remove stays]])
  qed
qed

text \<open>The assertions of the activation.\<close>

abbreviation linked :: "installer_env \<Rightarrow> install_paths \<Rightarrow> string \<Rightarrow> install_state \<Rightarrow> bool" where
  "linked iv paths name st \<equiv> verified_release iv paths (is_releases st) name \<and> is_public st = LinkTo (public_target paths)"

lemma sound_public: "sound iv paths st0 st \<Longrightarrow> sound iv paths st0 (advance (\<lambda>s. s\<lparr>is_public := e\<rparr>) st)"
  by (intro sound_advance) (auto simp: sound_def)

lemma public_triple:
  "triple (sound iv paths st0) (\<lambda>st. verified_release iv paths (is_releases st) name)
     (ensure_stable_public_executable iv paths) (\<lambda>_. linked iv paths name)"
  unfolding ensure_stable_public_executable_def
proof (rule triple_and_then[where Q = "\<lambda>k st. verified_release iv paths (is_releases st) name \<and> k = is_public st"])
  fix k
  show "triple (sound iv paths st0) (\<lambda>st. verified_release iv paths (is_releases st) name \<and> k = is_public st)
     (case k of
         LinkTo observedTarget \<Rightarrow> inspect iv ReadPublic (\<lambda>_.
           if observedTarget \<noteq> public_target paths
           then Inl (''Public executable points to an unexpected target: '' @ observedTarget) else Inr ())
       | AbsentEntry \<Rightarrow> (\<lambda>st.
           if iv_publicExists iv
           then (Inl (''Public executable path changed during installation: '' @ publicExecutablePath paths), st)
           else attempt iv LinkPublic (\<lambda>s. s\<lparr>is_public := LinkTo (public_target paths)\<rparr>) st)
       | _ \<Rightarrow> (\<lambda>st. (Inl (''Public executable path must be absent or the managed symlink: ''
                         @ publicExecutablePath paths), st))) (\<lambda>_. linked iv paths name)"
    by (cases k) (auto simp: triple_def inspect_def attempt_def sound_public split: option.splits)
qed (rule triple_inspect, simp)

lemma replace_triple:
  assumes name: "create_standalone_release_name version digest = Inr name"
  shows "triple (sound iv paths st0) (linked iv paths name) (replace_current_release_link iv name)
    (\<lambda>_ st. linked iv paths name st \<and> is_current st = LinkTo (''releases/'' @ name))"
proof -
  define target where "target = ''releases/'' @ name"
  have switch: "sound iv paths st0 (advance (\<lambda>s. s\<lparr>is_current := LinkTo target\<rparr>) st)"
    if "sound iv paths st0 st" "linked iv paths name st" for st
    using that created_name_is_release_name[OF name]
    by (intro sound_advance) (auto simp: sound_def sound_moment_def target_def)
  have still: "sound iv paths st0 (advance (\<lambda>s. s) st)" if "sound iv paths st0 st" for st
    using that by (intro sound_advance) (auto simp: sound_def)
  show ?thesis
    unfolding replace_current_release_link_def created_name_target[OF name] target_def[symmetric]
    by (intro triple_and_then[where Q = "\<lambda>_. linked iv paths name"])
       (auto simp: triple_def inspect_def attempt_def and_then_def Let_def switch still split: option.splits link_entry.splits sum.splits)
qed

lemma activate_triple:
  assumes name: "create_standalone_release_name version digest = Inr name"
  shows "triple (sound iv paths st0) (\<lambda>st. named_release iv paths (is_releases st) name) (activate_standalone_release iv paths name)
    (\<lambda>_ st. linked iv paths name st \<and> is_current st = LinkTo (''releases/'' @ name))"
proof -
  let ?Q = "\<lambda>st. linked iv paths name st \<and> is_current st = LinkTo (''releases/'' @ name)"
  have executable: "triple (sound iv paths st0) (\<lambda>st. named_release iv paths (is_releases st) name)
      (inspect iv LstatExecutable (\<lambda>st.
             case map_of (is_releases st) name of
               None \<Rightarrow> Inl ''ENOENT''
             | Some tree \<Rightarrow>
                 (case bv_walk (iv_build iv) tree EXECUTABLE_FILE of
                    None \<Rightarrow> Inl ''ENOENT''
                  | e \<Rightarrow> if is_file e then Inr () else Inl ''Release executable is not a file'')))
      (\<lambda>_ st. verified_release iv paths (is_releases st) name)"
    by (rule triple_inspect) (auto simp: verified_release_def split: option.splits if_splits)
  have check: "triple (sound iv paths st0) ?Q (\<lambda>st'. case (iv_realpathPublic iv st', iv_realpathRelease iv name st') of
                (Some active, Some expected) \<Rightarrow>
                  (if active \<noteq> expected
                   then (Inl ''Activated executable does not resolve to the requested release.'', st')
                   else (Inr (), st'))
              | _ \<Rightarrow> (Inl ''ENOENT'', st')) (\<lambda>_. ?Q)"
    by (rule triple_pure) (auto split: option.splits)
  have rest: "triple (sound iv paths st0) (\<lambda>st. verified_release iv paths (is_releases st) name)
      (\<lambda>st. case ensure_physical_directory iv (posix_dirname (publicExecutablePath paths)) of
         Some e \<Rightarrow> (Inl e, st)
       | None \<Rightarrow> and_then (ensure_stable_public_executable iv paths)
           (\<lambda>_. and_then (replace_current_release_link iv name)
             (\<lambda>_ st'. case (iv_realpathPublic iv st', iv_realpathRelease iv name st') of
                (Some active, Some expected) \<Rightarrow>
                  (if active \<noteq> expected
                   then (Inl ''Activated executable does not resolve to the requested release.'', st')
                   else (Inr (), st'))
              | _ \<Rightarrow> (Inl ''ENOENT'', st'))) st) (\<lambda>_. ?Q)"
    using triple_and_then[OF public_triple triple_and_then[OF replace_triple[OF name] check]]
    by (cases "ensure_physical_directory iv (posix_dirname (publicExecutablePath paths))") (simp_all add: triple_def)
  show ?thesis
    unfolding activate_standalone_release_def
    using triple_and_then[OF executable rest] created_name_is_release_name[OF name] by simp
qed

lemma installation_triple:
  assumes nonce: "is_hex 32 (iv_stagingNonce iv)"
  shows "triple (sound iv paths st0) (\<lambda>_. True) (install_under_lock iv paths)
    (\<lambda>result st. linked iv paths (ir_releaseName result) st \<and> is_current st = LinkTo (''releases/'' @ ir_releaseName result))"
proof -
  let ?Q = "\<lambda>name st. linked iv paths name st \<and> is_current st = LinkTo (''releases/'' @ name)"
  have sweep: "triple (sound iv paths st0) (\<lambda>_. True) (remove_stale_staging_directories iv) (\<lambda>_ _. True)"
    unfolding remove_stale_staging_directories_def
    by (rule triple_and_then[where Q = "\<lambda>_ _. True"]) (simp_all add: triple_inspect remove_stale_triple)
  have named: "triple (sound iv paths st0) (staged iv paths b) (\<lambda>st. (create_standalone_release_name (bd_version b) (bd_digest b), st))
      (\<lambda>name st. staged iv paths b st \<and> create_standalone_release_name (bd_version b) (bd_digest b) = Inr name)" for b
    by (auto simp: triple_def split: sum.splits)
  have publish: "triple (sound iv paths st0)
      (\<lambda>st. staged iv paths b st \<and> create_standalone_release_name (bd_version b) (bd_digest b) = Inr name)
      (and_then (publish_release iv paths name (bd_digest b)) (\<lambda>reused. and_then (activate_standalone_release iv paths name)
        (\<lambda>_ st. (Inr \<lparr>ir_releaseName = name, ir_reusedRelease = reused\<rparr>, st))))
      (\<lambda>result. ?Q (ir_releaseName result))" for b name
  proof (cases "create_standalone_release_name (bd_version b) (bd_digest b) = Inr name")
    case True
    have finish: "triple (sound iv paths st0) (?Q name) (\<lambda>st. (Inr \<lparr>ir_releaseName = name, ir_reusedRelease = reused\<rparr>, st))
        (\<lambda>result. ?Q (ir_releaseName result))" for reused
      by (simp add: triple_def)
    show ?thesis
      using triple_and_then[OF publish_triple[OF nonce True] triple_and_then[OF activate_triple[OF True] finish]]
      by (rule triple_weaken) simp_all
  qed (simp add: triple_def)
  show ?thesis
    unfolding install_under_lock_def
    by (rule triple_and_then[OF sweep triple_and_then[OF make_staging_triple[OF nonce]
          triple_and_then[OF build_triple[OF nonce] triple_and_then[OF named publish]]]])
qed

lemma cleanup_sound:
  assumes "is_hex 32 (iv_stagingNonce iv)" "sound iv paths st0 st"
  shows "sound iv paths st0 (snd (attempt iv RemoveStaging (set_releases (AList.delete (staging_name iv))) st))"
  using assms staged_name[OF assms(1)]
  by (auto simp: attempt_def alist_simps split: option.splits intro!: sound_set_releases)

lemma installer_sound_start: "is_moments st = [] \<Longrightarrow> sound iv paths st st"
  by (simp add: sound_def sound_moment_def)


subsection \<open>An installation\<close>

fun walk_segments :: "fs_node \<Rightarrow> string list \<Rightarrow> fs_node option" where
  "walk_segments t [] = Some t"
| "walk_segments (Directory m cs) (n # ns) = (case map_of cs n of Some c \<Rightarrow> walk_segments c ns | None \<Rightarrow> None)"
| "walk_segments t (n # ns) = None"

abbreviation plain_file :: fs_node where "plain_file \<equiv> RegularFile 420 ''x''"

definition deployed_tree :: fs_node where
  "deployed_tree = Directory 448 [(''package.json'', plain_file), (''bin'', Directory 493 [(''git-commits-push.mjs'', plain_file)]),
     (''dist'', Directory 493 [(''system-prompt.md'', plain_file),
        (''src'', Directory 493 [(''config'', Directory 493 [(''settings.json'', plain_file)]),
          (''entrypoints'', Directory 493 [(''git-commits-push.js'', plain_file), (''node-supervisor.js'', plain_file),
             (''turnlock-orchestrator.js'', plain_file), (''turnlock-to-llm-bridge.js'', plain_file)])])]),
     (''node_modules'', Directory 493 [(''.bin'', Directory 493 [(''tsc'', plain_file)]), (''.modules.yaml'', plain_file),
        (''@git-commits-push'', Directory 493 [
          (''node-runtime'', Directory 493 [(''dist'', Directory 493 [(''index.js'', plain_file)])]),
          (''trust'', Directory 493 [(''dist'', Directory 493 [(''index.js'', plain_file)])])])])]"

definition sample_installer :: installer_env where
  "sample_installer = \<lparr>iv_sourceDirectory = ''/s'', iv_environment = Map.empty, iv_home = ''/h'', iv_mkdir = (\<lambda>_. None),
     iv_directory = (\<lambda>_. Some \<lparr>fe_isDirectory = True, fe_isFile = False, fe_isSymbolicLink = False, fe_mode = 448, fe_uid = 1\<rparr>),
     iv_lock = sample_install, iv_commit = None, iv_stagingNonce = replicate 32 (CHR ''e''), iv_error = (\<lambda>_. None),
     iv_build = \<lparr>bv_pnpmCliPath = ''/p'', bv_pnpm = (\<lambda>_. (ChildClosed (Some 0) None, deployed_tree)), bv_remove = (\<lambda>_. None),
       bv_walk = (\<lambda>t p. walk_segments t (split_on (CHR ''/'') p)),
       bv_parse = (\<lambda>_. Some (JObject [(''name'', JString ''git-commits-push''), (''version'', JString ''1.2.3'')])),
       bv_chmod = None\<rparr>,
     iv_tree = (\<lambda>root. \<lparr>tv_root = root, tv_physicalRoot = Some root, tv_realpath = Some,
       tv_sha256 = (\<lambda>_. replicate 64 (CHR ''f''))\<rparr>),
     iv_publicExists = False, iv_realpathPublic = (\<lambda>_. Some ''/x''), iv_realpathRelease = (\<lambda>_ _. Some ''/x'')\<rparr>"

definition first_state :: install_state where
  "first_state = \<lparr>is_releases = [], is_current = AbsentEntry, is_public = AbsentEntry, is_moments = []\<rparr>"

text \<open>The sample run, step by step.\<close>

definition sample_paths :: install_paths where
  "sample_paths = \<lparr>applicationDirectory = ''/h/.local/share/git-commits-push'',
     releasesDirectory = ''/h/.local/share/git-commits-push/releases'',
     currentReleaseLink = ''/h/.local/share/git-commits-push/current'',
     publicExecutablePath = ''/h/.local/bin/git-commits-push'',
     installLockPath = ''/h/.local/bin/.git-commits-push-install.lock''\<rparr>"

lemma installer_sample_preparation: "prepare_installation sample_installer = Inr sample_paths"
  by code_simp

abbreviation sample_tree_view :: tree_env where
  "sample_tree_view \<equiv> iv_tree sample_installer (path_join (releasesDirectory sample_paths) (staging_name sample_installer))"

definition cleaned_tree :: fs_node where
  "cleaned_tree = Directory 448 [(''package.json'', plain_file), (''bin'', Directory 493 [(''git-commits-push.mjs'', plain_file)]),
     (''dist'', Directory 493 [(''system-prompt.md'', plain_file),
        (''src'', Directory 493 [(''config'', Directory 493 [(''settings.json'', plain_file)]),
          (''entrypoints'', Directory 493 [(''git-commits-push.js'', plain_file), (''node-supervisor.js'', plain_file),
             (''turnlock-orchestrator.js'', plain_file), (''turnlock-to-llm-bridge.js'', plain_file)])])]),
     (''node_modules'', Directory 493 [
        (''@git-commits-push'', Directory 493 [
          (''node-runtime'', Directory 493 [(''dist'', Directory 493 [(''index.js'', plain_file)])]),
          (''trust'', Directory 493 [(''dist'', Directory 493 [(''index.js'', plain_file)])])])])]"

lemma sample_removal: "remove_pnpm_metadata (iv_build sample_installer) deployed_tree = (None, cleaned_tree)"
  by code_simp

lemma installer_sample_validation:
  "validate_deployed_application (iv_build sample_installer) sample_tree_view cleaned_tree =
     (Inr ''1.2.3'', chmod_executable cleaned_tree)"
  by code_simp

lemma validated_tree:
  "validate_deployed_application bv tv tree = (Inr version, tree') \<Longrightarrow> validate_release_tree tv (Some tree') = None"
  by (auto simp: validate_deployed_application_def Let_def split: sum.splits option.splits)

lemma sample_digest: "digest_release_tree sample_tree_view (Some (chmod_executable cleaned_tree)) = Inr (replicate 64 (CHR ''f''))"
  using validated_tree[OF installer_sample_validation]
  by (auto simp: validate_release_tree_def digest_release_tree_def sample_installer_def split: sum.splits)

lemma sample_build:
  "build_standalone_deployment (iv_build sample_installer) sample_tree_view (Directory 448 []) =
     (Inr \<lparr>bd_digest = replicate 64 (CHR ''f''), bd_version = ''1.2.3''\<rparr>, chmod_executable cleaned_tree)"
proof -
  have "run_pnpm_deploy (iv_build sample_installer) (Directory 448 []) = (None, deployed_tree)"
    by (simp add: run_pnpm_deploy_def sample_installer_def is_absolute_def)
  then show ?thesis
    by (simp only: build_standalone_deployment_def sample_removal installer_sample_validation sample_digest prod.case option.case sum.case)
qed

definition sample_name :: string where "sample_name = ''1.2.3-'' @ replicate 64 (CHR ''f'')"

lemma sample_names:
  "create_standalone_release_name ''1.2.3'' (replicate 64 (CHR ''f'')) = Inr sample_name"
  "is_standalone_release_name sample_name" "staging_name sample_installer \<noteq> sample_name"
  "bv_walk (iv_build sample_installer) (chmod_executable cleaned_tree) EXECUTABLE_FILE = Some (RegularFile 493 ''x'')"
  "is_hex 32 (iv_stagingNonce sample_installer)"
  by code_simp+

lemma installer_sample_fields:
  "iv_error sample_installer operation = None" "iv_publicExists sample_installer = False"
  "iv_realpathPublic sample_installer s = Some ''/x''" "iv_realpathRelease sample_installer n s = Some ''/x''"
  "iv_lock sample_installer = sample_install" "iv_commit sample_installer = None"
  "ensure_physical_directory sample_installer d = None"
  by (simp_all add: sample_installer_def ensure_physical_directory_def has_expected_owner_def sample_install_def)

lemma sample_other_name: "sample_name \<noteq> staging_name sample_installer" using sample_names(3) by metis

lemma sample_installation:
  "fst (install_under_lock sample_installer sample_paths first_state) =
     Inr \<lparr>ir_releaseName = sample_name, ir_reusedRelease = False\<rparr>"
  by (simp add: install_under_lock_def and_then_def remove_stale_staging_directories_def inspect_def make_staging_def
      attempt_def build_in_staging_def publish_release_def activate_standalone_release_def ensure_stable_public_executable_def
      replace_current_release_link_def installer_sample_fields sample_build sample_names sample_other_name first_state_def alist_simps
      set_releases_def advance_def is_file_def)


end
