(* ===== verification/State_Schema.thy ===== *)
theory State_Schema
  imports Control_Protocol Discovery_Phase Private_Files
begin

text \<open>
  What the program accepts when it reads its own state and the results of its jobs back from JSON,
  \<open>src/src/config/state-schema.ts\<close>. A Zod schema is a parser of JSON values; a key that is missing reads as
  \<^const>\<open>JUndefined\<close>, unknown keys are dropped. The phases hand their state to the next run of the program through
  these schemas, so every state they produce has to be one the schema accepts.
\<close>

subsection \<open>Schemas\<close>

type_synonym 'a schema = "js_value \<Rightarrow> 'a option"

definition z_string :: "string schema" where
  "z_string v = (case v of JString s \<Rightarrow> Some s | _ \<Rightarrow> None)"

definition z_boolean :: "bool schema" where
  "z_boolean v = (case v of JBool b \<Rightarrow> Some b | _ \<Rightarrow> None)"

text \<open>\<open>z.number().int().nonnegative()\<close>.\<close>

definition z_natural :: "nat schema" where
  "z_natural v = (case v of JInt i \<Rightarrow> if 0 \<le> i then Some (nat i) else None | _ \<Rightarrow> None)"

definition z_optional :: "'a schema \<Rightarrow> 'a option schema" where
  "z_optional p v = (if v = JUndefined then Some None else map_option Some (p v))"

text \<open>\<open>.optional().nullable()\<close>; absent and \<open>null\<close> are not distinguished.\<close>

definition z_nullish :: "'a schema \<Rightarrow> 'a option schema" where
  "z_nullish p v = (if v = JUndefined \<or> v = JNull then Some None else map_option Some (p v))"

fun all_some :: "'a option list \<Rightarrow> 'a list option" where
  "all_some [] = Some []"
| "all_some (None # xs) = None"
| "all_some (Some x # xs) = map_option (Cons x) (all_some xs)"

definition z_array :: "'a schema \<Rightarrow> 'a list schema" where
  "z_array p v = (case v of JArray vs \<Rightarrow> all_some (map p vs) | _ \<Rightarrow> None)"

definition z_refine :: "('a \<Rightarrow> bool) \<Rightarrow> 'a schema \<Rightarrow> 'a schema" where
  "z_refine P p v = (case p v of Some a \<Rightarrow> if P a then Some a else None | None \<Rightarrow> None)"

definition is_object :: "js_value \<Rightarrow> bool" where
  "is_object v \<longleftrightarrow> (case v of JObject _ \<Rightarrow> True | _ \<Rightarrow> False)"

text \<open>One property of an object, and the next.\<close>

definition z_field :: "string \<Rightarrow> 'a schema \<Rightarrow> js_value \<Rightarrow> ('a \<Rightarrow> 'b option) \<Rightarrow> 'b option" where
  "z_field name p v k = Option.bind (p (get_prop v name)) k"

subsection \<open>Commit plans\<close>

text \<open>\<open>commitMessageStateSchema\<close> and \<open>commitMessageResultSchema\<close>, which reads a missing \<open>isBreaking\<close> as false.\<close>

definition commit_message_schema :: "bool schema \<Rightarrow> commit_message schema" where
  "commit_message_schema breaking v =
     (if \<not> is_object v then None else
      z_field ''type'' z_string v (\<lambda>t.
      z_field ''scope'' (z_nullish z_string) v (\<lambda>scope.
      z_field ''description'' z_string v (\<lambda>d.
      z_field ''body'' (z_nullish z_string) v (\<lambda>body.
      z_field ''isBreaking'' breaking v (\<lambda>b.
        Some \<lparr>cm_type = t, cm_scope = scope, cm_description = d, cm_body = body, cm_isBreaking = b\<rparr>))))))"

definition commit_plan_of :: "bool schema \<Rightarrow> commit_plan schema" where
  "commit_plan_of breaking v =
     (if \<not> is_object v then None else
      z_field ''commit'' (commit_message_schema breaking) v (\<lambda>c.
      z_field ''files'' (z_array z_string) v (\<lambda>files.
        Some \<lparr>cp_commit = c, cp_files = files\<rparr>)))"

definition commit_plan_schema :: "commit_plan schema" where
  "commit_plan_schema = commit_plan_of z_boolean"

definition default_false :: "bool schema" where
  "default_false v = map_option (\<lambda>b. nullish b False) (z_optional z_boolean v)"

definition commit_plan_result_schema :: "commit_plan schema" where
  "commit_plan_result_schema = commit_plan_of default_false"

definition non_empty_commit_plan_result_list_schema :: "commit_plan list schema" where
  "non_empty_commit_plan_result_list_schema = z_refine (\<lambda>ps. ps \<noteq> []) (z_array commit_plan_result_schema)"

text \<open>\<open>commitJobResultSchema\<close>: the first variant that fits.\<close>

definition commit_job_result_schema :: "job_result schema" where
  "commit_job_result_schema v =
     (if \<not> is_object v then None else
      z_field ''id'' z_string v (\<lambda>i.
        if get_prop v ''success'' = JBool True
        then z_field ''commits'' (z_array commit_plan_result_schema) v (\<lambda>ps. Some \<lparr>jr_id = i, jr_outcome = Inr ps\<rparr>)
        else if get_prop v ''success'' = JBool False
        then z_field ''error'' z_string v (\<lambda>e. Some \<lparr>jr_id = i, jr_outcome = Inl e\<rparr>)
        else None))"

subsection \<open>The state of a repository\<close>

definition attempt_entries :: "(string \<times> js_value) list \<Rightarrow> attempts_by_kind option" where
  "attempt_entries kvs =
     (if list_all (\<lambda>(k, v). k \<in> kind_name ` set error_kinds \<and> z_natural v \<noteq> None) kvs
      then Some (\<lambda>kind. Option.bind (map_of kvs (kind_name kind)) z_natural) else None)"

text \<open>A number is the total that earlier versions stored: it counts for no kind.\<close>

definition attempts_schema :: "attempts_by_kind option schema" where
  "attempts_schema v =
     (case v of
        JInt _ \<Rightarrow> Some (Some Map.empty)
      | JNonInteger \<Rightarrow> Some (Some Map.empty)
      | JUndefined \<Rightarrow> Some None
      | JObject kvs \<Rightarrow> map_option Some (attempt_entries kvs)
      | _ \<Rightarrow> None)"

definition is_git_object_id :: "string \<Rightarrow> bool" where
  "is_git_object_id s \<longleftrightarrow> is_hex 40 s \<or> is_hex 64 s"

definition git_object_id_schema :: "string schema" where
  "git_object_id_schema = z_refine is_git_object_id z_string"

definition push_snapshot_schema :: "tracked_push_snapshot schema" where
  "push_snapshot_schema v =
     (if \<not> is_object v then None else
      z_field ''sourceBranch'' z_string v (\<lambda>branch.
      z_field ''validatedHeadSha'' git_object_id_schema v (\<lambda>head.
      z_field ''upstreamRef'' z_string v (\<lambda>upstream.
      z_field ''remote'' z_string v (\<lambda>remote.
      z_field ''destinationRef'' z_string v (\<lambda>destination.
      z_field ''destinationBaselineSha'' git_object_id_schema v (\<lambda>baseline.
      z_field ''outgoingShas'' (z_refine (\<lambda>ids. ids \<noteq> []) (z_array git_object_id_schema)) v (\<lambda>outgoing.
      z_field ''pushUrlFingerprint'' (z_refine (is_hex 64) z_string) v (\<lambda>fingerprint.
        Some \<lparr>ts_sourceBranch = branch, ts_validatedHeadSha = head, ts_upstreamRef = upstream, ts_remote = remote,
              ts_destinationRef = destination, ts_destinationBaselineSha = baseline, ts_outgoingShas = outgoing,
              ts_pushUrlFingerprint = fingerprint\<rparr>)))))))))"

fun read_enum :: "(string \<times> 'a) list \<Rightarrow> 'a schema" where
  "read_enum names (JString s) = map_of names s"
| "read_enum names _ = None"

definition status_names :: "(string \<times> repo_status) list" where
  "status_names = [(''PENDING'', PENDING), (''RUNNING'', RUNNING), (''SUCCESS'', SUCCESS), (''FAILED'', FAILED)]"

definition operation_names :: "(string \<times> repository_operation) list" where
  "operation_names = [(''commit-and-push'', CommitAndPush), (''push-only'', PushOnly)]"

definition committed_sha_schema :: "committed_sha schema" where
  "committed_sha_schema v =
     (if \<not> is_object v then None else
      z_field ''sha'' z_string v (\<lambda>s. z_field ''files'' (z_array z_string) v (\<lambda>fs. Some \<lparr>cs_sha = s, cs_files = fs\<rparr>)))"

definition loop_schema :: "(error_kind \<times> string) schema" where
  "loop_schema v =
     (if \<not> is_object v then None else
      z_field ''kind'' (read_enum (map (\<lambda>k. (kind_name k, k)) error_kinds)) v (\<lambda>k.
      z_field ''planHash'' z_string v (\<lambda>h. Some (k, h))))"

text \<open>\<open>superRefine\<close>: the push-only evidence belongs to the operation, and a successful push-only repository
  pushed exactly what was checkpointed.\<close>

definition push_evidence :: "repo_state \<Rightarrow> bool" where
  "push_evidence rs \<longleftrightarrow>
     (if rs_operation rs = Some PushOnly
      then rs_pushSnapshot rs \<noteq> None \<and>
           (rs_status rs = SUCCESS \<longrightarrow> rs_pushedShas rs \<noteq> None \<and> rs_pushedShas rs = map_option ts_outgoingShas (rs_pushSnapshot rs))
      else rs_pushSnapshot rs = None \<and> rs_pushedShas rs = None)"

definition repo_fields_schema :: "repo_state schema" where
  "repo_fields_schema v =
     (if \<not> is_object v then None else
      z_field ''repository'' z_string v (\<lambda>repository.
      z_field ''status'' (read_enum status_names) v (\<lambda>status.
      z_field ''operation'' (z_optional (read_enum operation_names)) v (\<lambda>operation.
      z_field ''pushSnapshot'' (z_optional push_snapshot_schema) v (\<lambda>snapshot.
      z_field ''pushedShas'' (z_optional (z_array git_object_id_schema)) v (\<lambda>pushed.
      z_field ''diffHash'' (z_optional z_string) v (\<lambda>diffHash.
      z_field ''commits'' (z_optional (z_array commit_plan_schema)) v (\<lambda>commits.
      z_field ''error'' (z_optional z_string) v (\<lambda>err.
      z_field ''attempts'' attempts_schema v (\<lambda>attempts.
      z_field ''committedShas'' (z_optional (z_array committed_sha_schema)) v (\<lambda>shas.
      z_field ''originalHead'' (z_optional z_string) v (\<lambda>head.
      z_field ''feedbackHistory'' (z_optional (z_array z_string)) v (\<lambda>history.
      z_field ''lastPlanHash'' (z_optional z_string) v (\<lambda>planHash.
      z_field ''loopDetected'' (z_optional loop_schema) v (\<lambda>loop.
      z_field ''fallbackAttempted'' (z_optional z_boolean) v (\<lambda>fallback.
        Some \<lparr>rs_repository = repository, rs_status = status, rs_operation = operation, rs_pushSnapshot = snapshot,
              rs_pushedShas = pushed, rs_diffHash = diffHash, rs_commits = commits, rs_error = err,
              rs_attempts = attempts, rs_committedShas = shas, rs_originalHead = head, rs_feedbackHistory = history,
              rs_lastPlanHash = planHash, rs_loopDetected = loop, rs_fallbackAttempted = fallback\<rparr>))))))))))))))))"

definition repo_state_schema :: "repo_state schema" where
  "repo_state_schema = z_refine push_evidence repo_fields_schema"

definition state_schema :: "repos schema" where
  "state_schema v =
     (if \<not> is_object v then None else
      z_field ''repos'' (\<lambda>r. case r of
        JObject kvs \<Rightarrow> all_some (map (\<lambda>(k, x). map_option (Pair k) (repo_state_schema x)) kvs)
      | _ \<Rightarrow> None) v Some)"

subsection \<open>Writing the state\<close>

text \<open>\<open>JSON.stringify\<close> leaves \<open>undefined\<close> properties out.\<close>

definition present_field :: "string \<Rightarrow> ('a \<Rightarrow> js_value) \<Rightarrow> 'a option \<Rightarrow> (string \<times> js_value) list" where
  "present_field name enc x = (case x of None \<Rightarrow> [] | Some a \<Rightarrow> [(name, enc a)])"

definition strings_json :: "string list \<Rightarrow> js_value" where
  "strings_json ss = JArray (map JString ss)"

definition message_json :: "commit_message \<Rightarrow> js_value" where
  "message_json c = JObject ([(''type'', JString (cm_type c))] @ present_field ''scope'' JString (cm_scope c) @
     [(''description'', JString (cm_description c))] @ present_field ''body'' JString (cm_body c) @
     [(''isBreaking'', JBool (cm_isBreaking c))])"

definition plan_json :: "commit_plan \<Rightarrow> js_value" where
  "plan_json p = JObject [(''commit'', message_json (cp_commit p)), (''files'', strings_json (cp_files p))]"

definition snapshot_json :: "tracked_push_snapshot \<Rightarrow> js_value" where
  "snapshot_json s = JObject [(''sourceBranch'', JString (ts_sourceBranch s)),
     (''validatedHeadSha'', JString (ts_validatedHeadSha s)), (''upstreamRef'', JString (ts_upstreamRef s)),
     (''remote'', JString (ts_remote s)), (''destinationRef'', JString (ts_destinationRef s)),
     (''destinationBaselineSha'', JString (ts_destinationBaselineSha s)),
     (''outgoingShas'', strings_json (ts_outgoingShas s)), (''pushUrlFingerprint'', JString (ts_pushUrlFingerprint s))]"

definition attempts_json :: "attempts_by_kind \<Rightarrow> js_value" where
  "attempts_json m = JObject (concat (map (\<lambda>k. present_field (kind_name k) (\<lambda>n. JInt (int n)) (m k)) error_kinds))"

definition sha_json :: "committed_sha \<Rightarrow> js_value" where
  "sha_json c = JObject [(''sha'', JString (cs_sha c)), (''files'', strings_json (cs_files c))]"

definition status_name :: "repo_status \<Rightarrow> string" where
  "status_name s = (case s of PENDING \<Rightarrow> ''PENDING'' | RUNNING \<Rightarrow> ''RUNNING'' | SUCCESS \<Rightarrow> ''SUCCESS'' | FAILED \<Rightarrow> ''FAILED'')"

definition operation_name :: "repository_operation \<Rightarrow> string" where
  "operation_name o1 = (case o1 of CommitAndPush \<Rightarrow> ''commit-and-push'' | PushOnly \<Rightarrow> ''push-only'')"

definition loop_json :: "error_kind \<times> string \<Rightarrow> js_value" where
  "loop_json l = JObject [(''kind'', JString (kind_name (fst l))), (''planHash'', JString (snd l))]"

definition repo_json :: "repo_state \<Rightarrow> js_value" where
  "repo_json rs = JObject (
     [(''repository'', JString (rs_repository rs)), (''status'', JString (status_name (rs_status rs)))] @
     present_field ''operation'' (\<lambda>x. JString (operation_name x)) (rs_operation rs) @
     present_field ''pushSnapshot'' snapshot_json (rs_pushSnapshot rs) @
     present_field ''pushedShas'' strings_json (rs_pushedShas rs) @
     present_field ''diffHash'' JString (rs_diffHash rs) @
     present_field ''commits'' (\<lambda>ps. JArray (map plan_json ps)) (rs_commits rs) @
     present_field ''error'' JString (rs_error rs) @
     present_field ''attempts'' attempts_json (rs_attempts rs) @
     present_field ''committedShas'' (\<lambda>cs. JArray (map sha_json cs)) (rs_committedShas rs) @
     present_field ''originalHead'' JString (rs_originalHead rs) @
     present_field ''feedbackHistory'' strings_json (rs_feedbackHistory rs) @
     present_field ''lastPlanHash'' JString (rs_lastPlanHash rs) @
     present_field ''loopDetected'' loop_json (rs_loopDetected rs) @
     present_field ''fallbackAttempted'' JBool (rs_fallbackAttempted rs))"

definition state_json :: "repos \<Rightarrow> js_value" where
  "state_json repos = JObject [(''repos'', JObject (map (\<lambda>(k, rs). (k, repo_json rs)) repos))]"

subsection \<open>What is written is read back\<close>

lemma prop_Nil: "get_prop (JObject []) k = JUndefined"
  by (simp add: get_prop_def)

lemma prop_Cons: "get_prop (JObject ((n, v) # rest)) k = (if k = n then v else get_prop (JObject rest) k)"
  by (simp add: get_prop_def)

lemma prop_present:
  "get_prop (JObject (present_field n e x @ rest)) k =
     (if k = n then (case x of Some a \<Rightarrow> e a | None \<Rightarrow> get_prop (JObject rest) k) else get_prop (JObject rest) k)"
  by (simp add: get_prop_def present_field_def split: option.splits)

lemma prop_last: "get_prop (JObject (present_field n e x)) k = (if k = n then (case x of Some a \<Rightarrow> e a | None \<Rightarrow> JUndefined) else JUndefined)"
  using prop_present[of n e x "[]" k] by (simp add: prop_Nil cong: option.case_cong)

lemmas prop_simps = prop_Nil prop_Cons prop_present prop_last append.simps

lemma field_step: "p (get_prop v n) = Some a \<Longrightarrow> k a = r \<Longrightarrow> z_field n p v k = r"
  by (simp add: z_field_def)

lemma string_back [simp]: "z_string (JString s) = Some s" by (simp add: z_string_def)

lemma boolean_back [simp]: "z_boolean (JBool b) = Some b" by (simp add: z_boolean_def)

lemma natural_back [simp]: "z_natural (JInt (int n)) = Some n" by (simp add: z_natural_def)

lemma optional_back:
  "(\<And>a. x = Some a \<Longrightarrow> p (enc a) = Some a \<and> enc a \<noteq> JUndefined) \<Longrightarrow>
     z_optional p (case x of Some a \<Rightarrow> enc a | None \<Rightarrow> JUndefined) = Some x"
  by (cases x) (auto simp: z_optional_def)

lemma nullish_back:
  "(\<And>a. x = Some a \<Longrightarrow> p (enc a) = Some a \<and> enc a \<noteq> JUndefined \<and> enc a \<noteq> JNull) \<Longrightarrow>
     z_nullish p (case x of Some a \<Rightarrow> enc a | None \<Rightarrow> JUndefined) = Some x"
  by (cases x) (auto simp: z_nullish_def)

lemma all_some_back: "(\<And>a. a \<in> set xs \<Longrightarrow> p (enc a) = Some a) \<Longrightarrow> all_some (map (p \<circ> enc) xs) = Some xs"
  by (induction xs) auto

lemma array_back: "(\<And>a. a \<in> set xs \<Longrightarrow> p (enc a) = Some a) \<Longrightarrow> z_array p (JArray (map enc xs)) = Some xs"
  using all_some_back[of xs p enc] by (simp add: z_array_def)

lemma strings_back [simp]: "z_array z_string (strings_json ss) = Some ss"
  by (simp add: strings_json_def array_back)

lemma refine_back: "p v = Some a \<Longrightarrow> P a \<Longrightarrow> z_refine P p v = Some a"
  by (simp add: z_refine_def)

lemma message_back:
  assumes "\<And>b. breaking (JBool b) = Some b"
  shows "commit_message_schema breaking (message_json c) = Some c"
proof -
  let ?v = "message_json c"
  have "is_object ?v" by (simp add: message_json_def is_object_def)
  moreover have "z_string (get_prop ?v ''type'') = Some (cm_type c)"
    "z_nullish z_string (get_prop ?v ''scope'') = Some (cm_scope c)"
    "z_string (get_prop ?v ''description'') = Some (cm_description c)"
    "z_nullish z_string (get_prop ?v ''body'') = Some (cm_body c)"
    "breaking (get_prop ?v ''isBreaking'') = Some (cm_isBreaking c)"
    using assms by (simp_all add: message_json_def prop_simps nullish_back cong: option.case_cong)
  ultimately show ?thesis by (simp add: commit_message_schema_def z_field_def)
qed

lemma plan_back:
  assumes "\<And>b. breaking (JBool b) = Some b"
  shows "commit_plan_of breaking (plan_json p) = Some p"
proof -
  let ?v = "plan_json p"
  have "is_object ?v" by (simp add: plan_json_def is_object_def)
  moreover have "commit_message_schema breaking (get_prop ?v ''commit'') = Some (cp_commit p)"
    "z_array z_string (get_prop ?v ''files'') = Some (cp_files p)"
    by (simp_all add: plan_json_def prop_simps message_back assms)
  ultimately show ?thesis by (simp add: commit_plan_of_def z_field_def)
qed

lemma plans_back: "commit_plan_schema (plan_json p) = Some p" "commit_plan_result_schema (plan_json p) = Some p"
  unfolding commit_plan_schema_def commit_plan_result_schema_def
  by (rule plan_back, simp add: default_false_def z_optional_def)+

text \<open>A job's result as the bridge writes it.\<close>

definition result_json :: "job_result \<Rightarrow> js_value" where
  "result_json r = JObject (case jr_outcome r of
      Inr plans \<Rightarrow> [(''success'', JBool True), (''id'', JString (jr_id r)), (''commits'', JArray (map plan_json plans))]
    | Inl e \<Rightarrow> [(''success'', JBool False), (''id'', JString (jr_id r)), (''error'', JString e)])"

lemma result_back: "commit_job_result_schema (result_json r) = Some r"
proof -
  have "z_array commit_plan_result_schema (JArray (map plan_json ps)) = Some ps" for ps
    by (simp add: array_back plans_back)
  then show ?thesis
    by (cases r; cases "jr_outcome r")
       (auto simp: commit_job_result_schema_def result_json_def is_object_def z_field_def prop_simps)
qed

lemma sha_back: "committed_sha_schema (sha_json c) = Some c"
  by (simp add: committed_sha_schema_def is_object_def sha_json_def z_field_def prop_simps)

lemma status_back: "map_of status_names (status_name s) = Some s"
  by (cases s) (simp_all add: status_names_def status_name_def)

lemma operation_back: "map_of operation_names (operation_name s) = Some s"
  by (cases s) (simp_all add: operation_names_def operation_name_def)

lemma loop_back: "loop_schema (loop_json l) = Some l"
  by (cases l; cases "fst l")
     (simp_all add: loop_schema_def is_object_def loop_json_def z_field_def prop_simps error_kinds_def kind_name_def)

text \<open>What the schema asks of a snapshot.\<close>

definition sound_snapshot :: "tracked_push_snapshot \<Rightarrow> bool" where
  "sound_snapshot s \<longleftrightarrow> is_git_object_id (ts_validatedHeadSha s) \<and> is_git_object_id (ts_destinationBaselineSha s) \<and>
     ts_outgoingShas s \<noteq> [] \<and> list_all is_git_object_id (ts_outgoingShas s) \<and> is_hex 64 (ts_pushUrlFingerprint s)"

lemma object_id_back: "is_git_object_id s \<Longrightarrow> git_object_id_schema (JString s) = Some s"
  by (simp add: git_object_id_schema_def z_refine_def)

lemma object_ids_back: "list_all is_git_object_id ss \<Longrightarrow> z_array git_object_id_schema (strings_json ss) = Some ss"
  unfolding strings_json_def by (rule array_back) (simp add: object_id_back list_all_iff)

lemma snapshot_back:
  assumes "sound_snapshot s"
  shows "push_snapshot_schema (snapshot_json s) = Some s"
proof -
  have ids: "git_object_id_schema (JString (ts_validatedHeadSha s)) = Some (ts_validatedHeadSha s)"
    "git_object_id_schema (JString (ts_destinationBaselineSha s)) = Some (ts_destinationBaselineSha s)"
    "z_refine (\<lambda>ids. ids \<noteq> []) (z_array git_object_id_schema) (strings_json (ts_outgoingShas s)) = Some (ts_outgoingShas s)"
    "z_refine (is_hex 64) z_string (JString (ts_pushUrlFingerprint s)) = Some (ts_pushUrlFingerprint s)"
    using assms by (simp_all add: sound_snapshot_def object_id_back refine_back object_ids_back)
  show ?thesis
    by (simp add: push_snapshot_schema_def is_object_def snapshot_json_def z_field_def prop_simps ids)
qed

lemma attempts_back: "attempts_schema (attempts_json m) = Some (Some m)"
proof -
  let ?kvs = "concat (map (\<lambda>k. present_field (kind_name k) (\<lambda>n. JInt (int n)) (m k)) error_kinds)"
  have names: "map_of ?kvs (kind_name k) = map_option (\<lambda>n. JInt (int n)) (m k)" for k
    by (cases k) (simp_all add: error_kinds_def present_field_def kind_name_def split: option.splits)
  have "list_all (\<lambda>(k, v). k \<in> kind_name ` set error_kinds \<and> z_natural v \<noteq> None) ?kvs"
    by (auto simp: list_all_iff present_field_def split: option.splits, metis)
  moreover have "(\<lambda>kind. Option.bind (map_of ?kvs (kind_name kind)) z_natural) = m"
  proof
    fix k
    show "Option.bind (map_of ?kvs (kind_name k)) z_natural = m k" using names[of k] by (cases "m k") simp_all
  qed
  ultimately show ?thesis by (simp add: attempts_schema_def attempts_json_def attempt_entries_def)
qed

lemma attempts_absent: "attempts_schema JUndefined = Some None"
  by (simp add: attempts_schema_def)

text \<open>A repository the schema accepts: its identifiers are identifiers, and the push evidence fits.\<close>

definition valid_repo_state :: "repo_state \<Rightarrow> bool" where
  "valid_repo_state rs \<longleftrightarrow> push_evidence rs \<and> (\<forall>s. rs_pushSnapshot rs = Some s \<longrightarrow> sound_snapshot s) \<and>
     (\<forall>ids. rs_pushedShas rs = Some ids \<longrightarrow> list_all is_git_object_id ids)"

lemma repo_back:
  assumes "valid_repo_state rs"
  shows "repo_state_schema (repo_json rs) = Some rs"
proof -
  let ?v = "repo_json rs"
  have kinds: "snapshot_json s \<noteq> JUndefined" "strings_json ss \<noteq> JUndefined" "attempts_json m \<noteq> JUndefined"
    "loop_json l \<noteq> JUndefined" for s ss m l
    by (simp_all add: snapshot_json_def strings_json_def attempts_json_def loop_json_def)
  have lists: "z_array commit_plan_schema (JArray (map plan_json ps)) = Some ps"
    "z_array committed_sha_schema (JArray (map sha_json cs)) = Some cs" for ps cs
    by (simp_all add: array_back plans_back sha_back)
  have object: "is_object ?v" by (simp add: repo_json_def is_object_def)
  have first: "z_string (get_prop ?v ''repository'') = Some (rs_repository rs)"
    "read_enum status_names (get_prop ?v ''status'') = Some (rs_status rs)"
    "z_optional (read_enum operation_names) (get_prop ?v ''operation'') = Some (rs_operation rs)"
    "z_optional push_snapshot_schema (get_prop ?v ''pushSnapshot'') = Some (rs_pushSnapshot rs)"
    "z_optional (z_array git_object_id_schema) (get_prop ?v ''pushedShas'') = Some (rs_pushedShas rs)"
    "z_optional z_string (get_prop ?v ''diffHash'') = Some (rs_diffHash rs)"
    "z_optional (z_array commit_plan_schema) (get_prop ?v ''commits'') = Some (rs_commits rs)"
    "z_optional z_string (get_prop ?v ''error'') = Some (rs_error rs)"
    using assms
    by (simp_all add: repo_json_def prop_simps status_back optional_back operation_back snapshot_back object_ids_back kinds
        lists valid_repo_state_def cong: option.case_cong)
  have attempts: "attempts_schema (get_prop ?v ''attempts'') = Some (rs_attempts rs)"
    by (cases "rs_attempts rs") (simp_all add: repo_json_def prop_simps attempts_back attempts_absent cong: option.case_cong)
  have last: "z_optional (z_array committed_sha_schema) (get_prop ?v ''committedShas'') = Some (rs_committedShas rs)"
    "z_optional z_string (get_prop ?v ''originalHead'') = Some (rs_originalHead rs)"
    "z_optional (z_array z_string) (get_prop ?v ''feedbackHistory'') = Some (rs_feedbackHistory rs)"
    "z_optional z_string (get_prop ?v ''lastPlanHash'') = Some (rs_lastPlanHash rs)"
    "z_optional loop_schema (get_prop ?v ''loopDetected'') = Some (rs_loopDetected rs)"
    "z_optional z_boolean (get_prop ?v ''fallbackAttempted'') = Some (rs_fallbackAttempted rs)"
    by (simp_all add: repo_json_def prop_simps optional_back kinds lists loop_back cong: option.case_cong)
  have "repo_fields_schema ?v = Some rs"
    by (simp add: repo_fields_schema_def object z_field_def first attempts last)
  then show ?thesis using assms by (simp add: repo_state_schema_def refine_back valid_repo_state_def)
qed

lemma state_back:
  assumes "\<forall>rs \<in> snd ` set repos. valid_repo_state rs"
  shows "state_schema (state_json repos) = Some repos"
proof -
  have "all_some (map (\<lambda>(k, x). map_option (Pair k) (repo_state_schema x)) (map (\<lambda>(k, rs). (k, repo_json rs)) repos)) = Some repos"
    using assms by (induction repos) (auto simp: repo_back)
  then show ?thesis by (simp add: state_schema_def state_json_def is_object_def z_field_def prop_simps)
qed

text \<open>Only such states are accepted.\<close>

lemma array_all: "z_array p v = Some xs \<Longrightarrow> (\<And>w a. p w = Some a \<Longrightarrow> P a) \<Longrightarrow> list_all P xs"
proof -
  have "all_some (map p vs) = Some xs \<Longrightarrow> (\<And>w a. p w = Some a \<Longrightarrow> P a) \<Longrightarrow> list_all P xs" for vs
  proof (induction vs arbitrary: xs)
    case (Cons v vs)
    then show ?case by (cases "p v") auto
  qed simp
  then show "z_array p v = Some xs \<Longrightarrow> (\<And>w a. p w = Some a \<Longrightarrow> P a) \<Longrightarrow> list_all P xs"
    by (auto simp: z_array_def split: js_value.splits)
qed

lemma refineD: "z_refine P p v = Some a \<Longrightarrow> p v = Some a \<and> P a"
  by (auto simp: z_refine_def split: option.splits if_splits)

lemma object_id_valid: "git_object_id_schema v = Some s \<Longrightarrow> is_git_object_id s"
  by (auto simp: git_object_id_schema_def dest: refineD)

lemma object_ids_valid: "z_array git_object_id_schema v = Some ids \<Longrightarrow> list_all is_git_object_id ids"
  by (erule array_all) (rule object_id_valid)

lemma snapshot_valid: "push_snapshot_schema v = Some s \<Longrightarrow> sound_snapshot s"
  by (auto simp: push_snapshot_schema_def z_field_def bind_eq_Some_conv sound_snapshot_def
      dest!: refineD object_ids_valid object_id_valid split: if_splits)

lemma optionalD: "z_optional p v = Some (Some a) \<Longrightarrow> p v = Some a"
  by (auto simp: z_optional_def split: if_splits)

lemma repo_fields_valid:
  "repo_fields_schema v = Some rs \<Longrightarrow> (\<forall>s. rs_pushSnapshot rs = Some s \<longrightarrow> sound_snapshot s) \<and>
     (\<forall>ids. rs_pushedShas rs = Some ids \<longrightarrow> list_all is_git_object_id ids)"
  by (auto simp: repo_fields_schema_def z_field_def bind_eq_Some_conv dest!: optionalD snapshot_valid object_ids_valid
      split: if_splits)

lemma accepted_is_valid: "repo_state_schema v = Some rs \<Longrightarrow> valid_repo_state rs"
  using repo_fields_valid by (auto simp: repo_state_schema_def valid_repo_state_def dest!: refineD)

subsection \<open>The phases keep the state valid\<close>

definition same_push :: "repo_state \<Rightarrow> repo_state \<Rightarrow> bool" where
  "same_push rs rs' \<longleftrightarrow> rs_operation rs' = rs_operation rs \<and> rs_pushSnapshot rs' = rs_pushSnapshot rs \<and>
     rs_pushedShas rs' = rs_pushedShas rs"

lemma same_push_refl [simp]: "same_push rs rs" by (simp add: same_push_def)

lemma same_push_updates [simp]:
  "same_push rs (rs'\<lparr>rs_status := s\<rparr>) = same_push rs rs'" "same_push rs (rs'\<lparr>rs_error := e\<rparr>) = same_push rs rs'"
  "same_push rs (rs'\<lparr>rs_commits := c\<rparr>) = same_push rs rs'" "same_push rs (set_attempt k n rs') = same_push rs rs'"
  "same_push rs (rs'\<lparr>rs_lastPlanHash := h\<rparr>) = same_push rs rs'" "same_push rs (rs'\<lparr>rs_loopDetected := l\<rparr>) = same_push rs rs'"
  "same_push rs (rs'\<lparr>rs_feedbackHistory := f\<rparr>) = same_push rs rs'" "same_push rs (rs'\<lparr>rs_diffHash := d\<rparr>) = same_push rs rs'"
  "same_push rs (rs'\<lparr>rs_fallbackAttempted := b\<rparr>) = same_push rs rs'"
  "same_push rs (rs'\<lparr>rs_committedShas := cs\<rparr>) = same_push rs rs'" "same_push rs (rs'\<lparr>rs_originalHead := h\<rparr>) = same_push rs rs'"
  by (simp_all add: same_push_def set_attempt_def)

lemmas push_frame = failed_state_def start_fallback_def validation_loop_failure_def identical_plan_failure_def
  merge_landed_def keep_original_head_def merge_post_commit_push_failure_def execution_succeeded_def settle_def

lemma same_push_cong: "same_push rs rs' \<Longrightarrow> same_push rs0 rs' = same_push rs0 rs"
  by (auto simp: same_push_def)

lemma queue_same_push:
  "queue_retry he ops repoId rs errors shas pending settings sp plans w = (Inr (Queued rs' j), w') \<Longrightarrow> same_push rs0 rs' = same_push rs0 rs"
  "queue_retry he ops repoId rs errors shas pending settings sp plans w = (Inr (LoopDetected rs'), w') \<Longrightarrow> same_push rs0 rs' = same_push rs0 rs"
  by (rule same_push_cong, auto simp: queue_retry_def queue_commit_message_repair_def Let_def split: if_splits prod.splits)+

lemma validation_same_push:
  "handle_validation_retry he ops repoId rs plans settings sp w = (Inr r, w') \<Longrightarrow> same_push rs (vr_repoState r)"
  by (auto simp: handle_validation_retry_def primary_loop_def primary_exhausted_def Let_def push_frame queue_same_push
      split: if_splits sum.splits prod.splits queue_retry_result.splits)

lemma llm_same_push:
  "handle_llm_job_failure he ops repoId err rs settings sp w = (Inr (rs', job), w') \<Longrightarrow> same_push rs rs'"
  by (auto simp: handle_llm_job_failure_def Let_def push_frame queue_same_push
      split: if_splits option.splits sum.splits prod.splits queue_retry_result.splits)

lemma retry_same_push:
  "retry_execution pe repoId rs pending err plans st = (Inr h, st') \<Longrightarrow> same_push rs (hd_repo h)"
  by (auto simp: retry_execution_def Let_def push_frame queue_same_push split: sum.splits prod.splits queue_retry_result.splits)

lemma preserve_same_push: "same_push rs (fst (preserve_landed rs err))"
  by (cases "(rs, err)" rule: preserve_landed.cases) (simp_all add: push_frame)

lemma failed_same_push:
  assumes "execution_failed pe repoId rs err plans st = (Inr h, st')"
  shows "same_push rs (hd_repo h)"
proof -
  obtain rs1 pending where p: "preserve_landed rs err = (rs1, pending)" by fastforce
  have "same_push rs1 (hd_repo h)"
    using assms p by (auto simp: execution_failed_def push_frame dest: retry_same_push split: classification.splits if_splits)
  then show ?thesis using preserve_same_push[of rs err] p same_push_cong by fastforce
qed

lemma execute_same_push: "execute_plans pe repoId rs plans st = (Inr h, st') \<Longrightarrow> same_push rs (hd_repo h)"
  by (auto simp: execute_plans_def catchE_def bindE_def ret_def push_frame Let_def dest: failed_same_push
      split: if_splits sum.splits prod.splits)

lemma plain_result_same_push:
  assumes run: "handle_result pe rs result st = (Inr h, st')" and plain: "rs_operation rs \<noteq> Some PushOnly"
  shows "same_push rs (hd_repo h)"
proof (cases "jr_outcome result")
  case (Inl e)
  then show ?thesis using run plain by (auto simp: handle_result_def Let_def bindE_returns dest: llm_same_push)
next
  case (Inr plans)
  then show ?thesis using run plain
    by (auto simp: handle_result_def Let_def bindE_returns dest: validation_same_push execute_same_push split: if_splits)
qed

lemma same_push_valid:
  "same_push rs rs' \<Longrightarrow> rs_operation rs \<noteq> Some PushOnly \<Longrightarrow> valid_repo_state rs \<Longrightarrow> valid_repo_state rs'"
  by (auto simp: same_push_def valid_repo_state_def push_evidence_def)

lemma push_only_valid:
  assumes run: "handle_push_only_checkpoint_result env files settings rs result st = (Inr rs', st')"
    and valid: "valid_repo_state rs" "rs_operation rs = Some PushOnly"
  shows "valid_repo_state rs'"
proof -
  have pushed: "pushed = ts_outgoingShas snap" if "checkpoint_body env files settings rs result snap s = (Inr pushed, s')" for snap pushed s s'
    using that by (auto simp: checkpoint_body_def bindE_returns split: option.splits if_splits)
  obtain snap where snap: "rs_pushSnapshot rs = Some snap" "sound_snapshot snap"
    using valid by (auto simp: valid_repo_state_def push_evidence_def)
  then show ?thesis
    using run valid
    by (auto simp: handle_push_only_checkpoint_result_def catchE_def bindE_def ret_def valid_repo_state_def push_evidence_def
        sound_snapshot_def dest!: pushed split: sum.splits prod.splits)
qed

lemma handle_result_valid:
  assumes "handle_result pe rs result st = (Inr h, st')" "valid_repo_state rs"
  shows "valid_repo_state (hd_repo h)"
proof (cases "rs_operation rs = Some PushOnly")
  case True
  then show ?thesis using assms by (auto simp: handle_result_def Let_def bindE_returns settle_def dest: push_only_valid)
next
  case False
  then show ?thesis using plain_result_same_push[OF assms(1)] same_push_valid assms(2) by blast
qed

definition valid_repos :: "repos \<Rightarrow> bool" where
  "valid_repos repos \<longleftrightarrow> (\<forall>rs \<in> snd ` set repos. valid_repo_state rs)"

lemma update_valid:
  assumes "valid_repos repos" "valid_repo_state rs"
  shows "valid_repos (AList.update k rs repos)"
proof -
  have "set (AList.update k rs repos) \<subseteq> insert (k, rs) (set repos)" by (induction repos) auto
  then show ?thesis using assms unfolding valid_repos_def by force
qed

lemma map_of_valid: "valid_repos repos \<Longrightarrow> map_of repos k = Some rs \<Longrightarrow> valid_repo_state rs"
  by (auto simp: valid_repos_def dest!: map_of_SomeD)

lemma handle_results_valid:
  "handle_results pe results p st = (Inr q, st') \<Longrightarrow> valid_repos (pp_repos p) \<Longrightarrow> valid_repos (pp_repos q)"
proof (induction results arbitrary: p st)
  case (Cons result results)
  show ?case
  proof (cases "map_of (pp_repos p) (jr_id result)")
    case None
    then show ?thesis using Cons by simp
  next
    case (Some rs)
    then obtain h st1 where h: "handle_result pe rs result st = (Inr h, st1)"
      "handle_results pe results (record_handled (jr_id result) h p) st1 = (Inr q, st')"
      using Cons.prems(1) by (auto simp: bindE_returns)
    have "valid_repo_state (hd_repo h)" using handle_result_valid[OF h(1)] map_of_valid[OF Cons.prems(2) Some] by blast
    then have "valid_repos (pp_repos (record_handled (jr_id result) h p))"
      unfolding record_handled_def phase_progress.simps by (rule update_valid[OF Cons.prems(2)])
    then show ?thesis using Cons.IH[OF h(2)] by blast
  qed
qed (simp add: ret_def)

lemma phase_valid:
  assumes "run_commit_and_push_phase pe results repos st = (Inr (Delegated jobs repos'), st')" "valid_repos repos"
  shows "valid_repos repos'"
proof -
  obtain q where "handle_results pe results \<lparr>pp_repos = repos, pp_jobs = [], pp_loops = 0\<rparr> st = (Inr q, st')" "repos' = pp_repos q"
    using assms(1) by (auto simp: run_commit_and_push_phase_def bindE_returns split: if_splits)
  then show ?thesis using handle_results_valid assms(2) by fastforce
qed

text \<open>What discovery finds comes from an inspection.\<close>

lemma inspects_all:
  "inspect_repositories de ps acc st = (Inr acc', st') \<Longrightarrow> \<forall>r \<in> set (snd acc). P r \<Longrightarrow>
     (\<And>p s r s'. inspect_repository de p s = (Inr (Some r), s') \<Longrightarrow> P r) \<Longrightarrow> \<forall>r \<in> set (snd acc'). P r"
proof (induction de ps acc arbitrary: st rule: inspect_repositories.induct)
  case (2 de p ps seen results)
  show ?case
  proof (cases "p \<in> seen")
    case False
    then obtain r st1 where r: "inspect_repository de p st = (Inr r, st1)"
      "inspect_repositories de ps (insert p seen, results @ (case r of None \<Rightarrow> [] | Some i \<Rightarrow> [i])) st1 = (Inr acc', st')"
      using 2 by (auto simp: bindE_returns)
    have "\<forall>x \<in> set (snd (insert p seen, results @ (case r of None \<Rightarrow> [] | Some i \<Rightarrow> [i]))). P x"
      using 2(4) 2(5) r(1) by (auto split: option.splits)
    then show ?thesis using 2(2)[OF False r(2)] 2(5) by blast
  qed (use 2 in simp)
qed simp

lemma roots_all:
  "discover_roots de fuel roots acc st = (Inr acc', st') \<Longrightarrow> \<forall>r \<in> set (snd acc). P r \<Longrightarrow>
     (\<And>p s r s'. inspect_repository de p s = (Inr (Some r), s') \<Longrightarrow> P r) \<Longrightarrow> \<forall>r \<in> set (snd acc'). P r"
proof (induction roots arbitrary: acc st)
  case (Cons root roots)
  from Cons.prems(1) obtain paths acc1 st2 st3 where
    "inspect_repositories de paths acc st2 = (Inr acc1, st3)" "discover_roots de fuel roots acc1 st3 = (Inr acc', st')"
    by (auto simp: bindE_returns split: option.splits prod.splits)
  then show ?case using Cons.IH Cons.prems(2,3) inspects_all[of de paths acc st2 acc1 st3 P] by blast
qed simp

lemma discovery_all:
  assumes "run_discovery de fuel st = (Inr found, st')"
    and "\<And>p s r s'. inspect_repository de p s = (Inr (Some r), s') \<Longrightarrow> P r"
  shows "\<forall>r \<in> set found. P r"
proof -
  obtain seen results where r: "discover_roots de fuel
      (if st_searchPaths (pe_settings de) \<noteq> [] then st_searchPaths (pe_settings de) else [''~/Developper/Projects''])
      ({}, []) st = (Inr (seen, results), st')" "found = deepest_first results"
    using assms(1) unfolding run_discovery_def Let_def by (force simp: bindE_returns)
  then show ?thesis using roots_all[OF r(1), of P] assms(2) by (simp add: deepest_first_def)
qed

text \<open>What is assumed of Git and of the digest: \<open>git rev-parse HEAD\<close> prints an object ID, \<open>git ls-remote\<close> nothing or a
  line that begins with one, \<open>git rev-list\<close> one on every line that is not blank, and a SHA-256 digest has 64 hexadecimal
  digits.\<close>

definition git_prints_object_ids :: "'w git_env \<Rightarrow> bool" where
  "git_prints_object_ids env \<longleftrightarrow>
     (\<forall>w out. fst (ge_git env [] [''rev-parse'', ''HEAD''] w) = Inr out \<longrightarrow> is_git_object_id (trim out)) \<and>
     (\<forall>cfg remote ref w out. fst (ge_git env cfg [''ls-remote'', ''--'', remote, ref] w) = Inr out \<longrightarrow>
        is_blank out \<or> is_git_object_id (takeWhile (\<lambda>c. \<not> is_js_whitespace c) (trim out))) \<and>
     (\<forall>range w out. fst (ge_git env [] [''rev-list'', ''--reverse'', range] w) = Inr out \<longrightarrow>
        (\<forall>line \<in> set (split_on (CHR 0x0A) (trim out)). is_blank line \<or> is_git_object_id (trim line))) \<and>
     (\<forall>text. is_hex 64 (ge_sha256 env text))"

lemma git_exec_args_answer:
  "git_exec_args env cfg args st = (Inr out, st') \<Longrightarrow> \<exists>raw. fst (ge_git env cfg args (gs_world st)) = Inr raw \<and> out = trim raw"
  by (auto simp: git_exec_args_def git_exec_args_raw_def Let_def split: prod.splits sum.splits)

lemma pinned_fingerprint: "pin_endpoint env url rewrites st = (Inr ep, st') \<Longrightarrow> \<exists>text. ep_fingerprint ep = ge_sha256 env text"
  by (auto simp: pin_endpoint_def Let_def)

lemma endpoint_fingerprint:
  assumes "resolve_single_push_endpoint env remote st = (Inr ep, st')"
  shows "\<exists>text. ep_fingerprint ep = ge_sha256 env text"
proof -
  from assms obtain out st1 where lines: "(case split_nonempty_lines out of
          [pushUrl] \<Rightarrow>
            if list_ex unpinnable pushUrl
            then throw (''Remote '' @ remote
              @ '' uses a push URL that cannot be safely pinned in process-scoped Git configuration.'')
            else bindE (read_url_rewrite_configuration env) (pin_endpoint env pushUrl)
        | pushUrls \<Rightarrow> throw (''Remote '' @ remote @ '' must resolve to exactly one push URL; found ''
              @ show_nat (length pushUrls) @ ''.'')) st1 = (Inr ep, st')"
    unfolding resolve_single_push_endpoint_def bindE_returns by blast
  consider url where "split_nonempty_lines out = [url]" | "length (split_nonempty_lines out) \<noteq> 1"
    by (cases "split_nonempty_lines out" rule: remdups_adj.cases) auto
  then show ?thesis
  proof cases
    case 1
    with lines show ?thesis
      by (auto simp only: list.case throw_def bindE_returns prod.inject sum.distinct split: if_splits dest: pinned_fingerprint)
  next
    case 2
    with lines show ?thesis by (cases "split_nonempty_lines out" rule: remdups_adj.cases) (simp_all add: throw_def)
  qed
qed

lemma endpoint_answer:
  assumes "git_prints_object_ids env" "endpoint_read_sha env ep ref st = (Inr sha, st')"
  shows "is_git_object_id sha"
proof -
  obtain out where out: "git_exec_args env (ep_processConfig ep) [''ls-remote'', ''--'', ep_ephemeralRemote ep, ref] st = (Inr out, st')"
    "sha = takeWhile (\<lambda>c. \<not> is_js_whitespace c) out" "sha \<noteq> []"
    using assms(2)
    by (auto simp: endpoint_read_sha_def read_optional_destination_sha_def bindE_returns ret_def throw_def Let_def
        split: if_splits)
  obtain raw where raw: "fst (ge_git env (ep_processConfig ep) [''ls-remote'', ''--'', ep_ephemeralRemote ep, ref] (gs_world st)) = Inr raw"
    "out = trim raw" using git_exec_args_answer[OF out(1)] by blast
  then have "\<not> is_blank raw" using out(2,3) by (auto simp: is_blank_def)
  then show ?thesis using assms(1) raw out(2) unfolding git_prints_object_ids_def by blast
qed

lemma snapshot_answers:
  assumes git: "git_prints_object_ids env" and run: "snapshot_of env branch destination ep baseline st = (Inr (Some snap), st')"
  shows "is_git_object_id (ts_validatedHeadSha snap)" "ts_outgoingShas snap \<noteq> []"
    "list_all is_git_object_id (ts_outgoingShas snap)" "ts_destinationBaselineSha snap = baseline"
    "ts_pushUrlFingerprint snap = ep_fingerprint ep"
proof -
  obtain head st1 out st2 st3 where
    head: "git_exec_args env [] [''rev-parse'', ''HEAD''] st = (Inr head, st1)"
    and out: "git_exec_args env [] [''rev-list'', ''--reverse'', baseline @ ''..'' @ head] st2 = (Inr out, st3)"
    and snap: "split_nonempty_lines out \<noteq> []" "snap = \<lparr>ts_sourceBranch = branch, ts_validatedHeadSha = head,
               ts_upstreamRef = td_upstreamRef destination, ts_remote = td_remote destination,
               ts_destinationRef = td_destinationRef destination, ts_destinationBaselineSha = baseline,
               ts_outgoingShas = split_nonempty_lines out, ts_pushUrlFingerprint = ep_fingerprint ep\<rparr>"
    using run by (auto simp: snapshot_of_def outgoing_list_def bindE_returns ret_def throw_def split: if_splits)
  obtain raw where "fst (ge_git env [] [''rev-parse'', ''HEAD''] (gs_world st)) = Inr raw" "head = trim raw"
    using git_exec_args_answer[OF head] by blast
  then show "is_git_object_id (ts_validatedHeadSha snap)"
    using git snap(2) unfolding git_prints_object_ids_def by auto
  obtain raw2 where raw2: "fst (ge_git env [] [''rev-list'', ''--reverse'', baseline @ ''..'' @ head] (gs_world st2)) = Inr raw2"
    "out = trim raw2" using git_exec_args_answer[OF out] by blast
  then have "\<forall>line \<in> set (split_on (CHR 0x0A) out). is_blank line \<or> is_git_object_id (trim line)"
    using git unfolding git_prints_object_ids_def by blast
  then show "list_all is_git_object_id (ts_outgoingShas snap)"
    using snap(2) by (auto simp: split_nonempty_lines_def list_all_iff is_blank_def)
qed (use run in \<open>auto simp: snapshot_of_def bindE_returns ret_def throw_def split: if_splits\<close>)

lemma captured_snapshot_sound:
  assumes git: "git_prints_object_ids env"
    and capture: "capture_tracked_push_snapshot env st = (Inr (Some snap), st')"
  shows "sound_snapshot snap"
proof -
  obtain destination ep st1 st2 baseline branch st3 where
    ep: "resolve_single_push_endpoint env (td_remote destination) st1 = (Inr ep, st2)"
    and base: "endpoint_read_sha env ep (td_destinationRef destination) st2 = (Inr baseline, st3)"
    and snap: "snapshot_of env branch destination ep baseline st3 = (Inr (Some snap), st')"
    using capture by (auto simp: capture_tracked_push_snapshot_def bindE_returns ret_def split: option.splits)
  have "is_hex 64 (ep_fingerprint ep)"
    using endpoint_fingerprint[OF ep] git unfolding git_prints_object_ids_def by metis
  then show ?thesis
    using snapshot_answers[OF git snap] endpoint_answer[OF git base] by (simp add: sound_snapshot_def)
qed

abbreviation sound_info :: "repository_info \<Rightarrow> bool" where
  "sound_info r \<equiv> (case ri_operation r of PushOnly \<Rightarrow> \<exists>s. ri_pushSnapshot r = Some s \<and> sound_snapshot s
     | CommitAndPush \<Rightarrow> ri_pushSnapshot r = None)"

lemma inspected_sound:
  assumes "\<forall>q. git_prints_object_ids (pe_git de q)" "inspect_repository de p st = (Inr (Some r), st')"
  shows "sound_info r"
proof -
  have "sound_snapshot snap" if "capture_tracked_push_snapshot (pe_git de p) st1 = (Inr (Some snap), st2)" for snap st1 st2
    using captured_snapshot_sound that assms(1) by blast
  then show ?thesis
    using assms(2)
    by (auto simp: inspect_repository_def Let_def bindE_returns
        split: prod.splits bool.splits if_splits option.splits)
qed

lemma fresh_valid:
  "valid_repo_state ((fresh_repo path s CommitAndPush)\<lparr>rs_pushSnapshot := None, rs_error := e\<rparr>)"
  "valid_repo_state ((fresh_repo path s CommitAndPush)\<lparr>rs_diffHash := h\<rparr>)"
  "sound_snapshot snap \<Longrightarrow> valid_repo_state ((fresh_repo path RUNNING PushOnly)\<lparr>rs_pushSnapshot := Some snap\<rparr>)"
  by (simp_all add: fresh_repo_def valid_repo_state_def push_evidence_def)

lemma validate_repository_valid_state:
  assumes run: "validate_repository de r vp st = (vp', st')" and r: "sound_info r" "valid_repos (vp_repos vp)"
  shows "valid_repos (vp_repos vp')"
proof -
  have "\<exists>rs. vp_repos vp' = AList.update (ri_id r) rs (vp_repos vp) \<and> valid_repo_state rs"
  proof (cases "ri_operation r")
    case PushOnly
    then obtain snap where "ri_pushSnapshot r = Some snap" "sound_snapshot snap" using r(1) by auto
    then show ?thesis using run PushOnly fresh_valid(3) by (auto simp: validate_repository_def)
  next
    case CommitAndPush
    then show ?thesis using run r(1) fresh_valid(1,2)
      by (auto simp: validate_repository_def validation_failed_def split: prod.splits sum.splits)
  qed
  then obtain rs where "vp_repos vp' = AList.update (ri_id r) rs (vp_repos vp)" "valid_repo_state rs" by blast
  then show ?thesis using update_valid[OF r(2)] by metis
qed

lemma validate_repositories_valid_state:
  "validate_repositories de rs vp st = (vp', st') \<Longrightarrow> \<forall>r \<in> set rs. sound_info r \<Longrightarrow> valid_repos (vp_repos vp) \<Longrightarrow>
     valid_repos (vp_repos vp')"
proof (induction rs arbitrary: vp st)
  case (Cons r rs)
  obtain vp1 st1 where one: "validate_repository de r vp st = (vp1, st1)" by fastforce
  moreover have "valid_repos (vp_repos vp1)"
    by (rule validate_repository_valid_state[OF one]) (use Cons.prems in simp_all)
  ultimately show ?case using Cons.IH[of vp1 st1] Cons.prems by simp
qed simp

lemma running_valid: "valid_repo_state rs \<Longrightarrow> valid_repo_state (rs\<lparr>rs_status := RUNNING\<rparr>)"
  by (auto simp: valid_repo_state_def push_evidence_def)

lemma mark_running_valid: "valid_repos repos \<Longrightarrow> valid_repos (mark_running valid repos)"
proof -
  have entry: "valid_repos (AList.map_entry k (\<lambda>rs. rs\<lparr>rs_status := RUNNING\<rparr>) rs)" if "valid_repos rs" for k rs
    using that by (induction rs) (auto simp: valid_repos_def intro: running_valid)
  have "valid_repos (fold (\<lambda>r. AList.map_entry (vd_id r) (\<lambda>rs. rs\<lparr>rs_status := RUNNING\<rparr>)) valid repos)" if "valid_repos repos"
    using that by (induction valid arbitrary: repos) (simp_all add: entry)
  then show "valid_repos repos \<Longrightarrow> valid_repos (mark_running valid repos)" by (simp add: mark_running_def)
qed

lemma discovery_phase_valid:
  assumes run: "run_discovery_and_validation_phase de fuel repos st = (Inr (DelegatedPlanning jobs repos'), st')"
    and sound: "\<forall>q. git_prints_object_ids (pe_git de q)" "valid_repos repos"
  shows "valid_repos repos'"
proof -
  obtain found st1 vp st2 where f: "run_discovery de fuel st = (Inr found, st1)"
    "validate_repositories de found \<lparr>vp_valid = [], vp_checkpoints = [], vp_repos = repos\<rparr> st1 = (vp, st2)"
    "repos' = mark_running (vp_valid vp) (vp_repos vp)"
    using run by (auto simp: run_discovery_and_validation_phase_def bindE_returns Let_def split: if_splits prod.splits)
  have "\<forall>r \<in> set found. sound_info r"
    by (rule discovery_all[OF f(1)]) (rule inspected_sound[OF sound(1)])
  then have "valid_repos (vp_repos vp)" using validate_repositories_valid_state[OF f(2)] sound(2) by simp
  then show ?thesis using mark_running_valid f(3) by blast
qed

text \<open>C18. Every state a phase hands to the next run of the program is accepted by the schema and read back as
  it was: the state of the discovery phase, as long as Git prints object IDs where it is documented to and a SHA-256 digest
  has 64 hexadecimal digits, and the state of a commit-and-push phase that started from an accepted state. In particular a
  repository is push-only exactly when it carries a snapshot, and a successful push-only repository records exactly
  the checkpointed commits as pushed.\<close>

theorem phase_states_are_accepted:
  assumes "valid_repos repos"
  shows "(run_commit_and_push_phase pe results repos st = (Inr (Delegated jobs repos'), st') \<longrightarrow>
       state_schema (state_json repos') = Some repos' \<and> valid_repos repos') \<and>
    ((\<forall>q. git_prints_object_ids (pe_git de q)) \<longrightarrow>
       run_discovery_and_validation_phase de fuel repos st = (Inr (DelegatedPlanning planned repos'), st') \<longrightarrow>
       state_schema (state_json repos') = Some repos' \<and> valid_repos repos') \<and>
    (\<forall>v rs. repo_state_schema v = Some rs \<longrightarrow> valid_repo_state rs)"
proof -
  have "state_schema (state_json repos') = Some repos'" if "valid_repos repos'"
    using that state_back by (simp add: valid_repos_def)
  then show ?thesis
    using phase_valid[of pe results repos st jobs repos' st'] discovery_phase_valid[of de fuel repos st planned repos' st']
      accepted_is_valid assms by blast
qed

subsection \<open>Instances\<close>

lemma home_prints_object_ids: "git_prints_object_ids (pe_git home_disc q)"
proof -
  have ids: "is_git_object_id (trim (replicate 40 (CHR ''a'')))"
    "is_git_object_id (takeWhile (\<lambda>c. \<not> is_js_whitespace c) (trim (replicate 40 (CHR ''b'') @ '' refs/heads/main'')))"
    "list_all (\<lambda>line. is_git_object_id (trim line)) (split_on (CHR 0x0A) (trim (replicate 40 (CHR ''a''))))"
    "is_hex 64 (replicate 64 (CHR ''c''))"
    by code_simp+
  then show ?thesis
    by (auto simp: git_prints_object_ids_def home_disc_def home_env_def home_git_def list_all_iff)
qed

lemma phase_states_are_accepted_witness:
  "\<exists>jobs repos1 st1 planned repos2 st2.
     run_commit_and_push_phase sample_phase [\<lparr>jr_id = ''r'', jr_outcome = Inr [bad_plan]\<rparr>] [(''r'', sample_repo)]
       sample_git_state = (Inr (Delegated jobs repos1), st1) \<and> state_schema (state_json repos1) = Some repos1 \<and>
     run_discovery_and_validation_phase home_disc 2 [] sample_git_state = (Inr (DelegatedPlanning planned repos2), st2) \<and>
     state_schema (state_json repos2) = Some repos2"
proof -
  obtain jobs repos1 st1 where one: "run_commit_and_push_phase sample_phase [\<lparr>jr_id = ''r'', jr_outcome = Inr [bad_plan]\<rparr>]
     [(''r'', sample_repo)] sample_git_state = (Inr (Delegated jobs repos1), st1)" using delegating_phase by blast
  obtain planned repos2 st2 where two: "run_discovery_and_validation_phase home_disc 2 [] sample_git_state =
     (Inr (DelegatedPlanning planned repos2), st2)" using home_phase by fast
  have "valid_repos [(''r'', sample_repo)]" "valid_repos []"
    by (simp_all add: valid_repos_def valid_repo_state_def push_evidence_def sample_repo_def)
  then show ?thesis
    using phase_states_are_accepted[THEN conjunct1, THEN mp, OF _ one]
      phase_states_are_accepted[THEN conjunct2, THEN conjunct1, THEN mp, THEN mp, OF _ allI[OF home_prints_object_ids] two] one two
    by (intro exI[of _ jobs] exI[of _ repos1] exI[of _ st1] exI[of _ planned] exI[of _ repos2] exI[of _ st2] conjI) simp_all
qed

end
