(* ===== verification/LLM_Bridge.thy ===== *)
theory LLM_Bridge
  imports State_Schema JSON_Text
begin

text \<open>
  The bridge between the orchestrator and the language model: \<open>src/src/entrypoints/turnlock-to-llm-bridge.ts\<close> with
  \<open>batch-manifest.ts\<close>, \<open>job-result-store.ts\<close>, \<open>commit-job-response.ts\<close>, \<open>feedback-formatter.ts\<close>,
  \<open>llm-invoker.ts\<close>, \<open>auth-resolver.ts\<close> and \<open>runtime-launch.ts\<close>. The bridge reads a delegation the orchestrator
  printed, asks the model for every job of its manifest, writes the results and resumes the orchestrator, whose
  output may hold the next delegation. The provider adapters, the shell, the file system, the diagnostics' sanitizer and
  JSON texts are parameters. The jobs of a manifest run in parallel, each on its own result file: they are modelled one
  after the other. Log messages are not modelled.
\<close>

subsection \<open>Credentials\<close>

record auth_env =
  au_env :: "string \<Rightarrow> string option"
  au_file :: "js_value option"
  au_exec :: "string \<Rightarrow> string + string"

definition to_upper :: "char \<Rightarrow> char" where
  "to_upper c = (if 97 \<le> (of_char c :: nat) \<and> (of_char c :: nat) \<le> 122 then char_of ((of_char c :: nat) - 32) else c)"

definition js_falsy :: "js_value \<Rightarrow> bool" where
  "js_falsy v \<longleftrightarrow> v \<in> {JUndefined, JNull, JBool False, JInt 0, JString []}"

definition has_key :: "js_value \<Rightarrow> string \<Rightarrow> bool" where
  "has_key v k \<longleftrightarrow> (case v of JObject kvs \<Rightarrow> k \<in> fst ` set kvs | _ \<Rightarrow> False)"

definition agent_suffix :: "string option \<Rightarrow> string" where
  "agent_suffix agent = (if truthy agent then '' (agent: '' @ nullish agent [] @ '')'' else [])"

text \<open>The entry of the provider, or of the agent in a nested one.\<close>

definition token_config :: "js_value \<Rightarrow> string \<Rightarrow> string option \<Rightarrow> string + js_value" where
  "token_config authData provider agent =
     (let entry = get_prop authData provider in
      if truthy agent \<and> \<not> js_falsy entry \<and> is_record entry \<and> \<not> has_key entry ''key'' then
        (let nested = get_prop entry (nullish agent []) in
         if js_falsy nested
         then Inl (''Authentication token for provider '' @ provider @ '', agent '' @ nullish agent []
                   @ '' not found in agent-credentials.json'')
         else Inr nested)
      else if js_falsy entry
      then Inl (''Authentication token for provider '' @ provider @ '' not found in env or agent-credentials.json'')
      else Inr entry)"

definition resolve_auth_token :: "auth_env \<Rightarrow> string \<Rightarrow> string option \<Rightarrow> string + string" where
  "resolve_auth_token au provider agent =
     (let envKey = map to_upper provider @ ''_API_KEY'' in
      if truthy (au_env au envKey) then Inr (trim (nullish (au_env au envKey) []))
      else case au_file au of
        None \<Rightarrow> Inl (''Authentication token for provider '' @ provider @
                 '' not found in env and failed to read agent-credentials.json'')
      | Some JNull \<Rightarrow> Inl ''TypeError''
      | Some authData \<Rightarrow>
          (case token_config authData provider agent of
             Inl e \<Rightarrow> Inl e
           | Inr config \<Rightarrow>
               (case (case config of JString s \<Rightarrow> Some s
                      | _ \<Rightarrow> (case get_prop config ''key'' of JString s \<Rightarrow> Some s | _ \<Rightarrow> None)) of
                  None \<Rightarrow> Inl (''Authentication token for provider '' @ provider @ agent_suffix agent
                           @ '' in agent-credentials.json is malformed'')
                | Some command \<Rightarrow>
                    (case au_exec au (trim command) of
                       Inl message \<Rightarrow> Inl (''Failed to execute credential command for provider '' @ provider
                         @ agent_suffix agent @ ''. Ensure the key in agent-credentials.json is a valid shell command ''
                         @ ''(e.g. doppler). Error: '' @ message)
                     | Inr out \<Rightarrow> Inr (trim out)))))"

subsection \<open>Payloads and prompts\<close>

text \<open>What the prompt of a job holds; a planning payload has no feedback at first.\<close>

datatype bridge_payload =
    CheckpointPayload
  | PlanPayload job_base string "feedback option"
  | FixPayload job_base repair_payload

text \<open>U+2192 is no \<^typ>\<open>char\<close>: its three bytes in UTF-8 stand for it.\<close>

definition arrow :: string where "arrow = [CHR 0xE2, CHR 0x86, CHR 0x92]"

definition error_lines :: "feedback_error \<Rightarrow> string list" where
  "error_lines e =
     [''['' @ map to_upper (kind_name (fb_kind e)) @ ''] '' @ fb_message e] @
     (if truthy (fb_resolution_hint e) then [''  '' @ arrow @ '' Resolution: '' @ nullish (fb_resolution_hint e) []] else []) @
     (if nullish (fb_files e) [] \<noteq> []
      then [''  '' @ arrow @ '' Affected files: '' @ join '', '' (nullish (fb_files e) [])] else []) @
     [[]]"

definition committed_lines :: "committed_sha list \<Rightarrow> string list" where
  "committed_lines shas =
     [''Already committed (DO NOT re-include these files):''] @
     map (\<lambda>c. ''  - '' @ take 7 (cs_sha c) @ '': '' @ join '', '' (cs_files c)) shas @ [[]]"

definition format_feedback_block :: "feedback \<Rightarrow> string option \<Rightarrow> string" where
  "format_feedback_block fb payloadDiff =
     (let shas = nullish (fd_committed_shas fb) []; pending = nullish (fd_pending_files fb) [] in
      join NL
       ([[], ''--- FEEDBACK FROM PREVIOUS ATTEMPT(S) ---'',
         ''Your previous plan(s) were rejected. Fix the issues below:'', []] @
        concat (map error_lines (fd_errors fb)) @
        (if shas \<noteq> [] then committed_lines shas else []) @
        (if pending \<noteq> [] then
           [''Pending files (MUST be covered by the new plan):''] @ map (\<lambda>f. ''  - '' @ f) pending @ [[]] @
           (if truthy payloadDiff then [''<remaining-diff>'', nullish payloadDiff [], ''</remaining-diff>'', []] else [])
         else if shas \<noteq> [] then
           [''No pending files remain. Return an empty array [] if all work is covered by committed_shas above.'', []]
         else []) @
        (if fd_previous_commit fb \<noteq> []
         then [''Previous attempt(s) (full plan, in order):'', fd_previous_commit fb, []] else []) @
        [''Generate a NEW JSON array that resolves all listed errors.'', []]))"

definition rule_name :: "validation_rule \<Rightarrow> string" where
  "rule_name r = (case r of CommitMessageRule \<Rightarrow> ''commit-message'' | SubjectMaxLength \<Rightarrow> ''subject-max-length'')"

definition error_json :: "feedback_error \<Rightarrow> js_value" where
  "error_json e = JObject ([(''kind'', JString (kind_name (fb_kind e))), (''message'', JString (fb_message e))] @
     present_field ''resolution_hint'' JString (fb_resolution_hint e) @
     present_field ''files'' strings_json (fb_files e) @
     present_field ''planIndex'' (\<lambda>n. JInt (int n)) (fb_planIndex e) @
     present_field ''rule'' (\<lambda>r. JString (rule_name r)) (fb_rule e) @
     present_field ''rejectedSubject'' JString (fb_rejectedSubject e) @
     present_field ''actualLength'' (\<lambda>n. JInt (int n)) (fb_actualLength e) @
     present_field ''maximumLength'' (\<lambda>n. JInt (int n)) (fb_maximumLength e))"

text \<open>\<open>formatCommitMessageRepairPrompt\<close>, before \<open>JSON.stringify\<close>.\<close>

definition repair_prompt :: "repair_payload \<Rightarrow> js_value" where
  "repair_prompt p = JObject
     [(''task'', JString ''repair-commit-messages''), (''maximumSubjectLength'', JInt (int MAX_COMMIT_SUBJECT_LENGTH)),
      (''plans'', JArray (map (\<lambda>i. JObject ([(''planIndex'', JInt (int i))] @
          present_field ''commit'' (\<lambda>plan. message_json (cp_commit plan)) (nth_opt (rp_rejectedPlans p) i)))
        (requested_indexes p))),
      (''errors'', JArray (map error_json (rp_validationErrors p)))]"

definition COMMIT_MESSAGE_REPAIR_SYSTEM_PROMPT :: string where
  "COMMIT_MESSAGE_REPAIR_SYSTEM_PROMPT = join NL
     [''You repair Conventional Commit messages.'',
      ''Return only a JSON array of objects shaped as {\"planIndex\": number, \"commit\": CommitMessage}.'',
      ''Return exactly one object for every requested planIndex and no other indexes.'',
      ''Never return files or alter file ownership. Preserve intent and unaffected fields.'',
      ''Every fully formatted subject must be at most '' @ show_nat MAX_COMMIT_SUBJECT_LENGTH @ '' characters.'',
      ''Move nonessential detail into the body instead of truncating words.'']"

subsection \<open>Asking the model\<close>

datatype adapter = Anthropic | OpenAI | Google | OpenAICompatible string

record adapter_call =
  ac_adapter :: adapter
  ac_model :: string
  ac_apiKey :: string
  ac_stripJsonFence :: bool
  ac_system :: string
  ac_user :: string
  ac_temperature :: int
  ac_thinking :: bool

definition adapter_for :: "string \<Rightarrow> adapter" where
  "adapter_for provider =
     (if provider = ''anthropic'' then Anthropic else if provider = ''openai'' then OpenAI
      else if provider = ''google'' then Google else OpenAICompatible provider)"

text \<open>The call \<open>invokeLlm\<close> makes; thinking tags are always stripped.\<close>

definition llm_call :: "job_base \<Rightarrow> string \<Rightarrow> string \<Rightarrow> string \<Rightarrow> adapter_call" where
  "llm_call base token systemPrompt userPrompt =
     \<lparr>ac_adapter = adapter_for (jb_provider base), ac_model = jb_model base, ac_apiKey = token, ac_stripJsonFence = True,
      ac_system = systemPrompt, ac_user = userPrompt, ac_temperature = jb_temperature base,
      ac_thinking = nullish (jb_thinking base) False\<rparr>"

record bridge_job =
  bj_id :: string
  bj_prompt :: string
  bj_resultPath :: string

text \<open>\<open>be_call\<close> answers the attempts of a job, by its id and the number of the attempt; \<open>be_write\<close> is the failure, if
  any, of the first or second write to a result file.\<close>

record bridge_env =
  be_auth :: auth_env
  be_payload :: "string \<Rightarrow> bridge_payload option"
  be_parse :: "string \<Rightarrow> js_value option"
  be_stringify :: "js_value \<Rightarrow> string"
  be_sanitize :: "string \<Rightarrow> string"
  be_call :: "string \<Rightarrow> nat \<Rightarrow> adapter_call \<Rightarrow> string + string"
  be_write :: "string \<Rightarrow> nat \<Rightarrow> string option"

text \<open>The strict schema of a repair.\<close>

definition z_strict :: "string list \<Rightarrow> js_value \<Rightarrow> bool" where
  "z_strict names v \<longleftrightarrow> (case v of JObject kvs \<Rightarrow> list_all (\<lambda>(k, _). k \<in> set names) kvs | _ \<Rightarrow> False)"

definition strict_message_schema :: "commit_message schema" where
  "strict_message_schema v =
     (if z_strict [''type'', ''scope'', ''description'', ''body'', ''isBreaking''] v
      then commit_message_schema z_boolean v else None)"

definition repair_item_schema :: "repair_item schema" where
  "repair_item_schema v =
     (if \<not> z_strict [''planIndex'', ''commit''] v then None else
      z_field ''planIndex'' z_natural v (\<lambda>i.
      z_field ''commit'' strict_message_schema v (\<lambda>c.
        Some \<lparr>ri_planIndex = i, ri_commit = c\<rparr>)))"

definition repair_message :: "repair_error \<Rightarrow> string" where
  "repair_message e = (case e of SchemaMismatch \<Rightarrow> ''ZodError''
     | IndexMismatch \<Rightarrow> ''Commit-message repair response does not match the requested plan indexes.''
     | ProtectedFieldsChanged \<Rightarrow> ''Commit-message repair changed protected semantic fields.'')"

definition parse_commit_job_response :: "bridge_env \<Rightarrow> bridge_payload \<Rightarrow> string \<Rightarrow> string + commit_plan list" where
  "parse_commit_job_response be payload response =
     (case be_parse be response of
        None \<Rightarrow> Inl ''SyntaxError''
      | Some (JArray (v # vs)) \<Rightarrow>
          (case payload of
             FixPayload base p \<Rightarrow>
               map_sum repair_message id (merge_commit_message_repairs p (z_array repair_item_schema (JArray (v # vs))))
           | _ \<Rightarrow>
               (case non_empty_commit_plan_result_list_schema (JArray (v # vs)) of
                  None \<Rightarrow> Inl ''ZodError''
                | Some plans \<Rightarrow> Inr plans))
      | _ \<Rightarrow> Inl ''LLM returned an invalid response: expected a non-empty JSON array.'')"

text \<open>At most \<open>left\<close> attempts; only an invalid response is asked again.\<close>

fun ask_model ::
  "bridge_env \<Rightarrow> string \<Rightarrow> bridge_payload \<Rightarrow> adapter_call \<Rightarrow> nat \<Rightarrow> nat \<Rightarrow> string
     \<Rightarrow> (string + commit_plan list) \<times> nat" where
  "ask_model be jobId payload call attempt 0 responseError = (Inl responseError, 0)"
| "ask_model be jobId payload call attempt (Suc left) responseError =
     (case be_call be jobId attempt call of
        Inl e \<Rightarrow> (Inl e, 1)
      | Inr llmResponse \<Rightarrow>
          (case parse_commit_job_response be payload llmResponse of
             Inr commits \<Rightarrow> (Inr commits, 1)
           | Inl e \<Rightarrow>
               (case ask_model be jobId payload call (attempt + 1) left e of (r, asked) \<Rightarrow> (r, Suc asked))))"

definition user_prompt :: "bridge_env \<Rightarrow> bridge_payload \<Rightarrow> string" where
  "user_prompt be payload =
     (case payload of
        FixPayload base p \<Rightarrow> be_stringify be (repair_prompt p)
      | PlanPayload base diff (Some fb) \<Rightarrow>
          (if fd_pending_files fb \<noteq> None then format_feedback_block fb (Some diff)
           else diff @ format_feedback_block fb None)
      | PlanPayload base diff None \<Rightarrow> diff
      | CheckpointPayload \<Rightarrow> [])"

definition ask_for ::
  "bridge_env \<Rightarrow> string \<Rightarrow> bridge_payload \<Rightarrow> job_base \<Rightarrow> string \<Rightarrow> (string + commit_plan list) \<times> adapter_call list" where
  "ask_for be jobId payload base systemPrompt =
     (case resolve_auth_token (be_auth be) (jb_provider base) (jb_agent base) of
        Inl e \<Rightarrow> (Inl e, [])
      | Inr token \<Rightarrow>
          (let call = llm_call base token systemPrompt (user_prompt be payload) in
           case ask_model be jobId payload call 0 2 ''LLM returned an invalid response.'' of
             (r, asked) \<Rightarrow> (r, replicate asked call)))"

definition job_commits :: "bridge_env \<Rightarrow> bridge_job \<Rightarrow> (string + commit_plan list) \<times> adapter_call list" where
  "job_commits be job =
     (case be_payload be (bj_prompt job) of
        None \<Rightarrow> (Inl ''SyntaxError'', [])
      | Some CheckpointPayload \<Rightarrow> (Inr [], [])
      | Some (FixPayload base p) \<Rightarrow> ask_for be (bj_id job) (FixPayload base p) base COMMIT_MESSAGE_REPAIR_SYSTEM_PROMPT
      | Some (PlanPayload base diff fb) \<Rightarrow>
          ask_for be (bj_id job) (PlanPayload base diff fb) base (jb_systemPrompt base))"

subsection \<open>One job\<close>

text \<open>The calls made, the result its file holds at the end, and the exception that leaves the job.\<close>

record job_run =
  jo_calls :: "adapter_call list"
  jo_written :: "job_result option"
  jo_thrown :: "string option"

definition fatal_result :: "bridge_env \<Rightarrow> bridge_job \<Rightarrow> string \<Rightarrow> job_result" where
  "fatal_result be job err = \<lparr>jr_id = bj_id job, jr_outcome = Inl (''LLM Fatal Error: '' @ be_sanitize be err)\<rparr>"

definition write_failure :: "bridge_env \<Rightarrow> bridge_job \<Rightarrow> adapter_call list \<Rightarrow> nat \<Rightarrow> string \<Rightarrow> job_run" where
  "write_failure be job calls n err =
     (case be_write be (bj_resultPath job) n of
        None \<Rightarrow> \<lparr>jo_calls = calls, jo_written = Some (fatal_result be job err), jo_thrown = None\<rparr>
      | Some e \<Rightarrow> \<lparr>jo_calls = calls, jo_written = None, jo_thrown = Some e\<rparr>)"

definition process_job :: "bridge_env \<Rightarrow> bridge_job \<Rightarrow> job_run" where
  "process_job be job =
     (case job_commits be job of
        (Inl e, calls) \<Rightarrow> write_failure be job calls 0 e
      | (Inr commits, calls) \<Rightarrow>
          (case be_write be (bj_resultPath job) 0 of
             None \<Rightarrow> \<lparr>jo_calls = calls, jo_written = Some \<lparr>jr_id = bj_id job, jr_outcome = Inr commits\<rparr>, jo_thrown = None\<rparr>
           | Some e \<Rightarrow> write_failure be job calls 1 e))"

subsection \<open>Reading the orchestrator's output\<close>

definition parse_serialized_value :: "bridge_env \<Rightarrow> string \<Rightarrow> string" where
  "parse_serialized_value be val =
     (if val \<noteq> [] \<and> hd val = CHR 0x22 \<and> last val = CHR 0x22
      then (case be_parse be val of Some (JString s) \<Rightarrow> s | _ \<Rightarrow> butlast (tl val))
      else val)"

text \<open>\<open>/^name: (.*)$/\<close>; the dot matches no line terminator.\<close>

definition match_line :: "string \<Rightarrow> string \<Rightarrow> string option" where
  "match_line name line =
     (if starts_with (name @ '': '') line \<and> \<not> list_ex is_line_terminator (drop (length name + 2) line)
      then Some (drop (length name + 2) line) else None)"

record block_reader =
  bk_inBlock :: bool
  bk_lines :: "string list"
  bk_manifest :: "string option"
  bk_resume :: "string option"

definition read_block_line :: "bridge_env \<Rightarrow> string \<Rightarrow> block_reader \<Rightarrow> block_reader" where
  "read_block_line be bl k =
     (let k1 = (case match_line ''manifest'' bl of None \<Rightarrow> k
               | Some v \<Rightarrow> k\<lparr>bk_manifest := Some (parse_serialized_value be v)\<rparr>)
      in (case match_line ''resume_cmd'' bl of None \<Rightarrow> k1
         | Some v \<Rightarrow> k1\<lparr>bk_resume := Some (parse_serialized_value be v)\<rparr>))"

definition end_block :: "bridge_env \<Rightarrow> block_reader \<Rightarrow> block_reader" where
  "end_block be k = (fold (read_block_line be) (bk_lines k) (k\<lparr>bk_inBlock := False\<rparr>))\<lparr>bk_lines := []\<rparr>"

text \<open>\<open>clears\<close>: \<open>extractTurnlockBlocks\<close> forgets the lines of a block that a new one interrupts, the reader of
  \<open>main\<close> keeps them.\<close>

definition read_line :: "bool \<Rightarrow> bridge_env \<Rightarrow> string \<Rightarrow> block_reader \<Rightarrow> block_reader" where
  "read_line clears be line k =
     (if trim line = ''@@TURNLOCK@@''
      then k\<lparr>bk_inBlock := True, bk_lines := if clears then [] else bk_lines k\<rparr>
      else if trim line = ''@@END@@'' then end_block be k
      else if bk_inBlock k then k\<lparr>bk_lines := bk_lines k @ [line]\<rparr> else k)"

definition no_blocks :: block_reader where
  "no_blocks = \<lparr>bk_inBlock = False, bk_lines = [], bk_manifest = None, bk_resume = None\<rparr>"

definition extract_turnlock_blocks :: "bridge_env \<Rightarrow> string \<Rightarrow> string option \<times> string option" where
  "extract_turnlock_blocks be output =
     (let k = fold (read_line True be) (split_on (CHR 0x0A) output) no_blocks in (bk_manifest k, bk_resume k))"

definition read_main_input :: "bridge_env \<Rightarrow> string list \<Rightarrow> string option \<times> string option" where
  "read_main_input be inputLines =
     (let k = fold (read_line False be) inputLines no_blocks in (bk_manifest k, bk_resume k))"

subsection \<open>The manifest\<close>

record batch_manifest =
  mf_runId :: string
  mf_label :: string
  mf_jobs :: "bridge_job list"

definition AUTHORIZED_WORKER_NAME :: string where "AUTHORIZED_WORKER_NAME = ''git-commit-generator''"

definition non_empty_text :: "string schema" where
  "non_empty_text = z_refine (\<lambda>s. s \<noteq> []) z_string"

text \<open>A number that is not an integer carries no value in the model: what is known of it is a parameter.\<close>

definition z_number_with :: "(int \<Rightarrow> bool) \<Rightarrow> bool \<Rightarrow> js_value \<Rightarrow> bool" where
  "z_number_with P fraction v \<longleftrightarrow> (case v of JInt i \<Rightarrow> P i | JNonInteger \<Rightarrow> fraction | _ \<Rightarrow> False)"

definition batch_job_schema :: "bridge_job schema" where
  "batch_job_schema v =
     (if \<not> z_strict [''id'', ''prompt'', ''resultPath''] v then None else
      z_field ''id'' non_empty_text v (\<lambda>i.
      z_field ''prompt'' z_string v (\<lambda>p.
      z_field ''resultPath'' non_empty_text v (\<lambda>r.
        Some \<lparr>bj_id = i, bj_prompt = p, bj_resultPath = r\<rparr>))))"

definition COMMON_MANIFEST_KEYS :: "string list" where
  "COMMON_MANIFEST_KEYS = [''runId'', ''orchestratorName'', ''phase'', ''resumeAt'', ''label'', ''kind'', ''emittedAt'',
     ''emittedAtEpochMs'', ''timeoutMs'', ''deadlineAtEpochMs'', ''attempt'', ''maxAttempts'', ''jobs'', ''manifestVersion'']"

record fraction_env =
  fe_finite :: "string \<Rightarrow> bool"
  fe_positive :: "string \<Rightarrow> bool"

definition common_manifest_shape :: "fraction_env \<Rightarrow> batch_manifest schema" where
  "common_manifest_shape fr v =
     (if get_prop v ''kind'' \<noteq> JString ''batch''
         \<or> \<not> z_number_with (\<lambda>_. True) (fe_finite fr ''emittedAtEpochMs'') (get_prop v ''emittedAtEpochMs'')
         \<or> \<not> z_number_with (\<lambda>i. 0 < i) (fe_positive fr ''timeoutMs'') (get_prop v ''timeoutMs'')
         \<or> \<not> z_number_with (\<lambda>_. True) (fe_finite fr ''deadlineAtEpochMs'') (get_prop v ''deadlineAtEpochMs'')
         \<or> \<not> z_number_with (\<lambda>i. 0 \<le> i) False (get_prop v ''attempt'')
         \<or> \<not> z_number_with (\<lambda>i. 0 < i) False (get_prop v ''maxAttempts'')
         \<or> list_ex (\<lambda>name. non_empty_text (get_prop v name) = None) [''orchestratorName'', ''phase'', ''resumeAt'', ''emittedAt'']
      then None else
      z_field ''runId'' non_empty_text v (\<lambda>runId.
      z_field ''label'' non_empty_text v (\<lambda>label.
      z_field ''jobs'' (z_refine (\<lambda>js. js \<noteq> []) (z_array batch_job_schema)) v (\<lambda>jobs.
        Some \<lparr>mf_runId = runId, mf_label = label, mf_jobs = jobs\<rparr>))))"

definition authorized_v2 :: "js_value \<Rightarrow> bool" where
  "authorized_v2 v \<longleftrightarrow> z_strict (''worker'' # COMMON_MANIFEST_KEYS) v \<and> get_prop v ''worker'' = JString AUTHORIZED_WORKER_NAME"

definition authorized_v3 :: "js_value \<Rightarrow> bool" where
  "authorized_v3 v \<longleftrightarrow> z_strict ([''target'', ''targetCompatibility''] @ COMMON_MANIFEST_KEYS) v \<and>
     (let target = get_prop v ''target'' in
      z_strict [''kind'', ''name''] target \<and> get_prop target ''kind'' = JString ''worker'' \<and>
      get_prop target ''name'' = JString AUTHORIZED_WORKER_NAME) \<and>
     get_prop v ''targetCompatibility'' \<in> {JUndefined, JString ''legacy-v2''}"

definition supported_manifest_schema :: "fraction_env \<Rightarrow> batch_manifest schema" where
  "supported_manifest_schema fr v =
     (if get_prop v ''manifestVersion'' = JInt 2 \<and> authorized_v2 v
         \<or> get_prop v ''manifestVersion'' = JInt 3 \<and> authorized_v3 v
      then common_manifest_shape fr v else None)"

definition parse_turnlock_batch_manifest :: "bridge_env \<Rightarrow> fraction_env \<Rightarrow> string \<Rightarrow> string + batch_manifest" where
  "parse_turnlock_batch_manifest be fr content =
     (case be_parse be content of
        None \<Rightarrow> Inl ''Turnlock delegation manifest is not valid JSON''
      | Some v \<Rightarrow>
          (case supported_manifest_schema fr v of
             None \<Rightarrow> Inl ''Turnlock delegation manifest is not an authorized v2/v3 batch manifest''
           | Some m \<Rightarrow> Inr m))"

subsection \<open>Resuming the orchestrator\<close>

definition is_compiled_javascript_module :: "string \<Rightarrow> bool" where
  "is_compiled_javascript_module modulePath \<longleftrightarrow> posix_extname modulePath \<in> {''.js'', ''.mjs''}"

definition serialize_shell_argument :: "string \<Rightarrow> string" where
  "serialize_shell_argument s = json_string s"

record process_launch =
  pl_command :: string
  pl_args :: "string list"
  pl_cwd :: string

definition build_resume_launch :: "string \<Rightarrow> string \<Rightarrow> string \<Rightarrow> process_launch" where
  "build_resume_launch runId orchestratorPath executablePath =
     \<lparr>pl_command = executablePath, pl_args = [orchestratorPath, ''--run-id'', runId, ''--resume''],
      pl_cwd = path_resolve (posix_dirname orchestratorPath) ''../..''\<rparr>"

definition build_resume_command :: "string \<Rightarrow> string \<Rightarrow> string \<Rightarrow> string \<Rightarrow> string" where
  "build_resume_command runId orchestratorPath executablePath execPath =
     join '' '' (map serialize_shell_argument
       (if \<not> is_compiled_javascript_module orchestratorPath
        then [if executablePath = execPath then ''node'' else executablePath, ''src/entrypoints/turnlock-orchestrator.ts'',
              ''--run-id'', runId, ''--resume'']
        else let launch = build_resume_launch runId orchestratorPath executablePath in pl_command launch # pl_args launch))"

record spawn_answer =
  sa_stdout :: "string option"
  sa_error :: "string option"
  sa_status :: "int option"
  sa_signal :: "string option"

text \<open>A file URL stands for its path. The answers of \<open>execSync\<close> and \<open>spawnSync\<close> depend on the round.\<close>

record resume_env =
  re_bridgePath :: string
  re_execPath :: string
  re_shell :: "nat \<Rightarrow> string \<Rightarrow> (string \<times> string) + string"
  re_spawn :: "nat \<Rightarrow> process_launch \<Rightarrow> spawn_answer"
  re_file :: "nat \<Rightarrow> string \<Rightarrow> string option"

datatype bridge_event =
    JobDone bridge_job job_run
  | ShellCommand string
  | Spawned process_launch

definition orchestrator_path :: "resume_env \<Rightarrow> string" where
  "orchestrator_path re = path_join (posix_dirname (re_bridgePath re)) ''turnlock-orchestrator.js''"

text \<open>A failure carries its message and the output captured before it.\<close>

definition execute_resume_command ::
  "resume_env \<Rightarrow> nat \<Rightarrow> string \<Rightarrow> string \<Rightarrow> ((string \<times> string) + string) \<times> bridge_event list" where
  "execute_resume_command re round resumeCommand runId =
     (if \<not> is_compiled_javascript_module (re_bridgePath re)
      then (re_shell re round resumeCommand, [ShellCommand resumeCommand])
      else if resumeCommand \<noteq> build_resume_command runId (orchestrator_path re) (re_execPath re) (re_execPath re)
      then (Inl (''Resume command is incompatible with the compiled Node runtime. ''
                 @ ''Close the historical run explicitly and start a fresh run.'', []), [])
      else let launch = build_resume_launch runId (orchestrator_path re) (re_execPath re);
               result = re_spawn re round launch; stdout = nullish (sa_stdout result) []
      in (case sa_error result of
            Some e \<Rightarrow> Inl (''Compiled resume failed to start: '' @ e, stdout)
          | None \<Rightarrow>
              if sa_status result = Some 0 then Inr stdout
              else Inl (''Compiled resume failed with '' @
                     (case sa_status result of
                        None \<Rightarrow> ''signal '' @ nullish (sa_signal result) ''unknown''
                      | Some n \<Rightarrow> ''exit code '' @ show_int n), stdout),
          [Spawned launch]))"

subsection \<open>Delegations\<close>

datatype delegation_end = DelegationDone | DelegationThrew string | OutOfFuel

definition run_jobs :: "bridge_env \<Rightarrow> bridge_job list \<Rightarrow> bridge_event list" where
  "run_jobs be jobs = map (\<lambda>job. JobDone job (process_job be job)) jobs"

text \<open>\<open>Promise.all\<close> rejects with an exception that left a job.\<close>

definition thrown_of :: "bridge_env \<Rightarrow> bridge_job list \<Rightarrow> string option" where
  "thrown_of be jobs = (case List.map_filter (\<lambda>job. jo_thrown (process_job be job)) jobs of [] \<Rightarrow> None | e # _ \<Rightarrow> Some e)"

text \<open>Each round may see another world: its answers depend on the round.\<close>

fun handle_turnlock_delegation ::
  "(nat \<Rightarrow> bridge_env) \<Rightarrow> fraction_env \<Rightarrow> resume_env \<Rightarrow> nat \<Rightarrow> nat \<Rightarrow> string \<Rightarrow> string \<Rightarrow> delegation_end \<times> bridge_event list"
where
  "handle_turnlock_delegation be fr re 0 round manifestPath resumeCmd = (OutOfFuel, [])"
| "handle_turnlock_delegation be fr re (Suc fuel) round manifestPath resumeCmd =
     (case re_file re round manifestPath of
        None \<Rightarrow> (DelegationThrew (''Manifest file not found at '' @ manifestPath), [])
      | Some content \<Rightarrow>
          (case parse_turnlock_batch_manifest (be round) fr content of
             Inl e \<Rightarrow> (DelegationThrew e, [])
           | Inr manifest \<Rightarrow>
               let jobEvents = run_jobs (be round) (mf_jobs manifest) in
               (case thrown_of (be round) (mf_jobs manifest) of
                  Some e \<Rightarrow> (DelegationThrew e, jobEvents)
                | None \<Rightarrow>
                    (case execute_resume_command re round resumeCmd (mf_runId manifest) of
                       (Inl (e, _), events) \<Rightarrow> (DelegationThrew e, jobEvents @ events)
                     | (Inr output, events) \<Rightarrow>
                         (case extract_turnlock_blocks (be round) output of
                            (Some nextManifest, Some nextResume) \<Rightarrow>
                              if nextManifest \<noteq> [] \<and> nextResume \<noteq> [] then
                                (case handle_turnlock_delegation be fr re fuel (round + 1) nextManifest nextResume of
                                   (r, later) \<Rightarrow> (r, jobEvents @ events @ later))
                              else (DelegationDone, jobEvents @ events)
                          | _ \<Rightarrow> (DelegationDone, jobEvents @ events))))))"

text \<open>\<open>main\<close>, at the end of its input: the exit code, \<^const>\<open>None\<close> when the fuel ran out.\<close>

definition bridge_main ::
  "(nat \<Rightarrow> bridge_env) \<Rightarrow> fraction_env \<Rightarrow> resume_env \<Rightarrow> nat \<Rightarrow> string list \<Rightarrow> nat option \<times> bridge_event list" where
  "bridge_main be fr re fuel inputLines =
     (case read_main_input (be 0) inputLines of
        (Some manifestPath, Some resumeCmd) \<Rightarrow>
          if manifestPath \<noteq> [] \<and> resumeCmd \<noteq> [] then
            (case handle_turnlock_delegation be fr re fuel 0 manifestPath resumeCmd of
               (DelegationDone, events) \<Rightarrow> (Some 0, events)
             | (DelegationThrew _, events) \<Rightarrow> (Some 1, events)
             | (OutOfFuel, events) \<Rightarrow> (None, events))
          else (Some 0, [])
      | _ \<Rightarrow> (Some 0, []))"

subsection \<open>What a job leaves behind\<close>

text \<open>The calls of a job are one call repeated; all but the last one got a response that does not fit the job.\<close>

definition justified_calls :: "bridge_env \<Rightarrow> bridge_job \<Rightarrow> adapter_call list \<Rightarrow> bool" where
  "justified_calls be job calls \<longleftrightarrow> length calls \<le> 2 \<and>
     (\<forall>k. Suc k < length calls \<longrightarrow> calls ! Suc k = calls ! k \<and>
       (\<exists>payload response e. be_payload be (bj_prompt job) = Some payload \<and>
          be_call be (bj_id job) k (calls ! k) = Inr response \<and> parse_commit_job_response be payload response = Inl e))"

text \<open>Commits come from the last response, or are the empty list that acknowledges a checkpoint.\<close>

definition justified_commits :: "bridge_env \<Rightarrow> bridge_job \<Rightarrow> adapter_call list \<Rightarrow> commit_plan list \<Rightarrow> bool" where
  "justified_commits be job calls commits \<longleftrightarrow>
     be_payload be (bj_prompt job) = Some CheckpointPayload \<and> commits = [] \<and> calls = [] \<or>
     (\<exists>payload response. be_payload be (bj_prompt job) = Some payload \<and> calls \<noteq> [] \<and>
        be_call be (bj_id job) (length calls - 1) (last calls) = Inr response \<and>
        parse_commit_job_response be payload response = Inr commits)"

text \<open>A job fails when its prompt holds no payload or its credentials cannot be resolved, when the provider failed, when the
  second response did not fit either, or when the commits could not be written.\<close>

definition justified_failure :: "bridge_env \<Rightarrow> bridge_job \<Rightarrow> adapter_call list \<Rightarrow> bool" where
  "justified_failure be job calls \<longleftrightarrow>
     calls = [] \<and> (be_payload be (bj_prompt job) = None \<or>
       (\<exists>base e. (\<exists>p diff fb. be_payload be (bj_prompt job) \<in> {Some (FixPayload base p), Some (PlanPayload base diff fb)}) \<and>
          resolve_auth_token (be_auth be) (jb_provider base) (jb_agent base) = Inl e)) \<or>
     calls \<noteq> [] \<and> (\<exists>e. be_call be (bj_id job) (length calls - 1) (last calls) = Inl e) \<or>
     length calls = 2 \<and> (\<exists>payload response e. be_payload be (bj_prompt job) = Some payload \<and>
       be_call be (bj_id job) 1 (last calls) = Inr response \<and> parse_commit_job_response be payload response = Inl e) \<or>
     be_write be (bj_resultPath job) 0 \<noteq> None"

lemma asked_in_vain:
  assumes "ask_model be i p call a n e0 = (Inl err, asked)"
  shows "0 < asked \<and> (\<exists>e. be_call be i (a + (asked - 1)) call = Inl e) \<or>
    asked = n \<and> (0 < n \<longrightarrow> (\<exists>response e. be_call be i (a + (asked - 1)) call = Inr response \<and>
      parse_commit_job_response be p response = Inl e))"
  using assms
proof (induction n arbitrary: a e0 asked)
  case 0
  then show ?case by auto
next
  case (Suc n)
  show ?case
  proof (cases "be_call be i a call")
    case (Inl e)
    with Suc.prems show ?thesis by auto
  next
    case response: (Inr response)
    show ?thesis
    proof (cases "parse_commit_job_response be p response")
      case (Inr commits)
      with Suc.prems response show ?thesis by auto
    next
      case invalid: (Inl e)
      obtain later where later: "ask_model be i p call (Suc a) n e = (Inl err, later)" "asked = Suc later"
        using Suc.prems response invalid by (auto split: prod.splits)
      show ?thesis using Suc.IH[OF later(1)] later(2) response invalid by (cases later) auto
    qed
  qed
qed

lemma asked_model:
  assumes "ask_model be i p call a n e0 = (r, asked)"
  shows "asked \<le> n"
    and "Suc k < asked \<Longrightarrow> \<exists>response e. be_call be i (a + k) call = Inr response \<and> parse_commit_job_response be p response = Inl e"
    and "r = Inr commits \<Longrightarrow> 0 < asked \<and> (\<exists>response. be_call be i (a + (asked - 1)) call = Inr response \<and>
           parse_commit_job_response be p response = Inr commits)"
proof -
  have "asked \<le> n \<and>
    (\<forall>k. Suc k < asked \<longrightarrow> (\<exists>response e. be_call be i (a + k) call = Inr response \<and> parse_commit_job_response be p response = Inl e)) \<and>
    (\<forall>commits. r = Inr commits \<longrightarrow> 0 < asked \<and> (\<exists>response. be_call be i (a + (asked - 1)) call = Inr response \<and>
           parse_commit_job_response be p response = Inr commits))"
    using assms
  proof (induction n arbitrary: a e0 r asked)
    case 0
    then show ?case by auto
  next
    case (Suc n)
    show ?case
    proof (cases "be_call be i a call")
      case (Inl e)
      with Suc.prems show ?thesis by auto
    next
      case response: (Inr response)
      show ?thesis
      proof (cases "parse_commit_job_response be p response")
        case (Inr commits)
        with Suc.prems response show ?thesis by auto
      next
        case invalid: (Inl e)
        obtain later where later: "ask_model be i p call (Suc a) n e = (r, later)" "asked = Suc later"
          using Suc.prems response invalid by (auto split: prod.splits)
        note IH = Suc.IH[OF later(1)]
        have "\<exists>response e. be_call be i (a + k) call = Inr response \<and> parse_commit_job_response be p response = Inl e"
          if "Suc k < asked" for k
          using IH that later(2) response invalid by (cases k) auto
        then show ?thesis using IH later(2) by auto
      qed
    qed
  qed
  then show "asked \<le> n"
    and "Suc k < asked \<Longrightarrow> \<exists>response e. be_call be i (a + k) call = Inr response \<and> parse_commit_job_response be p response = Inl e"
    and "r = Inr commits \<Longrightarrow> 0 < asked \<and> (\<exists>response. be_call be i (a + (asked - 1)) call = Inr response \<and>
           parse_commit_job_response be p response = Inr commits)" by blast+
qed

lemma asked_for:
  assumes "ask_for be (bj_id job) payload base prompt = (r, calls)" and "be_payload be (bj_prompt job) = Some payload"
    and "(\<exists>p. payload = FixPayload base p) \<or> (\<exists>diff fb. payload = PlanPayload base diff fb)"
  shows "justified_calls be job calls \<and>
    (case r of Inr commits \<Rightarrow> justified_commits be job calls commits | Inl e \<Rightarrow> justified_failure be job calls)"
proof (cases "resolve_auth_token (be_auth be) (jb_provider base) (jb_agent base)")
  case (Inl e)
  have "justified_failure be job []" unfolding justified_failure_def using assms(2,3) Inl by blast
  with Inl assms(1) show ?thesis by (auto simp: ask_for_def justified_calls_def)
next
  case (Inr token)
  define call where "call = llm_call base token prompt (user_prompt be payload)"
  obtain asked where asked: "ask_model be (bj_id job) payload call 0 2 ''LLM returned an invalid response.'' = (r, asked)"
    and calls: "calls = replicate asked call"
    using assms(1) Inr by (auto simp: ask_for_def call_def Let_def split: prod.splits)
  note facts = asked_model[OF asked]
  have "justified_calls be job calls"
    using facts(1,2) assms(2) by (auto simp: justified_calls_def calls)
  moreover have "justified_commits be job calls commits" if "r = Inr commits" for commits
    using facts(3)[OF that] assms(2) by (auto simp: justified_commits_def calls)
  moreover have "justified_failure be job calls" if "r = Inl e" for e
    using asked_in_vain[OF asked[unfolded that]] assms(2) by (auto simp: justified_failure_def calls last_replicate)
  ultimately show ?thesis by (auto split: sum.splits)
qed

lemma commits_of_job:
  assumes "job_commits be job = (r, calls)"
  shows "justified_calls be job calls \<and>
    (case r of Inr commits \<Rightarrow> justified_commits be job calls commits | Inl e \<Rightarrow> justified_failure be job calls)"
proof (cases "be_payload be (bj_prompt job)")
  case None
  with assms show ?thesis by (auto simp: job_commits_def justified_calls_def justified_failure_def)
next
  case (Some payload)
  show ?thesis
  proof (cases payload)
    case CheckpointPayload
    with assms Some show ?thesis by (auto simp: job_commits_def justified_calls_def justified_commits_def)
  next
    case (PlanPayload base diff fb)
    with assms Some show ?thesis by (intro asked_for[where payload = payload and base = base]) (auto simp: job_commits_def)
  next
    case (FixPayload base p)
    with assms Some show ?thesis by (intro asked_for[where payload = payload and base = base]) (auto simp: job_commits_def)
  qed
qed

lemma failure_written:
  "jo_calls (write_failure be job calls n err) = calls"
  "jo_thrown (write_failure be job calls n err) = be_write be (bj_resultPath job) n"
  "jo_written (write_failure be job calls n err) =
     (if be_write be (bj_resultPath job) n = None then Some (fatal_result be job err) else None)"
  by (auto simp: write_failure_def split: option.splits)

text \<open>C16. Every job gets exactly one final result. The model is asked at most twice for a job, the second time with
  the same call and only because the first response did not fit the job. Unless an exception leaves the job, which
  takes a failed write of its result file, the file holds a result with the job's own id that the orchestrator's result
  schema accepts: commits that the last response justifies (none, for an acknowledged checkpoint), or an error that
  carries the prefix by which the orchestrator recognises a failure of the bridge, and then there was a reason: no
  payload or credentials, a failed call, two responses that do not fit, or commits that could not be written.\<close>

theorem every_job_gets_a_result:
  "let run = process_job be job in
     justified_calls be job (jo_calls run) \<and>
     (case jo_thrown run of
        Some e \<Rightarrow> jo_written run = None \<and> (\<exists>n. be_write be (bj_resultPath job) n = Some e)
      | None \<Rightarrow> (\<exists>r. jo_written run = Some r \<and> jr_id r = bj_id job \<and> commit_job_result_schema (result_json r) = Some r \<and>
          (case jr_outcome r of
             Inl e \<Rightarrow> starts_with LLM_BRIDGE_ERROR_PREFIX e \<and> justified_failure be job (jo_calls run)
           | Inr commits \<Rightarrow> justified_commits be job (jo_calls run) commits)))"
proof -
  obtain r calls where job: "job_commits be job = (r, calls)" by (metis surj_pair)
  have fatal: "jr_id (fatal_result be job err) = bj_id job"
    "\<exists>e. jr_outcome (fatal_result be job err) = Inl e \<and> starts_with LLM_BRIDGE_ERROR_PREFIX e" for err
    by (simp_all add: fatal_result_def LLM_BRIDGE_ERROR_PREFIX_def starts_with_def)
  show ?thesis
  proof (cases r)
    case (Inl e)
    have "process_job be job = write_failure be job calls 0 e" using job Inl by (simp add: process_job_def)
    then show ?thesis
      using commits_of_job[OF job] fatal[of e] Inl
      by (auto simp: failure_written result_back Let_def split: option.splits)
  next
    case commits: (Inr commits)
    show ?thesis
    proof (cases "be_write be (bj_resultPath job) 0")
      case None
      then have "process_job be job = \<lparr>jo_calls = calls, jo_written = Some \<lparr>jr_id = bj_id job, jr_outcome = Inr commits\<rparr>, jo_thrown = None\<rparr>"
        using job commits by (simp add: process_job_def)
      then show ?thesis using commits_of_job[OF job] commits by (simp add: result_back)
    next
      case (Some e)
      then have "process_job be job = write_failure be job calls 1 e" using job commits by (simp add: process_job_def)
      moreover have "justified_failure be job calls" using Some by (simp add: justified_failure_def)
      ultimately show ?thesis
        using commits_of_job[OF job] fatal[of e]
        by (auto simp: failure_written result_back Let_def split: option.splits)
    qed
  qed
qed

subsection \<open>Resuming\<close>

text \<open>What a batch of the compiled bridge does before it starts the orchestrator again: it read an authorized manifest,
  every job of it has its result, and the launch is the one for the run of the manifest.\<close>

definition settled_resume ::
  "(nat \<Rightarrow> bridge_env) \<Rightarrow> fraction_env \<Rightarrow> resume_env \<Rightarrow> bridge_event list \<Rightarrow> process_launch \<Rightarrow> bool" where
  "settled_resume be fr re earlier launch \<longleftrightarrow>
     (\<exists>k path content manifest before.
        re_file re k path = Some content \<and> parse_turnlock_batch_manifest (be k) fr content = Inr manifest \<and>
        earlier = before @ run_jobs (be k) (mf_jobs manifest) \<and>
        (\<forall>job \<in> set (mf_jobs manifest). jo_written (process_job (be k) job) \<noteq> None) \<and>
        launch = build_resume_launch (mf_runId manifest) (orchestrator_path re) (re_execPath re))"

lemma thrown_of_None: "thrown_of be jobs = None \<longleftrightarrow> (\<forall>job \<in> set jobs. jo_thrown (process_job be job) = None)"
  by (induction jobs) (auto simp: thrown_of_def List.map_filter_def split: list.splits)

lemma written_unless_thrown: "jo_thrown (process_job be job) = None \<Longrightarrow> jo_written (process_job be job) \<noteq> None"
  by (auto simp: process_job_def failure_written split: prod.splits sum.splits option.splits)

lemma run_jobs_events: "Spawned l \<notin> set (run_jobs be jobs)" "ShellCommand c \<notin> set (run_jobs be jobs)"
  by (auto simp: run_jobs_def)

lemma split_later:
  assumes "xs @ a # ys = us @ vs" and "a \<notin> set us"
  obtains ws where "xs = us @ ws" and "ws @ a # ys = vs"
  using assms by (auto simp: append_eq_append_conv2 Cons_eq_append_conv)

lemma compiled_resume:
  assumes "is_compiled_javascript_module (re_bridgePath re)" and "execute_resume_command re round cmd runId = (r, events)"
  shows "events = [] \<and> (\<exists>e. r = Inl e) \<or>
    events = [Spawned (build_resume_launch runId (orchestrator_path re) (re_execPath re))] \<and>
    cmd = build_resume_command runId (orchestrator_path re) (re_execPath re) (re_execPath re)"
  using assms by (auto simp: execute_resume_command_def Let_def split: if_splits)

text \<open>The worker a manifest names, by its version.\<close>

definition names_commit_generator :: "js_value \<Rightarrow> bool" where
  "names_commit_generator v \<longleftrightarrow>
     (if get_prop v ''manifestVersion'' = JInt 2 then get_prop v ''worker''
      else get_prop (get_prop v ''target'') ''name'') = JString AUTHORIZED_WORKER_NAME"

lemma accepted_manifest:
  assumes "parse_turnlock_batch_manifest be fr content = Inr manifest"
  shows "\<exists>v. be_parse be content = Some v \<and> names_commit_generator v \<and> common_manifest_shape fr v = Some manifest"
  using assms
  by (auto simp: parse_turnlock_batch_manifest_def supported_manifest_schema_def names_commit_generator_def
      authorized_v2_def authorized_v3_def Let_def split: option.splits if_splits)

text \<open>A job that ran belongs to an authorized manifest.\<close>

definition authorized_job ::
  "(nat \<Rightarrow> bridge_env) \<Rightarrow> fraction_env \<Rightarrow> resume_env \<Rightarrow> bridge_job \<Rightarrow> job_run \<Rightarrow> bool" where
  "authorized_job be fr re job run \<longleftrightarrow>
     (\<exists>k path content manifest. re_file re k path = Some content \<and>
        parse_turnlock_batch_manifest (be k) fr content = Inr manifest \<and>
        (\<exists>v. be_parse (be k) content = Some v \<and> names_commit_generator v) \<and>
        job \<in> set (mf_jobs manifest) \<and> run = process_job (be k) job)"

lemma authorized_jobs:
  assumes "re_file re k path = Some content" and "parse_turnlock_batch_manifest (be k) fr content = Inr manifest"
    and "JobDone job run \<in> set (run_jobs (be k) (mf_jobs manifest))"
  shows "authorized_job be fr re job run"
  unfolding authorized_job_def
  by (intro exI[of _ k] exI[of _ path] exI[of _ content] exI[of _ manifest])
     (use assms accepted_manifest[OF assms(2)] in \<open>auto simp: run_jobs_def\<close>)

text \<open>The batches of a compiled bridge: nothing ran, the last batch was not resumed, or a batch was settled and the
  orchestrator started again.\<close>

inductive batch_trace ::
  "(nat \<Rightarrow> bridge_env) \<Rightarrow> fraction_env \<Rightarrow> resume_env \<Rightarrow> nat \<Rightarrow> bridge_event list \<Rightarrow> bool"
  for be fr re where
  nothing: "batch_trace be fr re round []"
| not_resumed: "re_file re round path = Some content \<Longrightarrow> parse_turnlock_batch_manifest (be round) fr content = Inr manifest \<Longrightarrow>
    batch_trace be fr re round (run_jobs (be round) (mf_jobs manifest))"
| resumed: "re_file re round path = Some content \<Longrightarrow> parse_turnlock_batch_manifest (be round) fr content = Inr manifest \<Longrightarrow>
    (\<And>job. job \<in> set (mf_jobs manifest) \<Longrightarrow> jo_written (process_job (be round) job) \<noteq> None) \<Longrightarrow>
    batch_trace be fr re (Suc round) later \<Longrightarrow>
    batch_trace be fr re round (run_jobs (be round) (mf_jobs manifest) @
      Spawned (build_resume_launch (mf_runId manifest) (orchestrator_path re) (re_execPath re)) # later)"

lemma delegation_batches:
  assumes "is_compiled_javascript_module (re_bridgePath re)"
  shows "batch_trace be fr re round (snd (handle_turnlock_delegation be fr re fuel round path cmd))"
proof (induction fuel arbitrary: round path cmd)
  case 0
  show ?case by (simp add: batch_trace.nothing)
next
  case (Suc fuel)
  show ?case
  proof (cases "re_file re round path")
    case None
    then show ?thesis by (simp add: batch_trace.nothing)
  next
    case content: (Some content)
    show ?thesis
    proof (cases "parse_turnlock_batch_manifest (be round) fr content")
      case (Inl e)
      with content show ?thesis by (simp add: batch_trace.nothing)
    next
      case manifest: (Inr manifest)
      let ?jobs = "run_jobs (be round) (mf_jobs manifest)"
      let ?launch = "Spawned (build_resume_launch (mf_runId manifest) (orchestrator_path re) (re_execPath re))"
      have last_batch: "batch_trace be fr re round ?jobs"
        by (rule batch_trace.not_resumed) (rule content manifest)+
      show ?thesis
      proof (cases "thrown_of (be round) (mf_jobs manifest)")
        case (Some e)
        with content manifest show ?thesis by (simp add: Let_def last_batch)
      next
        case None
        have next_batch: "batch_trace be fr re round (?jobs @ ?launch # later)" if "batch_trace be fr re (Suc round) later" for later
          using that None by (intro batch_trace.resumed[where be = be, OF content manifest]) (simp_all add: thrown_of_None written_unless_thrown)
        obtain answer events where run: "execute_resume_command re round cmd (mf_runId manifest) = (answer, events)"
          by (metis surj_pair)
        show ?thesis
        proof (cases "events = []")
          case True
          with compiled_resume[OF assms run] obtain e where "answer = Inl e" by auto
          with content manifest None run True show ?thesis
            by (cases e) (simp add: Let_def last_batch)
        next
          case False
          with compiled_resume[OF assms run] have "events = [?launch]" by blast
          with content manifest None run next_batch batch_trace.nothing Suc.IH show ?thesis
            by (simp add: Let_def case_prod_beta split: sum.splits option.splits prod.splits)
        qed
      qed
    qed
  qed
qed

lemma settled_resume_later: "settled_resume be fr re earlier l \<Longrightarrow> settled_resume be fr re (before @ earlier) l"
  unfolding settled_resume_def by (metis append.assoc)

text \<open>C17. A compiled bridge never runs a shell command, and whatever its orchestrator prints, it starts only the
  orchestrator that lies beside it, for the run of a manifest that it read and that authorizes the commit generator,
  and only right after every job of that manifest got its result. The jobs it asks a model for are those of such
  manifests.\<close>

theorem compiled_bridge_resumes_settled_batches:
  assumes "handle_turnlock_delegation be fr re fuel round path cmd = (r, events)"
    and "is_compiled_javascript_module (re_bridgePath re)"
  shows "(\<forall>c. ShellCommand c \<notin> set events) \<and>
    (\<forall>job run. JobDone job run \<in> set events \<longrightarrow> authorized_job be fr re job run) \<and>
    (\<forall>earlier launch later. events = earlier @ Spawned launch # later \<longrightarrow> settled_resume be fr re earlier launch)"
proof -
  have "batch_trace be fr re round events" using delegation_batches[OF assms(2)] assms(1) by (metis snd_conv)
  then show ?thesis
  proof induction
    case (nothing round)
    show ?case by simp
  next
    case (not_resumed round path content manifest)
    then show ?case using run_jobs_events authorized_jobs by (metis in_set_conv_decomp)
  next
    case (resumed round path content manifest rest)
    let ?jobs = "run_jobs (be round) (mf_jobs manifest)"
    let ?launch = "build_resume_launch (mf_runId manifest) (orchestrator_path re) (re_execPath re)"
    have own: "settled_resume be fr re ?jobs ?launch"
      unfolding settled_resume_def
      by (intro exI[of _ round] exI[of _ path] exI[of _ content] exI[of _ manifest] exI[of _ "[]"])
         (simp add: resumed(1-3))
    have "settled_resume be fr re earlier launch" if at: "?jobs @ Spawned ?launch # rest = earlier @ Spawned launch # later"
      for earlier launch later
    proof -
      obtain ws where ws: "earlier = ?jobs @ ws" "ws @ Spawned launch # later = Spawned ?launch # rest"
        using split_later[OF at[symmetric] run_jobs_events(1)] .
      show ?thesis
      proof (cases ws)
        case Nil
        with ws own show ?thesis by simp
      next
        case (Cons e ws')
        then have "settled_resume be fr re ws' launch" using ws(2) resumed.IH by auto
        then show ?thesis
          using settled_resume_later[of be fr re ws' launch "?jobs @ [e]"] ws(1) Cons by simp
      qed
    qed
    moreover have "ShellCommand c \<notin> set (?jobs @ Spawned ?launch # rest)" for c
      using resumed.IH run_jobs_events by simp
    moreover have "authorized_job be fr re job run" if "JobDone job run \<in> set (?jobs @ Spawned ?launch # rest)" for job run
      using that resumed.IH authorized_jobs[of re round path content be fr manifest job run] resumed(1,2) by auto
    ultimately show ?case by blast
  qed
qed

subsection \<open>The two readers of blocks\<close>

text \<open>No block begins before the one before it ended.\<close>

fun uninterrupted :: "bool \<Rightarrow> string list \<Rightarrow> bool" where
  "uninterrupted inBlock [] = True"
| "uninterrupted inBlock (line # rest) =
     (if trim line = ''@@TURNLOCK@@'' then \<not> inBlock \<and> uninterrupted True rest
      else if trim line = ''@@END@@'' then uninterrupted False rest
      else uninterrupted inBlock rest)"

lemma end_block_fields:
  "bk_inBlock (fold (read_block_line be) lines k) = bk_inBlock k" "bk_lines (fold (read_block_line be) lines k) = bk_lines k"
  by (induction lines arbitrary: k) (auto simp: read_block_line_def Let_def split: option.splits)

lemma readers_agree_from:
  assumes "uninterrupted (bk_inBlock k) lines" and "bk_inBlock k \<or> bk_lines k = []"
  shows "fold (read_line True be) lines k = fold (read_line False be) lines k"
  using assms
proof (induction lines arbitrary: k)
  case (Cons line rest)
  have same: "read_line True be line k = read_line False be line k"
    using Cons.prems by (auto simp: read_line_def split: if_splits)
  have "uninterrupted (bk_inBlock (read_line False be line k)) rest"
    using Cons.prems(1) by (auto simp: read_line_def end_block_def end_block_fields split: if_splits)
  moreover have "bk_inBlock (read_line False be line k) \<or> bk_lines (read_line False be line k) = []"
    using Cons.prems(2) by (auto simp: read_line_def end_block_def end_block_fields)
  ultimately show ?case using Cons.IH same by simp
qed simp

text \<open>The bridge has two readers of delegation blocks, one for its standard input and one for what a resumed
  orchestrator printed. They find the same manifest and the same resume command in every output whose blocks do not
  interrupt each other.\<close>

theorem block_readers_agree:
  assumes "uninterrupted False (split_on (CHR 0x0A) text)"
  shows "extract_turnlock_blocks be text = read_main_input be (split_on (CHR 0x0A) text)"
  using readers_agree_from[of no_blocks "split_on (CHR 0x0A) text" be] assms
  by (simp add: extract_turnlock_blocks_def read_main_input_def no_blocks_def Let_def)

subsection \<open>A concrete delegation\<close>

definition sample_plan_value :: js_value where
  "sample_plan_value = plan_json \<lparr>cp_commit = \<lparr>cm_type = ''fix'', cm_scope = None, cm_description = ''d'', cm_body = None,
     cm_isBreaking = False\<rparr>, cp_files = [''a'']\<rparr>"

definition sample_manifest_value :: js_value where
  "sample_manifest_value = JObject
     [(''runId'', JString ''r1''), (''orchestratorName'', JString ''o''), (''phase'', JString ''p''), (''resumeAt'', JString ''p''),
      (''label'', JString ''l''), (''kind'', JString ''batch''), (''emittedAt'', JString ''t''), (''emittedAtEpochMs'', JInt 1),
      (''timeoutMs'', JInt 1), (''deadlineAtEpochMs'', JInt 2), (''attempt'', JInt 0), (''maxAttempts'', JInt 1),
      (''jobs'', JArray [JObject [(''id'', JString ''j''), (''prompt'', JString ''c''), (''resultPath'', JString ''/r'')]]),
      (''manifestVersion'', JInt 2), (''worker'', JString AUTHORIZED_WORKER_NAME)]"

definition sample_base :: job_base where
  "sample_base = \<lparr>jb_repository = ''r'', jb_diffHash = ''h'', jb_provider = ''deepseek'', jb_model = ''m'',
     jb_temperature = 0, jb_systemPrompt = ''s'', jb_thinking = None, jb_agent = None\<rparr>"

definition sample_bridge :: bridge_env where
  "sample_bridge = \<lparr>be_auth = \<lparr>au_env = \<lambda>_. Some ''k'', au_file = None, au_exec = \<lambda>_. Inl []\<rparr>,
     be_payload = \<lambda>p. Some (if p = ''c'' then CheckpointPayload else PlanPayload sample_base p None),
     be_parse = \<lambda>text. if text = ''manifest'' then Some sample_manifest_value else if text = ''plan''
       then Some (JArray [sample_plan_value]) else None,
     be_stringify = \<lambda>_. [], be_sanitize = \<lambda>e. e, be_call = \<lambda>_ n _. Inr (if n = 0 then ''?'' else ''plan''),
     be_write = \<lambda>_ _. None\<rparr>"

definition sample_resume :: resume_env where
  "sample_resume = \<lparr>re_bridgePath = ''/s/dist/entrypoints/turnlock-to-llm-bridge.js'', re_execPath = ''/node'',
     re_shell = \<lambda>_ _. Inl ([], []), re_spawn = \<lambda>_ _. \<lparr>sa_stdout = Some ''ok'', sa_error = None, sa_status = Some 0, sa_signal = None\<rparr>,
     re_file = \<lambda>_ path. if path = ''/m'' then Some ''manifest'' else None\<rparr>"

definition sample_fractions :: fraction_env where
  "sample_fractions = \<lparr>fe_finite = \<lambda>_. True, fe_positive = \<lambda>_. True\<rparr>"

definition sample_events :: "bridge_event list" where
  "sample_events = [JobDone \<lparr>bj_id = ''j'', bj_prompt = ''c'', bj_resultPath = ''/r''\<rparr>
     \<lparr>jo_calls = [], jo_written = Some \<lparr>jr_id = ''j'', jr_outcome = Inr []\<rparr>, jo_thrown = None\<rparr>]"

definition sample_launch :: process_launch where
  "sample_launch = \<lparr>pl_command = ''/node'',
     pl_args = [''/s/dist/entrypoints/turnlock-orchestrator.js'', ''--run-id'', ''r1'', ''--resume''], pl_cwd = ''/s''\<rparr>"

lemma sample_delegation:
  "handle_turnlock_delegation (\<lambda>_. sample_bridge) sample_fractions sample_resume 1 0 ''/m''
     (build_resume_command ''r1'' (orchestrator_path sample_resume) ''/node'' ''/node'')
   = (DelegationDone, sample_events @ [Spawned sample_launch])"
  by code_simp

theorem compiled_bridge_resumes_settled_batches_witness:
  "settled_resume (\<lambda>_. sample_bridge) sample_fractions sample_resume sample_events sample_launch"
proof -
  have "is_compiled_javascript_module (re_bridgePath sample_resume)" by code_simp
  then show ?thesis using compiled_bridge_resumes_settled_batches[OF sample_delegation] by simp
qed

definition sample_output :: string where
  "sample_output = join NL [''log'', ''@@TURNLOCK@@'', ''manifest: /m'', ''resume_cmd: go'', ''@@END@@'', []]"

theorem block_readers_agree_witness:
  "read_main_input sample_bridge (split_on (CHR 0x0A) sample_output) = (Some ''/m'', Some ''go'')"
proof -
  have "uninterrupted False (split_on (CHR 0x0A) sample_output)" by code_simp
  moreover have "extract_turnlock_blocks sample_bridge sample_output = (Some ''/m'', Some ''go'')" by code_simp
  ultimately show ?thesis using block_readers_agree[of sample_output sample_bridge] by (simp only:)
qed

end
