(* ===== verification/Process_Runner.thy ===== *)
theory Process_Runner
  imports JSON_Text Retry_Policy
begin

text \<open>
  The process runner of \<open>src/packages/node-runtime/src\<close>: \<open>run-process.ts\<close>, \<open>process-tree.ts\<close> and
  \<open>process-contract.ts\<close>. A run is a state machine over the events of the child, its streams, the timers and the abort
  signal, in any order; the operating system's answers to \<open>kill\<close> are parameters. Captured bytes are not decoded.
\<close>

subsection \<open>Requests and results\<close>

datatype output_stream = Stdout | Stderr

datatype termination_reason = ExitReason | SignalReason | TimeoutReason | AbortedReason | OutputLimit

datatype error_phase = SpawnPhase | StdinPhase | OutputPhase output_stream

datatype request_shell = NoShell | DefaultShell | ShellPath string

record process_request =
  rq_command :: string
  rq_args :: "string list option"
  rq_shell :: request_shell

record run_options =
  rx_timeoutMs :: "int option"
  rx_terminationGraceMs :: "int option"
  rx_maxCaptureBytes :: "int option"
  rx_aborted :: bool

record run_settings =
  se_maxCaptureBytes :: nat
  se_terminationGraceMs :: nat
  se_timeoutMs :: "nat option"

record process_result =
  pr_command :: string
  pr_args :: "string list"
  pr_stdout :: string
  pr_stderr :: string
  pr_exitCode :: "int option"
  pr_signal :: "string option"
  pr_terminationReason :: termination_reason
  pr_limitedStream :: "output_stream option"

text \<open>An error: its \<open>code\<close>, when it is a string, and its message.\<close>

record failure_cause =
  ca_code :: "string option"
  ca_message :: string

record execution_failure =
  ef_message :: string
  ef_phase :: error_phase
  ef_code :: "string option"

definition DEFAULT_MAX_CAPTURE_BYTES :: int where "DEFAULT_MAX_CAPTURE_BYTES = 16 * 1024 * 1024"

definition DEFAULT_TERMINATION_GRACE_MS :: int where "DEFAULT_TERMINATION_GRACE_MS = 5000"

definition phase_name :: "error_phase \<Rightarrow> string" where
  "phase_name p = (case p of SpawnPhase \<Rightarrow> ''spawn'' | StdinPhase \<Rightarrow> ''stdin'' | OutputPhase Stdout \<Rightarrow> ''stdout''
     | OutputPhase Stderr \<Rightarrow> ''stderr'')"

definition validate_non_negative_integer :: "string \<Rightarrow> int \<Rightarrow> string option" where
  "validate_non_negative_integer name v =
     (if \<not> is_safe_integer v \<or> v < 0 then Some (name @ '' must be a non-negative safe integer'') else None)"

definition validate_positive_integer :: "string \<Rightarrow> int \<Rightarrow> string option" where
  "validate_positive_integer name v =
     (if \<not> is_safe_integer v \<or> v \<le> 0 then Some (name @ '' must be a positive safe integer'') else None)"

definition validate_invocation :: "process_request \<Rightarrow> run_options \<Rightarrow> string + run_settings" where
  "validate_invocation request options =
     (if rq_command request = [] then Inl ''Process command must not be empty''
      else if rq_shell request \<noteq> NoShell \<and> rq_args request \<noteq> None
      then Inl ''Shell-mode commands must be provided as one explicit command string''
      else if rq_shell request = ShellPath [] then Inl ''Shell executable must not be empty''
      else let capture = nullish (rx_maxCaptureBytes options) DEFAULT_MAX_CAPTURE_BYTES;
               grace = nullish (rx_terminationGraceMs options) DEFAULT_TERMINATION_GRACE_MS
      in case validate_non_negative_integer ''maxCaptureBytes'' capture of
           Some e \<Rightarrow> Inl e
         | None \<Rightarrow>
             (case validate_non_negative_integer ''terminationGraceMs'' grace of
                Some e \<Rightarrow> Inl e
              | None \<Rightarrow>
                  (case Option.bind (rx_timeoutMs options) (validate_positive_integer ''timeoutMs'') of
                     Some e \<Rightarrow> Inl e
                   | None \<Rightarrow> Inr \<lparr>se_maxCaptureBytes = nat capture, se_terminationGraceMs = nat grace,
                                  se_timeoutMs = map_option nat (rx_timeoutMs options)\<rparr>)))"

subsection \<open>Signals\<close>

datatype process_signal = SIGTERM | SIGKILL

datatype kill_answer = Killed | NoSuchProcess | KillError failure_cause

datatype kill_call = KillGroup int process_signal | KillChild process_signal

record kill_env =
  ke_pid :: "int option"
  ke_supportsGroups :: bool
  ke_group :: "process_signal \<Rightarrow> kill_answer"
  ke_child :: "process_signal \<Rightarrow> kill_answer"

definition signal_direct_process :: "kill_env \<Rightarrow> process_signal \<Rightarrow> failure_cause option \<times> kill_call list" where
  "signal_direct_process ke sig =
     ((case ke_child ke sig of KillError e \<Rightarrow> Some e | _ \<Rightarrow> None), [KillChild sig])"

definition signal_process_tree :: "kill_env \<Rightarrow> process_signal \<Rightarrow> failure_cause option \<times> kill_call list" where
  "signal_process_tree ke sig =
     (case ke_pid ke of
        None \<Rightarrow> (None, [])
      | Some pid \<Rightarrow>
          if ke_supportsGroups ke then
            (case ke_group ke sig of
               Killed \<Rightarrow> (None, [KillGroup pid sig])
             | KillError e \<Rightarrow> (Some e, [KillGroup pid sig])
             | NoSuchProcess \<Rightarrow>
                 (case signal_direct_process ke sig of (e, calls) \<Rightarrow> (e, KillGroup pid sig # calls)))
          else signal_direct_process ke sig)"

subsection \<open>The run as a state machine\<close>

datatype process_completion = Closed "int option" "string option" | SpawnError failure_cause

text \<open>\<open>rn_open\<close>: the task that reads the stream is running. \<open>rn_uncaught\<close> is an exception that leaves a callback of a
  timer, of the abort signal or of a failed task.\<close>

record runner =
  rn_captured :: "output_stream \<Rightarrow> string"
  rn_open :: "output_stream \<Rightarrow> bool"
  rn_stdinOpen :: bool
  rn_finished :: bool
  rn_requested :: "termination_reason option"
  rn_limited :: "output_stream option"
  rn_failure :: "(error_phase \<times> failure_cause) option"
  rn_terminating :: bool
  rn_forceTimer :: bool
  rn_kills :: "kill_call list"
  rn_completion :: "process_completion option"
  rn_uncaught :: "failure_cause option"

definition spawned_runner :: runner where
  "spawned_runner = \<lparr>rn_captured = \<lambda>_. [], rn_open = \<lambda>_. True, rn_stdinOpen = True, rn_finished = False,
     rn_requested = None, rn_limited = None, rn_failure = None, rn_terminating = False, rn_forceTimer = False,
     rn_kills = [], rn_completion = None, rn_uncaught = None\<rparr>"

definition begin_termination :: "kill_env \<Rightarrow> runner \<Rightarrow> failure_cause option \<times> runner" where
  "begin_termination ke r =
     (if rn_terminating r \<or> rn_finished r then (None, r)
      else case signal_process_tree ke SIGTERM of
        (thrown, calls) \<Rightarrow>
          (thrown, r\<lparr>rn_terminating := True, rn_kills := rn_kills r @ calls, rn_forceTimer := (thrown = None)\<rparr>))"

definition request_termination ::
  "kill_env \<Rightarrow> termination_reason \<Rightarrow> output_stream option \<Rightarrow> runner \<Rightarrow> failure_cause option \<times> runner" where
  "request_termination ke reason stream r =
     (if rn_requested r \<noteq> None then (None, r)
      else if rn_finished r \<and> reason \<noteq> OutputLimit then (None, r)
      else begin_termination ke (r\<lparr>rn_requested := Some reason, rn_limited := stream\<rparr>))"

definition record_io_failure ::
  "kill_env \<Rightarrow> error_phase \<Rightarrow> failure_cause \<Rightarrow> runner \<Rightarrow> failure_cause option \<times> runner" where
  "record_io_failure ke phase cause r =
     (if rn_failure r \<noteq> None then (None, r) else begin_termination ke (r\<lparr>rn_failure := Some (phase, cause)\<rparr>))"

definition let_escape :: "failure_cause option \<times> runner \<Rightarrow> runner" where
  "let_escape p = (case p of (None, r) \<Rightarrow> r
     | (Some e, r) \<Rightarrow> r\<lparr>rn_uncaught := (if rn_uncaught r = None then Some e else rn_uncaught r)\<rparr>)"

definition output_failed :: "kill_env \<Rightarrow> output_stream \<Rightarrow> failure_cause \<Rightarrow> runner \<Rightarrow> runner" where
  "output_failed ke s cause r =
     let_escape (record_io_failure ke (OutputPhase s) cause (r\<lparr>rn_open := (rn_open r)(s := False)\<rparr>))"

text \<open>One chunk, after its handler returned.\<close>

definition append_captured :: "run_settings \<Rightarrow> output_stream \<Rightarrow> string \<Rightarrow> runner \<Rightarrow> runner" where
  "append_captured se s chunk r =
     r\<lparr>rn_captured := (rn_captured r)(s := rn_captured r s @ take (se_maxCaptureBytes se - length (rn_captured r s)) chunk)\<rparr>"

definition capture_chunk :: "kill_env \<Rightarrow> run_settings \<Rightarrow> output_stream \<Rightarrow> string \<Rightarrow> runner \<Rightarrow> runner" where
  "capture_chunk ke se s chunk r =
     (let r1 = append_captured se s chunk r
      in if length chunk \<le> se_maxCaptureBytes se - length (rn_captured r s) then r1
         else case request_termination ke OutputLimit (Some s) r1 of
                (None, r2) \<Rightarrow> r2
              | (Some e, r2) \<Rightarrow> output_failed ke s e r2)"

definition is_expected_input_closure :: "failure_cause \<Rightarrow> runner \<Rightarrow> bool" where
  "is_expected_input_closure cause r \<longleftrightarrow>
     (rn_finished r \<or> rn_terminating r) \<and> ca_code cause \<in> {Some ''EPIPE'', Some ''ERR_STREAM_PREMATURE_CLOSE''}"

text \<open>\<open>Chunk\<close> carries the error of the chunk handler, if it threw.\<close>

datatype run_event =
    Chunk output_stream string "failure_cause option"
  | OutputEnded output_stream
  | OutputError output_stream failure_cause
  | InputEnded
  | InputError failure_cause
  | TimeoutFires
  | AbortFires
  | ForceKillFires
  | ChildErrored failure_cause
  | ChildClosed "int option" "string option"

definition resolve_completion :: "process_completion \<Rightarrow> runner \<Rightarrow> runner" where
  "resolve_completion c r =
     r\<lparr>rn_finished := True, rn_completion := (if rn_completion r = None then Some c else rn_completion r)\<rparr>"

fun run_step :: "kill_env \<Rightarrow> run_settings \<Rightarrow> run_event \<Rightarrow> runner \<Rightarrow> runner" where
  "run_step ke se (Chunk s chunk handlerError) r =
     (if \<not> rn_open r s then r
      else case handlerError of Some e \<Rightarrow> output_failed ke s e r | None \<Rightarrow> capture_chunk ke se s chunk r)"
| "run_step ke se (OutputEnded s) r = r\<lparr>rn_open := (rn_open r)(s := False)\<rparr>"
| "run_step ke se (OutputError s cause) r = (if rn_open r s then output_failed ke s cause r else r)"
| "run_step ke se InputEnded r = r\<lparr>rn_stdinOpen := False\<rparr>"
| "run_step ke se (InputError cause) r =
     (if \<not> rn_stdinOpen r then r
      else if is_expected_input_closure cause r then r\<lparr>rn_stdinOpen := False\<rparr>
      else let_escape (record_io_failure ke StdinPhase cause (r\<lparr>rn_stdinOpen := False\<rparr>)))"
| "run_step ke se TimeoutFires r =
     (if se_timeoutMs se = None then r else let_escape (request_termination ke TimeoutReason None r))"
| "run_step ke se AbortFires r = let_escape (request_termination ke AbortedReason None r)"
| "run_step ke se ForceKillFires r =
     (if \<not> rn_forceTimer r then r
      else if rn_finished r then r\<lparr>rn_forceTimer := False\<rparr>
      else case signal_process_tree ke SIGKILL of
        (thrown, calls) \<Rightarrow> let_escape (thrown, r\<lparr>rn_forceTimer := False, rn_kills := rn_kills r @ calls\<rparr>))"
| "run_step ke se (ChildErrored cause) r = resolve_completion (SpawnError cause) r"
| "run_step ke se (ChildClosed exitCode signal) r = resolve_completion (Closed exitCode signal) r"

definition run_events :: "kill_env \<Rightarrow> run_settings \<Rightarrow> run_event list \<Rightarrow> runner" where
  "run_events ke se events = fold (run_step ke se) events spawned_runner"

definition create_execution_error :: "error_phase \<Rightarrow> string \<Rightarrow> failure_cause \<Rightarrow> execution_failure" where
  "create_execution_error phase command cause =
     \<lparr>ef_message = ''Process '' @ phase_name phase @ '' failed for '' @ json_string command
        @ (case ca_code cause of None \<Rightarrow> [] | Some code \<Rightarrow> '' ('' @ code @ '')''),
      ef_phase = phase, ef_code = ca_code cause\<rparr>"

definition request_args :: "process_request \<Rightarrow> string list" where
  "request_args request = (if rq_shell request = NoShell then nullish (rq_args request) [] else [])"

definition aborted_result :: "process_request \<Rightarrow> process_result" where
  "aborted_result request = \<lparr>pr_command = rq_command request, pr_args = request_args request, pr_stdout = [],
     pr_stderr = [], pr_exitCode = None, pr_signal = None, pr_terminationReason = AbortedReason, pr_limitedStream = None\<rparr>"

text \<open>The outcome after the child and the three streams are done; \<^const>\<open>None\<close> while the run waits.\<close>

definition run_outcome :: "process_request \<Rightarrow> runner \<Rightarrow> (execution_failure + process_result) option" where
  "run_outcome request r =
     (case rn_completion r of
        None \<Rightarrow> None
      | Some completion \<Rightarrow>
          if rn_stdinOpen r \<or> rn_open r Stdout \<or> rn_open r Stderr then None
          else Some (case completion of
            SpawnError e \<Rightarrow> Inl (create_execution_error SpawnPhase (rq_command request) e)
          | Closed exitCode signal \<Rightarrow>
              (case rn_failure r of
                 Some (phase, e) \<Rightarrow> Inl (create_execution_error phase (rq_command request) e)
               | None \<Rightarrow> Inr \<lparr>pr_command = rq_command request, pr_args = request_args request,
                   pr_stdout = rn_captured r Stdout, pr_stderr = rn_captured r Stderr, pr_exitCode = exitCode,
                   pr_signal = signal,
                   pr_terminationReason =
                     nullish (rn_requested r) (if exitCode = None then SignalReason else ExitReason),
                   pr_limitedStream = rn_limited r\<rparr>)))"

datatype run_end = InvalidRun string | RunFailed execution_failure | RunDone process_result | StillRunning

definition run_process :: "kill_env \<Rightarrow> process_request \<Rightarrow> run_options \<Rightarrow> run_event list \<Rightarrow> run_end" where
  "run_process ke request options events =
     (case validate_invocation request options of
        Inl e \<Rightarrow> InvalidRun e
      | Inr se \<Rightarrow>
          if rx_aborted options then RunDone (aborted_result request)
          else case run_outcome request (run_events ke se events) of
                 None \<Rightarrow> StillRunning
               | Some (Inl e) \<Rightarrow> RunFailed e
               | Some (Inr res) \<Rightarrow> RunDone res)"

subsection \<open>What is captured\<close>

text \<open>The bytes that a stream delivered: its chunks whose handler returned, while its task ran.\<close>

fun delivered :: "kill_env \<Rightarrow> run_settings \<Rightarrow> output_stream \<Rightarrow> run_event list \<Rightarrow> runner \<Rightarrow> string" where
  "delivered ke se s [] r = []"
| "delivered ke se s (e # es) r =
     (case e of Chunk s' chunk None \<Rightarrow> (if s' = s \<and> rn_open r s then chunk else []) | _ \<Rightarrow> [])
     @ delivered ke se s es (run_step ke se e r)"

text \<open>The invariant of a stream that delivered \<open>d\<close>.\<close>

definition captures :: "run_settings \<Rightarrow> output_stream \<Rightarrow> string \<Rightarrow> runner \<Rightarrow> bool" where
  "captures se s d r \<longleftrightarrow> rn_captured r s = take (se_maxCaptureBytes se) d \<and>
     (se_maxCaptureBytes se < length d \<longrightarrow> rn_requested r \<noteq> None)"

lemmas termination_defs = request_termination_def record_io_failure_def begin_termination_def let_escape_def

lemma termination_keeps:
  "rn_captured (snd (request_termination ke reason st r)) = rn_captured r"
  "rn_captured (snd (record_io_failure ke phase cause r)) = rn_captured r"
  "rn_requested (snd (record_io_failure ke phase cause r)) = rn_requested r"
  "rn_captured (let_escape p) = rn_captured (snd p)" "rn_requested (let_escape p) = rn_requested (snd p)"
  "rn_requested r \<noteq> None \<Longrightarrow> rn_requested (snd (request_termination ke reason st r)) = rn_requested r"
  "rn_requested (snd (request_termination ke OutputLimit st r)) \<noteq> None"
  by (auto simp: termination_defs split: prod.splits option.splits)

lemma output_failed_keeps:
  "rn_captured (output_failed ke s cause r) = rn_captured r" "rn_requested (output_failed ke s cause r) = rn_requested r"
  by (simp_all add: output_failed_def termination_keeps)

lemma capture_chunk_effect:
  "rn_captured (capture_chunk ke se s chunk r) =
     (rn_captured r)(s := rn_captured r s @ take (se_maxCaptureBytes se - length (rn_captured r s)) chunk)"
  "rn_requested r \<noteq> None \<Longrightarrow> rn_requested (capture_chunk ke se s chunk r) = rn_requested r"
  "se_maxCaptureBytes se - length (rn_captured r s) < length chunk \<Longrightarrow> rn_requested (capture_chunk ke se s chunk r) \<noteq> None"
proof -
  define r1 where "r1 = append_captured se s chunk r"
  obtain e r2 where req: "request_termination ke OutputLimit (Some s) r1 = (e, r2)" by (metis surj_pair)
  have r2: "rn_captured r2 = rn_captured r1" "rn_requested r1 \<noteq> None \<Longrightarrow> rn_requested r2 = rn_requested r1" "rn_requested r2 \<noteq> None"
    using termination_keeps(1)[of ke OutputLimit "Some s" r1] termination_keeps(6)[of r1 ke OutputLimit "Some s"]
      termination_keeps(7)[of ke "Some s" r1] req by simp_all
  have r1: "rn_requested r1 = rn_requested r" "rn_captured r1 =
     (rn_captured r)(s := rn_captured r s @ take (se_maxCaptureBytes se - length (rn_captured r s)) chunk)"
    by (simp_all add: r1_def append_captured_def)
  have chunk: "capture_chunk ke se s chunk r =
      (if length chunk \<le> se_maxCaptureBytes se - length (rn_captured r s) then r1
       else case e of None \<Rightarrow> r2 | Some x \<Rightarrow> output_failed ke s x r2)"
    using req by (simp add: capture_chunk_def Let_def r1_def)
  show "rn_captured (capture_chunk ke se s chunk r) =
     (rn_captured r)(s := rn_captured r s @ take (se_maxCaptureBytes se - length (rn_captured r s)) chunk)"
    using r2(1) r1(2) unfolding chunk by (cases e) (simp_all add: output_failed_keeps)
  show "rn_requested r \<noteq> None \<Longrightarrow> rn_requested (capture_chunk ke se s chunk r) = rn_requested r"
    using r2(2) r1(1) unfolding chunk by (cases e) (simp_all add: output_failed_keeps)
  show "se_maxCaptureBytes se - length (rn_captured r s) < length chunk \<Longrightarrow> rn_requested (capture_chunk ke se s chunk r) \<noteq> None"
    using r2(3) unfolding chunk by (cases e) (simp_all add: output_failed_keeps)
qed

lemma kill_step_keeps:
  "rn_captured (run_step ke se ForceKillFires r) = rn_captured r" "rn_requested (run_step ke se ForceKillFires r) = rn_requested r"
  by (auto simp: let_escape_def split: prod.splits option.splits)

text \<open>Every other event keeps what was captured, and a request once made.\<close>

lemma quiet_step:
  assumes "\<And>s' chunk. e \<noteq> Chunk s' chunk None"
  shows "rn_captured (run_step ke se e r) = rn_captured r"
    and "rn_requested r \<noteq> None \<Longrightarrow> rn_requested (run_step ke se e r) = rn_requested r"
proof -
  have "rn_captured (run_step ke se e r) = rn_captured r \<and>
    (rn_requested r \<noteq> None \<longrightarrow> rn_requested (run_step ke se e r) = rn_requested r)"
  proof (cases e)
    case (Chunk s' chunk h)
    then show ?thesis using assms by (cases h) (auto simp: output_failed_keeps)
  next
    case ForceKillFires
    then show ?thesis using kill_step_keeps by simp
  qed (simp_all add: output_failed_keeps termination_keeps resolve_completion_def)
  then show "rn_captured (run_step ke se e r) = rn_captured r"
    and "rn_requested r \<noteq> None \<Longrightarrow> rn_requested (run_step ke se e r) = rn_requested r" by auto
qed

lemma captures_step:
  assumes "captures se s d r"
  shows "captures se s (d @ (case e of Chunk s' chunk None \<Rightarrow> (if s' = s \<and> rn_open r s then chunk else []) | _ \<Rightarrow> []))
    (run_step ke se e r)"
proof (cases "\<exists>s' chunk. e = Chunk s' chunk None")
  case False
  then have "(case e of Chunk s' chunk None \<Rightarrow> (if s' = s \<and> rn_open r s then chunk else []) | _ \<Rightarrow> []) = []"
    by (auto split: run_event.splits option.splits)
  then show ?thesis using assms False quiet_step[where e = e and r = r and ke = ke and se = se] by (auto simp: captures_def)
next
  case True
  then obtain s' chunk where e: "e = Chunk s' chunk None" by blast
  show ?thesis
  proof (cases "rn_open r s'")
    case False
    then show ?thesis using assms e by auto
  next
    case opened: True
    show ?thesis
    proof (cases "s' = s")
      case False
      then show ?thesis
        using assms e opened capture_chunk_effect[where ke = ke and se = se and s = s' and chunk = chunk and r = r] by (auto simp: captures_def)
    next
      case True
      have "rn_captured (capture_chunk ke se s chunk r) s = take (se_maxCaptureBytes se) (d @ chunk)"
        using assms capture_chunk_effect(1)[of ke se s chunk r] by (simp add: captures_def min_def)
      moreover have "rn_requested (capture_chunk ke se s chunk r) \<noteq> None" if "se_maxCaptureBytes se < length (d @ chunk)"
      proof (cases "se_maxCaptureBytes se < length d")
        case True
        with assms show ?thesis using capture_chunk_effect(2)[of r ke se s chunk] by (simp add: captures_def)
      next
        case False
        with that assms show ?thesis using capture_chunk_effect(3)[of se r s chunk ke] by (simp add: captures_def)
      qed
      ultimately show ?thesis using e opened True by (simp add: captures_def)
    qed
  qed
qed

lemma captures_run: "captures se s d r \<Longrightarrow> captures se s (d @ delivered ke se s events r) (fold (run_step ke se) events r)"
proof (induction events arbitrary: d r)
  case (Cons e events)
  show ?case using Cons.IH[OF captures_step[OF Cons.prems, of e ke]] by simp
qed simp

text \<open>A requested termination has its own reason.\<close>

definition asked_reason :: "runner \<Rightarrow> bool" where
  "asked_reason r \<longleftrightarrow> rn_requested r \<notin> {Some ExitReason, Some SignalReason}"

lemma requested_reason:
  assumes "reason \<notin> {ExitReason, SignalReason}" "asked_reason r"
  shows "asked_reason (snd (request_termination ke reason st r))"
  using assms by (auto simp: asked_reason_def termination_defs split: prod.splits)

lemma reason_step: "asked_reason r \<Longrightarrow> asked_reason (run_step ke se e r)"
proof (cases e)
  case (Chunk s chunk h)
  assume r: "asked_reason r"
  let ?r1 = "append_captured se s chunk r"
  have "asked_reason (snd (request_termination ke OutputLimit (Some s) ?r1))"
    by (rule requested_reason) (use r in \<open>simp_all add: asked_reason_def append_captured_def\<close>)
  then show ?thesis
    using r Chunk
    by (auto simp: capture_chunk_def Let_def asked_reason_def append_captured_def output_failed_keeps split: option.splits prod.splits)
next
  case TimeoutFires
  assume "asked_reason r"
  then show ?thesis
    using TimeoutFires requested_reason[of TimeoutReason r ke None] by (simp add: asked_reason_def termination_keeps)
next
  case AbortFires
  assume "asked_reason r"
  then show ?thesis
    using AbortFires requested_reason[of AbortedReason r ke None] by (simp add: asked_reason_def termination_keeps)
next
  case ForceKillFires
  assume "asked_reason r"
  then show ?thesis using ForceKillFires kill_step_keeps(2)[of ke se r] by (simp add: asked_reason_def)
qed (simp_all add: asked_reason_def output_failed_keeps termination_keeps resolve_completion_def)

lemma reason_run: "asked_reason r \<Longrightarrow> asked_reason (fold (run_step ke se) events r)"
  by (induction events arbitrary: r) (simp_all add: reason_step)

text \<open>C38. A run never passes off a part of an output as the whole. What a result holds of each stream is the first
  \<open>maxCaptureBytes\<close> bytes the stream delivered, and when it says that the process exited or died of a signal, not that
  the run was ended by a limit, a timeout or an abort, it is everything the stream delivered.\<close>

theorem run_result_is_complete:
  assumes "run_process ke request options events = RunDone res" and "\<not> rx_aborted options"
    and "validate_invocation request options = Inr se"
  shows "pr_stdout res = take (se_maxCaptureBytes se) (delivered ke se Stdout events spawned_runner) \<and>
    pr_stderr res = take (se_maxCaptureBytes se) (delivered ke se Stderr events spawned_runner) \<and>
    (pr_terminationReason res \<in> {ExitReason, SignalReason} \<longrightarrow>
       pr_stdout res = delivered ke se Stdout events spawned_runner \<and>
       pr_stderr res = delivered ke se Stderr events spawned_runner)"
proof -
  let ?r = "run_events ke se events"
  have "captures se s [] spawned_runner" for s by (simp add: captures_def spawned_runner_def)
  then have all: "captures se s (delivered ke se s events spawned_runner) ?r" for s
    using captures_run[of se s "[]" spawned_runner ke events] by (simp add: run_events_def)
  have reason: "asked_reason ?r"
    unfolding run_events_def by (rule reason_run) (simp add: asked_reason_def spawned_runner_def)
  have res: "pr_stdout res = rn_captured ?r Stdout" "pr_stderr res = rn_captured ?r Stderr"
    "\<And>x. rn_requested ?r = Some x \<Longrightarrow> pr_terminationReason res = x"
    using assms
    by (auto simp: run_process_def run_outcome_def split: option.splits sum.splits if_splits process_completion.splits)
  have "rn_requested ?r = None" if "pr_terminationReason res \<in> {ExitReason, SignalReason}"
    using that reason res(3) by (cases "rn_requested ?r") (auto simp: asked_reason_def)
  then show ?thesis using all[of Stdout] all[of Stderr] by (auto simp: captures_def res(1,2))
qed

subsection \<open>Which signals are sent\<close>

text \<open>At most one SIGTERM to the tree and then at most one SIGKILL.\<close>

definition kill_plan :: "kill_env \<Rightarrow> runner \<Rightarrow> bool" where
  "kill_plan ke r \<longleftrightarrow>
     (if \<not> rn_terminating r then rn_kills r = [] \<and> \<not> rn_forceTimer r
      else if rn_forceTimer r then rn_kills r = snd (signal_process_tree ke SIGTERM)
      else rn_kills r \<in> {snd (signal_process_tree ke SIGTERM),
             snd (signal_process_tree ke SIGTERM) @ snd (signal_process_tree ke SIGKILL)})"

definition escalated :: "kill_env \<Rightarrow> kill_call list \<Rightarrow> bool" where
  "escalated ke calls \<longleftrightarrow> calls \<in> {[], snd (signal_process_tree ke SIGTERM),
     snd (signal_process_tree ke SIGTERM) @ snd (signal_process_tree ke SIGKILL)}"

lemma plan_begin: "kill_plan ke r \<Longrightarrow> kill_plan ke (snd (begin_termination ke r))"
  by (auto simp: kill_plan_def begin_termination_def split: prod.splits if_splits)

lemma plan_same:
  assumes "kill_plan ke r" "rn_terminating r' = rn_terminating r" "rn_kills r' = rn_kills r" "rn_forceTimer r' = rn_forceTimer r"
  shows "kill_plan ke r'"
  using assms by (cases "rn_terminating r"; cases "rn_forceTimer r") (simp_all add: kill_plan_def)

lemma plan_request:
  assumes "kill_plan ke r"
  shows "kill_plan ke (snd (request_termination ke reason st r))"
proof -
  have "kill_plan ke (r\<lparr>rn_requested := Some reason, rn_limited := st\<rparr>)" by (rule plan_same[OF assms]) simp_all
  then show ?thesis using assms plan_begin by (simp add: request_termination_def)
qed

lemma plan_record:
  assumes "kill_plan ke r"
  shows "kill_plan ke (snd (record_io_failure ke phase cause r))"
proof -
  have "kill_plan ke (r\<lparr>rn_failure := Some (phase, cause)\<rparr>)" by (rule plan_same[OF assms]) simp_all
  then show ?thesis using assms plan_begin by (simp add: record_io_failure_def)
qed

lemma plan_escape: "kill_plan ke (let_escape p) \<longleftrightarrow> kill_plan ke (snd p)"
  by (auto simp: let_escape_def kill_plan_def split: prod.splits option.splits)

lemma plan_output_failed: "kill_plan ke r \<Longrightarrow> kill_plan ke (output_failed ke s cause r)"
  unfolding output_failed_def plan_escape by (rule plan_record) (rule plan_same, simp_all)

lemma plan_capture: "kill_plan ke r \<Longrightarrow> kill_plan ke (capture_chunk ke se s chunk r)"
proof -
  assume r: "kill_plan ke r"
  define r1 where "r1 = append_captured se s chunk r"
  have r1: "kill_plan ke r1" by (rule plan_same[OF r]) (simp_all add: r1_def append_captured_def)
  obtain e r2 where req: "request_termination ke OutputLimit (Some s) r1 = (e, r2)" by (metis surj_pair)
  then have "kill_plan ke r2" using plan_request[OF r1, of OutputLimit "Some s"] by simp
  then show ?thesis
    using r1 req plan_output_failed by (cases e) (simp_all add: capture_chunk_def Let_def r1_def[symmetric])
qed

lemma plan_kill: "kill_plan ke r \<Longrightarrow> kill_plan ke (run_step ke se ForceKillFires r)"
  by (auto simp: kill_plan_def let_escape_def split: prod.splits option.splits)

lemma plan_step: "kill_plan ke r \<Longrightarrow> kill_plan ke (run_step ke se e r)"
proof (cases e)
  case (Chunk s chunk h)
  assume "kill_plan ke r"
  with Chunk show ?thesis by (cases h) (simp_all add: plan_output_failed plan_capture)
next
  case (InputError cause)
  assume r: "kill_plan ke r"
  have "kill_plan ke (r\<lparr>rn_stdinOpen := False\<rparr>)" by (rule plan_same[OF r]) simp_all
  with r InputError show ?thesis by (simp add: plan_escape plan_record)
next
  case ForceKillFires
  assume "kill_plan ke r"
  with ForceKillFires show ?thesis using plan_kill by simp
qed (auto simp: plan_escape plan_request plan_output_failed resolve_completion_def intro: plan_same)

lemma plan_run: "kill_plan ke r \<Longrightarrow> kill_plan ke (fold (run_step ke se) events r)"
  by (induction events arbitrary: r) (simp_all add: plan_step)

text \<open>Nothing is sent once the child has ended.\<close>

lemma escape_keeps: "rn_finished (let_escape p) = rn_finished (snd p)" "rn_kills (let_escape p) = rn_kills (snd p)"
  by (auto simp: let_escape_def split: prod.splits option.splits)

lemma ended_step:
  assumes "rn_finished r"
  shows "rn_finished (run_step ke se e r) \<and> rn_kills (run_step ke se e r) = rn_kills r"
proof -
  have req: "rn_finished (snd (request_termination ke reason st r)) \<and> rn_kills (snd (request_termination ke reason st r)) = rn_kills r"
    if "rn_finished r" for reason st and r :: runner
    using that by (auto simp: request_termination_def begin_termination_def)
  have failed: "rn_finished (output_failed ke s cause r) \<and> rn_kills (output_failed ke s cause r) = rn_kills r"
    if "rn_finished r" for s cause and r :: runner
    using that by (auto simp: output_failed_def record_io_failure_def begin_termination_def let_escape_def)
  show ?thesis
  proof (cases e)
    case (Chunk s chunk h)
    define r1 where "r1 = append_captured se s chunk r"
    obtain x r2 where r2: "request_termination ke OutputLimit (Some s) r1 = (x, r2)" by (metis surj_pair)
    have "rn_finished r2 \<and> rn_kills r2 = rn_kills r"
      using req[of r1 OutputLimit "Some s"] assms r2 by (simp add: r1_def append_captured_def)
    then have "rn_finished (capture_chunk ke se s chunk r) \<and> rn_kills (capture_chunk ke se s chunk r) = rn_kills r"
      using r2 failed[of r2] assms by (cases x) (auto simp: capture_chunk_def Let_def r1_def append_captured_def)
    with Chunk failed[OF assms] assms show ?thesis by (cases h) simp_all
  qed (use assms req failed in \<open>simp_all add: escape_keeps resolve_completion_def record_io_failure_def begin_termination_def\<close>)
qed

lemma ended_run: "rn_finished r \<Longrightarrow> rn_kills (fold (run_step ke se) events r) = rn_kills r"
  using ended_step by (induction events arbitrary: r) auto

text \<open>A run signals only the process tree it spawned, once with SIGTERM and at most once more with SIGKILL, whatever
  limits, timeouts, aborts and failures come together; once the child has ended it signals nothing, so a process
  identifier that the system reuses is never hit.\<close>

theorem run_escalates_once:
  assumes "ended \<in> {ChildClosed exitCode signal, ChildErrored cause}"
  shows "escalated ke (rn_kills (run_events ke se before)) \<and>
    rn_kills (run_events ke se (before @ ended # later)) = rn_kills (run_events ke se before)"
proof -
  let ?r = "run_events ke se before"
  have "kill_plan ke spawned_runner" by (simp add: kill_plan_def spawned_runner_def)
  then have "kill_plan ke ?r" using plan_run by (simp add: run_events_def)
  then have "escalated ke (rn_kills ?r)" by (auto simp: kill_plan_def escalated_def split: if_splits)
  moreover have "rn_finished (run_step ke se ended ?r) \<and> rn_kills (run_step ke se ended ?r) = rn_kills ?r"
    using assms by (auto simp: resolve_completion_def)
  ultimately show ?thesis using ended_run[of "run_step ke se ended ?r"] by (simp add: run_events_def)
qed

subsection \<open>Concrete runs\<close>

definition sample_kill :: kill_env where
  "sample_kill = \<lparr>ke_pid = Some 7, ke_supportsGroups = True, ke_group = \<lambda>_. Killed, ke_child = \<lambda>_. Killed\<rparr>"

definition sample_request :: process_request where
  "sample_request = \<lparr>rq_command = ''git'', rq_args = Some [''log''], rq_shell = NoShell\<rparr>"

definition sample_run_options :: run_options where
  "sample_run_options = \<lparr>rx_timeoutMs = None, rx_terminationGraceMs = None, rx_maxCaptureBytes = Some 3, rx_aborted = False\<rparr>"

definition capture_settings :: run_settings where
  "capture_settings = \<lparr>se_maxCaptureBytes = 3, se_terminationGraceMs = 5000, se_timeoutMs = None\<rparr>"

definition sample_run_events :: "run_event list" where
  "sample_run_events = [Chunk Stdout ''ab'' None, Chunk Stderr ''x'' None, ChildClosed (Some 0) None, OutputEnded Stdout,
     OutputEnded Stderr, InputEnded]"

definition sample_result :: process_result where
  "sample_result = \<lparr>pr_command = ''git'', pr_args = [''log''], pr_stdout = ''ab'', pr_stderr = ''x'', pr_exitCode = Some 0,
     pr_signal = None, pr_terminationReason = ExitReason, pr_limitedStream = None\<rparr>"

theorem run_result_is_complete_witness:
  "''ab'' = delivered sample_kill capture_settings Stdout sample_run_events spawned_runner"
proof -
  have run: "run_process sample_kill sample_request sample_run_options sample_run_events = RunDone sample_result"
    "validate_invocation sample_request sample_run_options = Inr capture_settings" by code_simp+
  have "\<not> rx_aborted sample_run_options" by code_simp
  from run_result_is_complete[OF run(1) this run(2)]
  have "pr_terminationReason sample_result \<in> {ExitReason, SignalReason} \<longrightarrow>
      pr_stdout sample_result = delivered sample_kill capture_settings Stdout sample_run_events spawned_runner" by blast
  then show ?thesis by (simp add: sample_result_def)
qed

theorem run_escalates_once_witness:
  "rn_kills (run_events sample_kill capture_settings ([AbortFires, ForceKillFires] @ ChildClosed None (Some ''SIGKILL'') # [AbortFires]))
     = [KillGroup 7 SIGTERM, KillGroup 7 SIGKILL]"
proof -
  have "rn_kills (run_events sample_kill capture_settings [AbortFires, ForceKillFires]) = [KillGroup 7 SIGTERM, KillGroup 7 SIGKILL]"
    by code_simp
  then show ?thesis
    using run_escalates_once[of "ChildClosed None (Some ''SIGKILL'')" None "Some ''SIGKILL''" "\<lparr>ca_code = None, ca_message = []\<rparr>"
        sample_kill capture_settings "[AbortFires, ForceKillFires]" "[AbortFires]"] by simp
qed

end
