(* ===== verification/Pipeline_Supervisor.thy ===== *)
theory Pipeline_Supervisor
  imports Process_Runner
begin

text \<open>
  The supervisor of the pipeline, \<open>src/src/entrypoints/node-supervisor.ts\<close>: it starts the orchestrator and the bridge,
  pipes one into the other and waits for both. A supervision is a state machine over the events of the two children,
  their streams, the timer and the signals of the supervisor itself. What the streams carry is not modelled.
\<close>

datatype pipeline_stage = Producer | Consumer

record stage_result =
  sr_exitCode :: "int option"
  sr_signal :: "string option"
  sr_spawnError :: "failure_cause option"

datatype pipeline_reason = PipelineExit | PipelineAborted

record pipeline_result =
  pl_producer :: stage_result
  pl_consumer :: stage_result
  pl_exitCode :: int
  pl_reason :: pipeline_reason

definition no_stage_result :: stage_result where
  "no_stage_result = \<lparr>sr_exitCode = None, sr_signal = None, sr_spawnError = None\<rparr>"

definition aborted_pipeline :: pipeline_result where
  "aborted_pipeline = \<lparr>pl_producer = no_stage_result, pl_consumer = no_stage_result, pl_exitCode = 1, pl_reason = PipelineAborted\<rparr>"

definition resolve_pipeline_exit_code :: "stage_result \<Rightarrow> stage_result \<Rightarrow> failure_cause option \<Rightarrow> int" where
  "resolve_pipeline_exit_code producer consumer ioError =
     (if sr_spawnError producer \<noteq> None \<or> sr_spawnError consumer \<noteq> None \<or> ioError \<noteq> None then 1
      else if truthy (sr_signal producer) \<or> truthy (sr_signal consumer) then 1
      else case sr_exitCode consumer of
        Some c \<Rightarrow> if c \<noteq> 0 then c else (case sr_exitCode producer of Some p \<Rightarrow> p | None \<Rightarrow> 0)
      | None \<Rightarrow> (case sr_exitCode producer of Some p \<Rightarrow> p | None \<Rightarrow> 0))"

subsection \<open>The supervision as a state machine\<close>

text \<open>\<open>su_running\<close>: the child has neither an exit code nor a signal. \<open>su_error\<close> is the first error event of a child;
  a second one has no listener left and ends up in \<open>su_uncaught\<close>, like an exception of a callback.\<close>

record supervised =
  su_running :: "pipeline_stage \<Rightarrow> bool"
  su_error :: "pipeline_stage \<Rightarrow> failure_cause option"
  su_closed :: "pipeline_stage \<Rightarrow> stage_result option"
  su_outputEnded :: bool
  su_terminating :: bool
  su_forceTimer :: bool
  su_ioError :: "failure_cause option"
  su_signals :: "(pipeline_stage \<times> process_signal) list"
  su_aborted :: bool
  su_received :: "string option"
  su_uncaught :: "failure_cause option"

definition started_pipeline :: supervised where
  "started_pipeline = \<lparr>su_running = \<lambda>_. True, su_error = \<lambda>_. None, su_closed = \<lambda>_. None, su_outputEnded = False,
     su_terminating = False, su_forceTimer = False, su_ioError = None, su_signals = [], su_aborted = False,
     su_received = None, su_uncaught = None\<rparr>"

text \<open>Signal the running stages in turn; an exception ends the turn.\<close>

fun signal_stages ::
  "(pipeline_stage \<Rightarrow> kill_env) \<Rightarrow> process_signal \<Rightarrow> pipeline_stage list \<Rightarrow> supervised \<Rightarrow> failure_cause option \<times> supervised" where
  "signal_stages sk sig [] u = (None, u)"
| "signal_stages sk sig (stage # rest) u =
     (if \<not> su_running u stage then signal_stages sk sig rest u
      else let u1 = u\<lparr>su_signals := su_signals u @ [(stage, sig)]\<rparr>
      in case fst (signal_direct_process (sk stage) sig) of
           Some e \<Rightarrow> (Some e, u1)
         | None \<Rightarrow> signal_stages sk sig rest u1)"

definition uncaught_of :: "failure_cause option \<times> supervised \<Rightarrow> supervised" where
  "uncaught_of p = (case p of (None, u) \<Rightarrow> u
     | (Some e, u) \<Rightarrow> u\<lparr>su_uncaught := (if su_uncaught u = None then Some e else su_uncaught u)\<rparr>)"

definition terminate_children :: "(pipeline_stage \<Rightarrow> kill_env) \<Rightarrow> supervised \<Rightarrow> supervised" where
  "terminate_children sk u =
     (if su_terminating u then u
      else case signal_stages sk SIGTERM [Producer, Consumer] (u\<lparr>su_terminating := True\<rparr>) of
        (None, u1) \<Rightarrow> u1\<lparr>su_forceTimer := True\<rparr>
      | (Some e, u1) \<Rightarrow> uncaught_of (Some e, u1))"

definition record_io_error :: "(pipeline_stage \<Rightarrow> kill_env) \<Rightarrow> failure_cause \<Rightarrow> supervised \<Rightarrow> supervised" where
  "record_io_error sk cause u =
     (if ca_code cause = Some ''EPIPE'' then u
      else terminate_children sk (u\<lparr>su_ioError := (if su_ioError u = None then Some cause else su_ioError u)\<rparr>))"

datatype pipeline_event =
    StreamError failure_cause
  | StageError pipeline_stage failure_cause
  | StageExited pipeline_stage
  | StageClosed pipeline_stage "int option" "string option"
  | ProducerOutputEnded
  | ForceKill
  | SignalReceived string

definition stage_error :: "(pipeline_stage \<Rightarrow> kill_env) \<Rightarrow> pipeline_stage \<Rightarrow> failure_cause \<Rightarrow> supervised \<Rightarrow> supervised" where
  "stage_error sk stage cause u =
     (if su_error u stage \<noteq> None then uncaught_of (Some cause, u)
      else terminate_children sk (u\<lparr>su_error := (su_error u)(stage \<mapsto> cause)\<rparr>))"

fun supervise_step :: "(pipeline_stage \<Rightarrow> kill_env) \<Rightarrow> pipeline_event \<Rightarrow> supervised \<Rightarrow> supervised" where
  "supervise_step sk (StreamError cause) u = record_io_error sk cause u"
| "supervise_step sk (StageError stage cause) u = stage_error sk stage cause u"
| "supervise_step sk (StageExited stage) u =
     (let u1 = u\<lparr>su_running := (su_running u)(stage := False)\<rparr> in
      if stage = Consumer \<and> su_running u1 Producer \<and> \<not> su_outputEnded u1 then terminate_children sk u1 else u1)"
| "supervise_step sk (StageClosed stage exitCode signal) u =
     u\<lparr>su_running := (su_running u)(stage := False),
       su_closed := (if su_closed u stage = None
         then (su_closed u)(stage \<mapsto> \<lparr>sr_exitCode = exitCode, sr_signal = signal, sr_spawnError = su_error u stage\<rparr>)
         else su_closed u)\<rparr>"
| "supervise_step sk ProducerOutputEnded u = u\<lparr>su_outputEnded := True\<rparr>"
| "supervise_step sk ForceKill u =
     (if \<not> su_forceTimer u then u
      else uncaught_of (signal_stages sk SIGKILL [Producer, Consumer] (u\<lparr>su_forceTimer := False\<rparr>)))"
| "supervise_step sk (SignalReceived sig) u =
     (let u1 = u\<lparr>su_received := Some (nullish (su_received u) sig)\<rparr> in
      if su_aborted u then u1 else terminate_children sk (u1\<lparr>su_aborted := True\<rparr>))"

definition supervise :: "(pipeline_stage \<Rightarrow> kill_env) \<Rightarrow> pipeline_event list \<Rightarrow> supervised" where
  "supervise sk events = fold (supervise_step sk) events started_pipeline"

definition pipeline_outcome :: "supervised \<Rightarrow> pipeline_result option" where
  "pipeline_outcome u =
     (case (su_closed u Producer, su_closed u Consumer) of
        (Some p, Some c) \<Rightarrow> Some \<lparr>pl_producer = p, pl_consumer = c, pl_exitCode = resolve_pipeline_exit_code p c (su_ioError u),
           pl_reason = (if su_aborted u then PipelineAborted else PipelineExit)\<rparr>
      | _ \<Rightarrow> None)"

datatype supervisor_end = SupervisorKilledBy string | SupervisorExit int | SupervisorWaits

definition run_signal_aware_pipeline :: "(pipeline_stage \<Rightarrow> kill_env) \<Rightarrow> pipeline_event list \<Rightarrow> supervisor_end" where
  "run_signal_aware_pipeline sk events =
     (let u = supervise sk events in
      case pipeline_outcome u of
        None \<Rightarrow> SupervisorWaits
      | Some res \<Rightarrow> (case su_received u of Some sig \<Rightarrow> SupervisorKilledBy sig | None \<Rightarrow> SupervisorExit (pl_exitCode res)))"

subsection \<open>What the exit code says\<close>

text \<open>Everything but its own signals stays as it is when the children are signalled.\<close>

lemma signal_stages_keeps:
  "su_error (snd (signal_stages sk sig stages u)) = su_error u" "su_ioError (snd (signal_stages sk sig stages u)) = su_ioError u"
  "su_closed (snd (signal_stages sk sig stages u)) = su_closed u" "su_received (snd (signal_stages sk sig stages u)) = su_received u"
  "su_running (snd (signal_stages sk sig stages u)) = su_running u" "su_terminating (snd (signal_stages sk sig stages u)) = su_terminating u"
  "su_forceTimer (snd (signal_stages sk sig stages u)) = su_forceTimer u"
  by (induction sk sig stages u rule: signal_stages.induct) (auto simp: Let_def split: option.splits)

declare signal_stages.simps [simp del]

lemma uncaught_keeps:
  "su_error (uncaught_of p) = su_error (snd p)" "su_ioError (uncaught_of p) = su_ioError (snd p)"
  "su_closed (uncaught_of p) = su_closed (snd p)" "su_received (uncaught_of p) = su_received (snd p)"
  "su_running (uncaught_of p) = su_running (snd p)" "su_signals (uncaught_of p) = su_signals (snd p)"
  "su_terminating (uncaught_of p) = su_terminating (snd p)" "su_forceTimer (uncaught_of p) = su_forceTimer (snd p)"
  by (simp_all add: uncaught_of_def split: prod.splits option.splits)

lemma terminate_children_cases:
  obtains (already) "su_terminating u" "terminate_children sk u = u"
  | (signalled) e u1 where "\<not> su_terminating u"
      "signal_stages sk SIGTERM [Producer, Consumer] (u\<lparr>su_terminating := True\<rparr>) = (e, u1)"
      "terminate_children sk u = (if e = None then u1\<lparr>su_forceTimer := True\<rparr> else uncaught_of (e, u1))"
proof (cases "su_terminating u")
  case True
  then show ?thesis using already by (simp add: terminate_children_def)
next
  case False
  obtain e u1 where "signal_stages sk SIGTERM [Producer, Consumer] (u\<lparr>su_terminating := True\<rparr>) = (e, u1)" by (metis surj_pair)
  then show ?thesis using signalled False by (cases e) (simp_all add: terminate_children_def)
qed

lemma terminate_keeps:
  "su_error (terminate_children sk u) = su_error u" "su_ioError (terminate_children sk u) = su_ioError u"
  "su_closed (terminate_children sk u) = su_closed u" "su_received (terminate_children sk u) = su_received u"
  "su_running (terminate_children sk u) = su_running u"
  using signal_stages_keeps[of sk SIGTERM "[Producer, Consumer]" "u\<lparr>su_terminating := True\<rparr>"]
  by (cases rule: terminate_children_cases[of u sk]; auto simp: uncaught_keeps)+

lemmas supervise_keeps = signal_stages_keeps uncaught_keeps terminate_keeps

text \<open>What an event leaves behind for good.\<close>

lemma step_error_mark: "su_error u s = Some x \<Longrightarrow> \<exists>y. su_error (supervise_step sk e u) s = Some y"
  by (cases e) (simp_all add: record_io_error_def stage_error_def supervise_keeps Let_def)

lemma step_io_mark: "su_ioError u = Some x \<Longrightarrow> su_ioError (supervise_step sk e u) = Some x"
  by (cases e) (simp_all add: record_io_error_def stage_error_def supervise_keeps Let_def)

lemma step_received_mark: "su_received u = Some x \<Longrightarrow> su_received (supervise_step sk e u) = Some x"
  by (cases e) (simp_all add: record_io_error_def stage_error_def supervise_keeps Let_def)

lemma step_closed_mark: "su_closed u s = Some c \<Longrightarrow> su_closed (supervise_step sk e u) s = Some c"
  by (cases e) (auto simp: record_io_error_def stage_error_def supervise_keeps Let_def)

lemmas step_marks = step_error_mark step_io_mark step_received_mark step_closed_mark

lemma run_marks:
  "su_error u s \<noteq> None \<Longrightarrow> su_error (fold (supervise_step sk) events u) s \<noteq> None"
  "su_ioError u \<noteq> None \<Longrightarrow> su_ioError (fold (supervise_step sk) events u) \<noteq> None"
  "su_received u \<noteq> None \<Longrightarrow> su_received (fold (supervise_step sk) events u) \<noteq> None"
proof -
  show "su_error u s \<noteq> None \<Longrightarrow> su_error (fold (supervise_step sk) events u) s \<noteq> None"
    by (induction events arbitrary: u) (simp, metis fold_simps(2) not_None_eq step_error_mark)
  show "su_ioError u \<noteq> None \<Longrightarrow> su_ioError (fold (supervise_step sk) events u) \<noteq> None"
    by (induction events arbitrary: u) (simp, metis fold_simps(2) not_None_eq step_io_mark)
  show "su_received u \<noteq> None \<Longrightarrow> su_received (fold (supervise_step sk) events u) \<noteq> None"
    by (induction events arbitrary: u) (simp, metis fold_simps(2) not_None_eq step_received_mark)
qed

lemma step_sets_mark:
  "su_error (supervise_step sk (StageError s cause) u) s \<noteq> None"
  "ca_code cause \<noteq> Some ''EPIPE'' \<Longrightarrow> su_ioError (supervise_step sk (StreamError cause) u) \<noteq> None"
  "su_received (supervise_step sk (SignalReceived sig) u) \<noteq> None"
  by (simp_all add: record_io_error_def stage_error_def supervise_keeps Let_def)

lemma event_marks:
  assumes "e \<in> set events" and "\<And>u. P (supervise_step sk e u)" and "\<And>u evs. P u \<Longrightarrow> P (fold (supervise_step sk) evs u)"
  shows "P (supervise sk events)"
proof -
  obtain before later where "events = before @ e # later" using assms(1) by (meson split_list)
  then show ?thesis using assms(2,3) by (simp add: supervise_def)
qed

lemma closed_by_event:
  assumes "su_closed (fold (supervise_step sk) events u) s = Some r" "su_closed u s = None"
  shows "\<exists>before later. events = before @ StageClosed s (sr_exitCode r) (sr_signal r) # later \<and>
    sr_spawnError r = su_error (fold (supervise_step sk) before u) s"
  using assms
proof (induction events arbitrary: u)
  case (Cons e events)
  show ?case
  proof (cases "su_closed (supervise_step sk e u) s")
    case None
    then obtain before later where "events = before @ StageClosed s (sr_exitCode r) (sr_signal r) # later"
      "sr_spawnError r = su_error (fold (supervise_step sk) before (supervise_step sk e u)) s"
      using Cons.IH[of "supervise_step sk e u"] Cons.prems(1) by auto
    then show ?thesis by (intro exI[of _ "e # before"] exI[of _ later]) simp
  next
    case (Some r1)
    have e: "e = StageClosed s (sr_exitCode r1) (sr_signal r1) \<and> sr_spawnError r1 = su_error u s"
      using Some Cons.prems(2)
      by (cases e) (auto simp: record_io_error_def stage_error_def supervise_keeps Let_def split: if_splits)
    have "su_closed (fold (supervise_step sk) evs v) s = Some r1" if "su_closed v s = Some r1" for evs v
      using that step_closed_mark by (induction evs arbitrary: v) auto
    then have "r = r1" using Some Cons.prems(1) by simp
    then show ?thesis using e by (intro exI[of _ "[]"] exI[of _ events]) simp
  qed
qed simp

text \<open>C39. The supervisor reports success only for a pipeline in which nothing went wrong: when it exits with code 0, both
  children closed without a signal, without an exit code other than 0 and without an error before, no stream failed
  except by a closed pipe, and the supervisor itself received no signal.\<close>

theorem pipeline_success_is_honest:
  assumes "run_signal_aware_pipeline sk events = SupervisorExit 0"
  shows "(\<forall>stage. \<exists>before exitCode sig later. events = before @ StageClosed stage exitCode sig # later \<and>
      exitCode \<in> {None, Some 0} \<and> \<not> truthy sig \<and> (\<forall>cause. StageError stage cause \<notin> set before)) \<and>
    (\<forall>cause. StreamError cause \<in> set events \<longrightarrow> ca_code cause = Some ''EPIPE'') \<and>
    (\<forall>sig. SignalReceived sig \<notin> set events)"
proof -
  let ?u = "supervise sk events"
  obtain p c where closed: "su_closed ?u Producer = Some p" "su_closed ?u Consumer = Some c" "su_received ?u = None"
    and code: "resolve_pipeline_exit_code p c (su_ioError ?u) = 0"
    using assms by (auto simp: run_signal_aware_pipeline_def pipeline_outcome_def Let_def split: option.splits)
  have clean: "sr_spawnError r = None" "\<not> truthy (sr_signal r)" "sr_exitCode r \<in> {None, Some 0}" "su_ioError ?u = None"
    if "r \<in> {p, c}" for r
    using code that by (auto simp: resolve_pipeline_exit_code_def split: if_splits option.splits)
  have "\<exists>before exitCode sig later. events = before @ StageClosed stage exitCode sig # later \<and>
      exitCode \<in> {None, Some 0} \<and> \<not> truthy sig \<and> (\<forall>cause. StageError stage cause \<notin> set before)" for stage
  proof -
    obtain r where r: "su_closed ?u stage = Some r" "r \<in> {p, c}" using closed by (cases stage) auto
    obtain before later where at: "events = before @ StageClosed stage (sr_exitCode r) (sr_signal r) # later"
      "sr_spawnError r = su_error (supervise sk before) stage"
      using closed_by_event[of sk events started_pipeline stage r] r(1) by (auto simp: supervise_def started_pipeline_def)
    have "StageError stage cause \<notin> set before" for cause
    proof
      assume "StageError stage cause \<in> set before"
      then have "su_error (supervise sk before) stage \<noteq> None"
        by (rule event_marks[where P = "\<lambda>u. su_error u stage \<noteq> None"]) (fact step_sets_mark(1), erule run_marks(1))
      with at(2) clean(1)[OF r(2)] show False by simp
    qed
    with at(1) clean(2,3)[OF r(2)] show ?thesis by blast
  qed
  moreover have "ca_code cause = Some ''EPIPE''" if "StreamError cause \<in> set events" for cause
  proof (rule ccontr)
    assume other: "ca_code cause \<noteq> Some ''EPIPE''"
    from that have "su_ioError ?u \<noteq> None"
      by (rule event_marks[where P = "\<lambda>u. su_ioError u \<noteq> None"]) (rule step_sets_mark(2)[OF other], erule run_marks(2))
    with clean(4)[of p] show False by simp
  qed
  moreover have "SignalReceived sig \<notin> set events" for sig
  proof
    assume "SignalReceived sig \<in> set events"
    then have "su_received ?u \<noteq> None"
      by (rule event_marks[where P = "\<lambda>u. su_received u \<noteq> None"]) (fact step_sets_mark(3), erule run_marks(3))
    with closed(3) show False by simp
  qed
  ultimately show ?thesis by blast
qed

subsection \<open>Which children are signalled\<close>

definition sent_to :: "supervised \<Rightarrow> pipeline_stage \<Rightarrow> process_signal list" where
  "sent_to u s = map snd (filter (\<lambda>(s', _). s' = s) (su_signals u))"

definition signal_plan :: "pipeline_stage \<Rightarrow> supervised \<Rightarrow> bool" where
  "signal_plan s u \<longleftrightarrow>
     (if \<not> su_terminating u then sent_to u s = [] \<and> \<not> su_forceTimer u
      else if su_forceTimer u then sent_to u s = [SIGTERM] \<or> sent_to u s = [] \<and> \<not> su_running u s
      else sent_to u s \<in> {[], [SIGTERM], [SIGTERM, SIGKILL]})"

lemma signal_both:
  "sent_to (snd (signal_stages sk sig [Producer, Consumer] u)) s \<in> {sent_to u s, sent_to u s @ [sig]}"
  "\<not> su_running u s \<Longrightarrow> sent_to (snd (signal_stages sk sig [Producer, Consumer] u)) s = sent_to u s"
  "fst (signal_stages sk sig [Producer, Consumer] u) = None \<Longrightarrow> su_running u s \<Longrightarrow>
     sent_to (snd (signal_stages sk sig [Producer, Consumer] u)) s = sent_to u s @ [sig]"
  by (cases s; auto simp: signal_stages.simps Let_def sent_to_def split: option.splits)+

lemma plan_unchanged:
  assumes "signal_plan s u" "su_terminating u' = su_terminating u" "su_forceTimer u' = su_forceTimer u"
    and "su_signals u' = su_signals u" "su_running u' s \<Longrightarrow> su_running u s"
  shows "signal_plan s u'"
proof -
  have "sent_to u' s = sent_to u s" using assms(4) by (simp add: sent_to_def)
  then show ?thesis using assms(1-3,5) by (auto simp: signal_plan_def split: if_splits)
qed

lemma terminate_plan: "signal_plan s u \<Longrightarrow> signal_plan s (terminate_children sk u)"
proof (cases rule: terminate_children_cases[of u sk])
  case (signalled e u1)
  assume "signal_plan s u"
  then have start: "sent_to (u\<lparr>su_terminating := True\<rparr>) s = []" using signalled(1) by (simp add: signal_plan_def sent_to_def)
  note both = signal_both[where sk = sk and sig = SIGTERM and u = "u\<lparr>su_terminating := True\<rparr>" and s = s]
    and keeps = signal_stages_keeps[of sk SIGTERM "[Producer, Consumer]" "u\<lparr>su_terminating := True\<rparr>"]
  have u1: "sent_to u1 s \<in> {[], [SIGTERM]}" "su_terminating u1" "su_forceTimer u1 = su_forceTimer u" "su_running u1 = su_running u"
    "e = None \<Longrightarrow> su_running u s \<Longrightarrow> sent_to u1 s = [SIGTERM]"
    using both keeps signalled(2) start by simp_all
  have idle: "\<not> su_forceTimer u" using \<open>signal_plan s u\<close> signalled(1) by (simp add: signal_plan_def)
  show ?thesis
  proof (cases e)
    case None
    then show ?thesis using u1 signalled(3) by (auto simp: signal_plan_def sent_to_def)
  next
    case (Some x)
    then show ?thesis using u1 idle signalled(3) by (auto simp: signal_plan_def sent_to_def uncaught_keeps)
  qed
qed simp

lemma kill_plan_stages:
  assumes "signal_plan s u" "su_forceTimer u"
  shows "signal_plan s (uncaught_of (signal_stages sk SIGKILL [Producer, Consumer] (u\<lparr>su_forceTimer := False\<rparr>)))"
proof -
  have going: "su_terminating u" using assms by (auto simp: signal_plan_def split: if_splits)
  have sent: "sent_to u s = [SIGTERM] \<or> sent_to u s = [] \<and> \<not> su_running u s" using assms going by (simp add: signal_plan_def)
  let ?p = "signal_stages sk SIGKILL [Producer, Consumer] (u\<lparr>su_forceTimer := False\<rparr>)"
  have "sent_to (snd ?p) s \<in> {[], [SIGTERM], [SIGTERM, SIGKILL]}"
    using signal_both(1)[where sk = sk and sig = SIGKILL and u = "u\<lparr>su_forceTimer := False\<rparr>" and s = s]
      signal_both(2)[where sk = sk and sig = SIGKILL and u = "u\<lparr>su_forceTimer := False\<rparr>" and s = s] sent by (auto simp: sent_to_def)
  moreover have "sent_to (uncaught_of ?p) s = sent_to (snd ?p) s" by (simp add: sent_to_def uncaught_keeps)
  ultimately show ?thesis using going by (simp add: signal_plan_def uncaught_keeps signal_stages_keeps)
qed

lemma signal_plan_step: "signal_plan s u \<Longrightarrow> signal_plan s (supervise_step sk e u)"
proof -
  assume u: "signal_plan s u"
  have same: "signal_plan s u'" if "su_terminating u' = su_terminating u" "su_forceTimer u' = su_forceTimer u"
    "su_signals u' = su_signals u" "su_running u' s \<Longrightarrow> su_running u s" for u' :: supervised
    by (rule plan_unchanged[OF u that])
  show ?thesis
  proof (cases e)
    case (StreamError cause)
    have "signal_plan s (u\<lparr>su_ioError := x\<rparr>)" for x by (rule same) simp_all
    with u StreamError show ?thesis by (simp add: record_io_error_def terminate_plan)
  next
    case (StageError stage cause)
    have "signal_plan s (u\<lparr>su_error := x\<rparr>)" for x by (rule same) simp_all
    moreover have "signal_plan s (uncaught_of (Some cause, u))" by (rule same) (simp_all add: uncaught_keeps)
    ultimately show ?thesis using StageError by (simp add: stage_error_def terminate_plan)
  next
    case (StageExited stage)
    have "signal_plan s (u\<lparr>su_running := (su_running u)(stage := False)\<rparr>)" by (rule same) (auto split: if_splits)
    with StageExited show ?thesis by (cases stage) (auto simp: Let_def intro: terminate_plan)
  next
    case (StageClosed stage exitCode signal)
    then show ?thesis by (intro same) (auto split: if_splits)
  next
    case ProducerOutputEnded
    then show ?thesis by (intro same) simp_all
  next
    case ForceKill
    then show ?thesis using u kill_plan_stages by simp
  next
    case (SignalReceived sig)
    have "signal_plan s (u\<lparr>su_received := x\<rparr>)" "signal_plan s (u\<lparr>su_received := x, su_aborted := True\<rparr>)" for x
      by (rule same; simp)+
    with SignalReceived show ?thesis by (simp add: Let_def terminate_plan)
  qed
qed

lemma sent_to_updates [simp]:
  "sent_to (u\<lparr>su_ioError := a\<rparr>) s = sent_to u s" "sent_to (u\<lparr>su_error := b\<rparr>) s = sent_to u s"
  "sent_to (u\<lparr>su_running := c\<rparr>) s = sent_to u s" "sent_to (u\<lparr>su_closed := d\<rparr>) s = sent_to u s"
  "sent_to (u\<lparr>su_outputEnded := o1\<rparr>) s = sent_to u s" "sent_to (u\<lparr>su_received := f\<rparr>) s = sent_to u s"
  "sent_to (u\<lparr>su_aborted := o1\<rparr>) s = sent_to u s" "sent_to (u\<lparr>su_terminating := o1\<rparr>) s = sent_to u s"
  "sent_to (u\<lparr>su_forceTimer := o1\<rparr>) s = sent_to u s" "sent_to (uncaught_of p) s = sent_to (snd p) s"
  by (simp_all add: sent_to_def uncaught_keeps)

lemma not_running_step:
  assumes "\<not> su_running u s"
  shows "\<not> su_running (supervise_step sk e u) s \<and> sent_to (supervise_step sk e u) s = sent_to u s"
proof -
  have quiet: "sent_to (terminate_children sk v) s = sent_to v s" if "\<not> su_running v s" for v
    using signal_both(2)[of "v\<lparr>su_terminating := True\<rparr>" s sk SIGTERM] that
    by (cases rule: terminate_children_cases[of v sk]) auto
  have kill: "sent_to (snd (signal_stages sk SIGKILL [Producer, Consumer] (u\<lparr>su_forceTimer := False\<rparr>))) s = sent_to u s"
    using signal_both(2)[of "u\<lparr>su_forceTimer := False\<rparr>" s sk SIGKILL] assms by simp
  show ?thesis
    using assms by (cases e) (simp_all add: record_io_error_def stage_error_def supervise_keeps Let_def quiet kill)
qed

text \<open>A child that ended is never signalled again, and a running one gets SIGTERM before SIGKILL, each at most once.\<close>

theorem supervisor_signals_running_stages:
  "sent_to (supervise sk events) s \<in> {[], [SIGTERM], [SIGTERM, SIGKILL]} \<and>
   sent_to (supervise sk (before @ StageExited s # later)) s = sent_to (supervise sk (before @ [StageExited s])) s"
proof -
  have "signal_plan s (fold (supervise_step sk) events u)" if "signal_plan s u" for u
    using that by (induction events arbitrary: u) (simp_all add: signal_plan_step)
  moreover have "signal_plan s started_pipeline" by (simp add: started_pipeline_def signal_plan_def sent_to_def)
  ultimately have "signal_plan s (supervise sk events)" by (simp add: supervise_def)
  moreover have "sent_to (fold (supervise_step sk) later u) s = sent_to u s" if "\<not> su_running u s" for u
    using that not_running_step by (induction later arbitrary: u) auto
  moreover have "\<not> su_running (supervise sk (before @ [StageExited s])) s"
    by (simp add: supervise_def Let_def terminate_keeps)
  ultimately show ?thesis
    by (auto simp: signal_plan_def supervise_def split: if_splits)
qed

definition sample_pipeline :: "pipeline_event list" where
  "sample_pipeline = [ProducerOutputEnded, StageExited Producer, StageClosed Producer (Some 0) None, StageExited Consumer,
     StageClosed Consumer (Some 0) None]"

theorem pipeline_success_is_honest_witness: "\<forall>sig. SignalReceived sig \<notin> set sample_pipeline"
proof -
  have "run_signal_aware_pipeline (\<lambda>_. sample_kill) sample_pipeline = SupervisorExit 0" by code_simp
  from pipeline_success_is_honest[OF this] show ?thesis by blast
qed

end
