(* ===== verification/Git_Executable.thy ===== *)
theory Git_Executable
  imports Posix_Paths
begin

text \<open>
  Which Git the program runs, \<open>src/src/modules/git/git-executable.ts\<close>, and the entry point that selects it for the
  duration of one invocation, \<open>src/src/entrypoints/git-commits-push.ts\<close>. On an old macOS the Git of the Apple
  toolchain is put first on \<open>PATH\<close> by a wrapper script in a temporary directory; elsewhere nothing changes. What the
  platform answers is \<open>git_host\<close>; the part of the process and of the file system the activation touches is
  \<open>git_process\<close>.
\<close>

subsection \<open>The process\<close>

record git_host =
  gh_platform :: string
  gh_kernelRelease :: string
  gh_developerGit :: "string + string"
  gh_realpath :: "string \<Rightarrow> string + string"
  gh_stat :: "string \<Rightarrow> string + bool \<times> nat" \<comment> \<open>\<open>isFile()\<close> and \<open>mode\<close>\<close>
  gh_versionOutput :: "string \<Rightarrow> string + string"
  gh_tmpdir :: string
  gh_mkdtemp :: "string \<Rightarrow> string + string"
  gh_writeFile :: "string option" \<comment> \<open>the error of \<open>writeFileSync\<close>, if it throws\<close>
  gh_createdMode :: nat \<comment> \<open>the mode of a new file after the umask\<close>
  gh_chmod :: "string option"
  gh_remove :: "string option"

record git_process =
  gp_PATH :: "string option"
  gp_directories :: "string set"
  gp_files :: "string \<Rightarrow> (string \<times> nat) option"

datatype git_selection_error =
    CannotResolveToolchainGit string
  | NonAbsoluteGitPath
  | ToolchainGitUnavailable string
  | VersionCheckFailed string
  | UnrecognizedVersion
  | GitTooOld int int int
  | WrapperError string

subsection \<open>Selection\<close>

definition MAXIMUM_LEGACY_DARWIN_KERNEL_MAJOR :: int where "MAXIMUM_LEGACY_DARWIN_KERNEL_MAJOR = 17"

definition MINIMUM_GIT_VERSION :: "int \<times> int \<times> int" where "MINIMUM_GIT_VERSION = (2, 17, 0)"

definition is_legacy_darwin :: "string \<Rightarrow> string \<Rightarrow> bool" where
  "is_legacy_darwin platform kernelRelease =
     (if platform \<noteq> ''darwin'' then False
      else case parse_int (hd (split_on (CHR ''.'') kernelRelease)) of
        None \<Rightarrow> False
      | Some kernelMajor \<Rightarrow> kernelMajor \<le> MAXIMUM_LEGACY_DARWIN_KERNEL_MAJOR)"

text \<open>\<open>/^git version (\d+)\.(\d+)(?:\.(\d+))?/u\<close>: one group of digits, and the text behind it.\<close>

definition digit_group :: "string \<Rightarrow> (int \<times> string) option" where
  "digit_group s = (let ds = takeWhile is_digit s in
     if ds = [] then None else Some (digits_value 0 ds, dropWhile is_digit s))"

definition git_version_prefix :: string where "git_version_prefix = ''git version ''"

text \<open>\<open>(?:\.(\d+))?\<close>.\<close>

definition optional_patch :: "string \<Rightarrow> int" where
  "optional_patch s =
     (if s = [] \<or> hd s \<noteq> CHR ''.'' then 0
      else case digit_group (tl s) of None \<Rightarrow> 0 | Some (patch, _) \<Rightarrow> patch)"

definition match_git_version :: "string \<Rightarrow> (int \<times> int \<times> int) option" where
  "match_git_version output =
     (if \<not> starts_with git_version_prefix output then None
      else case digit_group (drop (length git_version_prefix) output) of
        None \<Rightarrow> None
      | Some (major, rest) \<Rightarrow>
          (if rest = [] \<or> hd rest \<noteq> CHR ''.'' then None
           else case digit_group (tl rest) of
             None \<Rightarrow> None
           | Some (minor, rest1) \<Rightarrow> Some (major, minor, optional_patch rest1)))"

definition version_supported :: "int \<times> int \<times> int \<Rightarrow> bool" where
  "version_supported v =
     (case (v, MINIMUM_GIT_VERSION) of ((major, minor, patch), (major0, minor0, patch0)) \<Rightarrow>
        major > major0 \<or> major = major0 \<and> (minor > minor0 \<or> minor = minor0 \<and> patch \<ge> patch0))"

text \<open>\<open>mode & 0o111\<close>: one of the three execute bits.\<close>

definition has_execute_bit :: "nat \<Rightarrow> bool" where
  "has_execute_bit mode \<longleftrightarrow> mode mod 2 = 1 \<or> mode div 8 mod 2 = 1 \<or> mode div 64 mod 2 = 1"

definition real_executable :: "git_host \<Rightarrow> string \<Rightarrow> git_selection_error + string" where
  "real_executable h candidate =
     (case gh_realpath h candidate of
        Inl e \<Rightarrow> Inl (ToolchainGitUnavailable e)
      | Inr executable \<Rightarrow>
          (case gh_stat h executable of
             Inl e \<Rightarrow> Inl (ToolchainGitUnavailable e)
           | Inr (isFile, mode) \<Rightarrow>
               if \<not> isFile \<or> \<not> has_execute_bit mode
               then Inl (ToolchainGitUnavailable ''resolved path is not an executable file'')
               else Inr executable))"

definition check_version :: "git_host \<Rightarrow> string \<Rightarrow> git_selection_error + string" where
  "check_version h executable =
     (case gh_versionOutput h executable of
        Inl e \<Rightarrow> Inl (VersionCheckFailed e)
      | Inr output \<Rightarrow>
          (case match_git_version (trim output) of
             None \<Rightarrow> Inl UnrecognizedVersion
           | Some (major, minor, patch) \<Rightarrow>
               if \<not> version_supported (major, minor, patch) then Inl (GitTooOld major minor patch)
               else Inr executable))"

definition validate_git_executable :: "git_host \<Rightarrow> string \<Rightarrow> git_selection_error + string" where
  "validate_git_executable h candidate =
     (if \<not> is_absolute candidate then Inl NonAbsoluteGitPath
      else case real_executable h candidate of
        Inl e \<Rightarrow> Inl e
      | Inr executable \<Rightarrow> check_version h executable)"

definition resolve_git_executable :: "git_host \<Rightarrow> git_selection_error + string" where
  "resolve_git_executable h =
     (if \<not> is_legacy_darwin (gh_platform h) (gh_kernelRelease h) then Inr ''git''
      else case gh_developerGit h of
        Inl e \<Rightarrow> Inl (CannotResolveToolchainGit e)
      | Inr candidate \<Rightarrow> validate_git_executable h candidate)"


subsection \<open>Activation\<close>

text \<open>\<open>value.replaceAll("'", "'\\''")\<close> inside single quotes.\<close>

definition quote_char :: "char \<Rightarrow> string" where
  "quote_char c = (if c = CHR 0x27 then [CHR 0x27, CHR 0x5C, CHR 0x27, CHR 0x27] else [c])"

definition quote_shell_argument :: "string \<Rightarrow> string" where
  "quote_shell_argument value = [CHR 0x27] @ concat (map quote_char value) @ [CHR 0x27]"

text \<open>The script: \<open>#!/bin/sh\<close>, then \<open>exec <executable> "$@"\<close>.\<close>

definition wrapper_shebang :: string where "wrapper_shebang = ''#!/bin/sh'' @ [CHR 0x0A]"

definition wrapper_arguments :: string where
  "wrapper_arguments = '' '' @ [CHR 0x22] @ ''$@'' @ [CHR 0x22, CHR 0x0A]"

definition wrapper_script :: "string \<Rightarrow> string" where
  "wrapper_script executable =
     wrapper_shebang @ ''exec '' @ quote_shell_argument executable @ wrapper_arguments"

definition OWNER_EXECUTABLE_MODE :: nat where "OWNER_EXECUTABLE_MODE = 448" \<comment> \<open>\<open>0o700\<close>\<close>

text \<open>\<open>rmSync(directory, { force: true, recursive: true })\<close>.\<close>

definition remove_directory :: "git_host \<Rightarrow> string \<Rightarrow> git_process \<Rightarrow> string option \<times> git_process" where
  "remove_directory h directory p =
     (case gh_remove h of
        Some e \<Rightarrow> (Some e, p)
      | None \<Rightarrow> (None, p\<lparr>gp_directories := gp_directories p - {directory},
                         gp_files := (gp_files p)(path_join directory ''git'' := None)\<rparr>))"

text \<open>The script is written and made executable; an error removes the directory and is thrown again.\<close>

definition write_wrapper :: "git_host \<Rightarrow> string \<Rightarrow> string \<Rightarrow> git_process \<Rightarrow> string option \<times> git_process" where
  "write_wrapper h directory executable p =
     (let wrapper = path_join directory ''git'' in
      case gh_writeFile h of
        Some e \<Rightarrow> (Some e, p)
      | None \<Rightarrow>
          (let p1 = p\<lparr>gp_files := (gp_files p)(wrapper \<mapsto> (wrapper_script executable, gh_createdMode h))\<rparr> in
           case gh_chmod h of
             Some e \<Rightarrow> (Some e, p1)
           | None \<Rightarrow>
               (None, p1\<lparr>gp_files := (gp_files p1)(wrapper \<mapsto> (wrapper_script executable, OWNER_EXECUTABLE_MODE))\<rparr>)))"

record git_activation =
  ga_executable :: string
  ga_directory :: "string option" \<comment> \<open>absent: \<open>restore\<close> does nothing\<close>
  ga_originalPath :: "string option"
  ga_active :: bool

definition path_with :: "string \<Rightarrow> string option \<Rightarrow> string" where
  "path_with directory originalPath =
     (case originalPath of
        None \<Rightarrow> directory
      | Some value \<Rightarrow> if value = [] then directory else directory @ '':'' @ value)"

definition activate_git_executable_for_process ::
  "git_host \<Rightarrow> git_process \<Rightarrow> (git_selection_error + git_activation) \<times> git_process" where
  "activate_git_executable_for_process h p =
     (case resolve_git_executable h of
        Inl e \<Rightarrow> (Inl e, p)
      | Inr executable \<Rightarrow>
          if \<not> is_absolute executable
          then (Inr \<lparr>ga_executable = executable, ga_directory = None, ga_originalPath = None, ga_active = False\<rparr>, p)
          else
            (case gh_mkdtemp h (path_join (gh_tmpdir h) ''git-commits-push-git-'') of
               Inl e \<Rightarrow> (Inl (WrapperError e), p)
             | Inr directory \<Rightarrow>
                 (let p1 = p\<lparr>gp_directories := insert directory (gp_directories p)\<rparr> in
                  case write_wrapper h directory executable p1 of
                    (Some e, p2) \<Rightarrow>
                      (case remove_directory h directory p2 of
                         (Some e2, p3) \<Rightarrow> (Inl (WrapperError e2), p3)
                       | (None, p3) \<Rightarrow> (Inl (WrapperError e), p3))
                  | (None, p2) \<Rightarrow>
                      (Inr \<lparr>ga_executable = executable, ga_directory = Some directory,
                           ga_originalPath = gp_PATH p, ga_active = True\<rparr>,
                       p2\<lparr>gp_PATH := Some (path_with directory (gp_PATH p))\<rparr>))))"

definition restore_git_executable ::
  "git_host \<Rightarrow> git_activation \<Rightarrow> git_process \<Rightarrow> git_activation \<times> git_process" where
  "restore_git_executable h a p =
     (case ga_directory a of
        None \<Rightarrow> (a, p)
      | Some directory \<Rightarrow>
          if \<not> ga_active a then (a, p)
          else (a\<lparr>ga_active := False\<rparr>,
                snd (remove_directory h directory (p\<lparr>gp_PATH := ga_originalPath a\<rparr>))))"

text \<open>\<open>runStandaloneCli\<close>: what the launcher does in between is \<open>launcher\<close>; it gets the directory of the compiled
  application, which may fail to resolve.\<close>

datatype cli_error = CliGitError git_selection_error | CliError string

definition run_standalone_cli ::
  "git_host \<Rightarrow> string + string \<Rightarrow> (string \<Rightarrow> git_process \<Rightarrow> (string + int) \<times> git_process) \<Rightarrow>
     git_process \<Rightarrow> (cli_error + int) \<times> git_process" where
  "run_standalone_cli h applicationDirectory launcher p =
     (case activate_git_executable_for_process h p of
        (Inl e, p1) \<Rightarrow> (Inl (CliGitError e), p1)
      | (Inr activation, p1) \<Rightarrow>
          (let (r, p2) = (case applicationDirectory of
                            Inl e \<Rightarrow> (Inl e, p1)
                          | Inr directory \<Rightarrow> launcher directory p1)
           in (map_sum CliError id r, snd (restore_git_executable h activation p2))))"

subsection \<open>What the shell reads\<close>

text \<open>One word of a shell command without expansions: quoted text is literal, a backslash outside quotes makes the next
  character literal, an unquoted blank ends the word. \<^const>\<open>None\<close> is an open quote.\<close>

fun shell_word :: "bool \<Rightarrow> string \<Rightarrow> (string \<times> string) option" where
  "shell_word quoted [] = (if quoted then None else Some ([], []))"
| "shell_word True (c # s) =
     (if c = CHR 0x27 then shell_word False s
      else map_option (\<lambda>(w, rest). (c # w, rest)) (shell_word True s))"
| "shell_word False (c # s) =
     (if c = CHR 0x27 then shell_word True s
      else if c = CHR '' '' then Some ([], c # s)
      else if c = CHR 0x5C then
        (case s of [] \<Rightarrow> Some ([], []) | d # s' \<Rightarrow> map_option (\<lambda>(w, rest). (d # w, rest)) (shell_word False s'))
      else map_option (\<lambda>(w, rest). (c # w, rest)) (shell_word False s))"

lemma shell_word_quoted:
  "shell_word True (concat (map quote_char arg) @ CHR 0x27 # CHR '' '' # rest) = Some (arg, CHR '' '' # rest)"
  by (induction arg) (auto simp: quote_char_def)

text \<open>Whatever characters a path has, the shell reads it back as one word.\<close>

lemma shell_reads_quoted_argument:
  "shell_word False (quote_shell_argument arg @ CHR '' '' # rest) = Some (arg, CHR '' '' # rest)"
  using shell_word_quoted[of arg rest] by (simp add: quote_shell_argument_def)

subsection \<open>Selection is validated\<close>

lemma validated_git_executable:
  assumes "validate_git_executable h candidate = Inr executable"
  obtains mode answer version where "gh_realpath h candidate = Inr executable"
    "gh_stat h executable = Inr (True, mode)" "has_execute_bit mode"
    "gh_versionOutput h executable = Inr answer" "match_git_version (trim answer) = Some version"
    "version_supported version"
proof -
  from assms obtain e1 where e: "real_executable h candidate = Inr e1" "check_version h e1 = Inr executable"
    by (auto simp: validate_git_executable_def split: if_splits sum.splits)
  from e(2) obtain answer version where v: "gh_versionOutput h e1 = Inr answer"
      "match_git_version (trim answer) = Some version" "version_supported version" "e1 = executable"
    by (auto simp: check_version_def split: sum.splits option.splits if_splits prod.splits)
  from e(1) obtain mode where "gh_realpath h candidate = Inr e1" "gh_stat h e1 = Inr (True, mode)" "has_execute_bit mode"
    by (auto simp: real_executable_def split: sum.splits if_splits prod.splits)
  with v show ?thesis using that by blast
qed


text \<open>An answer to \<open>git --version\<close> of Git 2.17 or newer: the prefix, a group of digits, a point and a group of
  digits, and then no further digit.\<close>

definition answers_modern_git :: "string \<Rightarrow> bool" where
  "answers_modern_git answer \<longleftrightarrow>
     (\<exists>major minor rest. answer = ''git version '' @ major @ ''.'' @ minor @ rest \<and>
        major \<noteq> [] \<and> minor \<noteq> [] \<and> (\<forall>c \<in> set (major @ minor). is_digit c) \<and> (rest = [] \<or> \<not> is_digit (hd rest)) \<and>
        (digits_value 0 major > 2 \<or> digits_value 0 major = 2 \<and> digits_value 0 minor \<ge> 17))"

text \<open>The executable is the real path of what the Apple toolchain named, a file somebody may execute, and it answered
  with a supported version itself.\<close>

definition validated_git :: "git_host \<Rightarrow> string \<Rightarrow> bool" where
  "validated_git h executable \<longleftrightarrow>
     (\<exists>candidate mode answer. gh_developerGit h = Inr candidate \<and> gh_realpath h candidate = Inr executable \<and>
        gh_stat h executable = Inr (True, mode) \<and>
        (mode mod 2 = 1 \<or> mode div 8 mod 2 = 1 \<or> mode div 64 mod 2 = 1) \<and>
        gh_versionOutput h executable = Inr answer \<and> answers_modern_git (trim answer))"

lemma digit_group_splits:
  assumes "digit_group s = Some (v, rest)"
  shows "\<exists>ds. s = ds @ rest \<and> ds \<noteq> [] \<and> (\<forall>c \<in> set ds. is_digit c) \<and> (rest = [] \<or> \<not> is_digit (hd rest)) \<and>
    v = digits_value 0 ds"
proof (intro exI conjI)
  show "s = takeWhile is_digit s @ rest" "takeWhile is_digit s \<noteq> []" "v = digits_value 0 (takeWhile is_digit s)"
    using assms by (auto simp: digit_group_def Let_def split: if_splits)
  show "\<forall>c \<in> set (takeWhile is_digit s). is_digit c" by (auto dest: set_takeWhileD)
  show "rest = [] \<or> \<not> is_digit (hd rest)"
    using assms hd_dropWhile[of is_digit s] by (auto simp: digit_group_def Let_def split: if_splits)
qed

lemma supported_answer_is_modern:
  assumes "match_git_version answer = Some version" "version_supported version"
  shows "answers_modern_git answer"
proof -
  from assms(1) obtain major rest minor rest1 where m: "starts_with git_version_prefix answer"
      "digit_group (drop (length git_version_prefix) answer) = Some (major, rest)" "rest \<noteq> []" "hd rest = CHR ''.''"
      "digit_group (tl rest) = Some (minor, rest1)" "version = (major, minor, optional_patch rest1)"
    by (auto simp: match_git_version_def split: if_splits option.splits prod.splits)
  obtain ds es where d: "drop (length git_version_prefix) answer = ds @ rest" "ds \<noteq> []" "\<forall>c \<in> set ds. is_digit c"
      "major = digits_value 0 ds"
    and e: "tl rest = es @ rest1" "es \<noteq> []" "\<forall>c \<in> set es. is_digit c" "rest1 = [] \<or> \<not> is_digit (hd rest1)"
      "minor = digits_value 0 es"
    using digit_group_splits[OF m(2)] digit_group_splits[OF m(5)] by blast
  have "rest = ''.'' @ es @ rest1" using m(3,4) e(1) by (cases rest) simp_all
  moreover have "answer = git_version_prefix @ drop (length git_version_prefix) answer"
    using m(1) by (metis append_take_drop_id starts_with_def)
  ultimately have answer: "answer = ''git version '' @ ds @ ''.'' @ es @ rest1"
    using d(1) by (simp add: git_version_prefix_def)
  have "digits_value 0 ds > 2 \<or> digits_value 0 ds = 2 \<and> digits_value 0 es \<ge> 17"
    using assms(2) m(6) d(4) e(5) by (auto simp: version_supported_def MINIMUM_GIT_VERSION_def)
  moreover have "\<forall>c \<in> set (ds @ es). is_digit c" using d(3) e(3) by auto
  ultimately show ?thesis
    unfolding answers_modern_git_def
    using answer d(2) e(2,4) by (intro exI[of _ ds] exI[of _ es] exI[of _ rest1]) (intro conjI)
qed

text \<open>A release of macOS whose kernel needs the toolchain's Git: Darwin 17 (High Sierra) or older.\<close>

definition old_darwin :: "git_host \<Rightarrow> bool" where
  "old_darwin h \<longleftrightarrow> gh_platform h = ''darwin'' \<and>
     (\<exists>k. parse_int (hd (split_on (CHR ''.'') (gh_kernelRelease h))) = Some k \<and> k \<le> 17)"

lemma is_legacy_darwin_iff: "is_legacy_darwin (gh_platform h) (gh_kernelRelease h) \<longleftrightarrow> old_darwin h"
  by (auto simp: is_legacy_darwin_def old_darwin_def MAXIMUM_LEGACY_DARWIN_KERNEL_MAJOR_def split: option.splits)

lemma legacy_selection_validated:
  assumes "resolve_git_executable h = Inr executable" "old_darwin h"
  shows "validated_git h executable"
proof -
  from assms obtain candidate where c: "gh_developerGit h = Inr candidate" "validate_git_executable h candidate = Inr executable"
    by (auto simp: resolve_git_executable_def is_legacy_darwin_iff split: sum.splits)
  from c(2) show ?thesis
    by (rule validated_git_executable)
      (use c(1) supported_answer_is_modern in \<open>auto simp: validated_git_def has_execute_bit_def\<close>)
qed

subsection \<open>What runs under the name git\<close>

text \<open>The lookup of a command on \<open>PATH\<close>: the first directory with an executable file of that name.\<close>

fun first_command :: "(string \<Rightarrow> (string \<times> nat) option) \<Rightarrow> string \<Rightarrow> string list \<Rightarrow> (string \<times> nat) option" where
  "first_command files name [] = None"
| "first_command files name (d # ds) =
     (case files (path_join d name) of
        Some (content, mode) \<Rightarrow> if mode div 64 mod 2 = 1 then Some (content, mode) else first_command files name ds
      | None \<Rightarrow> first_command files name ds)"

text \<open>What a shell script with one \<open>exec\<close> line runs when it is called with arguments: \<open>"$@"\<close> stands for all of them, word
  for word; without it they are lost. \<^const>\<open>None\<close> is any other script.\<close>

definition strip_prefix :: "string \<Rightarrow> string \<Rightarrow> string option" where
  "strip_prefix prefix s = (if take (length prefix) s = prefix then Some (drop (length prefix) s) else None)"

definition shell_runs :: "string \<Rightarrow> string list \<Rightarrow> (string \<times> string list) option" where
  "shell_runs script args =
     (case strip_prefix (''#!/bin/sh'' @ [CHR 0x0A] @ ''exec '') script of
        None \<Rightarrow> None
      | Some line \<Rightarrow>
          (case shell_word False line of
             None \<Rightarrow> None
           | Some (command, rest) \<Rightarrow>
               if rest = '' '' @ [CHR 0x22] @ ''$@'' @ [CHR 0x22, CHR 0x0A] then Some (command, args)
               else if rest = '' '' @ [CHR 0x0A] then Some (command, [])
               else None))"

lemma wrapper_runs_executable: "shell_runs (wrapper_script executable) args = Some (executable, args)"
proof -
  have "strip_prefix (''#!/bin/sh'' @ [CHR 0x0A] @ ''exec '') (wrapper_script executable)
      = Some (quote_shell_argument executable @ wrapper_arguments)"
    by (simp add: strip_prefix_def wrapper_script_def wrapper_shebang_def)
  moreover have "shell_word False (quote_shell_argument executable @ wrapper_arguments) = Some (executable, wrapper_arguments)"
    by (simp add: wrapper_arguments_def shell_reads_quoted_argument)
  ultimately show ?thesis by (simp add: shell_runs_def wrapper_arguments_def)
qed

lemma split_at_colon: "c \<notin> set d \<Longrightarrow> split_on c (d @ c # s) = d # split_on c s" "c \<notin> set d \<Longrightarrow> split_on c d = [d]"
  by (induction d) auto

text \<open>The directories of a \<open>PATH\<close>; an absent or empty one has none.\<close>

definition path_entries :: "string option \<Rightarrow> string list" where
  "path_entries p = (case p of None \<Rightarrow> [] | Some v \<Rightarrow> if v = [] then [] else split_on (CHR '':'') v)"

lemma path_with_entries:
  "d \<noteq> [] \<Longrightarrow> CHR '':'' \<notin> set d \<Longrightarrow> path_entries (Some (path_with d original)) = d # path_entries original"
  by (simp add: path_entries_def path_with_def split_at_colon split: option.splits)

lemma remove_directory_keeps_path: "remove_directory h directory p = (r, p1) \<Longrightarrow> gp_PATH p1 = gp_PATH p"
  by (auto simp: remove_directory_def split: option.splits)

lemma write_wrapper_result:
  assumes "write_wrapper h directory executable p = (r, p1)"
  shows "gp_PATH p1 = gp_PATH p" "gp_directories p1 = gp_directories p"
    and "r = None \<Longrightarrow> gp_files p1 (path_join directory ''git'') = Some (wrapper_script executable, OWNER_EXECUTABLE_MODE)"
  using assms by (auto simp: write_wrapper_def Let_def split: option.splits)

lemma restore_gives_path_back:
  "ga_directory a = Some directory \<Longrightarrow> ga_active a \<Longrightarrow>
     gp_PATH (snd (restore_git_executable h a p)) = ga_originalPath a"
  by (auto simp: restore_git_executable_def remove_directory_def split: option.splits)

lemma activation_result:
  assumes act: "activate_git_executable_for_process h p = (Inr a, p1)" and abs: "is_absolute (ga_executable a)"
  obtains directory where "resolve_git_executable h = Inr (ga_executable a)"
    "gh_mkdtemp h (path_join (gh_tmpdir h) ''git-commits-push-git-'') = Inr directory"
    "ga_directory a = Some directory" "ga_active a" "ga_originalPath a = gp_PATH p"
    "gp_PATH p1 = Some (path_with directory (gp_PATH p))"
    "gp_files p1 (path_join directory ''git'') = Some (wrapper_script (ga_executable a), OWNER_EXECUTABLE_MODE)"
proof -
  from act obtain executable where sel: "resolve_git_executable h = Inr executable"
    by (cases "resolve_git_executable h") (simp_all add: activate_git_executable_for_process_def)
  have exec: "is_absolute executable"
    using act abs sel by (cases "is_absolute executable") (auto simp: activate_git_executable_for_process_def)
  from act sel exec obtain directory where dir: "gh_mkdtemp h (path_join (gh_tmpdir h) ''git-commits-push-git-'') = Inr directory"
    by (cases "gh_mkdtemp h (path_join (gh_tmpdir h) ''git-commits-push-git-'')")
      (simp_all add: activate_git_executable_for_process_def)
  define p0 where "p0 = p\<lparr>gp_directories := insert directory (gp_directories p)\<rparr>"
  obtain e p2 where w: "write_wrapper h directory executable p0 = (e, p2)" by (cases "write_wrapper h directory executable p0")
  have e: "e = None"
    using act sel exec dir w p0_def
    by (cases e; cases "remove_directory h directory p2"; cases "fst (remove_directory h directory p2)")
      (simp_all add: activate_git_executable_for_process_def)
  have "a = \<lparr>ga_executable = executable, ga_directory = Some directory, ga_originalPath = gp_PATH p, ga_active = True\<rparr>"
    "p1 = p2\<lparr>gp_PATH := Some (path_with directory (gp_PATH p))\<rparr>"
    using act sel exec dir w p0_def e by (simp_all add: activate_git_executable_for_process_def)
  with write_wrapper_result(3)[OF w e] sel dir show ?thesis using that by simp
qed

lemma failed_activation_result:
  assumes act: "activate_git_executable_for_process h p = (Inl e, p1)"
  shows "gp_PATH p1 = gp_PATH p"
proof (cases "resolve_git_executable h")
  case (Inl e1)
  with act show ?thesis by (simp add: activate_git_executable_for_process_def)
next
  case sel: (Inr executable)
  show ?thesis
  proof (cases "gh_mkdtemp h (path_join (gh_tmpdir h) ''git-commits-push-git-'')")
    case (Inl e1)
    with act sel show ?thesis by (simp add: activate_git_executable_for_process_def split: if_splits)
  next
    case dir: (Inr directory)
    define p0 where "p0 = p\<lparr>gp_directories := insert directory (gp_directories p)\<rparr>"
    obtain e1 p2 where w: "write_wrapper h directory executable p0 = (e1, p2)" by (cases "write_wrapper h directory executable p0")
    obtain e2 p3 where rm: "remove_directory h directory p2 = (e2, p3)" by (cases "remove_directory h directory p2")
    have "p1 = p3"
      using act sel dir w rm p0_def by (cases e1; cases e2) (simp_all add: activate_git_executable_for_process_def split: if_splits)
    then show ?thesis using write_wrapper_result(1)[OF w] remove_directory_keeps_path[OF rm] p0_def by simp
  qed
qed

lemma restore_removes_directory:
  "ga_directory a = Some directory \<Longrightarrow> ga_active a \<Longrightarrow> gh_remove h = None \<Longrightarrow>
     directory \<notin> gp_directories (snd (restore_git_executable h a p))"
  by (auto simp: restore_git_executable_def remove_directory_def)


definition sample_git_host :: git_host where
  "sample_git_host = \<lparr>gh_platform = ''darwin'', gh_kernelRelease = ''17.7.0'', gh_developerGit = Inr ''/x'',
     gh_realpath = (\<lambda>f. Inr ''/x''), gh_stat = (\<lambda>f. Inr (True, 493)),
     gh_versionOutput = (\<lambda>f. Inr ''git version 2.17.2 (Apple Git-113)''), gh_tmpdir = ''/tmp'',
     gh_mkdtemp = (\<lambda>prefix. Inr ''/tmp/g''), gh_writeFile = None, gh_createdMode = 448, gh_chmod = None,
     gh_remove = None\<rparr>"

definition sample_git_process :: git_process where
  "sample_git_process = \<lparr>gp_PATH = Some ''/bin'', gp_directories = {}, gp_files = (\<lambda>_. None)\<rparr>"


end
