(* ===== verification/Request_Identity.thy ===== *)
theory Request_Identity
  imports Posix_Paths JS_Regex
begin

text \<open>
  Who asked for a run: \<open>src/src/modules/core/execution-identity.ts\<close>, \<open>modules/orders/types.ts\<close>,
  \<open>modules/orders/request-identity.ts\<close>, \<open>modules/orders/order-id.ts\<close>, and the bootstrap of a direct orchestrator run,
  \<open>src/src/utils/cli-bootstrap.ts\<close>. The process environment is state: the resolved identity is exported to it, and the
  children of the process resolve theirs from what they inherit.
\<close>

subsection \<open>The active harness\<close>

datatype execution_agent = Antigravity | Pi | Codex | Claude | TestAgent | Cli

definition agent_name :: "execution_agent \<Rightarrow> string" where
  "agent_name a = (case a of Antigravity \<Rightarrow> ''antigravity'' | Pi \<Rightarrow> ''pi'' | Codex \<Rightarrow> ''codex''
     | Claude \<Rightarrow> ''claude'' | TestAgent \<Rightarrow> ''test'' | Cli \<Rightarrow> ''cli'')"

record execution_identity =
  ei_agentName :: execution_agent
  ei_callerName :: string
  ei_sessionId :: "string option"

text \<open>The value of a variable where the code tests its truth: an empty one counts as absent.\<close>

definition env_truthy :: "environment \<Rightarrow> string \<Rightarrow> string option" where
  "env_truthy env key = (case env key of Some (c # cs) \<Rightarrow> Some (c # cs) | _ \<Rightarrow> None)"

definition resolve_execution_identity :: "environment \<Rightarrow> execution_identity" where
  "resolve_execution_identity env =
     (if env ''ANTIGRAVITY_AGENT'' = Some ''1''
      then \<lparr>ei_agentName = Antigravity, ei_callerName = ''Antigravity Agent'',
            ei_sessionId = env_truthy env ''ANTIGRAVITY_TRAJECTORY_ID''\<rparr>
      else if env ''PI_AGENT'' = Some ''1'' \<or> present (env_truthy env ''PI_SESSION_ID'')
      then \<lparr>ei_agentName = Pi, ei_callerName = ''Pi Agent'', ei_sessionId = env_truthy env ''PI_SESSION_ID''\<rparr>
      else if present (env_truthy env ''CODEX_THREAD_ID'')
      then \<lparr>ei_agentName = Codex, ei_callerName = ''Codex'', ei_sessionId = env_truthy env ''CODEX_THREAD_ID''\<rparr>
      else if env ''CLAUDE_CODE'' = Some ''1''
      then \<lparr>ei_agentName = Claude, ei_callerName = ''Claude Code'', ei_sessionId = None\<rparr>
      else if env ''NODE_ENV'' = Some ''test'' \<or> env ''PI_SKILL_STATS_MODE'' = Some ''test''
      then \<lparr>ei_agentName = TestAgent, ei_callerName = ''Test'', ei_sessionId = None\<rparr>
      else \<lparr>ei_agentName = Cli, ei_callerName = nullish (env_truthy env ''USER'') ''CLI/User'', ei_sessionId = None\<rparr>)"

subsection \<open>Identifiers\<close>

text \<open>\<open>date.toISOString().replace(/[:.-]/g, "").toLowerCase()\<close>; the ISO text is the library's.\<close>

definition format_timestamp :: "string \<Rightarrow> string" where
  "format_timestamp isoText = map to_lower (filter (\<lambda>c. c \<notin> set '':.-'') isoText)"

definition create_order_id :: "string \<Rightarrow> string \<Rightarrow> string" where
  "create_order_id isoText uuid = ''order-'' @ format_timestamp isoText @ ''-'' @ take 8 uuid"

subsection \<open>The identity of a request\<close>

definition LEGACY_QUEUED_REQUEST_ENV_KEY :: string where "LEGACY_QUEUED_REQUEST_ENV_KEY = ''GCP_ORDER_IS_QUEUED''"

definition REQUEST_ID_KEY :: string where "REQUEST_ID_KEY = ''GCP_ORDER_ID''"
definition ORIGIN_SESSION_ID_KEY :: string where "ORIGIN_SESSION_ID_KEY = ''GCP_ORDER_ORIGIN_SESSION_ID''"
definition ORIGIN_AGENT_KEY :: string where "ORIGIN_AGENT_KEY = ''GCP_ORDER_ORIGIN_AGENT''"
definition CALLER_NAME_KEY :: string where "CALLER_NAME_KEY = ''GCP_ORDER_CALLER_NAME''"

lemmas request_keys = REQUEST_ID_KEY_def ORIGIN_SESSION_ID_KEY_def ORIGIN_AGENT_KEY_def CALLER_NAME_KEY_def

record request_identity =
  ri_requestId :: string
  ri_callerName :: string
  ri_originAgent :: string
  ri_originSessionId :: "string option"

datatype identity_error = ExplicitValueEmpty string | IdentityValueEmpty string

definition read_explicit_identity_value :: "environment \<Rightarrow> string \<Rightarrow> identity_error + string option" where
  "read_explicit_identity_value env key =
     (case env key of
        None \<Rightarrow> Inr None
      | Some given \<Rightarrow> if trim given = [] then Inl (ExplicitValueEmpty key) else Inr (Some (trim given)))"

definition assert_identity_value :: "string \<Rightarrow> string \<Rightarrow> identity_error + unit" where
  "assert_identity_value name given = (if is_blank given then Inl (IdentityValueEmpty name) else Inr ())"

definition and_then :: "'e + 'a \<Rightarrow> ('a \<Rightarrow> 'e + 'b) \<Rightarrow> 'e + 'b" where
  "and_then r k = (case r of Inl e \<Rightarrow> Inl e | Inr x \<Rightarrow> k x)"

lemma and_then_simps [simp]: "and_then (Inl e) k = Inl e" "and_then (Inr x) k = k x"
  by (simp_all add: and_then_def)

lemma and_then_ok: "and_then r k = Inr y \<longleftrightarrow> (\<exists>x. r = Inr x \<and> k x = Inr y)"
  by (cases r) simp_all

text \<open>The variables are written only after every assertion.\<close>

definition export_request_identity_env :: "request_identity \<Rightarrow> environment \<Rightarrow> identity_error + environment" where
  "export_request_identity_env i env =
     and_then (assert_identity_value ''requestId'' (ri_requestId i)) (\<lambda>_.
     and_then (assert_identity_value ''callerName'' (ri_callerName i)) (\<lambda>_.
     and_then (assert_identity_value ''originAgent'' (ri_originAgent i)) (\<lambda>_.
     and_then (case ri_originSessionId i of None \<Rightarrow> Inr () | Some s \<Rightarrow> assert_identity_value ''originSessionId'' s) (\<lambda>_.
       let env1 = env(REQUEST_ID_KEY \<mapsto> ri_requestId i, CALLER_NAME_KEY \<mapsto> ri_callerName i,
                      ORIGIN_AGENT_KEY \<mapsto> ri_originAgent i)
       in Inr (case ri_originSessionId i of
                 None \<Rightarrow> env1
               | Some s \<Rightarrow> if s = [] then env1 else env1(ORIGIN_SESSION_ID_KEY \<mapsto> s))))))"

text \<open>\<open>freshId\<close> is the id \<open>createOrderId\<close> makes if it is called.\<close>

definition read_identity :: "string \<Rightarrow> environment \<Rightarrow> identity_error + request_identity" where
  "read_identity freshId env =
     (let executionIdentity = resolve_execution_identity env in
      and_then (read_explicit_identity_value env ORIGIN_SESSION_ID_KEY) (\<lambda>explicitSession.
      let originSessionId = (case explicitSession of None \<Rightarrow> ei_sessionId executionIdentity | Some s \<Rightarrow> Some s) in
      and_then (read_explicit_identity_value env REQUEST_ID_KEY) (\<lambda>requestId.
      and_then (read_explicit_identity_value env CALLER_NAME_KEY) (\<lambda>callerName.
      and_then (read_explicit_identity_value env ORIGIN_AGENT_KEY) (\<lambda>originAgent.
        Inr \<lparr>ri_requestId = nullish requestId freshId,
             ri_callerName = nullish callerName (ei_callerName executionIdentity),
             ri_originAgent = nullish originAgent (agent_name (ei_agentName executionIdentity)),
             ri_originSessionId = (if originSessionId = Some [] then None else originSessionId)\<rparr>)))))"

definition resolve_request_identity ::
  "string \<Rightarrow> environment \<Rightarrow> identity_error + request_identity \<times> environment" where
  "resolve_request_identity freshId env =
     and_then (read_identity freshId env) (\<lambda>identity.
     and_then (export_request_identity_env identity env) (\<lambda>env1. Inr (identity, env1)))"

subsection \<open>The bootstrap of a direct run\<close>

text \<open>\<open>args.indexOf("--run-id")\<close> and the argument behind it.\<close>

fun argument_after :: "string \<Rightarrow> string list \<Rightarrow> string option" where
  "argument_after name [] = None"
| "argument_after name (a # as) = (if a = name then nth_opt as 0 else argument_after name as)"

text \<open>The arguments of the process, its environment and the request it announced, if any; a resumed run changes
  nothing. An error of the announcement is swallowed, so it has no effect here.\<close>

definition bootstrap_orchestrator_run ::
  "string \<Rightarrow> string \<Rightarrow> string list \<Rightarrow> environment \<Rightarrow>
     identity_error + string list \<times> environment \<times> (string \<times> request_identity) option" where
  "bootstrap_orchestrator_run freshRunId freshOrderId args env =
     (if ''--resume'' \<in> set args then Inr (args, env, None)
      else let given = nullish (argument_after ''--run-id'' args) [];
               runId = (if given = [] then freshRunId else given);
               argv = (if given = [] then args @ [''--run-id'', freshRunId] else args)
           in and_then (resolve_request_identity freshOrderId env) (\<lambda>(identity, env1).
                Inr (argv, env1, Some (runId, identity))))"

subsection \<open>Trimming\<close>

lemma trim_start_cases: "trim_start s = [] \<or> (\<exists>c cs. trim_start s = c # cs \<and> \<not> is_js_whitespace c)"
  by (induction s) (auto simp: trim_start_def)

lemma trim_start_fix: "\<not> is_js_whitespace c \<Longrightarrow> trim_start (c # cs) = c # cs"
  by (simp add: trim_start_def)

lemma trim_start_snoc: "\<not> is_js_whitespace c \<Longrightarrow> trim_start (cs @ [c]) = trim_start cs @ [c]"
  by (induction cs) (auto simp: trim_start_def)

lemma trim_start_Nil [simp]: "trim_start [] = []"
  by (simp add: trim_start_def)

lemma trim_start_idem [simp]: "trim_start (trim_start s) = trim_start s"
  using trim_start_cases[of s] trim_start_fix by auto

lemma trim_start_trim: "trim_start (trim s) = trim s"
proof (cases "trim_start s")
  case Nil
  then show ?thesis by (simp add: trim_def)
next
  case (Cons c cs)
  then have c: "\<not> is_js_whitespace c" using trim_start_cases[of s] by auto
  then have "trim s = c # rev (trim_start (rev cs))" using Cons by (simp add: trim_def trim_start_snoc)
  then show ?thesis using c by (simp add: trim_start_fix)
qed

lemma trim_idem [simp]: "trim (trim s) = trim s"
  unfolding trim_def[of "trim s"] trim_start_trim by (simp add: trim_def)

lemma is_blank_trim [simp]: "is_blank (trim s) = is_blank s"
  by (simp add: is_blank_def)

subsection \<open>The identity a child inherits\<close>

definition trim_identity :: "request_identity \<Rightarrow> request_identity" where
  "trim_identity i = \<lparr>ri_requestId = trim (ri_requestId i), ri_callerName = trim (ri_callerName i),
     ri_originAgent = trim (ri_originAgent i), ri_originSessionId = map_option trim (ri_originSessionId i)\<rparr>"

text \<open>What an exported environment says: every value is set and has text in it.\<close>

definition exports :: "environment \<Rightarrow> request_identity \<Rightarrow> bool" where
  "exports env i \<longleftrightarrow> env REQUEST_ID_KEY = Some (ri_requestId i) \<and> env CALLER_NAME_KEY = Some (ri_callerName i) \<and>
     env ORIGIN_AGENT_KEY = Some (ri_originAgent i) \<and> env ORIGIN_SESSION_ID_KEY = ri_originSessionId i \<and>
     (ri_originSessionId i = None \<longrightarrow> ei_sessionId (resolve_execution_identity env) = None)"

definition has_text :: "request_identity \<Rightarrow> bool" where
  "has_text i \<longleftrightarrow> \<not> is_blank (ri_requestId i) \<and> \<not> is_blank (ri_callerName i) \<and> \<not> is_blank (ri_originAgent i) \<and>
     (\<forall>s. ri_originSessionId i = Some s \<longrightarrow> \<not> is_blank s)"

lemma export_result:
  "export_request_identity_env i env = Inr env1 \<longleftrightarrow> has_text i \<and>
     env1 = (let e = env(REQUEST_ID_KEY \<mapsto> ri_requestId i, CALLER_NAME_KEY \<mapsto> ri_callerName i,
                      ORIGIN_AGENT_KEY \<mapsto> ri_originAgent i)
             in case ri_originSessionId i of None \<Rightarrow> e | Some s \<Rightarrow> e(ORIGIN_SESSION_ID_KEY \<mapsto> s))"
  by (auto simp: export_request_identity_env_def and_then_ok assert_identity_value_def has_text_def Let_def
      split: option.splits if_splits)

lemma execution_identity_reads:
  assumes "\<And>k. k \<notin> {REQUEST_ID_KEY, ORIGIN_SESSION_ID_KEY, ORIGIN_AGENT_KEY, CALLER_NAME_KEY} \<Longrightarrow> env1 k = env k"
  shows "resolve_execution_identity env1 = resolve_execution_identity env"
  using assms by (simp add: resolve_execution_identity_def env_truthy_def request_keys)

lemma exported_keys:
  assumes "export_request_identity_env i env = Inr env1"
  shows "resolve_execution_identity env1 = resolve_execution_identity env"
    and "env1 REQUEST_ID_KEY = Some (ri_requestId i)" "env1 CALLER_NAME_KEY = Some (ri_callerName i)"
    and "env1 ORIGIN_AGENT_KEY = Some (ri_originAgent i)"
    and "env1 ORIGIN_SESSION_ID_KEY = (case ri_originSessionId i of None \<Rightarrow> env ORIGIN_SESSION_ID_KEY | Some s \<Rightarrow> Some s)"
    and "has_text i"
  using assms
  by (auto simp: export_result Let_def request_keys intro!: execution_identity_reads split: option.splits if_splits)

lemma read_explicit_ok:
  "read_explicit_identity_value env key = Inr v \<longleftrightarrow>
     (case env key of None \<Rightarrow> v = None | Some g \<Rightarrow> trim g \<noteq> [] \<and> v = Some (trim g))"
  by (auto simp: read_explicit_identity_value_def split: option.splits)

lemma session_is_inherited:
  assumes "read_identity freshId env = Inr i" "ri_originSessionId i = None"
  shows "env ORIGIN_SESSION_ID_KEY = None" "ei_sessionId (resolve_execution_identity env) = None"
proof -
  have ne: "ei_sessionId (resolve_execution_identity env) \<noteq> Some []"
    by (auto simp: resolve_execution_identity_def env_truthy_def split: option.splits list.splits)
  from assms obtain es where es: "read_explicit_identity_value env ORIGIN_SESSION_ID_KEY = Inr es"
      "(case es of None \<Rightarrow> ei_sessionId (resolve_execution_identity env) | Some s \<Rightarrow> Some s) \<in> {None, Some []}"
    by (auto simp: read_identity_def and_then_ok Let_def split: if_splits)
  with ne show "env ORIGIN_SESSION_ID_KEY = None" "ei_sessionId (resolve_execution_identity env) = None"
    by (auto simp: read_explicit_ok split: option.splits)
qed

lemma resolved_exports:
  assumes "resolve_request_identity freshId env = Inr (i, env1)"
  shows "exports env1 i" "has_text i"
proof -
  from assms have r: "read_identity freshId env = Inr i" "export_request_identity_env i env = Inr env1"
    by (auto simp: resolve_request_identity_def and_then_ok)
  show "exports env1 i"
    using exported_keys[OF r(2)] session_is_inherited[OF r(1)] by (auto simp: exports_def split: option.splits)
  show "has_text i" using exported_keys(6)[OF r(2)] .
qed

lemma exported_is_read:
  assumes "exports env i" "has_text i"
  shows "read_identity freshId env = Inr (trim_identity i)"
  using assms
  by (cases "ri_originSessionId i")
    (auto simp: read_identity_def exports_def has_text_def read_explicit_identity_value_def is_blank_def trim_identity_def)

lemma trim_identity_has_text: "has_text i \<Longrightarrow> has_text (trim_identity i)"
  by (auto simp: has_text_def trim_identity_def)

lemma exported_is_resolved:
  assumes "exports env i" "has_text i"
  shows "\<exists>env1. resolve_request_identity freshId env = Inr (trim_identity i, env1)"
proof -
  obtain env1 where "export_request_identity_env (trim_identity i) env = Inr env1"
    using trim_identity_has_text[OF assms(2)] by (simp add: export_result)
  then show ?thesis using exported_is_read[OF assms] by (auto simp: resolve_request_identity_def)
qed

text \<open>A process that resolved the identity of its request hands it on: every process that inherits the environment
  resolves the same identity, up to blanks around the values, whatever fresh id it would make, and so does every
  process further down; and every value passes the coordinator's check for blank values.\<close>

theorem request_identity_is_inherited:
  assumes "resolve_request_identity freshId env = Inr (identity, env1)"
  shows "has_text identity \<and>
    (\<exists>env2. resolve_request_identity freshId1 env1 = Inr (trim_identity identity, env2) \<and>
      (\<exists>env3. resolve_request_identity freshId2 env2 = Inr (trim_identity identity, env3)))"
proof -
  obtain env2 where child: "resolve_request_identity freshId1 env1 = Inr (trim_identity identity, env2)"
    using exported_is_resolved[OF resolved_exports[OF assms]] by blast
  obtain env3 where "resolve_request_identity freshId2 env2 = Inr (trim_identity (trim_identity identity), env3)"
    using exported_is_resolved[OF resolved_exports[OF child]] by blast
  moreover have "trim_identity (trim_identity identity) = trim_identity identity"
    by (simp add: trim_identity_def option.map_comp o_def)
  ultimately show ?thesis using child resolved_exports(2)[OF assms] by auto
qed

lemma request_identity_is_inherited_witness:
  "\<exists>env1 env2. resolve_request_identity ''order-1'' [''CODEX_THREAD_ID'' \<mapsto> '' t1''] =
       Inr (\<lparr>ri_requestId = ''order-1'', ri_callerName = ''Codex'', ri_originAgent = ''codex'',
            ri_originSessionId = Some '' t1''\<rparr>, env1) \<and>
     resolve_request_identity ''order-2'' env1 =
       Inr (\<lparr>ri_requestId = ''order-1'', ri_callerName = ''Codex'', ri_originAgent = ''codex'',
            ri_originSessionId = Some ''t1''\<rparr>, env2)"
proof -
  define i where "i = \<lparr>ri_requestId = ''order-1'', ri_callerName = ''Codex'', ri_originAgent = ''codex'',
            ri_originSessionId = Some '' t1''\<rparr>"
  have "map_sum id fst (resolve_request_identity ''order-1'' [''CODEX_THREAD_ID'' \<mapsto> '' t1'']) = Inr i"
    unfolding i_def by code_simp
  then obtain env1 where r: "resolve_request_identity ''order-1'' [''CODEX_THREAD_ID'' \<mapsto> '' t1''] = Inr (i, env1)"
    by (cases "resolve_request_identity ''order-1'' [''CODEX_THREAD_ID'' \<mapsto> '' t1'']") auto
  moreover have "trim_identity i = \<lparr>ri_requestId = ''order-1'', ri_callerName = ''Codex'', ri_originAgent = ''codex'',
            ri_originSessionId = Some ''t1''\<rparr>"
    unfolding i_def by code_simp
  ultimately show ?thesis using request_identity_is_inherited[OF r, of "''order-2''" "''order-3''"] i_def by metis
qed

text \<open>A fresh order id has text in it, so an identity is refused only for a value the environment gives.\<close>

lemma fresh_order_id_not_blank: "\<not> is_blank (create_order_id isoText uuid)"
  by (simp add: create_order_id_def is_blank_iff) (simp add: is_js_whitespace_def)

end
