(* ===== verification/Git_Environment.thy ===== *)
theory Git_Environment
  imports Git_Ops Git_Executable Trust_Tokens Request_Identity
begin

text \<open>
  The environment of a Git process: \<open>buildGitEnv\<close> of \<open>src/src/modules/git/git-exec.ts\<close> and \<open>trustedGitEnv\<close> of
  \<open>src/src/utils/git-utils.ts\<close>, with the questions of the latter that nothing else models. A Git process that these
  two modules start gets a fresh trust token of \<open>packages/trust\<close>, so that the enforcing hooks accept what this program
  does. The commands that other modules run with \<open>execSync\<close> (the queue's retries, the diff and the validators) inherit
  the environment of the program and get no token.
\<close>

subsection \<open>Variables\<close>

definition TRUSTED_MARKER_ENV :: string where "TRUSTED_MARKER_ENV = ''GIT_COMMITS_PUSH_ENFORCER_SOURCE''"
definition TRUSTED_TOKEN_ENV :: string where "TRUSTED_TOKEN_ENV = ''GIT_COMMITS_PUSH_ENFORCER_TOKEN''"
definition TRUSTED_MARKER_VALUE :: string where "TRUSTED_MARKER_VALUE = ''skill''"

lemmas trusted_keys = TRUSTED_MARKER_ENV_def TRUSTED_TOKEN_ENV_def

text \<open>Only tests send the hooks' statistics elsewhere.\<close>

definition test_only_gravity_telemetry_env :: "environment \<Rightarrow> string \<Rightarrow> environment" where
  "test_only_gravity_telemetry_env env tmpdir =
     (if env ''NODE_ENV'' \<noteq> Some ''test'' \<or> present (env_truthy env ''GIT_COMMITS_PUSH_ENFORCER_STATS_DIR'')
      then Map.empty
      else [''GIT_COMMITS_PUSH_ENFORCER_STATS_DIR'' \<mapsto>
        (case env ''PI_SKILL_STATS_DIR'' of
           Some d \<Rightarrow> d
         | None \<Rightarrow> nullish (env ''SECRET_SCANNER_STATS_DIR'') (path_join tmpdir ''git-commits-push-test-stats''))])"

record git_process_view =
  gv_env :: environment
  gv_tmpdir :: string
  gv_trust :: trust_process
  gv_store :: store_view
  gv_stack :: "string option"

definition build_git_env ::
  "git_process_view \<Rightarrow> process_config \<Rightarrow> token_store \<Rightarrow> (string + environment) \<times> token_store" where
  "build_git_env v processConfig store =
     (case create_trust_token (gv_trust v) (gv_store v) (gv_stack v) store of
        (Inl e, store1) \<Rightarrow> (Inl e, store1)
      | (Inr token, store1) \<Rightarrow>
          (let env = (gv_env v ++ test_only_gravity_telemetry_env (gv_env v) (gv_tmpdir v))
                 (''GIT_TERMINAL_PROMPT'' \<mapsto> ''0'', ''LC_ALL'' \<mapsto> ''C'', TRUSTED_MARKER_ENV \<mapsto> TRUSTED_MARKER_VALUE,
                  TRUSTED_TOKEN_ENV \<mapsto> token)
           in (Inr (env(''GIT_CONFIG_PARAMETERS'' :=
                 append_process_config (env ''GIT_CONFIG_PARAMETERS'') processConfig)), store1)))"

definition trusted_git_env :: "git_process_view \<Rightarrow> token_store \<Rightarrow> (string + environment) \<times> token_store" where
  "trusted_git_env v store =
     (case create_trust_token (gv_trust v) (gv_store v) (gv_stack v) store of
        (Inl e, store1) \<Rightarrow> (Inl e, store1)
      | (Inr token, store1) \<Rightarrow>
          (Inr ((gv_env v ++ test_only_gravity_telemetry_env (gv_env v) (gv_tmpdir v))
             (''GIT_TERMINAL_PROMPT'' \<mapsto> ''0'', TRUSTED_MARKER_ENV \<mapsto> TRUSTED_MARKER_VALUE, TRUSTED_TOKEN_ENV \<mapsto> token)),
           store1))"

subsection \<open>Questions to Git\<close>

text \<open>\<open>gitExec\<close> is the argument: the trimmed answer to a command line, or its failure. Without an upstream the commits
  that are on no remote count, and an unanswered question counts as none.\<close>

definition has_unpushed_commits :: "(string \<Rightarrow> 'e + string) \<Rightarrow> bool" where
  "has_unpushed_commits gitExec =
     (case gitExec (''log @'' @ [CHR 0x7B] @ ''u}..HEAD --oneline'') of
        Inr log \<Rightarrow> log \<noteq> []
      | Inl _ \<Rightarrow>
          (case gitExec ''log HEAD --not --remotes --oneline'' of
             Inr unpushed \<Rightarrow> unpushed \<noteq> []
           | Inl _ \<Rightarrow> False))"

definition extract_diff :: "(string \<Rightarrow> 'e + string) \<Rightarrow> (string \<Rightarrow> string) \<Rightarrow> 'e + string \<times> string" where
  "extract_diff execSync sha256 = map_sum id (\<lambda>diff. (diff, sha256 diff)) (execSync ''git diff --cached'')"

subsection \<open>What a Git process receives\<close>

text \<open>The words Git reads from \<open>GIT_CONFIG_PARAMETERS\<close>, quoted like words of a shell.\<close>

fun reads_words :: "string \<Rightarrow> string list \<Rightarrow> bool" where
  "reads_words s [] \<longleftrightarrow> s = []"
| "reads_words s [w] \<longleftrightarrow> shell_word False s = Some (w, [])"
| "reads_words s (w # v # ws) \<longleftrightarrow>
     (case shell_word False s of
        Some (w1, c # rest) \<Rightarrow> w1 = w \<and> c = CHR '' '' \<and> reads_words rest (v # ws)
      | _ \<Rightarrow> False)"

definition config_word :: "string \<times> string \<Rightarrow> string" where
  "config_word entry = fst entry @ ''='' @ snd entry"

lemma quote_is_shell_quote: "quote_git_config_parameter = (\<lambda>entry. quote_shell_argument (config_word entry))"
proof (rule ext)
  fix entry
  have "Git_Ops.replace_all (CHR 0x27) [CHR 0x27, CHR 0x5C, CHR 0x27, CHR 0x27] s = concat (map quote_char s)" for s
    by (induction s) (simp_all add: quote_char_def)
  then show "quote_git_config_parameter entry = quote_shell_argument (config_word entry)"
    by (simp add: quote_git_config_parameter_def quote_shell_argument_def config_word_def)
qed

lemma shell_reads_last_argument: "shell_word False (quote_shell_argument arg) = Some (arg, [])"
proof -
  have "shell_word True (concat (map quote_char s) @ [CHR 0x27]) = Some (s, [])" for s
    by (induction s) (auto simp: quote_char_def)
  then show ?thesis by (simp add: quote_shell_argument_def)
qed

lemma config_words_read:
  "entries \<noteq> [] \<Longrightarrow> reads_words (join '' '' (map quote_git_config_parameter entries)) (map config_word entries)"
proof (induction entries rule: induct_list012)
  case (3 a b entries)
  then show ?case
    using shell_reads_quoted_argument[of "config_word a" "join '' '' (map quote_git_config_parameter (b # entries))"]
    by (simp add: quote_is_shell_quote)
qed (simp_all add: quote_is_shell_quote shell_reads_last_argument)

text \<open>The environment carries a trust token that this process created for this very start: its name was free in
  the private store, its file, private to the user, is the only change the creation made, and its record
  names the process and the moment.\<close>

definition carries_own_token :: "git_process_view \<Rightarrow> token_store \<Rightarrow> token_store \<Rightarrow> environment \<Rightarrow> bool" where
  "carries_own_token v store store1 env1 \<longleftrightarrow>
     (\<exists>t k rec. env1 ''GIT_COMMITS_PUSH_ENFORCER_TOKEN'' = Some t \<and> k < 3 \<and>
        store_before (gv_store v) store (Suc k) t = None \<and>
        store1 = (store_before (gv_store v) store (Suc k))(t \<mapsto> new_private_file (sv_getuid (gv_store v))
          (sv_stringify (gv_store v) (record_json rec))) \<and>
        tr_issuerPid rec = tp_pid (gv_trust v) \<and> tr_issuerCwd rec = tp_cwd (gv_trust v) \<and>
        tr_createdAt rec = tp_now (gv_trust v))"

lemma untouched_variable:
  "key \<noteq> ''GIT_COMMITS_PUSH_ENFORCER_STATS_DIR'' \<Longrightarrow>
     (gv_env v ++ test_only_gravity_telemetry_env (gv_env v) (gv_tmpdir v)) key = gv_env v key"
  by (simp add: test_only_gravity_telemetry_env_def map_add_def)

lemma config_appended:
  assumes "entries \<noteq> []"
  shows "\<exists>before words. append_process_config ambient entries = Some (before @ words) \<and>
     reads_words words (map config_word entries) \<and>
     (before = [] \<or> (\<exists>a. ambient = Some a \<and> before = trim a @ '' ''))"
proof (cases "truthy (map_option trim ambient)")
  case True
  then obtain a where "ambient = Some a" "trim a \<noteq> []"
    by (auto simp: truthy_def split: option.splits)
  then show ?thesis
    using assms config_words_read[OF assms]
    by (intro exI[of _ "trim a @ '' ''"] exI[of _ "join '' '' (map quote_git_config_parameter entries)"])
      (simp add: append_process_config_def truthy_def)
next
  case False
  then show ?thesis
    using assms config_words_read[OF assms]
    by (intro exI[of _ "[]"] exI[of _ "join '' '' (map quote_git_config_parameter entries)"])
      (auto simp: append_process_config_def truthy_def Let_def split: option.splits)
qed



definition sample_git_view :: git_process_view where
  "sample_git_view = \<lparr>gv_env = [''GIT_CONFIG_PARAMETERS'' \<mapsto> '' a=b ''], gv_tmpdir = ''/tmp'', gv_trust = sample_process,
     gv_store = sample_store_view, gv_stack = Some sample_stack\<rparr>"


end
