(* ===== verification/Sensitive_Diagnostics.thy ===== *)
theory Sensitive_Diagnostics
  imports JS_Regex
begin

text \<open>
  The removal of credentials from diagnostics, \<open>src/src/modules/core/sensitive-diagnostic-sanitizer.ts\<close>. Each of its
  four expressions is a prefix that stays and a run of characters that is replaced; the global replacement goes from
  left to right and continues behind each match.
\<close>

subsection \<open>Global replacement\<close>

text \<open>A matcher looks at the character before the position and at the text from there; it gives the replacement of what
  it consumes and the text behind it.\<close>

type_synonym matcher = "char option \<Rightarrow> string \<Rightarrow> (string \<times> string) option"

definition last_before :: "char option \<Rightarrow> string \<Rightarrow> char option" where
  "last_before p consumed = (if consumed = [] then p else Some (last consumed))"

function replace_all :: "matcher \<Rightarrow> char option \<Rightarrow> string \<Rightarrow> string" where
  "replace_all m p s =
     (case m p s of
        Some (replacement, rest) \<Rightarrow>
          if length rest < length s
          then replacement @ replace_all m (last_before p (take (length s - length rest) s)) rest
          else s
      | None \<Rightarrow> (case s of [] \<Rightarrow> [] | c # cs \<Rightarrow> c # replace_all m (Some c) cs))"
  by pat_completeness auto

termination by (relation "measure (\<lambda>(m, p, s). length s)") auto

declare replace_all.simps [simp del]

definition REDACTED :: string where "REDACTED = ''<redacted>''"

text \<open>The prefix of a match: where it ends first, and its text.\<close>

definition first_end :: "rx \<Rightarrow> char option \<Rightarrow> string \<Rightarrow> string option" where
  "first_end r p s = (case rx_ends r p s of [] \<Rightarrow> None | (_, rest) # _ \<Rightarrow> Some rest)"

definition upto :: "string \<Rightarrow> string \<Rightarrow> string" where
  "upto rest s = take (length s - length rest) s"

subsection \<open>The four expressions\<close>

definition either_dash :: rx where "either_dash = rx_opt (rx_one_of ''_-'')"

definition SENSITIVE_QUERY_KEY :: rx where
  "SENSITIVE_QUERY_KEY = rx_any
     [rx_seq [rx_ilit ''access'', either_dash, rx_ilit ''token''], rx_seq [rx_ilit ''oauth'', either_dash, rx_ilit ''token''],
      rx_seq [rx_ilit ''client'', either_dash, rx_ilit ''secret''], rx_seq [rx_ilit ''private'', either_dash, rx_ilit ''token''],
      rx_seq [rx_ilit ''api'', either_dash, rx_ilit ''key''], rx_ilit ''x-api-key'', rx_ilit ''x-amz-credential'',
      rx_ilit ''x-amz-signature'', rx_ilit ''x-amz-security-token'', rx_ilit ''auth'', rx_ilit ''key'',
      rx_ilit ''password'', rx_ilit ''passwd'', rx_ilit ''token'']"

definition query_prefix :: rx where
  "query_prefix = rx_seq [rx_one_of ''?&#'', SENSITIVE_QUERY_KEY, rx_lit ''='']"

definition is_query_value_char :: "char \<Rightarrow> bool" where
  "is_query_value_char c \<longleftrightarrow> c \<noteq> CHR ''&'' \<and> c \<noteq> CHR ''#'' \<and> \<not> is_js_whitespace c"

definition SENSITIVE_QUERY_VALUE :: matcher where
  "SENSITIVE_QUERY_VALUE p s =
     (case first_end query_prefix p s of
        None \<Rightarrow> None
      | Some rest \<Rightarrow>
          if takeWhile is_query_value_char rest = [] then None
          else Some (upto rest s @ REDACTED, dropWhile is_query_value_char rest))"

text \<open>Both runs of white space around the colon are as long as possible, the second one before the value.\<close>

definition header_prefix :: "rx \<Rightarrow> rx" where
  "header_prefix name = rx_seq [name, rx_spaces, rx_lit '':'']"

definition AUTHORIZATION_HEADER :: matcher where
  "AUTHORIZATION_HEADER p s =
     (case first_end (header_prefix (rx_ilit ''authorization'')) p s of
        None \<Rightarrow> None
      | Some rest0 \<Rightarrow>
          (let rest = trim_start rest0 in
           Some (upto rest s @ REDACTED, dropWhile (\<lambda>c. \<not> is_line_terminator c) rest)))"

definition token_header_names :: rx where
  "token_header_names = rx_any [rx_ilit ''private-token'', rx_ilit ''job-token'', rx_ilit ''x-api-key'',
     rx_ilit ''api-key'', rx_ilit ''api_key'']"

definition is_token_char :: "char \<Rightarrow> bool" where
  "is_token_char c \<longleftrightarrow> \<not> is_js_whitespace c \<and> c \<noteq> CHR '','' \<and> c \<noteq> CHR '';''"

definition TOKEN_HEADER :: matcher where
  "TOKEN_HEADER p s =
     (case first_end (header_prefix token_header_names) p s of
        None \<Rightarrow> None
      | Some rest0 \<Rightarrow>
          (let rest = trim_start rest0 in
           if takeWhile is_token_char rest = [] then None
           else Some (upto rest s @ REDACTED, dropWhile is_token_char rest)))"

text \<open>\<open>/\b([a-z][a-z0-9+.-]*:\/\/)[^\s/@]+@/giu\<close>.\<close>

definition scheme_prefix :: rx where
  "scheme_prefix = rx_seq [WordBoundary, Cls is_letter,
     Star (Cls (\<lambda>c. is_letter c \<or> is_digit c \<or> c \<in> set ''+.-'')), rx_lit ''://'']"

definition is_userinfo_char :: "char \<Rightarrow> bool" where
  "is_userinfo_char c \<longleftrightarrow> \<not> is_js_whitespace c \<and> c \<noteq> CHR ''/'' \<and> c \<noteq> CHR 0x40"

definition URL_CREDENTIALS :: matcher where
  "URL_CREDENTIALS p s =
     (case first_end scheme_prefix p s of
        None \<Rightarrow> None
      | Some rest \<Rightarrow>
          (case dropWhile is_userinfo_char rest of
             [] \<Rightarrow> None
           | c # cs \<Rightarrow>
               if takeWhile is_userinfo_char rest \<noteq> [] \<and> c = CHR 0x40
               then Some (upto rest s @ REDACTED @ [CHR 0x40], cs) else None))"

definition sanitize_sensitive_diagnostic :: "string \<Rightarrow> string" where
  "sanitize_sensitive_diagnostic message =
     replace_all TOKEN_HEADER None (replace_all AUTHORIZATION_HEADER None
       (replace_all SENSITIVE_QUERY_VALUE None (replace_all URL_CREDENTIALS None message)))"

subsection \<open>Properties\<close>

text \<open>Text before the first match stays as it is, and the match is replaced where it stands.\<close>

fun no_match :: "matcher \<Rightarrow> char option \<Rightarrow> string \<Rightarrow> string \<Rightarrow> bool" where
  "no_match m p [] rest \<longleftrightarrow> True"
| "no_match m p (c # cs) rest \<longleftrightarrow> m p (c # cs @ rest) = None \<and> no_match m (Some c) cs rest"

lemma replace_all_skips:
  "no_match m p pre rest \<Longrightarrow> replace_all m p (pre @ rest) = pre @ replace_all m (last_before p pre) rest"
proof (induction pre arbitrary: p)
  case Nil
  then show ?case by (simp add: last_before_def)
next
  case (Cons c cs)
  then have "replace_all m p ((c # cs) @ rest) = c # replace_all m (Some c) (cs @ rest)"
    by (simp add: replace_all.simps[of m p])
  also have "\<dots> = c # cs @ replace_all m (last_before (Some c) cs) rest" using Cons by simp
  finally show ?case by (simp add: last_before_def)
qed

lemma replace_all_step:
  "m p s = Some (replacement, rest) \<Longrightarrow> length rest < length s \<Longrightarrow>
     replace_all m p s = replacement @ replace_all m (last_before p (take (length s - length rest) s)) rest"
  by (simp add: replace_all.simps[of m p s])

end
