(* ===== verification/Telemetry.thy ===== *)
theory Telemetry
  imports Request_Identity Sensitive_Diagnostics Repo_Validation Control_Protocol
begin

text \<open>
  What the program records of its runs: the event sinks, \<open>src/src/modules/telemetry/stats-sinks.ts\<close>, and the events,
  \<open>stats-events.ts\<close> and \<open>stats-logger.ts\<close>. A sink belongs to the event-sink package; here it is the options it was
  created with, and what is appended to it is a log. The environment may change between two events, so a sink is looked
  up each time and made anew when its key has changed.
\<close>

subsection \<open>Objects\<close>

text \<open>\<open>{ ...a, ...b }\<close>: a later value takes the place of an earlier one.\<close>

fun set_field :: "string \<Rightarrow> js_value \<Rightarrow> (string \<times> js_value) list \<Rightarrow> (string \<times> js_value) list" where
  "set_field k v [] = [(k, v)]"
| "set_field k v ((k1, v1) # rest) = (if k1 = k then (k, v) # rest else (k1, v1) # set_field k v rest)"

definition spread :: "(string \<times> js_value) list \<Rightarrow> (string \<times> js_value) list \<Rightarrow> (string \<times> js_value) list" where
  "spread a b = fold (\<lambda>(k, v) xs. set_field k v xs) b a"

text \<open>A property that is left out when its value is empty, and one whose value may be undefined or null.\<close>

definition if_truthy :: "string \<Rightarrow> string option \<Rightarrow> (string \<times> js_value) list" where
  "if_truthy key given = (case given of Some (c # cs) \<Rightarrow> [(key, JString (c # cs))] | _ \<Rightarrow> [])"

definition or_undefined :: "('a \<Rightarrow> js_value) \<Rightarrow> 'a option \<Rightarrow> js_value" where
  "or_undefined f given = (case given of None \<Rightarrow> JUndefined | Some x \<Rightarrow> f x)"

subsection \<open>Sinks\<close>

record sink_options =
  so_statsDir :: string
  so_agent :: string
  so_namespace :: string
  so_sessionId :: "string option"
  so_workspace :: "string option"

record sink_event =
  se_sink :: sink_options
  se_type :: string
  se_details :: "(string \<times> js_value) list"
  se_meta :: "(string \<times> js_value) list"

record telemetry =
  tl_env :: environment
  tl_home :: string
  tl_cwd :: string
  tl_sink :: "(string \<times> sink_options) option" \<comment> \<open>\<open>lastSinkKey\<close> and \<open>sink\<close>\<close>
  tl_secretSink :: "(string \<times> sink_options) option"
  tl_events :: "sink_event list"

definition get_agent_name :: "environment \<Rightarrow> string" where
  "get_agent_name env = agent_name (ei_agentName (resolve_execution_identity env))"

definition get_active_session_id :: "environment \<Rightarrow> string option" where
  "get_active_session_id env = ei_sessionId (resolve_execution_identity env)"

definition get_stats_dir :: "telemetry \<Rightarrow> string" where
  "get_stats_dir t = nullish (tl_env t ''PI_SKILL_STATS_DIR'')
     (path_join_all [tl_home t, ''neelopedia'', ''stats'', get_agent_name (tl_env t), ''git-commits-push''])"

definition get_sink :: "telemetry \<Rightarrow> sink_options \<times> telemetry" where
  "get_sink t =
     (let statsDir = get_stats_dir t; agentName = get_agent_name (tl_env t);
          sessionId = get_active_session_id (tl_env t);
          sinkKey = statsDir @ '':'' @ agentName @ '':'' @ nullish sessionId [] @ '':'' @ tl_cwd t;
          fresh = \<lparr>so_statsDir = statsDir, so_agent = agentName, so_namespace = ''git-commits-push'',
                   so_sessionId = sessionId, so_workspace = Some (tl_cwd t)\<rparr>
      in case tl_sink t of
           None \<Rightarrow> (fresh, t\<lparr>tl_sink := Some (sinkKey, fresh)\<rparr>)
         | Some (lastKey, sink) \<Rightarrow>
             if sinkKey \<noteq> lastKey then (fresh, t\<lparr>tl_sink := Some (sinkKey, fresh)\<rparr>) else (sink, t))"

definition get_secret_stats_dir :: "telemetry \<Rightarrow> string" where
  "get_secret_stats_dir t =
     (case env_truthy (tl_env t) ''SECRET_SCANNER_STATS_DIR'' of
        Some dir \<Rightarrow> dir
      | None \<Rightarrow>
          (case env_truthy (tl_env t) ''PI_SKILL_STATS_DIR'' of
             Some dir \<Rightarrow> path_join_all [dir, ''..'', ''secret-scanner'']
           | None \<Rightarrow> path_join_all [tl_home t, ''neelopedia'', ''stats'', get_agent_name (tl_env t), ''secret-scanner'']))"

definition get_secret_sink :: "telemetry \<Rightarrow> sink_options \<times> telemetry" where
  "get_secret_sink t =
     (let agentName = get_agent_name (tl_env t); statsDir = get_secret_stats_dir t;
          sinkKey = statsDir @ '':'' @ agentName;
          fresh = \<lparr>so_statsDir = statsDir, so_agent = agentName, so_namespace = ''secret-scanner'',
                   so_sessionId = None, so_workspace = None\<rparr>
      in case tl_secretSink t of
           None \<Rightarrow> (fresh, t\<lparr>tl_secretSink := Some (sinkKey, fresh)\<rparr>)
         | Some (lastKey, sink) \<Rightarrow>
             if sinkKey \<noteq> lastKey then (fresh, t\<lparr>tl_secretSink := Some (sinkKey, fresh)\<rparr>) else (sink, t))"

definition sink_append ::
  "sink_options \<Rightarrow> string \<Rightarrow> (string \<times> js_value) list \<Rightarrow> (string \<times> js_value) list \<Rightarrow> telemetry \<Rightarrow> telemetry" where
  "sink_append sink type details meta t = t\<lparr>tl_events := tl_events t @
     [\<lparr>se_sink = sink, se_type = type, se_details = details, se_meta = meta\<rparr>]\<rparr>"

definition get_request_telemetry_context :: "environment \<Rightarrow> (string \<times> js_value) list" where
  "get_request_telemetry_context env =
     if_truthy ''orderId'' (env REQUEST_ID_KEY) @
     if_truthy ''orderOriginSessionId'' (env ORIGIN_SESSION_ID_KEY) @
     if_truthy ''orderOriginAgent'' (env ORIGIN_AGENT_KEY) @
     if_truthy ''orderCallerName'' (env CALLER_NAME_KEY) @
     if_truthy ''executorSessionId'' (get_active_session_id env) @
     [(''isQueuedOrder'', JBool (env LEGACY_QUEUED_REQUEST_ENV_KEY = Some ''1''))]"

text \<open>\<open>uuid\<close> is the fresh cycle id; \<open>timestamp\<close> is left out by every caller.\<close>

definition append_event :: "string \<Rightarrow> string \<Rightarrow> (string \<times> js_value) list \<Rightarrow> telemetry \<Rightarrow> telemetry" where
  "append_event uuid eventType details t =
     (if tl_env t ''PI_SKILL_STATS_MODE'' = Some ''test'' then t
      else let (sink, t1) = get_sink t in
        sink_append sink eventType
          (spread (spread (get_request_telemetry_context (tl_env t1)) details) [(''cycleId'', JString uuid)]) [] t1)"

subsection \<open>Secret findings\<close>

text \<open>\<open>details.split(", ")\<close>.\<close>

fun split_comma :: "string \<Rightarrow> string list" where
  "split_comma [] = [[]]"
| "split_comma [c] = [[c]]"
| "split_comma (c # d # s) =
     (if c = CHR '','' \<and> d = CHR '' '' then [] # split_comma s
      else (case split_comma (d # s) of [] \<Rightarrow> [[c]] | w # ws \<Rightarrow> (c # w) # ws))"

definition AT_LINE :: string where "AT_LINE = '' at line ''"

text \<open>\<open>/^(.*) at line (\d+)$/u\<close>: the number takes all the digits at the end, because a space stands before it.\<close>

definition match_detail :: "string \<Rightarrow> (string \<times> string) option" where
  "match_detail detail =
     (let digits = rev (takeWhile is_digit (rev detail));
          front = rev (dropWhile is_digit (rev detail));
          name = take (length front - length AT_LINE) front
      in if digits \<noteq> [] \<and> length AT_LINE \<le> length front \<and> front = name @ AT_LINE \<and> (\<forall>c\<in>set name. \<not> is_line_terminator c)
         then Some (name, digits) else None)"

record secret_detail =
  sd_name :: string
  sd_line :: string
  sd_lineNumber :: int

definition parse_secret_detail :: "string \<Rightarrow> secret_detail" where
  "parse_secret_detail detail =
     (case match_detail detail of
        Some (name, digits) \<Rightarrow> \<lparr>sd_name = name, sd_line = [], sd_lineNumber = digits_value 0 digits\<rparr>
      | None \<Rightarrow> \<lparr>sd_name = detail, sd_line = [], sd_lineNumber = 0\<rparr>)"

definition parse_secret_details :: "string \<Rightarrow> secret_detail list" where
  "parse_secret_details details = map parse_secret_detail (filter (\<lambda>d. d \<noteq> []) (split_comma details))"

definition detail_json :: "secret_detail \<Rightarrow> js_value" where
  "detail_json d = JObject [(''name'', JString (sd_name d)), (''line'', JString (sd_line d)),
     (''lineNumber'', JInt (sd_lineNumber d))]"

definition secret_telemetry_is_disabled :: "environment \<Rightarrow> bool" where
  "secret_telemetry_is_disabled env \<longleftrightarrow> env ''PI_SKILL_STATS_MODE'' = Some ''test'' \<or>
     env ''NODE_ENV'' = Some ''test'' \<and> env_truthy env ''SECRET_SCANNER_STATS_DIR'' = None \<and>
     env_truthy env ''PI_SKILL_STATS_DIR'' = None"

record secret_params =
  sm_repoId :: string
  sm_repoPath :: string
  sm_matchCount :: nat
  sm_details :: string

definition secret_source :: "string \<times> js_value" where
  "secret_source = (''_source'', JString ''git-commits-push-skill'')"

definition secret_meta :: "string \<Rightarrow> string \<Rightarrow> (string \<times> js_value) list" where
  "secret_meta repoId repoPath =
     [(''sessionId'', JString (''skill-'' @ repoId)), (''workspace'', JString repoPath)]"

definition append_secret_finding_event :: "string \<Rightarrow> secret_params \<Rightarrow> telemetry \<Rightarrow> telemetry" where
  "append_secret_finding_event eventType p t =
     (if secret_telemetry_is_disabled (tl_env t) then t
      else let (sink, t1) = get_secret_sink t in
        sink_append sink eventType
          [(''findingsCount'', JInt (int (sm_matchCount p))),
           (''findings'', JArray (map detail_json (parse_secret_details (sm_details p)))), secret_source]
          (secret_meta (sm_repoId p) (sm_repoPath p)) t1)"

definition log_secret_pass :: "string \<Rightarrow> string \<Rightarrow> telemetry \<Rightarrow> telemetry" where
  "log_secret_pass repoId repoPath t =
     (if secret_telemetry_is_disabled (tl_env t) then t
      else let (sink, t1) = get_secret_sink t in
        sink_append sink ''passed'' [(''findingsCount'', JInt 0), (''findings'', JArray []), secret_source]
          (secret_meta repoId repoPath) t1)"


subsection \<open>Events\<close>

text \<open>One constructor per operation of \<open>SkillStatsLog\<close> outside the secret scan, its arguments in the order of the
  interface.\<close>

datatype request_outcome = OwnerOutcome | CoalescedOutcome

datatype pass_decision_name = DecisionContinue | DecisionStopSuccess | DecisionStopFailed

datatype stats_event =
    RequestStarted string string string string "string option"
      \<comment> \<open>\<open>requestId\<close>, \<open>runId\<close>, \<open>callerName\<close>, \<open>originAgent\<close>, \<open>originSessionId\<close>\<close>
  | RequestFinished string string nat nat nat nat "string option"
      \<comment> \<open>\<open>runId\<close>, \<open>outcome\<close>, \<open>successCount\<close>, \<open>failCount\<close>, \<open>totalRepos\<close>, \<open>totalRetries\<close>, \<open>error\<close>\<close>
  | ReconciliationRequested int request_outcome string string "string option" "bool option"
      \<comment> \<open>\<open>generation\<close>, \<open>outcome\<close>, \<open>callerName\<close>, \<open>originAgent\<close>, \<open>originSessionId\<close>, \<open>recovered\<close>\<close>
  | ReconciliationCoalesced int "int option" "string option" \<comment> \<open>\<open>generation\<close>, \<open>ownerPid\<close>, \<open>ownerCallerName\<close>\<close>
  | ReconciliationPassStarted int
  | ExecutionPrepared int int \<comment> \<open>\<open>generation\<close>, \<open>executionPid\<close>\<close>
  | ExecutionRegistered int int
  | ExecutionStarted int int
  | ExecutionCleared int int
  | OrphanExecutionDetected int int
  | OrphanExecutionTerminationStarted int
  | OrphanExecutionTerminated int
  | ReconciliationPassFinished int int bool pass_decision_name
  | ReconciliationRecovered int "int option" \<comment> \<open>\<open>generation\<close>, \<open>previousOwnerPid\<close>\<close>
  | ReconciliationIdle int
  | RunStart string string string string nat bool
      \<comment> \<open>\<open>runId\<close>, \<open>parentModel\<close>, \<open>skillModel\<close>, \<open>skillProvider\<close>, \<open>reposCount\<close>, \<open>thinking\<close>\<close>
  | RunEnd string int nat nat nat nat nat "string option"
      \<comment> \<open>\<open>runId\<close>, \<open>durationMs\<close>, \<open>successCount\<close>, \<open>failCount\<close>, \<open>totalRepos\<close>, \<open>totalRetries\<close>, \<open>loopCount\<close>, \<open>error\<close>\<close>
  | PhaseStart string string nat
  | PhaseEnd string string int string \<comment> \<open>\<open>runId\<close>, \<open>phase\<close>, \<open>durationMs\<close>, \<open>resultKind\<close>\<close>
  | Delegation string string string bool "string option" nat string bool string "nat option" "string option"
      "bool option" "nat option" nat "string option"
      \<comment> \<open>\<open>runId\<close>, \<open>repoId\<close>, \<open>repository\<close>, \<open>isRetry\<close>, \<open>retryKind\<close>, \<open>attempt\<close>, \<open>model\<close>, \<open>thinking\<close>, \<open>diffHash\<close>,
        \<open>diffSizeBytes\<close>, \<open>previousDiffHash\<close>, \<open>diffChanged\<close>, \<open>pendingFilesCount\<close>, \<open>feedbackHistoryItems\<close>, \<open>retryReason\<close>\<close>
  | Retry string string string nat nat string string bool
      \<comment> \<open>\<open>runId\<close>, \<open>repoId\<close>, \<open>kind\<close>, \<open>attempt\<close>, \<open>maxAttempts\<close>, \<open>diffHash\<close>, \<open>model\<close>, \<open>thinking\<close>\<close>
  | LoopDetected string string string string \<comment> \<open>\<open>runId\<close>, \<open>repoId\<close>, \<open>kind\<close>, \<open>planHash\<close>\<close>
  | RepoOutcome string string string string "string option" "(string \<times> nat) list" nat "(string \<times> string) option" nat
      \<comment> \<open>\<open>runId\<close>, \<open>repoId\<close>, \<open>repository\<close>, \<open>status\<close>, \<open>error\<close>, \<open>attempts\<close>, \<open>totalRetries\<close>, \<open>loopDetected\<close>, \<open>committedCount\<close>\<close>

abbreviation jnat :: "nat \<Rightarrow> js_value" where "jnat n \<equiv> JInt (int n)"
abbreviation jopt :: "string option \<Rightarrow> js_value" where "jopt \<equiv> or_undefined JString"

definition outcome_name :: "request_outcome \<Rightarrow> string" where
  "outcome_name r = (case r of OwnerOutcome \<Rightarrow> ''owner'' | CoalescedOutcome \<Rightarrow> ''coalesced'')"

definition decision_name :: "pass_decision_name \<Rightarrow> string" where
  "decision_name d = (case d of DecisionContinue \<Rightarrow> ''CONTINUE'' | DecisionStopSuccess \<Rightarrow> ''STOP_SUCCESS''
     | DecisionStopFailed \<Rightarrow> ''STOP_FAILED'')"

text \<open>\<open>params.error ? sanitizeSensitiveDiagnostic(params.error) : params.error\<close>.\<close>

definition sanitized_error :: "string option \<Rightarrow> js_value" where
  "sanitized_error e = jopt (case e of Some (c # cs) \<Rightarrow> Some (sanitize_sensitive_diagnostic (c # cs)) | other \<Rightarrow> other)"

definition execution_fields :: "int \<Rightarrow> int \<Rightarrow> (string \<times> js_value) list" where
  "execution_fields generation executionPid = [(''generation'', JInt generation), (''executionPid'', JInt executionPid)]"

definition loop_detected_json :: "string \<times> string \<Rightarrow> js_value" where
  "loop_detected_json l = JObject [(''kind'', JString (fst l)), (''planHash'', JString (snd l))]"

text \<open>The events of the coordinator and its passes.\<close>

fun coordinator_event :: "stats_event \<Rightarrow> (string \<times> (string \<times> js_value) list) option" where
  "coordinator_event (ReconciliationRequested generation outcome caller agent session recovered) =
     Some (''reconciliation_requested'', [(''generation'', JInt generation), (''outcome'', JString (outcome_name outcome)),
       (''callerName'', JString caller), (''originAgent'', JString agent), (''originSessionId'', jopt session),
       (''recovered'', or_undefined JBool recovered)])"
| "coordinator_event (ReconciliationCoalesced generation pid name) =
     Some (''reconciliation_coalesced'', [(''generation'', JInt generation), (''ownerPid'', nullable JInt pid),
       (''ownerCallerName'', nullable JString name)])"
| "coordinator_event (ReconciliationPassStarted generation) =
     Some (''reconciliation_pass_started'', [(''generation'', JInt generation)])"
| "coordinator_event (ExecutionPrepared generation pid) = Some (''execution_prepared'', execution_fields generation pid)"
| "coordinator_event (ExecutionRegistered generation pid) =
     Some (''execution_registered'', execution_fields generation pid)"
| "coordinator_event (ExecutionStarted generation pid) = Some (''execution_started'', execution_fields generation pid)"
| "coordinator_event (ExecutionCleared generation pid) = Some (''execution_cleared'', execution_fields generation pid)"
| "coordinator_event (OrphanExecutionDetected generation pid) =
     Some (''orphan_execution_detected'', [(''executionGeneration'', JInt generation), (''executionPid'', JInt pid)])"
| "coordinator_event (OrphanExecutionTerminationStarted pid) =
     Some (''orphan_execution_termination_started'', [(''executionPid'', JInt pid)])"
| "coordinator_event (OrphanExecutionTerminated pid) =
     Some (''orphan_execution_terminated'', [(''executionPid'', JInt pid)])"
| "coordinator_event (ReconciliationPassFinished generation exitCode success decision) =
     Some (''reconciliation_pass_finished'', [(''generation'', JInt generation), (''exitCode'', JInt exitCode),
       (''success'', JBool success), (''decision'', JString (decision_name decision))])"
| "coordinator_event (ReconciliationRecovered generation pid) =
     Some (''reconciliation_recovered'', [(''generation'', JInt generation), (''previousOwnerPid'', nullable JInt pid)])"
| "coordinator_event (ReconciliationIdle generation) = Some (''reconciliation_idle'', [(''generation'', JInt generation)])"
| "coordinator_event _ = None"

text \<open>The events of a run.\<close>

fun run_event :: "stats_event \<Rightarrow> (string \<times> (string \<times> js_value) list) option" where
  "run_event (RequestStarted request run caller agent session) =
     Some (''order_started'', [(''orderId'', JString request), (''runId'', JString run), (''callerName'', JString caller),
       (''originAgent'', JString agent), (''originSessionId'', jopt session)])"
| "run_event (RequestFinished run outcome ok failed repos retries err) =
     Some (''order_finished'', [(''runId'', JString run), (''outcome'', JString outcome), (''successCount'', jnat ok),
       (''failCount'', jnat failed), (''totalRepos'', jnat repos), (''totalRetries'', jnat retries),
       (''error'', sanitized_error err)])"
| "run_event (RunStart run parent model provider repos thinking) =
     Some (''run_start'', [(''runId'', JString run), (''parentModel'', JString parent), (''skillModel'', JString model),
       (''skillProvider'', JString provider), (''reposCount'', jnat repos), (''thinking'', JBool thinking)])"
| "run_event (RunEnd run duration ok failed repos retries loops err) =
     Some (''run_end'', [(''runId'', JString run), (''durationMs'', JInt duration), (''successCount'', jnat ok),
       (''failCount'', jnat failed), (''totalRepos'', jnat repos), (''totalRetries'', jnat retries),
       (''loopCount'', jnat loops), (''error'', sanitized_error err)])"
| "run_event (PhaseStart run phase attempt) =
     Some (''phase_start'', [(''runId'', JString run), (''phase'', JString phase), (''attemptCount'', jnat attempt)])"
| "run_event (PhaseEnd run phase duration kind) =
     Some (''phase_end'', [(''runId'', JString run), (''phase'', JString phase), (''durationMs'', JInt duration),
       (''resultKind'', JString kind)])"
| "run_event (Delegation run repo repository retry kind attempt model thinking diff bytes previous changed pending
       feedback reason) =
     Some (''delegation'', [(''runId'', JString run), (''repoId'', JString repo), (''repository'', JString repository),
       (''isRetry'', JBool retry), (''retryKind'', nullable JString kind), (''attempt'', jnat attempt),
       (''model'', JString model), (''thinking'', JBool thinking), (''diffHash'', JString diff),
       (''diffSizeBytes'', nullable jnat bytes), (''previousDiffHash'', nullable JString previous),
       (''diffChanged'', nullable JBool changed), (''pendingFilesCount'', nullable jnat pending),
       (''feedbackHistoryItems'', jnat feedback), (''retryReason'', jopt reason)])"
| "run_event (Retry run repo kind attempt maxAttempts diff model thinking) =
     Some (''retry'', [(''runId'', JString run), (''repoId'', JString repo), (''kind'', JString kind),
       (''attempt'', jnat attempt), (''maxAttempts'', jnat maxAttempts), (''diffHash'', JString diff),
       (''model'', JString model), (''thinking'', JBool thinking)])"
| "run_event (LoopDetected run repo kind plan) =
     Some (''loop_detected'', [(''runId'', JString run), (''repoId'', JString repo), (''kind'', JString kind),
       (''planHash'', JString plan)])"
| "run_event (RepoOutcome run repo repository status err attempts retries loop commits) =
     Some (''repo_outcome'', [(''runId'', JString run), (''repoId'', JString repo), (''repository'', JString repository),
       (''status'', JString status), (''error'', sanitized_error err),
       (''attempts'', JObject (map (\<lambda>(k, n). (k, jnat n)) attempts)), (''totalRetries'', jnat retries),
       (''loopDetected'', or_undefined loop_detected_json loop), (''committedCount'', jnat commits)])"
| "run_event _ = None"

definition event_record :: "stats_event \<Rightarrow> string \<times> (string \<times> js_value) list" where
  "event_record e = (case coordinator_event e of Some r \<Rightarrow> r
     | None \<Rightarrow> (case run_event e of Some r \<Rightarrow> r | None \<Rightarrow> ([], [])))"

definition log_stats_event :: "string \<Rightarrow> stats_event \<Rightarrow> telemetry \<Rightarrow> telemetry" where
  "log_stats_event uuid e t = append_event uuid (fst (event_record e)) (snd (event_record e)) t"

lemma every_event_has_a_record: "coordinator_event e \<noteq> None \<longleftrightarrow> run_event e = None"
  by (cases e) simp_all


subsection \<open>What a finding tells\<close>

definition plain_name :: "string \<Rightarrow> bool" where
  "plain_name s \<longleftrightarrow> CHR '','' \<notin> set s \<and> (\<forall>c\<in>set s. \<not> is_line_terminator c)"

lemma finding_label_matches:
  assumes "plain_name (sf_name f)"
  shows "parse_secret_detail (finding_label f) =
    \<lparr>sd_name = sf_name f, sd_line = [], sd_lineNumber = int (sf_lineNumber f)\<rparr>"
proof -
  have digits: "\<And>c. c \<in> set (rev (show_nat (sf_lineNumber f))) \<Longrightarrow> is_digit c"
    using show_nat_digits[of "sf_lineNumber f"] by (simp add: list_all_iff)
  have space: "\<not> is_digit (CHR '' '')" by (simp add: is_digit_def)
  have label: "rev (finding_label f) = rev (show_nat (sf_lineNumber f)) @ CHR '' '' # rev (sf_name f @ '' at line'')"
    by (simp add: finding_label_def)
  have "takeWhile is_digit (rev (finding_label f)) = rev (show_nat (sf_lineNumber f))"
    "dropWhile is_digit (rev (finding_label f)) = CHR '' '' # rev (sf_name f @ '' at line'')"
    unfolding label using space by (simp_all only: takeWhile_append2[OF digits] dropWhile_append2[OF digits]) simp_all
  then have "match_detail (finding_label f) = Some (sf_name f, show_nat (sf_lineNumber f))"
    using assms by (simp add: match_detail_def AT_LINE_def plain_name_def)
  then show ?thesis by (simp add: parse_secret_detail_def digits_value_show_nat)
qed

lemma split_comma_plain: "CHR '','' \<notin> set w \<Longrightarrow> split_comma w = [w]"
  by (induction w rule: split_comma.induct) auto

lemma split_comma_joined:
  "CHR '','' \<notin> set w \<Longrightarrow> split_comma (w @ '', '' @ s) = w # split_comma s"
proof (induction w)
  case Nil
  then show ?case by simp
next
  case (Cons c w)
  then have "split_comma (w @ '', '' @ s) = w # split_comma s" by simp
  moreover obtain d t where "w @ '', '' @ s = d # t" by (cases "w @ '', '' @ s") auto
  ultimately show ?case using Cons.prems by auto
qed

lemma split_comma_join:
  "\<forall>w\<in>set ws. CHR '','' \<notin> set w \<Longrightarrow> split_comma (join '', '' ws) = (if ws = [] then [[]] else ws)"
proof (induction "'', ''" ws rule: join.induct)
  case (3 w v ws)
  then show ?case using split_comma_joined[of w "join '', '' (v # ws)"] by simp
qed (simp_all add: split_comma_plain)

lemma finding_labels_parse:
  assumes "\<forall>f\<in>set fs. plain_name (sf_name f)"
  shows "parse_secret_details (join '', '' (map finding_label fs)) =
    map (\<lambda>f. \<lparr>sd_name = sf_name f, sd_line = [], sd_lineNumber = int (sf_lineNumber f)\<rparr>) fs"
proof -
  have digits: "CHR '','' \<notin> set (show_nat n)" for n
    using show_nat_digits[of n] by (auto simp: list_all_iff is_digit_def)
  have "\<forall>w\<in>set (map finding_label fs). CHR '','' \<notin> set w"
    using assms digits by (auto simp: finding_label_def plain_name_def)
  then have "split_comma (join '', '' (map finding_label fs)) = (if fs = [] then [[]] else map finding_label fs)"
    by (simp add: split_comma_join)
  moreover have "filter (\<lambda>d. d \<noteq> []) (map finding_label fs) = map finding_label fs"
    by (auto simp: finding_label_def intro!: filter_True)
  ultimately show ?thesis using assms by (simp add: parse_secret_details_def finding_label_matches)
qed

lemma pattern_names_plain: "list_all (\<lambda>p. plain_name (sp_name p)) SECRET_PATTERNS"
  by (simp add: SECRET_PATTERNS_def pat_def plain_name_def is_line_terminator_def)

lemma found_name_plain:
  assumes "scan_content lineNumber path content = Some f"
  shows "plain_name (sf_name f)"
proof -
  from assms obtain p where "List.find (pattern_hits content) SECRET_PATTERNS = Some p" "sf_name f = sp_name p"
    by (auto simp: scan_content_def build_finding_def split: if_splits)
  then show ?thesis using pattern_names_plain by (auto simp: find_Some_iff list_all_length)
qed

lemma scanned_names_plain:
  "scan_lines i path lines = (findings, warnings) \<Longrightarrow> \<forall>f\<in>set findings \<union> set warnings. plain_name (sf_name f)"
  by (induction i path lines arbitrary: findings warnings rule: scan_lines.induct)
    (auto split: if_splits prod.splits option.splits dest: found_name_plain)

lemma scan_names_plain: "\<forall>f\<in>set (sr_findings (scan_diff diff)) \<union> set (sr_warnings (scan_diff diff)). plain_name (sf_name f)"
proof (cases "scan_lines 0 None (split_on (CHR 0x0A) diff)")
  case (Pair findings warnings)
  then show ?thesis using scanned_names_plain[OF Pair] by (simp add: scan_diff_def)
qed


lemma secret_sink_keeps_events: "get_secret_sink t = (sink, t1) \<Longrightarrow> tl_events t1 = tl_events t"
  by (auto simp: get_secret_sink_def Let_def split: option.splits prod.splits if_splits)

text \<open>When a diff is blocked, the telemetry of the block tells the name of each finding's pattern and its line number,
  all of them in order, and nothing of the line itself; in test mode it tells nothing.\<close>

theorem secret_telemetry_names_findings:
  "let findings = sr_findings (scan_diff diff);
       t' = append_secret_finding_event ''block''
              \<lparr>sm_repoId = repoId, sm_repoPath = repoPath, sm_matchCount = length findings,
               sm_details = join '', '' (map finding_label findings)\<rparr> t
   in if secret_telemetry_is_disabled (tl_env t) then t' = t
      else \<exists>sink. tl_events t' = tl_events t @
        [\<lparr>se_sink = sink, se_type = ''block'',
          se_details = [(''findingsCount'', JInt (int (length findings))),
            (''findings'', JArray (map (\<lambda>f. detail_json
               \<lparr>sd_name = sf_name f, sd_line = [], sd_lineNumber = int (sf_lineNumber f)\<rparr>) findings)), secret_source],
          se_meta = secret_meta repoId repoPath\<rparr>]"
proof -
  have parsed: "parse_secret_details (join '', '' (map finding_label (sr_findings (scan_diff diff)))) =
    map (\<lambda>f. \<lparr>sd_name = sf_name f, sd_line = [], sd_lineNumber = int (sf_lineNumber f)\<rparr>) (sr_findings (scan_diff diff))"
    using scan_names_plain[of diff] by (intro finding_labels_parse) auto
  obtain sink t1 where sink: "get_secret_sink t = (sink, t1)" by (cases "get_secret_sink t")
  show ?thesis
    using secret_sink_keeps_events[OF sink]
    by (simp add: append_secret_finding_event_def sink parsed sink_append_def Let_def o_def)
qed

end
