(* ===== verification/Reporter.thy ===== *)
theory Reporter
  imports Commit_Phase
begin

text \<open>
  The report at the end of a run, \<open>src/src/modules/core/reporter.ts\<close>. Its symbols are outside Latin-1 and stand here as
  the bytes that are written. The counters of a repository are a function of the kind, so the order in which they were
  first used, which the breakdown of the retries follows, is an argument.
\<close>

record repo_report =
  rr_repository :: string
  rr_status :: repo_status
  rr_error :: "string option"
  rr_committedShas :: "committed_sha list"
  rr_pushedShas :: "string list"
  rr_attempts :: attempts_by_kind
  rr_totalRetries :: nat
  rr_loopDetected :: "(error_kind \<times> string) option"

definition build_report :: "repos \<Rightarrow> repo_report list" where
  "build_report repos = map (\<lambda>(_, r).
     \<lparr>rr_repository = rs_repository r, rr_status = rs_status r, rr_error = rs_error r,
      rr_committedShas = nullish (rs_committedShas r) [], rr_pushedShas = nullish (rs_pushedShas r) [],
      rr_attempts = nullish (rs_attempts r) Map.empty, rr_totalRetries = total_retries r,
      rr_loopDetected = rs_loopDetected r\<rparr>) repos"

definition CHECK_MARK :: string where "CHECK_MARK = [CHR 0xE2, CHR 0x9C, CHR 0x85]"
definition CROSS_MARK :: string where "CROSS_MARK = [CHR 0xE2, CHR 0x9D, CHR 0x8C]"
definition WARNING_SIGN :: string where "WARNING_SIGN = [CHR 0xE2, CHR 0x9A, CHR 0xA0, CHR 0xEF, CHR 0xB8, CHR 0x8F]"
definition ARROWS :: string where "ARROWS = [CHR 0xF0, CHR 0x9F, CHR 0x94, CHR 0x84]"
definition UP_SIGN :: string where "UP_SIGN = [CHR 0xE2, CHR 0x8F, CHR 0xAB]"
definition NO_ENTRY :: string where "NO_ENTRY = [CHR 0xE2, CHR 0x9B, CHR 0x94]"
definition PACKAGE :: string where "PACKAGE = [CHR 0xF0, CHR 0x9F, CHR 0x93, CHR 0xA6]"
definition EM_DASH :: string where "EM_DASH = [CHR 0xE2, CHR 0x80, CHR 0x94]"

definition status_text :: "repo_status \<Rightarrow> string" where
  "status_text s = (case s of PENDING \<Rightarrow> ''PENDING'' | RUNNING \<Rightarrow> ''RUNNING'' | SUCCESS \<Rightarrow> ''SUCCESS'' | FAILED \<Rightarrow> ''FAILED'')"

definition success_line :: "string \<Rightarrow> repo_state \<Rightarrow> string" where
  "success_line id_text state =
     (let commitCount = committed_count state; pushedCount = length (nullish (rs_pushedShas state) []);
          commitSummary = (case rs_commits state of
              Some (plan # _) \<Rightarrow> '' '' @ EM_DASH @ '' '' @ cm_type (cp_commit plan) @ '': '' @ cm_description (cp_commit plan)
            | _ \<Rightarrow> []);
          line = CHECK_MARK @ '' ['' @ id_text @ ''] Success.'' @ commitSummary
      in if rs_operation state = Some PushOnly
         then line @ '' ('' @ show_nat pushedCount @ '' existing commit'' @ (if pushedCount = 1 then [] else ''s'') @ '' pushed)''
         else if commitCount > 0 then line @ '' ('' @ show_nat commitCount @ '' commit'' @ (if commitCount > 1 then ''s'' else []) @ '')''
         else line)"

definition status_line :: "string \<Rightarrow> repo_state \<Rightarrow> string" where
  "status_line id_text state =
     (case rs_status state of
        SUCCESS \<Rightarrow> success_line id_text state
      | FAILED \<Rightarrow> CROSS_MARK @ '' ['' @ id_text @ ''] Failed.'' @ nullish (rs_error state) []
      | other \<Rightarrow> WARNING_SIGN @ '' ['' @ id_text @ ''] Unexpected state: '' @ status_text other)"

definition retry_lines :: "(repo_state \<Rightarrow> error_kind list) \<Rightarrow> repo_state \<Rightarrow> string list" where
  "retry_lines order state =
     (if total_retries state > 0 then
        [''   '' @ ARROWS @ '' '' @ show_nat (total_retries state) @ '' retr'' @ (if total_retries state > 1 then ''ies'' else ''y'') @
         '' ('' @ join '', '' (map (\<lambda>kind. kind_name kind @ '': '' @ show_nat (attempt_count state kind))
                    (filter (\<lambda>kind. attempt_count state kind > 0) (order state))) @ '')'']
      else [])"

definition commit_line :: "committed_sha \<Rightarrow> string" where
  "commit_line cs = ''   '' @ PACKAGE @ '' '' @ take 7 (cs_sha cs) @ '': '' @ join '', '' (cs_files cs)"

definition repo_lines :: "(repo_state \<Rightarrow> error_kind list) \<Rightarrow> string \<times> repo_state \<Rightarrow> string list" where
  "repo_lines order entry =
     (case entry of (id_text, state) \<Rightarrow>
        [status_line id_text state] @ retry_lines order state @
        (if rs_fallbackAttempted state = Some True then [''   '' @ UP_SIGN @ '' Fallback model used''] else []) @
        (case rs_loopDetected state of
           None \<Rightarrow> []
         | Some (kind, _) \<Rightarrow> [''   '' @ NO_ENTRY @ '' Loop detected ('' @ kind_name kind @ '')'']) @
        map commit_line (nullish (rs_committedShas state) []) @ [[]])"

definition report_lines :: "(repo_state \<Rightarrow> error_kind list) \<Rightarrow> repos \<Rightarrow> string list" where
  "report_lines order repos =
     [[], ''=== TURNLOCK EXECUTION REPORT ==='', []] @ concat (map (repo_lines order) repos) @
     [''================================='', []]"

definition generate_report :: "(repo_state \<Rightarrow> error_kind list) \<Rightarrow> repos \<Rightarrow> string" where
  "generate_report order repos = join [CHR 0x0A] (report_lines order repos)"

text \<open>\<open>printReport\<close>: the report goes to the standard error stream, which is a list of the texts written.\<close>

definition print_report :: "(repo_state \<Rightarrow> error_kind list) \<Rightarrow> repos \<Rightarrow> string list \<Rightarrow> string list" where
  "print_report order repos stderr = stderr @ [generate_report order repos]"

text \<open>Nothing that landed is left out of the report: every recorded commit of every repository has its line, and every
  repository its status.\<close>

theorem report_names_every_commit:
  assumes "(id_text, state) \<in> set repos"
  shows "status_line id_text state \<in> set (report_lines order repos) \<and>
    (\<forall>cs\<in>set (nullish (rs_committedShas state) []). commit_line cs \<in> set (report_lines order repos))"
proof -
  have part: "set (repo_lines order (id_text, state)) \<subseteq> set (report_lines order repos)"
    using assms by (auto simp: report_lines_def)
  have "status_line id_text state \<in> set (repo_lines order (id_text, state))" by (simp add: repo_lines_def)
  moreover have "commit_line cs \<in> set (repo_lines order (id_text, state))"
    if "cs \<in> set (nullish (rs_committedShas state) [])" for cs
    using that by (simp add: repo_lines_def)
  ultimately show ?thesis using part by blast
qed

end
