(* ===== verification/Settings.thy ===== *)
theory Settings
  imports Control_Protocol Request_Identity Commit_Types
begin

text \<open>
  The configuration file and the prompt of the model: \<open>src/src/config/settings.ts\<close> and
  \<open>src/src/modules/core/system-prompt-loader.ts\<close>. The text is parsed by the JSON library; of what it gives the code
  checks the presence of the required fields and casts their values, so these stay JSON values here.
\<close>

subsection \<open>Reading\<close>

record raw_settings =
  rw_searchPaths :: js_value
  rw_provider :: js_value
  rw_model :: js_value
  rw_temperature :: js_value
  rw_systemPromptPath :: js_value
  rw_autoPush :: bool
  rw_skipTests :: bool
  rw_fallbackProvider :: "string option"
  rw_fallbackModel :: "string option"
  rw_thinking :: "bool option"
  rw_agent :: "string option"
  rw_maxDiffChars :: "js_value option"

datatype settings_error =
    SettingsMissing string
  | SettingsUnreadable string
  | SettingsNotJson
  | SettingsNotObject
  | SettingsFieldMissing string
  | SettingsFallbackIncomplete

record settings_view =
  sw_env :: environment
  sw_exists :: "string \<Rightarrow> bool"
  sw_read :: "string \<Rightarrow> string + string"
  sw_parse :: "string \<Rightarrow> js_value option"
  sw_positiveFraction :: bool \<comment> \<open>a limit that is not an integer is above zero\<close>

definition REQUIRED_FIELDS :: "string list" where
  "REQUIRED_FIELDS = [''provider'', ''model'', ''temperature'', ''systemPromptPath'', ''autoPush'', ''skipTests'']"

text \<open>\<open>field in obj\<close>: no required name is one of \<open>Object.prototype\<close> or of an array.\<close>

definition has_field :: "js_value \<Rightarrow> string \<Rightarrow> bool" where
  "has_field v field = (case v of JObject fs \<Rightarrow> field \<in> fst ` set fs | _ \<Rightarrow> False)"

text \<open>\<open>Boolean(value)\<close> of a parsed value; JSON has no \<open>NaN\<close>.\<close>

definition to_boolean :: "js_value \<Rightarrow> bool" where
  "to_boolean v = (case v of JUndefined \<Rightarrow> False | JNull \<Rightarrow> False | JBool b \<Rightarrow> b | JInt i \<Rightarrow> i \<noteq> 0
     | JNonInteger \<Rightarrow> True | JString s \<Rightarrow> s \<noteq> [] | JArray _ \<Rightarrow> True | JObject _ \<Rightarrow> True)"

definition string_field :: "js_value \<Rightarrow> string option" where
  "string_field v = (case v of JString s \<Rightarrow> Some s | _ \<Rightarrow> None)"

definition boolean_field :: "js_value \<Rightarrow> bool option" where
  "boolean_field v = (case v of JBool b \<Rightarrow> Some b | _ \<Rightarrow> None)"

definition positive_field :: "settings_view \<Rightarrow> js_value \<Rightarrow> js_value option" where
  "positive_field sw v = (case v of
       JInt i \<Rightarrow> if i > 0 then Some v else None
     | JNonInteger \<Rightarrow> if sw_positiveFraction sw then Some v else None
     | _ \<Rightarrow> None)"

definition settings_of_object :: "settings_view \<Rightarrow> js_value \<Rightarrow> settings_error + raw_settings" where
  "settings_of_object sw obj =
     (case filter (\<lambda>field. \<not> has_field obj field) REQUIRED_FIELDS of
        field # _ \<Rightarrow> Inl (SettingsFieldMissing field)
      | [] \<Rightarrow>
          if has_field obj ''fallbackProvider'' \<noteq> has_field obj ''fallbackModel'' then Inl SettingsFallbackIncomplete
          else Inr \<lparr>
            rw_searchPaths = (case get_prop obj ''searchPaths'' of JArray vs \<Rightarrow> JArray vs | _ \<Rightarrow> JArray []),
            rw_provider = get_prop obj ''provider'', rw_model = get_prop obj ''model'',
            rw_temperature = get_prop obj ''temperature'', rw_systemPromptPath = get_prop obj ''systemPromptPath'',
            rw_autoPush = to_boolean (get_prop obj ''autoPush''), rw_skipTests = to_boolean (get_prop obj ''skipTests''),
            rw_fallbackProvider = string_field (get_prop obj ''fallbackProvider''),
            rw_fallbackModel = string_field (get_prop obj ''fallbackModel''),
            rw_thinking = boolean_field (get_prop obj ''thinking''), rw_agent = string_field (get_prop obj ''agent''),
            rw_maxDiffChars = positive_field sw (get_prop obj ''maxDiffChars'')\<rparr>)"

definition read_settings :: "settings_view \<Rightarrow> string \<Rightarrow> settings_error + raw_settings" where
  "read_settings sw skillDir =
     (let settingsPath = nullish (env_truthy (sw_env sw) ''TURNLOCK_SKILL_SETTINGS_PATH'')
            (path_join skillDir ''settings.json'')
      in if \<not> sw_exists sw settingsPath then Inl (SettingsMissing settingsPath)
      else case sw_read sw settingsPath of
        Inl m \<Rightarrow> Inl (SettingsUnreadable m)
      | Inr raw \<Rightarrow>
          (case sw_parse sw raw of
             None \<Rightarrow> Inl SettingsNotJson
           | Some parsed \<Rightarrow> if \<not> is_record parsed then Inl SettingsNotObject else settings_of_object sw parsed))"

text \<open>\<open>configuredPath || "../../system-prompt.md"\<close> below an absolute directory; no file is the empty prompt.\<close>

definition load_system_prompt :: "settings_view \<Rightarrow> string \<Rightarrow> string option \<Rightarrow> string + string" where
  "load_system_prompt sw entrypointDirectory configuredPath =
     (let promptPath = path_resolve entrypointDirectory
            (case configuredPath of Some (c # cs) \<Rightarrow> c # cs | _ \<Rightarrow> ''../../system-prompt.md'')
      in if sw_exists sw promptPath then sw_read sw promptPath else Inr [])"

subsection \<open>What the phases may rely on\<close>

text \<open>The values of a file whose casts hold; the record the phases work with.\<close>

definition typed_settings :: "raw_settings \<Rightarrow> settings option" where
  "typed_settings raw =
     (case (rw_provider raw, rw_model raw, rw_temperature raw, rw_searchPaths raw) of
        (JString provider, JString model, JInt temperature, JArray paths) \<Rightarrow>
          if list_all (\<lambda>p. string_field p \<noteq> None) paths \<and>
             (case rw_maxDiffChars raw of None \<Rightarrow> True | Some (JInt i) \<Rightarrow> True | Some _ \<Rightarrow> False)
          then Some \<lparr>st_provider = provider, st_model = model, st_temperature = temperature,
            st_autoPush = rw_autoPush raw, st_fallbackProvider = rw_fallbackProvider raw,
            st_fallbackModel = rw_fallbackModel raw, st_thinking = rw_thinking raw, st_agent = rw_agent raw,
            st_searchPaths = map (\<lambda>p. the (string_field p)) paths, st_skipTests = rw_skipTests raw,
            st_maxDiffChars = (case rw_maxDiffChars raw of Some (JInt i) \<Rightarrow> Some (nat i) | _ \<Rightarrow> None)\<rparr>
          else None
      | _ \<Rightarrow> None)"

text \<open>A file that says what a record of settings says.\<close>

definition optional_field :: "string \<Rightarrow> ('a \<Rightarrow> js_value) \<Rightarrow> 'a option \<Rightarrow> (string \<times> js_value) list" where
  "optional_field key f v = (case v of None \<Rightarrow> [] | Some x \<Rightarrow> [(key, f x)])"

definition settings_json :: "settings \<Rightarrow> string \<Rightarrow> js_value" where
  "settings_json s promptPath = JObject (
     [(''provider'', JString (st_provider s)), (''model'', JString (st_model s)), (''temperature'', JInt (st_temperature s)),
      (''systemPromptPath'', JString promptPath), (''autoPush'', JBool (st_autoPush s)),
      (''skipTests'', JBool (st_skipTests s)), (''searchPaths'', JArray (map JString (st_searchPaths s)))] @
     optional_field ''fallbackProvider'' JString (st_fallbackProvider s) @
     optional_field ''fallbackModel'' JString (st_fallbackModel s) @
     optional_field ''thinking'' JBool (st_thinking s) @ optional_field ''agent'' JString (st_agent s) @
     optional_field ''maxDiffChars'' (\<lambda>n. JInt (int n)) (st_maxDiffChars s))"

definition consistent_settings :: "settings \<Rightarrow> bool" where
  "consistent_settings s \<longleftrightarrow> (st_fallbackProvider s = None \<longleftrightarrow> st_fallbackModel s = None) \<and> st_maxDiffChars s \<noteq> Some 0"

lemma optional_field_names: "fst ` set (optional_field key f v) = (if v = None then {} else {key})"
  by (cases v) (simp_all add: optional_field_def)

lemma optional_field_value: "map_of (optional_field key f v) k = (if k = key then map_option f v else None)"
  by (simp add: optional_field_def split: option.splits)

lemmas optional_fields = optional_field_names optional_field_value image_Un map_add_def

lemma json_fields:
  "has_field (settings_json s p) ''fallbackProvider'' \<longleftrightarrow> st_fallbackProvider s \<noteq> None"
  "has_field (settings_json s p) ''fallbackModel'' \<longleftrightarrow> st_fallbackModel s \<noteq> None"
  "filter (\<lambda>field. \<not> has_field (settings_json s p) field) REQUIRED_FIELDS = []"
  by (auto simp: has_field_def settings_json_def REQUIRED_FIELDS_def optional_fields)

lemma json_props:
  "get_prop (settings_json s p) ''searchPaths'' = JArray (map JString (st_searchPaths s))"
  "get_prop (settings_json s p) ''provider'' = JString (st_provider s)"
  "get_prop (settings_json s p) ''model'' = JString (st_model s)"
  "get_prop (settings_json s p) ''temperature'' = JInt (st_temperature s)"
  "get_prop (settings_json s p) ''systemPromptPath'' = JString p"
  "get_prop (settings_json s p) ''autoPush'' = JBool (st_autoPush s)"
  "get_prop (settings_json s p) ''skipTests'' = JBool (st_skipTests s)"
  "string_field (get_prop (settings_json s p) ''fallbackProvider'') = st_fallbackProvider s"
  "string_field (get_prop (settings_json s p) ''fallbackModel'') = st_fallbackModel s"
  "boolean_field (get_prop (settings_json s p) ''thinking'') = st_thinking s"
  "string_field (get_prop (settings_json s p) ''agent'') = st_agent s"
  by (simp_all add: get_prop_def settings_json_def optional_fields string_field_def boolean_field_def split: option.splits)

lemma json_limit:
  "consistent_settings s \<Longrightarrow>
     positive_field sw (get_prop (settings_json s p) ''maxDiffChars'') = map_option (\<lambda>n. JInt (int n)) (st_maxDiffChars s)"
  by (auto simp: get_prop_def settings_json_def optional_field_def positive_field_def consistent_settings_def
      split: option.splits)

text \<open>The configuration written down is the configuration that is read: the phases get the settings of the file, and of
  \<open>fallbackProvider\<close> and \<open>fallbackModel\<close> both or none.\<close>

theorem settings_are_read_back:
  assumes "consistent_settings s"
  shows "\<exists>raw. settings_of_object sw (settings_json s p) = Inr raw \<and> typed_settings raw = Some s \<and>
    rw_systemPromptPath raw = JString p"
proof -
  have both: "(st_fallbackProvider s = None) = (st_fallbackModel s = None)" using assms by (simp add: consistent_settings_def)
  define raw where "raw = \<lparr>rw_searchPaths = JArray (map JString (st_searchPaths s)), rw_provider = JString (st_provider s),
     rw_model = JString (st_model s), rw_temperature = JInt (st_temperature s), rw_systemPromptPath = JString p,
     rw_autoPush = st_autoPush s, rw_skipTests = st_skipTests s, rw_fallbackProvider = st_fallbackProvider s,
     rw_fallbackModel = st_fallbackModel s, rw_thinking = st_thinking s, rw_agent = st_agent s,
     rw_maxDiffChars = map_option (\<lambda>n. JInt (int n)) (st_maxDiffChars s)\<rparr>"
  have "settings_of_object sw (settings_json s p) = Inr raw"
    using both by (simp add: settings_of_object_def json_fields json_props json_limit[OF assms] to_boolean_def raw_def)
  moreover have "rw_systemPromptPath raw = JString p" by (simp add: raw_def)
  moreover have "typed_settings raw = Some s"
    by (cases s; cases "st_maxDiffChars s") (simp_all add: typed_settings_def raw_def string_field_def list_all_iff o_def)
  ultimately show ?thesis by blast
qed

end
