(* ===== verification/Entry_Points.thy ===== *)
theory Entry_Points
  imports Git_Executable Request_Identity
begin

text \<open>
  The programs a user starts: \<open>bin/git-commits-push.mjs\<close>, which refuses an old Node before it loads anything of the
  application, and \<open>src/src/entrypoints/turnlock-orchestrator.ts\<close>, which prepares its arguments before it loads the
  turnlock package; \<open>src/src/utils/direct-execution.ts\<close> tells whether a module was started or imported.
\<close>

subsection \<open>The version of Node\<close>

definition MINIMUM_NODE_VERSION :: "int \<times> int \<times> int" where "MINIMUM_NODE_VERSION = (22, 19, 0)"

text \<open>\<open>/^(\d+)\.(\d+)\.(\d+)(?:-|$)/\<close>.\<close>

definition dotted :: "string \<Rightarrow> (int \<times> string) option" where
  "dotted s = (if s = [] \<or> hd s \<noteq> CHR ''.'' then None else digit_group (tl s))"

definition parse_node_version :: "string \<Rightarrow> (int \<times> int \<times> int) option" where
  "parse_node_version version =
     Option.bind (digit_group version) (\<lambda>(major, rest).
     Option.bind (dotted rest) (\<lambda>(minor, rest1).
     Option.bind (dotted rest1) (\<lambda>(patch, rest2).
       if rest2 = [] \<or> hd rest2 = CHR ''-'' then Some (major, minor, patch) else None)))"

definition supports_node_version :: "string \<Rightarrow> bool" where
  "supports_node_version version =
     (case parse_node_version version of
        None \<Rightarrow> False
      | Some (major, minor, patch) \<Rightarrow>
          (case MINIMUM_NODE_VERSION of (major0, minor0, patch0) \<Rightarrow>
             major > major0 \<or> major = major0 \<and> (minor > minor0 \<or> minor = minor0 \<and> patch \<ge> patch0)))"

text \<open>The exit code of the executable: the application is loaded only by a supported Node. \<open>application\<close> is
  \<open>runStandaloneCli\<close>.\<close>

definition main_executable :: "string \<Rightarrow> ('w \<Rightarrow> ('e + int) \<times> 'w) \<Rightarrow> 'w \<Rightarrow> ('e + int) \<times> 'w" where
  "main_executable nodeVersion application w =
     (if \<not> supports_node_version nodeVersion then (Inr 2, w) else application w)"

subsection \<open>Direct execution\<close>

definition is_direct_execution ::
  "(string \<Rightarrow> string option) \<Rightarrow> (string \<Rightarrow> string option) \<Rightarrow> string \<Rightarrow> string \<Rightarrow> string option \<Rightarrow> bool" where
  "is_direct_execution realpath fileURLToPath cwd moduleUrl entrypointArgument =
     (case entrypointArgument of
        None \<Rightarrow> False
      | Some argument \<Rightarrow>
          (case Option.bind (fileURLToPath moduleUrl) realpath of
             None \<Rightarrow> False
           | Some modulePath \<Rightarrow>
               (case realpath (path_resolve cwd argument) of
                  None \<Rightarrow> False
                | Some argumentPath \<Rightarrow> modulePath = argumentPath)))"

subsection \<open>The orchestrator\<close>

text \<open>The bootstrap runs before the package that parses the arguments is loaded; \<open>runOrchestrator\<close> is that package's and
  fails or ends. An error of the bootstrap ends the process before anything else, with the code of an uncaught error.\<close>

definition turnlock_orchestrator ::
  "string \<Rightarrow> string \<Rightarrow> (string list \<Rightarrow> environment \<Rightarrow> 'w \<Rightarrow> (string + unit) \<times> 'w) \<Rightarrow> string list \<Rightarrow> environment \<Rightarrow>
     'w \<Rightarrow> int \<times> 'w" where
  "turnlock_orchestrator freshRunId freshOrderId runOrchestrator args env w =
     (case bootstrap_orchestrator_run freshRunId freshOrderId args env of
        Inl _ \<Rightarrow> (1, w)
      | Inr (argv, env1, _) \<Rightarrow>
          (case runOrchestrator argv env1 w of
             (Inl _, w1) \<Rightarrow> (1, w1)
           | (Inr _, w1) \<Rightarrow> (0, w1)))"

text \<open>An unsupported Node does nothing; a new run reaches the package with the run id that was announced.\<close>

lemma old_node_does_nothing: "\<not> supports_node_version v \<Longrightarrow> main_executable v application w = (Inr 2, w)"
  by (simp add: main_executable_def)

lemma argument_after_append: "name \<notin> set as \<Longrightarrow> argument_after name (as @ [name, v]) = Some v"
  by (induction as) (auto simp: nth_opt_def)

lemma bootstrap_run_id:
  assumes "bootstrap_orchestrator_run freshRunId freshOrderId args env = Inr (argv, env1, Some (runId, identity))"
    and "argument_after ''--run-id'' args = None \<Longrightarrow> ''--run-id'' \<notin> set args"
    and "argument_after ''--run-id'' args \<noteq> Some []"
  shows "argument_after ''--run-id'' argv = Some runId"
  using assms
  by (cases "argument_after ''--run-id'' args")
    (auto simp: bootstrap_orchestrator_run_def and_then_ok Let_def argument_after_append split: if_splits)

end
