(* ===== verification/State_Migration.thy ===== *)
theory State_Migration
  imports Cutover_Preflight Launcher
begin

text \<open>
  The move of the program's state from its retired location, \<open>scripts/state-migration.mjs\<close> and its command line,
  \<open>scripts/migrate-state.mjs\<close>. The two roots hold a tree each or nothing; a move renames one root into the other. What
  the operating system answers is \<open>move_env\<close>; the coordinator's database inside a tree is opened and read by the
  functions of \<open>Reconciler_Db\<close>, and the moved tree is inspected by the preflight of \<open>Cutover_Preflight\<close>.
\<close>

subsection \<open>Two roots\<close>

record state_tree =
  tr_orders :: bool \<comment> \<open>the \<open>orders\<close> directory exists\<close>
  tr_database :: "db_file option"
  tr_entries :: "string list"

record roots =
  ro_source :: "state_tree option"
  ro_target :: "state_tree option"
  ro_released :: bool \<comment> \<open>the lock was given back\<close>

datatype rename_error = CrossDevice | RenameFails string

datatype directory_kind = PhysicalDirectory | OtherEntry

record move_env =
  mv_mkdirParent :: "string option"
  mv_lockFree :: bool
  mv_releases :: bool \<comment> \<open>\<open>rmdirSync\<close> of the lock works\<close>
  mv_sourceKind :: directory_kind
  mv_targetKind :: directory_kind
  mv_databaseStat :: file_stat \<comment> \<open>\<open>lstatSync\<close> of a database that exists\<close>
  mv_databaseSize :: nat
  mv_open :: "bool \<Rightarrow> open_env"
  mv_checkpoint :: "string + int option" \<comment> \<open>the column \<open>busy\<close> of the answer, if it has one\<close>
  mv_transient :: "string list"
  mv_rename :: "rename_error option"
  mv_back :: "nat \<Rightarrow> string option" \<comment> \<open>the two attempts to rename back\<close>
  mv_preflight :: "state_tree \<Rightarrow> preflight_env"
  mv_now :: int
  mv_readdir :: "string option"

datatype move_error =
    RootNotAbsolute string
  | LockRefused string
  | NotPhysicalDirectory string
  | BothRootsExist
  | DatabaseNotInitialized
  | DatabaseOpen open_error
  | DatabaseUnreadable invariant_error
  | OwnerRecorded "int option"
  | GenerationsPending int int
  | CheckpointFails string
  | CheckpointRefused
  | TransientFilesRemain "string list"
  | DifferentFilesystem
  | RenameError string
  | FailedPreflight "cutover_blocker list"
  | ListingFails string

datatype move_outcome = MoveAbsent | MoveAlreadyDone | Moved "string list"

subsection \<open>The source is idle\<close>

definition require_state_directory ::
  "string \<Rightarrow> string \<Rightarrow> directory_kind \<Rightarrow> state_tree option \<Rightarrow> move_error option" where
  "require_state_directory directoryPath label kind tree =
     (if \<not> is_absolute directoryPath then Some (RootNotAbsolute label)
      else if tree = None then None
      else if kind \<noteq> PhysicalDirectory then Some (NotPhysicalDirectory label) else None)"

definition assert_idle_reconciler_state :: "db \<Rightarrow> move_error option" where
  "assert_idle_reconciler_state rows =
     (case read_reconciler_state rows of
        Inl e \<Rightarrow> Some (DatabaseUnreadable e)
      | Inr state \<Rightarrow>
          if ownerToken state \<noteq> None \<or> ownerPid state \<noteq> None then Some (OwnerRecorded (ownerPid state))
          else if requestedGeneration state \<noteq> completedGeneration state
          then Some (GenerationsPending (completedGeneration state) (requestedGeneration state))
          else None)"

definition open_idle :: "move_env \<Rightarrow> bool \<Rightarrow> db_file \<Rightarrow> move_error option \<times> db_file" where
  "open_idle env readOnly f =
     (case open_reconciler_db (mv_open env readOnly) readOnly f of
        (Inl e, f1) \<Rightarrow> (Some (DatabaseOpen e), f1)
      | (Inr _, f1) \<Rightarrow> (assert_idle_reconciler_state (df_rows f1), f1))"

definition truncate_log :: "move_env \<Rightarrow> move_error option" where
  "truncate_log env =
     (case mv_checkpoint env of
        Inl m \<Rightarrow> Some (CheckpointFails m)
      | Inr busy \<Rightarrow>
          if busy \<noteq> Some 0 then Some CheckpointRefused
          else let remaining = filter (\<lambda>s. s \<in> set (mv_transient env)) [''-journal'', ''-shm'', ''-wal'']
          in if remaining \<noteq> [] then Some (TransientFilesRemain remaining) else None)"

definition checkpoint_reconciler_database :: "move_env \<Rightarrow> db_file option \<Rightarrow> move_error option \<times> db_file option" where
  "checkpoint_reconciler_database env database =
     (case database of
        None \<Rightarrow> (None, None)
      | Some f \<Rightarrow>
          if mv_databaseStat env \<noteq> StatRegular \<or> mv_databaseSize env = 0 then (Some DatabaseNotInitialized, Some f)
          else (case open_idle env True f of
                  (Some e, f1) \<Rightarrow> (Some e, Some f1)
                | (None, f1) \<Rightarrow>
                    (case open_idle env False f1 of
                       (Some e, f2) \<Rightarrow> (Some e, Some f2)
                     | (None, f2) \<Rightarrow> (truncate_log env, Some f2))))"

subsection \<open>The move\<close>

definition validate_migrated_state :: "move_env \<Rightarrow> state_tree \<Rightarrow> move_error option" where
  "validate_migrated_state env tree =
     (if \<not> tr_orders tree then None
      else let blockers = inspect_reconciliation_preflight_state (mv_preflight env tree) (mv_now env)
      in if blockers \<noteq> [] then Some (FailedPreflight blockers) else None)"

text \<open>\<open>renameSync(targetRoot, sourceRoot)\<close>, at its \<open>i\<close>-th call.\<close>

definition rename_back :: "move_env \<Rightarrow> nat \<Rightarrow> roots \<Rightarrow> string option \<times> roots" where
  "rename_back env i r =
     (case mv_back env i of
        Some m \<Rightarrow> (Some m, r)
      | None \<Rightarrow> (None, r\<lparr>ro_source := ro_target r, ro_target := None\<rparr>))"

text \<open>The rename and the validation of what was moved. The second component is \<open>rollbackRequired\<close> when control leaves
  the block.\<close>

definition move_and_validate :: "move_env \<Rightarrow> roots \<Rightarrow> (move_error + move_outcome) \<times> bool \<times> roots" where
  "move_and_validate env r =
     (case mv_rename env of
        Some CrossDevice \<Rightarrow> (Inl DifferentFilesystem, False, r)
      | Some (RenameFails m) \<Rightarrow> (Inl (RenameError m), False, r)
      | None \<Rightarrow>
          (let r1 = r\<lparr>ro_source := None, ro_target := ro_source r\<rparr>; tree = the (ro_source r) in
           case validate_migrated_state env tree of
             Some e \<Rightarrow>
               (case rename_back env 0 r1 of
                  (Some m, r2) \<Rightarrow> (Inl (RenameError m), True, r2)
                | (None, r2) \<Rightarrow> (Inl e, False, r2))
           | None \<Rightarrow>
               (case mv_readdir env of
                  Some m \<Rightarrow> (Inl (ListingFails m), False, r1)
                | None \<Rightarrow> (Inr (Moved (sort_by string_le (tr_entries tree))), False, r1))))"

definition move_locked ::
  "move_env \<Rightarrow> string \<Rightarrow> string \<Rightarrow> roots \<Rightarrow> (move_error + move_outcome) \<times> bool \<times> roots" where
  "move_locked env sourceRoot targetRoot r =
     (case require_state_directory sourceRoot ''Legacy state root'' (mv_sourceKind env) (ro_source r) of
        Some e \<Rightarrow> (Inl e, False, r)
      | None \<Rightarrow>
          (case require_state_directory targetRoot ''Target state root'' (mv_targetKind env) (ro_target r) of
             Some e \<Rightarrow> (Inl e, False, r)
           | None \<Rightarrow>
               (case ro_source r of
                  None \<Rightarrow> (Inr (if ro_target r \<noteq> None then MoveAlreadyDone else MoveAbsent), False, r)
                | Some tree \<Rightarrow>
                    if ro_target r \<noteq> None then (Inl BothRootsExist, False, r)
                    else
                      (case checkpoint_reconciler_database env (tr_database tree) of
                         (failed, database) \<Rightarrow>
                           (let r1 = r\<lparr>ro_source := Some (tree\<lparr>tr_database := database\<rparr>)\<rparr> in
                            case failed of
                              Some e \<Rightarrow> (Inl e, False, r1)
                            | None \<Rightarrow> move_and_validate env r1)))))"

text \<open>The last block: a rename back that is still due, then the lock, which is given back without masking the result.\<close>

definition move_finally ::
  "move_env \<Rightarrow> (move_error + move_outcome) \<times> bool \<times> roots \<Rightarrow> (move_error + move_outcome) \<times> roots" where
  "move_finally env result =
     (case result of (outcome, rollbackRequired, r) \<Rightarrow>
        let r1 = (if rollbackRequired \<and> ro_target r \<noteq> None \<and> ro_source r = None then snd (rename_back env 1 r) else r)
        in (outcome, r1\<lparr>ro_released := mv_releases env\<rparr>))"

definition acquire_move_lock :: "move_env \<Rightarrow> string \<Rightarrow> string + string" where
  "acquire_move_lock env targetRoot =
     (case resolve_state_cutover_lock_path targetRoot of
        Inl e \<Rightarrow> Inl e
      | Inr p \<Rightarrow>
          (case mv_mkdirParent env of
             Some e \<Rightarrow> Inl e
           | None \<Rightarrow> if mv_lockFree env then Inr p else Inl (''State migration lock is already held: '' @ p)))"

definition migrate_application_state ::
  "move_env \<Rightarrow> string \<Rightarrow> string \<Rightarrow> roots \<Rightarrow> (move_error + move_outcome) \<times> roots" where
  "migrate_application_state env sourceRoot targetRoot r =
     (if \<not> is_absolute sourceRoot then (Inl (RootNotAbsolute ''Legacy state root''), r)
      else case acquire_move_lock env targetRoot of
        Inl m \<Rightarrow> (Inl (LockRefused m), r)
      | Inr lockPath \<Rightarrow> move_finally env (move_locked env sourceRoot targetRoot r))"

text \<open>The command line: the retired location below the home directory, and the configured one; an explicit state
  directory needs no move.\<close>

datatype move_command_error = OrderStateDirectorySet | TargetUnresolved string | MoveError move_error

definition migrate_state_command ::
  "move_env \<Rightarrow> environment \<Rightarrow> string \<Rightarrow> roots \<Rightarrow> (move_command_error + move_outcome) \<times> roots" where
  "migrate_state_command env variables home r =
     (if variables ''ORDER_STATE_DIR'' \<noteq> None then (Inl OrderStateDirectorySet, r)
      else case resolve_application_state_directory variables home of
        Inl m \<Rightarrow> (Inl (TargetUnresolved m), r)
      | Inr targetRoot \<Rightarrow>
          map_prod (map_sum MoveError id) id
            (migrate_application_state env
               (path_join_all [home, ''.agents'', ''skills'', ''git-commits-push'', ''.state'']) targetRoot r))"

text \<open>\<open>scripts/check-node-cutover-state.mjs\<close>: the exit code of the gate.\<close>

definition check_node_cutover_state :: "turnlock_env \<Rightarrow> preflight_env \<Rightarrow> int option \<Rightarrow> int" where
  "check_node_cutover_state te pe now =
     (case inspect_node_cutover_state te pe now of
        Inl _ \<Rightarrow> 2
      | Inr report \<Rightarrow> if cr_ready report then 0 else 1)"

subsection \<open>The state stays in one place\<close>

text \<open>Everything but the database's own file, which the two openings may read while others write it.\<close>

definition same_tree :: "state_tree \<Rightarrow> state_tree \<Rightarrow> bool" where
  "same_tree t u \<longleftrightarrow> tr_orders u = tr_orders t \<and> tr_entries u = tr_entries t \<and>
     (tr_database u = None \<longleftrightarrow> tr_database t = None)"

definition idle_tree :: "state_tree \<Rightarrow> bool" where
  "idle_tree t \<longleftrightarrow> (\<forall>f. tr_database t = Some f \<longrightarrow>
     (\<exists>s. read_reconciler_state (df_rows f) = Inr s \<and> ownerToken s = None \<and> activeExecution s = None \<and>
          requestedGeneration s = completedGeneration s))"

lemma idle_state_has_no_execution:
  assumes "assert_idle_reconciler_state rows = None"
  shows "\<exists>s. read_reconciler_state rows = Inr s \<and> ownerToken s = None \<and> activeExecution s = None \<and>
          requestedGeneration s = completedGeneration s"
proof -
  from assms obtain s where s: "read_reconciler_state rows = Inr s" "ownerToken s = None"
      "requestedGeneration s = completedGeneration s"
    by (auto simp: assert_idle_reconciler_state_def split: sum.splits if_splits)
  from s(1) have "valid_state s" by (simp add: read_reconciler_state_iff)
  then have "activeExecution s = None"
    using s(2) by (auto simp: valid_state_def valid_owner_def no_owner_def split: option.splits)
  with s show ?thesis by blast
qed

lemma checkpoint_result:
  assumes "checkpoint_reconciler_database env database = (failed, database')"
  shows "(database' = None \<longleftrightarrow> database = None) \<and> (failed = None \<longrightarrow> idle_tree (t\<lparr>tr_database := database'\<rparr>))"
proof (cases database)
  case None
  with assms show ?thesis by (simp add: checkpoint_reconciler_database_def idle_tree_def)
next
  case (Some f)
  obtain e1 f1 where o1: "open_idle env True f = (e1, f1)" by (cases "open_idle env True f")
  obtain e2 f2 where o2: "open_idle env False f1 = (e2, f2)" by (cases "open_idle env False f1")
  have idle: "e2 = None \<Longrightarrow> assert_idle_reconciler_state (df_rows f2) = None"
    using o2 by (auto simp: open_idle_def split: prod.splits sum.splits)
  show ?thesis
    using assms Some o1 o2 idle_state_has_no_execution idle
    by (cases e1; cases e2) (auto simp: checkpoint_reconciler_database_def idle_tree_def split: if_splits)
qed

text \<open>What the block under the lock and the final block leave behind when there is a tree to move.\<close>

definition kept_at_one_root :: "state_tree \<Rightarrow> roots \<Rightarrow> bool" where
  "kept_at_one_root t r \<longleftrightarrow> (\<exists>u. same_tree t u \<and>
     (ro_source r = Some u \<and> ro_target r = None \<or> ro_source r = None \<and> ro_target r = Some u))"

definition moved_tree_sound :: "move_env \<Rightarrow> state_tree \<Rightarrow> roots \<Rightarrow> bool" where
  "moved_tree_sound env t r \<longleftrightarrow> ro_source r = None \<and>
     (\<exists>u. ro_target r = Some u \<and> same_tree t u \<and> idle_tree u \<and>
        (tr_orders u \<longrightarrow> coordinator_quiescent (mv_preflight env u) (mv_now env)))"

lemma move_and_validate_result:
  assumes run: "move_finally env (move_and_validate env r) = (res, r')"
    and r: "ro_source r = Some u" "ro_target r = None" and u: "same_tree t u" "idle_tree u"
  shows "kept_at_one_root t r' \<and> ((\<exists>es. res = Inr (Moved es)) \<longrightarrow> moved_tree_sound env t r') \<and>
    (\<forall>e. res = Inl e \<longrightarrow> ro_target r' \<noteq> None \<longrightarrow>
       mv_readdir env \<noteq> None \<or> mv_back env 0 \<noteq> None \<and> mv_back env 1 \<noteq> None)"
proof -
  have sound: "validate_migrated_state env u = None \<Longrightarrow> tr_orders u \<longrightarrow> coordinator_quiescent (mv_preflight env u) (mv_now env)"
    by (auto simp: validate_migrated_state_def preflight_clear[symmetric] Let_def split: if_splits)
  show ?thesis
    using run r u sound
    by (cases "mv_rename env"; cases "mv_readdir env"; cases "mv_back env 0"; cases "mv_back env 1";
        cases "validate_migrated_state env u")
      (auto simp: move_and_validate_def move_finally_def rename_back_def kept_at_one_root_def moved_tree_sound_def Let_def
        split: rename_error.splits)
qed

text \<open>C34. A move of the state never duplicates or drops it. Two existing roots are left as they are; a tree that exists
  at the retired root alone is afterwards at exactly one of the two, with the same entries. It is reported as moved only
  when it is at the new root, its coordinator had no owner, no execution and nothing pending, and the preflight found it
  quiescent there. After an error it is at the new root only if both attempts to move it back failed, or the move had
  succeeded and only its listing failed.\<close>

theorem state_move_keeps_state:
  assumes "migrate_application_state env sourceRoot targetRoot r = (res, r')"
  shows "(ro_source r \<noteq> None \<and> ro_target r \<noteq> None \<longrightarrow> ro_source r' = ro_source r \<and> ro_target r' = ro_target r) \<and>
    (\<forall>t. ro_source r = Some t \<longrightarrow> ro_target r = None \<longrightarrow>
       kept_at_one_root t r' \<and>
       ((\<exists>es. res = Inr (Moved es)) \<longrightarrow> moved_tree_sound env t r') \<and>
       (\<forall>e. res = Inl e \<longrightarrow> ro_target r' \<noteq> None \<longrightarrow>
          mv_readdir env \<noteq> None \<or> mv_back env 0 \<noteq> None \<and> mv_back env 1 \<noteq> None))"
proof (intro conjI allI impI)
  assume both: "ro_source r \<noteq> None \<and> ro_target r \<noteq> None"
  show "ro_source r' = ro_source r" and "ro_target r' = ro_target r"
    using assms both
    by (auto simp: migrate_application_state_def move_locked_def move_finally_def Let_def
        split: if_splits sum.splits option.splits)
next
  fix t assume r: "ro_source r = Some t" "ro_target r = None"
  have same: "same_tree t t" by (simp add: same_tree_def)
  obtain failed database where c: "checkpoint_reconciler_database env (tr_database t) = (failed, database)"
    by (cases "checkpoint_reconciler_database env (tr_database t)")
  define u where "u = t\<lparr>tr_database := database\<rparr>"
  have u: "same_tree t u" "failed = None \<Longrightarrow> idle_tree u"
    using checkpoint_result[OF c, of t] by (simp_all add: u_def same_tree_def)
  consider "\<exists>e. res = Inl e" "ro_source r' = Some t" "ro_target r' = None"
    | "\<exists>e. res = Inl e" "ro_source r' = Some u" "ro_target r' = None"
    | "failed = None" "move_finally env (move_and_validate env (r\<lparr>ro_source := Some u\<rparr>)) = (res, r')"
    using assms r c
    by (cases failed) (auto simp: migrate_application_state_def move_locked_def move_finally_def Let_def u_def
        split: if_splits sum.splits option.splits)
  then have "kept_at_one_root t r' \<and> ((\<exists>es. res = Inr (Moved es)) \<longrightarrow> moved_tree_sound env t r') \<and>
     (\<forall>e. res = Inl e \<longrightarrow> ro_target r' \<noteq> None \<longrightarrow>
          mv_readdir env \<noteq> None \<or> mv_back env 0 \<noteq> None \<and> mv_back env 1 \<noteq> None)"
  proof cases
    case 3
    show ?thesis using move_and_validate_result[OF 3(2) _ _ u(1) u(2)[OF 3(1)]] r(2) by simp
  qed (use same u in \<open>auto simp: kept_at_one_root_def\<close>)
  then show "kept_at_one_root t r'" "(\<exists>es. res = Inr (Moved es)) \<Longrightarrow> moved_tree_sound env t r'"
    "\<And>e. res = Inl e \<Longrightarrow> ro_target r' \<noteq> None \<Longrightarrow> mv_readdir env \<noteq> None \<or> mv_back env 0 \<noteq> None \<and> mv_back env 1 \<noteq> None"
    by blast+
qed


text \<open>An idle coordinator's tree moves.\<close>

definition sample_move_env :: move_env where
  "sample_move_env = \<lparr>mv_mkdirParent = None, mv_lockFree = True, mv_releases = True,
     mv_sourceKind = PhysicalDirectory, mv_targetKind = PhysicalDirectory, mv_databaseStat = StatRegular,
     mv_databaseSize = 4096, mv_open = (\<lambda>_. plain_open), mv_checkpoint = Inr (Some 0), mv_transient = [],
     mv_rename = None, mv_back = (\<lambda>_. None), mv_preflight = (\<lambda>_. idle_directory), mv_now = 5, mv_readdir = None\<rparr>"

definition sample_tree :: state_tree where
  "sample_tree = \<lparr>tr_orders = True, tr_database = Some fresh_file, tr_entries = [''b'', ''a'']\<rparr>"

definition sample_roots :: roots where
  "sample_roots = \<lparr>ro_source = Some sample_tree, ro_target = None, ro_released = False\<rparr>"

lemma state_move_keeps_state_witness:
  "fst (migrate_application_state sample_move_env ''/old'' ''/new'' sample_roots) = Inr (Moved [''a'', ''b'']) \<and>
   moved_tree_sound sample_move_env sample_tree (snd (migrate_application_state sample_move_env ''/old'' ''/new'' sample_roots))"
proof -
  have ok: "fst (migrate_application_state sample_move_env ''/old'' ''/new'' sample_roots) = Inr (Moved [''a'', ''b''])"
    by code_simp
  then show ?thesis
    using state_move_keeps_state[of sample_move_env "''/old''" "''/new''" sample_roots, OF prod.collapse[symmetric]]
    by (simp add: sample_roots_def)
qed

end
