(* ===== verification/V2_Migration.thy ===== *)
theory V2_Migration
  imports Reconciler_Db
begin

text \<open>
  The offline upgrade of a coordinator database from schema version 2, \<open>scripts/reconciler-v2-migration.mjs\<close> and its
  command line, \<open>scripts/migrate-reconciler-v2.mjs\<close>. Version 2 has no execution columns, so a row is what SQLite
  stores, its columns with their values; adding a column adds a null to every row. Another process may change the file
  between the first look at its version and \<open>BEGIN IMMEDIATE\<close>, and again after \<open>COMMIT\<close>.
\<close>

subsection \<open>Tables\<close>

datatype sql_value = SqlNull | SqlInt int | SqlText string

type_synonym sql_row = "(string \<times> sql_value) list"

record sql_file =
  sf_version :: int
  sf_tables :: "string list"
  sf_columns :: "string list"
  sf_rows :: "sql_row list"

definition int_column :: "sql_row \<Rightarrow> string \<Rightarrow> int option" where
  "int_column row c = (case map_of row c of Some (SqlInt i) \<Rightarrow> Some i | _ \<Rightarrow> None)"

definition text_column :: "sql_row \<Rightarrow> string \<Rightarrow> string option" where
  "text_column row c = (case map_of row c of Some (SqlText s) \<Rightarrow> Some s | _ \<Rightarrow> None)"

text \<open>What \<open>readReconcilerState\<close> reads of a stored row; the table is strict, so a column has values of its type.\<close>

definition raw_row_of :: "sql_row \<Rightarrow> raw_state_row" where
  "raw_row_of row = \<lparr>
     singleton_id = nullish (int_column row ''singleton_id'') 0,
     requested_generation = nullish (int_column row ''requested_generation'') (-1),
     completed_generation = nullish (int_column row ''completed_generation'') (-1),
     running_generation = int_column row ''running_generation'',
     owner_token = text_column row ''owner_token'',
     owner_pid = int_column row ''owner_pid'',
     owner_boot_epoch_ms = int_column row ''owner_boot_epoch_ms'',
     owner_process_identity = text_column row ''owner_process_identity'',
     owner_caller_name = text_column row ''owner_caller_name'',
     owner_origin_agent = text_column row ''owner_origin_agent'',
     owner_session_id = text_column row ''owner_session_id'',
     heartbeat_at_epoch_ms = int_column row ''heartbeat_at_epoch_ms'',
     execution_token = text_column row ''execution_token'',
     execution_generation = int_column row ''execution_generation'',
     execution_pid = int_column row ''execution_pid'',
     execution_process_identity = text_column row ''execution_process_identity'',
     execution_group_id = int_column row ''execution_group_id'',
     execution_boundary_kind = text_column row ''execution_boundary_kind'',
     execution_owner_token = text_column row ''execution_owner_token'',
     execution_state = text_column row ''execution_state''\<rparr>"

definition as_db_file :: "sql_file \<Rightarrow> db_file" where
  "as_db_file f = \<lparr>df_version = sf_version f, df_tables = sf_tables f, df_rows = map raw_row_of (sf_rows f)\<rparr>"

definition well_formed_table :: "sql_file \<Rightarrow> bool" where
  "well_formed_table f \<longleftrightarrow> (\<forall>row\<in>set (sf_rows f). map fst row = sf_columns f)"

subsection \<open>The environment\<close>

record v2_env =
  ve_exists :: bool
  ve_regular :: bool \<comment> \<open>\<open>isFile()\<close> and not a symbolic link\<close>
  ve_size :: nat
  ve_sidecars :: "string list" \<comment> \<open>the suffixes whose file exists\<close>
  ve_connect :: "string option"
  ve_begin :: "string option"
  ve_others :: "sql_file \<Rightarrow> sql_file"
  ve_alter :: "nat \<Rightarrow> string option"
  ve_commit :: "string option"
  ve_afterwards :: "sql_file \<Rightarrow> sql_file"
  ve_verify :: open_env

datatype v2_error =
    NotConfirmed
  | DatabaseAbsent
  | DatabaseNotRegular
  | DatabaseSidecars "string list"
  | V2Sql string
  | V2Unreadable invariant_error
  | V2UnsupportedVersion int
  | V2SchemaChanged
  | V2NotSingleton
  | V2NotConverged
  | V2NotIdle
  | V2Open open_error
  | V2UnexpectedExecution

datatype v2_outcome = AlreadyCurrent | Migrated

subsection \<open>Checks\<close>

definition SQLITE_SIDECAR_SUFFIXES :: "string list" where
  "SQLITE_SIDECAR_SUFFIXES = [''-journal'', ''-shm'', ''-wal'']"

definition V2_OWNER_FIELDS :: "string list" where
  "V2_OWNER_FIELDS = [''running_generation'', ''owner_token'', ''owner_pid'', ''owner_boot_epoch_ms'',
     ''owner_process_identity'', ''owner_caller_name'', ''owner_origin_agent'', ''owner_session_id'',
     ''heartbeat_at_epoch_ms'']"

definition RECONCILER_EXECUTION_COLUMN_DEFINITIONS :: "string list" where
  "RECONCILER_EXECUTION_COLUMN_DEFINITIONS = [''execution_token TEXT'', ''execution_generation INTEGER'',
     ''execution_pid INTEGER'', ''execution_process_identity TEXT'', ''execution_group_id INTEGER'',
     ''execution_boundary_kind TEXT'', ''execution_owner_token TEXT'', ''execution_state TEXT'']"

definition assert_regular_checkpointed_database :: "v2_env \<Rightarrow> v2_error option" where
  "assert_regular_checkpointed_database env =
     (if \<not> ve_exists env then Some DatabaseAbsent
      else if \<not> ve_regular env \<or> ve_size env = 0 then Some DatabaseNotRegular
      else let sidecars = filter (\<lambda>s. s \<in> set (ve_sidecars env)) SQLITE_SIDECAR_SUFFIXES
      in if sidecars \<noteq> [] then Some (DatabaseSidecars sidecars) else None)"

definition assert_idle_converged_v2_state :: "sql_file \<Rightarrow> v2_error option" where
  "assert_idle_converged_v2_state f =
     (case sf_rows f of
        [row] \<Rightarrow>
          if int_column row ''singleton_id'' \<noteq> Some 1 then Some V2NotSingleton
          else (case (int_column row ''requested_generation'', int_column row ''completed_generation'') of
                  (Some requested, Some completed) \<Rightarrow>
                    if \<not> is_safe_integer requested \<or> \<not> is_safe_integer completed \<or> requested < 0 \<or> requested \<noteq> completed
                    then Some V2NotConverged
                    else if list_ex (\<lambda>field. map_of row field \<noteq> Some SqlNull) V2_OWNER_FIELDS then Some V2NotIdle
                    else None
                | _ \<Rightarrow> Some V2NotConverged)
      | _ \<Rightarrow> Some V2NotSingleton)"

subsection \<open>The upgrade\<close>

text \<open>\<open>ALTER TABLE reconciler_state ADD COLUMN <definition>\<close>; a column that exists already is an error.\<close>

definition column_name :: "string \<Rightarrow> string" where
  "column_name definition_text = takeWhile (\<lambda>c. c \<noteq> CHR '' '') definition_text"

definition add_column :: "string \<Rightarrow> sql_file \<Rightarrow> (v2_error + sql_file)" where
  "add_column definition_text f =
     (let c = column_name definition_text in
      if c \<in> set (sf_columns f) then Inl (V2Sql (''duplicate column name: '' @ c))
      else Inr (f\<lparr>sf_columns := sf_columns f @ [c], sf_rows := map (\<lambda>row. row @ [(c, SqlNull)]) (sf_rows f)\<rparr>))"

fun add_columns :: "(nat \<Rightarrow> string option) \<Rightarrow> nat \<Rightarrow> string list \<Rightarrow> sql_file \<Rightarrow> v2_error + sql_file" where
  "add_columns fails i [] f = Inr f"
| "add_columns fails i (d # ds) f =
     (case fails i of
        Some m \<Rightarrow> Inl (V2Sql m)
      | None \<Rightarrow> (case add_column d f of Inl e \<Rightarrow> Inl e | Inr f1 \<Rightarrow> add_columns fails (i + 1) ds f1))"

text \<open>The transaction; whatever fails, the file is rolled back.\<close>

definition upgrade_transaction :: "v2_env \<Rightarrow> sql_file \<Rightarrow> (v2_error + unit) \<times> sql_file" where
  "upgrade_transaction env f =
     (if sf_version f \<noteq> 2 then (Inl V2SchemaChanged, f)
      else case assert_idle_converged_v2_state f of
        Some e \<Rightarrow> (Inl e, f)
      | None \<Rightarrow>
          (case add_columns (ve_alter env) 0 RECONCILER_EXECUTION_COLUMN_DEFINITIONS f of
             Inl e \<Rightarrow> (Inl e, f)
           | Inr f1 \<Rightarrow>
               (case ve_commit env of
                  Some m \<Rightarrow> (Inl (V2Sql m), f)
                | None \<Rightarrow> (Inr (), f1\<lparr>sf_version := RECONCILER_SCHEMA_VERSION\<rparr>))))"

definition verify_migrated :: "v2_env \<Rightarrow> sql_file \<Rightarrow> v2_error + v2_outcome" where
  "verify_migrated env f =
     (case open_reconciler_db (ve_verify env) True (as_db_file f) of
        (Inl e, _) \<Rightarrow> Inl (V2Open e)
      | (Inr _, verified) \<Rightarrow>
          (case read_reconciler_state (df_rows verified) of
             Inl e \<Rightarrow> Inl (V2Unreadable e)
           | Inr state \<Rightarrow> if activeExecution state \<noteq> None then Inl V2UnexpectedExecution else Inr Migrated))"

definition migrate_reconciler_v2_database ::
  "v2_env \<Rightarrow> bool \<Rightarrow> sql_file \<Rightarrow> (v2_error + v2_outcome) \<times> sql_file" where
  "migrate_reconciler_v2_database env confirmedNoLiveExecution f =
     (if \<not> confirmedNoLiveExecution then (Inl NotConfirmed, f)
      else case assert_regular_checkpointed_database env of
        Some e \<Rightarrow> (Inl e, f)
      | None \<Rightarrow>
          (case ve_connect env of
             Some m \<Rightarrow> (Inl (V2Sql m), f)
           | None \<Rightarrow>
               if sf_version f = RECONCILER_SCHEMA_VERSION then
                 (case read_reconciler_state (map raw_row_of (sf_rows f)) of
                    Inl e \<Rightarrow> (Inl (V2Unreadable e), f)
                  | Inr _ \<Rightarrow> (Inr AlreadyCurrent, f))
               else if sf_version f \<noteq> 2 then (Inl (V2UnsupportedVersion (sf_version f)), f)
               else
                 (case ve_begin env of
                    Some m \<Rightarrow> (Inl (V2Sql m), f)
                  | None \<Rightarrow>
                      (case upgrade_transaction env (ve_others env f) of
                         (Inl e, f1) \<Rightarrow> (Inl e, f1)
                       | (Inr _, f1) \<Rightarrow> (verify_migrated env (ve_afterwards env f1), ve_afterwards env f1)))))"

text \<open>The command line: only the confirmation is a known argument.\<close>

definition CONFIRMATION_FLAG :: string where "CONFIRMATION_FLAG = ''--confirm-no-live-execution''"

datatype v2_command_error = UnknownMigrationArguments "string list" | CommandFailed v2_error

definition migrate_reconciler_v2_command ::
  "v2_env \<Rightarrow> string list \<Rightarrow> sql_file \<Rightarrow> (v2_command_error + v2_outcome) \<times> sql_file" where
  "migrate_reconciler_v2_command env args f =
     (let unknown = filter (\<lambda>a. a \<noteq> CONFIRMATION_FLAG) args in
      if unknown \<noteq> [] then (Inl (UnknownMigrationArguments unknown), f)
      else map_prod (map_sum CommandFailed id) id
             (migrate_reconciler_v2_database env (CONFIRMATION_FLAG \<in> set args) f))"

subsection \<open>What the upgrade keeps\<close>

definition idle_state :: "int \<Rightarrow> reconciler_state" where
  "idle_state n = initial_state\<lparr>requestedGeneration := n, completedGeneration := n\<rparr>"

definition null_columns :: "string list \<Rightarrow> sql_row" where
  "null_columns ds = map (\<lambda>d. (column_name d, SqlNull)) ds"

lemma null_column_read: "map_of (null_columns ds) c \<in> {None, Some SqlNull}"
  by (induction ds) (auto simp: null_columns_def)

text \<open>A null column reads like a missing one, so the columns a row had are read as before.\<close>

lemma columns_kept [simp]:
  "int_column (row @ null_columns ds) c = int_column row c"
  "text_column (row @ null_columns ds) c = text_column row c"
  using null_column_read[of ds c]
  by (auto simp: int_column_def text_column_def map_add_def split: option.splits sql_value.splits)

lemma add_columns_result:
  assumes "add_columns fails i ds f = Inr g"
  shows "sf_version g = sf_version f \<and> sf_tables g = sf_tables f \<and>
    sf_rows g = map (\<lambda>row. row @ null_columns ds) (sf_rows f) \<and> (\<forall>d\<in>set ds. column_name d \<notin> set (sf_columns f))"
  using assms
proof (induction ds arbitrary: i f)
  case Nil
  then show ?case by (simp add: null_columns_def)
next
  case (Cons d ds)
  then obtain f1 where f1: "add_column d f = Inr f1" "add_columns fails (i + 1) ds f1 = Inr g"
    by (auto split: option.splits sum.splits)
  from f1(1) have "column_name d \<notin> set (sf_columns f)" "sf_version f1 = sf_version f" "sf_tables f1 = sf_tables f"
    "sf_columns f1 = sf_columns f @ [column_name d]" "sf_rows f1 = map (\<lambda>row. row @ [(column_name d, SqlNull)]) (sf_rows f)"
    by (auto simp: add_column_def Let_def split: if_splits)
  with Cons.IH[OF f1(2)] show ?case by (simp add: null_columns_def o_def)
qed

text \<open>What a version 2 file must say, and what becomes of it.\<close>

definition idle_v2_row :: "sql_row \<Rightarrow> int \<Rightarrow> bool" where
  "idle_v2_row row n \<longleftrightarrow> int_column row ''singleton_id'' = Some 1 \<and>
     int_column row ''requested_generation'' = Some n \<and> int_column row ''completed_generation'' = Some n \<and>
     0 \<le> n \<and> is_safe_integer n \<and> (\<forall>field\<in>set V2_OWNER_FIELDS. map_of row field = Some SqlNull)"

lemma idle_converged_iff:
  "assert_idle_converged_v2_state f = None \<longleftrightarrow> (\<exists>row n. sf_rows f = [row] \<and> idle_v2_row row n)"
  by (auto simp: assert_idle_converged_v2_state_def idle_v2_row_def list_ex_iff not_less
      split: list.splits option.splits if_splits)

lemma idle_row_reads:
  assumes "idle_v2_row row n" "\<forall>d\<in>set RECONCILER_EXECUTION_COLUMN_DEFINITIONS. column_name d \<notin> set (map fst row)"
  shows "raw_row_of row = initial_row\<lparr>requested_generation := n, completed_generation := n\<rparr>"
proof -
  have absent: "\<forall>d\<in>set RECONCILER_EXECUTION_COLUMN_DEFINITIONS. map_of row (column_name d) = None"
    using assms(2) by (simp add: map_of_eq_None_iff)
  have execution: "map_of row ''execution_token'' = None" "map_of row ''execution_generation'' = None"
    "map_of row ''execution_pid'' = None" "map_of row ''execution_process_identity'' = None"
    "map_of row ''execution_group_id'' = None" "map_of row ''execution_boundary_kind'' = None"
    "map_of row ''execution_owner_token'' = None" "map_of row ''execution_state'' = None"
    using absent by (simp_all add: RECONCILER_EXECUTION_COLUMN_DEFINITIONS_def column_name_def)
  have owner: "map_of row ''running_generation'' = Some SqlNull" "map_of row ''owner_token'' = Some SqlNull"
    "map_of row ''owner_pid'' = Some SqlNull" "map_of row ''owner_boot_epoch_ms'' = Some SqlNull"
    "map_of row ''owner_process_identity'' = Some SqlNull" "map_of row ''owner_caller_name'' = Some SqlNull"
    "map_of row ''owner_origin_agent'' = Some SqlNull" "map_of row ''owner_session_id'' = Some SqlNull"
    "map_of row ''heartbeat_at_epoch_ms'' = Some SqlNull"
    using assms(1) by (simp_all add: idle_v2_row_def V2_OWNER_FIELDS_def)
  have generations: "int_column row ''singleton_id'' = Some 1" "int_column row ''requested_generation'' = Some n"
    "int_column row ''completed_generation'' = Some n"
    using assms(1) by (simp_all add: idle_v2_row_def)
  show ?thesis
    by (simp add: raw_row_of_def initial_row_def generations)
      (simp add: int_column_def text_column_def owner execution)
qed

lemma idle_row_state:
  "0 \<le> n \<Longrightarrow> is_safe_integer n \<Longrightarrow>
     read_reconciler_state [initial_row\<lparr>requested_generation := n, completed_generation := n\<rparr>] = Inr (idle_state n)"
proof -
  assume "0 \<le> n" "is_safe_integer n"
  then have "valid_state (idle_state n)"
    by (simp add: idle_state_def initial_state_def validity_defs is_safe_integer_def)
  moreover have "initial_row\<lparr>requested_generation := n, completed_generation := n\<rparr> = encode_state (idle_state n)"
    by (simp add: idle_state_def initial_state_def initial_row_def encode_state_def)
  ultimately show ?thesis by simp
qed

definition upgraded :: "sql_file \<Rightarrow> sql_file \<Rightarrow> int \<Rightarrow> bool" where
  "upgraded f g n \<longleftrightarrow> sf_version f = 2 \<and> (\<exists>row. sf_rows f = [row] \<and> idle_v2_row row n) \<and>
     sf_version g = RECONCILER_SCHEMA_VERSION \<and> sf_tables g = sf_tables f \<and>
     read_reconciler_state (map raw_row_of (sf_rows g)) = Inr (idle_state n)"

lemma upgrade_transaction_result:
  assumes "upgrade_transaction env f = (r, g)" "well_formed_table f"
  shows "(\<exists>e. r = Inl e) \<and> g = f \<or> r = Inr () \<and> (\<exists>n. upgraded f g n)"
proof (cases "r = Inr ()")
  case False
  then show ?thesis
    using assms(1) by (auto simp: upgrade_transaction_def split: if_splits option.splits sum.splits)
next
  case True
  with assms(1) obtain g1 where g1: "sf_version f = 2" "assert_idle_converged_v2_state f = None"
      "add_columns (ve_alter env) 0 RECONCILER_EXECUTION_COLUMN_DEFINITIONS f = Inr g1"
      "g = g1\<lparr>sf_version := RECONCILER_SCHEMA_VERSION\<rparr>"
    by (auto simp: upgrade_transaction_def split: if_splits option.splits sum.splits)
  from g1(2) obtain row n where row: "sf_rows f = [row]" "idle_v2_row row n" unfolding idle_converged_iff by blast
  note added = add_columns_result[OF g1(3)]
  have new: "\<forall>d\<in>set RECONCILER_EXECUTION_COLUMN_DEFINITIONS. column_name d \<notin> set (map fst row)"
    using added assms(2) row(1) by (simp add: well_formed_table_def)
  have "raw_row_of (row @ null_columns RECONCILER_EXECUTION_COLUMN_DEFINITIONS) = raw_row_of row"
    by (simp add: raw_row_of_def)
  then have "map raw_row_of (sf_rows g) = [initial_row\<lparr>requested_generation := n, completed_generation := n\<rparr>]"
    using added row g1(4) idle_row_reads[OF row(2) new] by simp
  moreover have "0 \<le> n" "is_safe_integer n" using row(2) by (simp_all add: idle_v2_row_def)
  ultimately have "upgraded f g n" using g1 row added idle_row_state[of n] by (auto simp: upgraded_def)
  then show ?thesis using True by blast
qed

text \<open>C33. The upgrade from schema version 2 invents and loses nothing. Only a confirmed upgrade touches the file, and the
  file stays as it is found, or it was an idle version 2 file whose requests were all completed and becomes a version 3
  file that the fail-closed reader accepts as idle at the same generation, without an owner and without an execution.
  Success is reported only for the second case.\<close>

theorem v2_migration_preserves_generations:
  assumes run: "migrate_reconciler_v2_database env confirmed f = (r, f')"
    and wf: "well_formed_table (ve_others env f)"
  shows "(f' = f \<or> f' = ve_others env f \<or>
      confirmed \<and> (\<exists>g n. upgraded (ve_others env f) g n \<and> f' = ve_afterwards env g)) \<and>
    (r = Inr Migrated \<longrightarrow> confirmed \<and> (\<exists>g n. upgraded (ve_others env f) g n \<and> f' = ve_afterwards env g))"
proof -
  obtain ru g where up: "upgrade_transaction env (ve_others env f) = (ru, g)"
    by (cases "upgrade_transaction env (ve_others env f)")
  note cases = upgrade_transaction_result[OF up wf]
  consider "f' = f" "r \<noteq> Inr Migrated"
    | "confirmed" "\<exists>e. ru = Inl e" "f' = g" "r \<noteq> Inr Migrated"
    | "confirmed" "ru = Inr ()" "f' = ve_afterwards env g"
    using run up
    by (cases confirmed; cases "assert_regular_checkpointed_database env"; cases "ve_connect env"; cases "ve_begin env";
        cases ru)
      (auto simp: migrate_reconciler_v2_database_def split: if_splits sum.splits)
  then show ?thesis using cases by cases auto
qed

definition sample_v2_env :: v2_env where
  "sample_v2_env = \<lparr>ve_exists = True, ve_regular = True, ve_size = 4096, ve_sidecars = [], ve_connect = None,
     ve_begin = None, ve_others = (\<lambda>f. f), ve_alter = (\<lambda>_. None), ve_commit = None, ve_afterwards = (\<lambda>f. f),
     ve_verify = plain_open\<rparr>"

definition sample_v2_file :: sql_file where
  "sample_v2_file = (let columns = [''singleton_id'', ''requested_generation'', ''completed_generation''] @ V2_OWNER_FIELDS
     in \<lparr>sf_version = 2, sf_tables = [RECONCILER_STATE_TABLE], sf_columns = columns,
         sf_rows = [zip columns ([SqlInt 1, SqlInt 7, SqlInt 7] @ replicate 9 SqlNull)]\<rparr>)"

lemma v2_migration_preserves_generations_witness:
  "\<exists>g n. fst (migrate_reconciler_v2_database sample_v2_env True sample_v2_file) = Inr Migrated \<and>
     upgraded sample_v2_file g n \<and> snd (migrate_reconciler_v2_database sample_v2_env True sample_v2_file) = g"
proof -
  have ok: "fst (migrate_reconciler_v2_database sample_v2_env True sample_v2_file) = Inr Migrated" by code_simp
  have wf: "well_formed_table (ve_others sample_v2_env sample_v2_file)" by code_simp
  have id: "ve_others sample_v2_env sample_v2_file = sample_v2_file" "\<And>g. ve_afterwards sample_v2_env g = g"
    by (simp_all add: sample_v2_env_def)
  show ?thesis
    using v2_migration_preserves_generations[OF prod.collapse[symmetric] wf, of True] ok unfolding id by blast
qed

text \<open>The command line confirms nothing by itself.\<close>

lemma command_needs_confirmation:
  assumes "migrate_reconciler_v2_command env args f = (r, f')" "CONFIRMATION_FLAG \<notin> set args"
  shows "f' = f"
  using assms by (auto simp: migrate_reconciler_v2_command_def migrate_reconciler_v2_database_def Let_def split: if_splits)

end
