(* ===== verification/Asset_Copy.thy ===== *)
theory Asset_Copy
  imports Posix_Paths "HOL-Library.Multiset"
begin

text \<open>
  The copying of assets into the compiled application, \<open>packages/node-runtime/src/copy-assets.ts\<close>. The file system is a
  function from absolute paths to files; every operation on it may fail.
\<close>

subsection \<open>Paths below a root\<close>

text \<open>\<open>path.relative\<close> of two absolute paths.\<close>

fun drop_common :: "string list \<Rightarrow> string list \<Rightarrow> string list \<times> string list" where
  "drop_common (f # fs) (t # ts) = (if f = t then drop_common fs ts else (f # fs, t # ts))"
| "drop_common fs ts = (fs, ts)"

definition path_relative :: "string \<Rightarrow> string \<Rightarrow> string" where
  "path_relative from_path to_path =
     (let (up, down) = drop_common (path_segments from_path) (path_segments to_path)
      in join ''/'' (map (\<lambda>_. ''..'') up @ down))"

record asset_entry =
  as_source :: string
  as_destination :: string

record copy_options =
  co_sourceDirectory :: string
  co_destinationDirectory :: string
  co_assets :: "asset_entry list"

record prepared_copy =
  pc_sourcePath :: string
  pc_destinationPath :: string
  pc_sourceRelative :: string
  pc_destinationRelative :: string

datatype asset_kind = SourceAsset | DestinationAsset

datatype copy_error =
    EmptyManifest
  | AssetEscapes asset_kind string
  | DuplicateDestination string
  | InvalidSource string
  | CopyFails string

text \<open>\<open>cwd\<close> is the directory relative roots are resolved in.\<close>

definition resolve_path_inside_root ::
  "string \<Rightarrow> string \<Rightarrow> string \<Rightarrow> asset_kind \<Rightarrow> copy_error + string \<times> string" where
  "resolve_path_inside_root cwd rootDirectory relativePath kind =
     (let absoluteRoot = path_resolve cwd rootDirectory;
          absolutePath = path_resolve absoluteRoot relativePath;
          normalizedRelativePath = path_relative absoluteRoot absolutePath;
          escapesRoot = normalizedRelativePath = ''..'' \<or> starts_with ''../'' normalizedRelativePath
                        \<or> is_absolute normalizedRelativePath
      in if relativePath = [] \<or> normalizedRelativePath = [] \<or> escapesRoot
         then Inl (AssetEscapes kind relativePath)
         else Inr (absolutePath, normalizedRelativePath))"

fun prepare_each ::
  "string \<Rightarrow> copy_options \<Rightarrow> string list \<Rightarrow> asset_entry list \<Rightarrow> copy_error + prepared_copy list" where
  "prepare_each cwd options destinations [] = Inr []"
| "prepare_each cwd options destinations (asset # rest) =
     (case resolve_path_inside_root cwd (co_sourceDirectory options) (as_source asset) SourceAsset of
        Inl e \<Rightarrow> Inl e
      | Inr (sourcePath, sourceRelative) \<Rightarrow>
          (case resolve_path_inside_root cwd (co_destinationDirectory options) (as_destination asset) DestinationAsset of
             Inl e \<Rightarrow> Inl e
           | Inr (destinationPath, destinationRelative) \<Rightarrow>
               if destinationPath \<in> set destinations then Inl (DuplicateDestination (as_destination asset))
               else map_sum id (\<lambda>prepared. \<lparr>pc_sourcePath = sourcePath, pc_destinationPath = destinationPath,
                        pc_sourceRelative = sourceRelative, pc_destinationRelative = destinationRelative\<rparr> # prepared)
                      (prepare_each cwd options (destinationPath # destinations) rest)))"

definition compare_prepared_assets :: "prepared_copy \<Rightarrow> prepared_copy \<Rightarrow> bool" where
  "compare_prepared_assets left right \<longleftrightarrow> string_le (pc_destinationRelative left) (pc_destinationRelative right)"

definition prepare_asset_copies :: "string \<Rightarrow> copy_options \<Rightarrow> copy_error + prepared_copy list" where
  "prepare_asset_copies cwd options =
     (if co_assets options = [] then Inl EmptyManifest
      else map_sum id (sort_by compare_prepared_assets) (prepare_each cwd options [] (co_assets options)))"

subsection \<open>Copying\<close>

record asset_file =
  af_content :: string
  af_mode :: nat

type_synonym asset_files = "string \<Rightarrow> asset_file option"

text \<open>Which operation fails, at which path: \<open>mkdir\<close> of the parent, \<open>rm\<close>, \<open>copyFile\<close>, \<open>chmod\<close>.\<close>

datatype copy_step = MakeParent | RemoveOld | CopyFile | ChangeMode

record copy_env =
  ce_cwd :: string
  ce_isFile :: "string \<Rightarrow> bool" \<comment> \<open>\<open>stat\<close> succeeds on a regular file\<close>
  ce_fails :: "copy_step \<Rightarrow> string \<Rightarrow> string option"

definition COPIED_ASSET_MODE :: nat where "COPIED_ASSET_MODE = 420" \<comment> \<open>\<open>0o644\<close>\<close>

fun preflight_sources :: "copy_env \<Rightarrow> prepared_copy list \<Rightarrow> copy_error option" where
  "preflight_sources env [] = None"
| "preflight_sources env (asset # rest) =
     (if ce_isFile env (pc_sourcePath asset) then preflight_sources env rest
      else Some (InvalidSource (pc_sourceRelative asset)))"

text \<open>\<open>copyFile\<close> gives the new file the mode of its source; a source that has gone meanwhile is an error.\<close>

definition copy_asset :: "copy_env \<Rightarrow> prepared_copy \<Rightarrow> asset_files \<Rightarrow> (copy_error + unit) \<times> asset_files" where
  "copy_asset env asset files =
     (let destination = pc_destinationPath asset in
      case ce_fails env MakeParent destination of
        Some m \<Rightarrow> (Inl (CopyFails m), files)
      | None \<Rightarrow>
          (case ce_fails env RemoveOld destination of
             Some m \<Rightarrow> (Inl (CopyFails m), files)
           | None \<Rightarrow>
               (let files1 = files(destination := None) in
                case ce_fails env CopyFile destination of
                  Some m \<Rightarrow> (Inl (CopyFails m), files1)
                | None \<Rightarrow>
                    (case files1 (pc_sourcePath asset) of
                       None \<Rightarrow> (Inl (CopyFails ''ENOENT''), files1)
                     | Some source \<Rightarrow>
                         (let files2 = files1(destination \<mapsto> source) in
                          case ce_fails env ChangeMode destination of
                            Some m \<Rightarrow> (Inl (CopyFails m), files2)
                          | None \<Rightarrow> (Inr (), files2(destination \<mapsto> source\<lparr>af_mode := COPIED_ASSET_MODE\<rparr>)))))))"

fun copy_each :: "copy_env \<Rightarrow> prepared_copy list \<Rightarrow> asset_files \<Rightarrow> (copy_error + unit) \<times> asset_files" where
  "copy_each env [] files = (Inr (), files)"
| "copy_each env (asset # rest) files =
     (case copy_asset env asset files of
        (Inl e, files1) \<Rightarrow> (Inl e, files1)
      | (Inr _, files1) \<Rightarrow> copy_each env rest files1)"

definition copy_assets :: "copy_env \<Rightarrow> copy_options \<Rightarrow> asset_files \<Rightarrow> (copy_error + unit) \<times> asset_files" where
  "copy_assets env options files =
     (case prepare_asset_copies (ce_cwd env) options of
        Inl e \<Rightarrow> (Inl e, files)
      | Inr prepared \<Rightarrow>
          (case preflight_sources env prepared of
             Some e \<Rightarrow> (Inl e, files)
           | None \<Rightarrow> copy_each env prepared files))"

subsection \<open>Nothing outside the root\<close>

definition strictly_below :: "string \<Rightarrow> string \<Rightarrow> bool" where
  "strictly_below root p \<longleftrightarrow> (\<exists>rest. rest \<noteq> [] \<and> path_segments p = path_segments root @ rest)"

lemma drop_common_no_up: "drop_common fs ts = ([], down) \<Longrightarrow> ts = fs @ down"
  by (induction fs ts rule: drop_common.induct) (auto split: if_splits)

lemma join_up: "join ''/'' (''..'' # ws) = ''..'' \<or> starts_with ''../'' (join ''/'' (''..'' # ws))"
  by (cases ws) (simp_all add: starts_with_def)

lemma resolved_below:
  assumes "resolve_path_inside_root cwd root relative kind = Inr (p, n)"
  shows "strictly_below (path_resolve cwd root) p \<and> p = path_resolve (path_resolve cwd root) relative"
proof -
  define r where "r = path_resolve cwd root"
  from assms have p: "p = path_resolve r relative" "n = path_relative r p" "n \<noteq> []" "n \<noteq> ''..''"
      "\<not> starts_with ''../'' n"
    by (auto simp: resolve_path_inside_root_def r_def Let_def split: if_splits)
  obtain up down where d: "drop_common (path_segments r) (path_segments p) = (up, down)"
    by (cases "drop_common (path_segments r) (path_segments p)")
  then have n: "n = join ''/'' (map (\<lambda>_. ''..'') up @ down)" using p(2) by (simp add: path_relative_def)
  have "up = []"
  proof (cases up)
    case (Cons u us)
    then show ?thesis using join_up[of "map (\<lambda>_. ''..'') us @ down"] n p(4,5) by simp
  qed
  moreover from this have "down \<noteq> []" using n p(3) by auto
  ultimately show ?thesis using drop_common_no_up d p(1) by (auto simp: strictly_below_def r_def)
qed

lemma map_sum_inr: "map_sum id f r = Inr y \<longleftrightarrow> (\<exists>x. r = Inr x \<and> y = f x)"
  by (cases r) auto

lemma prepared_each:
  assumes "prepare_each cwd options destinations assets = Inr prepared"
  shows "length prepared = length assets \<and> distinct (map pc_destinationPath prepared) \<and>
    set (map pc_destinationPath prepared) \<inter> set destinations = {} \<and>
    (\<forall>i<length assets.
       pc_sourcePath (prepared ! i) = path_resolve (path_resolve cwd (co_sourceDirectory options)) (as_source (assets ! i)) \<and>
       pc_destinationPath (prepared ! i) =
         path_resolve (path_resolve cwd (co_destinationDirectory options)) (as_destination (assets ! i)) \<and>
       strictly_below (path_resolve cwd (co_sourceDirectory options)) (pc_sourcePath (prepared ! i)) \<and>
       strictly_below (path_resolve cwd (co_destinationDirectory options)) (pc_destinationPath (prepared ! i)))"
  using assms
proof (induction assets arbitrary: destinations prepared)
  case Nil
  then show ?case by simp
next
  case (Cons asset rest)
  then obtain s sr d dr ps where
      src: "resolve_path_inside_root cwd (co_sourceDirectory options) (as_source asset) SourceAsset = Inr (s, sr)"
      and dst: "resolve_path_inside_root cwd (co_destinationDirectory options) (as_destination asset) DestinationAsset = Inr (d, dr)"
      and new: "d \<notin> set destinations" and ps: "prepare_each cwd options (d # destinations) rest = Inr ps"
      and prepared: "prepared = \<lparr>pc_sourcePath = s, pc_destinationPath = d, pc_sourceRelative = sr,
        pc_destinationRelative = dr\<rparr> # ps"
    by (cases "resolve_path_inside_root cwd (co_sourceDirectory options) (as_source asset) SourceAsset";
        cases "resolve_path_inside_root cwd (co_destinationDirectory options) (as_destination asset) DestinationAsset")
      (auto simp: map_sum_inr split: prod.splits if_splits)
  from Cons.IH[OF ps] resolved_below[OF src] resolved_below[OF dst] new show ?case
    by (auto simp: prepared less_Suc_eq_0_disj)
qed

lemma mset_insert_prepared [simp]: "mset (insert_by le x xs) = add_mset x (mset xs)"
  by (induction xs) auto


lemma mset_sort_prepared [simp]: "mset (sort_by le xs) = mset xs"
  unfolding sort_by_def by (induction xs) simp_all

lemma distinct_sort_by [simp]: "distinct (map f (sort_by le xs)) = distinct (map f xs)"
proof -
  have "mset (map f (sort_by le xs)) = mset (map f xs)" by simp
  then show ?thesis by (metis mset_eq_imp_distinct_iff)
qed

definition asset_source :: "string \<Rightarrow> copy_options \<Rightarrow> asset_entry \<Rightarrow> string" where
  "asset_source cwd options asset = path_resolve (path_resolve cwd (co_sourceDirectory options)) (as_source asset)"

definition asset_destination :: "string \<Rightarrow> copy_options \<Rightarrow> asset_entry \<Rightarrow> string" where
  "asset_destination cwd options asset =
     path_resolve (path_resolve cwd (co_destinationDirectory options)) (as_destination asset)"

text \<open>The plan of a copy: one entry per asset, in any order, with distinct destinations.\<close>

definition planned :: "string \<Rightarrow> copy_options \<Rightarrow> asset_entry \<Rightarrow> prepared_copy \<Rightarrow> bool" where
  "planned cwd options asset c \<longleftrightarrow>
     pc_sourcePath c = asset_source cwd options asset \<and>
     pc_destinationPath c = asset_destination cwd options asset \<and>
     strictly_below (path_resolve cwd (co_sourceDirectory options)) (pc_sourcePath c) \<and>
     strictly_below (path_resolve cwd (co_destinationDirectory options)) (pc_destinationPath c)"

lemma prepared_plan:
  assumes "prepare_asset_copies cwd options = Inr prepared"
  shows "distinct (map pc_destinationPath prepared)"
    and "\<forall>asset\<in>set (co_assets options). \<exists>c\<in>set prepared. planned cwd options asset c"
    and "\<forall>c\<in>set prepared. \<exists>asset\<in>set (co_assets options). planned cwd options asset c"
    and "distinct (map (asset_destination cwd options) (co_assets options))" "co_assets options \<noteq> []"
proof -
  from assms obtain each where each: "prepare_each cwd options [] (co_assets options) = Inr each"
      "prepared = sort_by compare_prepared_assets each"
    by (auto simp: prepare_asset_copies_def map_sum_inr split: if_splits)
  note e = prepared_each[OF each(1)]
  show "distinct (map pc_destinationPath prepared)" using e each(2) by simp
  have "map (asset_destination cwd options) (co_assets options) = map pc_destinationPath each"
    using e by (intro nth_equalityI) (simp_all add: asset_destination_def)
  then show "distinct (map (asset_destination cwd options) (co_assets options))" using e by metis
  show "co_assets options \<noteq> []" using assms by (auto simp: prepare_asset_copies_def)
  have at: "planned cwd options (co_assets options ! i) (each ! i)" if "i < length (co_assets options)" for i
    unfolding planned_def asset_source_def asset_destination_def using e that by blast
  show "\<forall>asset\<in>set (co_assets options). \<exists>c\<in>set prepared. planned cwd options asset c"
  proof
    fix asset assume "asset \<in> set (co_assets options)"
    then obtain i where "i < length (co_assets options)" "asset = co_assets options ! i" by (auto simp: in_set_conv_nth)
    moreover from this have "each ! i \<in> set prepared" using e each(2) by simp
    ultimately show "\<exists>c\<in>set prepared. planned cwd options asset c" using at by blast
  qed
  show "\<forall>c\<in>set prepared. \<exists>asset\<in>set (co_assets options). planned cwd options asset c"
  proof
    fix c assume "c \<in> set prepared"
    then obtain i where "i < length each" "c = each ! i" by (auto simp: each(2) in_set_conv_nth)
    then show "\<exists>asset\<in>set (co_assets options). planned cwd options asset c"
      using at[of i] e by (metis nth_mem)
  qed
qed

lemma copy_asset_frame: "copy_asset env a files = (r, files1) \<Longrightarrow> p \<noteq> pc_destinationPath a \<Longrightarrow> files1 p = files p"
  by (auto simp: copy_asset_def Let_def split: option.splits if_splits)

lemma copy_asset_result:
  assumes "copy_asset env a files = (Inr (), files1)" "pc_sourcePath a \<noteq> pc_destinationPath a"
  shows "\<exists>source. files (pc_sourcePath a) = Some source \<and>
    files1 (pc_destinationPath a) = Some (source\<lparr>af_mode := COPIED_ASSET_MODE\<rparr>)"
  using assms by (auto simp: copy_asset_def Let_def split: option.splits)

lemma copy_each_frame:
  "copy_each env cs files = (r, files1) \<Longrightarrow> p \<notin> set (map pc_destinationPath cs) \<Longrightarrow> files1 p = files p"
  by (induction cs arbitrary: files) (auto dest: copy_asset_frame split: prod.splits sum.splits)

lemma copy_each_result:
  assumes "copy_each env cs files = (Inr (), files1)" "distinct (map pc_destinationPath cs)"
    and "\<forall>c\<in>set cs. pc_sourcePath c \<notin> set (map pc_destinationPath cs)" "c \<in> set cs"
  shows "\<exists>source. files (pc_sourcePath c) = Some source \<and>
    files1 (pc_destinationPath c) = Some (source\<lparr>af_mode := COPIED_ASSET_MODE\<rparr>)"
  using assms
proof (induction cs arbitrary: files)
  case Nil
  then show ?case by simp
next
  case (Cons a cs)
  from Cons.prems(1) obtain files2 where step: "copy_asset env a files = (Inr (), files2)"
      "copy_each env cs files2 = (Inr (), files1)"
    by (auto split: prod.splits sum.splits)
  show ?case
  proof (cases "c = a")
    case True
    then show ?thesis
      using copy_asset_result[OF step(1)] copy_each_frame[OF step(2), of "pc_destinationPath a"] Cons.prems(2,3) by auto
  next
    case False
    then have "c \<in> set cs" using Cons.prems(4) by simp
    then have "\<exists>source. files2 (pc_sourcePath c) = Some source \<and>
        files1 (pc_destinationPath c) = Some (source\<lparr>af_mode := COPIED_ASSET_MODE\<rparr>)"
      using Cons.IH[OF step(2)] Cons.prems(2,3) by auto
    moreover have "files2 (pc_sourcePath c) = files (pc_sourcePath c)"
      using copy_asset_frame[OF step(1)] Cons.prems(3,4) by auto
    ultimately show ?thesis by simp
  qed
qed

lemma preflight_passes: "preflight_sources env cs = None \<longleftrightarrow> (\<forall>c\<in>set cs. ce_isFile env (pc_sourcePath c))"
  by (induction cs) auto

lemma copy_each_error: "copy_each env cs files = (Inl e, files1) \<Longrightarrow> \<exists>m. e = CopyFails m"
  by (induction cs arbitrary: files)
    (auto simp: copy_asset_def Let_def split: prod.splits sum.splits option.splits)

text \<open>C37. The copy of the assets touches only files strictly below the destination root, each of them the destination of
  a listed asset. Unless the manifest is not empty, every asset lies strictly below both roots, all destinations differ
  and every source is a file, the copy fails and touches no file at all; and after a success every asset is at its
  destination with the content of its source and mode 0644, as long as no source is itself a destination.\<close>

theorem asset_copy_stays_inside:
  assumes "copy_assets env options files = (r, files')"
  shows "(\<forall>p. files' p \<noteq> files p \<longrightarrow>
      strictly_below (path_resolve (ce_cwd env) (co_destinationDirectory options)) p \<and>
      (\<exists>asset\<in>set (co_assets options). p = asset_destination (ce_cwd env) options asset)) \<and>
    (r = Inr () \<or> files' \<noteq> files \<longrightarrow> co_assets options \<noteq> [] \<and>
      distinct (map (asset_destination (ce_cwd env) options) (co_assets options)) \<and>
      (\<forall>asset\<in>set (co_assets options).
         strictly_below (path_resolve (ce_cwd env) (co_sourceDirectory options)) (asset_source (ce_cwd env) options asset) \<and>
         strictly_below (path_resolve (ce_cwd env) (co_destinationDirectory options))
           (asset_destination (ce_cwd env) options asset) \<and>
         ce_isFile env (asset_source (ce_cwd env) options asset))) \<and>
    (r \<noteq> Inr () \<and> (\<forall>m. r \<noteq> Inl (CopyFails m)) \<longrightarrow> files' = files) \<and>
    (r = Inr () \<longrightarrow>
      (\<forall>a\<in>set (co_assets options). \<forall>b\<in>set (co_assets options).
         asset_source (ce_cwd env) options a \<noteq> asset_destination (ce_cwd env) options b) \<longrightarrow>
      (\<forall>asset\<in>set (co_assets options). \<exists>source.
         files (asset_source (ce_cwd env) options asset) = Some source \<and>
         files' (asset_destination (ce_cwd env) options asset) = Some (source\<lparr>af_mode := 420\<rparr>)))"
proof (cases "prepare_asset_copies (ce_cwd env) options")
  case (Inl e)
  with assms show ?thesis by (auto simp: copy_assets_def)
next
  case (Inr cs)
  note plan = prepared_plan[OF Inr]
  show ?thesis
  proof (cases "preflight_sources env cs")
    case (Some e)
    with assms Inr show ?thesis by (auto simp: copy_assets_def)
  next
    case None
    with assms Inr have run: "copy_each env cs files = (r, files')" by (simp add: copy_assets_def)
    have files: "\<forall>c\<in>set cs. ce_isFile env (pc_sourcePath c)" using None by (simp add: preflight_passes)
    have checked: "co_assets options \<noteq> [] \<and>
      distinct (map (asset_destination (ce_cwd env) options) (co_assets options)) \<and>
      (\<forall>asset\<in>set (co_assets options).
         strictly_below (path_resolve (ce_cwd env) (co_sourceDirectory options)) (asset_source (ce_cwd env) options asset) \<and>
         strictly_below (path_resolve (ce_cwd env) (co_destinationDirectory options))
           (asset_destination (ce_cwd env) options asset) \<and>
         ce_isFile env (asset_source (ce_cwd env) options asset))"
      using plan(2,4,5) files unfolding planned_def by metis
    have touched: "strictly_below (path_resolve (ce_cwd env) (co_destinationDirectory options)) p \<and>
        (\<exists>asset\<in>set (co_assets options). p = asset_destination (ce_cwd env) options asset)"
      if changed: "files' p \<noteq> files p" for p
    proof -
      from changed obtain c where "c \<in> set cs" "p = pc_destinationPath c" using copy_each_frame[OF run, of p] by auto
      then show ?thesis using plan(3) by (auto simp: planned_def)
    qed
    have copied: "\<exists>source. files (asset_source (ce_cwd env) options asset) = Some source \<and>
         files' (asset_destination (ce_cwd env) options asset) = Some (source\<lparr>af_mode := 420\<rparr>)"
      if ok: "r = Inr ()" and asset: "asset \<in> set (co_assets options)"
        and apart: "\<forall>a\<in>set (co_assets options). \<forall>b\<in>set (co_assets options).
         asset_source (ce_cwd env) options a \<noteq> asset_destination (ce_cwd env) options b" for asset
    proof -
      have "\<forall>c\<in>set cs. pc_sourcePath c \<notin> set (map pc_destinationPath cs)"
        using plan(3) apart unfolding planned_def by auto metis
      note result = copy_each_result[OF run[unfolded ok] plan(1) this, unfolded COPIED_ASSET_MODE_def]
      show ?thesis using plan(2) asset result unfolding planned_def by metis
    qed
    have "files' = files" if "r \<noteq> Inr ()" "\<forall>m. r \<noteq> Inl (CopyFails m)"
      using that copy_each_error[of env cs files _ files'] run by (cases r) auto
    with checked touched copied show ?thesis by blast
  qed
qed

definition sample_copy_options :: copy_options where
  "sample_copy_options = \<lparr>co_sourceDirectory = ''/app'', co_destinationDirectory = ''/app/dist'',
     co_assets = [\<lparr>as_source = ''system-prompt.md'', as_destination = ''system-prompt.md''\<rparr>]\<rparr>"

definition sample_asset_files :: asset_files where
  "sample_asset_files = [''/app/system-prompt.md'' \<mapsto> \<lparr>af_content = ''x'', af_mode = 384\<rparr>]"

definition sample_copy_env :: copy_env where
  "sample_copy_env = \<lparr>ce_cwd = ''/'', ce_isFile = (\<lambda>p. True), ce_fails = (\<lambda>_ _. None)\<rparr>"

lemma asset_copy_stays_inside_witness:
  "snd (copy_assets sample_copy_env sample_copy_options sample_asset_files) ''/app/dist/system-prompt.md'' =
     Some \<lparr>af_content = ''x'', af_mode = 420\<rparr> \<and>
   strictly_below ''/app'' ''/app/system-prompt.md''"
proof -
  have ok: "fst (copy_assets sample_copy_env sample_copy_options sample_asset_files) = Inr ()" by code_simp
  define asset where "asset = hd (co_assets sample_copy_options)"
  have asset: "co_assets sample_copy_options = [asset]" by (simp add: asset_def sample_copy_options_def)
  have paths: "asset_source (ce_cwd sample_copy_env) sample_copy_options asset = ''/app/system-prompt.md''"
    "asset_destination (ce_cwd sample_copy_env) sample_copy_options asset = ''/app/dist/system-prompt.md''"
    unfolding asset_def by code_simp+
  have root: "path_resolve (ce_cwd sample_copy_env) (co_sourceDirectory sample_copy_options) = ''/app''"
    by code_simp
  show ?thesis
    using asset_copy_stays_inside[of sample_copy_env sample_copy_options sample_asset_files, OF prod.collapse[symmetric]] ok
      paths root by (simp add: asset sample_asset_files_def)
qed

end
