(* ===== verification/Build_Commands.thy ===== *)
theory Build_Commands
  imports Asset_Copy Process_Runner Standalone_Installer
begin

text \<open>
  The build of a development checkout: \<open>scripts/start-node-internals/build-once.mjs\<close>, which the launcher of
  \<open>scripts/start-node.mjs\<close> runs after the registration and can cancel, \<open>scripts/build-node.mjs\<close>, which it starts
  last, and the command line of the installation, \<open>scripts/install-standalone.mjs\<close>. The compiler is a child process:
  what it does is the list of its events, and what it leaves on disk is an argument.
\<close>

subsection \<open>The signal of a cancellation\<close>

datatype abort_reason = TextReason string | OtherReason

definition cancellation_signal :: "abort_reason option \<Rightarrow> string" where
  "cancellation_signal reason =
     (case reason of Some (TextReason s) \<Rightarrow> if starts_with ''SIG'' s then s else ''SIGTERM'' | _ \<Rightarrow> ''SIGTERM'')"

datatype build_kill = KillBuildGroup int string | KillBuildChild string

record build_child =
  bc_pid :: "int option"
  bc_windows :: bool
  bc_killGroup :: "string \<Rightarrow> kill_answer"
  bc_killChild :: "string \<Rightarrow> kill_answer"

definition kill_error :: "kill_answer \<Rightarrow> failure_cause option" where
  "kill_error a = (case a of KillError e \<Rightarrow> Some e | _ \<Rightarrow> None)"

text \<open>\<open>running\<close>: the child has neither an exit code nor a signal. \<open>ESRCH\<close> is no error.\<close>

definition signal_build_tree :: "build_child \<Rightarrow> bool \<Rightarrow> string \<Rightarrow> failure_cause option \<times> build_kill list" where
  "signal_build_tree bc running sig =
     (if \<not> running then (None, [])
      else case (bc_windows bc, bc_pid bc) of
        (False, Some pid) \<Rightarrow> (kill_error (bc_killGroup bc sig), [KillBuildGroup pid sig])
      | _ \<Rightarrow> (kill_error (bc_killChild bc sig), [KillBuildChild sig]))"

subsection \<open>One build step\<close>

text \<open>\<open>bs_abort\<close>: the abort signal of the owner, with its reason once it is aborted. \<open>bs_timer\<close>: the timer of the
  escalation is pending. \<open>bs_uncaught\<close> is an exception that leaves the listener or the timer.\<close>

record build_step =
  bs_running :: bool
  bs_abort :: "abort_reason option"
  bs_timer :: bool
  bs_kills :: "build_kill list"
  bs_spawnError :: "failure_cause option"
  bs_uncaught :: "failure_cause option"

datatype build_event =
    OwnerAborts abort_reason
  | GraceElapses
  | BuildErrors failure_cause
  | BuildExits
  | BuildCloses "int option" "string option"

definition spawned_step :: build_step where
  "spawned_step = \<lparr>bs_running = True, bs_abort = None, bs_timer = False, bs_kills = [], bs_spawnError = None, bs_uncaught = None\<rparr>"

definition uncaught_first :: "failure_cause option \<Rightarrow> build_step \<Rightarrow> build_step" where
  "uncaught_first e b = b\<lparr>bs_uncaught := (if bs_uncaught b = None then e else bs_uncaught b)\<rparr>"

definition abort_handler :: "build_child \<Rightarrow> build_step \<Rightarrow> build_step" where
  "abort_handler bc b =
     (let sig = cancellation_signal (bs_abort b);
          (failure, calls) = signal_build_tree bc (bs_running b) sig;
          b1 = b\<lparr>bs_kills := bs_kills b @ calls\<rparr>
      in case failure of
           Some e \<Rightarrow> uncaught_first (Some e) b1
         | None \<Rightarrow> if sig \<noteq> ''SIGKILL'' then b1\<lparr>bs_timer := True\<rparr> else b1)"

text \<open>An abort signal aborts once. The second \<open>error\<close> event of a child finds no listener.\<close>

fun build_step_event :: "build_child \<Rightarrow> build_event \<Rightarrow> build_step \<Rightarrow> build_step" where
  "build_step_event bc (OwnerAborts reason) b =
     (if bs_abort b \<noteq> None then b else abort_handler bc (b\<lparr>bs_abort := Some reason\<rparr>))"
| "build_step_event bc GraceElapses b =
     (if \<not> bs_timer b then b
      else let (failure, calls) = signal_build_tree bc (bs_running b) ''SIGKILL''
           in uncaught_first failure (b\<lparr>bs_timer := False, bs_kills := bs_kills b @ calls\<rparr>))"
| "build_step_event bc (BuildErrors e) b =
     (if bs_spawnError b = None then b\<lparr>bs_spawnError := Some e\<rparr> else uncaught_first (Some e) b)"
| "build_step_event bc BuildExits b = b\<lparr>bs_running := False\<rparr>"
| "build_step_event bc (BuildCloses exitCode signal) b = b"

text \<open>The check for an abort right after \<open>spawn\<close> cannot succeed: nothing runs in between. The events up to the close of the child; \<open>None\<close> when it has not closed yet.\<close>

fun watch_step ::
  "build_child \<Rightarrow> build_event list \<Rightarrow> build_step \<Rightarrow> build_step \<times> ((int option \<times> string option) \<times> build_event list) option" where
  "watch_step bc [] b = (b, None)"
| "watch_step bc (BuildCloses exitCode signal # rest) b = (b, Some ((exitCode, signal), rest))"
| "watch_step bc (e # rest) b = watch_step bc rest (build_step_event bc e b)"

datatype build_end = BuildFails failure_cause | BuildEnds "int option" "string option" | BuildPending

datatype build_effect = SpawnBuild "string list" string | SignalBuild build_kill

text \<open>A build: the reason of an abort that has happened, the events to come, the effects and the exceptions of callbacks.\<close>

record build_run =
  bn_abort :: "abort_reason option"
  bn_events :: "build_event list"
  bn_effects :: "build_effect list"
  bn_uncaught :: "failure_cause list"

text \<open>\<open>child args cwd\<close> is what \<open>spawn\<close> gives: an exception, or the child.\<close>

type_synonym build_spawn = "string list \<Rightarrow> string \<Rightarrow> failure_cause + build_child"

definition run_build_step :: "build_spawn \<Rightarrow> string list \<Rightarrow> string \<Rightarrow> build_run \<Rightarrow> build_end \<times> build_run" where
  "run_build_step child args cwd n =
     (if bn_abort n \<noteq> None then (BuildEnds None (Some (cancellation_signal (bn_abort n))), n)
      else case child args cwd of
        Inl e \<Rightarrow> (BuildFails e, n)
      | Inr bc \<Rightarrow>
          (let (b, closed) = watch_step bc (bn_events n) spawned_step;
               n1 = n\<lparr>bn_abort := bs_abort b,
                 bn_events := (case closed of None \<Rightarrow> [] | Some (_, rest) \<Rightarrow> rest),
                 bn_effects := bn_effects n @ SpawnBuild args cwd # map SignalBuild (bs_kills b),
                 bn_uncaught := bn_uncaught n @ (case bs_uncaught b of None \<Rightarrow> [] | Some e \<Rightarrow> [e])\<rparr>
           in case closed of
                None \<Rightarrow> (BuildPending, n1)
              | Some ((exitCode, signal), _) \<Rightarrow>
                  (case bs_spawnError b of Some e \<Rightarrow> (BuildFails e, n1) | None \<Rightarrow> (BuildEnds exitCode signal, n1))))"

subsection \<open>The whole build\<close>

definition build_succeeded :: "build_end \<Rightarrow> bool" where
  "build_succeeded e = (case e of BuildEnds (Some c) _ \<Rightarrow> c = 0 | _ \<Rightarrow> False)"

definition package_arguments :: "string \<Rightarrow> string list" where
  "package_arguments tsc = [tsc, ''-p'', ''tsconfig.build.json'']"

definition application_arguments :: "string \<Rightarrow> string list" where
  "application_arguments scriptDirectory = [path_join scriptDirectory ''build-node.mjs'']"

fun build_packages :: "build_spawn \<Rightarrow> string \<Rightarrow> string list \<Rightarrow> build_run \<Rightarrow> build_end option \<times> build_run" where
  "build_packages child tsc [] n = (None, n)"
| "build_packages child tsc (packageDirectory # rest) n =
     (let (packageBuild, n1) = run_build_step child (package_arguments tsc) packageDirectory n
      in if build_succeeded packageBuild then build_packages child tsc rest n1 else (Some packageBuild, n1))"

definition build_once ::
  "build_spawn \<Rightarrow> string \<Rightarrow> string list \<Rightarrow> string \<Rightarrow> string \<Rightarrow> build_run \<Rightarrow> build_end \<times> build_run" where
  "build_once child tsc packageDirectories scriptDirectory skillDirectory n =
     (case build_packages child tsc packageDirectories n of
        (Some packageBuild, n1) \<Rightarrow> (packageBuild, n1)
      | (None, n1) \<Rightarrow> run_build_step child (application_arguments scriptDirectory) skillDirectory n1)"

text \<open>What \<open>start-node.mjs\<close> gives to the launcher as \<open>prepareRuntime\<close>.\<close>

definition development_packages :: "string \<Rightarrow> string list" where
  "development_packages application =
     [path_join_all [application, ''packages'', ''node-runtime''],
      path_join_all [application, ''packages'', ''trust'']]"

definition prepare_runtime :: "build_spawn \<Rightarrow> string \<Rightarrow> string \<Rightarrow> build_run \<Rightarrow> build_end \<times> build_run" where
  "prepare_runtime child tsc scriptDirectory =
     (let application = path_resolve scriptDirectory ''..''
      in build_once child tsc (development_packages application) scriptDirectory application)"

subsection \<open>The signals of a step\<close>

definition kill_signal :: "build_kill \<Rightarrow> string" where
  "kill_signal k = (case k of KillBuildGroup _ s \<Rightarrow> s | KillBuildChild s \<Rightarrow> s)"

text \<open>Before an abort no signal is sent; after it the signal of the cancellation, and then at most one \<open>SIGKILL\<close>.\<close>

definition signals_in_order :: "build_step \<Rightarrow> bool" where
  "signals_in_order b \<longleftrightarrow>
     (case bs_abort b of
        None \<Rightarrow> bs_kills b = [] \<and> \<not> bs_timer b
      | Some reason \<Rightarrow>
          (bs_kills b = [] \<and> \<not> bs_running b \<or>
           map kill_signal (bs_kills b) = [cancellation_signal (Some reason)] \<or>
           map kill_signal (bs_kills b) = [cancellation_signal (Some reason), ''SIGKILL''] \<and> \<not> bs_timer b))"

lemma signalled_tree:
  "signal_build_tree bc running sig = (failure, calls) \<Longrightarrow>
   map kill_signal calls = (if running then [sig] else []) \<and> (\<not> running \<longrightarrow> failure = None)"
  by (auto simp: signal_build_tree_def kill_signal_def split: if_splits option.splits bool.splits)

lemma uncaught_first_keeps [simp]:
  "bs_kills (uncaught_first e b) = bs_kills b" "bs_abort (uncaught_first e b) = bs_abort b"
  "bs_timer (uncaught_first e b) = bs_timer b" "bs_running (uncaught_first e b) = bs_running b"
  "bs_spawnError (uncaught_first e b) = bs_spawnError b"
  by (simp_all add: uncaught_first_def)

lemma signals_stay_in_order: "signals_in_order b \<Longrightarrow> signals_in_order (build_step_event bc e b)"
proof (induction bc e b rule: build_step_event.induct)
  case (1 bc reason b)
  then show ?case
    using signalled_tree[of bc "bs_running b" "cancellation_signal (Some reason)"]
    by (auto simp: signals_in_order_def abort_handler_def Let_def split: prod.splits option.splits if_splits)
next
  case (2 bc b)
  then show ?case
    using signalled_tree[of bc "bs_running b" "''SIGKILL''"]
    by (auto simp: signals_in_order_def Let_def split: prod.splits option.splits if_splits)
qed (auto simp: signals_in_order_def split: option.splits)

lemma watched_signals: "watch_step bc es b = (b1, r) \<Longrightarrow> signals_in_order b \<Longrightarrow> signals_in_order b1"
  by (induction bc es b rule: watch_step.induct) (simp_all add: signals_stay_in_order del: build_step_event.simps)

text \<open>A step starts nothing once the owner has aborted. Otherwise it starts one child, and signals it only for an abort
  while it runs: at most twice, first with the signal of the cancellation and then with \<open>SIGKILL\<close>.\<close>

lemma build_step_effects:
  assumes "run_build_step child args cwd n = (e, n1)"
  shows "bn_abort n \<noteq> None \<and> n1 = n \<and> e = BuildEnds None (Some (cancellation_signal (bn_abort n))) \<or>
    bn_abort n = None \<and> (n1 = n \<and> (\<exists>failure. e = BuildFails failure) \<or>
      (\<exists>kills. bn_effects n1 = bn_effects n @ SpawnBuild args cwd # map SignalBuild kills \<and>
        (case bn_abort n1 of None \<Rightarrow> kills = []
         | Some reason \<Rightarrow> map kill_signal kills \<in> {[], [cancellation_signal (Some reason)],
             [cancellation_signal (Some reason), ''SIGKILL'']})))"
proof (cases "bn_abort n")
  case None
  show ?thesis
  proof (cases "child args cwd")
    case (Inl f)
    with assms None show ?thesis by (auto simp: run_build_step_def)
  next
    case (Inr bc)
    obtain b closed where w: "watch_step bc (bn_events n) spawned_step = (b, closed)" by fastforce
    have "signals_in_order spawned_step" by (simp add: signals_in_order_def spawned_step_def)
    then have inv: "signals_in_order b" using watched_signals[OF w] by blast
    have eff: "bn_effects n1 = bn_effects n @ SpawnBuild args cwd # map SignalBuild (bs_kills b)" "bn_abort n1 = bs_abort b"
      using assms None Inr w by (auto simp: run_build_step_def Let_def split: option.splits)
    have "case bn_abort n1 of None \<Rightarrow> bs_kills b = []
         | Some reason \<Rightarrow> map kill_signal (bs_kills b) \<in> {[], [cancellation_signal (Some reason)],
             [cancellation_signal (Some reason), ''SIGKILL'']}"
      using inv eff(2) by (auto simp: signals_in_order_def split: option.splits)
    with eff(1) None show ?thesis by blast
  qed
next
  case (Some reason)
  with assms show ?thesis by (simp add: run_build_step_def)
qed

subsection \<open>The order of the steps\<close>

fun spawned_builds :: "build_effect list \<Rightarrow> (string list \<times> string) list" where
  "spawned_builds [] = []"
| "spawned_builds (SpawnBuild args cwd # es) = (args, cwd) # spawned_builds es"
| "spawned_builds (SignalBuild k # es) = spawned_builds es"

lemma spawned_builds_append [simp]: "spawned_builds (a @ b) = spawned_builds a @ spawned_builds b"
  by (induction a rule: spawned_builds.induct) simp_all

lemma spawned_builds_signals [simp]: "spawned_builds (map SignalBuild ks) = []"
  by (induction ks) simp_all

lemma succeeded_step_spawns:
  assumes "run_build_step child args cwd n = (e, n1)" "build_succeeded e"
  shows "bn_abort n = None \<and> spawned_builds (bn_effects n1) = spawned_builds (bn_effects n) @ [(args, cwd)]"
  using build_step_effects[OF assms(1)] assms(2) by (auto simp: build_succeeded_def)

lemma built_packages:
  "build_packages child tsc ds n = (None, n1) \<Longrightarrow>
   spawned_builds (bn_effects n1) = spawned_builds (bn_effects n) @ map (Pair (package_arguments tsc)) ds"
proof (induction ds arbitrary: n)
  case (Cons d ds)
  obtain e n2 where s: "run_build_step child (package_arguments tsc) d n = (e, n2)" by fastforce
  with Cons.prems have "build_succeeded e" "build_packages child tsc ds n2 = (None, n1)" by (auto split: if_splits)
  with Cons.IH[of n2] succeeded_step_spawns[OF s] show ?case by simp
qed simp

text \<open>A build that ends with exit code 0 has compiled every package in its order and then the application.\<close>

lemma successful_build_is_complete:
  assumes "build_once child tsc ds scripts skill n = (e, n1)" "build_succeeded e"
  shows "spawned_builds (bn_effects n1) =
    spawned_builds (bn_effects n) @ map (Pair (package_arguments tsc)) ds @ [(application_arguments scripts, skill)]"
proof -
  have failed: "\<not> build_succeeded e'" if "build_packages child tsc ds n = (Some e', n')" for e' n'
    using that by (induction ds arbitrary: n) (auto split: prod.splits if_splits)
  obtain n2 where p: "build_packages child tsc ds n = (None, n2)"
    using assms failed by (fastforce simp: build_once_def split: prod.splits option.splits)
  with assms(1) have s: "run_build_step child (application_arguments scripts) skill n2 = (e, n1)"
    by (simp add: build_once_def)
  show ?thesis using built_packages[OF p] succeeded_step_spawns[OF s assms(2)] by simp
qed

text \<open>An owner that has aborted starts no further step: the rest of the build is skipped, and the result is no success.\<close>

lemma aborted_build_stops:
  assumes "bn_abort n \<noteq> None"
  shows "build_once child tsc ds scripts skill n = (BuildEnds None (Some (cancellation_signal (bn_abort n))), n)"
  using assms by (cases ds) (auto simp: build_once_def run_build_step_def build_succeeded_def)

text \<open>A cancelled build of two packages: the compiler of the first ignores \<open>SIGINT\<close> until the grace has elapsed.\<close>

lemma sample_cancelled_build:
  "(let child = (\<lambda>_ _. Inr \<lparr>bc_pid = Some 9, bc_windows = False, bc_killGroup = \<lambda>_. Killed, bc_killChild = \<lambda>_. Killed\<rparr>);
        n = \<lparr>bn_abort = None, bn_events = [], bn_effects = [], bn_uncaught = []\<rparr>
    in map_prod id bn_effects (build_once child ''tsc'' [''p'', ''q''] ''s'' ''a''
         (n\<lparr>bn_events := [OwnerAborts (TextReason ''SIGINT''), GraceElapses, BuildExits, BuildCloses None (Some ''SIGKILL'')]\<rparr>)))
   = (BuildEnds None (Some ''SIGKILL''),
      [SpawnBuild (package_arguments ''tsc'') ''p'', SignalBuild (KillBuildGroup 9 ''SIGINT''),
       SignalBuild (KillBuildGroup 9 ''SIGKILL'')])"
  by code_simp

subsection \<open>Building the application: \<open>build-node.mjs\<close>\<close>

text \<open>What lies outside: the answer to \<open>rm\<close> with what a failure leaves, the events of the compiler and what it leaves
  on disk, and the operations of the copy.\<close>

record node_build =
  nb_execPath :: string
  nb_tsc :: string
  nb_removeFails :: "(string \<times> (asset_files \<Rightarrow> asset_files)) option"
  nb_kill :: kill_env
  nb_compilerEvents :: "run_event list"
  nb_compiler :: "asset_files \<Rightarrow> asset_files"
  nb_copy :: copy_env

datatype node_build_error =
    RemovalFails string
  | CompilerFails run_end
  | CompilationFailed string "int option"
  | AssetsFail copy_error
  | NodeBuildPending

definition node_assets :: "asset_entry list" where
  "node_assets =
     [\<lparr>as_source = ''src/config/settings.json'', as_destination = ''src/config/settings.json''\<rparr>,
      \<lparr>as_source = ''system-prompt.md'', as_destination = ''system-prompt.md''\<rparr>]"

definition output_directory :: "string \<Rightarrow> string" where
  "output_directory skillDirectory = path_join skillDirectory ''dist''"

definition node_copy_options :: "string \<Rightarrow> copy_options" where
  "node_copy_options skillDirectory =
     \<lparr>co_sourceDirectory = skillDirectory, co_destinationDirectory = output_directory skillDirectory, co_assets = node_assets\<rparr>"

definition remove_tree :: "string \<Rightarrow> asset_files \<Rightarrow> asset_files" where
  "remove_tree directory files = (\<lambda>p. if p = directory \<or> starts_with (directory @ ''/'') p then None else files p)"

definition compiler_request :: "node_build \<Rightarrow> process_request" where
  "compiler_request nb = \<lparr>rq_command = nb_execPath nb, rq_args = Some (package_arguments (nb_tsc nb)), rq_shell = NoShell\<rparr>"

definition compiler_options :: run_options where
  "compiler_options = \<lparr>rx_timeoutMs = Some 120000, rx_terminationGraceMs = None, rx_maxCaptureBytes = None, rx_aborted = False\<rparr>"

text \<open>With a failed compilation what the compiler printed, its standard output before its standard error.\<close>

definition build_node :: "node_build \<Rightarrow> string \<Rightarrow> asset_files \<Rightarrow> (node_build_error + unit) \<times> asset_files" where
  "build_node nb skillDirectory files =
     (case nb_removeFails nb of
        Some (m, left) \<Rightarrow> (Inl (RemovalFails m), left files)
      | None \<Rightarrow>
          (let files1 = nb_compiler nb (remove_tree (output_directory skillDirectory) files) in
           case run_process (nb_kill nb) (compiler_request nb) compiler_options (nb_compilerEvents nb) of
             RunDone compileResult \<Rightarrow>
               if pr_exitCode compileResult \<noteq> Some 0
               then (Inl (CompilationFailed (pr_stdout compileResult @ pr_stderr compileResult) (pr_exitCode compileResult)), files1)
               else (case copy_assets (nb_copy nb) (node_copy_options skillDirectory) files1 of
                       (Inl e, files2) \<Rightarrow> (Inl (AssetsFail e), files2)
                     | (Inr _, files2) \<Rightarrow> (Inr (), files2))
           | StillRunning \<Rightarrow> (Inl NodeBuildPending, files1)
           | e \<Rightarrow> (Inl (CompilerFails e), files1)))"

text \<open>A successful build ran the compiler to exit code 0 on a tree without the old output, and both assets have then
  been copied from what the compiler left.\<close>

lemma node_build_result:
  assumes "build_node nb skill files = (Inr (), files')"
  shows "\<exists>compileResult files1.
    run_process (nb_kill nb) (compiler_request nb) compiler_options (nb_compilerEvents nb) = RunDone compileResult \<and>
    pr_exitCode compileResult = Some 0 \<and>
    files1 = nb_compiler nb (remove_tree (output_directory skill) files) \<and>
    copy_assets (nb_copy nb) (node_copy_options skill) files1 = (Inr (), files')"
  using assms by (auto simp: build_node_def Let_def split: option.splits prod.splits run_end.splits if_splits sum.splits)

subsection \<open>The command line of the installation\<close>

definition install_command ::
  "string option \<Rightarrow> (string \<Rightarrow> installer_env) \<Rightarrow> install_state \<Rightarrow> lock_directory
     \<Rightarrow> (string + string) \<times> install_state \<times> lock_directory" where
  "install_command pnpmCliPath installer st dir =
     (case pnpmCliPath of
        Some (c # cs) \<Rightarrow>
          (case install_standalone (installer (c # cs)) st dir of
             (Inl e, st1, dir1, _) \<Rightarrow> (Inl e, st1, dir1)
           | (Inr result, st1, dir1, _) \<Rightarrow>
               (map_sum id (\<lambda>paths. ''Installed git-commits-push '' @ ir_releaseName result @ '' at ''
                    @ publicExecutablePath paths @ [CHR 0x0A]) (prepare_installation (installer (c # cs))), st1, dir1))
      | _ \<Rightarrow> (Inl ''pnpm did not expose npm_execpath; run `pnpm run install:standalone`.'', st, dir))"

text \<open>Without the package manager nothing is touched; a message is printed only after an installation.\<close>

lemma install_command_result:
  "fst (install_command p installer st dir) = Inr m \<Longrightarrow>
   \<exists>c cs result. p = Some (c # cs) \<and> fst (install_standalone (installer (c # cs)) st dir) = Inr result"
  "p = None \<or> p = Some [] \<Longrightarrow> snd (install_command p installer st dir) = (st, dir)"
  by (auto simp: install_command_def split: option.splits list.splits prod.splits sum.splits)

end
