(* ===== verification/Yaml_Front_End.thy ===== *)
theory Yaml_Front_End
  imports JSON_Text
begin

text \<open>
  The YAML front end of the build, \<open>packages/node-runtime/src/parse-yaml.ts\<close>: the parser is the js-yaml library's and an
  argument here; the code chooses the name of the source, unwraps a single document and describes an error.
\<close>

datatype yaml_cause =
    YamlException "(nat \<times> nat) option" "string option" string \<comment> \<open>\<open>mark\<close>, \<open>reason\<close>, \<open>message\<close>\<close>
  | OtherError string
  | ThrownValue string

record yaml_parse_error =
  yp_message :: string
  yp_sourceName :: string
  yp_line :: "nat option"
  yp_column :: "nat option"

datatype 'd yaml_result = OneDocument 'd | Documents "'d list"

definition DEFAULT_YAML_SOURCE_NAME :: string where "DEFAULT_YAML_SOURCE_NAME = ''<yaml>''"

definition cause_mark :: "yaml_cause \<Rightarrow> (nat \<times> nat) option" where
  "cause_mark c = (case c of YamlException m _ _ \<Rightarrow> m | _ \<Rightarrow> None)"

definition cause_reason :: "yaml_cause \<Rightarrow> string" where
  "cause_reason c = (case c of YamlException _ reason message \<Rightarrow> nullish reason message
     | OtherError message \<Rightarrow> message | ThrownValue s \<Rightarrow> s)"

definition yaml_location :: "(nat \<times> nat) option \<Rightarrow> string" where
  "yaml_location m = (case m of None \<Rightarrow> []
     | Some (line, column) \<Rightarrow> '' at line '' @ show_nat (line + 1) @ '', column '' @ show_nat (column + 1))"

definition yaml_parse_error_of :: "string \<Rightarrow> yaml_cause \<Rightarrow> yaml_parse_error" where
  "yaml_parse_error_of sourceName c =
     \<lparr>yp_message = ''Invalid YAML in '' @ json_string sourceName @ yaml_location (cause_mark c) @ '': '' @ cause_reason c,
      yp_sourceName = sourceName, yp_line = map_option (\<lambda>m. fst m + 1) (cause_mark c),
      yp_column = map_option (\<lambda>m. snd m + 1) (cause_mark c)\<rparr>"

definition parse_yaml ::
  "(string \<Rightarrow> string \<Rightarrow> yaml_cause + 'd list) \<Rightarrow> string \<Rightarrow> string option \<Rightarrow> yaml_parse_error + 'd yaml_result" where
  "parse_yaml loadAll source option_name =
     (let trimmed = trim (nullish option_name []);
          sourceName = (if trimmed = [] then DEFAULT_YAML_SOURCE_NAME else trimmed)
      in case loadAll source sourceName of
           Inl c \<Rightarrow> Inl (yaml_parse_error_of sourceName c)
         | Inr [d] \<Rightarrow> Inr (OneDocument d)
         | Inr ds \<Rightarrow> Inr (Documents ds))"

text \<open>Lines and columns are counted from one and come together.\<close>

lemma yaml_position_complete:
  "yp_line (yaml_parse_error_of s c) = None \<longleftrightarrow> yp_column (yaml_parse_error_of s c) = None"
  by (simp add: yaml_parse_error_of_def)

end
