(* ===== verification/Spec2Isabelle.thy ===== *)
theory Spec2Isabelle
  imports Coordinator_Liveness Owned_Loop Execution_Controller Discovery_Phase Launcher Cutover_Preflight Trust_Tokens
    Standalone_Installer LLM_Bridge Pipeline_Supervisor Git_Environment Telemetry Reporter Settings Entry_Points
    State_Migration V2_Migration Build_Commands Yaml_Front_End
begin

text \<open>
  A verification development for \<open>git-commits-push\<close>, a program that finds the Git repositories of a machine, asks
  a language model to split their changes into commits, makes the commits and publishes them. Several terminals and
  agents may call it at the same time; the program makes one of them work at a time.

  \<^bold>\<open>The program.\<close> A public invocation (\<open>src/src/modules/reconciliation/public-launcher.ts\<close>) takes the state
  cutover lock, looks for the state of retired versions, opens the coordinator's SQLite file and registers a request:
  it becomes the owner, or it is coalesced into the request of a live owner. The owner runs passes
  (\<open>owned-reconciliation-loop.ts\<close>). A pass is a process group of its own (\<open>supervisor-pass.ts\<close> starts
  \<open>execution-controller.ts\<close>), registered in the coordinator's row before it may start and removed from it only when
  the whole group is dead, so that the next owner can first kill what a crashed owner left behind. Inside a pass the
  pipeline runs in two phases: \<open>phases/step1-discovery-validation.ts\<close> finds repositories, stages, tests, scans for
  secrets and delegates planning jobs to a model; \<open>phases/step2-commit-push.ts\<close> takes the answers, validates the
  messages, makes the commits, pushes them, and delegates retries until every repository is settled.

  \<^bold>\<open>Theories.\<close> Every theory opens with the files it models and how its state corresponds to them.

  Shared: \<open>Prelude\<close> (JavaScript strings, numbers, results, collections of rewrite rules), \<open>Posix_Paths\<close>
  (\<open>node:path\<close> and \<open>reconciler-paths.ts\<close>), \<open>JS_Regex\<close> (the regular expressions as data, matching as a relation and as
  a function, proved equal).

  The coordinator: \<open>Coordinator_State\<close> (\<open>reconciler-state.ts\<close>: the row, its fail-closed reader and the declarative
  contract of a valid state), \<open>Process_Identity\<close> (what is observed of processes), \<open>Coordinator_Ops\<close> (\<open>reconciler.ts\<close>,
  \<open>active-execution-state.ts\<close>, \<open>reconciler-transaction.ts\<close>: each transaction on the table), \<open>Coordinator_Spec\<close> (the
  abstract transitions on the decoded record, the refinement of every operation and the two interfaces
  \<open>coordinator_transition\<close> and \<open>fenced_transition\<close> with their interpretations), \<open>Coordinator_Admission\<close> (admission under
  interference, fencing of former owners), \<open>Coordinator_System\<close> (all launchers and process groups together as a step
  relation with its invariant), \<open>Reconciler_Db\<close> (\<open>reconciler-db.ts\<close>: opening and initialization).

  Executions: \<open>Execution_Boundary\<close> (\<open>execution-boundary-process.ts\<close>: signals and termination of a process group),
  \<open>Control_Protocol\<close> (the messages), \<open>Execution_Controller\<close> (the controller process, one function per callback),
  \<open>Supervisor_Pass\<close> (the launcher's side of one pass), \<open>Owned_Loop\<close> (recovery, passes, cleanup, the loop over
  generations), \<open>Legacy_Queue\<close> (\<open>legacy-queue-state.ts\<close>: the retired file queue), \<open>Launcher\<close> (one invocation).

  The pipeline: \<open>Commit_Types\<close>, \<open>Commit_Messages\<close> (validator, formatter, repair), \<open>Git_Ops\<close> (calls of Git and of the
  file system with their log), \<open>Git_Environment\<close> (\<open>git-exec.ts\<close>, \<open>git-utils.ts\<close>: what a Git process inherits),
  \<open>Push\<close>, \<open>Publisher\<close>, \<open>Push_Only\<close>, \<open>Secret_Scanner\<close>, \<open>Repo_Validation\<close>, \<open>Retry_Policy\<close>, \<open>Commit_Phase\<close>,
  \<open>Discovery_Phase\<close>, \<open>State_Schema\<close> (\<open>state-schema.ts\<close>: the phases' state as it is read back from JSON), \<open>Reporter\<close>.

  Around the pipeline: \<open>Pipeline_Supervisor\<close> (\<open>node-supervisor.ts\<close>: orchestrator and bridge as two children),
  \<open>LLM_Bridge\<close> (\<open>turnlock-to-llm-bridge.ts\<close>, \<open>auth-resolver.ts\<close>, \<open>llm-invoker.ts\<close>, \<open>batch-manifest.ts\<close>: delegations,
  model calls, results, resumption), \<open>Process_Runner\<close> (\<open>packages/node-runtime/src/run-process.ts\<close>), \<open>Trust_Tokens\<close> and
  \<open>Private_Files\<close> (\<open>packages/trust\<close>), \<open>Telemetry\<close> and \<open>Sensitive_Diagnostics\<close> (\<open>modules/telemetry\<close>, the sanitizer),
  \<open>Request_Identity\<close> (\<open>modules/orders\<close>, \<open>execution-identity.ts\<close>, \<open>cli-bootstrap.ts\<close>), \<open>Settings\<close>,
  \<open>Git_Executable\<close> (\<open>git-executable.ts\<close>, \<open>git-commits-push.ts\<close>) and \<open>Entry_Points\<close> (\<open>bin\<close>, the orchestrator).

  Installation and migration: \<open>Install_Lock\<close>, \<open>Release_Identity\<close>, \<open>Release_Tree\<close>, \<open>Deployment_Builder\<close>,
  \<open>Standalone_Installer\<close> (\<open>modules/installation\<close>), \<open>Cutover_Preflight\<close> (\<open>reconciler-preflight.ts\<close>,
  \<open>historical-turnlock-state.ts\<close>, \<open>node-cutover-preflight.ts\<close>), \<open>V2_Migration\<close> and \<open>State_Migration\<close> (\<open>scripts\<close>),
  \<open>Asset_Copy\<close> and \<open>Yaml_Front_End\<close> (\<open>packages/node-runtime/src\<close>), \<open>Build_Commands\<close> (the build of a checkout in
  \<open>scripts\<close> and its cancellation), \<open>JSON_Text\<close> (\<open>JSON.stringify\<close> of a string).

  \<^bold>\<open>How the code is modelled.\<close> A row, an options object or a state is a record with the source's fields; an error
  class is a constructor and a function that may throw returns a sum. The Git processes, the file system, SQLite, the
  operating system, the clock, SHA-256, JSON, random identifiers and the model's answers are not the source's: they
  are arguments (\<open>git_env\<close>, \<open>os_view\<close>, \<open>os_ops\<close>, \<open>admission_env\<close>, \<open>open_env\<close>, \<open>queue_env\<close>, \<open>launcher_env\<close>,
  \<open>phase_env\<close>, \<open>disc_env\<close>, \<open>bridge_env\<close>, \<open>installer_env\<close>, \<open>store_view\<close>, \<open>preflight_env\<close>, \<open>move_env\<close>, \<open>v2_env\<close>,
  \<open>git_host\<close>, \<open>copy_env\<close>, and the scripts of \<open>Owned_Loop\<close> and \<open>Supervisor_Pass\<close>), over which every property is
  quantified. A process with children is a state machine over the events of those children (\<open>Execution_Controller\<close>,
  \<open>Process_Runner\<close>, \<open>Pipeline_Supervisor\<close>). Where other processes act between two steps, the environment holds a function on the shared state for
  that moment; every await of the controller is such a point too. What a component does to the outside is a trace or
  a log in its state (\<open>gs_calls\<close>, \<open>lp_trace\<close>, \<open>la_trace\<close>, \<open>qs_moved\<close>), and the safety properties speak of it.
  Strings are lists of code units below 256.

  \<^bold>\<open>What the theorems show.\<close> Mutual exclusion: at most one live Git-capable execution exists, it is authorized by a
  durable row, and a generation counts as completed only after the termination of its group
  (\<open>Coordinator_System\<close>); the owner's loop and the launcher send no START and enter no loop without that
  (\<open>Owned_Loop\<close>, \<open>Launcher\<close>); admission is atomic and never loses a request, a former owner changes nothing
  (\<open>Coordinator_Admission\<close>); the termination of a group proves its absence, signals no other group and returns
  (\<open>Execution_Boundary\<close>); the controller is inert before START and reports a result only after it saw its group empty
  (\<open>Execution_Controller\<close>). Publication: a push moves one ref of one pinned endpoint from a leased baseline to an exact
  descendant and is confirmed there (\<open>Push\<close>, \<open>Push_Only\<close>); every commit Git is seen to make carries out one plan, and it
  is recorded when Git told its object ID, unless the publication ends in \<open>GitExecError\<close> (\<open>Publisher\<close>,
  \<open>Commit_Phase\<close>); the phases end, with bounded retries (\<open>Retry_Policy\<close>, \<open>Commit_Phase\<close>); nothing is
  delegated that was not staged, scanned and hashed (\<open>Discovery_Phase\<close>); an added secret blocks (\<open>Secret_Scanner\<close>).
  State: opening, migrating, moving and reading the durable state never destroys or invents any (\<open>Reconciler_Db\<close>,
  \<open>Legacy_Queue\<close>, \<open>Coordinator_State\<close>, \<open>V2_Migration\<close>, \<open>State_Migration\<close>); the cutover gate opens exactly on quiescence
  (\<open>Cutover_Preflight\<close>); the coordinator can always be brought back to idle (\<open>Coordinator_Liveness\<close>); every state a phase
  produces is one the schema accepts (\<open>State_Schema\<close>). Bridge and processes: every job of a batch has a result or an error
  that says why (\<open>LLM_Bridge\<close>), a run of a process is reported complete with its reason (\<open>Process_Runner\<close>), and exit
  code 0 of the pipeline means both stages succeeded (\<open>Pipeline_Supervisor\<close>). Trust: a token is accepted once, by its
  issuer's descendants, in its time (\<open>Trust_Tokens\<close>), and a Git process that
  \<open>git-exec.ts\<close> or the trusted environment of \<open>git-utils.ts\<close> describes carries a fresh one (\<open>Git_Environment\<close>); the
  commands that \<open>diff.ts\<close>, \<open>queue-retry.ts\<close> and the validators run have the inherited environment.
  Installation: an activated release has the digest of its name, a lock record protects its live owner, and the digest
  determines the tree (\<open>Standalone_Installer\<close>, \<open>Install_Lock\<close>, \<open>Release_Tree\<close>); assets are copied only below their root
  (\<open>Asset_Copy\<close>), and a cancelled build of a checkout starts no further step (\<open>Build_Commands\<close>); the Git of an old
  platform is validated and its place on \<open>PATH\<close> is given back (\<open>Git_Executable\<close>). The
  library also holds, beside the listed properties, that settings are read back as they are written, that the identity of
  a request is inherited, that telemetry tells of a blocked diff the findings and never the line, and that the report
  names every commit.

  \<^bold>\<open>Bounds and fuel.\<close> The admission makes eight attempts, as the code does, and then fails with
  \<open>AdmissionContended\<close>; WAL is tried eight times. The polling of a process group is bounded by the clock: fuel above
  both timeouts in milliseconds is enough (\<open>terminate_returns\<close>). The walk over directories takes fuel for its depth;
  any fuel above the depth of the tree gives the result (\<open>repository_walk_ends\<close>). The owner's loop may run as long as
  requests arrive, so it consumes one script per pass and is \<^const>\<open>None\<close> when they run out. The retry budget of a
  repository is at most nine, which bounds the delegations.

  \<^bold>\<open>Not modelled.\<close> The event-sink, turnlock, llm-runtime, js-yaml and ulid packages, which are arguments; the moment at
  which the components write a telemetry event or a line on standard error (the events and the report themselves are
  modelled); \<open>execution-test-observer.ts\<close>, which acts only in tests; the compiler, whose events and output are arguments of the build; timers and the installation of signal handlers, whose effects are events.
  Text is modelled up to Latin-1, so the case folding of other scripts in the regular expressions is not.
\<close>

end
